(* ===== verification/Prelude.thy ===== *)
theory Prelude
  imports Complex_Main "HOL-Library.Word"
begin

text \<open>
  Shared vocabulary of the development: C and C++ strings, the character classes of
  \<^verbatim>\<open><cctype>\<close> in the C locale, decimal printing, truncating integer division, and the
  \<^verbatim>\<open>std::string\<close> searches the components use, with the lemmas about them that more than one
  component needs.

  A C++ \<^verbatim>\<open>std::string\<close> is a \<^typ>\<open>string\<close> (a list of bytes, embedded NUL allowed). A C string is
  the part of it before the first NUL (\<open>c_str\<close>), and reading it at its length gives the NUL.
\<close>

named_theorems model_defs \<open>definitions of the model that proofs unfold as a group\<close>
named_theorems char_class \<open>membership facts of the character classes\<close>

type_synonym u16 = "16 word"
type_synonym u8 = "8 word"
type_synonym bytes = "u8 list"
type_synonym u32 = "32 word"

section \<open>Characters\<close>

text \<open>\<^verbatim>\<open>static_cast<unsigned char>(c)\<close> as a number.\<close>

abbreviation uchar :: "char \<Rightarrow> nat" where
  "uchar c \<equiv> of_char c"

abbreviation NUL :: char where
  "NUL \<equiv> CHR 0x00"

definition isdigit :: "char \<Rightarrow> bool" where
  "isdigit c \<longleftrightarrow> 48 \<le> uchar c \<and> uchar c \<le> 57"

definition islower :: "char \<Rightarrow> bool" where
  "islower c \<longleftrightarrow> 97 \<le> uchar c \<and> uchar c \<le> 122"

definition isupper :: "char \<Rightarrow> bool" where
  "isupper c \<longleftrightarrow> 65 \<le> uchar c \<and> uchar c \<le> 90"

definition isalpha :: "char \<Rightarrow> bool" where
  "isalpha c \<longleftrightarrow> isupper c \<or> islower c"

definition isspace :: "char \<Rightarrow> bool" where
  "isspace c \<longleftrightarrow> uchar c = 32 \<or> (9 \<le> uchar c \<and> uchar c \<le> 13)"

definition tolower :: "char \<Rightarrow> char" where
  "tolower c = (if isupper c then char_of (uchar c + 32) else c)"

lemmas char_class_defs = isdigit_def islower_def isupper_def isalpha_def isspace_def

abbreviation (input) quote :: char where
  "quote \<equiv> CHR 0x27"

section \<open>Machine integers\<close>

text \<open>
  A 32-bit \<^verbatim>\<open>int\<close> is an \<^typ>\<open>int\<close> in its range. Conversion to it is modulo \<open>2^32\<close>. A product or sum
  that leaves the range is undefined in C++; the model wraps, which is what the machine does.
\<close>

definition wrap32 :: "int \<Rightarrow> int" where
  "wrap32 k = (k + 2 ^ 31) mod 2 ^ 32 - 2 ^ 31"

definition int_mul :: "int \<Rightarrow> int \<Rightarrow> int" where
  "int_mul a b = wrap32 (a * b)"

definition int_add :: "int \<Rightarrow> int \<Rightarrow> int" where
  "int_add a b = wrap32 (a + b)"

lemma wrap32_range: "- (2 ^ 31) \<le> wrap32 k \<and> wrap32 k < 2 ^ 31"
  by (simp add: wrap32_def)

lemma wrap32_id: "- (2 ^ 31) \<le> k \<Longrightarrow> k < 2 ^ 31 \<Longrightarrow> wrap32 k = k"
  by (simp add: wrap32_def)

section \<open>C strings\<close>

definition c_str :: "string \<Rightarrow> string" where
  "c_str s = takeWhile (\<lambda>c. c \<noteq> NUL) s"

text \<open>\<open>cstr_at s i\<close> is \<^verbatim>\<open>s[i]\<close> of the C string \<open>s\<close>: the terminating NUL at (and after) its end.\<close>

definition cstr_at :: "string \<Rightarrow> nat \<Rightarrow> char" where
  "cstr_at s i = (if i < length s then s ! i else NUL)"

lemma cstr_at_Cons_0 [simp]: "cstr_at (c # s) 0 = c"
  by (simp add: cstr_at_def)

lemma cstr_at_Cons_Suc [simp]: "cstr_at (c # s) (Suc i) = cstr_at s i"
  by (simp add: cstr_at_def)

lemma cstr_at_Cons_numeral [simp]: "cstr_at (c # s) (numeral n) = cstr_at s (pred_numeral n)"
  by (simp add: numeral_eq_Suc)

lemma cstr_at_Nil [simp]: "cstr_at [] i = NUL"
  by (simp add: cstr_at_def)

lemma c_str_id: "NUL \<notin> set s \<Longrightarrow> c_str s = s"
  by (auto simp: c_str_def takeWhile_eq_all_conv)

lemma c_str_no_NUL [simp]: "NUL \<notin> set (c_str s)"
  by (auto simp: c_str_def dest: set_takeWhileD)

lemma c_str_idem [simp]: "c_str (c_str s) = c_str s"
  by (rule c_str_id) simp

section \<open>Decimal printing\<close>

text \<open>\<^verbatim>\<open>std::to_string\<close> on non-negative and signed integers, and \<^verbatim>\<open>"%2.2u"\<close>.\<close>

definition digit_char :: "nat \<Rightarrow> char" where
  "digit_char d = char_of (48 + d mod 10)"

fun nat_to_string :: "nat \<Rightarrow> string" where
  "nat_to_string n =
     (if n < 10 then [digit_char n] else nat_to_string (n div 10) @ [digit_char n])"

declare nat_to_string.simps [simp del]

definition to_string :: "int \<Rightarrow> string" where
  "to_string k = (if k < 0 then CHR ''-'' # nat_to_string (nat (- k)) else nat_to_string (nat k))"

definition fmt_2_2u :: "nat \<Rightarrow> string" where
  "fmt_2_2u n = (if n < 10 then CHR ''0'' # nat_to_string n else nat_to_string n)"

lemma uchar_digit_char: "uchar (digit_char d) = 48 + d mod 10"
proof -
  have "48 + d mod 10 < 256" using mod_less_divisor [of 10 d] by linarith
  then show ?thesis by (simp add: digit_char_def)
qed

lemma isdigit_digit_char [simp]: "isdigit (digit_char d)"
  by (simp add: isdigit_def uchar_digit_char)

lemma char_of_nat_48: "char_of (48 :: nat) = CHR ''0''"
  by code_simp

lemma fmt_2_2u_two_digits:
  "n < 100 \<Longrightarrow> fmt_2_2u n = [digit_char (n div 10), digit_char n]"
  by (auto simp: fmt_2_2u_def nat_to_string.simps [of n] nat_to_string.simps [of "n div 10"]
      digit_char_def char_of_nat_48)

section \<open>Integer conversions\<close>

text \<open>C and C++ integer division truncates towards zero (\<^verbatim>\<open>std::chrono::duration_cast\<close> too).\<close>

definition trunc_div :: "int \<Rightarrow> int \<Rightarrow> int" where
  "trunc_div n d =
     (let q = \<bar>n\<bar> div \<bar>d\<bar> in if (n < 0) = (d < 0) then q else - q)"

lemma trunc_div_nonneg: "0 \<le> n \<Longrightarrow> 0 < d \<Longrightarrow> trunc_div n d = n div d"
  by (simp add: trunc_div_def)

lemma trunc_div_le: "0 \<le> n \<Longrightarrow> 0 < d \<Longrightarrow> trunc_div n d * d \<le> n"
  by (simp add: trunc_div_nonneg) (metis mult.commute pos_mod_sign add.commute le_add_same_cancel1 mult_div_mod_eq)

section \<open>Searching strings\<close>

text \<open>\<^verbatim>\<open>hay.find(needle) != npos\<close>.\<close>

fun starts_with :: "string \<Rightarrow> string \<Rightarrow> bool" where
  "starts_with [] s = True"
| "starts_with (p # ps) [] = False"
| "starts_with (p # ps) (c # cs) = (p = c \<and> starts_with ps cs)"

fun contains_str :: "string \<Rightarrow> string \<Rightarrow> bool" where
  "contains_str needle [] = (needle = [])"
| "contains_str needle (c # cs) = (starts_with needle (c # cs) \<or> contains_str needle cs)"

lemma starts_with_iff: "starts_with p s \<longleftrightarrow> (\<exists>t. s = p @ t)"
  by (induction p s rule: starts_with.induct) auto

lemma contains_str_iff: "contains_str n s \<longleftrightarrow> (\<exists>a b. s = a @ n @ b)"
proof (induction s)
  case Nil
  then show ?case by auto
next
  case (Cons c cs)
  show ?case
  proof
    assume "contains_str n (c # cs)"
    then consider "starts_with n (c # cs)" | "contains_str n cs" by auto
    then show "\<exists>a b. c # cs = a @ n @ b"
    proof cases
      case 1
      then show ?thesis by (metis append_Nil starts_with_iff)
    next
      case 2
      then show ?thesis using Cons.IH by (metis append_Cons)
    qed
  next
    assume "\<exists>a b. c # cs = a @ n @ b"
    then obtain a b where ab: "c # cs = a @ n @ b" by blast
    show "contains_str n (c # cs)"
    proof (cases a)
      case Nil
      then have "starts_with n (c # cs)" using ab by (metis append_Nil starts_with_iff)
      then show ?thesis by simp
    next
      case (Cons x xs)
      then have "cs = xs @ n @ b" using ab by simp
      then show ?thesis using Cons.IH by auto
    qed
  qed
qed

text \<open>\<^verbatim>\<open>s.find(c)\<close> as the part before the first \<open>c\<close> and the part after it.\<close>

definition split_at_char :: "char \<Rightarrow> string \<Rightarrow> (string \<times> string) option" where
  "split_at_char c s =
     (if c \<in> set s then Some (takeWhile (\<lambda>x. x \<noteq> c) s, tl (dropWhile (\<lambda>x. x \<noteq> c) s)) else None)"

lemma split_at_char_Some:
  assumes "split_at_char c s = Some (a, b)"
  shows "s = a @ c # b \<and> c \<notin> set a"
proof -
  have "c \<in> set s" using assms by (auto simp: split_at_char_def split: if_splits)
  then have "dropWhile (\<lambda>x. x \<noteq> c) s \<noteq> []" by (simp add: dropWhile_eq_Nil_conv)
  moreover from this have "hd (dropWhile (\<lambda>x. x \<noteq> c) s) = c" using hd_dropWhile by blast
  ultimately have "dropWhile (\<lambda>x. x \<noteq> c) s = c # tl (dropWhile (\<lambda>x. x \<noteq> c) s)"
    by (metis list.collapse)
  then have "s = takeWhile (\<lambda>x. x \<noteq> c) s @ c # tl (dropWhile (\<lambda>x. x \<noteq> c) s)"
    by (metis takeWhile_dropWhile_id)
  moreover have "c \<notin> set (takeWhile (\<lambda>x. x \<noteq> c) s)" by (auto dest: set_takeWhileD)
  ultimately show ?thesis using assms \<open>c \<in> set s\<close> by (simp add: split_at_char_def)
qed

lemma split_at_char_append: "c \<notin> set a \<Longrightarrow> split_at_char c (a @ c # b) = Some (a, b)"
  by (simp add: split_at_char_def takeWhile_append dropWhile_append)

section \<open>Reading numbers\<close>

text \<open>
  \<^verbatim>\<open>std::stoi\<close>: leading white space, a sign, digits, anything after them ignored; \<open>None\<close> is the
  exception (no digits, or a number that is no 32-bit integer).
\<close>

definition digits_value :: "string \<Rightarrow> int" where
  "digits_value ds = foldl (\<lambda>v c. 10 * v + (int (uchar c) - 48)) 0 ds"

definition scan_int :: "string \<Rightarrow> (int \<times> string) option" where
  "scan_int s =
     (let s = dropWhile isspace s;
          (neg, s) = (case s of c # cs \<Rightarrow> if c = CHR ''-'' then (True, cs) else if c = CHR ''+'' then (False, cs) else (False, s)
                     | [] \<Rightarrow> (False, []));
          ds = takeWhile isdigit s
      in if ds = [] then None
         else Some ((if neg then - digits_value ds else digits_value ds), dropWhile isdigit s))"

definition stoi :: "string \<Rightarrow> int option" where
  "stoi s =
     (case scan_int s of
        None \<Rightarrow> None
      | Some (k, _) \<Rightarrow> if - (2 ^ 31) \<le> k \<and> k < 2 ^ 31 then Some k else None)"

lemma digits_value_snoc: "digits_value (ds @ [c]) = 10 * digits_value ds + (int (uchar c) - 48)"
  by (simp add: digits_value_def)

lemma nat_to_string_digits: "\<forall>c \<in> set (nat_to_string n). isdigit c" and nat_to_string_nonempty: "nat_to_string n \<noteq> []"
proof (induction n rule: nat_to_string.induct)
  case (1 n)
  { case 1
    show ?case using "1.IH"(1) by (subst nat_to_string.simps) auto }
  { case 2
    show ?case by (subst nat_to_string.simps) simp }
qed

lemma digits_value_nat_to_string: "digits_value (nat_to_string n) = int n"
proof (induction n rule: nat_to_string.induct)
  case (1 n)
  show ?case
  proof (cases "n < 10")
    case True
    then show ?thesis by (subst nat_to_string.simps) (simp add: digits_value_def uchar_digit_char)
  next
    case False
    then have "nat_to_string n = nat_to_string (n div 10) @ [digit_char n]" by (subst nat_to_string.simps) simp
    then have "digits_value (nat_to_string n) = 10 * int (n div 10) + int (n mod 10)"
      using "1.IH" [OF False] by (simp add: digits_value_snoc uchar_digit_char)
    then show ?thesis by presburger
  qed
qed

lemma scan_nat: "scan_int (nat_to_string n) = Some (int n, [])"
proof -
  obtain c cs where n: "nat_to_string n = c # cs" using nat_to_string_nonempty by (cases "nat_to_string n") auto
  have d: "\<forall>x \<in> set (c # cs). isdigit x" using nat_to_string_digits [of n] n by simp
  then have "isdigit c" by simp
  then have "\<not> isspace c" "c \<noteq> CHR ''-''" "c \<noteq> CHR ''+''" by (auto simp: isdigit_def isspace_def)
  then have "scan_int (c # cs) = Some (digits_value (takeWhile isdigit (c # cs)), dropWhile isdigit (c # cs))"
    using \<open>isdigit c\<close> by (simp add: scan_int_def Let_def)
  also have "takeWhile isdigit (c # cs) = c # cs" using d by (simp only: takeWhile_eq_all_conv)
  also have "dropWhile isdigit (c # cs) = []" using d by (simp only: dropWhile_eq_Nil_conv)
  finally show ?thesis using digits_value_nat_to_string [of n] n by simp
qed

lemma stoi_to_string: "0 \<le> i \<Longrightarrow> i < 2 ^ 31 \<Longrightarrow> stoi (to_string i) = Some i"
  by (simp add: stoi_def to_string_def scan_nat)

section \<open>Outcomes of calls that may throw\<close>

text \<open>The result of a call outside the modelled code: a value, or an exception with its text.\<close>

datatype 'a outcome = Returns 'a | Throws string

end
