(* ===== verification/Containers.thy ===== *)
theory Containers
  imports Prelude "HOL-Library.AList" "HOL-Library.Multiset"
begin

text \<open>
  \<^verbatim>\<open>std::unordered_map\<close> as the components use it. The map is an association list with distinct
  keys; the list order stands for the container's iteration order, which the standard leaves open.
  The locale \<open>unordered_map\<close> states what the clients rely on (find, insert or assign, erase, size)
  and derives the facts their proofs share; the interpretation \<open>um\<close> discharges it for the
  association lists the models are written with.
\<close>

type_synonym ('k, 'v) umap = "('k \<times> 'v) list"

definition um_ok :: "('k, 'v) umap \<Rightarrow> bool" where
  "um_ok m \<longleftrightarrow> distinct (map fst m)"

definition um_find :: "'k \<Rightarrow> ('k, 'v) umap \<Rightarrow> 'v option" where
  "um_find k m = map_of m k"

definition um_put :: "'k \<Rightarrow> 'v \<Rightarrow> ('k, 'v) umap \<Rightarrow> ('k, 'v) umap" where
  "um_put k v m = AList.update k v m"

definition um_erase :: "'k \<Rightarrow> ('k, 'v) umap \<Rightarrow> ('k, 'v) umap" where
  "um_erase k m = AList.delete k m"

text \<open>\<^verbatim>\<open>emplace\<close>: inserts only when the key is absent.\<close>

definition um_emplace :: "'k \<Rightarrow> 'v \<Rightarrow> ('k, 'v) umap \<Rightarrow> ('k, 'v) umap" where
  "um_emplace k v m = (case um_find k m of None \<Rightarrow> um_put k v m | Some _ \<Rightarrow> m)"

text \<open>An erase-while-iterating loop that keeps the entries satisfying \<open>P\<close>.\<close>

definition um_retain :: "('k \<times> 'v \<Rightarrow> bool) \<Rightarrow> ('k, 'v) umap \<Rightarrow> ('k, 'v) umap" where
  "um_retain P m = filter P m"

locale unordered_map =
  fixes ok :: "'m \<Rightarrow> bool"
    and find :: "'k \<Rightarrow> 'm \<Rightarrow> 'v option"
    and put :: "'k \<Rightarrow> 'v \<Rightarrow> 'm \<Rightarrow> 'm"
    and erase :: "'k \<Rightarrow> 'm \<Rightarrow> 'm"
    and size_of :: "'m \<Rightarrow> nat"
  assumes find_put: "ok m \<Longrightarrow> find k' (put k v m) = (if k' = k then Some v else find k' m)"
    and find_erase: "ok m \<Longrightarrow> find k' (erase k m) = (if k' = k then None else find k' m)"
    and ok_put: "ok m \<Longrightarrow> ok (put k v m)"
    and ok_erase: "ok m \<Longrightarrow> ok (erase k m)"
    and size_put: "ok m \<Longrightarrow> size_of (put k v m) = (if find k m = None then Suc (size_of m) else size_of m)"
    and size_erase: "ok m \<Longrightarrow> size_of (erase k m) = (if find k m = None then size_of m else size_of m - 1)"
begin

lemma find_put_same: "ok m \<Longrightarrow> find k (put k v m) = Some v"
  by (simp add: find_put)

lemma find_put_other: "ok m \<Longrightarrow> k' \<noteq> k \<Longrightarrow> find k' (put k v m) = find k' m"
  by (simp add: find_put)

lemma size_put_le: "ok m \<Longrightarrow> size_of (put k v m) \<le> Suc (size_of m)"
  by (simp add: size_put)

lemma put_after_erase_size:
  "ok m \<Longrightarrow> find k' m \<noteq> None \<Longrightarrow> 0 < size_of m \<Longrightarrow> size_of (put k v (erase k' m)) \<le> size_of m"
  by (auto simp: size_put size_erase ok_erase)

end

lemma um_find_None_iff: "um_find k m = None \<longleftrightarrow> k \<notin> fst ` set m"
  by (simp add: um_find_def map_of_eq_None_iff)

lemma um_find_Some_iff: "um_ok m \<Longrightarrow> um_find k m = Some v \<longleftrightarrow> (k, v) \<in> set m"
  by (simp add: um_find_def um_ok_def)

lemma um_find_in_set: "um_find k m = Some v \<Longrightarrow> (k, v) \<in> set m"
  by (simp add: um_find_def map_of_SomeD)

lemma length_update:
  "length (AList.update k v m) = (if k \<in> fst ` set m then length m else Suc (length m))"
  by (induction m) auto

lemma length_delete:
  "distinct (map fst m) \<Longrightarrow>
   length (AList.delete k m) = (if k \<in> fst ` set m then length m - 1 else length m)"
proof (induction m)
  case (Cons p m)
  have "k \<notin> fst ` set m \<Longrightarrow> AList.delete k m = m"
    by (simp add: AList.delete_id)
  moreover have "k \<in> fst ` set m \<Longrightarrow> 0 < length m" by auto
  ultimately show ?case using Cons
    by (cases p) (auto simp: AList.delete_eq)
qed (simp add: AList.delete_eq)

interpretation um: unordered_map um_ok um_find um_put um_erase length
proof
  fix m :: "('k, 'v) umap" and k k' :: 'k and v :: 'v
  assume ok: "um_ok m"
  show "um_find k' (um_put k v m) = (if k' = k then Some v else um_find k' m)"
    by (simp add: um_find_def um_put_def AList.update_conv')
  show "um_find k' (um_erase k m) = (if k' = k then None else um_find k' m)"
    by (simp add: um_find_def um_erase_def AList.delete_conv')
  show "um_ok (um_put k v m)"
    using ok by (simp add: um_ok_def um_put_def AList.distinct_update)
  show "um_ok (um_erase k m)"
    using ok by (simp add: um_ok_def um_erase_def AList.distinct_delete)
  show "length (um_put k v m) = (if um_find k m = None then Suc (length m) else length m)"
    by (simp add: um_put_def length_update um_find_None_iff)
  show "length (um_erase k m) = (if um_find k m = None then length m else length m - 1)"
    using ok by (simp add: um_erase_def length_delete um_find_None_iff um_ok_def)
qed

lemma um_ok_Nil [simp]: "um_ok []"
  by (simp add: um_ok_def)

lemma um_find_Nil [simp]: "um_find k [] = None"
  by (simp add: um_find_def)

lemma um_ok_retain: "um_ok m \<Longrightarrow> um_ok (um_retain P m)"
  by (simp add: um_ok_def um_retain_def distinct_map_filter)

lemma um_find_retain:
  assumes "um_ok m"
  shows "um_find k (um_retain P m) =
    (case um_find k m of None \<Rightarrow> None | Some v \<Rightarrow> if P (k, v) then Some v else None)"
proof (cases "um_find k m")
  case None
  then have "um_find k (um_retain P m) = None" by (auto simp: um_find_None_iff um_retain_def)
  with None show ?thesis by simp
next
  case (Some v)
  then have in_m: "(k, v) \<in> set m" by (rule um_find_in_set)
  show ?thesis
  proof (cases "P (k, v)")
    case True
    then have "(k, v) \<in> set (um_retain P m)" using in_m by (simp add: um_retain_def)
    then show ?thesis using True Some assms by (simp add: um_ok_retain flip: um_find_Some_iff)
  next
    case False
    have "k \<notin> fst ` set (um_retain P m)"
    proof
      assume "k \<in> fst ` set (um_retain P m)"
      then obtain v' where "(k, v') \<in> set m" "P (k, v')" by (auto simp: um_retain_def)
      then have "v' = v" using in_m assms by (auto simp: um_ok_def dest: eq_key_imp_eq_value)
      then show False using False \<open>P (k, v')\<close> by simp
    qed
    then show ?thesis using False Some by (simp add: um_find_None_iff)
  qed
qed

lemma um_ok_emplace: "um_ok m \<Longrightarrow> um_ok (um_emplace k v m)"
  by (simp add: um_emplace_def um.ok_put split: option.splits)

lemma um_find_emplace:
  "um_ok m \<Longrightarrow> um_find k' (um_emplace k v m) =
     (if k' = k \<and> um_find k m = None then Some v else um_find k' m)"
  by (auto simp: um_emplace_def um.find_put split: option.splits)

lemma length_retain_le: "length (um_retain P m) \<le> length m"
  by (simp add: um_retain_def)

lemmas um_simps = um.find_put um.find_erase um.ok_put um.ok_erase um.size_put um.size_erase
  um_ok_retain um_find_retain um_ok_emplace um_find_emplace

end
