(* ===== verification/Submission_Repo.thy ===== *)
theory Submission_Repo
  imports Containers
begin

text \<open>
  \<^verbatim>\<open>src/db/submission_repo.h\<close>: statuses, list filters and the operations on the \<^verbatim>\<open>submissions\<close> table.

  The table is a list of rows with distinct ids and an auto-increment counter. The SQL text of each
  statement is in the source, and the model is the effect of that text on the table; a statement
  may instead fail, which is the \<^verbatim>\<open>mysqlx::Error\<close> (or the pool's error) given as an argument.
  Timestamps are seconds; \<^verbatim>\<open>NOW()\<close> is an argument. Decoding a result row into a
  \<^verbatim>\<open>SubmissionRow\<close> is glue over the connector and not modelled.

  Main results: the life cycle of a row (pending, running, one terminal status for ever) as
  invariants of an interleaved step relation, and that at most one \<^verbatim>\<open>mark_finished\<close> succeeds.
\<close>

section \<open>Statuses\<close>

definition is_valid_status :: "string \<Rightarrow> bool" where
  "is_valid_status s \<longleftrightarrow>
     s = ''pending'' \<or> s = ''running''
     \<or> s = ''ac'' \<or> s = ''wa'' \<or> s = ''re'' \<or> s = ''tle''
     \<or> s = ''mle'' \<or> s = ''ole'' \<or> s = ''pe'' \<or> s = ''ce''
     \<or> s = ''se''"

definition is_terminal_status :: "string \<Rightarrow> bool" where
  "is_terminal_status s \<longleftrightarrow> s \<noteq> ''pending'' \<and> s \<noteq> ''running''"

definition is_valid_language :: "string \<Rightarrow> bool" where
  "is_valid_language s \<longleftrightarrow> s = ''c'' \<or> s = ''cpp''"

section \<open>Rows, filters and limits\<close>

record submission =
  sub_id :: int
  sub_user_id :: int
  sub_problem_id :: int
  sub_language :: string
  sub_code :: string
  sub_status :: string
  sub_time_used :: "int option"
  sub_memory_used :: "int option"
  sub_error_message :: "string option"
  sub_created_at :: int
  sub_finished_at :: "int option"

record list_filter =
  f_user_id :: "int option"
  f_problem_id :: "int option"
  f_status :: "string option"
  f_include_unfinished :: bool
  f_limit :: int
  f_offset :: int

definition kMinCodeLength :: nat where "kMinCodeLength = 1"
definition kMaxCodeLength :: nat where "kMaxCodeLength = 15 * 1024 * 1024"
definition kSubmissionDefaultListLimit :: int where "kSubmissionDefaultListLimit = 20"
definition kSubmissionMaxListLimit :: int where "kSubmissionMaxListLimit = 100"

definition validate_code_length :: "nat \<Rightarrow> string + unit" where
  "validate_code_length len =
     (if len < kMinCodeLength \<or> len > kMaxCodeLength then
        Inl (''code length must be between '' @ to_string (int kMinCodeLength) @ '' and ''
             @ to_string (int kMaxCodeLength) @ '' bytes'')
      else Inr ())"

definition clamp_list_filter :: "list_filter \<Rightarrow> list_filter" where
  "clamp_list_filter f =
     (let f1 = (if f_limit f \<le> 0 then f\<lparr>f_limit := kSubmissionDefaultListLimit\<rparr> else f);
          f2 = (if f_limit f1 > kSubmissionMaxListLimit then f1\<lparr>f_limit := kSubmissionMaxListLimit\<rparr> else f1)
      in if f_offset f2 < 0 then f2\<lparr>f_offset := 0\<rparr> else f2)"

section \<open>The table and its statements\<close>

record table =
  rows :: "submission list"
  auto_inc :: int

text \<open>How a statement ends besides executing.\<close>

datatype sql_fault = NoFault | SqlError string | AcquireError string

datatype repo_error = SubmissionRepoError string | PoolError string

definition sql_run :: "sql_fault \<Rightarrow> string \<Rightarrow> 'a \<Rightarrow> repo_error + 'a" where
  "sql_run fault op r =
     (case fault of
        NoFault \<Rightarrow> Inr r
      | SqlError what \<Rightarrow> Inl (SubmissionRepoError (''submission_repo::'' @ op @ '': '' @ what))
      | AcquireError what \<Rightarrow> Inl (PoolError what))"

text \<open>\<^verbatim>\<open>UPDATE submissions SET g WHERE p\<close> with its affected-rows count.\<close>

definition update_where :: "(submission \<Rightarrow> bool) \<Rightarrow> (submission \<Rightarrow> submission) \<Rightarrow> table \<Rightarrow> nat \<times> table" where
  "update_where p g t =
     (length (filter p (rows t)), t\<lparr>rows := map (\<lambda>r. if p r then g r else r) (rows t)\<rparr>)"

definition create :: "sql_fault \<Rightarrow> int \<Rightarrow> submission \<Rightarrow> table \<Rightarrow> repo_error + int \<times> table" where
  "create fault now row t =
     (if \<not> is_valid_language (sub_language row) then
        Inl (SubmissionRepoError (''create: language must be 'c' or 'cpp', got '' @ [quote] @ sub_language row @ [quote]))
      else case validate_code_length (length (sub_code row)) of
        Inl err \<Rightarrow> Inl (SubmissionRepoError (''create: '' @ err))
      | Inr _ \<Rightarrow>
          if sub_user_id row \<le> 0 then Inl (SubmissionRepoError ''create: user_id must be > 0'')
          else if sub_problem_id row \<le> 0 then Inl (SubmissionRepoError ''create: problem_id must be > 0'')
          else case fault of
            NoFault \<Rightarrow>
              let r = \<lparr>sub_id = auto_inc t, sub_user_id = sub_user_id row, sub_problem_id = sub_problem_id row,
                        sub_language = sub_language row, sub_code = sub_code row, sub_status = ''pending'',
                        sub_time_used = None, sub_memory_used = None, sub_error_message = None,
                        sub_created_at = now, sub_finished_at = None\<rparr>
              in Inr (auto_inc t, t\<lparr>rows := rows t @ [r], auto_inc := auto_inc t + 1\<rparr>)
          | SqlError what \<Rightarrow>
              if contains_str ''foreign key'' what \<or> contains_str ''FOREIGN KEY'' what \<or> contains_str ''1452'' what
              then Inr (0, t)
              else Inl (SubmissionRepoError (''submission_repo::create: '' @ what))
          | AcquireError what \<Rightarrow> Inl (PoolError what))"

definition find_by_id :: "sql_fault \<Rightarrow> int \<Rightarrow> table \<Rightarrow> repo_error + submission option" where
  "find_by_id fault i t = sql_run fault ''find_by_id'' (List.find (\<lambda>r. sub_id r = i) (rows t))"

definition mark_running :: "sql_fault \<Rightarrow> int \<Rightarrow> table \<Rightarrow> repo_error + bool \<times> table" where
  "mark_running fault i t =
     sql_run fault ''mark_running''
       (let (n, t') = update_where (\<lambda>r. sub_id r = i \<and> sub_status r = ''pending'')
                                   (\<lambda>r. r\<lparr>sub_status := ''running''\<rparr>) t
        in (n > 0, t'))"

definition mark_finished ::
  "sql_fault \<Rightarrow> int \<Rightarrow> int \<Rightarrow> string \<Rightarrow> int option \<Rightarrow> int option \<Rightarrow> string \<Rightarrow> table \<Rightarrow> repo_error + bool \<times> table" where
  "mark_finished fault now i status time_used_ms memory_used_kb error_message t =
     (if \<not> is_valid_status status then
        Inl (SubmissionRepoError (''mark_finished: invalid status '' @ [quote] @ status @ [quote]))
      else if \<not> is_terminal_status status then
        Inl (SubmissionRepoError (''mark_finished: status '' @ [quote] @ status @ [quote] @ '' is not terminal''))
      else
        sql_run fault ''mark_finished''
          (let (n, t') = update_where (\<lambda>r. sub_id r = i \<and> (sub_status r = ''pending'' \<or> sub_status r = ''running''))
                (\<lambda>r. r\<lparr>sub_status := status, sub_time_used := time_used_ms, sub_memory_used := memory_used_kb,
                       sub_error_message := (if error_message = [] then None else Some error_message),
                       sub_finished_at := Some now\<rparr>) t
           in (n > 0, t')))"

definition requeue_stuck_running :: "sql_fault \<Rightarrow> int \<Rightarrow> int \<Rightarrow> table \<Rightarrow> repo_error + nat \<times> table" where
  "requeue_stuck_running fault now stuck_after_seconds t =
     (if stuck_after_seconds < 1 then
        Inl (SubmissionRepoError ''requeue_stuck_running: stuck_after_seconds must be >= 1'')
      else sql_run fault ''requeue_stuck_running''
        (update_where (\<lambda>r. sub_status r = ''running'' \<and> sub_created_at r < now - stuck_after_seconds)
                      (\<lambda>r. r\<lparr>sub_status := ''pending''\<rparr>) t))"

section \<open>Count and list queries\<close>

text \<open>The dynamically built SQL text with the values bound to its placeholders, in order.\<close>

datatype sql_value = SqlInt int | SqlStr string

definition where_clauses :: "list_filter \<Rightarrow> string" where
  "where_clauses f =
     (if f_user_id f \<noteq> None then '' AND user_id = ?'' else [])
     @ (if f_problem_id f \<noteq> None then '' AND problem_id = ?'' else [])
     @ (if f_status f \<noteq> None then '' AND status = ?'' else [])
     @ (if \<not> f_include_unfinished f then '' AND status NOT IN ('pending','running')'' else [])"

text \<open>The eight-way branch on which filters are present.\<close>

definition bound_filters :: "list_filter \<Rightarrow> sql_value list" where
  "bound_filters f =
     (case (f_user_id f, f_problem_id f, f_status f) of
        (Some u, Some p, Some s) \<Rightarrow> [SqlInt u, SqlInt p, SqlStr s]
      | (Some u, Some p, None) \<Rightarrow> [SqlInt u, SqlInt p]
      | (Some u, None, Some s) \<Rightarrow> [SqlInt u, SqlStr s]
      | (None, Some p, Some s) \<Rightarrow> [SqlInt p, SqlStr s]
      | (Some u, None, None) \<Rightarrow> [SqlInt u]
      | (None, Some p, None) \<Rightarrow> [SqlInt p]
      | (None, None, Some s) \<Rightarrow> [SqlStr s]
      | (None, None, None) \<Rightarrow> [])"

definition count_query :: "list_filter \<Rightarrow> string \<times> sql_value list" where
  "count_query flt =
     (let f = clamp_list_filter flt
      in (''SELECT COUNT(*) FROM submissions WHERE 1 = 1'' @ where_clauses f, bound_filters f))"

definition kSubmissionSelectColumns :: string where
  "kSubmissionSelectColumns =
     ''id, user_id, problem_id, language, code, status, ''
     @ ''time_used, memory_used, error_message, ''
     @ ''DATE_FORMAT(created_at,  '%Y-%m-%d %H:%i:%s') AS created_at, ''
     @ ''DATE_FORMAT(finished_at, '%Y-%m-%d %H:%i:%s') AS finished_at''"

definition list_query :: "list_filter \<Rightarrow> string \<times> sql_value list" where
  "list_query flt =
     (let f = clamp_list_filter flt
      in (''SELECT '' @ kSubmissionSelectColumns @ '' FROM submissions WHERE 1 = 1'' @ where_clauses f
          @ '' ORDER BY created_at DESC, id DESC LIMIT ? OFFSET ?'',
          bound_filters f @ [SqlInt (f_limit f), SqlInt (f_offset f)]))"

text \<open>What the \<^verbatim>\<open>WHERE\<close> clause selects, and the two results.\<close>

definition matches_filter :: "list_filter \<Rightarrow> submission \<Rightarrow> bool" where
  "matches_filter f r \<longleftrightarrow>
     (case f_user_id f of None \<Rightarrow> True | Some u \<Rightarrow> sub_user_id r = u)
     \<and> (case f_problem_id f of None \<Rightarrow> True | Some p \<Rightarrow> sub_problem_id r = p)
     \<and> (case f_status f of None \<Rightarrow> True | Some s \<Rightarrow> sub_status r = s)
     \<and> (f_include_unfinished f \<or> sub_status r \<noteq> ''pending'' \<and> sub_status r \<noteq> ''running'')"

definition count_submissions :: "sql_fault \<Rightarrow> list_filter \<Rightarrow> table \<Rightarrow> repo_error + nat" where
  "count_submissions fault flt t =
     (let f = clamp_list_filter flt
      in sql_run fault ''count'' (length (List.filter (matches_filter f) (rows t))))"

record list_result =
  lr_items :: "submission list"
  lr_total :: nat
  lr_limit :: int
  lr_offset :: int

definition list_submissions :: "sql_fault \<Rightarrow> sql_fault \<Rightarrow> list_filter \<Rightarrow> table \<Rightarrow> repo_error + list_result" where
  "list_submissions fault_count fault flt t =
     (let f = clamp_list_filter flt in
      case count_submissions fault_count f t of
        Inl e \<Rightarrow> Inl e
      | Inr n \<Rightarrow>
          sql_run fault ''list''
            \<lparr>lr_items = take (nat (f_limit f)) (drop (nat (f_offset f))
               (rev (sort_key (\<lambda>r. sub_created_at r) (sort_key (\<lambda>r. sub_id r)
                  (List.filter (matches_filter f) (rows t)))))),
             lr_total = n, lr_limit = f_limit f, lr_offset = f_offset f\<rparr>)"


section \<open>Interleaved use of the table\<close>

text \<open>
  Requests, judge workers and the recovery sweep work on the table concurrently; each statement is
  atomic in the database, so a history is a sequence of successful statements. An event records the
  statement and what it returned. A statement that failed leaves the table alone and is no event.
\<close>

datatype repo_event =
    EvCreate int
  | EvClaim int bool
  | EvFinish int bool
  | EvRequeue nat

inductive repo_step :: "table \<Rightarrow> repo_event \<Rightarrow> table \<Rightarrow> bool" where
  create_step: "create fault now row t = Inr (i, t') \<Longrightarrow> repo_step t (EvCreate i) t'"
| claim_step: "mark_running fault i t = Inr (b, t') \<Longrightarrow> repo_step t (EvClaim i b) t'"
| finish_step: "mark_finished fault now i st tm mem err t = Inr (b, t') \<Longrightarrow> repo_step t (EvFinish i b) t'"
| requeue_step: "requeue_stuck_running fault now secs t = Inr (n, t') \<Longrightarrow> repo_step t (EvRequeue n) t'"

inductive repo_run :: "table \<Rightarrow> repo_event list \<Rightarrow> table \<Rightarrow> bool" where
  run_nil: "repo_run t [] t"
| run_cons: "repo_step t e t' \<Longrightarrow> repo_run t' es t'' \<Longrightarrow> repo_run t (e # es) t''"

inductive_cases repo_step_createE: "repo_step t (EvCreate i) t'"
inductive_cases repo_step_claimE: "repo_step t (EvClaim i b) t'"
inductive_cases repo_step_finishE: "repo_step t (EvFinish i b) t'"
inductive_cases repo_step_requeueE: "repo_step t (EvRequeue n) t'"
inductive_cases repo_run_nilE: "repo_run t [] t'"
inductive_cases repo_run_consE: "repo_run t (e # es) t'"

definition row_ok :: "submission \<Rightarrow> bool" where
  "row_ok r \<longleftrightarrow> is_valid_status (sub_status r)
     \<and> (sub_finished_at r \<noteq> None \<longleftrightarrow> is_terminal_status (sub_status r))"

definition table_ok :: "table \<Rightarrow> bool" where
  "table_ok t \<longleftrightarrow> distinct (map sub_id (rows t)) \<and> (\<forall>r \<in> set (rows t). sub_id r < auto_inc t \<and> row_ok r)"

definition empty_table :: table where
  "empty_table = \<lparr>rows = [], auto_inc = 1\<rparr>"

text \<open>Every step is the insertion of a pending row or a selective update.\<close>

lemma repo_step_cases:
  assumes "repo_step t e t'"
  obtains (unchanged) "t' = t" "\<And>i. e \<noteq> EvFinish i True" "\<And>i. e \<noteq> EvClaim i True"
  | (inserted) r where "t' = t\<lparr>rows := rows t @ [r], auto_inc := auto_inc t + 1\<rparr>" "sub_id r = auto_inc t"
      "sub_status r = ''pending''" "sub_finished_at r = None" "e = EvCreate (auto_inc t)"
  | (updated) p g where "t' = t\<lparr>rows := map (\<lambda>r. if p r then g r else r) (rows t)\<rparr>"
      "\<And>r. sub_id (g r) = sub_id r"
      "\<And>r. p r \<Longrightarrow> \<not> is_terminal_status (sub_status r)"
      "\<And>r. p r \<Longrightarrow> row_ok r \<Longrightarrow> row_ok (g r)"
      "\<And>i. e = EvFinish i True \<Longrightarrow> (\<exists>r \<in> set (rows t). p r \<and> sub_id r = i \<and> is_terminal_status (sub_status (g r)))"
      "\<And>i. e = EvClaim i True \<Longrightarrow> (\<exists>r \<in> set (rows t). p r \<and> sub_id r = i \<and> sub_status r = ''pending'' \<and> sub_status (g r) = ''running'')"
      "(\<exists>n. e = EvRequeue n) \<or> (\<forall>r. p r \<longrightarrow> sub_status (g r) \<noteq> ''pending'')"
      "\<And>r. sub_user_id (g r) = sub_user_id r"
  using assms
proof (cases rule: repo_step.cases)
  case (create_step fault now row i)
  then show thesis
    by (auto simp: create_def Let_def split: if_splits sum.splits sql_fault.splits intro: unchanged inserted)
next
  case (claim_step fault i b)
  then show thesis
    by (intro updated [of "\<lambda>r. sub_id r = i \<and> sub_status r = ''pending''" "\<lambda>r. r\<lparr>sub_status := ''running''\<rparr>"])
       (auto simp: mark_running_def sql_run_def update_where_def row_ok_def is_valid_status_def
          is_terminal_status_def filter_empty_conv split: sql_fault.splits)
next
  case (finish_step fault now i st tm mem err b)
  then have v: "is_valid_status st" "is_terminal_status st"
    by (auto simp: mark_finished_def split: if_splits)
  from finish_step v show thesis
    by (intro updated [of "\<lambda>r. sub_id r = i \<and> (sub_status r = ''pending'' \<or> sub_status r = ''running'')"
          "\<lambda>r. r\<lparr>sub_status := st, sub_time_used := tm, sub_memory_used := mem,
                 sub_error_message := (if err = [] then None else Some err), sub_finished_at := Some now\<rparr>"])
       (auto simp: mark_finished_def sql_run_def update_where_def row_ok_def
          is_terminal_status_def filter_empty_conv split: sql_fault.splits)
next
  case (requeue_step fault now secs n)
  then show thesis
    by (intro updated [of "\<lambda>r. sub_status r = ''running'' \<and> sub_created_at r < now - secs" "\<lambda>r. r\<lparr>sub_status := ''pending''\<rparr>"])
       (auto simp: requeue_stuck_running_def sql_run_def update_where_def row_ok_def is_valid_status_def
          is_terminal_status_def split: sql_fault.splits if_splits)
qed

lemma table_ok_empty: "table_ok empty_table"
  by (simp add: table_ok_def empty_table_def)

lemma map_id_update: "(\<And>r. sub_id (g r) = sub_id r) \<Longrightarrow> map sub_id (map (\<lambda>r. if p r then g r else r) rs) = map sub_id rs"
  by (induction rs) auto

lemma table_ok_step:
  assumes "repo_step t e t'" and "table_ok t"
  shows "table_ok t'"
  using assms(1)
proof (cases rule: repo_step_cases)
  case unchanged
  then show ?thesis using assms(2) by simp
next
  case (inserted r)
  then show ?thesis using assms(2)
    by (auto simp: table_ok_def row_ok_def is_valid_status_def is_terminal_status_def)
next
  case (updated p g)
  then show ?thesis using assms(2)
    by (auto simp: table_ok_def map_id_update simp del: map_map)
qed

lemma terminal_rows_kept:
  assumes "repo_step t e t'" and "r \<in> set (rows t)" and "is_terminal_status (sub_status r)"
  shows "r \<in> set (rows t')"
  using assms(1)
proof (cases rule: repo_step_cases)
  case (updated p g)
  then have "\<not> p r" using assms(3) by blast
  then show ?thesis using updated(1) assms(2) by force
qed (use assms in auto)

definition finished :: "int \<Rightarrow> table \<Rightarrow> bool" where
  "finished i t \<longleftrightarrow> (\<exists>r \<in> set (rows t). sub_id r = i \<and> is_terminal_status (sub_status r))"

lemma finished_kept: "repo_step t e t' \<Longrightarrow> finished i t \<Longrightarrow> finished i t'"
  unfolding finished_def using terminal_rows_kept by blast

lemma finish_True_finished: "repo_step t (EvFinish i True) t' \<Longrightarrow> finished i t'"
  by (erule repo_step_cases) (auto simp: finished_def)

lemma unique_row:
  "table_ok t \<Longrightarrow> r \<in> set (rows t) \<Longrightarrow> r' \<in> set (rows t) \<Longrightarrow> sub_id r = sub_id r' \<Longrightarrow> r = r'"
  by (auto simp: table_ok_def dest: inj_on_contraD simp: distinct_map inj_on_def)

lemma finished_no_second_finish:
  assumes "table_ok t" and "finished i t"
  shows "\<not> repo_step t (EvFinish i True) t'"
proof
  assume "repo_step t (EvFinish i True) t'"
  then obtain r where "r \<in> set (rows t)" "sub_id r = i" "\<not> is_terminal_status (sub_status r)"
    by (rule repo_step_cases) blast+
  then show False using assms unique_row unfolding finished_def by metis
qed

lemma run_finish_count:
  assumes "repo_run t es t'" and "table_ok t"
  shows "count_list es (EvFinish i True) \<le> (if finished i t then 0 else 1)"
  using assms
proof (induction rule: repo_run.induct)
  case (run_cons t e t' es t'')
  have IH: "count_list es (EvFinish i True) \<le> (if finished i t' then 0 else 1)"
    using run_cons.IH table_ok_step [OF run_cons.hyps(1) run_cons.prems] by blast
  show ?case
  proof (cases "e = EvFinish i True")
    case True
    then have "finished i t'" "\<not> finished i t"
      using run_cons.hyps(1) run_cons.prems finish_True_finished finished_no_second_finish by blast+
    then show ?thesis using IH True by simp
  next
    case False
    then show ?thesis using IH finished_kept [OF run_cons.hyps(1), of i] by (auto split: if_splits)
  qed
qed simp

text \<open>A submission is taken when its row is no longer pending.\<close>

definition taken :: "int \<Rightarrow> table \<Rightarrow> bool" where
  "taken i t \<longleftrightarrow> (\<exists>r \<in> set (rows t). sub_id r = i \<and> sub_status r \<noteq> ''pending'')"

definition requeues :: "repo_event list \<Rightarrow> nat" where
  "requeues es = length (filter (\<lambda>e. case e of EvRequeue _ \<Rightarrow> True | _ \<Rightarrow> False) es)"

lemma taken_kept:
  assumes "repo_step t e t'" and "\<And>n. e \<noteq> EvRequeue n" and "taken i t"
  shows "taken i t'"
proof -
  from assms(3) obtain r where r: "r \<in> set (rows t)" "sub_id r = i" "sub_status r \<noteq> ''pending''"
    by (auto simp: taken_def)
  from assms(1) show ?thesis
  proof (cases rule: repo_step_cases)
    case (updated p g)
    then have "(if p r then g r else r) \<in> set (rows t')" using r(1) by force
    moreover have "sub_status (if p r then g r else r) \<noteq> ''pending''"
      using updated(7) assms(2) r(3) by auto
    moreover have "sub_id (if p r then g r else r) = i" using updated(2) r(2) by simp
    ultimately show ?thesis unfolding taken_def by blast
  qed (use r in \<open>auto simp: taken_def\<close>)
qed

lemma claim_True_taken:
  assumes "repo_step t (EvClaim i True) t'"
  shows "taken i t'"
  using assms
proof (cases rule: repo_step_cases)
  case (updated p g)
  then obtain r where r: "r \<in> set (rows t)" "p r" "sub_id r = i" "sub_status (g r) = ''running''" by blast
  then have "g r \<in> set (rows t')" using updated(1) by force
  moreover have "sub_status (g r) \<noteq> ''pending''" by (simp add: r(4))
  ultimately show ?thesis using updated(2) r(3) unfolding taken_def by blast
qed auto

lemma claim_True_not_taken:
  assumes "table_ok t" and "repo_step t (EvClaim i True) t'"
  shows "\<not> taken i t"
proof -
  from assms(2) obtain r where "r \<in> set (rows t)" "sub_id r = i" "sub_status r = ''pending''"
    by (rule repo_step_cases) blast+
  then show ?thesis using assms(1) unique_row unfolding taken_def by metis
qed

lemma run_claim_count:
  assumes "repo_run t es t'" and "table_ok t"
  shows "count_list es (EvClaim i True) \<le> (if taken i t then 0 else 1) + requeues es"
  using assms
proof (induction rule: repo_run.induct)
  case (run_cons t e t' es t'')
  have IH: "count_list es (EvClaim i True) \<le> (if taken i t' then 0 else 1) + requeues es"
    using run_cons.IH table_ok_step [OF run_cons.hyps(1) run_cons.prems] by blast
  consider "e = EvClaim i True" | n where "e = EvRequeue n" | "e \<noteq> EvClaim i True" "\<And>n. e \<noteq> EvRequeue n"
    by blast
  then show ?case
  proof cases
    case 1
    then have "taken i t'" "\<not> taken i t"
      using run_cons.hyps(1) run_cons.prems claim_True_taken claim_True_not_taken by blast+
    then show ?thesis using IH 1 by (simp add: requeues_def)
  next
    case 2
    then show ?thesis using IH by (simp add: requeues_def split: if_splits)
  next
    case 3
    then have "requeues (e # es) = requeues es" by (simp add: requeues_def split: repo_event.splits)
    then show ?thesis using IH 3 taken_kept [OF run_cons.hyps(1) 3(2), of i] by (auto split: if_splits)
  qed
qed simp

lemma table_ok_run: "repo_run t es t' \<Longrightarrow> table_ok t \<Longrightarrow> table_ok t'"
  by (induction rule: repo_run.induct) (auto intro: table_ok_step)

lemma terminal_rows_kept_run:
  "repo_run t es t' \<Longrightarrow> r \<in> set (rows t) \<Longrightarrow> is_terminal_status (sub_status r) \<Longrightarrow> r \<in> set (rows t')"
  by (induction rule: repo_run.induct) (auto intro: terminal_rows_kept)

text \<open>A submission stays where it is and keeps its owner.\<close>

lemma owner_kept:
  assumes "repo_step t e t'" and "r \<in> set (rows t)"
  shows "\<exists>r' \<in> set (rows t'). sub_id r' = sub_id r \<and> sub_user_id r' = sub_user_id r"
  using assms(1)
proof (cases rule: repo_step_cases)
  case (updated p g)
  then have "(if p r then g r else r) \<in> set (rows t')" using assms(2) by auto
  then show ?thesis using updated(2,8) by (intro bexI [of _ "if p r then g r else r"]) auto
qed (use assms in auto)

lemma owner_kept_run:
  assumes "repo_run t es t'" and "r \<in> set (rows t)"
  shows "\<exists>r' \<in> set (rows t'). sub_id r' = sub_id r \<and> sub_user_id r' = sub_user_id r"
  using assms
proof (induction arbitrary: r rule: repo_run.induct)
  case (run_cons t e t' es t'')
  then obtain r1 where "r1 \<in> set (rows t')" "sub_id r1 = sub_id r" "sub_user_id r1 = sub_user_id r"
    using owner_kept by blast
  then show ?case using run_cons.IH [of r1] by auto
qed auto

lemma same_owner:
  assumes "repo_run t es t'" and "table_ok t" and "r \<in> set (rows t)" and "r' \<in> set (rows t')" and "sub_id r' = sub_id r"
  shows "sub_user_id r' = sub_user_id r"
  using owner_kept_run [OF assms(1,3)] unique_row [OF table_ok_run [OF assms(1,2)]] assms(4,5) by metis

section \<open>Queries\<close>

definition placeholders :: "string \<Rightarrow> nat" where
  "placeholders sql = count_list sql (CHR ''?'')"

lemma placeholders_append: "placeholders (a @ b) = placeholders a + placeholders b"
  by (simp add: placeholders_def)

lemma placeholders_where: "placeholders (where_clauses f) = length (bound_filters f)"
  by (cases "f_user_id f"; cases "f_problem_id f"; cases "f_status f")
     (simp_all add: where_clauses_def bound_filters_def placeholders_def)

lemma clamp_bounds:
  "1 \<le> f_limit (clamp_list_filter f) \<and> f_limit (clamp_list_filter f) \<le> 100 \<and> 0 \<le> f_offset (clamp_list_filter f)"
  by (simp add: clamp_list_filter_def Let_def kSubmissionDefaultListLimit_def kSubmissionMaxListLimit_def)

lemma clamp_idem: "clamp_list_filter (clamp_list_filter f) = clamp_list_filter f"
  using clamp_bounds [of f]
  by (simp add: clamp_list_filter_def [of "clamp_list_filter f"] kSubmissionMaxListLimit_def)

section \<open>Properties\<close>

text \<open>A history used by the witnesses: a submission is created, claimed and finished.\<close>

definition demo_row :: submission where
  "demo_row = \<lparr>sub_id = 1, sub_user_id = 3, sub_problem_id = 4, sub_language = ''cpp'', sub_code = ''int'',
     sub_status = ''pending'', sub_time_used = None, sub_memory_used = None, sub_error_message = None,
     sub_created_at = 100, sub_finished_at = None\<rparr>"

definition demo_table :: "string \<Rightarrow> int option \<Rightarrow> table" where
  "demo_table status fin = \<lparr>rows = [demo_row\<lparr>sub_status := status, sub_finished_at := fin\<rparr>], auto_inc = 2\<rparr>"

lemma demo_steps:
  "repo_step empty_table (EvCreate 1) (demo_table ''pending'' None)"
  "repo_step (demo_table ''pending'' None) (EvClaim 1 True) (demo_table ''running'' None)"
  "repo_step (demo_table ''running'' None) (EvFinish 1 True) (demo_table ''ac'' (Some 109))"
  "repo_step (demo_table ''ac'' (Some 109)) (EvFinish 1 False) (demo_table ''ac'' (Some 109))"
  "repo_step (demo_table ''ac'' (Some 109)) (EvClaim 1 False) (demo_table ''ac'' (Some 109))"
proof -
  have "create NoFault 100 demo_row empty_table = Inr (1, demo_table ''pending'' None)"
    by (simp add: create_def validate_code_length_def kMinCodeLength_def kMaxCodeLength_def
        is_valid_language_def empty_table_def demo_table_def demo_row_def)
  then show "repo_step empty_table (EvCreate 1) (demo_table ''pending'' None)" by (rule create_step)
  have "mark_running NoFault 1 (demo_table ''pending'' None) = Inr (True, demo_table ''running'' None)" by code_simp
  then show "repo_step (demo_table ''pending'' None) (EvClaim 1 True) (demo_table ''running'' None)" by (rule claim_step)
  have "mark_finished NoFault 109 1 ''ac'' None None [] (demo_table ''running'' None)
    = Inr (True, demo_table ''ac'' (Some 109))" by code_simp
  then show "repo_step (demo_table ''running'' None) (EvFinish 1 True) (demo_table ''ac'' (Some 109))"
    by (rule finish_step)
  have "mark_finished NoFault 110 1 ''wa'' None None [] (demo_table ''ac'' (Some 109))
    = Inr (False, demo_table ''ac'' (Some 109))" by code_simp
  then show "repo_step (demo_table ''ac'' (Some 109)) (EvFinish 1 False) (demo_table ''ac'' (Some 109))"
    by (rule finish_step)
  have "mark_running NoFault 1 (demo_table ''ac'' (Some 109)) = Inr (False, demo_table ''ac'' (Some 109))" by code_simp
  then show "repo_step (demo_table ''ac'' (Some 109)) (EvClaim 1 False) (demo_table ''ac'' (Some 109))"
    by (rule claim_step)
qed

definition demo_events :: "repo_event list" where
  "demo_events = [EvCreate 1, EvClaim 1 True, EvFinish 1 True, EvFinish 1 False, EvClaim 1 False]"

lemma demo_run: "repo_run empty_table demo_events (demo_table ''ac'' (Some 109))"
  unfolding demo_events_def
  by (rule run_cons [OF demo_steps(1) run_cons [OF demo_steps(2) run_cons [OF demo_steps(3)
      run_cons [OF demo_steps(4) run_cons [OF demo_steps(5) run_nil]]]]])

text \<open>
  C1. One verdict per submission: however the statements of requests, workers and the recovery
  sweep interleave, at most one \<^verbatim>\<open>mark_finished\<close> call for a submission returns true, and none
  once its row is terminal.
\<close>

theorem single_verdict:
  assumes "repo_run t es t'" and "table_ok t"
  shows "count_list es (EvFinish i True) \<le> (if finished i t then 0 else 1)"
  using assms by (rule run_finish_count)

theorem single_verdict_witness:
  "repo_run empty_table demo_events (demo_table ''ac'' (Some 109))
   \<and> count_list demo_events (EvFinish 1 True) = 1
   \<and> count_list demo_events (EvFinish 1 True) \<le> (if finished 1 empty_table then 0 else 1)"
  using single_verdict [OF demo_run table_ok_empty, of 1] demo_run
  by (simp add: demo_events_def)

text \<open>
  C15. Row life cycle: ids stay unique and below the counter, statuses stay in the documented set,
  \<^verbatim>\<open>finished_at\<close> is set exactly on terminal rows, and a terminal row is never changed again by any
  history.
\<close>

theorem submission_lifecycle:
  assumes "repo_run t es t'" and "table_ok t"
  shows "table_ok t'
    \<and> (\<forall>r. r \<in> set (rows t) \<and> is_terminal_status (sub_status r) \<longrightarrow> r \<in> set (rows t'))"
  using assms table_ok_run terminal_rows_kept_run by blast

theorem submission_lifecycle_witness:
  "table_ok (demo_table ''ac'' (Some 109))"
  using submission_lifecycle [OF demo_run table_ok_empty] by blast

text \<open>
  Claims are exclusive: in any history the successful \<^verbatim>\<open>mark_running\<close> calls for a submission
  number at most one more than the recovery sweeps, and none without a sweep once the row has left
  pending, so two workers never judge the same submission unless a sweep requeued it.
\<close>

theorem exclusive_claims:
  assumes "repo_run t es t'" and "table_ok t"
  shows "count_list es (EvClaim i True) \<le> (if taken i t then 0 else 1) + requeues es"
  using assms by (rule run_claim_count)

theorem exclusive_claims_witness:
  "repo_run empty_table demo_events (demo_table ''ac'' (Some 109))
   \<and> count_list demo_events (EvClaim 1 True) \<le> (if taken 1 empty_table then 0 else 1) + requeues demo_events"
  using exclusive_claims [OF demo_run table_ok_empty, of 1] demo_run by simp

text \<open>
  Query building: for every filter the number of placeholders in the generated count and list
  statements equals the number of values bound to them, the page size is between 1 and 100 and the
  offset is not negative.
\<close>

theorem list_queries_well_formed:
  "placeholders (fst (count_query f)) = length (snd (count_query f))
   \<and> placeholders (fst (list_query f)) = length (snd (list_query f))
   \<and> 1 \<le> f_limit (clamp_list_filter f) \<and> f_limit (clamp_list_filter f) \<le> 100
   \<and> 0 \<le> f_offset (clamp_list_filter f)"
proof -
  have "placeholders kSubmissionSelectColumns = 0"
    by code_simp
  then show ?thesis using clamp_bounds [of f] placeholders_where [of "clamp_list_filter f"]
    by (simp add: count_query_def list_query_def Let_def placeholders_def)
qed

text \<open>
  A page of \<^verbatim>\<open>submission_repo::list\<close> holds at most \<^verbatim>\<open>limit\<close> rows, each of them in the
  table and selected by the filter, and \<^verbatim>\<open>total\<close> counts all selected rows, so it is at least the
  page size.
\<close>

theorem list_page_sound:
  assumes "list_submissions NoFault NoFault f t = Inr res"
  shows "int (length (lr_items res)) \<le> lr_limit res \<and> length (lr_items res) \<le> lr_total res
    \<and> (\<forall>r \<in> set (lr_items res). r \<in> set (rows t) \<and> matches_filter (clamp_list_filter f) r)"
proof -
  define sel where "sel = rev (sort_key (\<lambda>r. sub_created_at r) (sort_key (\<lambda>r. sub_id r)
      (List.filter (matches_filter (clamp_list_filter f)) (rows t))))"
  have res: "lr_items res = take (nat (f_limit (clamp_list_filter f))) (drop (nat (f_offset (clamp_list_filter f))) sel)"
    "lr_limit res = f_limit (clamp_list_filter f)" "lr_total res = length sel"
    using assms by (auto simp: list_submissions_def count_submissions_def sql_run_def Let_def clamp_idem sel_def)
  have "set (lr_items res) \<subseteq> set sel" unfolding res(1) by (meson set_drop_subset set_take_subset subset_trans)
  moreover have "set sel = {r \<in> set (rows t). matches_filter (clamp_list_filter f) r}" by (simp add: sel_def)
  moreover have "length (lr_items res) \<le> nat (f_limit (clamp_list_filter f))" "length (lr_items res) \<le> length sel"
    by (simp_all add: res(1))
  ultimately show ?thesis using clamp_bounds [of f] by (auto simp: res)
qed

theorem list_page_sound_witness:
  "\<exists>res. list_submissions NoFault NoFault \<lparr>f_user_id = Some 3, f_problem_id = None, f_status = None,
       f_include_unfinished = True, f_limit = 500, f_offset = -2\<rparr> (demo_table ''ac'' (Some 109)) = Inr res
     \<and> int (length (lr_items res)) \<le> lr_limit res \<and> lr_limit res = 100 \<and> length (lr_items res) = 1"
proof -
  let ?f = "\<lparr>f_user_id = Some 3, f_problem_id = None, f_status = None,
       f_include_unfinished = True, f_limit = 500, f_offset = -2\<rparr>"
  have "list_submissions NoFault NoFault ?f (demo_table ''ac'' (Some 109))
    = Inr \<lparr>lr_items = rows (demo_table ''ac'' (Some 109)), lr_total = 1, lr_limit = 100, lr_offset = 0\<rparr>"
    by code_simp
  from list_page_sound [OF this] this show ?thesis by (simp add: demo_table_def)
qed

end
