(* ===== verification/Http.thy ===== *)
theory Http
  imports Prelude
begin

text \<open>
  \<^verbatim>\<open>src/routes/error_handler.h\<close>: the error catalog, the two response envelopes, and the senders the
  route handlers use, over the small part of a request and a response the handlers touch.

  \<^verbatim>\<open>httplib\<close> and \<^verbatim>\<open>nlohmann::json\<close> are libraries outside the repository. A response is modelled by
  what the code asked of it: the status, the content handed to \<^verbatim>\<open>set_content\<close>, and the
  \<^verbatim>\<open>set_header\<close> calls in order. A request is its body, its peer address and the header lookup. JSON
  values are a datatype, objects are lists of members (the key order of the printed text is the
  library's business); printing and parsing are parameters of the definitions that call them.
\<close>

section \<open>JSON values, requests, responses\<close>

datatype json =
    JNull
  | JBool bool
  | JInt int
  | JReal rat
  | JStr string
  | JArr "json list"
  | JObj "(string \<times> json) list"

fun is_null :: "json \<Rightarrow> bool" where
  "is_null JNull = True"
| "is_null _ = False"

fun members :: "json \<Rightarrow> (string \<times> json) list" where
  "members (JObj ms) = ms"
| "members _ = []"

text \<open>\<^verbatim>\<open>j[key] = value\<close> on an object.\<close>

fun set_member :: "string \<Rightarrow> json \<Rightarrow> json \<Rightarrow> json" where
  "set_member k v (JObj ms) = JObj (List.filter (\<lambda>m. fst m \<noteq> k) ms @ [(k, v)])"
| "set_member k v j = j"

definition get_member :: "json \<Rightarrow> string \<Rightarrow> json option" where
  "get_member j k = map_of (members j) k"

definition kJsonContentType :: string where
  "kJsonContentType = ''application/json; charset=utf-8''"

record http_request =
  req_body :: string
  remote_addr :: string
  req_header :: "string \<Rightarrow> string option"

record http_response =
  rsp_status :: int
  rsp_content :: "(json \<times> string) option"
  rsp_headers :: "(string \<times> string) list"

definition get_header_value :: "http_request \<Rightarrow> string \<Rightarrow> string" where
  "get_header_value req name = (case req_header req name of None \<Rightarrow> [] | Some v \<Rightarrow> v)"

definition set_header :: "string \<Rightarrow> string \<Rightarrow> http_response \<Rightarrow> http_response" where
  "set_header k v res = res\<lparr>rsp_headers := rsp_headers res @ [(k, v)]\<rparr>"

section \<open>The error catalog\<close>

datatype ErrorCode =
    INVALID_INPUT
  | UNAUTHORIZED
  | FORBIDDEN
  | NOT_FOUND
  | RATE_LIMITED
  | CONFLICT
  | INTERNAL_ERROR
  | SERVICE_UNAVAILABLE

fun error_code_name :: "ErrorCode \<Rightarrow> string" where
  "error_code_name INVALID_INPUT = ''INVALID_INPUT''"
| "error_code_name UNAUTHORIZED = ''UNAUTHORIZED''"
| "error_code_name FORBIDDEN = ''FORBIDDEN''"
| "error_code_name NOT_FOUND = ''NOT_FOUND''"
| "error_code_name RATE_LIMITED = ''RATE_LIMITED''"
| "error_code_name CONFLICT = ''CONFLICT''"
| "error_code_name INTERNAL_ERROR = ''INTERNAL_ERROR''"
| "error_code_name SERVICE_UNAVAILABLE = ''SERVICE_UNAVAILABLE''"

definition default_error_for_status :: "int \<Rightarrow> ErrorCode" where
  "default_error_for_status status =
     (if status = 400 then INVALID_INPUT
      else if status = 401 then UNAUTHORIZED
      else if status = 403 then FORBIDDEN
      else if status = 404 then NOT_FOUND
      else if status = 409 then CONFLICT
      else if status = 429 then RATE_LIMITED
      else if status = 503 then SERVICE_UNAVAILABLE
      else INTERNAL_ERROR)"

definition default_message_for_status :: "int \<Rightarrow> string" where
  "default_message_for_status status =
     (if status = 400 then ''Bad Request''
      else if status = 401 then ''Unauthorized''
      else if status = 403 then ''Forbidden''
      else if status = 404 then ''Not Found''
      else if status = 409 then ''Conflict''
      else if status = 429 then ''Too Many Requests''
      else if status = 503 then ''Service Unavailable''
      else ''Internal Server Error'')"

section \<open>Envelopes and senders\<close>

text \<open>
  The per-thread request id of \<^verbatim>\<open>logger.h\<close> is the argument \<open>rid\<close>; \<open>None\<close> is
  \<^verbatim>\<open>!current_request_id_present()\<close>.
\<close>

definition make_error_envelope :: "string option \<Rightarrow> ErrorCode \<Rightarrow> string \<Rightarrow> json \<Rightarrow> json" where
  "make_error_envelope rid code message details =
     (let j = JObj [(''code'', JStr (error_code_name code)),
                    (''message'', JStr (if message = [] then default_message_for_status 500 else message))];
          j = (if \<not> is_null details then set_member ''details'' details j else j)
      in case rid of None \<Rightarrow> j | Some r \<Rightarrow> set_member ''request_id'' (JStr r) j)"

definition make_success_envelope :: "string option \<Rightarrow> json \<Rightarrow> json" where
  "make_success_envelope rid data =
     (let body = JObj [(''data'', data)]
      in case rid of None \<Rightarrow> body | Some r \<Rightarrow> set_member ''request_id'' (JStr r) body)"

text \<open>
  The content of a response is the document, not its text. Printing it throws on a string that is not UTF-8, after the
  status is set; the routes model that around their handlers (\<open>printed\<close> of Auth_Routes, \<open>web_ok\<close> of Web).
\<close>

definition send_json :: "int \<Rightarrow> json \<Rightarrow> http_response \<Rightarrow> http_response" where
  "send_json status body res = res\<lparr>rsp_status := status, rsp_content := Some (body, kJsonContentType)\<rparr>"

definition send_success :: "string option \<Rightarrow> json \<Rightarrow> http_response \<Rightarrow> http_response" where
  "send_success rid data res = send_json 200 (make_success_envelope rid data) res"

definition send_created :: "string option \<Rightarrow> json \<Rightarrow> http_response \<Rightarrow> http_response" where
  "send_created rid data res = send_json 201 (make_success_envelope rid data) res"

definition send_no_content :: "http_response \<Rightarrow> http_response" where
  "send_no_content res = res\<lparr>rsp_status := 204\<rparr>"

definition send_error :: "string option \<Rightarrow> int \<Rightarrow> ErrorCode \<Rightarrow> string \<Rightarrow> json \<Rightarrow> http_response \<Rightarrow> http_response" where
  "send_error rid status code message details res =
     send_json status (make_error_envelope rid code message details) res"

text \<open>\<open>parse\<close> is \<^verbatim>\<open>nlohmann::json::parse\<close>; \<open>Throws\<close> carries \<^verbatim>\<open>e.what()\<close>.\<close>

definition parse_json_body ::
    "(string \<Rightarrow> json outcome) \<Rightarrow> string option \<Rightarrow> http_request \<Rightarrow> http_response \<Rightarrow> json option \<times> http_response" where
  "parse_json_body parse rid req res =
     (if req_body req = [] then
        (None, send_error rid 400 INVALID_INPUT ''Request body is empty'' JNull res)
      else case parse (req_body req) of
             Returns j \<Rightarrow> (Some j, res)
           | Throws e \<Rightarrow> (None, send_error rid 400 INVALID_INPUT (''Invalid JSON body: '' @ e) JNull res))"

record ApiException =
  ae_status :: int
  ae_code :: ErrorCode
  ae_message :: string
  ae_details :: json

definition respond :: "string option \<Rightarrow> ApiException \<Rightarrow> http_response \<Rightarrow> http_response" where
  "respond rid e res = send_error rid (ae_status e) (ae_code e) (ae_message e) (ae_details e) res"

section \<open>Lemmas\<close>

lemma error_code_name_inj: "error_code_name a = error_code_name b \<longleftrightarrow> a = b"
  by (cases a; cases b) simp_all

lemma error_code_name_nonempty: "error_code_name c \<noteq> []"
  by (cases c) simp_all

lemma envelope_keys:
  "map fst (members (make_error_envelope rid code message details)) =
     [''code'', ''message''] @ (if is_null details then [] else [''details''])
     @ (case rid of None \<Rightarrow> [] | Some r \<Rightarrow> [''request_id''])"
  by (simp add: make_error_envelope_def Let_def split: option.splits)

lemma envelope_get:
  "get_member (make_error_envelope rid code message details) ''code'' = Some (JStr (error_code_name code))"
  "get_member (make_error_envelope rid code message details) ''message''
     = Some (JStr (if message = [] then ''Internal Server Error'' else message))"
  "get_member (make_error_envelope rid code message details) ''details''
     = (if is_null details then None else Some details)"
  "get_member (make_error_envelope rid code message details) ''request_id'' = map_option JStr rid"
  by (simp_all add: make_error_envelope_def Let_def get_member_def default_message_for_status_def
      split: option.splits)

lemma send_error_simps [simp]:
  "rsp_status (send_error rid st code msg d res) = st"
  "rsp_content (send_error rid st code msg d res) = Some (make_error_envelope rid code msg d, kJsonContentType)"
  "rsp_headers (send_error rid st code msg d res) = rsp_headers res"
  by (simp_all add: send_error_def send_json_def)

section \<open>Properties\<close>

text \<open>
  The error envelope has the documented shape, for every code, message, details and request id:
  the members are code, message, then details exactly when they are not null, then request_id exactly
  when a request scope is active; the code identifies the error; the message is never empty and is the
  caller's whenever that is not empty.
\<close>

theorem error_envelope_shape:
  "let j = make_error_envelope rid code message details in
   map fst (members j) = [''code'', ''message''] @ (if is_null details then [] else [''details''])
                         @ (if rid = None then [] else [''request_id''])
   \<and> (get_member j ''code'' = Some (JStr (error_code_name c')) \<longleftrightarrow> c' = code)
   \<and> (\<exists>m. get_member j ''message'' = Some (JStr m) \<and> m \<noteq> [] \<and> (m = message \<or> message = []))
   \<and> get_member j ''details'' = (if is_null details then None else Some details)
   \<and> get_member j ''request_id'' = map_option JStr rid"
  by (simp add: Let_def envelope_keys envelope_get error_code_name_inj eq_commute split: option.splits)

text \<open>
  Body parsing answers the client exactly when it fails: it returns the document and leaves the
  response alone when the parser accepts a non-empty body, and otherwise returns nothing and has put
  a 400 INVALID_INPUT envelope on the response, keeping the headers.
\<close>

theorem parse_json_body_contract:
  "case parse_json_body parse rid req res of
     (Some j, res') \<Rightarrow> res' = res \<and> req_body req \<noteq> [] \<and> parse (req_body req) = Returns j
   | (None, res') \<Rightarrow> rsp_status res' = 400 \<and> rsp_headers res' = rsp_headers res
       \<and> (\<exists>m. rsp_content res' = Some (make_error_envelope rid INVALID_INPUT m JNull, kJsonContentType) \<and> m \<noteq> [])
       \<and> (req_body req = [] \<or> (\<exists>e. parse (req_body req) = Throws e))"
proof (cases "parse (req_body req)")
  case (Returns j)
  then show ?thesis by (auto simp: parse_json_body_def)
next
  case (Throws e)
  then show ?thesis by (auto simp: parse_json_body_def)
qed

end
