(* ===== verification/Validators.thy ===== *)
theory Validators
  imports Http
begin

text \<open>
  Input validation: \<^verbatim>\<open>src/utils/security.h\<close> (length caps, character filters, HTML escaping, slug,
  user name and role shapes), the repository-side validators it has to agree with
  (\<^verbatim>\<open>src/db/user_repo.h\<close>, \<^verbatim>\<open>src/db/problem_repo.h\<close>), and the request ids of
  \<^verbatim>\<open>src/utils/uuid.h\<close> and \<^verbatim>\<open>src/middleware/request_id.h\<close>.

  The 128 random bits of a UUID are arguments (\<^verbatim>\<open>std::mt19937_64\<close> draws).

  Main results: the two slug and user-name validators agree (the lock-step the source asks for),
  escaping removes the characters that end a tag or an attribute and loses nothing, and every
  request id the middleware uses is well formed.
\<close>

unbundle bit_operations_syntax

section \<open>Length caps\<close>

definition kMaxPathComponentLength :: nat where "kMaxPathComponentLength = 200"
definition kMaxQueryParamLength :: nat where "kMaxQueryParamLength = 4096"
definition kMaxHeaderValueLength :: nat where "kMaxHeaderValueLength = 8192"
definition kMaxFreeTextLength :: nat where "kMaxFreeTextLength = 64 * 1024"
definition kMaxMarkdownBodyLength :: nat where "kMaxMarkdownBodyLength = 16 * 1024 * 1024"
definition kSecurityMaxEmailLength :: nat where "kSecurityMaxEmailLength = 254"

definition validate_path_component_len :: "string \<Rightarrow> bool" where
  "validate_path_component_len s = (if s = [] \<or> length s > kMaxPathComponentLength then False else True)"

definition validate_query_param_len :: "string \<Rightarrow> bool" where
  "validate_query_param_len s \<longleftrightarrow> length s \<le> kMaxQueryParamLength"

definition validate_header_value_len :: "string \<Rightarrow> bool" where
  "validate_header_value_len s \<longleftrightarrow> length s \<le> kMaxHeaderValueLength"

definition validate_free_text_len :: "string \<Rightarrow> bool" where
  "validate_free_text_len s \<longleftrightarrow> length s \<le> kMaxFreeTextLength"

definition validate_markdown_body_len :: "string \<Rightarrow> bool" where
  "validate_markdown_body_len s \<longleftrightarrow> length s \<le> kMaxMarkdownBodyLength"

definition validate_email_len :: "string \<Rightarrow> bool" where
  "validate_email_len s \<longleftrightarrow> length s > 0 \<and> length s \<le> kSecurityMaxEmailLength"

section \<open>Character filters\<close>

fun has_control_chars :: "string \<Rightarrow> bool" where
  "has_control_chars [] = False"
| "has_control_chars (c # s) = (if uchar c < 0x20 \<or> uchar c = 0x7F then True else has_control_chars s)"

fun has_html_special_chars :: "string \<Rightarrow> bool" where
  "has_html_special_chars [] = False"
| "has_html_special_chars (c # s) =
     (if c = CHR ''<'' \<or> c = CHR ''>'' \<or> c = CHR ''&'' then True else has_html_special_chars s)"

fun has_json_special_chars :: "string \<Rightarrow> bool" where
  "has_json_special_chars (a # b # c # s) =
     (if uchar a = 0xE2 \<and> uchar b = 0x80 \<and> (uchar c = 0xA8 \<or> uchar c = 0xA9) then True
      else has_json_special_chars (b # c # s))"
| "has_json_special_chars _ = False"

definition is_safe_for_log :: "string \<Rightarrow> bool" where
  "is_safe_for_log s \<longleftrightarrow> \<not> has_control_chars s \<and> \<not> has_json_special_chars s"

definition is_safe_for_html_attribute :: "string \<Rightarrow> bool" where
  "is_safe_for_html_attribute s \<longleftrightarrow> \<not> has_control_chars s \<and> \<not> has_html_special_chars s"

definition escape_char :: "char \<Rightarrow> string" where
  "escape_char c =
     (if c = CHR ''&'' then ''&amp;''
      else if c = CHR ''<'' then ''&lt;''
      else if c = CHR ''>'' then ''&gt;''
      else if c = CHR 0x22 then ''&quot;''
      else if c = quote then ''&#x27;''
      else [c])"

fun escape_html :: "string \<Rightarrow> string" where
  "escape_html [] = []"
| "escape_html (c # s) = escape_char c @ escape_html s"

section \<open>Slugs, user names, roles\<close>

definition validate_slug_shape :: "string \<Rightarrow> bool" where
  "validate_slug_shape s =
     (if s = [] \<or> length s > 100 then False
      else if hd s = CHR ''-'' \<or> last s = CHR ''-'' then False
      else list_all (\<lambda>c. islower c \<or> isdigit c \<or> c = CHR ''-'') s)"

definition validate_username_shape :: "string \<Rightarrow> bool" where
  "validate_username_shape s =
     (if length s < 3 \<or> length s > 50 then False
      else if hd s = CHR ''.'' \<or> hd s = CHR ''-'' \<or> last s = CHR ''.'' \<or> last s = CHR ''-'' then False
      else list_all (\<lambda>c. islower c \<or> isupper c \<or> isdigit c
                        \<or> c = CHR ''_'' \<or> c = CHR ''.'' \<or> c = CHR ''-'') s)"

definition validate_role_shape :: "string \<Rightarrow> bool" where
  "validate_role_shape s \<longleftrightarrow> s = ''user'' \<or> s = ''admin''"

text \<open>The repository side; \<open>Inl\<close> carries the text stored through \<^verbatim>\<open>error_out\<close>.\<close>

definition kMinUsernameLength :: nat where "kMinUsernameLength = 3"
definition kMaxUsernameLength :: nat where "kMaxUsernameLength = 50"
definition kMinEmailLength :: nat where "kMinEmailLength = 3"
definition kMaxEmailLength :: nat where "kMaxEmailLength = 100"

definition is_valid_username_char :: "char \<Rightarrow> bool" where
  "is_valid_username_char c \<longleftrightarrow>
     islower c \<or> isupper c \<or> isdigit c \<or> c = CHR ''_'' \<or> c = CHR ''-'' \<or> c = CHR ''.''"

definition validate_username :: "string \<Rightarrow> string + unit" where
  "validate_username u =
     (if length u < kMinUsernameLength \<or> length u > kMaxUsernameLength then
        Inl (''username must be between '' @ to_string (int kMinUsernameLength) @ '' and ''
             @ to_string (int kMaxUsernameLength) @ '' characters'')
      else if hd u = CHR ''.'' \<or> hd u = CHR ''-'' \<or> last u = CHR ''.'' \<or> last u = CHR ''-'' then
        Inl (''username must not start or end with '.' or '-'' @ [quote])
      else if list_ex (\<lambda>c. \<not> is_valid_username_char c) u then
        Inl (''username may only contain letters, digits, '_', '-', '.'' @ [quote])
      else Inr ())"

definition validate_email :: "string \<Rightarrow> string + unit" where
  "validate_email email =
     (if length email < kMinEmailLength \<or> length email > kMaxEmailLength then
        Inl (''email must be between '' @ to_string (int kMinEmailLength) @ '' and ''
             @ to_string (int kMaxEmailLength) @ '' characters'')
      else case split_at_char (CHR ''@'') email of
        None \<Rightarrow> Inl ''email must be of the form local@domain''
      | Some (local, domain) \<Rightarrow>
          if local = [] \<or> domain = [] then Inl ''email must be of the form local@domain''
          else if CHR ''@'' \<in> set domain then Inl (''email must contain exactly one '@'' @ [quote])
          else if CHR ''.'' \<notin> set domain \<or> hd domain = CHR ''.'' \<or> last domain = CHR ''.'' then
            Inl ''email domain must contain a dot and not start/end with one''
          else if list_ex isspace email then Inl ''email must not contain whitespace''
          else Inr ())"

definition kMinSlugLength :: nat where "kMinSlugLength = 1"
definition kMaxSlugLength :: nat where "kMaxSlugLength = 100"
definition kMinTitleLength :: nat where "kMinTitleLength = 1"
definition kMaxTitleLength :: nat where "kMaxTitleLength = 200"

definition is_valid_slug_char :: "char \<Rightarrow> bool" where
  "is_valid_slug_char c \<longleftrightarrow> islower c \<or> isdigit c \<or> c = CHR ''-''"

definition validate_slug :: "string \<Rightarrow> string + unit" where
  "validate_slug slug =
     (if length slug < kMinSlugLength \<or> length slug > kMaxSlugLength then
        Inl (''slug length must be between '' @ to_string (int kMinSlugLength) @ '' and ''
             @ to_string (int kMaxSlugLength))
      else if hd slug = CHR ''-'' \<or> last slug = CHR ''-'' then Inl (''slug must not start or end with '-'' @ [quote])
      else if list_ex (\<lambda>c. \<not> is_valid_slug_char c) slug then
        Inl (''slug may only contain lowercase letters, digits, and '-'' @ [quote])
      else Inr ())"

definition is_valid_difficulty :: "string \<Rightarrow> bool" where
  "is_valid_difficulty d \<longleftrightarrow> d = ''easy'' \<or> d = ''medium'' \<or> d = ''hard''"

definition validate_difficulty :: "string \<Rightarrow> string + unit" where
  "validate_difficulty d =
     (if \<not> is_valid_difficulty d then Inl ''difficulty must be one of: easy, medium, hard'' else Inr ())"

definition validate_title :: "string \<Rightarrow> string + unit" where
  "validate_title title =
     (if length title < kMinTitleLength \<or> length title > kMaxTitleLength then
        Inl (''title length must be between '' @ to_string (int kMinTitleLength) @ '' and ''
             @ to_string (int kMaxTitleLength))
      else Inr ())"

definition validate_time_limit :: "int \<Rightarrow> string + unit" where
  "validate_time_limit ms =
     (if ms < 1 \<or> ms > 60000 then Inl (''time_limit must be between '' @ to_string 1 @ '' and '' @ to_string 60000 @ '' ms'')
      else Inr ())"

definition validate_memory_limit :: "int \<Rightarrow> string + unit" where
  "validate_memory_limit mb =
     (if mb < 1 \<or> mb > 1024 then Inl (''memory_limit must be between '' @ to_string 1 @ '' and '' @ to_string 1024 @ '' MB'')
      else Inr ())"

text \<open>The page of a problem list: \<open>lf_limit\<close> and \<open>lf_offset\<close> of \<^verbatim>\<open>ProblemListFilter\<close>.\<close>

record list_window =
  lf_limit :: int
  lf_offset :: int

definition clamp_list_filter :: "list_window \<Rightarrow> list_window" where
  "clamp_list_filter f =
     (let f1 = (if lf_limit f \<le> 0 then f\<lparr>lf_limit := 20\<rparr> else f);
          f2 = (if lf_limit f1 > 100 then f1\<lparr>lf_limit := 100\<rparr> else f1)
      in if lf_offset f2 < 0 then f2\<lparr>lf_offset := 0\<rparr> else f2)"

section \<open>UUIDs and request ids\<close>

definition hex_digit :: "u8 \<Rightarrow> char" where
  "hex_digit n = ''0123456789abcdef'' ! unat n"

definition hex2 :: "u8 \<Rightarrow> string" where
  "hex2 b = [hex_digit (drop_bit 4 b), hex_digit (b AND 0x0F)]"

definition uuid_bytes :: "64 word \<Rightarrow> 64 word \<Rightarrow> bytes" where
  "uuid_bytes hi lo =
     (let b = map (\<lambda>i. ucast (drop_bit (8 * i) hi)) [0..<8] @ map (\<lambda>i. ucast (drop_bit (8 * i) lo)) [0..<8]
      in b[6 := (b ! 6 AND 0x0F) OR 0x40, 8 := (b ! 8 AND 0x3F) OR 0x80])"

definition generate_uuid_v4 :: "64 word \<Rightarrow> 64 word \<Rightarrow> string" where
  "generate_uuid_v4 hi lo =
     (let b = uuid_bytes hi lo
      in hex2 (b ! 0) @ hex2 (b ! 1) @ hex2 (b ! 2) @ hex2 (b ! 3) @ ''-'' @ hex2 (b ! 4) @ hex2 (b ! 5)
         @ ''-'' @ hex2 (b ! 6) @ hex2 (b ! 7) @ ''-'' @ hex2 (b ! 8) @ hex2 (b ! 9) @ ''-''
         @ hex2 (b ! 10) @ hex2 (b ! 11) @ hex2 (b ! 12) @ hex2 (b ! 13) @ hex2 (b ! 14) @ hex2 (b ! 15))"

definition kMaxRequestIdLength :: nat where "kMaxRequestIdLength = 128"

definition is_valid_request_id :: "string \<Rightarrow> bool" where
  "is_valid_request_id rid =
     (if rid = [] \<or> length rid > kMaxRequestIdLength then False
      else list_all (\<lambda>c. isdigit c \<or> islower c \<or> isupper c
                        \<or> c = CHR ''-'' \<or> c = CHR ''_'' \<or> c = CHR ''.'') rid)"

definition resolve_request_id :: "string \<Rightarrow> 64 word \<Rightarrow> 64 word \<Rightarrow> string" where
  "resolve_request_id inbound hi lo =
     (if inbound \<noteq> [] \<and> is_valid_request_id inbound then inbound else generate_uuid_v4 hi lo)"

definition request_id_header_name :: string where
  "request_id_header_name = ''X-Request-Id''"

definition apply_request_id_header ::
    "string \<Rightarrow> 64 word \<Rightarrow> 64 word \<Rightarrow> http_response \<Rightarrow> string \<times> http_response" where
  "apply_request_id_header inbound hi lo res =
     (let rid = resolve_request_id inbound hi lo in (rid, set_header request_id_header_name rid res))"

definition apply_security_headers :: "bool \<Rightarrow> http_response \<Rightarrow> http_response" where
  "apply_security_headers with_coop_coep res =
     (let res = set_header ''X-Content-Type-Options'' ''nosniff'' res;
          res = set_header ''X-Frame-Options'' ''DENY'' res;
          res = set_header ''Referrer-Policy'' ''strict-origin-when-cross-origin'' res;
          res = set_header ''Permissions-Policy'' ''geolocation=(), microphone=(), camera=(), payment=()'' res;
          res = set_header ''Content-Security-Policy''
                  (''default-src 'none'; frame-ancestors 'none'' @ [quote]) res
      in if with_coop_coep then
           set_header ''Cross-Origin-Embedder-Policy'' ''require-corp''
             (set_header ''Cross-Origin-Opener-Policy'' ''same-origin'' res)
         else res)"

section \<open>Lemmas\<close>

lemma list_ex_not: "list_ex (\<lambda>c. \<not> P c) xs = (\<not> list_all P xs)"
  by (induction xs) auto

lemma has_control_chars_iff: "has_control_chars s \<longleftrightarrow> (\<exists>c \<in> set s. uchar c < 32 \<or> uchar c = 127)"
  by (induction s) auto

lemma has_html_special_chars_iff:
  "has_html_special_chars s \<longleftrightarrow> CHR ''<'' \<in> set s \<or> CHR ''>'' \<in> set s \<or> CHR ''&'' \<in> set s"
  by (induction s) auto

text \<open>The HTML entity decoder for the five entities, as a specification of what escaping must keep.\<close>

fun unescape_html :: "string \<Rightarrow> string" where
  "unescape_html [] = []"
| "unescape_html (c # s) =
     (if starts_with ''&amp;'' (c # s) then CHR ''&'' # unescape_html (drop 4 s)
      else if starts_with ''&lt;'' (c # s) then CHR ''<'' # unescape_html (drop 3 s)
      else if starts_with ''&gt;'' (c # s) then CHR ''>'' # unescape_html (drop 3 s)
      else if starts_with ''&quot;'' (c # s) then CHR 0x22 # unescape_html (drop 5 s)
      else if starts_with ''&#x27;'' (c # s) then quote # unescape_html (drop 5 s)
      else c # unescape_html s)"

lemma unescape_escape: "unescape_html (escape_html s) = s"
  by (induction s) (auto simp: escape_char_def)

lemma escape_html_clean: "set (escape_html s) \<inter> {CHR ''<'', CHR ''>'', CHR 0x22, quote} = {}"
proof (induction s)
  case (Cons c s)
  have "set (escape_char c) \<inter> {CHR ''<'', CHR ''>'', CHR 0x22, quote} = {}"
    by (auto simp: escape_char_def)
  with Cons show ?case by auto
qed simp

lemma hex_digit_table:
  "\<forall>k \<in> set [0..<16]. let c = ''0123456789abcdef'' ! k in isdigit c \<or> islower c"
  by code_simp

lemma hex_digit_class:
  assumes "unat n < 16"
  shows "isdigit (hex_digit n) \<or> islower (hex_digit n)"
  using bspec [OF hex_digit_table, of "unat n"] assms by (simp add: hex_digit_def Let_def)

lemma nibble_bounds: "unat (drop_bit 4 (b :: u8)) < 16" "unat (b AND 0x0F :: u8) < 16"
proof -
  have "unat b < 256" using unsigned_less [of b] by simp
  then have "unat b div 16 < 16" by (simp add: less_mult_imp_div_less)
  then show "unat (drop_bit 4 b) < 16" by (simp add: unat_drop_bit_eq drop_bit_eq_div unat_div)
  show "unat (b AND 0x0F) < 16" using word_and_le1 [of b 15] by (simp add: word_le_nat_alt)
qed

lemma hex2_class: "c \<in> set (hex2 b) \<Longrightarrow> isdigit c \<or> islower c"
  using hex_digit_class nibble_bounds by (auto simp: hex2_def)

lemma length_hex2 [simp]: "length (hex2 b) = 2"
  by (simp add: hex2_def)

lemma length_uuid [simp]: "length (generate_uuid_v4 hi lo) = 36"
  by (simp add: generate_uuid_v4_def Let_def)

lemma uuid_chars: "c \<in> set (generate_uuid_v4 hi lo) \<Longrightarrow> isdigit c \<or> islower c \<or> c = CHR ''-''"
  by (auto simp: generate_uuid_v4_def Let_def dest: hex2_class)

lemma uuid_valid: "is_valid_request_id (generate_uuid_v4 hi lo)"
proof -
  have "generate_uuid_v4 hi lo \<noteq> []" using length_uuid by (metis length_0_conv zero_neq_numeral)
  then show ?thesis
    using uuid_chars by (fastforce simp: is_valid_request_id_def kMaxRequestIdLength_def list_all_iff)
qed

lemma u8_version_nibble: "drop_bit 4 ((b AND 0x0F) OR 0x40 :: u8) = 4"
  by (rule bit_word_eqI) (auto simp: bit_simps less_Suc_eq numeral_eq_Suc)

lemma u8_variant_nibble: "drop_bit 4 ((b AND 0x3F) OR 0x80 :: u8) \<in> {8, 9, 10, 11}"
proof -
  have "drop_bit 4 ((b AND 0x3F) OR 0x80 :: u8) = (drop_bit 4 b AND 3) OR 8"
    by (rule bit_word_eqI) (auto simp: bit_simps less_Suc_eq numeral_eq_Suc)
  moreover have "(x AND 3) OR 8 \<in> {8, 9, 10, 11}" for x :: u8
  proof -
    have "unat (x AND 3) \<le> 3" using word_and_le1 [of x 3] by (simp add: word_le_nat_alt)
    then have "unat (x AND 3) \<in> {0, 1, 2, 3}" by auto
    then have "x AND 3 \<in> {0, 1, 2, 3}" by (simp add: word_unat_eq_iff)
    then show ?thesis by auto
  qed
  ultimately show ?thesis by simp
qed

section \<open>Properties\<close>

lemma slug_validators_agree: "validate_slug_shape s \<longleftrightarrow> validate_slug s = Inr ()"
proof -
  have "list_all (\<lambda>c. islower c \<or> isdigit c \<or> c = CHR ''-'') s = list_all is_valid_slug_char s"
    by (simp add: is_valid_slug_char_def list_all_iff)
  then show ?thesis
    by (simp add: validate_slug_shape_def validate_slug_def kMinSlugLength_def kMaxSlugLength_def
        list_ex_not Suc_le_eq)
qed

lemma username_validators_agree: "validate_username_shape s \<longleftrightarrow> validate_username s = Inr ()"
proof -
  have "list_all (\<lambda>c. islower c \<or> isupper c \<or> isdigit c \<or> c = CHR ''_'' \<or> c = CHR ''.'' \<or> c = CHR ''-'') s
        = list_all is_valid_username_char s"
    by (auto simp: is_valid_username_char_def list_all_iff)
  then show ?thesis
    by (simp add: validate_username_shape_def validate_username_def kMinUsernameLength_def
        kMaxUsernameLength_def list_ex_not)
qed

text \<open>
  The slug and user-name checks of the route layer and those of the repositories agree on every
  string: what the router lets through is never refused by the repository for its shape, and the
  other way round.
\<close>

theorem route_and_repo_validators_agree:
  "(validate_slug_shape s \<longleftrightarrow> validate_slug s = Inr ())
   \<and> (validate_username_shape s \<longleftrightarrow> validate_username s = Inr ())"
  using slug_validators_agree username_validators_agree by blast

text \<open>
  HTML escaping is safe and loses nothing: the output holds no angle bracket and no quote of
  either kind, and decoding the five entities gives the input back.
\<close>

theorem escape_html_safe:
  "set (escape_html s) \<inter> {CHR ''<'', CHR ''>'', CHR 0x22, quote} = {} \<and> unescape_html (escape_html s) = s"
  using escape_html_clean unescape_escape by blast

text \<open>
  Every request id the middleware puts into the logs and the response is well formed (1 to 128
  characters of letters, digits, dash, underscore, dot), and it is the client's own id whenever that
  is well formed.
\<close>

theorem request_id_well_formed:
  "is_valid_request_id (resolve_request_id inbound hi lo)
   \<and> (resolve_request_id inbound hi lo = inbound \<longleftrightarrow> is_valid_request_id inbound \<or> inbound = generate_uuid_v4 hi lo)"
proof -
  have "is_valid_request_id inbound \<Longrightarrow> inbound \<noteq> []" by (auto simp: is_valid_request_id_def)
  then show ?thesis using uuid_valid [of hi lo] by (auto simp: resolve_request_id_def)
qed

text \<open>
  The generated ids are version-4 UUIDs in the canonical form: 36 characters, dashes at offsets
  8, 13, 18 and 23, the version digit 4 at offset 14 and a variant digit 8, 9, a or b at offset 19.
\<close>

theorem uuid_v4_shape:
  "let u = generate_uuid_v4 hi lo in
   length u = 36 \<and> map ((!) u) [8, 13, 18, 23] = ''----'' \<and> u ! 14 = CHR ''4'' \<and> u ! 19 \<in> set ''89ab''"
proof -
  have six: "uuid_bytes hi lo ! 6 = (b AND 0x0F) OR 0x40" if "b = ucast (drop_bit 48 hi)" for b
    using that by (simp add: uuid_bytes_def Let_def upt_rec numeral_eq_Suc)
  have eight: "uuid_bytes hi lo ! 8 = (b AND 0x3F) OR 0x80" if "b = ucast lo" for b
    using that by (simp add: uuid_bytes_def Let_def upt_rec numeral_eq_Suc)
  have "hex_digit (drop_bit 4 (uuid_bytes hi lo ! 6)) = CHR ''4''"
    using six u8_version_nibble by (simp add: hex_digit_def)
  moreover have "hex_digit (drop_bit 4 (uuid_bytes hi lo ! 8)) \<in> set ''89ab''"
    using eight u8_variant_nibble [of "ucast lo"] by (auto simp: hex_digit_def)
  ultimately show ?thesis
    by (simp add: generate_uuid_v4_def Let_def hex2_def numeral_eq_Suc)
qed

end
