(* ===== verification/User_Repo.thy ===== *)
theory User_Repo
  imports Submission_Repo Validators
begin

text \<open>
  \<^verbatim>\<open>src/db/user_repo.h\<close>: the operations on the tables \<^verbatim>\<open>users\<close> and \<^verbatim>\<open>user_username_history\<close>.

  A statement is its effect on the tables; the constraints are those of the migrations (unique user
  names, unique e-mail addresses, unique old names). What the server decides is in \<open>db_env\<close>: the
  collation (string equality of \<^verbatim>\<open>utf8mb4_unicode_ci\<close>, and equality of characters in \<^verbatim>\<open>LIKE\<close>), the
  printed \<^verbatim>\<open>NOW()\<close>, whether the affected-items count is of matched or of changed rows, the text of
  the error a violated unique key raises, and failures of the pool or of the \<open>k\<close>-th statement of a
  call. Every statement commits on its own. Decoding result rows is glue and left out; the ids that
  failed inserts use up are not modelled.

  The server checks the unique keys; what this code adds is the order of its statements and what it makes of a
  duplicate-key error.

  Main results: what registration and renaming do to
  lookups, when a rename is refused, paging through the user list, and what the search matches.
\<close>

section \<open>Rows, tables, environment\<close>

record UserRow =
  u_id :: int
  u_username :: string
  u_display_name :: "string option"
  u_password_hash :: string
  u_role :: string
  u_token_version :: int
  u_email :: "string option"
  u_school :: "string option"
  u_bio :: "string option"
  u_avatar :: "string option"
  u_created_at :: string
  u_last_login :: "string option"
  u_last_login_ip :: "string option"
  u_username_changed_at :: "string option"

record user_db =
  ud_users :: "UserRow list"
  ud_next :: int
  ud_history :: "(int \<times> string) list"

record db_env =
  dv_eq :: "string \<Rightarrow> string \<Rightarrow> bool"
  dv_char_eq :: "char \<Rightarrow> char \<Rightarrow> bool"
  dv_now :: string
  dv_count_matched :: bool
  dv_duplicate :: string
  dv_acquire :: "string option"
  dv_fault :: "nat \<Rightarrow> string option"

text \<open>The exceptions that leave the functions; all are \<^verbatim>\<open>std::exception\<close>s.\<close>

datatype user_error = UserRepoError string | MysqlxError string | UserPoolError string

fun user_error_what :: "user_error \<Rightarrow> string" where
  "user_error_what (UserRepoError m) = m"
| "user_error_what (MysqlxError m) = m"
| "user_error_what (UserPoolError m) = m"

definition is_duplicate_error :: "string \<Rightarrow> bool" where
  "is_duplicate_error what \<longleftrightarrow>
     contains_str ''Duplicate entry'' what \<or> contains_str ''duplicate'' what \<or> contains_str ''1062'' what"

text \<open>Acquiring a connection, and the \<open>k\<close>-th statement of a call.\<close>

definition with_conn :: "db_env \<Rightarrow> user_error + 'a \<Rightarrow> user_error + 'a" where
  "with_conn v body = (case dv_acquire v of Some m \<Rightarrow> Inl (UserPoolError m) | None \<Rightarrow> body)"

definition stmt :: "db_env \<Rightarrow> nat \<Rightarrow> 'a \<Rightarrow> string + 'a" where
  "stmt v k r = (case dv_fault v k of Some m \<Rightarrow> Inl m | None \<Rightarrow> Inr r)"

fun email_clash :: "db_env \<Rightarrow> string option \<Rightarrow> string option \<Rightarrow> bool" where
  "email_clash v (Some a) (Some b) = dv_eq v a b"
| "email_clash v _ _ = False"

section \<open>Operations\<close>

text \<open>The \<^verbatim>\<open>INSERT\<close>, with the unique keys of \<^verbatim>\<open>db/migrations\<close> that the server checks.\<close>

definition insert_user :: "db_env \<Rightarrow> UserRow \<Rightarrow> string \<Rightarrow> user_db \<Rightarrow> string + int \<times> user_db" where
  "insert_user v row role d =
     (if \<exists>u \<in> set (ud_users d). dv_eq v (u_username u) (u_username row) \<or> email_clash v (u_email u) (u_email row)
      then Inl (dv_duplicate v)
      else let r = \<lparr>u_id = ud_next d, u_username = u_username row, u_display_name = None,
                    u_password_hash = u_password_hash row, u_role = role, u_token_version = 0,
                    u_email = u_email row, u_school = None, u_bio = None, u_avatar = u_avatar row,
                    u_created_at = dv_now v, u_last_login = None, u_last_login_ip = None,
                    u_username_changed_at = None\<rparr>
           in Inr (ud_next d, d\<lparr>ud_users := ud_users d @ [r], ud_next := ud_next d + 1\<rparr>))"

definition create_user :: "db_env \<Rightarrow> UserRow \<Rightarrow> user_db \<Rightarrow> user_error + int \<times> user_db" where
  "create_user v row d =
     with_conn v
       (let role = (if u_role row = [] then ''user'' else u_role row) in
        case (case dv_fault v 0 of Some m \<Rightarrow> Inl m | None \<Rightarrow> insert_user v row role d) of
          Inr r \<Rightarrow> Inr r
        | Inl what \<Rightarrow>
            if is_duplicate_error what then Inr (0, d)
            else Inl (UserRepoError (''user_repo::create_user: '' @ what)))"

text \<open>A query whose \<^verbatim>\<open>mysqlx::Error\<close> is not caught.\<close>

definition query :: "db_env \<Rightarrow> 'a \<Rightarrow> user_error + 'a" where
  "query v r = with_conn v (case stmt v 0 r of Inl m \<Rightarrow> Inl (MysqlxError m) | Inr x \<Rightarrow> Inr x)"

definition username_exists :: "db_env \<Rightarrow> string \<Rightarrow> user_db \<Rightarrow> user_error + bool" where
  "username_exists v n d = query v (\<exists>u \<in> set (ud_users d). dv_eq v (u_username u) n)"

definition email_exists :: "db_env \<Rightarrow> string \<Rightarrow> user_db \<Rightarrow> user_error + bool" where
  "email_exists v m d = query v (\<exists>u \<in> set (ud_users d). email_clash v (u_email u) (Some m))"

definition find_user_by_name :: "db_env \<Rightarrow> string \<Rightarrow> user_db \<Rightarrow> user_error + UserRow option" where
  "find_user_by_name v n d = query v (List.find (\<lambda>u. dv_eq v (u_username u) n) (ud_users d))"

definition find_user_by_id :: "db_env \<Rightarrow> int \<Rightarrow> user_db \<Rightarrow> user_error + UserRow option" where
  "find_user_by_id v i d = query v (List.find (\<lambda>u. u_id u = i) (ud_users d))"

text \<open>\<^verbatim>\<open>UPDATE users SET g WHERE id = i\<close> with the affected-items count.\<close>

definition update_user :: "db_env \<Rightarrow> int \<Rightarrow> (UserRow \<Rightarrow> UserRow) \<Rightarrow> user_db \<Rightarrow> nat \<times> user_db" where
  "update_user v i g d =
     (length (filter (\<lambda>u. u_id u = i \<and> (dv_count_matched v \<or> g u \<noteq> u)) (ud_users d)),
      d\<lparr>ud_users := map (\<lambda>u. if u_id u = i then g u else u) (ud_users d)\<rparr>)"

text \<open>A failed statement is only logged.\<close>

definition update_last_login :: "db_env \<Rightarrow> int \<Rightarrow> string \<Rightarrow> user_db \<Rightarrow> user_error + user_db" where
  "update_last_login v i ip d =
     with_conn v
       (case stmt v 0 (update_user v i (\<lambda>u. u\<lparr>u_last_login := Some (dv_now v),
                                              u_last_login_ip := (if ip = [] then None else Some ip)\<rparr>) d) of
          Inl _ \<Rightarrow> Inr d
        | Inr (_, d') \<Rightarrow> Inr d')"

definition update_role :: "db_env \<Rightarrow> int \<Rightarrow> string \<Rightarrow> user_db \<Rightarrow> user_error + bool \<times> user_db" where
  "update_role v i role d =
     (if role \<noteq> ''user'' \<and> role \<noteq> ''admin'' then
        Inl (UserRepoError (''user_repo::update_role: role must be 'user' or 'admin'' @ [quote]))
      else with_conn v
        (case stmt v 0 (update_user v i (\<lambda>u. u\<lparr>u_role := role\<rparr>) d) of
           Inl m \<Rightarrow> Inl (MysqlxError m)
         | Inr (n, d') \<Rightarrow> Inr (n > 0, d')))"

definition update_profile ::
    "db_env \<Rightarrow> int \<Rightarrow> string option \<Rightarrow> string option \<Rightarrow> string option \<Rightarrow> string option \<Rightarrow> user_db
       \<Rightarrow> user_error + bool \<times> user_db" where
  "update_profile v i display_name school bio email d =
     with_conn v
       (case (case dv_fault v 0 of
                Some m \<Rightarrow> Inl m
              | None \<Rightarrow>
                  if (\<exists>u \<in> set (ud_users d). u_id u = i)
                     \<and> (\<exists>u \<in> set (ud_users d). u_id u \<noteq> i \<and> email_clash v (u_email u) email)
                  then Inl (dv_duplicate v)
                  else Inr (update_user v i (\<lambda>u. u\<lparr>u_display_name := display_name, u_school := school,
                                                   u_bio := bio, u_email := email\<rparr>) d)) of
          Inr (n, d') \<Rightarrow> Inr (n > 0, d')
        | Inl what \<Rightarrow>
            if is_duplicate_error what then Inr (False, d)
            else Inl (UserRepoError (''user_repo::update_profile: '' @ what)))"

definition update_avatar :: "db_env \<Rightarrow> int \<Rightarrow> string option \<Rightarrow> user_db \<Rightarrow> user_error + bool \<times> user_db" where
  "update_avatar v i url d =
     with_conn v
       (case stmt v 0 (update_user v i (\<lambda>u. u\<lparr>u_avatar := url\<rparr>) d) of
          Inl m \<Rightarrow> Inl (MysqlxError m)
        | Inr (n, d') \<Rightarrow> Inr (n > 0, d'))"

text \<open>The second and third statement of a rename: record the old name, then change it.\<close>

definition insert_history :: "db_env \<Rightarrow> int \<Rightarrow> string \<Rightarrow> user_db \<Rightarrow> string + user_db" where
  "insert_history v i old d =
     (case dv_fault v 1 of
        Some m \<Rightarrow> Inl m
      | None \<Rightarrow>
          if \<exists>h \<in> set (ud_history d). dv_eq v (snd h) old then Inl (dv_duplicate v)
          else Inr (d\<lparr>ud_history := ud_history d @ [(i, old)]\<rparr>))"

definition set_username :: "db_env \<Rightarrow> int \<Rightarrow> string \<Rightarrow> user_db \<Rightarrow> string + nat \<times> user_db" where
  "set_username v i n d =
     (case dv_fault v 2 of
        Some m \<Rightarrow> Inl m
      | None \<Rightarrow>
          if (\<exists>u \<in> set (ud_users d). u_id u = i) \<and> (\<exists>u \<in> set (ud_users d). u_id u \<noteq> i \<and> dv_eq v (u_username u) n)
          then Inl (dv_duplicate v)
          else Inr (update_user v i (\<lambda>u. u\<lparr>u_username := n, u_username_changed_at := Some (dv_now v)\<rparr>) d))"

text \<open>The tables are returned with an error too: the statements before it stay committed.\<close>

definition rename_failed :: "string \<Rightarrow> user_error + bool" where
  "rename_failed what =
     (if is_duplicate_error what then Inr False
      else Inl (UserRepoError (''user_repo::update_username: '' @ what)))"

definition update_username :: "db_env \<Rightarrow> int \<Rightarrow> string \<Rightarrow> user_db \<Rightarrow> (user_error + bool) \<times> user_db" where
  "update_username v i n d =
     (case dv_acquire v of
        Some m \<Rightarrow> (Inl (UserPoolError m), d)
      | None \<Rightarrow>
          (case stmt v 0 (List.find (\<lambda>u. u_id u = i) (ud_users d)) of
             Inl what \<Rightarrow> (rename_failed what, d)
           | Inr None \<Rightarrow> (Inr False, d)
           | Inr (Some u) \<Rightarrow>
               if u_username u = n then (Inr True, d)
               else case insert_history v i (u_username u) d of
                      Inl what \<Rightarrow> (rename_failed what, d)
                    | Inr d1 \<Rightarrow>
                        (case set_username v i n d1 of
                           Inl what \<Rightarrow> (rename_failed what, d1)
                         | Inr (k, d2) \<Rightarrow> (Inr (k > 0), d2))))"

record OldUsernameHit =
  oh_user_id :: int
  oh_current_username :: string

text \<open>
  The join goes through the history rows with the name; with unique old names there is at most one.
\<close>

definition old_username_hits :: "db_env \<Rightarrow> string \<Rightarrow> user_db \<Rightarrow> OldUsernameHit list" where
  "old_username_hits v n d =
     concat (map (\<lambda>h. if dv_eq v (snd h) n
                      then map (\<lambda>u. \<lparr>oh_user_id = fst h, oh_current_username = u_username u\<rparr>)
                             (filter (\<lambda>u. u_id u = fst h) (ud_users d))
                      else []) (ud_history d))"

definition find_by_old_username :: "db_env \<Rightarrow> string \<Rightarrow> user_db \<Rightarrow> user_error + OldUsernameHit option" where
  "find_by_old_username v n d =
     query v (case old_username_hits v n d of [] \<Rightarrow> None | h # _ \<Rightarrow> Some h)"

section \<open>The user list\<close>

record UserListFilter =
  uf_role :: "string option"
  uf_q :: "string option"
  uf_limit :: int
  uf_offset :: int

definition kDefaultUserListLimit :: int where "kDefaultUserListLimit = 20"
definition kMaxUserListLimit :: int where "kMaxUserListLimit = 100"

definition clamp_user_list_filter :: "UserListFilter \<Rightarrow> UserListFilter" where
  "clamp_user_list_filter f =
     (let f1 = (if uf_limit f \<le> 0 then f\<lparr>uf_limit := kDefaultUserListLimit\<rparr> else f);
          f2 = (if uf_limit f1 > kMaxUserListLimit then f1\<lparr>uf_limit := kMaxUserListLimit\<rparr> else f1)
      in if uf_offset f2 < 0 then f2\<lparr>uf_offset := 0\<rparr> else f2)"

text \<open>\<^verbatim>\<open>LIKE\<close> with the default escape character; a backslash at the end stands for itself.\<close>

abbreviation (input) backslash :: char where
  "backslash \<equiv> CHR 0x5C"

fun like :: "(char \<Rightarrow> char \<Rightarrow> bool) \<Rightarrow> string \<Rightarrow> string \<Rightarrow> bool" where
  "like eq [] [] = True"
| "like eq [] (c # cs) = False"
| "like eq (p # ps) [] = (p = CHR ''%'' \<and> like eq ps [])"
| "like eq (p # ps) (c # cs) =
     (if p = CHR ''%'' then like eq ps (c # cs) \<or> like eq (p # ps) cs
      else if p = CHR ''_'' then like eq ps cs
      else if p = backslash then
        (case ps of [] \<Rightarrow> eq backslash c \<and> cs = [] | q # qs \<Rightarrow> eq q c \<and> like eq qs cs)
      else eq p c \<and> like eq ps cs)"

definition escape_search :: "string \<Rightarrow> string" where
  "escape_search q = map (\<lambda>c. if c = CHR ''%'' \<or> c = CHR ''_'' then backslash else c) q"

text \<open>The \<^verbatim>\<open>WHERE\<close> clause both list queries build.\<close>

definition list_match :: "db_env \<Rightarrow> UserListFilter \<Rightarrow> UserRow \<Rightarrow> bool" where
  "list_match v f u \<longleftrightarrow>
     (case uf_role f of None \<Rightarrow> True | Some r \<Rightarrow> dv_eq v (u_role u) r)
     \<and> (case uf_q f of
          None \<Rightarrow> True
        | Some q \<Rightarrow> q = [] \<or> like (dv_char_eq v) (CHR ''%'' # escape_search q @ ''%'') (u_username u))"

definition count_users :: "db_env \<Rightarrow> UserListFilter \<Rightarrow> user_db \<Rightarrow> user_error + int" where
  "count_users v f_in d =
     (let f = clamp_user_list_filter f_in in
      with_conn v
        (case stmt v 0 (int (length (filter (list_match v f) (ud_users d)))) of
           Inl m \<Rightarrow> Inl (UserRepoError (''user_repo::count_users: '' @ m))
         | Inr n \<Rightarrow> Inr n))"

record UserListRow =
  lr_user :: UserRow
  lr_submission_count :: int

definition list_users :: "db_env \<Rightarrow> UserListFilter \<Rightarrow> table \<Rightarrow> user_db \<Rightarrow> user_error + UserListRow list" where
  "list_users v f_in subs_t d =
     (let f = clamp_user_list_filter f_in in
      with_conn v
        (case stmt v 0 (take (nat (uf_limit f)) (drop (nat (uf_offset f))
                  (sort_key u_id (filter (list_match v f) (ud_users d))))) of
           Inl m \<Rightarrow> Inl (UserRepoError (''user_repo::list_users: '' @ m))
         | Inr us \<Rightarrow>
             Inr (map (\<lambda>u. \<lparr>lr_user = u,
                            lr_submission_count = int (length (filter (\<lambda>s. sub_user_id s = u_id u) (rows subs_t)))\<rparr>) us)))"

section \<open>Sequences of operations\<close>

datatype user_op =
    CreateUser UserRow
  | TouchLogin int string
  | SetRole int string
  | SetProfile int "string option" "string option" "string option" "string option"
  | SetAvatar int "string option"
  | Rename int string

definition db_after :: "user_error + 'a \<times> user_db \<Rightarrow> user_db \<Rightarrow> user_db" where
  "db_after r d = (case r of Inl _ \<Rightarrow> d | Inr (_, d') \<Rightarrow> d')"

fun run_user_op :: "db_env \<times> user_op \<Rightarrow> user_db \<Rightarrow> user_db" where
  "run_user_op (v, CreateUser row) d = db_after (create_user v row d) d"
| "run_user_op (v, TouchLogin i ip) d = (case update_last_login v i ip d of Inl _ \<Rightarrow> d | Inr d' \<Rightarrow> d')"
| "run_user_op (v, SetRole i r) d = db_after (update_role v i r d) d"
| "run_user_op (v, SetProfile i a b c e) d = db_after (update_profile v i a b c e d) d"
| "run_user_op (v, SetAvatar i a) d = db_after (update_avatar v i a d) d"
| "run_user_op (v, Rename i n) d = snd (update_username v i n d)"

section \<open>The keys of the tables\<close>

definition collation :: "(string \<Rightarrow> string \<Rightarrow> bool) \<Rightarrow> bool" where
  "collation eq \<longleftrightarrow> (\<forall>a. eq a a) \<and> (\<forall>a b. eq a b \<longrightarrow> eq b a) \<and> (\<forall>a b c. eq a b \<longrightarrow> eq b c \<longrightarrow> eq a c)"

fun opt_eq :: "(string \<Rightarrow> string \<Rightarrow> bool) \<Rightarrow> string option \<Rightarrow> string option \<Rightarrow> bool" where
  "opt_eq eq (Some a) (Some b) = eq a b"
| "opt_eq eq _ _ = False"

lemma email_clash_opt_eq: "email_clash v a b = opt_eq (dv_eq v) a b"
  by (cases a; cases b) simp_all

lemma collation_refl: "collation eq \<Longrightarrow> eq a a"
  by (simp add: collation_def)

lemma collation_sym: "collation eq \<Longrightarrow> eq a b = eq b a"
  unfolding collation_def by blast

lemma collation_trans: "collation eq \<Longrightarrow> eq a b \<Longrightarrow> eq b c \<Longrightarrow> eq a c"
  unfolding collation_def by blast

lemma opt_eq_sym: "collation eq \<Longrightarrow> opt_eq eq a b = opt_eq eq b a"
  by (cases a; cases b) (simp_all add: collation_sym)

definition apart :: "(string \<Rightarrow> string \<Rightarrow> bool) \<Rightarrow> UserRow \<Rightarrow> UserRow \<Rightarrow> bool" where
  "apart eq a b \<longleftrightarrow> u_id a \<noteq> u_id b \<and> \<not> eq (u_username a) (u_username b) \<and> \<not> opt_eq eq (u_email a) (u_email b)"

lemma apart_sym: "collation eq \<Longrightarrow> apart eq a b = apart eq b a"
  using opt_eq_sym [of eq "u_email a" "u_email b"] collation_sym [of eq "u_username a" "u_username b"]
  by (auto simp: apart_def)

definition users_ok :: "(string \<Rightarrow> string \<Rightarrow> bool) \<Rightarrow> user_db \<Rightarrow> bool" where
  "users_ok eq d \<longleftrightarrow>
     sorted_wrt (apart eq) (ud_users d)
     \<and> (\<forall>u \<in> set (ud_users d). 0 < u_id u \<and> u_id u < ud_next d)
     \<and> 0 < ud_next d
     \<and> sorted_wrt (\<lambda>a b. \<not> eq (snd a) (snd b)) (ud_history d)
     \<and> (\<forall>h \<in> set (ud_history d). \<exists>u \<in> set (ud_users d). u_id u = fst h)"

lemma users_ok_apart:
  assumes "users_ok eq d" "collation eq" "a \<in> set (ud_users d)" "b \<in> set (ud_users d)"
  shows "a = b \<or> apart eq a b"
proof -
  have "a = b \<or> apart eq a b" if "sorted_wrt (apart eq) us" "a \<in> set us" "b \<in> set us" for us
    using that by (induction us) (auto simp: apart_sym [OF assms(2), of b a])
  then show ?thesis using assms by (auto simp: users_ok_def)
qed

lemma users_ok_unique:
  assumes "users_ok eq d" "collation eq" "a \<in> set (ud_users d)" "b \<in> set (ud_users d)"
  shows "u_id a = u_id b \<Longrightarrow> a = b" "eq (u_username a) (u_username b) \<Longrightarrow> a = b"
  using users_ok_apart [OF assms] by (auto simp: apart_def)

lemma find_unique:
  assumes "u \<in> set us" "P u" "\<And>w. w \<in> set us \<Longrightarrow> P w \<Longrightarrow> w = u"
  shows "List.find P us = Some u"
proof -
  have "List.find P us \<noteq> None" using assms by (auto simp: find_None_iff)
  then obtain w where w: "List.find P us = Some w" by blast
  then have "w \<in> set us \<and> P w" by (auto simp: find_Some_iff)
  then show ?thesis using assms(3) w by auto
qed

lemma find_append: "List.find P (xs @ ys) = (case List.find P xs of None \<Rightarrow> List.find P ys | Some x \<Rightarrow> Some x)"
  by (induction xs) simp_all

lemma find_Some_filter: "List.find P xs = Some w \<Longrightarrow> \<exists>ys. filter P xs = w # ys"
  by (induction xs) (auto split: if_splits)

lemma find_user_id:
  assumes "users_ok eq d" "collation eq" "u \<in> set (ud_users d)"
  shows "List.find (\<lambda>w. u_id w = u_id u) (ud_users d) = Some u"
  using assms users_ok_unique by (intro find_unique) auto

lemma find_user_name:
  assumes "users_ok eq d" "collation eq" "u \<in> set (ud_users d)" "eq (u_username u) n"
  shows "List.find (\<lambda>w. eq (u_username w) n) (ud_users d) = Some u"
proof (rule find_unique)
  fix w
  assume "w \<in> set (ud_users d)" "eq (u_username w) n"
  moreover have "eq n (u_username u)" using assms(4) collation_sym [OF assms(2)] by blast
  ultimately show "w = u" using users_ok_unique(2) [OF assms(1,2)] assms(3) collation_trans [OF assms(2)] by blast
qed (use assms in simp_all)

text \<open>An update that leaves the ids alone, and the other keys apart from those of the other rows.\<close>

lemma users_ok_update:
  assumes ok: "users_ok eq d" and col: "collation eq" and id: "\<And>u. u_id (g u) = u_id u"
    and keys: "\<And>u w. u \<in> set (ud_users d) \<Longrightarrow> w \<in> set (ud_users d) \<Longrightarrow> u_id u = i \<Longrightarrow> u_id w \<noteq> i \<Longrightarrow> apart eq (g u) w"
  shows "users_ok eq (d\<lparr>ud_users := map (\<lambda>u. if u_id u = i then g u else u) (ud_users d)\<rparr>)"
proof -
  let ?f = "\<lambda>u. if u_id u = i then g u else u"
  have "apart eq (?f u) (?f w)" if "u \<in> set (ud_users d)" "w \<in> set (ud_users d)" "apart eq u w" for u w
  proof -
    have "u_id u \<noteq> u_id w" using that by (simp add: apart_def)
    then consider "u_id u = i" "u_id w \<noteq> i" | "u_id u \<noteq> i" "u_id w = i" | "u_id u \<noteq> i" "u_id w \<noteq> i"
      by auto
    then show ?thesis
    proof cases
      case 2
      then have "apart eq (g w) u" using keys that by blast
      then show ?thesis using 2 apart_sym [OF col] by simp
    qed (use that keys in simp_all)
  qed
  then have "sorted_wrt (apart eq) (map ?f (ud_users d))"
    using ok sorted_wrt_mono_rel [of "ud_users d" "apart eq" "\<lambda>a b. apart eq (?f a) (?f b)"]
    by (simp add: sorted_wrt_map users_ok_def)
  moreover have "\<forall>u \<in> set (map ?f (ud_users d)). 0 < u_id u \<and> u_id u < ud_next d"
    using ok id by (auto simp: users_ok_def)
  moreover have "\<forall>h \<in> set (ud_history d). \<exists>u \<in> set (map ?f (ud_users d)). u_id u = fst h"
  proof
    fix h
    assume "h \<in> set (ud_history d)"
    then obtain u where "u \<in> set (ud_users d)" "u_id u = fst h" using ok unfolding users_ok_def by blast
    then have "?f u \<in> set (map ?f (ud_users d))" "u_id (?f u) = fst h" by (simp_all only: set_map imageI id split: if_split) auto
    then show "\<exists>u \<in> set (map ?f (ud_users d)). u_id u = fst h" by blast
  qed
  ultimately show ?thesis using ok by (simp add: users_ok_def)
qed

lemma users_ok_update_plain:
  assumes "users_ok eq d" "collation eq" "\<And>u. u_id (g u) = u_id u" "\<And>u. u_username (g u) = u_username u"
    "\<And>u. u_email (g u) = u_email u"
  shows "users_ok eq (snd (update_user v i g d))"
proof -
  have "apart eq (g u) w" if "u \<in> set (ud_users d)" "w \<in> set (ud_users d)" "u_id u = i" "u_id w \<noteq> i" for u w
    using that users_ok_apart [OF assms(1,2), of u w] assms(3-5) by (auto simp: apart_def)
  then show ?thesis unfolding update_user_def using users_ok_update [OF assms(1,2,3)] by simp
qed

lemma users_ok_insert:
  assumes ok: "users_ok (dv_eq v) d" and col: "collation (dv_eq v)"
  shows "users_ok (dv_eq v) (db_after (create_user v row d) d)"
proof (cases "\<exists>u \<in> set (ud_users d). dv_eq v (u_username u) (u_username row) \<or> email_clash v (u_email u) (u_email row)")
  case True
  then show ?thesis
    using ok by (auto simp: db_after_def create_user_def with_conn_def insert_user_def Let_def
        split: option.splits sum.splits if_splits)
next
  case False
  then have "\<forall>u \<in> set (ud_users d). \<not> dv_eq v (u_username u) (u_username row) \<and> \<not> opt_eq (dv_eq v) (u_email u) (u_email row)"
    by (auto simp: email_clash_opt_eq)
  then show ?thesis
    using ok False
    by (fastforce simp: db_after_def create_user_def with_conn_def insert_user_def Let_def users_ok_def apart_def
        sorted_wrt_append split: option.splits sum.splits if_splits)
qed

lemma update_user_absent: "\<forall>u \<in> set (ud_users d). u_id u \<noteq> i \<Longrightarrow> update_user v i g d = (0, d)"
  by (simp add: update_user_def filter_empty_conv map_idI)

lemma users_ok_profile:
  assumes ok: "users_ok (dv_eq v) d" and col: "collation (dv_eq v)"
  shows "users_ok (dv_eq v) (db_after (update_profile v i a b c e d) d)"
proof -
  let ?g = "\<lambda>u. u\<lparr>u_display_name := a, u_school := b, u_bio := c, u_email := e\<rparr>"
  consider "\<forall>u \<in> set (ud_users d). u_id u \<noteq> i"
    | "\<exists>u \<in> set (ud_users d). u_id u = i" "\<exists>u \<in> set (ud_users d). u_id u \<noteq> i \<and> email_clash v (u_email u) e"
    | "\<forall>u \<in> set (ud_users d). u_id u \<noteq> i \<longrightarrow> \<not> email_clash v (u_email u) e" by blast
  then have "users_ok (dv_eq v) (snd (update_user v i ?g d)) \<or>
     (\<exists>u \<in> set (ud_users d). u_id u = i) \<and> (\<exists>u \<in> set (ud_users d). u_id u \<noteq> i \<and> email_clash v (u_email u) e)"
  proof cases
    case 1
    then show ?thesis using ok by (simp add: update_user_absent)
  next
    case 3
    have "apart (dv_eq v) (?g u) w" if "u \<in> set (ud_users d)" "w \<in> set (ud_users d)" "u_id u = i" "u_id w \<noteq> i" for u w
      using that 3 users_ok_apart [OF ok col, of u w] opt_eq_sym [OF col, of e "u_email w"]
      by (auto simp: apart_def email_clash_opt_eq)
    then show ?thesis
      unfolding update_user_def using users_ok_update [OF ok col, where i = i and g = ?g] by simp
  qed blast
  then show ?thesis
    using ok by (auto simp: db_after_def update_profile_def with_conn_def
        split: option.splits sum.splits if_splits prod.splits)
qed

lemma users_ok_insert_history:
  assumes ok: "users_ok (dv_eq v) d" and u: "u \<in> set (ud_users d)" "u_id u = i" and h: "insert_history v i old d = Inr d1"
  shows "users_ok (dv_eq v) d1 \<and> ud_users d1 = ud_users d \<and> ud_history d1 = ud_history d @ [(i, old)]"
proof -
  have "d1 = d\<lparr>ud_history := ud_history d @ [(i, old)]\<rparr>" "\<forall>h \<in> set (ud_history d). \<not> dv_eq v (snd h) old"
    using h by (auto simp: insert_history_def split: option.splits if_splits)
  moreover have "\<exists>w \<in> set (ud_users d). u_id w = i" using u by blast
  ultimately show ?thesis using ok by (simp add: users_ok_def sorted_wrt_append)
qed

lemma users_ok_set_username:
  assumes ok: "users_ok (dv_eq v) d" and col: "collation (dv_eq v)" and s: "set_username v i n d = Inr (k, d2)"
    and u: "u \<in> set (ud_users d)" "u_id u = i"
  shows "users_ok (dv_eq v) d2"
proof -
  let ?g = "\<lambda>u. u\<lparr>u_username := n, u_username_changed_at := Some (dv_now v)\<rparr>"
  have free: "\<forall>w \<in> set (ud_users d). u_id w \<noteq> i \<longrightarrow> \<not> dv_eq v (u_username w) n" and d2: "d2 = snd (update_user v i ?g d)"
    using s u by (auto simp: set_username_def split: option.splits if_splits)
  have "apart (dv_eq v) (?g x) w" if "x \<in> set (ud_users d)" "w \<in> set (ud_users d)" "u_id x = i" "u_id w \<noteq> i" for x w
    using that free users_ok_apart [OF ok col, of x w] collation_sym [OF col, of n "u_username w"]
    by (auto simp: apart_def)
  then show ?thesis
    unfolding d2 update_user_def using users_ok_update [OF ok col, where i = i and g = ?g] by simp
qed

lemma users_ok_rename:
  assumes ok: "users_ok (dv_eq v) d" and col: "collation (dv_eq v)"
  shows "users_ok (dv_eq v) (snd (update_username v i n d))"
proof (cases "List.find (\<lambda>u. u_id u = i) (ud_users d)")
  case (Some u)
  then have u: "u \<in> set (ud_users d)" "u_id u = i" by (auto simp: find_Some_iff)
  note h = users_ok_insert_history [OF ok u]
  show ?thesis
  proof (cases "insert_history v i (u_username u) d")
    case (Inr d1)
    have "users_ok (dv_eq v) d2" if "set_username v i n d1 = Inr (k, d2)" for k d2
      using users_ok_set_username [OF _ col that] h [OF Inr] u by auto
    then show ?thesis
      using ok h [OF Inr] Inr Some by (auto simp: update_username_def stmt_def split: option.splits sum.splits)
  qed (use ok Some in \<open>auto simp: update_username_def stmt_def split: option.splits\<close>)
qed (use ok in \<open>auto simp: update_username_def stmt_def split: option.splits sum.splits\<close>)

lemma users_ok_op:
  assumes "users_ok (dv_eq v) d" "collation (dv_eq v)"
  shows "users_ok (dv_eq v) (run_user_op (v, x) d)"
proof (cases x)
  case (TouchLogin i ip)
  then show ?thesis
    using assms users_ok_update_plain [OF assms, of "\<lambda>u. u\<lparr>u_last_login := Some (dv_now v),
          u_last_login_ip := (if ip = [] then None else Some ip)\<rparr>" v i]
    by (auto simp: update_last_login_def with_conn_def stmt_def split: option.splits sum.splits prod.splits)
next
  case (SetRole i r)
  then show ?thesis
    using assms users_ok_update_plain [OF assms, of "\<lambda>u. u\<lparr>u_role := r\<rparr>" v i]
    by (auto simp: db_after_def update_role_def with_conn_def stmt_def split: option.splits sum.splits prod.splits)
next
  case (SetAvatar i a)
  then show ?thesis
    using assms users_ok_update_plain [OF assms, of "\<lambda>u. u\<lparr>u_avatar := a\<rparr>" v i]
    by (auto simp: db_after_def update_avatar_def with_conn_def stmt_def split: option.splits sum.splits prod.splits)
qed (use assms in \<open>simp_all add: users_ok_insert users_ok_profile users_ok_rename\<close>)

section \<open>Properties\<close>

text \<open>
  The keys of the schema hold in every state the operations reach, so that the theorems below can assume them.
\<close>

lemma users_ok_run:
  assumes "collation eq" and "\<forall>x \<in> set xs. dv_eq (fst x) = eq" and "users_ok eq d"
  shows "users_ok eq (fold run_user_op xs d)"
  using assms(2,3)
proof (induction xs arbitrary: d)
  case (Cons x xs)
  have "users_ok eq (run_user_op x d)"
    using Cons.prems assms(1) users_ok_op [of "fst x" d "snd x"] by simp
  then show ?case using Cons by simp
qed simp

definition no_case :: "string \<Rightarrow> string \<Rightarrow> bool" where
  "no_case a b \<longleftrightarrow> map tolower a = map tolower b"

lemma no_case_collation: "collation no_case"
  by (simp add: collation_def no_case_def)

definition demo_env :: db_env where
  "demo_env = \<lparr>dv_eq = no_case, dv_char_eq = (\<lambda>a b. tolower a = tolower b), dv_now = ''2024-01-02 03:04:05'',
     dv_count_matched = False, dv_duplicate = ''Duplicate entry'', dv_acquire = None, dv_fault = (\<lambda>_. None)\<rparr>"

definition demo_user :: "int \<Rightarrow> string \<Rightarrow> string option \<Rightarrow> UserRow" where
  "demo_user i n m = \<lparr>u_id = i, u_username = n, u_display_name = None, u_password_hash = ''x'', u_role = ''user'',
     u_token_version = 0, u_email = m, u_school = None, u_bio = None, u_avatar = None, u_created_at = [],
     u_last_login = None, u_last_login_ip = None, u_username_changed_at = None\<rparr>"

definition empty_users :: user_db where
  "empty_users = \<lparr>ud_users = [], ud_next = 1, ud_history = []\<rparr>"

lemma empty_users_ok: "users_ok eq empty_users"
  by (simp add: users_ok_def empty_users_def)

definition calm_env :: "db_env \<Rightarrow> bool" where
  "calm_env v \<longleftrightarrow> collation (dv_eq v) \<and> dv_acquire v = None \<and> (\<forall>k. dv_fault v k = None)
     \<and> is_duplicate_error (dv_duplicate v)"

lemma query_calm: "calm_env v \<Longrightarrow> query v r = Inr r"
  by (simp add: query_def with_conn_def stmt_def calm_env_def)

definition name_or_email_taken :: "db_env \<Rightarrow> UserRow \<Rightarrow> user_db \<Rightarrow> bool" where
  "name_or_email_taken v row d \<longleftrightarrow>
     (\<exists>u \<in> set (ud_users d). dv_eq v (u_username u) (u_username row) \<or> email_clash v (u_email u) (u_email row))"

lemma create_user_calm:
  assumes "calm_env v"
  shows "create_user v row d =
    (if name_or_email_taken v row d then Inr (0, d)
     else case insert_user v row (if u_role row = [] then ''user'' else u_role row) d of Inr r \<Rightarrow> Inr r | Inl _ \<Rightarrow> Inr (0, d))"
  using assms by (auto simp: create_user_def with_conn_def calm_env_def insert_user_def name_or_email_taken_def Let_def)

lemma create_user_cases:
  assumes "calm_env v" and "users_ok (dv_eq v) d"
  shows "if name_or_email_taken v row d then create_user v row d = Inr (0, d)
    else \<exists>d' r. create_user v row d = Inr (ud_next d, d') \<and> 0 < ud_next d
      \<and> u_id r = ud_next d \<and> u_username r = u_username row \<and> u_password_hash r = u_password_hash row \<and> u_email r = u_email row
      \<and> u_role r = (if u_role row = [] then ''user'' else u_role row)
      \<and> (\<forall>n. find_user_by_name v n d' =
               (if dv_eq v (u_username row) n then Inr (Some r) else find_user_by_name v n d))
      \<and> (\<forall>i. find_user_by_id v i d' = (if i = ud_next d then Inr (Some r) else find_user_by_id v i d))"
proof (cases "name_or_email_taken v row d")
  case False
  define r where "r = \<lparr>u_id = ud_next d, u_username = u_username row, u_display_name = None,
                    u_password_hash = u_password_hash row, u_role = (if u_role row = [] then ''user'' else u_role row),
                    u_token_version = 0, u_email = u_email row, u_school = None, u_bio = None, u_avatar = u_avatar row,
                    u_created_at = dv_now v, u_last_login = None, u_last_login_ip = None,
                    u_username_changed_at = None\<rparr>"
  define d' where "d' = d\<lparr>ud_users := ud_users d @ [r], ud_next := ud_next d + 1\<rparr>"
  have c: "create_user v row d = Inr (ud_next d, d')"
    using False create_user_calm [OF assms(1), of row d]
    by (auto simp: insert_user_def name_or_email_taken_def r_def d'_def)
  have col: "collation (dv_eq v)" using assms(1) by (simp add: calm_env_def)
  have ok': "users_ok (dv_eq v) d'" using users_ok_insert [OF assms(2) col, of row] c by (simp add: db_after_def)
  have app: "List.find P (ud_users d') = (if P r \<and> (\<forall>u \<in> set (ud_users d). \<not> P u) then Some r else List.find P (ud_users d))"
    for P by (simp add: d'_def find_append split: option.splits) (auto simp: find_None_iff find_Some_iff)
  have r: "r \<in> set (ud_users d')" "u_username r = u_username row" "u_id r = ud_next d" by (simp_all add: d'_def r_def)
  have "List.find (\<lambda>u. dv_eq v (u_username u) n) (ud_users d') =
      (if dv_eq v (u_username row) n then Some r else List.find (\<lambda>u. dv_eq v (u_username u) n) (ud_users d))" for n
    using find_user_name [OF ok' col r(1), of n] app [of "\<lambda>u. dv_eq v (u_username u) n"] r(2) by auto
  moreover have "List.find (\<lambda>u. u_id u = i) (ud_users d') =
      (if i = ud_next d then Some r else List.find (\<lambda>u. u_id u = i) (ud_users d))" for i
    using find_user_id [OF ok' col r(1)] app [of "\<lambda>u. u_id u = i"] r(3) by (cases "i = ud_next d") simp_all
  moreover have "0 < ud_next d" using assms(2) by (simp add: users_ok_def)
  ultimately show ?thesis
    using c False query_calm [OF assms(1)]
    by (auto simp: find_user_by_name_def find_user_by_id_def intro!: exI [of _ d'] exI [of _ r]) (simp_all add: r_def)
qed (use create_user_calm [OF assms(1)] in simp)

text \<open>
  Registration is exact: without failures of the server, \<^verbatim>\<open>create_user\<close> returns 0 and changes nothing
  when a user has the name or the e-mail address up to the collation. Otherwise it returns a new
  positive id, under which the user is found by every spelling of the name, with the given hash and
  the given role (\<open>user\<close> by default), and lookups of other names are as before.
\<close>

theorem create_user_exact:
  assumes "calm_env v" and "users_ok (dv_eq v) d"
  shows "if name_or_email_taken v row d then create_user v row d = Inr (0, d)
    else \<exists>d' r. create_user v row d = Inr (ud_next d, d') \<and> 0 < ud_next d
      \<and> u_id r = ud_next d \<and> u_username r = u_username row \<and> u_password_hash r = u_password_hash row \<and> u_email r = u_email row
      \<and> u_role r = (if u_role row = [] then ''user'' else u_role row)
      \<and> (\<forall>n. find_user_by_name v n d' =
               (if dv_eq v (u_username row) n then Inr (Some r) else find_user_by_name v n d))
      \<and> (\<forall>i. find_user_by_id v i d' = (if i = ud_next d then Inr (Some r) else find_user_by_id v i d))"
  using assms by (rule create_user_cases)

lemma demo_env_calm: "calm_env demo_env"
  by (simp add: calm_env_def demo_env_def no_case_collation is_duplicate_error_def)

theorem create_user_exact_witness:
  "\<exists>d' r. create_user demo_env (demo_user 0 ''bob'' None) empty_users = Inr (1, d')
     \<and> find_user_by_name demo_env ''BOB'' d' = Inr (Some r) \<and> u_id r = 1"
proof -
  have "\<not> name_or_email_taken demo_env (demo_user 0 ''bob'' None) empty_users"
    by (simp add: name_or_email_taken_def empty_users_def)
  moreover have "dv_eq demo_env (u_username (demo_user 0 ''bob'' None)) ''BOB''" by code_simp
  moreover have "users_ok (dv_eq demo_env) empty_users" by (rule empty_users_ok)
  moreover have "ud_next empty_users = 1" by (simp add: empty_users_def)
  ultimately show ?thesis
    using create_user_exact [OF demo_env_calm, of empty_users "demo_user 0 ''bob'' None"] by auto
qed

lemma rename_steps:
  assumes "calm_env v" and "users_ok (dv_eq v) d" and "u \<in> set (ud_users d)" and "u_username u \<noteq> n"
  shows "update_username v (u_id u) n d =
    (if \<exists>h \<in> set (ud_history d). dv_eq v (snd h) (u_username u) then (Inr False, d)
     else let d1 = d\<lparr>ud_history := ud_history d @ [(u_id u, u_username u)]\<rparr> in
          if \<exists>w \<in> set (ud_users d). u_id w \<noteq> u_id u \<and> dv_eq v (u_username w) n then (Inr False, d1)
          else (Inr True, snd (update_user v (u_id u) (\<lambda>u. u\<lparr>u_username := n, u_username_changed_at := Some (dv_now v)\<rparr>) d1)))"
proof -
  let ?g = "\<lambda>u. u\<lparr>u_username := n, u_username_changed_at := Some (dv_now v)\<rparr>"
  have f: "List.find (\<lambda>w. u_id w = u_id u) (ud_users d) = Some u"
    using assms by (intro find_user_id) (auto simp: calm_env_def)
  have "?g u \<noteq> u" using assms(4) by (metis UserRow.select_convs(2) UserRow.surjective UserRow.update_convs(2,14))
  then have "u \<in> set (filter (\<lambda>w. u_id w = u_id u \<and> (dv_count_matched v \<or> ?g w \<noteq> w)) (ud_users d))" using assms(3) by simp
  then have n: "0 < fst (update_user v (u_id u) ?g (d\<lparr>ud_history := h\<rparr>))" for h
    by (drule_tac length_pos_if_in_set) (simp add: update_user_def)
  show ?thesis
    using assms f n [of "ud_history d @ [(u_id u, u_username u)]"]
    by (auto simp: update_username_def insert_history_def set_username_def stmt_def calm_env_def rename_failed_def Let_def
        split: prod.splits)
qed

text \<open>
  A successful rename moves the user: under the new name (in every spelling) and under the id the same
  user is found, and the old name leads to the user through the history.
\<close>

theorem rename_resolves:
  assumes "calm_env v" and "users_ok (dv_eq v) d" and "u \<in> set (ud_users d)" and "u_username u \<noteq> n"
    and "update_username v (u_id u) n d = (Inr True, d')"
  shows "\<exists>w. u_id w = u_id u \<and> u_username w = n \<and> u_password_hash w = u_password_hash u \<and> u_role w = u_role u
      \<and> find_user_by_id v (u_id u) d' = Inr (Some w) \<and> (\<forall>m. dv_eq v n m \<longrightarrow> find_user_by_name v m d' = Inr (Some w))
      \<and> find_by_old_username v (u_username u) d'
          = Inr (Some \<lparr>oh_user_id = u_id u, oh_current_username = n\<rparr>)"
proof -
  let ?g = "\<lambda>u. u\<lparr>u_username := n, u_username_changed_at := Some (dv_now v)\<rparr>"
  let ?i = "u_id u"
  have col: "collation (dv_eq v)" using assms(1) by (simp add: calm_env_def)
  have hist: "\<forall>h \<in> set (ud_history d). \<not> dv_eq v (snd h) (u_username u)"
    and d': "d' = snd (update_user v ?i ?g (d\<lparr>ud_history := ud_history d @ [(?i, u_username u)]\<rparr>))"
    using assms(5) rename_steps [OF assms(1-4)] by (auto simp: Let_def split: if_splits)
  have ok': "users_ok (dv_eq v) d'" using users_ok_rename [OF assms(2) col, of ?i n] assms(5) by simp
  have w: "?g u \<in> set (ud_users d')" using assms(3) unfolding d' update_user_def by force
  note fi = find_user_id [OF ok' col w, simplified]
  have fn: "List.find (\<lambda>u. dv_eq v (u_username u) m) (ud_users d') = Some (?g u)" if "dv_eq v n m" for m
    using find_user_name [OF ok' col w, of m] that by simp
  obtain ys where ys: "filter (\<lambda>u. u_id u = ?i) (ud_users d') = ?g u # ys" using find_Some_filter [OF fi] by blast
  have "ud_history d' = ud_history d @ [(?i, u_username u)]" by (simp add: d' update_user_def)
  then have "old_username_hits v (u_username u) d' =
      \<lparr>oh_user_id = ?i, oh_current_username = n\<rparr> # map (\<lambda>u. \<lparr>oh_user_id = ?i, oh_current_username = u_username u\<rparr>) ys"
    using hist ys collation_refl [OF col, of "u_username u"] by (auto simp: old_username_hits_def concat_eq_Nil_conv)
  then show ?thesis
    using fi fn by (intro exI [of _ "?g u"]) (simp add: find_user_by_id_def find_user_by_name_def find_by_old_username_def
        query_calm [OF assms(1)])
qed

definition demo_users :: user_db where
  "demo_users = \<lparr>ud_users = [demo_user 1 ''bob'' None, demo_user 2 ''eve'' None], ud_next = 3, ud_history = []\<rparr>"

lemma demo_users_ok: "users_ok (dv_eq demo_env) demo_users"
  by (simp add: users_ok_def demo_users_def demo_env_def demo_user_def apart_def no_case_def tolower_def isupper_def)

theorem rename_resolves_witness:
  "find_by_old_username demo_env ''bob'' (snd (update_username demo_env 1 ''carol'' demo_users))
     = Inr (Some \<lparr>oh_user_id = 1, oh_current_username = ''carol''\<rparr>)"
proof -
  have "u_id (demo_user 1 ''bob'' None) = 1" "u_username (demo_user 1 ''bob'' None) = ''bob''"
    "demo_user 1 ''bob'' None \<in> set (ud_users demo_users)" by (simp_all add: demo_user_def demo_users_def)
  moreover have "update_username demo_env 1 ''carol'' demo_users = (Inr True, snd (update_username demo_env 1 ''carol'' demo_users))"
    by code_simp
  ultimately show ?thesis
    using rename_resolves [OF demo_env_calm demo_users_ok, of "demo_user 1 ''bob'' None" "''carol''"] by auto
qed

text \<open>
  A rename that loses the race for the new name leaves the old name in the history although the user
  keeps it; from then on every rename of that user is refused. The same happens to a user who has
  returned to a former name: its name is in the history.
\<close>

theorem lost_rename_blocks:
  assumes "calm_env v" and "users_ok (dv_eq v) d" and "u \<in> set (ud_users d)"
    and "w \<in> set (ud_users d)" and "u_id w \<noteq> u_id u" and "dv_eq v (u_username w) n" and "u_username u \<noteq> n"
    and "u_username u \<noteq> m"
  shows "fst (update_username v (u_id u) n d) = Inr False
    \<and> (let d1 = snd (update_username v (u_id u) n d) in
         ud_users d1 = ud_users d \<and> update_username v (u_id u) m d1 = (Inr False, d1))"
proof -
  let ?d1 = "snd (update_username v (u_id u) n d)"
  have col: "collation (dv_eq v)" using assms(1) by (simp add: calm_env_def)
  have r: "fst (update_username v (u_id u) n d) = Inr False" "ud_users ?d1 = ud_users d"
    "\<exists>h \<in> set (ud_history ?d1). dv_eq v (snd h) (u_username u)"
    using rename_steps [OF assms(1-3,7)] assms(4-6) collation_refl [OF col] by (auto simp: Let_def)
  have "users_ok (dv_eq v) ?d1" using users_ok_rename [OF assms(2) col] .
  then show ?thesis using rename_steps [OF assms(1) _ _ assms(8), of ?d1] r assms(3) by (simp add: Let_def)
qed

theorem lost_rename_blocks_witness:
  "let d1 = snd (update_username demo_env 1 ''EVE'' demo_users) in
   update_username demo_env 1 ''carol'' d1 = (Inr False, d1)"
proof -
  have "dv_eq demo_env (u_username (demo_user 2 ''eve'' None)) ''EVE''" by code_simp
  then show ?thesis
    using lost_rename_blocks [OF demo_env_calm demo_users_ok,
        of "demo_user 1 ''bob'' None" "demo_user 2 ''eve'' None" "''EVE''" "''carol''"]
    by (simp add: demo_users_def demo_user_def Let_def)
qed

section \<open>Listing and searching\<close>

lemma concat_pages: "concat (map (\<lambda>k. take l (drop (k * l) xs)) [0..<m]) = take (m * l) xs"
proof (induction m)
  case (Suc m)
  have "take (m * l) xs @ take l (drop (m * l) xs) = take (Suc m * l) xs"
    by (simp add: take_add [symmetric] add.commute)
  with Suc show ?case by simp
qed simp

lemma concat_pages_map:
  "concat (map (\<lambda>k. map g (take l (drop (k * l) xs))) [0..<m]) = map g (take (m * l) xs)"
  using arg_cong [OF concat_pages [of l xs m], of "map g"] by (simp add: map_concat comp_def)

lemma clamp_window:
  assumes "1 \<le> uf_limit f" "uf_limit f \<le> 100" "0 \<le> uf_offset f"
  shows "clamp_user_list_filter f = f"
  using assms by (simp add: clamp_user_list_filter_def kDefaultUserListLimit_def kMaxUserListLimit_def Let_def)

lemma list_match_window [simp]: "list_match v (f\<lparr>uf_offset := k\<rparr>) = list_match v f"
  by (simp add: list_match_def fun_eq_iff)

text \<open>
  Paging through the user list: with a page size of 1 to 100, the pages at the offsets 0, \<open>l\<close>, \<open>2 l\<close>, ...
  put together are all users the filter matches, in the order of their ids, each once and with the
  number of its submissions; the count query gives their number. (On a database that does not change
  meanwhile.)
\<close>

theorem user_pages_complete:
  assumes "calm_env v" and "1 \<le> l" and "l \<le> 100" and "uf_limit f = int l"
    and "count_users v f d = Inr n" and "n \<le> int (m * l)"
  shows "\<exists>pages. (\<forall>k < m. list_users v (f\<lparr>uf_offset := int (k * l)\<rparr>) st d = Inr (pages k))
    \<and> map lr_user (concat (map pages [0..<m])) = sort_key u_id (filter (list_match v f) (ud_users d))
    \<and> (\<forall>r \<in> set (concat (map pages [0..<m])).
          lr_submission_count r = int (length (filter (\<lambda>s. sub_user_id s = u_id (lr_user r)) (rows st))))"
proof -
  let ?xs = "sort_key u_id (filter (list_match v f) (ud_users d))"
  let ?row = "\<lambda>u. \<lparr>lr_user = u, lr_submission_count = int (length (filter (\<lambda>s. sub_user_id s = u_id u) (rows st)))\<rparr>"
  have "list_match v (clamp_user_list_filter f) = list_match v f"
    by (simp add: list_match_def fun_eq_iff clamp_user_list_filter_def Let_def)
  then have n: "n = int (length ?xs)"
    using assms(1,5) by (simp add: count_users_def with_conn_def stmt_def calm_env_def)
  let ?p = "\<lambda>k. map ?row (take l (drop (k * l) ?xs))"
  have "list_users v (f\<lparr>uf_offset := int (k * l)\<rparr>) st d = Inr (?p k)" for k
    using assms(1-4) clamp_window [of "f\<lparr>uf_offset := int (k * l)\<rparr>"]
    by (simp add: list_users_def with_conn_def stmt_def calm_env_def nat_mult_distrib)
  moreover have "concat (map ?p [0..<m]) = map ?row ?xs"
  proof -
    have "length ?xs \<le> m * l" using assms(6) n by linarith
    then show ?thesis using concat_pages_map [of ?row l ?xs m] by simp
  qed
  ultimately show ?thesis by (intro exI [of _ ?p]) (auto simp: comp_def)
qed

theorem user_pages_complete_witness:
  "\<exists>pages. map lr_user (concat (map pages [0..<2])) = [demo_user 1 ''bob'' None, demo_user 2 ''eve'' None]
     \<and> (\<forall>k < 2. list_users demo_env \<lparr>uf_role = None, uf_q = None, uf_limit = 1, uf_offset = int (k * 1)\<rparr>
                   \<lparr>rows = [], auto_inc = 1\<rparr> demo_users = Inr (pages k))"
proof -
  let ?f = "\<lparr>uf_role = None, uf_q = None, uf_limit = 1, uf_offset = 0\<rparr>"
  have c: "count_users demo_env ?f demo_users = Inr 2" by code_simp
  have s: "sort_key u_id (filter (list_match demo_env ?f) (ud_users demo_users))
      = [demo_user 1 ''bob'' None, demo_user 2 ''eve'' None]" by code_simp
  obtain pages where p: "\<forall>k < 2. list_users demo_env (?f\<lparr>uf_offset := int (k * 1)\<rparr>) \<lparr>rows = [], auto_inc = 1\<rparr> demo_users = Inr (pages k)"
    "map lr_user (concat (map pages [0..<2])) = sort_key u_id (filter (list_match demo_env ?f) (ud_users demo_users))"
    using user_pages_complete [OF demo_env_calm _ _ _ c, where l = 1 and m = 2 and st = "\<lparr>rows = [], auto_inc = 1\<rparr>"] by auto
  then show ?thesis unfolding s by (intro exI [of _ pages]) simp
qed

definition plain :: "string \<Rightarrow> bool" where
  "plain s \<longleftrightarrow> set s \<inter> {CHR ''%'', CHR ''_'', backslash} = {}"

lemma plain_Cons [simp]: "plain (c # s) \<longleftrightarrow> c \<noteq> CHR ''%'' \<and> c \<noteq> CHR ''_'' \<and> c \<noteq> backslash \<and> plain s"
  by (auto simp: plain_def)

lemma plain_Nil [simp]: "plain []"
  by (simp add: plain_def)

lemma escape_plain: "plain s \<Longrightarrow> escape_search s = s"
  by (induction s) (auto simp: escape_search_def)

lemma escape_append: "escape_search (a @ b) = escape_search a @ escape_search b"
  by (simp add: escape_search_def)

lemma like_percent: "like eq ''%'' s"
  by (induction s) simp_all

lemma like_any_start: "like eq (CHR ''%'' # ps) s \<longleftrightarrow> (\<exists>a b. s = a @ b \<and> like eq ps b)"
proof (induction s)
  case (Cons c s)
  have "like eq (CHR ''%'' # ps) (c # s) \<longleftrightarrow> like eq ps (c # s) \<or> (\<exists>a b. s = a @ b \<and> like eq ps b)"
    using Cons by simp
  also have "\<dots> \<longleftrightarrow> (\<exists>a b. c # s = a @ b \<and> like eq ps b)"
    by (metis append_Cons append_Nil list.exhaust list.inject)
  finally show ?case .
qed simp

text \<open>A part of the pattern that stands for itself.\<close>

lemma like_plain:
  "plain ps \<Longrightarrow> like eq (ps @ qs) s \<longleftrightarrow> (\<exists>a b. s = a @ b \<and> list_all2 eq ps a \<and> like eq qs b)"
proof (induction ps arbitrary: s)
  case (Cons p ps)
  show ?case
  proof (cases s)
    case (Cons c cs)
    have "like eq ((p # ps) @ qs) s \<longleftrightarrow> eq p c \<and> (\<exists>a b. cs = a @ b \<and> list_all2 eq ps a \<and> like eq qs b)"
      using Cons.IH [of cs] Cons.prems Cons by simp
    also have "\<dots> \<longleftrightarrow> (\<exists>a b. s = a @ b \<and> list_all2 eq (p # ps) a \<and> like eq qs b)" (is "?l \<longleftrightarrow> ?r")
    proof
      assume ?l
      then obtain a b where "cs = a @ b" "list_all2 eq ps a" "like eq qs b" "eq p c" by blast
      then show ?r using Cons by (intro exI [of _ "c # a"] exI [of _ b]) simp
    next
      assume ?r
      then obtain zs b where "cs = zs @ b" "eq p c" "list_all2 eq ps zs" "like eq qs b"
        using Cons by (auto simp: list_all2_Cons1)
      then show ?l by blast
    qed
    finally show ?thesis .
  qed (use Cons.prems in \<open>auto simp: list_all2_Cons1\<close>)
qed simp

definition contains_up_to :: "(char \<Rightarrow> char \<Rightarrow> bool) \<Rightarrow> string \<Rightarrow> string \<Rightarrow> bool" where
  "contains_up_to eq q s \<longleftrightarrow> (\<exists>a m b. s = a @ m @ b \<and> list_all2 eq q m)"

lemma search_pattern:
  "plain x \<Longrightarrow> like eq (CHR ''%'' # x @ ''%'') s \<longleftrightarrow> contains_up_to eq x s"
  by (simp only: like_any_start [of eq "x @ ''%''"] like_plain like_percent contains_up_to_def simp_thms) blast

lemma like_escaped: "like eq (backslash # q # qs) s \<longleftrightarrow> (\<exists>c cs. s = c # cs \<and> eq q c \<and> like eq qs cs)"
  by (cases s) auto

lemma search_pattern_escaped:
  assumes "plain x" "plain (q # y)"
  shows "like eq (CHR ''%'' # x @ backslash # q # y @ ''%'') s \<longleftrightarrow> contains_up_to eq (x @ q # y) s"
proof -
  have "like eq (CHR ''%'' # x @ backslash # q # y @ ''%'') s \<longleftrightarrow>
     (\<exists>a b. s = a @ b \<and> (\<exists>m r. b = m @ r \<and> list_all2 eq x m \<and>
        (\<exists>c cs. r = c # cs \<and> eq q c \<and> (\<exists>n t. cs = n @ t \<and> list_all2 eq y n))))"
    using assms
    by (simp only: like_any_start [of eq "x @ backslash # q # y @ ''%''"] like_plain like_escaped like_percent
        plain_Cons simp_thms)
  also have "\<dots> \<longleftrightarrow> contains_up_to eq (x @ q # y) s" (is "?l \<longleftrightarrow> ?r")
  proof
    assume ?l
    then obtain a m c n t where "s = a @ m @ c # n @ t" "list_all2 eq x m" "eq q c" "list_all2 eq y n" by blast
    then show ?r
      unfolding contains_up_to_def
      by (intro exI [of _ a] exI [of _ "m @ c # n"] exI [of _ t]) (simp add: list_all2_appendI)
  next
    assume ?r
    then obtain a m t where m: "s = a @ m @ t" "list_all2 eq (x @ q # y) m" unfolding contains_up_to_def by blast
    then obtain m1 c n where "m = m1 @ c # n" "list_all2 eq x m1" "eq q c" "list_all2 eq y n"
      by (auto simp: list_all2_append1 list_all2_Cons1)
    moreover from this have "s = a @ (m1 @ (c # (n @ t)))" using m(1) by simp
    ultimately show ?l by blast
  qed
  finally show ?thesis .
qed

text \<open>
  What the user search finds: a search text without special characters finds exactly the names that
  contain it (up to the collation). An underscore, which names may contain, is not searched for: it
  becomes the escape character, so that the search text \<open>x_y\<close> finds exactly the names that contain
  \<open>xy\<close>.
\<close>

theorem user_search_matches:
  assumes "plain x" and "plain y" and "x \<noteq> []" and "y \<noteq> []" and "uf_role f = None"
  shows "(list_match v (f\<lparr>uf_q := Some x\<rparr>) u \<longleftrightarrow> contains_up_to (dv_char_eq v) x (u_username u))
    \<and> (list_match v (f\<lparr>uf_q := Some (x @ ''_'' @ y)\<rparr>) u \<longleftrightarrow> contains_up_to (dv_char_eq v) (x @ y) (u_username u))"
proof -
  obtain q y' where y: "y = q # y'" using assms(4) by (cases y) auto
  have "escape_search (x @ ''_'' @ y) = x @ backslash # y"
    using escape_plain [OF assms(1)] escape_plain [OF assms(2)] by (simp add: escape_search_def)
  then show ?thesis
    using assms search_pattern [OF assms(1)] search_pattern_escaped [OF assms(1), of q y'] y
    by (simp add: list_match_def escape_plain)
qed

theorem user_search_matches_witness:
  "\<not> list_match demo_env \<lparr>uf_role = None, uf_q = Some ''a_b'', uf_limit = 20, uf_offset = 0\<rparr> (demo_user 1 ''a_b'' None)
   \<and> list_match demo_env \<lparr>uf_role = None, uf_q = Some ''a_b'', uf_limit = 20, uf_offset = 0\<rparr> (demo_user 1 ''xabx'' None)"
proof
  show "\<not> list_match demo_env \<lparr>uf_role = None, uf_q = Some ''a_b'', uf_limit = 20, uf_offset = 0\<rparr> (demo_user 1 ''a_b'' None)"
    by code_simp
  have "contains_up_to (dv_char_eq demo_env) ''ab'' (u_username (demo_user 1 ''xabx'' None))"
    unfolding contains_up_to_def by (intro exI [of _ "''x''"] exI [of _ "''ab''"]) (simp add: demo_env_def demo_user_def)
  then show "list_match demo_env \<lparr>uf_role = None, uf_q = Some ''a_b'', uf_limit = 20, uf_offset = 0\<rparr> (demo_user 1 ''xabx'' None)"
    using user_search_matches [of "''a''" "''b''" "\<lparr>uf_role = None, uf_q = None, uf_limit = 20, uf_offset = 0\<rparr>" demo_env]
    by simp
qed

end
