(* ===== verification/Double.thy ===== *)
theory Double
  imports Prelude
begin

text \<open>
  IEEE binary64 arithmetic as the rate limiter uses it. A finite double is the rational number it
  denotes; an operation computes exactly and rounds to 53 significant bits, ties to even
  (\<open>rnd\<close>). The exponent is unbounded: the magnitudes that occur (token counts below \<open>2^31\<close>,
  milliseconds below \<open>2^63\<close>, ratios of those) are far from overflow and underflow. A division by
  zero has no finite result and is \<open>None\<close>, as is converting that to an integer.
\<close>

section \<open>Rounding\<close>

text \<open>Nearest integer, ties to even.\<close>

definition rne :: "rat \<Rightarrow> int" where
  "rne x = (let f = \<lfloor>x\<rfloor>; r = x - of_int f in
            if r < 1 / 2 then f else if r > 1 / 2 then f + 1 else if even f then f else f + 1)"

text \<open>The number of binary digits, and the binary exponent of a positive number.\<close>

function bit_length :: "int \<Rightarrow> int" where
  "bit_length n = (if n \<le> 0 then 0 else 1 + bit_length (n div 2))"
  by pat_completeness auto
termination by (relation "measure nat") (auto simp: nat_mono_iff)

declare bit_length.simps [simp del]

definition pow2 :: "int \<Rightarrow> rat" where
  "pow2 k = (if 0 \<le> k then of_int (2 ^ nat k) else 1 / of_int (2 ^ nat (- k)))"

definition ilog2 :: "rat \<Rightarrow> int" where
  "ilog2 x = (let (n, d) = quotient_of x; k = bit_length n - bit_length d in if pow2 k \<le> x then k else k - 1)"

definition rnd_pos :: "rat \<Rightarrow> rat" where
  "rnd_pos x = (let s = pow2 (ilog2 x - 52) in of_int (rne (x / s)) * s)"

definition rnd :: "rat \<Rightarrow> rat" where
  "rnd x = (if x = 0 then 0 else if 0 < x then rnd_pos x else - rnd_pos (- x))"

text \<open>\<^verbatim>\<open>static_cast<std::int64_t>(x)\<close> of a finite double: truncation.\<close>

definition trunc_int :: "rat \<Rightarrow> int" where
  "trunc_int x = (if 0 \<le> x then \<lfloor>x\<rfloor> else - \<lfloor>- x\<rfloor>)"

text \<open>Division of doubles.\<close>

definition fdiv :: "rat \<Rightarrow> rat \<Rightarrow> rat option" where
  "fdiv a b = (if b = 0 then None else Some (rnd (a / b)))"

section \<open>Nearest integers\<close>

lemma pow2_eq [simp]: "pow2 k = 2 powi k"
  by (simp add: pow2_def power_int_def power_one_over inverse_eq_divide)

lemma rne_of_int [simp]: "rne (of_int k) = k"
  by (simp add: rne_def)

lemma rne_cases: "rne x = \<lfloor>x\<rfloor> \<or> rne x = \<lfloor>x\<rfloor> + 1"
  by (simp add: rne_def Let_def)

lemma rne_error: "\<bar>of_int (rne x) - x\<bar> \<le> 1 / 2"
proof -
  have "of_int \<lfloor>x\<rfloor> \<le> x" "x < of_int \<lfloor>x\<rfloor> + 1" by linarith+
  moreover have "rne x = \<lfloor>x\<rfloor> \<and> x - of_int \<lfloor>x\<rfloor> \<le> 1 / 2 \<or> rne x = \<lfloor>x\<rfloor> + 1 \<and> 1 / 2 \<le> x - of_int \<lfloor>x\<rfloor>"
    unfolding rne_def Let_def by (auto simp: not_less)
  ultimately show ?thesis unfolding abs_le_iff by (elim disjE conjE) (simp_all only: of_int_add of_int_1, linarith+)
qed

lemma rne_mono:
  assumes "x \<le> y"
  shows "rne x \<le> rne y"
proof (cases "\<lfloor>x\<rfloor> = \<lfloor>y\<rfloor>")
  case True
  then show ?thesis using assms unfolding rne_def Let_def by auto
next
  case False
  then have "\<lfloor>x\<rfloor> < \<lfloor>y\<rfloor>" using floor_mono [OF assms] by simp
  then show ?thesis using rne_cases [of x] rne_cases [of y] by auto
qed

section \<open>The binary exponent\<close>

lemma pow2_pos [simp]: "(0 :: rat) < 2 powi k"
  by (simp add: zero_less_power_int)

lemma pow2_add: "(2 :: rat) powi (a + b) = 2 powi a * 2 powi b"
  by (simp add: power_int_add)

lemma pow2_mono: "a \<le> b \<Longrightarrow> (2 :: rat) powi a \<le> 2 powi b"
  by (rule power_int_increasing) simp_all

lemma bit_length_bounds:
  "0 < n \<Longrightarrow> 1 \<le> bit_length n \<and> 2 ^ nat (bit_length n - 1) \<le> n \<and> n < 2 ^ nat (bit_length n)"
proof (induction n rule: bit_length.induct)
  case (1 n)
  show ?case
  proof (cases "n = 1")
    case True
    then show ?thesis by (simp add: bit_length.simps)
  next
    case False
    then have h: "0 < n div 2" using 1 by (simp add: pos_imp_zdiv_pos_iff)
    then have ih: "1 \<le> bit_length (n div 2)" "2 ^ nat (bit_length (n div 2) - 1) \<le> n div 2"
        "n div 2 < 2 ^ nat (bit_length (n div 2))"
      using 1 by auto
    have b: "bit_length n = 1 + bit_length (n div 2)" using 1 by (simp add: bit_length.simps [of n])
    have e: "nat (bit_length n - 1) = Suc (nat (bit_length (n div 2) - 1))"
        "nat (bit_length n) = Suc (nat (bit_length (n div 2)))"
      using ih(1) by (simp_all add: b)
    define p where "p = (2 :: int) ^ nat (bit_length (n div 2) - 1)"
    define r where "r = (2 :: int) ^ nat (bit_length (n div 2))"
    have "p \<le> n div 2" "n div 2 < r" using ih by (simp_all add: p_def r_def)
    then have "2 * p \<le> n" "n < 2 * r" by auto
    then show ?thesis unfolding e power_Suc p_def r_def using ih(1) b by simp
  qed
qed

lemma bit_length_rat:
  assumes "0 < n"
  shows "(2 :: rat) powi (bit_length n - 1) \<le> of_int n" and "of_int n < (2 :: rat) powi (bit_length n)"
proof -
  have "1 \<le> bit_length n" "2 ^ nat (bit_length n - 1) \<le> n" "n < 2 ^ nat (bit_length n)"
    using bit_length_bounds [OF assms] by auto
  then have b: "1 \<le> bit_length n" "of_int (2 ^ nat (bit_length n - 1)) \<le> (of_int n :: rat)"
      "(of_int n :: rat) < of_int (2 ^ nat (bit_length n))"
    by (simp_all only: of_int_le_iff of_int_less_iff)
  then show "(2 :: rat) powi (bit_length n - 1) \<le> of_int n" "of_int n < (2 :: rat) powi (bit_length n)"
    by (simp_all add: power_int_def)
qed

lemma ilog2_bounds:
  assumes "0 < x"
  shows "2 powi (ilog2 x) \<le> x" and "x < 2 powi (ilog2 x + 1)"
proof -
  obtain n d where q: "quotient_of x = (n, d)" by (cases "quotient_of x")
  then have d: "0 < d" and x: "x = of_int n / of_int d"
    by (simp_all add: quotient_of_denom_pos quotient_of_div)
  have n: "0 < n" using assms d x by (simp add: zero_less_divide_iff)
  let ?k = "bit_length n - bit_length d"
  have lo: "2 powi (?k - 1) < x"
  proof -
    have "2 powi (?k - 1) * of_int d < (2 powi (?k - 1) * 2 powi (bit_length d) :: rat)"
      using bit_length_rat(2) [OF d] by simp
    also have "\<dots> = 2 powi (bit_length n - 1)" by (simp flip: pow2_add)
    also have "\<dots> \<le> of_int n" by (rule bit_length_rat(1) [OF n])
    finally show ?thesis using d by (simp add: x field_simps)
  qed
  have hi: "x < 2 powi (?k + 1)"
  proof -
    have "of_int n < (2 :: rat) powi (bit_length n)" by (rule bit_length_rat(2) [OF n])
    also have "\<dots> = 2 powi (?k + 1) * 2 powi (bit_length d - 1)" by (simp flip: pow2_add)
    also have "\<dots> \<le> 2 powi (?k + 1) * of_int d" using bit_length_rat(1) [OF d] by simp
    finally show ?thesis using d by (simp add: x field_simps)
  qed
  show "2 powi (ilog2 x) \<le> x" "x < 2 powi (ilog2 x + 1)"
    using lo hi by (auto simp: ilog2_def q Let_def)
qed

lemma ilog2_unique:
  assumes "2 powi k \<le> x" and "x < 2 powi (k + 1)"
  shows "ilog2 x = k"
proof -
  have x: "0 < x" using assms(1) pow2_pos [of k] by linarith
  have "\<not> ilog2 x + 1 \<le> k" using pow2_mono [of "ilog2 x + 1" k] ilog2_bounds(2) [OF x] assms(1) by linarith
  moreover have "\<not> k + 1 \<le> ilog2 x" using pow2_mono [of "k + 1" "ilog2 x"] ilog2_bounds(1) [OF x] assms(2) by linarith
  ultimately show ?thesis by linarith
qed

lemma ilog2_mono:
  assumes "0 < x" and "x \<le> y"
  shows "ilog2 x \<le> ilog2 y"
proof (rule ccontr)
  assume "\<not> ilog2 x \<le> ilog2 y"
  then have "(2 :: rat) powi (ilog2 y + 1) \<le> 2 powi (ilog2 x)" by (intro pow2_mono) simp
  then show False using ilog2_bounds [of x] ilog2_bounds [of y] assms by linarith
qed

section \<open>Properties of rounding\<close>

lemma rnd_pos_range:
  assumes "0 < x"
  shows "2 powi (ilog2 x) \<le> rnd_pos x" and "rnd_pos x \<le> 2 powi (ilog2 x + 1)"
proof -
  let ?s = "2 powi (ilog2 x - 52) :: rat"
  have e: "(2 :: rat) powi (ilog2 x) = of_int (2 ^ 52) * ?s" "(2 :: rat) powi (ilog2 x + 1) = of_int (2 ^ 53) * ?s"
    using pow2_add [of 52 "ilog2 x - 52"] pow2_add [of 53 "ilog2 x - 52"] by (simp_all add: add.commute)
  have "of_int (2 ^ 52) \<le> x / ?s" "x / ?s \<le> of_int (2 ^ 53)"
    using ilog2_bounds [OF assms] e by (simp_all add: le_divide_eq divide_le_eq)
  then have "2 ^ 52 \<le> rne (x / ?s)" "rne (x / ?s) \<le> 2 ^ 53"
    using rne_mono rne_of_int by metis+
  then have "of_int (2 ^ 52) \<le> (of_int (rne (x / ?s)) :: rat)" "(of_int (rne (x / ?s)) :: rat) \<le> of_int (2 ^ 53)"
    by (simp_all only: of_int_le_iff)
  then show "2 powi (ilog2 x) \<le> rnd_pos x" "rnd_pos x \<le> 2 powi (ilog2 x + 1)"
    unfolding e rnd_pos_def Let_def pow2_eq by (simp_all only: mult_right_mono less_imp_le pow2_pos)
qed

lemma rnd_pos_mono:
  assumes "0 < x" and "x \<le> y"
  shows "rnd_pos x \<le> rnd_pos y"
proof (cases "ilog2 x = ilog2 y")
  case True
  have "x / 2 powi (ilog2 x - 52) \<le> y / 2 powi (ilog2 x - 52)"
    using assms(2) by (simp add: divide_right_mono less_imp_le)
  then have "rne (x / 2 powi (ilog2 x - 52)) \<le> rne (y / 2 powi (ilog2 x - 52))" by (rule rne_mono)
  then show ?thesis unfolding rnd_pos_def Let_def True [symmetric] by (simp add: mult_right_mono less_imp_le)
next
  case False
  then have "ilog2 x + 1 \<le> ilog2 y" using ilog2_mono [OF assms] by linarith
  then have "(2 :: rat) powi (ilog2 x + 1) \<le> 2 powi (ilog2 y)" by (rule pow2_mono)
  then show ?thesis using rnd_pos_range [of x] rnd_pos_range [of y] assms by linarith
qed

lemma rnd_pos_gt_0: "0 < x \<Longrightarrow> 0 < rnd_pos x"
  using rnd_pos_range(1) [of x] pow2_pos [of "ilog2 x"] by linarith

lemma rnd_mono: "x \<le> y \<Longrightarrow> rnd x \<le> rnd y"
proof -
  assume "x \<le> y"
  consider "0 < x" | "x \<le> 0" "0 \<le> y" | "y < 0" by linarith
  then show ?thesis
  proof cases
    case 1
    then show ?thesis using \<open>x \<le> y\<close> by (auto simp: rnd_def intro: rnd_pos_mono)
  next
    case 2
    then have "rnd x \<le> 0" "0 \<le> rnd y"
      using rnd_pos_gt_0 [of y] rnd_pos_gt_0 [of "- x"] by (auto simp: rnd_def)
    then show ?thesis by linarith
  next
    case 3
    then show ?thesis using \<open>x \<le> y\<close> rnd_pos_mono [of "- y" "- x"] by (auto simp: rnd_def)
  qed
qed

lemma rnd_0 [simp]: "rnd 0 = 0"
  by (simp add: rnd_def)

lemma rnd_nonneg: "0 \<le> x \<Longrightarrow> 0 \<le> rnd x"
  using rnd_mono [of 0 x] by simp

lemma rnd_upper:
  assumes "0 \<le> x"
  shows "rnd x \<le> x * (1 + 1 / 2 ^ 53)"
proof (cases "x = 0")
  case False
  then have x: "0 < x" using assms by simp
  let ?s = "2 powi (ilog2 x - 52) :: rat"
  have "of_int (rne (x / ?s)) \<le> x / ?s + 1 / 2" using rne_error [of "x / ?s"] by linarith
  then have "of_int (rne (x / ?s)) * ?s \<le> (x / ?s + 1 / 2) * ?s" by (simp add: mult_right_mono less_imp_le)
  moreover have "(x / ?s + 1 / 2) * ?s = x + ?s / 2" by (simp add: distrib_right)
  ultimately have "rnd x \<le> x + ?s / 2" using x by (simp add: rnd_def rnd_pos_def Let_def)
  moreover have "2 ^ 52 * ?s = 2 powi (ilog2 x)" using pow2_add [of 52 "ilog2 x - 52"] by simp
  then have "2 ^ 52 * ?s \<le> x" using ilog2_bounds(1) [OF x] by simp
  ultimately show ?thesis by (simp add: field_simps)
qed simp

text \<open>A multiple of the unit in the last place is a double already.\<close>

lemma rnd_exact:
  assumes "0 < x" and "x = of_int m * 2 powi k" and "ilog2 x - 52 \<le> k"
  shows "rnd x = x"
proof -
  let ?s = "2 powi (ilog2 x - 52) :: rat"
  define j where "j = nat (k - (ilog2 x - 52))"
  have "(2 :: rat) powi k = 2 powi (k - (ilog2 x - 52)) * ?s" by (simp flip: pow2_add)
  also have "2 powi (k - (ilog2 x - 52)) = (of_int (2 ^ j) :: rat)"
    using assms(3) by (simp add: power_int_def j_def)
  finally have "x = of_int (m * 2 ^ j) * ?s" using assms(2) by (simp only: of_int_mult mult.assoc)
  then have "x / ?s = of_int (m * 2 ^ j)"
    using pow2_pos [of "ilog2 x - 52"] by (metis less_irrefl nonzero_mult_div_cancel_right)
  then have "of_int (rne (x / ?s)) = x / ?s" by (simp only: rne_of_int)
  then show ?thesis using assms(1) by (simp add: rnd_def rnd_pos_def Let_def)
qed

lemma ilog2_less:
  assumes "0 < x" and "x < 2 powi k"
  shows "ilog2 x < k"
proof (rule ccontr)
  assume "\<not> ilog2 x < k"
  then have "(2 :: rat) powi k \<le> 2 powi (ilog2 x)" by (intro pow2_mono) simp
  then show False using ilog2_bounds(1) [OF assms(1)] assms(2) by linarith
qed

lemma rnd_of_nat_less:
  assumes "0 < k" and "k < 2 ^ 53"
  shows "rnd (of_int k) = of_int k"
proof (rule rnd_exact)
  show "(0 :: rat) < of_int k" using assms by simp
  have "of_int k < (of_int (2 ^ 53) :: rat)" using assms(2) by (simp only: of_int_less_iff)
  then have "ilog2 (of_int k) < 53" using assms(1) by (intro ilog2_less) simp_all
  then show "ilog2 (of_int k) - 52 \<le> 0" by simp
qed simp

lemma rnd_of_int:
  assumes "\<bar>k\<bar> < 2 ^ 53"
  shows "rnd (of_int k) = of_int k"
proof -
  consider "0 < k" | "k = 0" | "k < 0" by linarith
  then show ?thesis
  proof cases
    case 1
    then show ?thesis using assms rnd_of_nat_less by simp
  next
    case 3
    then have "rnd (of_int (- k)) = of_int (- k)" using assms by (intro rnd_of_nat_less) simp_all
    then show ?thesis using 3 by (simp add: rnd_def)
  qed simp
qed

lemma rnd_pos_idem:
  assumes "0 < x"
  shows "rnd (rnd_pos x) = rnd_pos x"
proof (cases "rnd_pos x = 2 powi (ilog2 x + 1)")
  case True
  have "ilog2 (rnd_pos x) = ilog2 x + 1" unfolding True by (rule ilog2_unique) (simp_all add: pow2_add)
  then show ?thesis
    using True by (intro rnd_exact [where m = 1 and k = "ilog2 x + 1"] rnd_pos_gt_0 assms) simp_all
next
  case False
  then have "ilog2 (rnd_pos x) = ilog2 x" using rnd_pos_range [OF assms] by (intro ilog2_unique) auto
  then show ?thesis
    by (intro rnd_exact [where m = "rne (x / 2 powi (ilog2 x - 52))" and k = "ilog2 x - 52"] rnd_pos_gt_0 assms)
       (simp_all add: rnd_pos_def Let_def)
qed

lemma rnd_neg: "rnd (- x) = - rnd x"
  by (auto simp: rnd_def)

lemma rnd_idem [simp]: "rnd (rnd x) = rnd x"
proof -
  consider "0 < x" | "x = 0" | "x < 0" by linarith
  then show ?thesis
  proof cases
    case 1
    then show ?thesis using rnd_pos_idem [OF 1] by (simp add: rnd_def [of x])
  next
    case 3
    then show ?thesis using rnd_pos_idem [of "- x"] by (simp add: rnd_def [of x] rnd_neg)
  qed simp
qed

text \<open>The doubles, and a step of one down from a double at least 1: exact.\<close>

definition is_double :: "rat \<Rightarrow> bool" where
  "is_double x \<longleftrightarrow> rnd x = x"

lemma is_double_rnd [simp]: "is_double (rnd x)"
  by (simp add: is_double_def)

lemma double_mantissa:
  assumes "is_double x" and "0 < x"
  shows "x = of_int (rne (x / 2 powi (ilog2 x - 52))) * 2 powi (ilog2 x - 52)"
  using assms by (simp add: is_double_def rnd_def rnd_pos_def Let_def)

lemma rnd_minus_1:
  assumes d: "is_double x" and "1 \<le> x" and "x < 2 ^ 52"
  shows "rnd (x - 1) = x - 1"
proof (cases "x = 1")
  case False
  then have pos: "0 < x - 1" using assms(2) by simp
  let ?k = "ilog2 x - 52"
  define m where "m = rne (x / 2 powi ?k)"
  have k: "?k \<le> 0" using ilog2_less [of x 52] assms by simp
  have x: "x = of_int m * 2 powi ?k" unfolding m_def using double_mantissa [OF d] assms(2) by simp
  have "(2 :: rat) powi ?k * 2 powi (- ?k) = 1" by (simp flip: pow2_add)
  moreover have "2 powi (- ?k) = (of_int (2 ^ nat (- ?k)) :: rat)" using k by (simp add: power_int_def)
  ultimately have one: "1 = of_int (2 ^ nat (- ?k)) * (2 :: rat) powi ?k" by (simp add: mult.commute)
  have "x - 1 = of_int (m - 2 ^ nat (- ?k)) * 2 powi ?k"
    using x one by (simp add: left_diff_distrib)
  then show ?thesis
    by (rule rnd_exact [OF pos]) (use pos ilog2_mono [of "x - 1" x] in simp)
qed simp

end
