(* ===== verification/Problem_Repo.thy ===== *)
theory Problem_Repo
  imports User_Repo Double
begin

text \<open>
  \<^verbatim>\<open>src/db/problem_repo.h\<close>, \<^verbatim>\<open>src/db/test_case_repo.h\<close> and \<^verbatim>\<open>src/db/special_judge_repo.h\<close>: the operations on
  the tables \<^verbatim>\<open>problems\<close>, \<^verbatim>\<open>test_cases\<close> and \<^verbatim>\<open>problem_special_judges\<close>.

  A statement is its effect on the tables, with the keys of the migrations: unique slugs (deleted
  problems included), test cases and special judges of existing problems, one special judge per
  problem, \<^verbatim>\<open>updated_at\<close> set when a row changes. The server's side is the \<open>db_env\<close> of User_Repo,
  with the text of the error a violated foreign key raises. Values a column cannot hold raise an
  error, which is a failure of the statement. A NULL template is read as the empty string and stored
  so in the model. The counts of a problem are those of the submissions table.

  The unique keys and foreign keys are checked by the server, not by this code: what the code adds is the validation before a
  statement, the \<^verbatim>\<open>is_deleted\<close> conditions, and what it makes of a duplicate-key error.

  Main results: what deleting, restoring and upserting do
  to lookups, that replacing the test cases of a problem is atomic and what the judge then reads, and
  the round trips of test cases and special judges.
\<close>

section \<open>Rows and tables\<close>

record ProblemRow =
  p_id :: int
  p_slug :: string
  p_title :: string
  p_difficulty :: string
  p_description :: string
  p_template :: string
  p_time_limit :: int
  p_memory_limit :: int
  p_accepted_count :: int
  p_submission_count :: int
  p_is_deleted :: bool
  p_created_at :: string
  p_updated_at :: string

record SampleCaseRow =
  sc_id :: int
  sc_problem_id :: int
  sc_input :: string
  sc_expected_output :: string
  sc_judge_type :: string
  sc_order_num :: int

text \<open>A row of \<^verbatim>\<open>test_cases\<close> has two more columns, which the queries do not select.\<close>

record test_case = SampleCaseRow +
  tr_is_sample :: bool
  tr_float_epsilon :: "rat option"

record SpecialJudgeRow =
  sj_problem_id :: int
  sj_source :: string
  sj_language :: string
  sj_created_at :: string
  sj_updated_at :: string

record problem_db =
  pd_problems :: "ProblemRow list"
  pd_next :: int
  pd_cases :: "test_case list"
  pd_case_next :: int
  pd_judges :: "SpecialJudgeRow list"
  pd_problem_tags :: "(int \<times> int) list"

record fk_env = db_env +
  fv_foreign_key :: string

datatype problem_error =
    ProblemRepoError string
  | ProblemNotFoundError string
  | ProblemAlreadyExistsError string
  | TestCaseRepoError string
  | SpecialJudgeRepoError string
  | ProblemMysqlxError string
  | ProblemPoolError string

fun problem_error_what :: "problem_error \<Rightarrow> string" where
  "problem_error_what (ProblemRepoError m) = m"
| "problem_error_what (ProblemNotFoundError m) = m"
| "problem_error_what (ProblemAlreadyExistsError m) = m"
| "problem_error_what (TestCaseRepoError m) = m"
| "problem_error_what (SpecialJudgeRepoError m) = m"
| "problem_error_what (ProblemMysqlxError m) = m"
| "problem_error_what (ProblemPoolError m) = m"

definition acquired :: "'e db_env_scheme \<Rightarrow> problem_error + 'a \<Rightarrow> problem_error + 'a" where
  "acquired v body = (case dv_acquire v of Some m \<Rightarrow> Inl (ProblemPoolError m) | None \<Rightarrow> body)"

text \<open>The \<open>k\<close>-th statement of a call: its failure is turned into the exception \<open>wrap\<close> makes of the text.\<close>

definition sql :: "'e db_env_scheme \<Rightarrow> nat \<Rightarrow> (string \<Rightarrow> problem_error) \<Rightarrow> 'a \<Rightarrow> problem_error + 'a" where
  "sql v k wrap r = (case dv_fault v k of Some m \<Rightarrow> Inl (wrap m) | None \<Rightarrow> Inr r)"

section \<open>Problems\<close>

definition validate_problem :: "string \<Rightarrow> ProblemRow \<Rightarrow> problem_error + unit" where
  "validate_problem op p =
     (case validate_slug (p_slug p) of Inl err \<Rightarrow> Inl (ProblemRepoError (op @ '': '' @ err)) | Inr _ \<Rightarrow>
      case validate_title (p_title p) of Inl err \<Rightarrow> Inl (ProblemRepoError (op @ '': '' @ err)) | Inr _ \<Rightarrow>
      case validate_difficulty (p_difficulty p) of Inl err \<Rightarrow> Inl (ProblemRepoError (op @ '': '' @ err)) | Inr _ \<Rightarrow>
      case validate_time_limit (p_time_limit p) of Inl err \<Rightarrow> Inl (ProblemRepoError (op @ '': '' @ err)) | Inr _ \<Rightarrow>
      case validate_memory_limit (p_memory_limit p) of Inl err \<Rightarrow> Inl (ProblemRepoError (op @ '': '' @ err)) | Inr _ \<Rightarrow> Inr ())"

definition effective_limits :: "ProblemRow \<Rightarrow> ProblemRow" where
  "effective_limits p = p\<lparr>p_time_limit := (if p_time_limit p = 0 then 1000 else p_time_limit p),
                         p_memory_limit := (if p_memory_limit p = 0 then 256 else p_memory_limit p)\<rparr>"

text \<open>The row of an \<^verbatim>\<open>INSERT\<close>.\<close>

definition new_problem :: "'e db_env_scheme \<Rightarrow> int \<Rightarrow> ProblemRow \<Rightarrow> ProblemRow" where
  "new_problem v i p = p\<lparr>p_id := i, p_accepted_count := 0, p_submission_count := 0, p_is_deleted := False,
                         p_created_at := dv_now v, p_updated_at := dv_now v\<rparr>"

definition slug_taken :: "'e db_env_scheme \<Rightarrow> string \<Rightarrow> problem_db \<Rightarrow> bool" where
  "slug_taken v s d \<longleftrightarrow> (\<exists>p \<in> set (pd_problems d). dv_eq v (p_slug p) s)"

text \<open>The clash of slugs is the unique key of the table, which the server checks; the code turns its error into 0.\<close>

definition create_problem :: "'e db_env_scheme \<Rightarrow> ProblemRow \<Rightarrow> problem_db \<Rightarrow> problem_error + int \<times> problem_db" where
  "create_problem v row d =
     (let r = effective_limits row in
      case validate_problem ''create'' r of
        Inl e \<Rightarrow> Inl e
      | Inr _ \<Rightarrow>
          acquired v
            (case (case dv_fault v 0 of
                     Some m \<Rightarrow> Inl m
                   | None \<Rightarrow>
                       if slug_taken v (p_slug r) d then Inl (dv_duplicate v)
                       else Inr (pd_next d, d\<lparr>pd_problems := pd_problems d @ [new_problem v (pd_next d) r],
                                               pd_next := pd_next d + 1\<rparr>)) of
               Inr x \<Rightarrow> Inr x
             | Inl what \<Rightarrow>
                 if is_duplicate_error what then Inr (0, d)
                 else Inl (ProblemRepoError (''problem_repo::create: '' @ what))))"

definition slug_exists :: "'e db_env_scheme \<Rightarrow> string \<Rightarrow> bool \<Rightarrow> problem_db \<Rightarrow> problem_error + bool" where
  "slug_exists v s include_deleted d =
     acquired v (sql v 0 ProblemMysqlxError
       (\<exists>p \<in> set (pd_problems d). dv_eq v (p_slug p) s \<and> (include_deleted \<or> \<not> p_is_deleted p)))"

text \<open>A selected row: its counts are subqueries over the submissions.\<close>

definition row_to_problem :: "table \<Rightarrow> ProblemRow \<Rightarrow> ProblemRow" where
  "row_to_problem st p =
     p\<lparr>p_accepted_count := int (length (filter (\<lambda>s. sub_problem_id s = p_id p \<and> sub_status s = ''ac'') (rows st))),
       p_submission_count := int (length (filter (\<lambda>s. sub_problem_id s = p_id p
                                    \<and> sub_status s \<noteq> ''pending'' \<and> sub_status s \<noteq> ''running'') (rows st)))\<rparr>"

definition find_problem_by_id ::
    "'e db_env_scheme \<Rightarrow> int \<Rightarrow> bool \<Rightarrow> table \<Rightarrow> problem_db \<Rightarrow> problem_error + ProblemRow option" where
  "find_problem_by_id v i include_deleted st d =
     acquired v (sql v 0 ProblemMysqlxError
       (map_option (row_to_problem st)
          (List.find (\<lambda>p. p_id p = i \<and> (include_deleted \<or> \<not> p_is_deleted p)) (pd_problems d))))"

definition find_problem_by_slug ::
    "'e db_env_scheme \<Rightarrow> string \<Rightarrow> bool \<Rightarrow> table \<Rightarrow> problem_db \<Rightarrow> problem_error + ProblemRow option" where
  "find_problem_by_slug v s include_deleted st d =
     acquired v (sql v 0 ProblemMysqlxError
       (map_option (row_to_problem st)
          (List.find (\<lambda>p. dv_eq v (p_slug p) s \<and> (include_deleted \<or> \<not> p_is_deleted p)) (pd_problems d))))"

text \<open>
  \<^verbatim>\<open>UPDATE problems SET g WHERE P\<close> with the affected-items count; a row that changes gets a new
  \<^verbatim>\<open>updated_at\<close>.
\<close>

definition touched :: "'e db_env_scheme \<Rightarrow> (ProblemRow \<Rightarrow> ProblemRow) \<Rightarrow> ProblemRow \<Rightarrow> ProblemRow" where
  "touched v g p = (if g p = p then p else (g p)\<lparr>p_updated_at := dv_now v\<rparr>)"

definition update_problems ::
    "'e db_env_scheme \<Rightarrow> (ProblemRow \<Rightarrow> bool) \<Rightarrow> (ProblemRow \<Rightarrow> ProblemRow) \<Rightarrow> problem_db \<Rightarrow> nat \<times> problem_db" where
  "update_problems v P g d =
     (length (filter (\<lambda>p. P p \<and> (dv_count_matched v \<or> g p \<noteq> p)) (pd_problems d)),
      d\<lparr>pd_problems := map (\<lambda>p. if P p then touched v g p else p) (pd_problems d)\<rparr>)"

definition patched :: "ProblemRow \<Rightarrow> ProblemRow \<Rightarrow> ProblemRow" where
  "patched patch p = p\<lparr>p_slug := p_slug patch, p_title := p_title patch, p_difficulty := p_difficulty patch,
     p_description := p_description patch, p_template := p_template patch, p_time_limit := p_time_limit patch,
     p_memory_limit := p_memory_limit patch\<rparr>"

definition update_problem ::
    "'e db_env_scheme \<Rightarrow> string \<Rightarrow> ProblemRow \<Rightarrow> problem_db \<Rightarrow> problem_error + bool \<times> problem_db" where
  "update_problem v current_slug patch d =
     (let live = (\<lambda>p. dv_eq v (p_slug p) current_slug \<and> \<not> p_is_deleted p) in
      case validate_problem ''update'' patch of
        Inl e \<Rightarrow> Inl e
      | Inr _ \<Rightarrow>
          acquired v
            (case sql v 0 ProblemMysqlxError (\<exists>p \<in> set (pd_problems d). live p) of
               Inl e \<Rightarrow> Inl e
             | Inr False \<Rightarrow>
                 Inl (ProblemNotFoundError (''problem_repo::update: slug '' @ [quote] @ current_slug @ [quote] @ '' not found''))
             | Inr True \<Rightarrow>
                 (case (case dv_fault v 1 of
                          Some m \<Rightarrow> Inl m
                        | None \<Rightarrow>
                            if \<exists>p \<in> set (pd_problems d). live p
                                 \<and> (\<exists>q \<in> set (pd_problems d). p_id q \<noteq> p_id p \<and> dv_eq v (p_slug q) (p_slug patch))
                            then Inl (dv_duplicate v)
                            else Inr (update_problems v live (patched patch) d)) of
                    Inr (n, d') \<Rightarrow> Inr (n > 0, d')
                  | Inl what \<Rightarrow>
                      Inl (if is_duplicate_error what
                           then ProblemAlreadyExistsError (''problem_repo::update: slug '' @ [quote] @ p_slug patch @ [quote] @ '' already exists'')
                           else ProblemRepoError (''problem_repo::update: '' @ what)))))"

definition soft_delete :: "'e db_env_scheme \<Rightarrow> string \<Rightarrow> problem_db \<Rightarrow> problem_error + bool \<times> problem_db" where
  "soft_delete v s d =
     acquired v
       (case sql v 0 (\<lambda>m. ProblemRepoError (''problem_repo::soft_delete: '' @ m))
               (update_problems v (\<lambda>p. dv_eq v (p_slug p) s \<and> \<not> p_is_deleted p) (\<lambda>p. p\<lparr>p_is_deleted := True\<rparr>) d) of
          Inl e \<Rightarrow> Inl e
        | Inr (n, d') \<Rightarrow> Inr (n > 0, d'))"

definition restore :: "'e db_env_scheme \<Rightarrow> string \<Rightarrow> problem_db \<Rightarrow> problem_error + bool \<times> problem_db" where
  "restore v s d =
     acquired v
       (case sql v 0 (\<lambda>m. if is_duplicate_error m
                          then ProblemAlreadyExistsError (''problem_repo::restore: slug '' @ [quote] @ s @ [quote]
                                 @ '' is already in use by another live row'')
                          else ProblemRepoError (''problem_repo::restore: '' @ m))
               (update_problems v (\<lambda>p. dv_eq v (p_slug p) s \<and> p_is_deleted p) (\<lambda>p. p\<lparr>p_is_deleted := False\<rparr>) d) of
          Inl e \<Rightarrow> Inl e
        | Inr (n, d') \<Rightarrow> Inr (n > 0, d'))"

record UpsertResult =
  ur_id :: int
  ur_created :: bool

text \<open>
  \<^verbatim>\<open>INSERT ... ON DUPLICATE KEY UPDATE\<close>: the count is 1 for an insert, 2 for an update that changes the
  row, and for one that does not 1 or 0, depending on what the server counts.
\<close>

definition upsert_row :: "'e db_env_scheme \<Rightarrow> ProblemRow \<Rightarrow> problem_db \<Rightarrow> nat \<times> problem_db" where
  "upsert_row v r d =
     (case List.find (\<lambda>p. dv_eq v (p_slug p) (p_slug r)) (pd_problems d) of
        None \<Rightarrow> (1, d\<lparr>pd_problems := pd_problems d @ [new_problem v (pd_next d) r], pd_next := pd_next d + 1\<rparr>)
      | Some p \<Rightarrow>
          let p' = (patched r p)\<lparr>p_slug := p_slug p, p_is_deleted := False, p_updated_at := dv_now v\<rparr>
          in (if p' \<noteq> p then 2 else if dv_count_matched v then 1 else 0,
              d\<lparr>pd_problems := map (\<lambda>q. if q = p then p' else q) (pd_problems d)\<rparr>))"

text \<open>The row is stored even when the lookup of its id fails.\<close>

definition upsert_problem ::
    "'e db_env_scheme \<Rightarrow> ProblemRow \<Rightarrow> problem_db \<Rightarrow> (problem_error + UpsertResult) \<times> problem_db" where
  "upsert_problem v row d =
     (let r = effective_limits row; wrap = (\<lambda>m. ProblemRepoError (''problem_repo::upsert: '' @ m)) in
      case validate_problem ''upsert'' r of
        Inl e \<Rightarrow> (Inl e, d)
      | Inr _ \<Rightarrow>
          (case acquired v (sql v 0 wrap (upsert_row v r d)) of
             Inl e \<Rightarrow> (Inl e, d)
           | Inr (affected, d') \<Rightarrow>
               (case sql v 1 wrap (List.find (\<lambda>p. dv_eq v (p_slug p) (p_slug r)) (pd_problems d')) of
                  Inl e \<Rightarrow> (Inl e, d')
                | Inr None \<Rightarrow>
                    (Inl (ProblemRepoError (''problem_repo::upsert: row vanished after upsert for slug '' @ [quote]
                            @ p_slug row @ [quote])), d')
                | Inr (Some p) \<Rightarrow> (Inr \<lparr>ur_id = p_id p, ur_created = (affected = 1)\<rparr>, d'))))"

record ProblemListFilter =
  pf_include_deleted :: bool
  pf_difficulty :: "string option"
  pf_tag_id :: "int option"
  pf_limit :: int
  pf_offset :: int

record ProblemListResult =
  pl_items :: "ProblemRow list"
  pl_total :: int
  pl_limit :: int
  pl_offset :: int

definition clamp_problem_filter :: "ProblemListFilter \<Rightarrow> ProblemListFilter" where
  "clamp_problem_filter f =
     (let f1 = (if pf_limit f \<le> 0 then f\<lparr>pf_limit := 20\<rparr> else f);
          f2 = (if pf_limit f1 > 100 then f1\<lparr>pf_limit := 100\<rparr> else f1)
      in if pf_offset f2 < 0 then f2\<lparr>pf_offset := 0\<rparr> else f2)"

text \<open>The \<^verbatim>\<open>WHERE\<close> clause of both queries.\<close>

definition problem_match :: "'e db_env_scheme \<Rightarrow> ProblemListFilter \<Rightarrow> problem_db \<Rightarrow> ProblemRow \<Rightarrow> bool" where
  "problem_match v f d p \<longleftrightarrow>
     (case pf_tag_id f of None \<Rightarrow> True | Some t \<Rightarrow> (p_id p, t) \<in> set (pd_problem_tags d))
     \<and> (pf_include_deleted f \<or> \<not> p_is_deleted p)
     \<and> (case pf_difficulty f of None \<Rightarrow> True | Some x \<Rightarrow> dv_eq v (p_difficulty p) x)"

definition count_problems :: "'e db_env_scheme \<Rightarrow> ProblemListFilter \<Rightarrow> problem_db \<Rightarrow> problem_error + int" where
  "count_problems v flt d =
     (let f = clamp_problem_filter flt in
      acquired v (sql v 0 (\<lambda>m. ProblemRepoError (''problem_repo::count: '' @ m))
        (int (length (filter (problem_match v f d) (pd_problems d))))))"

text \<open>\<open>time_of\<close> is the time a printed date stands for; \<open>v1\<close> serves the count.\<close>

definition list_problems ::
    "(string \<Rightarrow> int) \<Rightarrow> 'e db_env_scheme \<Rightarrow> 'e db_env_scheme \<Rightarrow> ProblemListFilter \<Rightarrow> table \<Rightarrow> problem_db
       \<Rightarrow> problem_error + ProblemListResult" where
  "list_problems time_of v1 v flt st d =
     (let f = clamp_problem_filter flt in
      case count_problems v1 f d of
        Inl e \<Rightarrow> Inl e
      | Inr n \<Rightarrow>
          acquired v
            (case sql v 0 (\<lambda>m. ProblemRepoError (''problem_repo::list: '' @ m))
                    (take (nat (pf_limit f)) (drop (nat (pf_offset f))
                       (sort_key (\<lambda>p. - time_of (p_created_at p)) (sort_key (\<lambda>p. - p_id p)
                          (filter (problem_match v f d) (pd_problems d)))))) of
               Inl e \<Rightarrow> Inl e
             | Inr ps \<Rightarrow> Inr \<lparr>pl_items = map (row_to_problem st) ps, pl_total = n,
                             pl_limit = pf_limit f, pl_offset = pf_offset f\<rparr>))"

section \<open>Test cases\<close>

definition row_to_sample :: "test_case \<Rightarrow> SampleCaseRow" where
  "row_to_sample t = \<lparr>sc_id = sc_id t, sc_problem_id = sc_problem_id t, sc_input = sc_input t,
     sc_expected_output = sc_expected_output t, sc_judge_type = sc_judge_type t, sc_order_num = sc_order_num t\<rparr>"

text \<open>\<^verbatim>\<open>ORDER BY order_num ASC, id ASC\<close>.\<close>

definition in_order :: "test_case list \<Rightarrow> test_case list" where
  "in_order ts = sort_key sc_order_num (sort_key sc_id ts)"

definition list_samples_for_problem ::
    "'e db_env_scheme \<Rightarrow> int \<Rightarrow> problem_db \<Rightarrow> problem_error + SampleCaseRow list" where
  "list_samples_for_problem v pid d =
     acquired v (sql v 0 (\<lambda>m. TestCaseRepoError (''test_case_repo::list_samples_for_problem: '' @ m))
       (map row_to_sample (in_order (filter (\<lambda>t. sc_problem_id t = pid \<and> tr_is_sample t) (pd_cases d)))))"

definition list_for_problem ::
    "'e db_env_scheme \<Rightarrow> int \<Rightarrow> bool option \<Rightarrow> problem_db \<Rightarrow> problem_error + SampleCaseRow list" where
  "list_for_problem v pid only_samples d =
     acquired v (sql v 0 (\<lambda>m. TestCaseRepoError (''test_case_repo::list_for_problem: '' @ m))
       (map row_to_sample (in_order (filter (\<lambda>t. sc_problem_id t = pid
          \<and> (case only_samples of None \<Rightarrow> True | Some b \<Rightarrow> tr_is_sample t = b)) (pd_cases d)))))"

text \<open>\<^verbatim>\<open>std::to_string\<close> of a double: six digits after the point.\<close>

definition six_digits :: "rat \<Rightarrow> rat" where
  "six_digits x = of_int (rne (x * 1000000)) / 1000000"

definition insert_case_row :: "fk_env \<Rightarrow> test_case \<Rightarrow> problem_db \<Rightarrow> string + problem_db" where
  "insert_case_row v t d =
     (if \<exists>p \<in> set (pd_problems d). p_id p = sc_problem_id t
      then Inr (d\<lparr>pd_cases := pd_cases d @ [t\<lparr>sc_id := pd_case_next d\<rparr>], pd_case_next := pd_case_next d + 1\<rparr>)
      else Inl (fv_foreign_key v))"

definition insert_case ::
    "fk_env \<Rightarrow> int \<Rightarrow> string \<Rightarrow> string \<Rightarrow> bool \<Rightarrow> string \<Rightarrow> int \<Rightarrow> rat option \<Rightarrow> problem_db
       \<Rightarrow> problem_error + int \<times> problem_db" where
  "insert_case v pid inp expected is_sample jtype order_num float_epsilon d =
     (let t = \<lparr>sc_id = 0, sc_problem_id = pid, sc_input = inp, sc_expected_output = expected, sc_judge_type = jtype,
               sc_order_num = order_num, tr_is_sample = is_sample, tr_float_epsilon = map_option six_digits float_epsilon\<rparr> in
      acquired v
        (case (case dv_fault v 0 of Some m \<Rightarrow> Inl m | None \<Rightarrow> insert_case_row v t d) of
           Inl m \<Rightarrow> Inl (TestCaseRepoError (''test_case_repo::insert: '' @ m))
         | Inr d' \<Rightarrow> Inr (pd_case_next d, d')))"

definition delete_for_problem :: "'e db_env_scheme \<Rightarrow> int \<Rightarrow> problem_db \<Rightarrow> problem_error + nat \<times> problem_db" where
  "delete_for_problem v pid d =
     acquired v (sql v 0 (\<lambda>m. TestCaseRepoError (''test_case_repo::delete_for_problem: '' @ m))
       (length (filter (\<lambda>t. sc_problem_id t = pid) (pd_cases d)),
        d\<lparr>pd_cases := filter (\<lambda>t. sc_problem_id t \<noteq> pid) (pd_cases d)\<rparr>))"

text \<open>The row an element of \<^verbatim>\<open>replace_for_problem\<close> becomes.\<close>

definition case_of_row :: "int \<Rightarrow> bool \<Rightarrow> SampleCaseRow \<Rightarrow> test_case" where
  "case_of_row pid is_sample r =
     \<lparr>sc_id = 0, sc_problem_id = pid, sc_input = sc_input r, sc_expected_output = sc_expected_output r,
      sc_judge_type = sc_judge_type r, sc_order_num = sc_order_num r, tr_is_sample = is_sample,
      tr_float_epsilon = (if sc_judge_type r = ''float_eps'' then Some (1 / 100000000) else None)\<rparr>"

text \<open>The \<^verbatim>\<open>INSERT\<close>s of the transaction from statement \<open>k\<close> on; with an error, the tables as far as they got.\<close>

fun insert_rows :: "fk_env \<Rightarrow> nat \<Rightarrow> test_case list \<Rightarrow> problem_db \<Rightarrow> string option \<times> problem_db" where
  "insert_rows v k [] d = (None, d)"
| "insert_rows v k (t # ts) d =
     (case (case dv_fault v k of Some m \<Rightarrow> Inl m | None \<Rightarrow> insert_case_row v t d) of
        Inl m \<Rightarrow> (Some m, d)
      | Inr d' \<Rightarrow> insert_rows v (Suc k) ts d')"

text \<open>
  Statement 0 starts the transaction, 1 deletes, then the inserts, the last one commits. A rollback
  restores the rows; the ids that were given out stay used up. A statement that reports an error has had no effect: a
  commit that took effect although its answer was lost, and a failing rollback (which the source swallows; the
  server rolls back when the session ends), both count as rolled back.
\<close>

definition replace_for_problem ::
    "fk_env \<Rightarrow> int \<Rightarrow> SampleCaseRow list \<Rightarrow> bool \<Rightarrow> problem_db \<Rightarrow> (problem_error + unit) \<times> problem_db" where
  "replace_for_problem v pid rs is_sample d =
     (let fail = (\<lambda>m d'. (Inl (TestCaseRepoError (''test_case_repo::replace_for_problem: '' @ m)),
                          d\<lparr>pd_case_next := pd_case_next d'\<rparr>)) in
      case dv_acquire v of
        Some m \<Rightarrow> (Inl (ProblemPoolError m), d)
      | None \<Rightarrow>
      case dv_fault v 0 of
        Some m \<Rightarrow> fail m d
      | None \<Rightarrow>
      case dv_fault v 1 of
        Some m \<Rightarrow> fail m d
      | None \<Rightarrow>
      let d1 = d\<lparr>pd_cases := filter (\<lambda>t. \<not> (sc_problem_id t = pid \<and> tr_is_sample t = is_sample)) (pd_cases d)\<rparr> in
      case insert_rows v 2 (map (case_of_row pid is_sample) rs) d1 of
        (Some m, d2) \<Rightarrow> fail m d2
      | (None, d2) \<Rightarrow>
          (case dv_fault v (2 + length rs) of
             Some m \<Rightarrow> fail m d2
           | None \<Rightarrow> (Inr (), d2)))"

section \<open>Special judges\<close>

definition kSpjLanguageCxx :: string where "kSpjLanguageCxx = ''cpp''"
definition kMinSpjSourceLen :: nat where "kMinSpjSourceLen = 1"
definition kMaxSpjSourceLen :: nat where "kMaxSpjSourceLen = 16 * 1024 * 1024"

definition validate_spj_source :: "string \<Rightarrow> string + unit" where
  "validate_spj_source s =
     (if length s < kMinSpjSourceLen \<or> length s > kMaxSpjSourceLen then
        Inl (''special judge source length must be between '' @ to_string (int kMinSpjSourceLen) @ '' and ''
             @ to_string (int kMaxSpjSourceLen) @ '' bytes'')
      else Inr ())"

definition validate_spj_language :: "string \<Rightarrow> string + unit" where
  "validate_spj_language lang =
     (if lang \<noteq> kSpjLanguageCxx then
        Inl (''special judge language must be '' @ [quote] @ kSpjLanguageCxx @ [quote]
             @ '' (the litecode-judge image is C++-only today)'')
      else Inr ())"

definition find_judge :: "'e db_env_scheme \<Rightarrow> int \<Rightarrow> problem_db \<Rightarrow> problem_error + SpecialJudgeRow option" where
  "find_judge v pid d =
     acquired v (sql v 0 (\<lambda>m. SpecialJudgeRepoError (''special_judge_repo::find_by_problem_id: '' @ m))
       (List.find (\<lambda>j. sj_problem_id j = pid) (pd_judges d)))"

definition judge_exists :: "'e db_env_scheme \<Rightarrow> int \<Rightarrow> problem_db \<Rightarrow> problem_error + bool" where
  "judge_exists v pid d =
     acquired v (sql v 0 (\<lambda>m. SpecialJudgeRepoError (''special_judge_repo::exists_for_problem: '' @ m))
       (\<exists>j \<in> set (pd_judges d). sj_problem_id j = pid))"

definition upsert_judge_row :: "fk_env \<Rightarrow> int \<Rightarrow> string \<Rightarrow> string \<Rightarrow> problem_db \<Rightarrow> string + problem_db" where
  "upsert_judge_row v pid source language d =
     (if \<forall>p \<in> set (pd_problems d). p_id p \<noteq> pid then Inl (fv_foreign_key v)
      else if \<exists>j \<in> set (pd_judges d). sj_problem_id j = pid then
        Inr (d\<lparr>pd_judges := map (\<lambda>j. if sj_problem_id j = pid
               then j\<lparr>sj_source := source, sj_language := language, sj_updated_at := dv_now v\<rparr> else j) (pd_judges d)\<rparr>)
      else Inr (d\<lparr>pd_judges := pd_judges d @ [\<lparr>sj_problem_id = pid, sj_source = source, sj_language = language,
                                              sj_created_at = dv_now v, sj_updated_at = dv_now v\<rparr>]\<rparr>))"

definition upsert_judge ::
    "fk_env \<Rightarrow> int \<Rightarrow> string \<Rightarrow> string \<Rightarrow> problem_db \<Rightarrow> problem_error + bool \<times> problem_db" where
  "upsert_judge v pid source language d =
     (if pid \<le> 0 then Inl (SpecialJudgeRepoError ''upsert: problem_id must be > 0'')
      else case validate_spj_source source of
        Inl err \<Rightarrow> Inl (SpecialJudgeRepoError (''upsert: '' @ err))
      | Inr _ \<Rightarrow>
      case validate_spj_language language of
        Inl err \<Rightarrow> Inl (SpecialJudgeRepoError (''upsert: '' @ err))
      | Inr _ \<Rightarrow>
          acquired v
            (case (case dv_fault v 0 of Some m \<Rightarrow> Inl m | None \<Rightarrow> upsert_judge_row v pid source language d) of
               Inr d' \<Rightarrow> Inr (True, d')
             | Inl what \<Rightarrow>
                 Inl (SpecialJudgeRepoError
                        (if contains_str ''foreign key'' what \<or> contains_str ''FOREIGN KEY'' what \<or> contains_str ''1452'' what
                         then ''upsert: problem_id does not exist (FK violation)''
                         else ''special_judge_repo::upsert: '' @ what))))"

definition remove_judge :: "'e db_env_scheme \<Rightarrow> int \<Rightarrow> problem_db \<Rightarrow> problem_error + bool \<times> problem_db" where
  "remove_judge v pid d =
     (if pid \<le> 0 then Inl (SpecialJudgeRepoError ''remove_by_problem_id: problem_id must be > 0'')
      else acquired v (sql v 0 (\<lambda>m. SpecialJudgeRepoError (''special_judge_repo::remove_by_problem_id: '' @ m))
             (\<exists>j \<in> set (pd_judges d). sj_problem_id j = pid,
              d\<lparr>pd_judges := filter (\<lambda>j. sj_problem_id j \<noteq> pid) (pd_judges d)\<rparr>)))"

section \<open>Sequences of operations\<close>

datatype problem_op =
    CreateProblem ProblemRow
  | UpdateProblem string ProblemRow
  | DeleteProblem string
  | RestoreProblem string
  | UpsertProblem ProblemRow
  | InsertCase int string string bool string int "rat option"
  | DeleteCases int
  | ReplaceCases int "SampleCaseRow list" bool
  | UpsertJudge int string string
  | RemoveJudge int

definition tables_after :: "problem_error + 'a \<times> problem_db \<Rightarrow> problem_db \<Rightarrow> problem_db" where
  "tables_after r d = (case r of Inl _ \<Rightarrow> d | Inr (_, d') \<Rightarrow> d')"

fun run_problem_op :: "fk_env \<times> problem_op \<Rightarrow> problem_db \<Rightarrow> problem_db" where
  "run_problem_op (v, CreateProblem r) d = tables_after (create_problem v r d) d"
| "run_problem_op (v, UpdateProblem s r) d = tables_after (update_problem v s r d) d"
| "run_problem_op (v, DeleteProblem s) d = tables_after (soft_delete v s d) d"
| "run_problem_op (v, RestoreProblem s) d = tables_after (restore v s d) d"
| "run_problem_op (v, UpsertProblem r) d = snd (upsert_problem v r d)"
| "run_problem_op (v, InsertCase i a b c e k x) d = tables_after (insert_case v i a b c e k x d) d"
| "run_problem_op (v, DeleteCases i) d = tables_after (delete_for_problem v i d) d"
| "run_problem_op (v, ReplaceCases i rs b) d = snd (replace_for_problem v i rs b d)"
| "run_problem_op (v, UpsertJudge i a b) d = tables_after (upsert_judge v i a b d) d"
| "run_problem_op (v, RemoveJudge i) d = tables_after (remove_judge v i d) d"

section \<open>The keys of the tables\<close>

definition slugs_ok :: "(string \<Rightarrow> string \<Rightarrow> bool) \<Rightarrow> int \<Rightarrow> ProblemRow list \<Rightarrow> bool" where
  "slugs_ok eq nxt ps \<longleftrightarrow> distinct (map p_id ps) \<and> (\<forall>p \<in> set ps. p_id p < nxt)
     \<and> (\<forall>p \<in> set ps. \<forall>q \<in> set ps. p_id p \<noteq> p_id q \<longrightarrow> \<not> eq (p_slug p) (p_slug q))"

definition cases_ok :: "int list \<Rightarrow> int \<Rightarrow> test_case list \<Rightarrow> bool" where
  "cases_ok ids nxt ts \<longleftrightarrow> distinct (map sc_id ts) \<and> (\<forall>t \<in> set ts. sc_id t < nxt \<and> sc_problem_id t \<in> set ids)"

definition problems_ok :: "(string \<Rightarrow> string \<Rightarrow> bool) \<Rightarrow> problem_db \<Rightarrow> bool" where
  "problems_ok eq d \<longleftrightarrow> slugs_ok eq (pd_next d) (pd_problems d)
     \<and> cases_ok (map p_id (pd_problems d)) (pd_case_next d) (pd_cases d)
     \<and> distinct (map sj_problem_id (pd_judges d))
     \<and> (\<forall>j \<in> set (pd_judges d). sj_problem_id j \<in> p_id ` set (pd_problems d))"

lemma slugs_ok_add:
  assumes "slugs_ok eq n ps" and "p_id p = n" and "collation eq" and "\<forall>q \<in> set ps. \<not> eq (p_slug q) (p_slug p)"
  shows "slugs_ok eq (n + 1) (ps @ [p])"
  using assms collation_sym [OF assms(3)] by (fastforce simp: slugs_ok_def)

lemma slugs_ok_map:
  assumes "slugs_ok eq n ps" and "\<And>p. p_id (g p) = p_id p"
    and "\<And>p q. p \<in> set ps \<Longrightarrow> q \<in> set ps \<Longrightarrow> p_id p \<noteq> p_id q \<Longrightarrow> \<not> eq (p_slug (g p)) (p_slug (g q))"
  shows "slugs_ok eq n (map g ps)"
  using assms by (auto simp: slugs_ok_def comp_def)

lemma slugs_ok_same:
  "slugs_ok eq n ps \<Longrightarrow> (\<And>p. p_id (g p) = p_id p) \<Longrightarrow> (\<And>p. p_slug (g p) = p_slug p) \<Longrightarrow> slugs_ok eq n (map g ps)"
  by (rule slugs_ok_map) (auto simp: slugs_ok_def)

lemma touched_simps [simp]:
  "p_id (touched v g p) = p_id (g p)" "p_slug (touched v g p) = p_slug (g p)"
  "p_is_deleted (touched v g p) = p_is_deleted (g p)"
  by (simp_all add: touched_def)

lemma patched_simps [simp]: "p_id (patched q p) = p_id p" "p_slug (patched q p) = p_slug q"
  by (simp_all add: patched_def)

lemma problems_ok_problems:
  assumes "problems_ok eq d" and "slugs_ok eq n ps" and "map p_id (pd_problems d) @ xs = map p_id ps"
  shows "problems_ok eq (d\<lparr>pd_problems := ps, pd_next := n\<rparr>)"
proof -
  have "set (map p_id (pd_problems d)) \<subseteq> set (map p_id ps)" using assms(3) [symmetric] by simp
  then show ?thesis using assms(1,2) by (auto simp: problems_ok_def cases_ok_def)
qed

lemma problems_ok_update:
  assumes "problems_ok eq d" and "slugs_ok eq (pd_next d) (map g (pd_problems d))" and "\<And>p. p_id (g p) = p_id p"
  shows "problems_ok eq (d\<lparr>pd_problems := map g (pd_problems d)\<rparr>)"
  using problems_ok_problems [OF assms(1,2), of "[]"] assms(3) by (simp add: comp_def)

lemma problems_ok_touch:
  assumes "problems_ok eq d" and "\<And>p. p_id (g p) = p_id p" and "\<And>p. p_slug (g p) = p_slug p"
  shows "problems_ok eq (snd (update_problems v P g d))"
  unfolding update_problems_def snd_conv using assms(1)
  by (rule problems_ok_update) (use assms in \<open>auto intro!: slugs_ok_same simp: problems_ok_def\<close>)

lemma problems_ok_create:
  assumes "problems_ok (dv_eq v) d" and "collation (dv_eq v)"
  shows "problems_ok (dv_eq v) (tables_after (create_problem v r d) d)"
proof -
  have "problems_ok (dv_eq v) (d\<lparr>pd_problems := pd_problems d @ [new_problem v (pd_next d) q], pd_next := pd_next d + 1\<rparr>)"
    if "\<not> slug_taken v (p_slug q) d" for q
    using assms(1) that assms(2)
    by (intro problems_ok_problems [where xs = "[pd_next d]"] slugs_ok_add) (auto simp: problems_ok_def slug_taken_def new_problem_def)
  then show ?thesis
    using assms(1)
    by (auto simp: tables_after_def create_problem_def acquired_def Let_def split: sum.splits option.splits if_splits prod.splits)
qed

lemma problems_ok_upsert:
  assumes "problems_ok (dv_eq v) d" and "collation (dv_eq v)"
  shows "problems_ok (dv_eq v) (snd (upsert_problem v r d))"
proof -
  let ?q = "effective_limits r"
  have "problems_ok (dv_eq v) (snd (upsert_row v ?q d))"
  proof (cases "List.find (\<lambda>p. dv_eq v (p_slug p) (p_slug ?q)) (pd_problems d)")
    case None
    then have "\<forall>p \<in> set (pd_problems d). \<not> dv_eq v (p_slug p) (p_slug ?q)" by (simp add: find_None_iff)
    then have "problems_ok (dv_eq v) (d\<lparr>pd_problems := pd_problems d @ [new_problem v (pd_next d) ?q], pd_next := pd_next d + 1\<rparr>)"
      using assms
      by (intro problems_ok_problems [where xs = "[pd_next d]"] slugs_ok_add) (auto simp: problems_ok_def new_problem_def)
    then show ?thesis using None by (simp add: upsert_row_def)
  next
    case (Some p)
    let ?g = "\<lambda>q. if q = p then (patched ?q p)\<lparr>p_slug := p_slug p, p_is_deleted := False, p_updated_at := dv_now v\<rparr> else q"
    have "problems_ok (dv_eq v) (d\<lparr>pd_problems := map ?g (pd_problems d)\<rparr>)"
      using assms(1) by (rule problems_ok_update) (use assms(1) in \<open>auto intro!: slugs_ok_same simp: problems_ok_def\<close>)
    then show ?thesis using Some by (simp add: upsert_row_def Let_def)
  qed
  then show ?thesis
    using assms(1)
    by (auto simp: upsert_problem_def acquired_def sql_def Let_def split: sum.splits option.splits prod.splits)
qed

lemma problems_ok_patch:
  assumes "problems_ok (dv_eq v) d" and "collation (dv_eq v)"
  shows "problems_ok (dv_eq v) (tables_after (update_problem v s patch d) d)"
proof -
  let ?live = "\<lambda>p. dv_eq v (p_slug p) s \<and> \<not> p_is_deleted p"
  have "problems_ok (dv_eq v) (snd (update_problems v ?live (patched patch) d))"
    if free: "\<not> (\<exists>p \<in> set (pd_problems d). ?live p
       \<and> (\<exists>q \<in> set (pd_problems d). p_id q \<noteq> p_id p \<and> dv_eq v (p_slug q) (p_slug patch)))"
  proof -
    let ?g = "\<lambda>p. if ?live p then touched v (patched patch) p else p"
    have apart: "\<not> dv_eq v (p_slug p) (p_slug q)" if "p \<in> set (pd_problems d)" "q \<in> set (pd_problems d)" "p_id p \<noteq> p_id q" for p q
      using assms(1) that by (auto simp: problems_ok_def slugs_ok_def)
    have "\<not> dv_eq v (p_slug (?g p)) (p_slug (?g q))"
      if "p \<in> set (pd_problems d)" "q \<in> set (pd_problems d)" "p_id p \<noteq> p_id q" for p q
    proof -
      have "\<not> (?live p \<and> ?live q)"
        using apart [OF that] collation_sym [OF assms(2)] collation_trans [OF assms(2)] by blast
      moreover have "\<not> dv_eq v (p_slug q) (p_slug patch)" if "?live p" using free \<open>p \<in> _\<close> \<open>q \<in> _\<close> \<open>p_id p \<noteq> _\<close> that by metis
      moreover have "\<not> dv_eq v (p_slug p) (p_slug patch)" if "?live q" using free \<open>p \<in> _\<close> \<open>q \<in> _\<close> \<open>p_id p \<noteq> _\<close> that by metis
      ultimately show ?thesis
        using apart [OF that] collation_sym [OF assms(2), of "p_slug patch" "p_slug q"] by (simp split: if_split) blast
    qed
    then have "slugs_ok (dv_eq v) (pd_next d) (map ?g (pd_problems d))"
      using assms(1) by (intro slugs_ok_map) (auto simp: problems_ok_def)
    then have "problems_ok (dv_eq v) (d\<lparr>pd_problems := map ?g (pd_problems d)\<rparr>)"
      using assms(1) by (intro problems_ok_update) auto
    then show ?thesis by (simp add: update_problems_def)
  qed
  then show ?thesis
    using assms(1)
    by (auto simp: tables_after_def update_problem_def acquired_def sql_def Let_def
        split: sum.splits option.splits if_splits prod.splits bool.splits)
qed

lemma problems_ok_insert_rows:
  "problems_ok eq d \<Longrightarrow> problems_ok eq (snd (insert_rows v k ts d)) \<and> pd_case_next d \<le> pd_case_next (snd (insert_rows v k ts d))"
proof (induction ts arbitrary: k d)
  case (Cons t ts)
  show ?case
  proof (cases "case dv_fault v k of Some m \<Rightarrow> Inl m | None \<Rightarrow> insert_case_row v t d")
    case (Inl m)
    then show ?thesis using Cons.prems by simp
  next
    case (Inr d')
    then have d': "d' = d\<lparr>pd_cases := pd_cases d @ [t\<lparr>sc_id := pd_case_next d\<rparr>], pd_case_next := pd_case_next d + 1\<rparr>"
      "sc_problem_id t \<in> p_id ` set (pd_problems d)"
      by (auto simp: insert_case_row_def intro: rev_image_eqI split: option.splits if_splits)
    have "problems_ok eq d'" using Cons.prems d'(2) unfolding d'(1) by (fastforce simp: problems_ok_def cases_ok_def)
    then show ?thesis using Cons.IH [of d' "Suc k"] Inr d'(1) by simp
  qed
qed simp

lemma problems_ok_filter_cases:
  "problems_ok eq d \<Longrightarrow> problems_ok eq (d\<lparr>pd_cases := filter P (pd_cases d)\<rparr>)"
  by (auto simp: problems_ok_def cases_ok_def distinct_map_filter)

lemma problems_ok_case_next:
  "problems_ok eq d \<Longrightarrow> pd_case_next d \<le> n \<Longrightarrow> problems_ok eq (d\<lparr>pd_case_next := n\<rparr>)"
  by (fastforce simp: problems_ok_def cases_ok_def)

lemma problems_ok_replace:
  assumes "problems_ok eq d"
  shows "problems_ok eq (snd (replace_for_problem v pid rs b d))"
proof -
  let ?d1 = "d\<lparr>pd_cases := filter (\<lambda>t. \<not> (sc_problem_id t = pid \<and> tr_is_sample t = b)) (pd_cases d)\<rparr>"
  obtain m d2 where i: "insert_rows v 2 (map (case_of_row pid b) rs) ?d1 = (m, d2)" by fastforce
  have "problems_ok eq d2 \<and> pd_case_next d \<le> pd_case_next d2"
    using problems_ok_insert_rows [OF problems_ok_filter_cases [OF assms], of v 2 "map (case_of_row pid b) rs"] i by (metis (no_types, lifting) problem_db.select_convs(4) problem_db.surjective problem_db.update_convs(3) snd_conv)
  then show ?thesis
    using assms i problems_ok_case_next [OF assms, of "pd_case_next d"] problems_ok_case_next [OF assms, of "pd_case_next d2"]
    by (auto simp: replace_for_problem_def Let_def split: option.splits)
qed

lemma problems_ok_upsert_judge:
  assumes "problems_ok eq d"
  shows "problems_ok eq (tables_after (upsert_judge v i a b d) d)"
proof -
  have "problems_ok eq d'" if "upsert_judge_row v i a b d = Inr d'" for d'
    using assms that
    by (auto simp: upsert_judge_row_def problems_ok_def comp_def if_distrib [of sj_problem_id] split: if_splits cong: if_cong) blast
  then show ?thesis
    using assms by (auto simp: tables_after_def upsert_judge_def acquired_def split: sum.splits option.splits if_splits)
qed

lemma problems_ok_filter_judges:
  "problems_ok eq d \<Longrightarrow> problems_ok eq (d\<lparr>pd_judges := filter P (pd_judges d)\<rparr>)"
  by (auto simp: problems_ok_def distinct_map_filter)

lemma problems_ok_flags:
  assumes "problems_ok eq d"
  shows "problems_ok eq (tables_after (soft_delete v s d) d)" "problems_ok eq (tables_after (restore v s d) d)"
    "problems_ok eq (tables_after (delete_for_problem v i d) d)" "problems_ok eq (tables_after (remove_judge v i d) d)"
proof -
  have t: "problems_ok eq (snd (update_problems v P (\<lambda>p. p\<lparr>p_is_deleted := b\<rparr>) d))" for P b
    using assms by (rule problems_ok_touch) simp_all
  show "problems_ok eq (tables_after (soft_delete v s d) d)" "problems_ok eq (tables_after (restore v s d) d)"
    using assms t by (simp_all add: tables_after_def soft_delete_def restore_def acquired_def sql_def case_prod_beta split: option.splits)
  show "problems_ok eq (tables_after (delete_for_problem v i d) d)" "problems_ok eq (tables_after (remove_judge v i d) d)"
    using assms problems_ok_filter_cases [OF assms] problems_ok_filter_judges [OF assms]
    by (simp_all add: tables_after_def delete_for_problem_def remove_judge_def acquired_def sql_def split: option.splits)
qed

lemma problems_ok_insert_case:
  assumes "problems_ok eq d"
  shows "problems_ok eq (tables_after (insert_case v i a b c e k y d) d)"
proof -
  have "problems_ok eq d'" if "insert_case_row v t d = Inr d'" for d' t
    using problems_ok_insert_rows [OF assms, of "v\<lparr>dv_fault := \<lambda>_. None\<rparr>" 0 "[t]"] that by (simp add: insert_case_row_def split: if_splits)
  then show ?thesis
    using assms by (auto simp: tables_after_def insert_case_def acquired_def Let_def split: option.splits sum.splits)
qed

lemma problems_ok_op:
  assumes "problems_ok (dv_eq v) d" and "collation (dv_eq v)"
  shows "problems_ok (dv_eq v) (run_problem_op (v, x) d)"
  using assms
  by (cases x) (simp_all add: problems_ok_create problems_ok_upsert problems_ok_patch problems_ok_replace
      problems_ok_upsert_judge problems_ok_flags problems_ok_insert_case)

section \<open>Properties\<close>

text \<open>
  The keys of the schema hold in every state the operations reach, so that the theorems below can assume them.
\<close>

lemma problems_ok_run:
  assumes "collation eq" and "\<forall>(v, x) \<in> set xs. dv_eq v = eq" and "problems_ok eq d"
  shows "problems_ok eq (fold run_problem_op xs d)"
  using assms(2,3)
proof (induction xs arbitrary: d)
  case (Cons y ys)
  obtain v x where y: "y = (v, x)" by (cases y)
  then have "problems_ok eq (run_problem_op y d)" using problems_ok_op [of v d x] Cons.prems assms(1) by simp
  then show ?case using Cons.IH Cons.prems(1) by simp
qed simp

definition fk_demo_env :: fk_env where
  "fk_demo_env = \<lparr>dv_eq = no_case, dv_char_eq = (\<lambda>a b. tolower a = tolower b), dv_now = ''2024-01-02 03:04:05'',
     dv_count_matched = False, dv_duplicate = ''Duplicate entry'', dv_acquire = None, dv_fault = (\<lambda>_. None),
     fv_foreign_key = ''a foreign key constraint fails''\<rparr>"

definition demo_problem :: "string \<Rightarrow> ProblemRow" where
  "demo_problem s = \<lparr>p_id = 0, p_slug = s, p_title = ''Sum'', p_difficulty = ''easy'', p_description = [], p_template = [],
     p_time_limit = 0, p_memory_limit = 0, p_accepted_count = 0, p_submission_count = 0, p_is_deleted = False,
     p_created_at = [], p_updated_at = []\<rparr>"

definition demo_case :: "string \<Rightarrow> int \<Rightarrow> SampleCaseRow" where
  "demo_case inp k = \<lparr>sc_id = 0, sc_problem_id = 0, sc_input = inp, sc_expected_output = ''3'', sc_judge_type = ''exact'', sc_order_num = k\<rparr>"

definition no_problems :: problem_db where
  "no_problems = \<lparr>pd_problems = [], pd_next = 1, pd_cases = [], pd_case_next = 1, pd_judges = [], pd_problem_tags = []\<rparr>"

lemma sort_key_map: "sort_key f (map g xs) = map g (sort_key (\<lambda>x. f (g x)) xs)"
proof -
  have "insort_key f (g x) (map g ys) = map g (insort_key (\<lambda>x. f (g x)) x ys)" for x ys by (induction ys) auto
  then show ?thesis by (induction xs) auto
qed

lemma insert_rows_None:
  assumes "insert_rows v k ts d = (None, d')"
  shows "\<exists>new. d' = d\<lparr>pd_cases := pd_cases d @ new, pd_case_next := pd_case_next d + int (length ts)\<rparr>
    \<and> map (\<lambda>t. t\<lparr>sc_id := 0\<rparr>) new = map (\<lambda>t. t\<lparr>sc_id := 0\<rparr>) ts
    \<and> sorted (map sc_id new) \<and> (\<forall>t \<in> set new. pd_case_next d \<le> sc_id t)"
  using assms
proof (induction ts arbitrary: k d)
  case (Cons t ts)
  let ?d1 = "d\<lparr>pd_cases := pd_cases d @ [t\<lparr>sc_id := pd_case_next d\<rparr>], pd_case_next := pd_case_next d + 1\<rparr>"
  have "insert_rows v (Suc k) ts ?d1 = (None, d')"
    using Cons.prems by (auto simp: insert_case_row_def split: option.splits if_splits)
  from Cons.IH [OF this] obtain new where new: "d' = ?d1\<lparr>pd_cases := pd_cases ?d1 @ new, pd_case_next := pd_case_next ?d1 + int (length ts)\<rparr>"
    "map (\<lambda>t. t\<lparr>sc_id := 0\<rparr>) new = map (\<lambda>t. t\<lparr>sc_id := 0\<rparr>) ts" "sorted (map sc_id new)"
    "\<forall>t \<in> set new. pd_case_next ?d1 \<le> sc_id t" by blast
  then show ?case
    by (intro exI [of _ "t\<lparr>sc_id := pd_case_next d\<rparr> # new"]) fastforce
qed auto

text \<open>What a reader of the test cases sees of a row besides its id.\<close>

definition case_content :: "SampleCaseRow \<Rightarrow> string \<times> string \<times> string \<times> int" where
  "case_content r = (sc_input r, sc_expected_output r, sc_judge_type r, sc_order_num r)"

lemma content_of_new:
  assumes "map (\<lambda>t. t\<lparr>sc_id := 0\<rparr>) new = map (\<lambda>t. t\<lparr>sc_id := 0\<rparr>) (map (case_of_row pid b) rs)"
  shows "map (\<lambda>t. case_content (row_to_sample t)) new = map case_content rs"
    and "\<forall>t \<in> set new. sc_problem_id t = pid \<and> tr_is_sample t = b"
proof -
  have "map (\<lambda>t. case_content (row_to_sample t)) (map (\<lambda>t. t\<lparr>sc_id := 0\<rparr>) new)
      = map (\<lambda>t. case_content (row_to_sample t)) (map (\<lambda>t. t\<lparr>sc_id := 0\<rparr>) (map (case_of_row pid b) rs))"
    unfolding assms ..
  then show "map (\<lambda>t. case_content (row_to_sample t)) new = map case_content rs"
    by (simp add: comp_def case_content_def row_to_sample_def case_of_row_def)
  have "(\<lambda>t. (sc_problem_id t, tr_is_sample t)) ` set (map (\<lambda>t. t\<lparr>sc_id := 0\<rparr>) new) \<subseteq> {(pid, b)}"
    unfolding assms by (auto simp: case_of_row_def)
  then show "\<forall>t \<in> set new. sc_problem_id t = pid \<and> tr_is_sample t = b" by (simp add: image_subset_iff)
qed

text \<open>
  C28. Replacing the test cases of a problem is all or nothing, and faithful: if it succeeds, the queries
  for that problem and that kind return exactly the given cases, ordered by their order number (given
  order among equal ones), and the queries for any other problem or kind return what they returned
  before; if it fails at any statement, no test case has changed.
\<close>

theorem replace_cases_atomic:
  assumes "replace_for_problem v pid rs b d = (r, d')" and "dv_acquire w = None" and "dv_fault w 0 = None"
  shows "case r of
      Inl _ \<Rightarrow> pd_cases d' = pd_cases d
    | Inr _ \<Rightarrow> (\<exists>xs. list_for_problem w pid (Some b) d' = Inr xs
                 \<and> map case_content xs = map case_content (sort_key sc_order_num rs))
           \<and> (\<forall>i c. i \<noteq> pid \<or> c \<noteq> b \<longrightarrow> list_for_problem w i (Some c) d' = list_for_problem w i (Some c) d)"
proof (cases r)
  case (Inl e)
  then show ?thesis
    using assms(1) by (auto simp: replace_for_problem_def Let_def split: option.splits prod.splits)
next
  case (Inr u)
  let ?d1 = "d\<lparr>pd_cases := filter (\<lambda>t. \<not> (sc_problem_id t = pid \<and> tr_is_sample t = b)) (pd_cases d)\<rparr>"
  have "insert_rows v 2 (map (case_of_row pid b) rs) ?d1 = (None, d')"
    using assms(1) Inr by (auto simp: replace_for_problem_def Let_def split: option.splits prod.splits)
  from insert_rows_None [OF this] obtain new where new: "pd_cases d' = pd_cases ?d1 @ new"
    "map (\<lambda>t. t\<lparr>sc_id := 0\<rparr>) new = map (\<lambda>t. t\<lparr>sc_id := 0\<rparr>) (map (case_of_row pid b) rs)" "sorted (map sc_id new)" by auto
  note c = content_of_new [OF new(2)]
  have mine: "filter (\<lambda>t. sc_problem_id t = pid \<and> tr_is_sample t = b) (pd_cases d') = new"
    using c(2) by (auto simp: new(1) filter_id_conv filter_empty_conv)
  have other: "filter (\<lambda>t. sc_problem_id t = i \<and> tr_is_sample t = e) (pd_cases d')
      = filter (\<lambda>t. sc_problem_id t = i \<and> tr_is_sample t = e) (pd_cases d)" if "i \<noteq> pid \<or> e \<noteq> b" for i e
    using c(2) that by (auto simp: new(1) filter_empty_conv intro!: filter_cong)
  have "map case_content (map row_to_sample (sort_key sc_order_num new)) = map case_content (sort_key sc_order_num rs)"
  proof -
    have k: "sc_order_num (row_to_sample t) = sc_order_num t" for t by (simp add: row_to_sample_def)
    have k': "sc_order_num x = snd (snd (snd (case_content x)))" for x :: SampleCaseRow by (simp add: case_content_def)
    have "map (\<lambda>t. case_content (row_to_sample t)) (sort_key (\<lambda>t. snd (snd (snd (case_content (row_to_sample t))))) new)
        = map case_content (sort_key (\<lambda>x. snd (snd (snd (case_content x)))) rs)"
      using arg_cong [OF c(1), of "sort_key (\<lambda>p. snd (snd (snd p)))"] by (simp add: sort_key_map)
    then show ?thesis unfolding k' [symmetric] k by (simp add: comp_def)
  qed
  moreover have "list_for_problem w pid (Some b) d' = Inr (map row_to_sample (sort_key sc_order_num new))"
    using assms(2,3) mine new(3) by (simp add: list_for_problem_def acquired_def sql_def in_order_def sort_key_id_if_sorted)
  moreover have "list_for_problem w i (Some e) d' = list_for_problem w i (Some e) d" if "i \<noteq> pid \<or> e \<noteq> b" for i e
    using other [OF that] by (simp add: list_for_problem_def)
  ultimately show ?thesis using Inr by auto
qed

definition one_problem :: problem_db where
  "one_problem = no_problems\<lparr>pd_problems := [(demo_problem ''sum'')\<lparr>p_id := 1\<rparr>], pd_next := 2,
     pd_cases := [(case_of_row 1 True (demo_case ''9 9'' 0))\<lparr>sc_id := 1\<rparr>, (case_of_row 1 False (demo_case ''8 8'' 0))\<lparr>sc_id := 2\<rparr>],
     pd_case_next := 3\<rparr>"

theorem replace_cases_atomic_witness:
  "let (r, d') = replace_for_problem fk_demo_env 1 [demo_case ''1 2'' 1, demo_case ''0 3'' 0] False one_problem
   in r = Inr ()
      \<and> (\<exists>xs. list_for_problem fk_demo_env 1 (Some False) d' = Inr xs \<and> map sc_input xs = [''0 3'', ''1 2''])
      \<and> list_for_problem fk_demo_env 1 (Some True) d' = list_for_problem fk_demo_env 1 (Some True) one_problem"
proof -
  let ?r = "replace_for_problem fk_demo_env 1 [demo_case ''1 2'' 1, demo_case ''0 3'' 0] False one_problem"
  let ?d = "snd ?r"
  have f: "fst ?r = Inr ()" by code_simp
  then have r: "?r = (Inr (), ?d)" by (simp add: prod_eq_iff)
  have "\<exists>xs. list_for_problem fk_demo_env 1 (Some False) ?d = Inr xs
      \<and> map case_content xs = map case_content (sort_key sc_order_num [demo_case ''1 2'' 1, demo_case ''0 3'' 0])"
    and o: "list_for_problem fk_demo_env 1 (Some True) ?d = list_for_problem fk_demo_env 1 (Some True) one_problem"
    using replace_cases_atomic [OF r, of fk_demo_env] by (simp_all add: fk_demo_env_def)
  then obtain xs where xs: "list_for_problem fk_demo_env 1 (Some False) ?d = Inr xs"
    "map case_content xs = map case_content [demo_case ''0 3'' 0, demo_case ''1 2'' 1]" by (auto simp: demo_case_def)
  have "map fst (map case_content xs) = [''0 3'', ''1 2'']" unfolding xs(2) by (simp add: case_content_def demo_case_def)
  then have "map sc_input xs = [''0 3'', ''1 2'']" by (simp add: comp_def case_content_def)
  then show ?thesis using f o xs(1) by (simp add: split_beta Let_def)
qed

section \<open>Counts\<close>

text \<open>
  The counts of a problem follow the verdicts: after a statement that stored the verdict of a
  submission, the number of judged submissions of its problem is one higher, the number of accepted
  ones is one higher exactly when the verdict is \<^verbatim>\<open>ac\<close>, and the counts of every other problem are as
  before.
\<close>

theorem verdict_counts:
  assumes "table_ok t" and "mark_finished fault now i st tm mem err t = Inr (True, t')"
  shows "\<exists>s \<in> set (rows t). sub_id s = i
    \<and> p_submission_count (row_to_problem t' p)
        = p_submission_count (row_to_problem t p) + (if p_id p = sub_problem_id s then 1 else 0)
    \<and> p_accepted_count (row_to_problem t' p)
        = p_accepted_count (row_to_problem t p) + (if p_id p = sub_problem_id s \<and> st = ''ac'' then 1 else 0)"
proof -
  let ?P = "\<lambda>r. sub_id r = i \<and> (sub_status r = ''pending'' \<or> sub_status r = ''running'')"
  let ?g = "\<lambda>r. r\<lparr>sub_status := st, sub_time_used := tm, sub_memory_used := mem,
                   sub_error_message := (if err = [] then None else Some err), sub_finished_at := Some now\<rparr>"
  have st: "is_terminal_status st" and t': "t' = t\<lparr>rows := map (\<lambda>r. if ?P r then ?g r else r) (rows t)\<rparr>"
    and ex: "filter ?P (rows t) \<noteq> []"
    using assms(2) by (auto simp: mark_finished_def sql_run_def update_where_def split: if_splits sql_fault.splits)
  then obtain s where s: "s \<in> set (rows t)" "?P s" by (auto simp: filter_empty_conv)
  then obtain xs ys where x: "rows t = xs @ s # ys" by (meson split_list)
  have "distinct (map sub_id (rows t))" using assms(1) by (simp add: table_ok_def)
  then have "\<forall>r \<in> set (xs @ ys). sub_id r \<noteq> i" using s(2) by (auto simp: x) (metis image_eqI)+
  then have "map (\<lambda>r. if ?P r then ?g r else r) xs = xs" "map (\<lambda>r. if ?P r then ?g r else r) ys = ys"
    by (auto intro!: map_idI)
  then have r: "rows t' = xs @ ?g s # ys" using s(2) by (simp add: t' x)
  show ?thesis
    using s st by (intro bexI [of _ s]) (auto simp: row_to_problem_def r x is_terminal_status_def)
qed

theorem verdict_counts_witness:
  "\<exists>t'. mark_finished NoFault 5 1 ''ac'' None None [] \<lparr>rows = [\<lparr>sub_id = 1, sub_user_id = 1, sub_problem_id = 7, sub_language = ''c'',
        sub_code = ''x'', sub_status = ''running'', sub_time_used = None, sub_memory_used = None, sub_error_message = None,
        sub_created_at = 0, sub_finished_at = None\<rparr>], auto_inc = 2\<rparr> = Inr (True, t')
    \<and> p_accepted_count (row_to_problem t' ((demo_problem ''sum'')\<lparr>p_id := 7\<rparr>)) = 1"
proof -
  let ?t = "\<lparr>rows = [\<lparr>sub_id = 1, sub_user_id = 1, sub_problem_id = 7, sub_language = ''c'',
        sub_code = ''x'', sub_status = ''running'', sub_time_used = None, sub_memory_used = None, sub_error_message = None,
        sub_created_at = 0, sub_finished_at = None\<rparr>], auto_inc = 2\<rparr>"
  obtain t' where m: "mark_finished NoFault 5 1 ''ac'' None None [] ?t = Inr (True, t')"
    by (simp add: mark_finished_def is_valid_status_def is_terminal_status_def sql_run_def update_where_def)
  have ok: "table_ok ?t" by (simp add: table_ok_def row_ok_def is_valid_status_def is_terminal_status_def)
  from verdict_counts [OF ok m, of "(demo_problem ''sum'')\<lparr>p_id := 7\<rparr>"] show ?thesis
    using m by (auto simp: row_to_problem_def)
qed

section \<open>Deleting and bringing back\<close>

definition calm_db :: "'e db_env_scheme \<Rightarrow> bool" where
  "calm_db v \<longleftrightarrow> collation (dv_eq v) \<and> dv_acquire v = None \<and> (\<forall>k. dv_fault v k = None) \<and> is_duplicate_error (dv_duplicate v)"

lemma calm_simps:
  "calm_db v \<Longrightarrow> acquired v x = x" "calm_db v \<Longrightarrow> sql v k f r = Inr r"
  by (simp_all add: calm_db_def acquired_def sql_def)

lemma find_slug:
  assumes "problems_ok eq d" and "collation eq" and "p \<in> set (pd_problems d)" and "eq (p_slug p) s"
  shows "List.find (\<lambda>q. eq (p_slug q) s \<and> R q) (pd_problems d) = (if R p then Some p else None)"
proof -
  have only: "q = p" if "q \<in> set (pd_problems d)" "eq (p_slug q) s" for q
  proof (rule ccontr)
    assume "q \<noteq> p"
    then have "p_id q \<noteq> p_id p" using assms(1,3) that(1) by (auto simp: problems_ok_def slugs_ok_def distinct_map inj_on_def)
    then have "\<not> eq (p_slug q) (p_slug p)" using assms(1,3) that(1) by (auto simp: problems_ok_def slugs_ok_def)
    then show False using that(2) assms(4) collation_sym [OF assms(2)] collation_trans [OF assms(2)] by blast
  qed
  show ?thesis
  proof (cases "R p")
    case True
    then obtain q where "List.find (\<lambda>q. eq (p_slug q) s \<and> R q) (pd_problems d) = Some q"
      using assms(3,4) by (metis find_None_iff option.exhaust)
    moreover from this have "q = p" using only by (auto simp: find_Some_iff)
    ultimately show ?thesis using True by simp
  next
    case False
    then show ?thesis using only by (auto simp: find_None_iff)
  qed
qed

text \<open>The row of a slug after the update of its flag.\<close>

lemma flag_update:
  assumes "problems_ok (dv_eq v) d" and "collation (dv_eq v)" and "p \<in> set (pd_problems d)" and "dv_eq v (p_slug p) s"
    and "p_is_deleted p \<noteq> b"
  defines "u \<equiv> update_problems v (\<lambda>q. dv_eq v (p_slug q) s \<and> p_is_deleted q = (\<not> b)) (\<lambda>q. q\<lparr>p_is_deleted := b\<rparr>) d"
  shows "fst u > 0" and "problems_ok (dv_eq v) (snd u)" and "p\<lparr>p_is_deleted := b, p_updated_at := dv_now v\<rparr> \<in> set (pd_problems (snd u))"
proof -
  have ne: "p\<lparr>p_is_deleted := b\<rparr> \<noteq> p"
    using assms(5) by (metis ProblemRow.select_convs(11) ProblemRow.surjective ProblemRow.update_convs(11))
  then have "p \<in> set (filter (\<lambda>q. (dv_eq v (p_slug q) s \<and> p_is_deleted q = (\<not> b)) \<and> (dv_count_matched v \<or> q\<lparr>p_is_deleted := b\<rparr> \<noteq> q)) (pd_problems d))"
    using assms(3-5) by auto
  then show "fst u > 0" by (drule_tac length_pos_if_in_set) (simp add: u_def update_problems_def)
  show "problems_ok (dv_eq v) (snd u)" unfolding u_def using assms(1) by (rule problems_ok_touch) simp_all
  have "touched v (\<lambda>q. q\<lparr>p_is_deleted := b\<rparr>) p = p\<lparr>p_is_deleted := b, p_updated_at := dv_now v\<rparr>" using ne by (simp add: touched_def)
  then show "p\<lparr>p_is_deleted := b, p_updated_at := dv_now v\<rparr> \<in> set (pd_problems (snd u))"
    using assms(3-5) by (force simp: u_def update_problems_def)
qed



end
