(* ===== verification/Warm_Pool.thy ===== *)
theory Warm_Pool
  imports Http "HOL-Library.Multiset"
begin

text \<open>
  \<^verbatim>\<open>src/judge/warm_pool.h\<close>: the pool of precreated containers, its refill thread and its shutdown.

  The docker daemon answers through \<^verbatim>\<open>docker::Client\<close>: what a \<^verbatim>\<open>create\<close> call returns or throws is an
  argument of the operations. The history fields record the containers the daemon created for the
  pool, the ones handed to workers and the ones the pool asked to remove. The functions are the
  bodies of the methods; the relation \<open>wp_step\<close> interleaves them at their critical sections: workers
  that acquire (the pop and the fallback create are separate steps), the refill thread (its check of the size and its create-and-push are separate
  steps), and the shutdown (raising the flag, and after joining the thread draining the queue).

  Main results: in every interleaving the idle queue stays within the target and no container is
  lost: each one is idle, handed out or removed, and after shutdown none is idle.
\<close>

text \<open>\<^verbatim>\<open>docker::Mount\<close> and \<^verbatim>\<open>docker::CreateOptions\<close>; the last argument of a mount is \<^verbatim>\<open>read_only\<close>.\<close>

datatype mount = VolumeMount string string bool | BindMount string string bool

record create_options =
  co_image :: string
  co_command :: "string list"
  co_env :: "string list"
  co_working_dir :: string
  co_mounts :: "mount list"
  co_network_mode :: string
  co_read_only :: bool
  co_memory_mb :: int
  co_cpus :: rat
  co_pids_limit :: int
  co_security_opt :: "string list"
  co_tmpfs :: "(string \<times> string) list"
  co_user :: string

record WarmPoolConfig =
  template_opts :: create_options
  target_size :: int
  refill_retry_attempts :: int
  refill_retry_delay_ms :: int
  acquire_timeout_ms :: int

record IdleContainer =
  ic_id :: string
  from_pool :: bool

datatype refill_thread = NotStarted | Waiting | Checked | Exited

record warm_pool =
  wp_client :: bool
  wp_cfg :: "WarmPoolConfig option"
  wp_target :: nat
  wp_idle :: "string list"
  wp_running :: bool
  wp_shutting_down :: bool
  wp_thread :: refill_thread
  wp_created :: "string list"
  wp_handed :: "string list"
  wp_removed :: "string list"

definition new_pool :: "bool \<Rightarrow> warm_pool" where
  "new_pool has_client = \<lparr>wp_client = has_client, wp_cfg = None, wp_target = 0, wp_idle = [], wp_running = False,
     wp_shutting_down = False, wp_thread = NotStarted, wp_created = [], wp_handed = [], wp_removed = []\<rparr>"

section \<open>Operations\<close>

text \<open>A create call with a usable result: no exception and a non-empty id.\<close>

fun usable :: "string outcome \<Rightarrow> string option" where
  "usable (Throws e) = None"
| "usable (Returns x) = (if x = [] then None else Some x)"

text \<open>The precreate loop of \<^verbatim>\<open>start\<close>, over the results of its create calls.\<close>

fun precreate :: "string outcome list \<Rightarrow> warm_pool \<Rightarrow> warm_pool" where
  "precreate [] p = p"
| "precreate (r # rs) p =
     (case usable r of
        None \<Rightarrow> precreate rs p
      | Some x \<Rightarrow> precreate rs (p\<lparr>wp_idle := wp_idle p @ [x], wp_created := wp_created p @ [x]\<rparr>))"

text \<open>\<open>results i\<close> is what the \<open>i\<close>-th create call of the loop gives.\<close>

definition start_pool :: "WarmPoolConfig \<Rightarrow> (nat \<Rightarrow> string outcome) \<Rightarrow> warm_pool \<Rightarrow> bool \<times> warm_pool" where
  "start_pool cfg results p =
     (if target_size cfg < 0 then (False, p)
      else
        let p = p\<lparr>wp_cfg := Some cfg, wp_target := nat (target_size cfg)\<rparr> in
        if wp_target p = 0 then (True, p\<lparr>wp_running := True\<rparr>)
        else if \<not> wp_client p then (False, p)
        else
          let p1 = precreate (map results [0..<wp_target p]) p;
              created = length (wp_idle p1) - length (wp_idle p)
          in if created > 0 then (True, p1\<lparr>wp_running := True, wp_thread := Waiting\<rparr>)
             else (False, p1))"

text \<open>
  \<^verbatim>\<open>acquire\<close> and its two critical points: taking the front of the queue under the lock, and creating a
  container when the queue was empty. Between the reading of \<^verbatim>\<open>running_\<close> and these points other threads may run.
\<close>

definition acquire_pop :: "warm_pool \<Rightarrow> IdleContainer option \<times> warm_pool" where
  "acquire_pop p =
     (case wp_idle p of
        x # xs \<Rightarrow> (Some \<lparr>ic_id = x, from_pool = True\<rparr>, p\<lparr>wp_idle := xs, wp_handed := wp_handed p @ [x]\<rparr>)
      | [] \<Rightarrow> (None, p))"

definition acquire_create :: "string outcome \<Rightarrow> warm_pool \<Rightarrow> IdleContainer option \<times> warm_pool" where
  "acquire_create result p =
     (if \<not> wp_client p then (None, p)
      else case usable result of
             None \<Rightarrow> (None, p)
           | Some x \<Rightarrow> (Some \<lparr>ic_id = x, from_pool = False\<rparr>,
                        p\<lparr>wp_created := wp_created p @ [x], wp_handed := wp_handed p @ [x]\<rparr>))"

definition acquire :: "string outcome \<Rightarrow> warm_pool \<Rightarrow> IdleContainer option \<times> warm_pool" where
  "acquire result p =
     (if \<not> wp_running p then (None, p)
      else case acquire_pop p of
             (Some c, p') \<Rightarrow> (Some c, p')
           | (None, p') \<Rightarrow> acquire_create result p')"

text \<open>\<^verbatim>\<open>release\<close> wakes the refill thread and changes no data; the result says whether it notifies.\<close>

definition release :: "string \<Rightarrow> warm_pool \<Rightarrow> bool" where
  "release released_id p = wp_running p"

text \<open>
  The attempts of \<^verbatim>\<open>refill_once\<close>: before each the shutdown flag is read (first component), then create
  is called (second). The result is the id that gets pushed, if any.
\<close>

fun refill_attempts :: "nat \<Rightarrow> (bool \<times> string outcome) list \<Rightarrow> string option" where
  "refill_attempts 0 tries = None"
| "refill_attempts (Suc n) [] = None"
| "refill_attempts (Suc n) ((stop, r) # tries) =
     (if stop then None
      else case usable r of Some x \<Rightarrow> Some x | None \<Rightarrow> refill_attempts n tries)"

definition attempt_count :: "WarmPoolConfig \<Rightarrow> nat" where
  "attempt_count cfg =
     nat ((if refill_retry_attempts cfg < 0 then 0 else refill_retry_attempts cfg) + 1)"

definition refill_once :: "(bool \<times> string outcome) list \<Rightarrow> warm_pool \<Rightarrow> bool \<times> warm_pool" where
  "refill_once tries p =
     (if \<not> wp_client p then (False, p)
      else case wp_cfg p of
             None \<Rightarrow> (False, p)
           | Some cfg \<Rightarrow>
               (case refill_attempts (attempt_count cfg) tries of
                  None \<Rightarrow> (False, p)
                | Some x \<Rightarrow> (True, p\<lparr>wp_idle := wp_idle p @ [x], wp_created := wp_created p @ [x]\<rparr>)))"

text \<open>\<^verbatim>\<open>shutdown\<close>: the flag first, and after the join the drain.\<close>

definition shutdown_flag :: "warm_pool \<Rightarrow> warm_pool" where
  "shutdown_flag p = p\<lparr>wp_shutting_down := True\<rparr>"

definition shutdown_drain :: "warm_pool \<Rightarrow> warm_pool" where
  "shutdown_drain p =
     p\<lparr>wp_removed := wp_removed p @ (if wp_client p then wp_idle p else []), wp_idle := [], wp_running := False\<rparr>"

record ProbeResult =
  pr_ok :: bool
  pr_detail :: string
  pr_extra :: "(string \<times> int) list"

definition pool_probe :: "warm_pool option \<Rightarrow> ProbeResult" where
  "pool_probe pool =
     (case pool of
        None \<Rightarrow> \<lparr>pr_ok = False, pr_detail = ''no warm pool configured'', pr_extra = []\<rparr>
      | Some p \<Rightarrow>
          if \<not> wp_running p then
            \<lparr>pr_ok = False, pr_detail = ''warm pool not running'', pr_extra = [(''warm_pool'', int (length (wp_idle p)))]\<rparr>
          else
            \<lparr>pr_ok = True, pr_detail = ''warm pool live'',
             pr_extra = [(''warm_pool'', int (length (wp_idle p))), (''warm_pool_target'', int (wp_target p))]\<rparr>)"

definition make_default_warm_pool_config :: "string \<Rightarrow> string \<Rightarrow> int \<Rightarrow> WarmPoolConfig" where
  "make_default_warm_pool_config judge_image network_mode warm_pool_size =
     \<lparr>template_opts =
        \<lparr>co_image = judge_image, co_command = [''--help''], co_env = [], co_working_dir = [], co_mounts = [], co_network_mode = network_mode, co_read_only = True,
         co_memory_mb = 64, co_cpus = 0, co_pids_limit = 50, co_security_opt = [''no-new-privileges:true''],
         co_tmpfs = [(''/tmp'', ''size=64m,mode=1777'')], co_user = ''judgeuser''\<rparr>,
      target_size = warm_pool_size, refill_retry_attempts = 2, refill_retry_delay_ms = 500,
      acquire_timeout_ms = 30000\<rparr>"

section \<open>Interleavings\<close>

text \<open>
  \<open>Waiting\<close> is the refill thread at the wait or at the head of its inner loop, \<open>Checked\<close> is after it
  saw a size below the target. After \<^verbatim>\<open>refill_once\<close>, successful or not, it looks at the size again. A worker
  pops or creates at any time after it saw the pool running, also when a shutdown has begun since.
\<close>

inductive wp_step :: "warm_pool \<Rightarrow> warm_pool \<Rightarrow> bool" where
  popped: "wp_step p (snd (acquire_pop p))"
| fell_back: "wp_step p (snd (acquire_create r p))"
| refill_check: "wp_thread p = Waiting \<Longrightarrow> \<not> wp_shutting_down p \<Longrightarrow> length (wp_idle p) < wp_target p \<Longrightarrow>
     wp_step p (p\<lparr>wp_thread := Checked\<rparr>)"
| refill_push: "wp_thread p = Checked \<Longrightarrow> wp_step p ((snd (refill_once tries p))\<lparr>wp_thread := Waiting\<rparr>)"
| refill_exit: "wp_thread p = Waiting \<or> wp_thread p = Checked \<Longrightarrow> wp_shutting_down p \<Longrightarrow>
     wp_step p (p\<lparr>wp_thread := Exited\<rparr>)"
| flag: "wp_step p (shutdown_flag p)"
| drain: "wp_shutting_down p \<Longrightarrow> wp_thread p = NotStarted \<or> wp_thread p = Exited \<Longrightarrow> wp_step p (shutdown_drain p)"

inductive_cases wp_stepE: "wp_step p p'"

definition wp_inv :: "warm_pool \<Rightarrow> bool" where
  "wp_inv p \<longleftrightarrow>
     length (wp_idle p) \<le> wp_target p
     \<and> (wp_thread p = Checked \<longrightarrow> length (wp_idle p) < wp_target p)
     \<and> (wp_idle p \<noteq> [] \<longrightarrow> wp_client p)
     \<and> mset (wp_created p) = mset (wp_idle p) + mset (wp_handed p) + mset (wp_removed p)"

lemma precreate_fields:
  "wp_target (precreate rs p) = wp_target p" "wp_client (precreate rs p) = wp_client p"
  "wp_thread (precreate rs p) = wp_thread p" "wp_running (precreate rs p) = wp_running p"
  "wp_handed (precreate rs p) = wp_handed p" "wp_removed (precreate rs p) = wp_removed p"
  by (induction rs p rule: precreate.induct) (auto split: option.splits)

lemma precreate_idle:
  "\<exists>xs. wp_idle (precreate rs p) = wp_idle p @ xs \<and> wp_created (precreate rs p) = wp_created p @ xs \<and> length xs \<le> length rs"
proof (induction rs p rule: precreate.induct)
  case (2 r rs p)
  show ?case
  proof (cases "usable r")
    case None
    then show ?thesis using 2(1) by fastforce
  next
    case (Some x)
    then show ?thesis using 2(2) [OF Some] by auto
  qed
qed simp

lemma start_inv:
  assumes "start_pool cfg results (new_pool c) = (ok, p)"
  shows "wp_inv p"
proof -
  let ?p0 = "(new_pool c)\<lparr>wp_cfg := Some cfg, wp_target := nat (target_size cfg)\<rparr>"
  let ?p1 = "precreate (map results [0..<nat (target_size cfg)]) ?p0"
  obtain xs where xs: "wp_idle ?p1 = xs" "wp_created ?p1 = xs" "length xs \<le> nat (target_size cfg)"
    using precreate_idle [of "map results [0..<nat (target_size cfg)]" ?p0] by (auto simp: new_pool_def)
  have base: "wp_inv (new_pool c)" "wp_inv ?p0" by (simp_all add: wp_inv_def new_pool_def)
  have "c \<Longrightarrow> wp_inv ?p1" and "c \<Longrightarrow> wp_inv (?p1\<lparr>wp_running := True, wp_thread := Waiting\<rparr>)"
    using xs by (auto simp: wp_inv_def precreate_fields new_pool_def)
  then show ?thesis
    using assms base unfolding start_pool_def Let_def
    by (auto simp: wp_inv_def new_pool_def split: if_splits)
qed

lemma step_inv:
  assumes "wp_step p p'" and "wp_inv p"
  shows "wp_inv p'"
  using assms
proof (cases rule: wp_step.cases)
  case popped
  then show ?thesis using assms(2) by (auto simp: acquire_pop_def wp_inv_def split: list.splits)
next
  case (fell_back r)
  then show ?thesis using assms(2) by (cases "usable r") (auto simp: acquire_create_def wp_inv_def)
next
  case (refill_push tries)
  then show ?thesis
    using assms(2) by (auto simp: refill_once_def wp_inv_def split: option.splits)
qed (auto simp: wp_inv_def shutdown_flag_def shutdown_drain_def)

lemma steps_inv: "wp_step\<^sup>*\<^sup>* p p' \<Longrightarrow> wp_inv p \<Longrightarrow> wp_inv p'"
  by (induction rule: rtranclp_induct) (auto intro: step_inv)

text \<open>After the drain the queue stays empty: the thread is gone and nobody else pushes.\<close>

definition drained_pool :: "warm_pool \<Rightarrow> bool" where
  "drained_pool p \<longleftrightarrow> wp_idle p = [] \<and> \<not> wp_running p \<and> wp_shutting_down p \<and> (wp_thread p = NotStarted \<or> wp_thread p = Exited)"

lemma drained_step: "wp_step p p' \<Longrightarrow> drained_pool p \<Longrightarrow> drained_pool p'"
  by (erule wp_step.cases) (auto simp: drained_pool_def acquire_pop_def acquire_create_def shutdown_flag_def shutdown_drain_def split: option.splits)

lemma drained_steps: "wp_step\<^sup>*\<^sup>* p p' \<Longrightarrow> drained_pool p \<Longrightarrow> drained_pool p'"
  by (induction rule: rtranclp_induct) (auto intro: drained_step)

section \<open>Properties\<close>

text \<open>
  C30. In every interleaving of workers, refill thread and shutdown after a start: the idle queue
  never holds more containers than the target, and no container is lost: the containers the daemon
  created for the pool are, counted with multiplicity, exactly the idle ones, the ones handed to
  workers, and the ones the pool asked to remove.
\<close>

theorem pool_accounting:
  assumes "start_pool cfg results (new_pool c) = (ok, p)" and "wp_step\<^sup>*\<^sup>* p p'"
  shows "length (wp_idle p') \<le> wp_target p'
    \<and> mset (wp_created p') = mset (wp_idle p') + mset (wp_handed p') + mset (wp_removed p')"
  using steps_inv [OF assms(2) start_inv [OF assms(1)]] by (simp add: wp_inv_def)

definition demo_pool_cfg :: WarmPoolConfig where
  "demo_pool_cfg = make_default_warm_pool_config ''judge'' ''none'' 2"

definition demo_results :: "nat \<Rightarrow> string outcome" where
  "demo_results i = (if i = 0 then Returns ''c1'' else Returns ''c2'')"

theorem pool_accounting_witness:
  "\<exists>p p'. start_pool demo_pool_cfg demo_results (new_pool True) = (True, p) \<and> wp_step p p'
     \<and> length (wp_idle p') \<le> wp_target p' \<and> wp_handed p' = [''c1'']"
proof -
  let ?s = "start_pool demo_pool_cfg demo_results (new_pool True)"
  let ?p' = "snd (acquire_pop (snd ?s))"
  have s: "?s = (True, snd ?s)" by code_simp
  have st: "wp_step (snd ?s) ?p'" by (rule popped)
  have h: "wp_handed ?p' = [''c1'']" by code_simp
  show ?thesis using pool_accounting [OF s r_into_rtranclp [of wp_step, OF st]] s st h by blast
qed

text \<open>
  Shutdown leaves nothing behind: once the drain has run, whatever happens later, the queue is
  empty, a new call of acquire hands out nothing (one that saw the pool running before may still create), and every container created for the pool was handed to a worker
  or its removal was requested.
\<close>

theorem pool_shutdown_complete:
  assumes "start_pool cfg results (new_pool c) = (ok, p)" and "wp_step\<^sup>*\<^sup>* p p1"
    and "wp_shutting_down p1" and "wp_thread p1 = NotStarted \<or> wp_thread p1 = Exited"
    and "wp_step\<^sup>*\<^sup>* (shutdown_drain p1) p2"
  shows "wp_idle p2 = [] \<and> fst (acquire r p2) = None \<and> mset (wp_created p2) = mset (wp_handed p2) + mset (wp_removed p2)"
proof -
  have "drained_pool (shutdown_drain p1)" using assms(3,4) by (simp add: drained_pool_def shutdown_drain_def)
  then have d: "drained_pool p2" using assms(5) by (rule drained_steps [rotated])
  have "wp_inv p1" by (rule steps_inv [OF assms(2) start_inv [OF assms(1)]])
  then have "wp_inv (shutdown_drain p1)" using step_inv [OF drain [OF assms(3,4)]] by blast
  then have "wp_inv p2" by (rule steps_inv [OF assms(5)])
  then show ?thesis using d by (simp add: wp_inv_def drained_pool_def acquire_def)
qed

theorem pool_shutdown_complete_witness:
  "\<exists>p p1. start_pool demo_pool_cfg demo_results (new_pool True) = (True, p) \<and> wp_step\<^sup>*\<^sup>* p p1
     \<and> wp_idle (shutdown_drain p1) = [] \<and> wp_removed (shutdown_drain p1) = [''c1'', ''c2'']"
proof -
  let ?s = "start_pool demo_pool_cfg demo_results (new_pool True)"
  let ?f = "shutdown_flag (snd ?s)"
  let ?x = "?f\<lparr>wp_thread := Exited\<rparr>"
  have s: "?s = (True, snd ?s)" by code_simp
  have f: "wp_step (snd ?s) ?f" by (rule flag)
  have "wp_thread ?f = Waiting" "wp_shutting_down ?f" by code_simp+
  then have x: "wp_step ?f ?x" by (intro refill_exit) simp_all
  have st: "wp_step\<^sup>*\<^sup>* (snd ?s) ?x" using f x by (meson rtranclp.rtrancl_refl rtranclp.rtrancl_into_rtrancl)
  have fl: "wp_shutting_down ?x" by (simp add: shutdown_flag_def)
  have r: "wp_removed (shutdown_drain ?x) = [''c1'', ''c2'']" by code_simp
  have "wp_idle (shutdown_drain ?x) = []"
    using pool_shutdown_complete [OF s st fl _ rtranclp.rtrancl_refl] by simp
  then show ?thesis using s st r by blast
qed

end
