(* ===== verification/Judge_Notifier.thy ===== *)
theory Judge_Notifier
  imports Containers
begin

text \<open>
  \<^verbatim>\<open>src/judge/judge_notifier.h\<close>: the one-shot publish/subscribe registry between the judge workers
  and the requests waiting for a verdict, and the RAII guard \<^verbatim>\<open>SubscriberScope\<close>.

  The registry maps a submission id to the vector of its callbacks. A callback is any value of
  type \<open>'cb\<close> together with the handle its wrapper lambda captured; invoking it is recorded as
  \<open>(callback, row)\<close> in the order of the loop. \<^verbatim>\<open>size_t\<close> handles are 64-bit words.
\<close>

type_synonym handle = "64 word"
type_synonym 'cb subscriber = "handle \<times> 'cb"

record 'cb notifier =
  subs :: "(int, 'cb subscriber list) umap"
  next_id :: handle

definition new_notifier :: "'cb notifier" where
  "new_notifier = \<lparr>subs = [], next_id = 0\<rparr>"

text \<open>\<^verbatim>\<open>publish\<close>: the returned count, the calls made (in order) and the new registry.\<close>

definition publish :: "(int \<times> 'row) \<Rightarrow> 'cb notifier \<Rightarrow> nat \<times> ('cb \<times> 'row) list \<times> 'cb notifier" where
  "publish row n =
     (case um_find (fst row) (subs n) of
        None \<Rightarrow> (0, [], n)
      | Some snapshot \<Rightarrow>
          (length snapshot, map (\<lambda>s. (snd s, snd row)) snapshot,
           n\<lparr>subs := um_erase (fst row) (subs n)\<rparr>))"

text \<open>\<^verbatim>\<open>subscribe\<close>; the \<^verbatim>\<open>nullptr\<close> callback, which throws, is \<open>None\<close>.\<close>

datatype notifier_error = JudgeNotifierError string

definition subscribe ::
  "int \<Rightarrow> 'cb option \<Rightarrow> 'cb notifier \<Rightarrow> notifier_error + handle \<times> 'cb notifier" where
  "subscribe sid cb n =
     (case cb of
        None \<Rightarrow> Inl (JudgeNotifierError ''subscribe: callback must be non-null'')
      | Some f \<Rightarrow>
          let i = next_id n + 1;
              vec = (case um_find sid (subs n) of None \<Rightarrow> [] | Some v \<Rightarrow> v)
          in Inr (i, n\<lparr>next_id := i, subs := um_put sid (vec @ [(i, f)]) (subs n)\<rparr>))"

definition unsubscribe :: "int \<Rightarrow> handle \<Rightarrow> 'cb notifier \<Rightarrow> 'cb notifier" where
  "unsubscribe sid h n =
     (case um_find sid (subs n) of
        None \<Rightarrow> n
      | Some vec \<Rightarrow>
          if vec = [] then n\<lparr>subs := um_erase sid (subs n)\<rparr>
          else let vec' = butlast vec
               in if vec' = [] then n\<lparr>subs := um_erase sid (subs n)\<rparr>
                  else n\<lparr>subs := um_put sid vec' (subs n)\<rparr>)"

definition subscriber_count_for :: "int \<Rightarrow> 'cb notifier \<Rightarrow> nat" where
  "subscriber_count_for sid n = (case um_find sid (subs n) of None \<Rightarrow> 0 | Some v \<Rightarrow> length v)"

definition total_subscribers :: "'cb notifier \<Rightarrow> nat" where
  "total_subscribers n = sum_list (map (\<lambda>e. length (snd e)) (subs n))"

text \<open>
  \<^verbatim>\<open>wait_for\<close> up to the point where it blocks, and from the point where it wakes. Between the two
  other threads run; \<open>fired\<close> is the row its callback received, if any.
\<close>

definition wait_for_enter ::
  "(string \<Rightarrow> bool) \<Rightarrow> int \<Rightarrow> (string \<times> 'row) option \<Rightarrow> 'cb \<Rightarrow> 'cb notifier
   \<Rightarrow> (string \<times> 'row) option \<times> (handle \<times> 'cb notifier) option" where
  "wait_for_enter is_terminal sid existing cb n =
     (case existing of
        Some (status, row) \<Rightarrow>
          if is_terminal status then (existing, None)
          else (None, (case subscribe sid (Some cb) n of Inl _ \<Rightarrow> None | Inr r \<Rightarrow> Some r))
      | None \<Rightarrow> (None, (case subscribe sid (Some cb) n of Inl _ \<Rightarrow> None | Inr r \<Rightarrow> Some r)))"

definition wait_for_leave ::
  "int \<Rightarrow> handle \<Rightarrow> 'row option \<Rightarrow> 'cb notifier \<Rightarrow> 'row option \<times> 'cb notifier" where
  "wait_for_leave sid h fired n = (fired, unsubscribe sid h n)"

section \<open>SubscriberScope\<close>

record scope =
  sc_bound :: bool  \<comment> \<open>\<^verbatim>\<open>notifier_ != nullptr\<close>\<close>
  sc_submission_id :: int
  sc_handle :: handle

definition scope_release :: "scope \<Rightarrow> scope" where
  "scope_release s = s\<lparr>sc_bound := False, sc_submission_id := 0, sc_handle := 0\<rparr>"

definition scope_new :: "bool \<Rightarrow> int \<Rightarrow> 'cb option \<Rightarrow> 'cb notifier \<Rightarrow> notifier_error + scope \<times> 'cb notifier" where
  "scope_new bound sid cb n =
     (if bound then
        (case subscribe sid cb n of
           Inl e \<Rightarrow> Inl e
         | Inr (h, n') \<Rightarrow> Inr (\<lparr>sc_bound = True, sc_submission_id = sid, sc_handle = h\<rparr>, n'))
      else Inr (\<lparr>sc_bound = False, sc_submission_id = sid, sc_handle = 0\<rparr>, n))"

definition scope_reset :: "scope \<Rightarrow> 'cb notifier \<Rightarrow> scope \<times> 'cb notifier" where
  "scope_reset s n =
     (scope_release s,
      if sc_bound s \<and> sc_handle s \<noteq> 0 then unsubscribe (sc_submission_id s) (sc_handle s) n else n)"

text \<open>Move construction and move assignment: the moved-from scope is released.\<close>

definition scope_move :: "scope \<Rightarrow> scope \<times> scope" where
  "scope_move src = (src, scope_release src)"

definition scope_move_assign :: "scope \<Rightarrow> scope \<Rightarrow> 'cb notifier \<Rightarrow> scope \<times> scope \<times> 'cb notifier" where
  "scope_move_assign dst src n = (let (_, n') = scope_reset dst n in (src, scope_release src, n'))"

section \<open>Invariant\<close>

text \<open>The keys are distinct and no submission is left with an empty vector.\<close>

definition notifier_ok :: "'cb notifier \<Rightarrow> bool" where
  "notifier_ok n \<longleftrightarrow> um_ok (subs n) \<and> (\<forall>sid. um_find sid (subs n) \<noteq> Some [])"

definition subscribers :: "int \<Rightarrow> 'cb notifier \<Rightarrow> 'cb list" where
  "subscribers sid n = (case um_find sid (subs n) of None \<Rightarrow> [] | Some v \<Rightarrow> map snd v)"

lemma notifier_ok_new: "notifier_ok new_notifier"
  by (simp add: notifier_ok_def new_notifier_def)

lemma notifier_ok_subscribe:
  "notifier_ok n \<Longrightarrow> subscribe sid cb n = Inr (h, n') \<Longrightarrow> notifier_ok n'"
  by (auto simp: notifier_ok_def subscribe_def Let_def um_simps split: option.splits if_splits)

lemma notifier_ok_publish: "notifier_ok n \<Longrightarrow> notifier_ok (snd (snd (publish row n)))"
  by (auto simp: notifier_ok_def publish_def um_simps split: option.splits if_splits)

lemma notifier_ok_unsubscribe: "notifier_ok n \<Longrightarrow> notifier_ok (unsubscribe sid h n)"
  by (auto simp: notifier_ok_def unsubscribe_def Let_def um_simps split: option.splits if_splits)

lemma subscribers_subscribe:
  "notifier_ok n \<Longrightarrow> subscribe sid (Some cb) n = Inr (h, n') \<Longrightarrow>
   subscribers sid' n' = (if sid' = sid then subscribers sid n @ [cb] else subscribers sid' n)"
  by (auto simp: notifier_ok_def subscribers_def subscribe_def Let_def um_simps split: option.splits)

lemma subscribers_publish:
  "notifier_ok n \<Longrightarrow>
   subscribers sid' (snd (snd (publish (sid, row) n))) = (if sid' = sid then [] else subscribers sid' n)"
  by (auto simp: notifier_ok_def subscribers_def publish_def um_simps split: option.splits)

lemma subscribers_unsubscribe:
  "notifier_ok n \<Longrightarrow>
   subscribers sid' (unsubscribe sid h n) =
     (if sid' = sid then butlast (subscribers sid n) else subscribers sid' n)"
  by (auto simp: notifier_ok_def subscribers_def unsubscribe_def Let_def um_simps
      simp flip: map_butlast split: option.splits)

lemma publish_calls: "fst (snd (publish (sid, row) n)) = map (\<lambda>cb. (cb, row)) (subscribers sid n)"
  by (simp add: publish_def subscribers_def split: option.splits)

lemma subscriber_count_zero:
  "notifier_ok n \<Longrightarrow> subscriber_count_for sid n = 0 \<longleftrightarrow> um_find sid (subs n) = None"
  by (auto simp: notifier_ok_def subscriber_count_for_def split: option.splits)

lemmas notifier_views = subscribers_subscribe subscribers_publish subscribers_unsubscribe publish_calls


section \<open>Abstract view: one FIFO of callbacks per submission\<close>

text \<open>
  What a client of the registry relies on, stated over the callbacks registered for a submission.
  \<open>reg_remove_last\<close> is the contract the code implements; a contract that removes the caller's own
  callback would be stronger.
\<close>

locale callback_registry =
  fixes ok :: "'n \<Rightarrow> bool"
    and view :: "int \<Rightarrow> 'n \<Rightarrow> 'cb list"
    and register :: "int \<Rightarrow> 'cb \<Rightarrow> 'n \<Rightarrow> 'n"
    and drain :: "int \<Rightarrow> 'n \<Rightarrow> 'n"
    and remove_last :: "int \<Rightarrow> 'n \<Rightarrow> 'n"
  assumes ok_register: "ok n \<Longrightarrow> ok (register sid cb n)"
    and ok_drain: "ok n \<Longrightarrow> ok (drain sid n)"
    and ok_remove: "ok n \<Longrightarrow> ok (remove_last sid n)"
    and view_register: "ok n \<Longrightarrow> view s (register sid cb n) = (if s = sid then view sid n @ [cb] else view s n)"
    and view_drain: "ok n \<Longrightarrow> view s (drain sid n) = (if s = sid then [] else view s n)"
    and view_remove: "ok n \<Longrightarrow> view s (remove_last sid n) = (if s = sid then butlast (view sid n) else view s n)"
begin

lemma register_remove: "ok n \<Longrightarrow> view s (remove_last sid (register sid cb n)) = view s n"
  by (simp add: ok_register view_register view_remove)

lemma remove_takes_latest:
  "ok n \<Longrightarrow> view sid (remove_last sid (register sid cb' (register sid cb n))) = view sid n @ [cb]"
  by (simp add: ok_register view_register view_remove butlast_append)

lemma drain_then_remove_takes_newcomer:
  "ok n \<Longrightarrow> view sid (remove_last sid (register sid cb' (drain sid (register sid cb n)))) = []"
  by (simp add: ok_register ok_drain view_register view_drain view_remove)

end

definition register :: "int \<Rightarrow> 'cb \<Rightarrow> 'cb notifier \<Rightarrow> 'cb notifier" where
  "register sid cb n = (case subscribe sid (Some cb) n of Inl _ \<Rightarrow> n | Inr (_, n') \<Rightarrow> n')"

definition drain :: "int \<Rightarrow> 'cb notifier \<Rightarrow> 'cb notifier" where
  "drain sid n = snd (snd (publish (sid, ()) n))"

lemma subscribe_Inr: "\<exists>h n'. subscribe sid (Some cb) n = Inr (h, n') \<and> register sid cb n = n'"
  by (simp add: subscribe_def register_def Let_def)

interpretation reg: callback_registry notifier_ok subscribers register drain "\<lambda>sid. unsubscribe sid h"
proof
  fix n :: "'cb notifier" and s sid :: int and cb :: 'cb
  assume ok: "notifier_ok n"
  obtain h' n' where r: "subscribe sid (Some cb) n = Inr (h', n')" "register sid cb n = n'"
    using subscribe_Inr [of sid cb n] by auto
  show "notifier_ok (register sid cb n)" using notifier_ok_subscribe [OF ok r(1)] r(2) by simp
  show "notifier_ok (drain sid n)" unfolding drain_def by (rule notifier_ok_publish [OF ok])
  show "notifier_ok (unsubscribe sid h n)" by (rule notifier_ok_unsubscribe [OF ok])
  show "subscribers s (register sid cb n) = (if s = sid then subscribers sid n @ [cb] else subscribers s n)"
    using subscribers_subscribe [OF ok r(1)] r(2) by simp
  show "subscribers s (drain sid n) = (if s = sid then [] else subscribers s n)"
    unfolding drain_def by (rule subscribers_publish [OF ok])
  show "subscribers s (unsubscribe sid h n) = (if s = sid then butlast (subscribers sid n) else subscribers s n)"
    by (rule subscribers_unsubscribe [OF ok])
qed

lemma publish_drains: "snd (snd (publish (sid, row) n)) = drain sid n"
  by (simp add: publish_def drain_def split: option.splits)

section \<open>Properties\<close>

text \<open>
  Publish delivers exactly once and in subscription order: after any registrations for a
  submission, one \<^verbatim>\<open>publish\<close> calls every callback registered for that submission once, in order,
  returns their number, leaves no subscriber for it, and a second publish calls nobody; other
  submissions are untouched.
\<close>

theorem publish_exactly_once:
  assumes "notifier_ok n"
  shows "let (k, calls, n') = publish (sid, row) n in
     calls = map (\<lambda>cb. (cb, row)) (subscribers sid n) \<and> k = length calls
     \<and> publish (sid, row') n' = (0, [], n')
     \<and> (\<forall>s. s \<noteq> sid \<longrightarrow> subscribers s n' = subscribers s n)"
proof -
  have "um_find sid (subs (drain sid n)) = None"
    using assms by (auto simp: notifier_ok_def drain_def publish_def um_simps split: option.splits)
  then have "publish (sid, row') (drain sid n) = (0, [], drain sid n)" by (simp add: publish_def)
  moreover have "fst (publish (sid, row) n) = length (subscribers sid n)"
    by (simp add: publish_def subscribers_def split: option.splits)
  ultimately show ?thesis
    using publish_calls [of sid row n] publish_drains [of sid row n] reg.view_drain [OF assms]
    by (auto simp: split_beta)
qed

definition notifier_demo :: "string notifier" where
  "notifier_demo = register 7 ''b'' (register 8 ''x'' (register 7 ''a'' new_notifier))"

lemma notifier_ok_demo: "notifier_ok notifier_demo"
  unfolding notifier_demo_def by (intro reg.ok_register notifier_ok_new)

theorem publish_exactly_once_witness:
  "notifier_ok notifier_demo
   \<and> fst (snd (publish (7, ''ac'') notifier_demo)) = [(''a'', ''ac''), (''b'', ''ac'')]
   \<and> subscribers 8 (snd (snd (publish (7, ''ac'') notifier_demo))) = [''x'']"
proof -
  have s: "subscribers 7 notifier_demo = [''a'', ''b'']" "subscribers 8 notifier_demo = [''x'']"
    by code_simp+
  show ?thesis
    using publish_exactly_once [OF notifier_ok_demo, of 7 "''ac''" "''wa''"] notifier_ok_demo
    by (auto simp: s split_beta)
qed

text \<open>
  Registry invariant: the constructor establishes distinct keys with non-empty callback
  vectors, and subscribe, publish and unsubscribe keep it, so \<^verbatim>\<open>subscriber_count_for\<close> is zero
  exactly when the submission has no map entry.
\<close>

theorem notifier_invariant:
  "notifier_ok (new_notifier :: 'cb notifier)
   \<and> (notifier_ok n \<longrightarrow>
       (\<forall>h n'. subscribe sid cb n = Inr (h, n') \<longrightarrow> notifier_ok n')
       \<and> notifier_ok (snd (snd (publish row n)))
       \<and> notifier_ok (unsubscribe sid h0 n)
       \<and> (subscriber_count_for sid n = 0 \<longleftrightarrow> um_find sid (subs n) = None))"
  using notifier_ok_new notifier_ok_publish notifier_ok_unsubscribe notifier_ok_subscribe
    subscriber_count_zero by blast

theorem notifier_invariant_witness:
  "notifier_ok (unsubscribe 7 1 notifier_demo) \<and> subscriber_count_for 9 notifier_demo = 0"
proof -
  have "um_find 9 (subs notifier_demo) = None" by code_simp
  then show ?thesis
    using notifier_invariant [where n = notifier_demo and sid = 9]
      notifier_invariant [where n = notifier_demo and sid = 7] notifier_ok_demo
    by blast
qed

text \<open>
  \<^verbatim>\<open>unsubscribe\<close> ignores its handle and drops the most recently added callback of the
  submission: with a single waiter that is the caller's own subscription, but when a second waiter
  subscribed later, the first waiter's unsubscribe removes the second one's callback.
\<close>

theorem unsubscribe_drops_latest:
  assumes "notifier_ok n"
  shows "subscribers sid (unsubscribe sid h (register sid cb n)) = subscribers sid n
    \<and> subscribers sid (unsubscribe sid h (register sid cb' (register sid cb n))) = subscribers sid n @ [cb]"
  using assms by (simp add: reg.register_remove reg.remove_takes_latest)

theorem unsubscribe_drops_latest_witness:
  "notifier_ok (new_notifier :: string notifier)
   \<and> subscribers 3 (unsubscribe 3 1 (register 3 ''second'' (register 3 ''first'' new_notifier))) = [''first'']"
  using unsubscribe_drops_latest [OF notifier_ok_new, of 3 1 "''first''" "''second''"] notifier_ok_new
  by (simp add: subscribers_def new_notifier_def)

text \<open>
  A waiter that has already been served loses a newcomer's subscription: \<^verbatim>\<open>wait_for\<close> calls
  \<^verbatim>\<open>unsubscribe\<close> after its callback fired (publish has removed it), so if another waiter for the
  same submission subscribed in between, that waiter's callback is gone and the next publish calls
  nobody.
\<close>

theorem served_waiter_drops_newcomer:
  assumes "notifier_ok n"
  shows "let n1 = drain sid (register sid cb n);
             (r, n2) = wait_for_leave sid h (Some row) (register sid cb' n1)
         in r = Some row \<and> fst (snd (publish (sid, row') n2)) = []"
  using assms
  by (simp add: wait_for_leave_def publish_calls reg.drain_then_remove_takes_newcomer)

theorem served_waiter_drops_newcomer_witness:
  "let n1 = drain 5 (register 5 ''first'' new_notifier);
       (r, n2) = wait_for_leave 5 1 (Some ''ac'') (register 5 ''second'' n1)
   in r = Some ''ac'' \<and> fst (snd (publish (5, ''ac'') n2)) = []"
  by (rule served_waiter_drops_newcomer [OF notifier_ok_new])

text \<open>
  \<^verbatim>\<open>SubscriberScope\<close> unsubscribes at most once: a moved-from or released scope leaves the
  registry alone, so moving a scope and destroying both ends has the effect of one reset.
\<close>

theorem scope_resets_once:
  "scope_reset (fst (scope_reset s n)) (snd (scope_reset s n)) = scope_reset s n
   \<and> snd (scope_reset (snd (scope_move s)) n) = n
   \<and> snd (scope_reset (fst (scope_move s)) (snd (scope_reset (snd (scope_move s)) n))) = snd (scope_reset s n)"
  by (simp add: scope_reset_def scope_release_def scope_move_def)

end
