(* ===== verification/Judge_Scheduler.thy ===== *)
theory Judge_Scheduler
  imports Warm_Pool Judge_Notifier Submission_Repo Double
begin

text \<open>
  \<^verbatim>\<open>src/judge/judge_scheduler.h\<close>: the task queue, the workers, and the judging of one task.

  The docker daemon, the file system, the database connection and the JSON library answer through
  the fields of \<open>task_env\<close>: each says what one call of the run returns or throws. The run works on a
  \<open>world\<close>: the submissions table and the notifier are those of the theories Submission_Repo and
  Judge_Notifier, and a trace records the calls made to docker, to the file system, to the warm pool
  and to the metrics, in order. A failing kill, remove, check-in or metrics call is swallowed by the
  source and has no effect on the run.

  Main results: whatever fails, a run removes every container it created and leaves the other
  submissions alone; if the database answers, a claimed submission ends with a verdict unless the judge
  reports a status that is none; a verdict is published only after it is stored; the queue is bounded and loses
  nothing; and the verdict is read from the last JSON line of the output.
\<close>

section \<open>Tasks, results, configuration\<close>

record TestCaseInput =
  tc_input :: string
  tc_expected_output :: string
  tc_judge_type :: string
  tc_float_epsilon :: "rat option"
  tc_order_num :: int

record JudgeTask =
  jt_submission_id :: int
  jt_user_id :: int
  jt_problem_id :: int
  jt_language :: string
  jt_code :: string
  jt_time_limit_ms :: int
  jt_memory_limit_mb :: int
  jt_compile_timeout_ms :: int
  jt_test_cases :: "TestCaseInput list"
  jt_spj_source :: string
  jt_spj_language :: string

record CaseResult =
  cr_index :: int
  cr_status :: string
  cr_time_ms :: int
  cr_mem_kb :: int
  cr_info :: string
  cr_input :: string
  cr_expected_output :: string
  cr_actual_output :: string
  cr_stderr :: string

record JudgeResult =
  jr_status :: string
  jr_time_used_ms :: int
  jr_memory_used_kb :: int
  jr_error_message :: string
  jr_failed_case_index :: int
  jr_parsed :: bool
  jr_case_results :: "CaseResult list"

record JudgeSchedulerConfig =
  jc_max_concurrent :: int
  jc_max_queue_size :: int
  jc_compile_timeout_ms :: int
  jc_judge_hard_timeout_seconds :: int
  jc_output_limit_bytes :: int
  jc_judge_image :: string
  jc_network_mode :: string
  jc_task_dir_parent :: string
  jc_task_volume_name :: string

section \<open>Reading the judge's output\<close>

definition empty_result :: JudgeResult where
  "empty_result = \<lparr>jr_status = ''se'', jr_time_used_ms = 0, jr_memory_used_kb = 0, jr_error_message = [],
     jr_failed_case_index = -1, jr_parsed = False, jr_case_results = []\<rparr>"

definition empty_case :: CaseResult where
  "empty_case = \<lparr>cr_index = 0, cr_status = [], cr_time_ms = 0, cr_mem_kb = 0, cr_info = [], cr_input = [],
     cr_expected_output = [], cr_actual_output = [], cr_stderr = []\<rparr>"

text \<open>\<^verbatim>\<open>get<int>()\<close>: a 64-bit integer is converted modulo \<open>2^32\<close>, a floating number is truncated.\<close>

definition str_member :: "string \<Rightarrow> string \<Rightarrow> json \<Rightarrow> string" where
  "str_member k dflt j = (case get_member j k of Some (JStr s) \<Rightarrow> s | _ \<Rightarrow> dflt)"

definition int_member :: "string \<Rightarrow> int \<Rightarrow> json \<Rightarrow> int" where
  "int_member k dflt j =
     (case get_member j k of Some (JInt n) \<Rightarrow> wrap32 n | Some (JReal x) \<Rightarrow> trunc_int x | _ \<Rightarrow> dflt)"

definition parse_case :: "json \<Rightarrow> CaseResult" where
  "parse_case cj =
     \<lparr>cr_index = int_member ''index'' 0 cj, cr_status = str_member ''status'' [] cj,
      cr_time_ms = int_member ''time_ms'' 0 cj, cr_mem_kb = int_member ''mem_kb'' 0 cj,
      cr_info = str_member ''info'' [] cj, cr_input = str_member ''input'' [] cj,
      cr_expected_output = str_member ''expected_output'' [] cj,
      cr_actual_output = str_member ''actual_output'' [] cj, cr_stderr = str_member ''stderr'' [] cj\<rparr>"

fun is_object :: "json \<Rightarrow> bool" where
  "is_object (JObj _) = True"
| "is_object _ = False"

definition result_of_json :: "json \<Rightarrow> JudgeResult" where
  "result_of_json j =
     \<lparr>jr_status = str_member ''status'' ''se'' j, jr_time_used_ms = int_member ''time_used_ms'' 0 j,
      jr_memory_used_kb = int_member ''memory_used_kb'' 0 j, jr_error_message = str_member ''error_message'' [] j,
      jr_failed_case_index = int_member ''failed_case_index'' (-1) j, jr_parsed = True,
      jr_case_results =
        (case get_member j ''case_results'' of
           Some (JArr cs) \<Rightarrow> map parse_case (filter is_object cs)
         | _ \<Rightarrow> [])\<rparr>"

text \<open>Lines end at LF, CR is dropped, an empty last line is no line.\<close>

fun split_lines :: "string \<Rightarrow> string \<Rightarrow> string list" where
  "split_lines cur [] = (if cur \<noteq> [] then [cur] else [])"
| "split_lines cur (c # s) =
     (if c = CHR 0x0A then cur # split_lines [] s
      else if c \<noteq> CHR 0x0D then split_lines (cur @ [c]) s
      else split_lines cur s)"

definition looks_like_object :: "string \<Rightarrow> bool" where
  "looks_like_object line =
     (case dropWhile (\<lambda>c. c = CHR '' '' \<or> c = CHR 0x09) line of [] \<Rightarrow> False | c # _ \<Rightarrow> c = CHR ''{'')"

text \<open>The scan from the last line back; \<open>parse\<close> is \<^verbatim>\<open>nlohmann::json::parse\<close>.\<close>

fun scan_lines :: "(string \<Rightarrow> json outcome) \<Rightarrow> string list \<Rightarrow> JudgeResult option" where
  "scan_lines parse [] = None"
| "scan_lines parse (line # ls) =
     (if \<not> looks_like_object line then scan_lines parse ls
      else case parse line of
             Throws _ \<Rightarrow> scan_lines parse ls
           | Returns j \<Rightarrow> if is_object j then Some (result_of_json j) else scan_lines parse ls)"

definition parse_judge_result_json :: "(string \<Rightarrow> json outcome) \<Rightarrow> string \<Rightarrow> int \<Rightarrow> JudgeResult" where
  "parse_judge_result_json parse logs wait_exit_code =
     (let suffix = (if wait_exit_code \<noteq> 0 then '' (wait exit='' @ to_string wait_exit_code @ '')'' else []) in
      if logs = [] then empty_result\<lparr>jr_error_message := ''judge produced no stdout'' @ suffix\<rparr>
      else case scan_lines parse (rev (split_lines [] logs)) of
             Some r \<Rightarrow> r
           | None \<Rightarrow> empty_result\<lparr>jr_error_message := ''judge produced no parseable result JSON'' @ suffix\<rparr>)"

section \<open>Writing the task\<close>

definition case_json :: "TestCaseInput \<Rightarrow> json" where
  "case_json tc = JObj [(''input'', JStr (tc_input tc)), (''expected_output'', JStr (tc_expected_output tc)),
     (''judge_type'', JStr (tc_judge_type tc)),
     (''float_epsilon'', case tc_float_epsilon tc of None \<Rightarrow> JNull | Some x \<Rightarrow> JReal x),
     (''order_num'', JInt (tc_order_num tc))]"

definition task_json :: "JudgeSchedulerConfig \<Rightarrow> JudgeTask \<Rightarrow> json" where
  "task_json cfg task = JObj [(''submission_id'', JInt (jt_submission_id task)), (''language'', JStr (jt_language task)),
     (''code'', JStr (jt_code task)), (''time_limit_ms'', JInt (jt_time_limit_ms task)),
     (''memory_limit_mb'', JInt (jt_memory_limit_mb task)), (''compile_timeout_ms'', JInt (jt_compile_timeout_ms task)),
     (''run_hard_timeout_ms'', JInt (int_mul (jc_judge_hard_timeout_seconds cfg) 1000)),
     (''output_limit_bytes'', JInt (jc_output_limit_bytes cfg)),
     (''special_judge_source'', if jt_spj_source task = [] then JNull else JStr (jt_spj_source task)),
     (''special_judge_language'', if jt_spj_language task = [] then JNull else JStr (jt_spj_language task)),
     (''test_cases'', JArr (map case_json (jt_test_cases task)))]"

section \<open>The world of a run\<close>

datatype jevent =
    MkDir string
  | WriteTask string json
  | PoolAcquire
  | Create create_options "string outcome"
  | Start string
  | Wait string int
  | Logs string
  | Kill string
  | Remove string
  | CheckIn int int int
  | Metrics string
  | RmDir string
  | PoolRelease string

record 'cb world =
  w_db :: table
  w_notifier :: "'cb notifier"
  w_delivered :: "('cb \<times> submission) list"
  w_trace :: "jevent list"

datatype wait_result = WaitDone int | WaitTimeout string | WaitFailed string

record task_env =
  te_client :: bool
  te_pool :: bool
  te_notifier :: bool
  te_metrics :: bool
  te_claim_fault :: sql_fault
  te_finish_fault :: sql_fault
  te_db_now :: int
  te_now_us :: int
  te_mkdir :: "unit outcome"
  te_opened :: bool
  te_dump :: "json \<Rightarrow> string outcome"
  te_written :: bool
  te_acquire :: "string option outcome"
  te_discard :: "unit outcome"
  te_create :: "string outcome"
  te_start :: "unit outcome"
  te_wait :: wait_result
  te_logs :: "string outcome"
  te_parse :: "string \<Rightarrow> json outcome"

definition emit :: "jevent \<Rightarrow> 'cb world \<Rightarrow> 'cb world" where
  "emit ev w = w\<lparr>w_trace := w_trace w @ [ev]\<rparr>"

definition path_join :: "string \<Rightarrow> string \<Rightarrow> string" where
  "path_join a b = (if a = [] then b else if last a = CHR ''/'' then a @ b else a @ ''/'' @ b)"

section \<open>Helpers of a run\<close>

definition record_task_metrics :: "task_env \<Rightarrow> string \<Rightarrow> 'cb world \<Rightarrow> 'cb world" where
  "record_task_metrics e status w = (if te_metrics e then emit (Metrics status) w else w)"

definition finish_se :: "task_env \<Rightarrow> int \<Rightarrow> string \<Rightarrow> 'cb world \<Rightarrow> 'cb world" where
  "finish_se e sid err w =
     record_task_metrics e ''se''
       (case mark_finished (te_finish_fault e) (te_db_now e) sid ''se'' None None err (w_db w) of
          Inl _ \<Rightarrow> w
        | Inr (_, t) \<Rightarrow> w\<lparr>w_db := t\<rparr>)"

definition try_remove :: "string \<Rightarrow> 'cb world \<Rightarrow> 'cb world" where
  "try_remove cid w = (if cid = [] then w else emit (Remove cid) w)"

definition try_kill_and_remove :: "string \<Rightarrow> 'cb world \<Rightarrow> 'cb world" where
  "try_kill_and_remove cid w = (if cid = [] then w else try_remove cid (emit (Kill cid) w))"

definition cleanup_and_release :: "task_env \<Rightarrow> string \<Rightarrow> string \<Rightarrow> bool \<Rightarrow> 'cb world \<Rightarrow> 'cb world" where
  "cleanup_and_release e task_dir pool_id pool_gave_one w =
     (let w = emit (RmDir task_dir) w in
      if te_pool e \<and> pool_gave_one \<and> pool_id \<noteq> [] then emit (PoolRelease pool_id) w else w)"

definition task_dir_of :: "JudgeSchedulerConfig \<Rightarrow> task_env \<Rightarrow> int \<Rightarrow> string" where
  "task_dir_of cfg e sid =
     path_join (jc_task_dir_parent cfg) (''litecode-judge-'' @ to_string sid @ ''-'' @ to_string (te_now_us e))"

definition make_task_dir :: "JudgeSchedulerConfig \<Rightarrow> task_env \<Rightarrow> int \<Rightarrow> 'cb world \<Rightarrow> string outcome \<times> 'cb world" where
  "make_task_dir cfg e sid w =
     (let d = task_dir_of cfg e sid in
      case te_mkdir e of Throws x \<Rightarrow> (Throws x, w) | Returns _ \<Rightarrow> (Returns d, emit (MkDir d) w))"

definition write_task_json ::
    "JudgeSchedulerConfig \<Rightarrow> task_env \<Rightarrow> string \<Rightarrow> JudgeTask \<Rightarrow> 'cb world \<Rightarrow> unit outcome \<times> 'cb world" where
  "write_task_json cfg e path task w =
     (if \<not> te_opened e then (Throws (''cannot open task.json for writing: '' @ path), w)
      else
        case te_dump e (task_json cfg task) of
          Throws x \<Rightarrow> (Throws x, w)
        | Returns _ \<Rightarrow>
            let w = emit (WriteTask path (task_json cfg task)) w in
            if \<not> te_written e then (Throws (''task.json write failed: '' @ path), w) else (Returns (), w))"

text \<open>Whether the task file was written.\<close>

definition task_written :: "JudgeSchedulerConfig \<Rightarrow> task_env \<Rightarrow> JudgeTask \<Rightarrow> bool" where
  "task_written cfg e task \<longleftrightarrow> te_opened e \<and> (\<forall>x. te_dump e (task_json cfg task) \<noteq> Throws x) \<and> te_written e"

section \<open>Judging one task\<close>

text \<open>
  \<^verbatim>\<open>run_one_task\<close>, cut at its numbered steps; each part ends the run or goes on with the next one.
  Steps 7 to 11: collect the output, remove the container, store and announce the verdict.
\<close>

definition published_row :: "JudgeTask \<Rightarrow> JudgeResult \<Rightarrow> submission" where
  "published_row task r =
     \<lparr>sub_id = jt_submission_id task, sub_user_id = jt_user_id task, sub_problem_id = jt_problem_id task,
      sub_language = jt_language task, sub_code = jt_code task, sub_status = jr_status r,
      sub_time_used = (if jr_time_used_ms r > 0 then Some (jr_time_used_ms r) else None),
      sub_memory_used = (if jr_memory_used_kb r > 0 then Some (jr_memory_used_kb r) else None),
      sub_error_message = (if jr_error_message r = [] then None else Some (jr_error_message r)),
      sub_created_at = 0, sub_finished_at = None\<rparr>"

definition announce :: "task_env \<Rightarrow> JudgeTask \<Rightarrow> JudgeResult \<Rightarrow> 'cb world \<Rightarrow> 'cb world" where
  "announce e task r w =
     (let w = record_task_metrics e (jr_status r) w;
          w = (if jr_status r = ''ac''
               then emit (CheckIn (jt_user_id task) (jt_problem_id task) (jt_submission_id task)) w else w)
      in if te_notifier e then
           let (_, calls, n) = publish (jt_submission_id task, published_row task r) (w_notifier w)
           in w\<lparr>w_notifier := n, w_delivered := w_delivered w @ calls\<rparr>
         else w)"

definition store_verdict :: "task_env \<Rightarrow> JudgeTask \<Rightarrow> JudgeResult \<Rightarrow> 'cb world \<Rightarrow> 'cb world" where
  "store_verdict e task r w =
     (case mark_finished (te_finish_fault e) (te_db_now e) (jt_submission_id task) (jr_status r)
             (Some (jr_time_used_ms r)) (Some (jr_memory_used_kb r)) (jr_error_message r) (w_db w) of
        Inl _ \<Rightarrow> w
      | Inr (persisted, t) \<Rightarrow>
          let w = w\<lparr>w_db := t\<rparr> in if persisted then announce e task r w else w)"

definition collect_verdict ::
    "task_env \<Rightarrow> JudgeTask \<Rightarrow> string \<Rightarrow> string \<Rightarrow> bool \<Rightarrow> string \<Rightarrow> int \<Rightarrow> 'cb world \<Rightarrow> 'cb world" where
  "collect_verdict e task task_dir pool_id pool_gave_one cid exit_code w =
     (let logs = (case te_logs e of Returns l \<Rightarrow> l | Throws _ \<Rightarrow> []);
          w = try_remove cid (emit (Logs cid) w);
          r = parse_judge_result_json (te_parse e) logs exit_code
      in cleanup_and_release e task_dir pool_id pool_gave_one (store_verdict e task r w))"

text \<open>Steps 5 and 6: start the container and wait for it.\<close>

definition run_container ::
    "JudgeSchedulerConfig \<Rightarrow> task_env \<Rightarrow> JudgeTask \<Rightarrow> string \<Rightarrow> string \<Rightarrow> bool \<Rightarrow> string \<Rightarrow> 'cb world \<Rightarrow> 'cb world" where
  "run_container cfg e task task_dir pool_id pool_gave_one cid w =
     (let sid = jt_submission_id task; w = emit (Start cid) w in
      case te_start e of
        Throws x \<Rightarrow>
          cleanup_and_release e task_dir pool_id pool_gave_one
            (finish_se e sid (''docker start failed: '' @ x) (try_remove cid w))
      | Returns _ \<Rightarrow>
          let w = emit (Wait cid (int_add (int_mul (jc_judge_hard_timeout_seconds cfg) 1000) 5000)) w in
          (case te_wait e of
             WaitTimeout _ \<Rightarrow>
               cleanup_and_release e task_dir pool_id pool_gave_one
                 (finish_se e sid (''judge exceeded hard timeout (''
                    @ to_string (jc_judge_hard_timeout_seconds cfg) @ ''s)'') (try_kill_and_remove cid w))
           | WaitFailed x \<Rightarrow>
               cleanup_and_release e task_dir pool_id pool_gave_one
                 (finish_se e sid (''docker wait failed: '' @ x) (try_kill_and_remove cid w))
           | WaitDone code \<Rightarrow> collect_verdict e task task_dir pool_id pool_gave_one cid code w))"

text \<open>Step 4: the container of the task.\<close>

definition task_options :: "JudgeSchedulerConfig \<Rightarrow> JudgeTask \<Rightarrow> string \<Rightarrow> create_options" where
  "task_options cfg task task_file =
     \<lparr>co_image = jc_judge_image cfg, co_command = [''/usr/local/bin/judge.sh''],
      co_env = [''JUDGE_TASK_FILE='' @ task_file, ''JUDGE_HOME=/judge'', ''JUDGE_TMP=/tmp/judge''],
      co_working_dir = ''/judge'',
      co_mounts = (if jc_task_volume_name cfg \<noteq> []
                   then [VolumeMount (jc_task_volume_name cfg) ''/tmp/litecode-judge'' True]
                   else [BindMount task_file ''/tmp/task.json'' True]),
      co_network_mode = jc_network_mode cfg, co_read_only = True, co_memory_mb = jt_memory_limit_mb task,
      co_cpus = 0, co_pids_limit = 50, co_security_opt = [''no-new-privileges:true''],
      co_tmpfs = [(''/tmp'', ''size=64m,mode=1777,exec''), (''/judge'', ''size=64m,mode=1777,exec'')],
      co_user = ''judgeuser''\<rparr>"

definition create_container ::
    "JudgeSchedulerConfig \<Rightarrow> task_env \<Rightarrow> JudgeTask \<Rightarrow> string \<Rightarrow> string \<Rightarrow> string \<Rightarrow> bool \<Rightarrow> 'cb world \<Rightarrow> 'cb world" where
  "create_container cfg e task task_dir task_file pool_id pool_gave_one w =
     (let sid = jt_submission_id task; w = emit (Create (task_options cfg task task_file) (te_create e)) w in
      case te_create e of
        Throws x \<Rightarrow>
          cleanup_and_release e task_dir pool_id pool_gave_one (finish_se e sid (''docker create failed: '' @ x) w)
      | Returns cid \<Rightarrow>
          if cid = [] then
            cleanup_and_release e task_dir pool_id pool_gave_one (finish_se e sid ''docker create returned empty id'' w)
          else run_container cfg e task task_dir pool_id pool_gave_one cid w)"

text \<open>Step 3: take a container from the warm pool and discard it.\<close>

definition take_pool_slot :: "task_env \<Rightarrow> 'cb world \<Rightarrow> string \<times> bool \<times> 'cb world" where
  "take_pool_slot e w =
     (if \<not> te_pool e then ([], False, w)
      else
        let w = emit PoolAcquire w in
        case te_acquire e of
          Throws _ \<Rightarrow> ([], False, w)
        | Returns None \<Rightarrow> ([], False, w)
        | Returns (Some x) \<Rightarrow>
            let w = emit (Remove x) w in
            (case te_discard e of Throws _ \<Rightarrow> (x, False, w) | Returns _ \<Rightarrow> (x, True, w)))"

text \<open>Step 2: the task directory and file.\<close>

definition prepare_task :: "JudgeSchedulerConfig \<Rightarrow> task_env \<Rightarrow> JudgeTask \<Rightarrow> 'cb world \<Rightarrow> 'cb world" where
  "prepare_task cfg e task w =
     (let sid = jt_submission_id task in
      case make_task_dir cfg e sid w of
        (Throws x, w) \<Rightarrow> finish_se e sid (''failed to write task.json: '' @ x) w
      | (Returns d, w) \<Rightarrow>
          (case write_task_json cfg e (path_join d ''task.json'') task w of
             (Throws x, w) \<Rightarrow> finish_se e sid (''failed to write task.json: '' @ x) w
           | (Returns _, w) \<Rightarrow>
               let (pool_id, gave, w) = take_pool_slot e w
               in create_container cfg e task d (path_join d ''task.json'') pool_id gave w))"

text \<open>Step 1: claim the submission.\<close>

definition run_one_task :: "JudgeSchedulerConfig \<Rightarrow> task_env \<Rightarrow> JudgeTask \<Rightarrow> 'cb world \<Rightarrow> 'cb world" where
  "run_one_task cfg e task w =
     (if \<not> te_client e then finish_se e (jt_submission_id task) ''no docker client configured'' w
      else case mark_running (te_claim_fault e) (jt_submission_id task) (w_db w) of
             Inl _ \<Rightarrow> w
           | Inr (claimed, t) \<Rightarrow>
               let w = w\<lparr>w_db := t\<rparr> in if \<not> claimed then w else prepare_task cfg e task w)"

section \<open>The queue\<close>

record scheduler =
  sc_cfg :: JudgeSchedulerConfig
  sc_has_db :: bool
  sc_queue :: "JudgeTask list"
  sc_workers :: nat
  sc_running_count :: nat
  sc_running :: bool
  sc_shutting_down :: bool

text \<open>
  \<open>tmp_dir\<close> is \<^verbatim>\<open>temp_directory_path()\<close>, \<open>mkdir_ok\<close> whether the parent directory can be created,
  \<open>spawned\<close> how many threads can be started.
\<close>

definition start_scheduler :: "string outcome \<Rightarrow> bool \<Rightarrow> nat \<Rightarrow> scheduler \<Rightarrow> bool \<times> scheduler" where
  "start_scheduler tmp_dir mkdir_ok spawned s =
     (if sc_running s then (True, s)
      else if jc_max_concurrent (sc_cfg s) < 1 then (False, s)
      else if jc_judge_hard_timeout_seconds (sc_cfg s) < 1 then (False, s)
      else if jc_compile_timeout_ms (sc_cfg s) < 1 then (False, s)
      else if \<not> sc_has_db s then (False, s)
      else
        let dir = (if jc_task_dir_parent (sc_cfg s) = []
                   then (case tmp_dir of Returns d \<Rightarrow> d | Throws _ \<Rightarrow> ''/tmp'') else jc_task_dir_parent (sc_cfg s));
            s = s\<lparr>sc_cfg := (sc_cfg s)\<lparr>jc_task_dir_parent := dir\<rparr>\<rparr>
        in if \<not> mkdir_ok then (False, s)
           else if spawned < nat (jc_max_concurrent (sc_cfg s)) then
             (False, s\<lparr>sc_running := False, sc_shutting_down := True, sc_workers := 0\<rparr>)
           else (True, s\<lparr>sc_running := True, sc_workers := nat (jc_max_concurrent (sc_cfg s))\<rparr>))"

definition enqueue :: "JudgeTask \<Rightarrow> scheduler \<Rightarrow> bool \<times> scheduler" where
  "enqueue task s =
     (if \<not> sc_running s then (False, s)
      else if jc_max_queue_size (sc_cfg s) > 0 \<and> int (length (sc_queue s)) \<ge> jc_max_queue_size (sc_cfg s) then (False, s)
      else (True, s\<lparr>sc_queue := sc_queue s @ [task]\<rparr>))"

text \<open>
  One pass of a worker at the head of its loop: \<open>None\<close> is waiting, \<open>Some None\<close> is leaving the loop,
  \<open>Some (Some task)\<close> is taking a task.
\<close>

definition worker_take :: "scheduler \<Rightarrow> JudgeTask option option \<times> scheduler" where
  "worker_take s =
     (if \<not> sc_shutting_down s \<and> sc_queue s = [] then (None, s)
      else if sc_shutting_down s \<and> sc_queue s = [] then (Some None, s\<lparr>sc_workers := sc_workers s - 1\<rparr>)
      else (Some (Some (hd (sc_queue s))),
            s\<lparr>sc_queue := tl (sc_queue s), sc_running_count := sc_running_count s + 1\<rparr>))"

definition worker_done :: "scheduler \<Rightarrow> scheduler" where
  "worker_done s = s\<lparr>sc_running_count := sc_running_count s - 1\<rparr>"

text \<open>\<^verbatim>\<open>shutdown\<close>: the flag, and after all workers are joined the end.\<close>

definition shutdown_begin :: "scheduler \<Rightarrow> scheduler" where
  "shutdown_begin s =
     (if sc_shutting_down s \<and> \<not> sc_running s then s else s\<lparr>sc_shutting_down := True\<rparr>)"

definition shutdown_end :: "scheduler \<Rightarrow> scheduler" where
  "shutdown_end s = s\<lparr>sc_running := False\<rparr>"

definition scheduler_probe :: "scheduler option \<Rightarrow> ProbeResult" where
  "scheduler_probe so =
     (case so of
        None \<Rightarrow> \<lparr>pr_ok = False, pr_detail = ''no judge scheduler configured'', pr_extra = []\<rparr>
      | Some s \<Rightarrow>
          \<lparr>pr_ok = True, pr_detail = (if sc_running s then ''judge queue live'' else ''judge queue not running''),
           pr_extra = [(''queue_size'', int (length (sc_queue s))), (''running'', int (sc_running_count s)),
                       (''max_concurrent'', jc_max_concurrent (sc_cfg s)), (''max_queue_size'', jc_max_queue_size (sc_cfg s))]\<rparr>)"

definition make_default_scheduler_config ::
    "int \<Rightarrow> int \<Rightarrow> int \<Rightarrow> int \<Rightarrow> int \<Rightarrow> string \<Rightarrow> string \<Rightarrow> string \<Rightarrow> string \<Rightarrow> JudgeSchedulerConfig" where
  "make_default_scheduler_config max_concurrent_judges max_queue_size compile_timeout_seconds judge_hard_timeout_seconds
     output_limit_bytes judge_image network_mode task_volume_name task_dir_parent =
     \<lparr>jc_max_concurrent = max_concurrent_judges, jc_max_queue_size = max_queue_size,
      jc_compile_timeout_ms = int_mul compile_timeout_seconds 1000,
      jc_judge_hard_timeout_seconds = judge_hard_timeout_seconds, jc_output_limit_bytes = output_limit_bytes,
      jc_judge_image = judge_image, jc_network_mode = network_mode, jc_task_dir_parent = task_dir_parent,
      jc_task_volume_name = task_volume_name\<rparr>"

section \<open>Effects on the table\<close>

text \<open>\<open>only_row i t t'\<close>: the two tables differ at most in the row \<open>i\<close>, and in its mutable fields.\<close>

definition only_row :: "int \<Rightarrow> table \<Rightarrow> table \<Rightarrow> bool" where
  "only_row i t t' \<longleftrightarrow> map sub_id (rows t') = map sub_id (rows t)
     \<and> filter (\<lambda>r. sub_id r \<noteq> i) (rows t') = filter (\<lambda>r. sub_id r \<noteq> i) (rows t) \<and> auto_inc t' = auto_inc t"

lemma only_row_refl [simp]: "only_row i t t"
  by (simp add: only_row_def)

lemma only_row_trans: "only_row i t t' \<Longrightarrow> only_row i t' t'' \<Longrightarrow> only_row i t t''"
  by (simp add: only_row_def)

lemma filter_other_update:
  "(\<And>r. p r \<Longrightarrow> sub_id r = i) \<Longrightarrow> (\<And>r. sub_id (g r) = sub_id r) \<Longrightarrow>
     filter (\<lambda>r. sub_id r \<noteq> i) (map (\<lambda>r. if p r then g r else r) rs) = filter (\<lambda>r. sub_id r \<noteq> i) rs"
  by (induction rs) auto

lemma only_row_update:
  assumes "\<And>r. p r \<Longrightarrow> sub_id r = i" and "\<And>r. sub_id (g r) = sub_id r"
  shows "only_row i t (snd (update_where p g t))"
  using filter_other_update [of p i g "rows t"] assms by (simp add: only_row_def update_where_def)

lemma update_hit: "r \<in> set (rows t) \<Longrightarrow> p r \<Longrightarrow> g r \<in> set (rows (snd (update_where p g t)))"
  by (force simp: update_where_def)

lemma update_all:
  "\<forall>r \<in> set (rows t). p r \<longrightarrow> Q (g r) \<Longrightarrow> \<forall>r \<in> set (rows t). \<not> p r \<longrightarrow> Q r \<Longrightarrow>
     \<forall>r \<in> set (rows (snd (update_where p g t))). Q r"
  by (auto simp: update_where_def)

lemma mark_finished_row:
  assumes "mark_finished f now i st tm mem err t = Inr (b, t')"
  shows "only_row i t t'" and "is_valid_status st" and "is_terminal_status st"
    and "b \<Longrightarrow> \<exists>r \<in> set (rows t'). sub_id r = i \<and> sub_status r = st \<and> sub_finished_at r = Some now"
    and "\<forall>r \<in> set (rows t'). sub_id r = i \<longrightarrow> is_terminal_status (sub_status r)"
proof -
  let ?p = "\<lambda>r. sub_id r = i \<and> (sub_status r = ''pending'' \<or> sub_status r = ''running'')"
  let ?g = "\<lambda>r. r\<lparr>sub_status := st, sub_time_used := tm, sub_memory_used := mem,
                 sub_error_message := (if err = [] then None else Some err), sub_finished_at := Some now\<rparr>"
  from assms have st: "is_valid_status st" "is_terminal_status st" and t': "t' = snd (update_where ?p ?g t)"
    and b: "b \<longleftrightarrow> (\<exists>r \<in> set (rows t). ?p r)"
    by (auto simp: mark_finished_def sql_run_def update_where_def Let_def filter_empty_conv split: if_splits sql_fault.splits)
  show "only_row i t t'" unfolding t' by (rule only_row_update) simp_all
  show "is_valid_status st" "is_terminal_status st" by (rule st)+
  show "\<exists>r \<in> set (rows t'). sub_id r = i \<and> sub_status r = st \<and> sub_finished_at r = Some now" if b
  proof -
    from that b obtain r where r: "r \<in> set (rows t)" "?p r" by blast
    then have "?g r \<in> set (rows t')" unfolding t' by (rule update_hit)
    moreover have "sub_id (?g r) = i" using r(2) by simp
    ultimately show ?thesis by (intro bexI [of _ "?g r"] conjI) simp_all
  qed
  show "\<forall>r \<in> set (rows t'). sub_id r = i \<longrightarrow> is_terminal_status (sub_status r)"
    unfolding t' by (rule update_all) (use st(2) in \<open>auto simp: is_terminal_status_def\<close>)
qed

lemma mark_finished_total:
  "is_valid_status st \<Longrightarrow> is_terminal_status st \<Longrightarrow> \<exists>b t'. mark_finished NoFault now i st tm mem err t = Inr (b, t')"
  by (simp add: mark_finished_def sql_run_def Let_def split_beta)

lemma mark_running_row:
  assumes "mark_running f i t = Inr (b, t')"
  shows "only_row i t t'" and "\<forall>r \<in> set (rows t'). sub_id r = i \<longrightarrow> sub_status r \<noteq> ''pending''"
    and "b \<longleftrightarrow> (\<exists>r \<in> set (rows t). sub_id r = i \<and> sub_status r = ''pending'')"
    and "b \<Longrightarrow> \<exists>r \<in> set (rows t'). sub_id r = i \<and> sub_status r = ''running''"
proof -
  let ?p = "\<lambda>r. sub_id r = i \<and> sub_status r = ''pending''"
  let ?g = "\<lambda>r :: submission. r\<lparr>sub_status := ''running''\<rparr>"
  from assms have t': "t' = snd (update_where ?p ?g t)" and b: "b \<longleftrightarrow> (\<exists>r \<in> set (rows t). ?p r)"
    by (auto simp: mark_running_def sql_run_def update_where_def Let_def filter_empty_conv split: sql_fault.splits)
  show "only_row i t t'" unfolding t' by (rule only_row_update) simp_all
  show "\<forall>r \<in> set (rows t'). sub_id r = i \<longrightarrow> sub_status r \<noteq> ''pending''"
    unfolding t' by (rule update_all) auto
  show "b \<longleftrightarrow> (\<exists>r \<in> set (rows t). sub_id r = i \<and> sub_status r = ''pending'')" by (rule b)
  show "\<exists>r \<in> set (rows t'). sub_id r = i \<and> sub_status r = ''running''" if b
  proof -
    from that b obtain r where r: "r \<in> set (rows t)" "?p r" by blast
    then have "?g r \<in> set (rows t')" unfolding t' by (rule update_hit)
    moreover have "sub_id (?g r) = i" using r(2) by simp
    ultimately show ?thesis by (intro bexI [of _ "?g r"] conjI) simp_all
  qed
qed

section \<open>What the helpers do\<close>

definition quiet_events :: "jevent list \<Rightarrow> bool" where
  "quiet_events es \<longleftrightarrow> (\<forall>ev \<in> set es. case ev of Create _ _ \<Rightarrow> False | MkDir _ \<Rightarrow> False | _ \<Rightarrow> True)"

lemma emit_simps [simp]:
  "w_trace (emit ev w) = w_trace w @ [ev]" "w_db (emit ev w) = w_db w"
  "w_notifier (emit ev w) = w_notifier w" "w_delivered (emit ev w) = w_delivered w"
  by (simp_all add: emit_def)

lemma metrics_simps [simp]:
  "w_trace (record_task_metrics e st w) = w_trace w @ (if te_metrics e then [Metrics st] else [])"
  "w_db (record_task_metrics e st w) = w_db w"
  "w_notifier (record_task_metrics e st w) = w_notifier w" "w_delivered (record_task_metrics e st w) = w_delivered w"
  by (simp_all add: record_task_metrics_def)

lemma finish_se_simps [simp]:
  "w_trace (finish_se e sid err w) = w_trace w @ (if te_metrics e then [Metrics ''se''] else [])"
  "w_notifier (finish_se e sid err w) = w_notifier w" "w_delivered (finish_se e sid err w) = w_delivered w"
  by (auto simp: finish_se_def split: sum.splits)

lemma finish_se_db:
  "only_row sid (w_db w) (w_db (finish_se e sid err w))"
  "te_finish_fault e = NoFault \<Longrightarrow>
     \<forall>r \<in> set (rows (w_db (finish_se e sid err w))). sub_id r = sid \<longrightarrow> is_terminal_status (sub_status r)"
proof -
  show "only_row sid (w_db w) (w_db (finish_se e sid err w))"
    using mark_finished_row(1) by (fastforce simp: finish_se_def split: sum.splits)
  assume "te_finish_fault e = NoFault"
  then obtain b t where m: "mark_finished (te_finish_fault e) (te_db_now e) sid ''se'' None None err (w_db w) = Inr (b, t)"
    using mark_finished_total [of "''se''" "te_db_now e" sid None None err "w_db w"]
    by (auto simp: is_valid_status_def is_terminal_status_def)
  show "\<forall>r \<in> set (rows (w_db (finish_se e sid err w))). sub_id r = sid \<longrightarrow> is_terminal_status (sub_status r)"
    using mark_finished_row(5) [OF m] m by (simp add: finish_se_def)
qed

lemma try_simps [simp]:
  "w_trace (try_remove cid w) = w_trace w @ (if cid = [] then [] else [Remove cid])"
  "w_trace (try_kill_and_remove cid w) = w_trace w @ (if cid = [] then [] else [Kill cid, Remove cid])"
  "w_db (try_remove cid w) = w_db w" "w_db (try_kill_and_remove cid w) = w_db w"
  "w_notifier (try_remove cid w) = w_notifier w" "w_notifier (try_kill_and_remove cid w) = w_notifier w"
  "w_delivered (try_remove cid w) = w_delivered w" "w_delivered (try_kill_and_remove cid w) = w_delivered w"
  by (simp_all add: try_remove_def try_kill_and_remove_def)

lemma cleanup_simps [simp]:
  "w_trace (cleanup_and_release e d pid g w)
     = w_trace w @ RmDir d # (if te_pool e \<and> g \<and> pid \<noteq> [] then [PoolRelease pid] else [])"
  "w_db (cleanup_and_release e d pid g w) = w_db w"
  "w_notifier (cleanup_and_release e d pid g w) = w_notifier w"
  "w_delivered (cleanup_and_release e d pid g w) = w_delivered w"
  by (simp_all add: cleanup_and_release_def Let_def)

lemma announce_simps [simp]:
  "w_db (announce e task r w) = w_db w"
  "w_delivered (announce e task r w) = w_delivered w
     @ (if te_notifier e then map (\<lambda>cb. (cb, published_row task r)) (subscribers (jt_submission_id task) (w_notifier w)) else [])"
  by (simp_all add: announce_def Let_def publish_calls case_prod_beta)

lemma announce_trace:
  "w_trace (announce e task r w) = w_trace w @ (if te_metrics e then [Metrics (jr_status r)] else [])
     @ (if jr_status r = ''ac'' then [CheckIn (jt_user_id task) (jt_problem_id task) (jt_submission_id task)] else [])"
  by (simp add: announce_def Let_def case_prod_beta)

lemma store_trace: "\<exists>es. w_trace (store_verdict e task r w) = w_trace w @ es \<and> quiet_events es"
proof (cases "mark_finished (te_finish_fault e) (te_db_now e) (jt_submission_id task) (jr_status r)
             (Some (jr_time_used_ms r)) (Some (jr_memory_used_kb r)) (jr_error_message r) (w_db w)")
  case (Inl x)
  then show ?thesis by (simp add: store_verdict_def quiet_events_def)
next
  case (Inr x)
  then show ?thesis
    by (cases x) (auto simp: store_verdict_def Let_def announce_trace quiet_events_def)
qed

section \<open>Traces of a run\<close>

lemma quiet_simps [simp]:
  "quiet_events []" "quiet_events (xs @ ys) \<longleftrightarrow> quiet_events xs \<and> quiet_events ys"
  "quiet_events (x # xs) \<longleftrightarrow> (case x of Create _ _ \<Rightarrow> False | MkDir _ \<Rightarrow> False | _ \<Rightarrow> True) \<and> quiet_events xs"
  by (auto simp: quiet_events_def)

text \<open>Events after a container exists: no further create, the container and the directory removed.\<close>

definition closes :: "string \<Rightarrow> string \<Rightarrow> jevent list \<Rightarrow> bool" where
  "closes cid d es \<longleftrightarrow> quiet_events es \<and> Remove cid \<in> set es \<and> RmDir d \<in> set es"

lemma collect_trace:
  assumes "cid \<noteq> []"
  shows "\<exists>es. w_trace (collect_verdict e task d pid g cid code w) = w_trace w @ es \<and> closes cid d es"
proof -
  let ?w = "try_remove cid (emit (Logs cid) w)"
  let ?r = "parse_judge_result_json (te_parse e) (case te_logs e of Returns l \<Rightarrow> l | Throws _ \<Rightarrow> []) code"
  obtain es where es: "w_trace (store_verdict e task ?r ?w) = w_trace ?w @ es" "quiet_events es"
    using store_trace by blast
  then show ?thesis using assms by (auto simp: collect_verdict_def Let_def closes_def)
qed

lemma run_container_trace:
  assumes "cid \<noteq> []"
  shows "\<exists>es. w_trace (run_container cfg e task d pid g cid w) = w_trace w @ es \<and> closes cid d es"
proof (cases "te_start e")
  case (Throws x)
  then show ?thesis using assms by (auto simp: run_container_def Let_def closes_def)
next
  case (Returns u)
  show ?thesis
  proof (cases "te_wait e")
    case (WaitDone code)
    let ?w = "emit (Wait cid (int_add (int_mul (jc_judge_hard_timeout_seconds cfg) 1000) 5000)) (emit (Start cid) w)"
    obtain es where "w_trace (collect_verdict e task d pid g cid code ?w) = w_trace ?w @ es" "closes cid d es"
      using collect_trace [OF assms] by blast
    then show ?thesis using Returns WaitDone by (auto simp: run_container_def Let_def closes_def)
  qed (use Returns assms in \<open>auto simp: run_container_def Let_def closes_def\<close>)
qed

lemma create_trace:
  "\<exists>es. w_trace (create_container cfg e task d f pid g w)
     = w_trace w @ Create (task_options cfg task f) (te_create e) # es
   \<and> quiet_events es \<and> RmDir d \<in> set es \<and> (\<forall>c. te_create e = Returns c \<and> c \<noteq> [] \<longrightarrow> Remove c \<in> set es)"
proof (cases "te_create e")
  case (Throws x)
  then show ?thesis by (auto simp: create_container_def Let_def)
next
  case (Returns c)
  let ?w = "emit (Create (task_options cfg task f) (te_create e)) w"
  show ?thesis
  proof (cases "c = []")
    case False
    obtain es where "w_trace (run_container cfg e task d pid g c ?w) = w_trace ?w @ es" "closes c d es"
      using run_container_trace [OF False] by blast
    then show ?thesis using Returns False by (auto simp: create_container_def Let_def closes_def)
  qed (use Returns in \<open>auto simp: create_container_def Let_def\<close>)
qed

lemma take_pool_trace:
  "\<exists>es. w_trace (snd (snd (take_pool_slot e w))) = w_trace w @ es \<and> quiet_events es
     \<and> (te_pool e \<and> te_acquire e = Returns (Some x) \<longrightarrow> Remove x \<in> set es)"
  by (auto simp: take_pool_slot_def Let_def split: outcome.splits option.splits)

text \<open>Every container is removed after its creation; every directory too, unless writing the task failed.\<close>

definition tidy :: "bool \<Rightarrow> jevent list \<Rightarrow> bool" where
  "tidy ok es \<longleftrightarrow>
     (\<forall>xs opts c ys. es = xs @ Create opts (Returns c) # ys \<and> c \<noteq> [] \<longrightarrow> Remove c \<in> set ys)
     \<and> (\<forall>xs d ys. es = xs @ MkDir d # ys \<longrightarrow> RmDir d \<in> set ys \<or> \<not> ok)"

lemma quiet_no_create: "quiet_events (xs @ Create opts r # ys) \<Longrightarrow> False" "quiet_events (xs @ MkDir d # ys) \<Longrightarrow> False"
  by simp_all

lemma tidy_quiet: "quiet_events es \<Longrightarrow> tidy ok es"
  using quiet_no_create by (auto simp: tidy_def)

lemma quiet_split:
  assumes "pre @ z # post = xs @ y # ys" and "quiet_events pre" and "quiet_events post"
    and "\<not> quiet_events [y]"
  shows "y = z \<and> ys = post"
proof -
  have "\<not> y \<in> set pre" "\<not> y \<in> set post" using assms by (auto simp: quiet_events_def split: jevent.splits)
  then show ?thesis using assms(1) by (auto simp: append_eq_append_conv2 append_eq_Cons_conv Cons_eq_append_conv)
qed

lemma tidy_run:
  assumes q: "quiet_events mid" "quiet_events post" and d: "RmDir d \<in> set post"
    and c: "\<forall>c. r = Returns c \<and> c \<noteq> [] \<longrightarrow> Remove c \<in> set post"
  shows "tidy ok (MkDir d # mid @ Create opts r # post)"
proof -
  have "Remove c \<in> set ys" if h: "MkDir d # mid @ Create opts r # post = xs @ Create o' (Returns c) # ys" "c \<noteq> []" for xs o' c ys
  proof (cases xs)
    case (Cons x xs')
    then have "mid @ Create opts r # post = xs' @ Create o' (Returns c) # ys" using h(1) by simp
    then have "Create o' (Returns c) = Create opts r \<and> ys = post" by (rule quiet_split) (use q in simp_all)
    then show ?thesis using c h(2) by auto
  qed (use h in simp)
  moreover have "RmDir d' \<in> set ys" if h: "MkDir d # mid @ Create opts r # post = xs @ MkDir d' # ys" for xs d' ys
  proof (cases xs)
    case Nil
    then show ?thesis using h d by auto
  next
    case (Cons x xs')
    then have "mid @ Create opts r # post = xs' @ MkDir d' # ys" using h by simp
    then have "MkDir d' = Create opts r" using quiet_split [of mid "Create opts r" post xs' "MkDir d'" ys] q by simp
    then show ?thesis by simp
  qed
  ultimately show ?thesis unfolding tidy_def by blast
qed

lemma prepare_trace: "\<exists>es. w_trace (prepare_task cfg e task w) = w_trace w @ es \<and> tidy (task_written cfg e task) es"
proof (cases "te_mkdir e")
  case (Throws x)
  then show ?thesis by (auto simp: prepare_task_def make_task_dir_def Let_def tidy_quiet)
next
  case (Returns u)
  let ?d = "task_dir_of cfg e (jt_submission_id task)"
  let ?f = "path_join ?d ''task.json''"
  show ?thesis
  proof (cases "task_written cfg e task")
    case False
    have "tidy False [MkDir ?d]" "tidy False [MkDir ?d, Metrics ''se'']"
      "tidy False [MkDir ?d, WriteTask ?f (task_json cfg task)]"
      "tidy False [MkDir ?d, WriteTask ?f (task_json cfg task), Metrics ''se'']"
      by (auto simp: tidy_def Cons_eq_append_conv)
    then show ?thesis using Returns False
      by (auto simp: prepare_task_def make_task_dir_def write_task_json_def task_written_def Let_def split: outcome.splits)
  next
    case True
    let ?w = "emit (WriteTask ?f (task_json cfg task)) (emit (MkDir ?d) w)"
    obtain pid g w2 where p: "take_pool_slot e ?w = (pid, g, w2)" by (rule prod_cases3)
    obtain es1 where e1: "w_trace w2 = w_trace ?w @ es1" "quiet_events es1"
      using take_pool_trace [of e ?w] p by auto
    obtain es2 where e2: "w_trace (create_container cfg e task ?d ?f pid g w2)
         = w_trace w2 @ Create (task_options cfg task ?f) (te_create e) # es2"
      "quiet_events es2" "RmDir ?d \<in> set es2" "\<forall>c. te_create e = Returns c \<and> c \<noteq> [] \<longrightarrow> Remove c \<in> set es2"
      using create_trace by blast
    have "w_trace (prepare_task cfg e task w)
        = w_trace w @ MkDir ?d # (WriteTask ?f (task_json cfg task) # es1) @ Create (task_options cfg task ?f) (te_create e) # es2"
      using Returns True p e1(1) e2(1)
      by (auto simp: prepare_task_def make_task_dir_def write_task_json_def task_written_def Let_def split: outcome.splits)
    moreover have "tidy (task_written cfg e task) (MkDir ?d # (WriteTask ?f (task_json cfg task) # es1) @ Create (task_options cfg task ?f) (te_create e) # es2)"
      by (rule tidy_run) (use e1(2) e2 in simp_all)
    ultimately show ?thesis by blast
  qed
qed

lemma run_trace: "\<exists>es. w_trace (run_one_task cfg e task w) = w_trace w @ es \<and> tidy (task_written cfg e task) es"
proof -
  have "\<exists>es. w_trace (prepare_task cfg e task (w\<lparr>w_db := t\<rparr>)) = w_trace w @ es \<and> tidy (task_written cfg e task) es" for t
    using prepare_trace [of cfg e task "w\<lparr>w_db := t\<rparr>"] by simp
  then show ?thesis by (auto simp: run_one_task_def Let_def tidy_quiet split: sum.splits)
qed

section \<open>Verdicts\<close>

definition verdict_of :: "task_env \<Rightarrow> int \<Rightarrow> JudgeResult" where
  "verdict_of e code = parse_judge_result_json (te_parse e) (case te_logs e of Returns l \<Rightarrow> l | Throws _ \<Rightarrow> []) code"

definition settled :: "int \<Rightarrow> table \<Rightarrow> bool" where
  "settled i t \<longleftrightarrow> (\<forall>r \<in> set (rows t). sub_id r = i \<longrightarrow> is_terminal_status (sub_status r))"

text \<open>The judge ran to its end but reported a status that is not a verdict.\<close>

definition no_verdict :: "task_env \<Rightarrow> bool" where
  "no_verdict e \<longleftrightarrow> (case te_wait e of
     WaitDone code \<Rightarrow> \<not> (is_valid_status (jr_status (verdict_of e code)) \<and> is_terminal_status (jr_status (verdict_of e code)))
   | _ \<Rightarrow> False)"

definition announced_ok :: "task_env \<Rightarrow> int \<Rightarrow> table \<Rightarrow> 'cb list \<Rightarrow> ('cb \<times> submission) list \<Rightarrow> bool" where
  "announced_ok e i t listeners ds \<longleftrightarrow> ds = [] \<or>
     (\<exists>code row. te_wait e = WaitDone code \<and> ds = map (\<lambda>cb. (cb, row)) listeners \<and> sub_id row = i
        \<and> sub_status row = jr_status (verdict_of e code)
        \<and> (\<exists>r \<in> set (rows t). sub_id r = i \<and> sub_status r = sub_status row \<and> is_terminal_status (sub_status r)))"

definition run_ok :: "task_env \<Rightarrow> int \<Rightarrow> 'cb world \<Rightarrow> 'cb world \<Rightarrow> bool" where
  "run_ok e i w w' \<longleftrightarrow>
     only_row i (w_db w) (w_db w')
     \<and> (te_finish_fault e = NoFault \<longrightarrow> settled i (w_db w') \<or> no_verdict e \<and> w_db w' = w_db w)
     \<and> (\<exists>ds. w_delivered w' = w_delivered w @ ds \<and> announced_ok e i (w_db w') (subscribers i (w_notifier w)) ds)"

lemma run_ok_finish_se [simp]: "run_ok e i w (finish_se e i err w)"
  using finish_se_db(1) [where sid = i and e = e and err = err and w = w]
    finish_se_db(2) [where sid = i and e = e and err = err and w = w]
  by (simp add: run_ok_def settled_def announced_ok_def)

text \<open>Events and the final cleanup do not matter for it.\<close>

definition same_state :: "'cb world \<Rightarrow> 'cb world \<Rightarrow> bool" where
  "same_state w w' \<longleftrightarrow> w_db w' = w_db w \<and> w_notifier w' = w_notifier w \<and> w_delivered w' = w_delivered w"

lemma run_ok_from: "same_state w w1 \<Longrightarrow> run_ok e i w1 w' \<Longrightarrow> run_ok e i w w'"
  by (simp add: run_ok_def same_state_def)

lemma run_ok_cleanup [simp]: "run_ok e i w (cleanup_and_release e d pid g w') \<longleftrightarrow> run_ok e i w w'"
  by (simp add: run_ok_def)

lemma store_ok:
  assumes "te_wait e = WaitDone code"
  shows "run_ok e (jt_submission_id task) w (store_verdict e task (verdict_of e code) w)"
proof (cases "mark_finished (te_finish_fault e) (te_db_now e) (jt_submission_id task) (jr_status (verdict_of e code))
     (Some (jr_time_used_ms (verdict_of e code))) (Some (jr_memory_used_kb (verdict_of e code)))
     (jr_error_message (verdict_of e code)) (w_db w)")
  case (Inl x)
  have "no_verdict e" if "te_finish_fault e = NoFault"
    using Inl that mark_finished_total [of "jr_status (verdict_of e code)"] assms
    by (metis Inl_Inr_False no_verdict_def wait_result.simps(10))
  then show ?thesis using Inl by (simp add: run_ok_def store_verdict_def announced_ok_def)
next
  case (Inr x)
  obtain b t where x: "x = (b, t)" by (cases x)
  note m = mark_finished_row [OF Inr [unfolded x]]
  have "announced_ok e (jt_submission_id task) t (subscribers (jt_submission_id task) (w_notifier w))
      (map (\<lambda>cb. (cb, published_row task (verdict_of e code))) (subscribers (jt_submission_id task) (w_notifier w)))" if flipped: b
  proof -
    obtain r where r: "r \<in> set (rows t)" "sub_id r = jt_submission_id task" "sub_status r = jr_status (verdict_of e code)"
      using m(4) [OF flipped] by blast
    then show ?thesis unfolding announced_ok_def using assms m(3)
      by (intro disjI2 exI [of _ code] exI [of _ "published_row task (verdict_of e code)"])
         (auto simp: published_row_def)
  qed
  then show ?thesis
    using Inr x m(1,5) by (cases b) (auto simp: run_ok_def store_verdict_def Let_def settled_def announced_ok_def)
qed

lemma collect_ok:
  assumes "te_wait e = WaitDone code"
  shows "run_ok e (jt_submission_id task) w (collect_verdict e task d pid g cid code w)"
proof -
  let ?w = "try_remove cid (emit (Logs cid) w)"
  have "run_ok e (jt_submission_id task) ?w (store_verdict e task (verdict_of e code) ?w)" by (rule store_ok [OF assms])
  then have "run_ok e (jt_submission_id task) w (store_verdict e task (verdict_of e code) ?w)"
    by (rule run_ok_from [rotated]) (simp add: same_state_def)
  then show ?thesis by (simp add: collect_verdict_def Let_def verdict_of_def)
qed

lemma run_ok_finish_from: "same_state w w1 \<Longrightarrow> run_ok e i w (finish_se e i err w1)"
  by (rule run_ok_from [OF _ run_ok_finish_se])

lemma run_container_ok: "run_ok e (jt_submission_id task) w (run_container cfg e task d pid g cid w)"
proof (cases "te_start e")
  case (Throws x)
  then show ?thesis by (simp add: run_container_def Let_def run_ok_finish_from same_state_def)
next
  case (Returns u)
  let ?w = "emit (Wait cid (int_add (int_mul (jc_judge_hard_timeout_seconds cfg) 1000) 5000)) (emit (Start cid) w)"
  show ?thesis
  proof (cases "te_wait e")
    case (WaitDone code)
    have "run_ok e (jt_submission_id task) w (collect_verdict e task d pid g cid code ?w)"
      by (rule run_ok_from [OF _ collect_ok [OF WaitDone]]) (simp add: same_state_def)
    then show ?thesis using Returns WaitDone by (simp add: run_container_def Let_def)
  qed (use Returns in \<open>simp_all add: run_container_def Let_def run_ok_finish_from same_state_def\<close>)
qed

lemma create_ok: "run_ok e (jt_submission_id task) w (create_container cfg e task d f pid g w)"
proof (cases "te_create e")
  case (Throws x)
  then show ?thesis by (simp add: create_container_def Let_def run_ok_finish_from same_state_def)
next
  case (Returns c)
  have "run_ok e (jt_submission_id task) w
      (run_container cfg e task d pid g c (emit (Create (task_options cfg task f) (te_create e)) w))"
    by (rule run_ok_from [OF _ run_container_ok]) (simp add: same_state_def)
  then show ?thesis using Returns by (simp add: create_container_def Let_def run_ok_finish_from same_state_def)
qed

lemma take_pool_state: "take_pool_slot e w = (pid, g, w') \<Longrightarrow> same_state w w'"
  by (auto simp: take_pool_slot_def Let_def same_state_def split: if_splits outcome.splits option.splits)

lemma prepare_ok: "run_ok e (jt_submission_id task) w (prepare_task cfg e task w)"
proof -
  let ?d = "task_dir_of cfg e (jt_submission_id task)"
  let ?w = "emit (WriteTask (path_join ?d ''task.json'') (task_json cfg task)) (emit (MkDir ?d) w)"
  obtain pid g w2 where p: "take_pool_slot e ?w = (pid, g, w2)" by (rule prod_cases3)
  have "same_state w w2" using take_pool_state [OF p] by (simp add: same_state_def)
  then have "run_ok e (jt_submission_id task) w (create_container cfg e task ?d (path_join ?d ''task.json'') pid g w2)"
    by (rule run_ok_from [OF _ create_ok])
  then show ?thesis
    using p by (auto simp: prepare_task_def make_task_dir_def write_task_json_def Let_def run_ok_finish_from same_state_def
        split: outcome.splits)
qed

lemma run_task_cases:
  assumes "te_client e" and "mark_running (te_claim_fault e) (jt_submission_id task) (w_db w) = Inr (b, t)"
  shows "run_one_task cfg e task w = (if b then prepare_task cfg e task (w\<lparr>w_db := t\<rparr>) else w\<lparr>w_db := t\<rparr>)"
  using assms by (simp add: run_one_task_def Let_def)

lemma run_task_ok:
  "only_row (jt_submission_id task) (w_db w) (w_db (run_one_task cfg e task w))
   \<and> (\<exists>ds. w_delivered (run_one_task cfg e task w) = w_delivered w @ ds
        \<and> announced_ok e (jt_submission_id task) (w_db (run_one_task cfg e task w))
             (subscribers (jt_submission_id task) (w_notifier w)) ds)"
proof (cases "te_client e")
  case False
  then show ?thesis
    using run_ok_finish_se [of e "jt_submission_id task" w] by (simp add: run_one_task_def run_ok_def announced_ok_def)
next
  case True
  show ?thesis
  proof (cases "mark_running (te_claim_fault e) (jt_submission_id task) (w_db w)")
    case (Inl x)
    then show ?thesis using True by (simp add: run_one_task_def announced_ok_def)
  next
    case (Inr x)
    obtain b t where x: "x = (b, t)" by (cases x)
    note r = run_task_cases [OF True Inr [unfolded x], of cfg]
    have o: "only_row (jt_submission_id task) (w_db w) t" by (rule mark_running_row(1) [OF Inr [unfolded x]])
    show ?thesis
      using prepare_ok [of e task "w\<lparr>w_db := t\<rparr>" cfg] o
      by (auto simp: r run_ok_def announced_ok_def intro: only_row_trans)
  qed
qed

section \<open>Queue steps\<close>

text \<open>The scheduler with the tasks it accepted and the tasks its workers took, in order.\<close>

inductive sq_step :: "scheduler \<times> JudgeTask list \<times> JudgeTask list \<Rightarrow> scheduler \<times> JudgeTask list \<times> JudgeTask list \<Rightarrow> bool" where
  accept: "enqueue task s = (True, s') \<Longrightarrow> sq_step (s, a, k) (s', a @ [task], k)"
| refuse: "enqueue task s = (False, s') \<Longrightarrow> sq_step (s, a, k) (s', a, k)"
| takes: "0 < sc_workers s \<Longrightarrow> worker_take s = (Some (Some task), s') \<Longrightarrow> sq_step (s, a, k) (s', a, k @ [task])"
| leaves: "0 < sc_workers s \<Longrightarrow> worker_take s = (Some None, s') \<Longrightarrow> sq_step (s, a, k) (s', a, k)"
| finishes: "0 < sc_running_count s \<Longrightarrow> sq_step (s, a, k) (worker_done s, a, k)"
| stop: "sq_step (s, a, k) (shutdown_begin s, a, k)"
| stopped: "sc_shutting_down s \<Longrightarrow> sc_workers s = 0 \<Longrightarrow> sq_step (s, a, k) (shutdown_end s, a, k)"

definition sq_inv :: "scheduler \<times> JudgeTask list \<times> JudgeTask list \<Rightarrow> bool" where
  "sq_inv st = (case st of (s, a, k) \<Rightarrow>
     a = k @ sc_queue s
     \<and> (jc_max_queue_size (sc_cfg s) > 0 \<longrightarrow> int (length (sc_queue s)) \<le> jc_max_queue_size (sc_cfg s)))"

lemma sq_step_inv: "sq_step st st' \<Longrightarrow> sq_inv st \<Longrightarrow> sq_inv st'"
  by (induction rule: sq_step.induct)
     (auto simp: sq_inv_def enqueue_def worker_take_def worker_done_def shutdown_begin_def shutdown_end_def split: if_splits)

lemma sq_steps_inv: "sq_step\<^sup>*\<^sup>* st st' \<Longrightarrow> sq_inv st \<Longrightarrow> sq_inv st'"
  by (induction rule: rtranclp_induct) (auto intro: sq_step_inv)

section \<open>The last line\<close>

lemma split_lines_prefix: "\<exists>ls. split_lines cur (p @ CHR 0x0A # q) = ls @ split_lines [] q"
proof (induction p arbitrary: cur)
  case (Cons c p)
  show ?case using Cons [of "[]"] Cons [of "cur @ [c]"] Cons [of cur] by (auto intro: exI [of _ "cur # _"])
qed (auto intro: exI [of _ "[cur]"])

lemma split_lines_after:
  assumes "earlier = [] \<or> last earlier = CHR 0x0A"
  shows "\<exists>ls. split_lines [] (earlier @ q) = ls @ split_lines [] q"
proof (cases "earlier = []")
  case False
  then have "earlier = butlast earlier @ [CHR 0x0A]" using assms by (metis append_butlast_last_id)
  then show ?thesis using split_lines_prefix [of "[]" "butlast earlier" q] by (metis append.assoc append_Cons append_Nil)
qed simp

lemma split_lines_one:
  "CHR 0x0A \<notin> set line \<Longrightarrow> CHR 0x0D \<notin> set line \<Longrightarrow> cur @ line \<noteq> [] \<Longrightarrow> split_lines cur line = [cur @ line]"
  by (induction line arbitrary: cur) auto

lemma split_lines_one_LF:
  "CHR 0x0A \<notin> set line \<Longrightarrow> CHR 0x0D \<notin> set line \<Longrightarrow> split_lines cur (line @ [CHR 0x0A]) = [cur @ line]"
  by (induction line arbitrary: cur) auto

section \<open>Properties\<close>

text \<open>
  C9. A run cleans up after itself whatever docker, the file system, the database or the pool do:
  every container it created is removed after its creation, and the task directory is removed on
  every path except when writing the task file fails: the file cannot be opened, the task cannot be
  printed as JSON (a string in it is not UTF-8), or the stream reports an error.
\<close>

theorem run_cleans_up:
  "\<exists>es. w_trace (run_one_task cfg e task w) = w_trace w @ es
    \<and> (\<forall>xs opts c ys. es = xs @ Create opts (Returns c) # ys \<and> c \<noteq> [] \<longrightarrow> Remove c \<in> set ys)
    \<and> (\<forall>xs d ys. es = xs @ MkDir d # ys \<longrightarrow> RmDir d \<in> set ys \<or> \<not> te_opened e
         \<or> (\<exists>x. te_dump e (task_json cfg task) = Throws x) \<or> \<not> te_written e)"
  using run_trace [of cfg e task w] unfolding tidy_def task_written_def by blast

definition demo_cfg :: JudgeSchedulerConfig where
  "demo_cfg = make_default_scheduler_config 1 2 10 30 1024 ''judge'' ''none'' [] ''/tmp''"

definition demo_task :: JudgeTask where
  "demo_task = \<lparr>jt_submission_id = 1, jt_user_id = 3, jt_problem_id = 4, jt_language = ''cpp'', jt_code = ''x'',
     jt_time_limit_ms = 1000, jt_memory_limit_mb = 64, jt_compile_timeout_ms = 1000, jt_test_cases = [],
     jt_spj_source = [], jt_spj_language = []\<rparr>"

definition demo_env :: "string \<Rightarrow> task_env" where
  "demo_env status = \<lparr>te_client = True, te_pool = False, te_notifier = True, te_metrics = True,
     te_claim_fault = NoFault, te_finish_fault = NoFault, te_db_now = 9, te_now_us = 5,
     te_mkdir = Returns (), te_opened = True, te_dump = (\<lambda>_. Returns []), te_written = True, te_acquire = Returns None, te_discard = Returns (),
     te_create = Returns ''c1'', te_start = Returns (), te_wait = WaitDone 0, te_logs = Returns ''{}'',
     te_parse = (\<lambda>_. Returns (JObj [(''status'', JStr status)]))\<rparr>"

definition demo_world :: "string world" where
  "demo_world = \<lparr>w_db = demo_table ''pending'' None, w_notifier = notifier_demo, w_delivered = [], w_trace = []\<rparr>"

theorem run_cleans_up_witness:
  "\<exists>xs ys. w_trace (run_one_task demo_cfg (demo_env ''ac'') demo_task demo_world)
     = xs @ Create (task_options demo_cfg demo_task ''/tmp/litecode-judge-1-5/task.json'') (Returns ''c1'') # ys
   \<and> Remove ''c1'' \<in> set ys"
proof -
  let ?tr = "w_trace (run_one_task demo_cfg (demo_env ''ac'') demo_task demo_world)"
  let ?xs = "[MkDir ''/tmp/litecode-judge-1-5'', WriteTask ''/tmp/litecode-judge-1-5/task.json'' (task_json demo_cfg demo_task)]"
  let ?ys = "[Start ''c1'', Wait ''c1'' 35000, Logs ''c1'', Remove ''c1'', Metrics ''ac'', CheckIn 3 4 1,
              RmDir ''/tmp/litecode-judge-1-5'']"
  have tr: "?tr = ?xs @ Create (task_options demo_cfg demo_task ''/tmp/litecode-judge-1-5/task.json'') (Returns ''c1'') # ?ys"
    by code_simp
  have "w_trace demo_world = []" by (simp add: demo_world_def)
  then have "\<forall>xs opts c ys. ?tr = xs @ Create opts (Returns c) # ys \<and> c \<noteq> [] \<longrightarrow> Remove c \<in> set ys"
    using run_cleans_up [of demo_cfg "demo_env ''ac''" demo_task demo_world] by auto
  then show ?thesis using tr by blast
qed

text \<open>
  C2. A pending submission whose task is run gets a verdict, if the database answers: afterwards it is
  finished, whichever step failed, or the judge container ran to its end and reported a status that
  is not a verdict, and then the submission is left running.
\<close>

theorem run_reaches_verdict:
  assumes "te_claim_fault e = NoFault" and "te_finish_fault e = NoFault"
    and "\<exists>r \<in> set (rows (w_db w)). sub_id r = jt_submission_id task \<and> sub_status r = ''pending''"
  shows "settled (jt_submission_id task) (w_db (run_one_task cfg e task w))
    \<or> (no_verdict e \<and> (\<exists>r \<in> set (rows (w_db (run_one_task cfg e task w))).
                           sub_id r = jt_submission_id task \<and> sub_status r = ''running''))"
proof (cases "te_client e")
  case False
  have "settled (jt_submission_id task) (w_db (finish_se e (jt_submission_id task) ''no docker client configured'' w))"
    unfolding settled_def by (rule finish_se_db(2) [OF assms(2)])
  then show ?thesis using False by (simp add: run_one_task_def)
next
  case True
  obtain b t where m: "mark_running (te_claim_fault e) (jt_submission_id task) (w_db w) = Inr (b, t)"
    using assms(1) by (simp add: mark_running_def sql_run_def Let_def split_beta)
  have b: b using mark_running_row(3) [OF m] assms(3) by blast
  have "run_one_task cfg e task w = prepare_task cfg e task (w\<lparr>w_db := t\<rparr>)"
    using run_task_cases [OF True m] b by simp
  moreover have "run_ok e (jt_submission_id task) (w\<lparr>w_db := t\<rparr>) (prepare_task cfg e task (w\<lparr>w_db := t\<rparr>))"
    by (rule prepare_ok)
  ultimately show ?thesis using assms(2) mark_running_row(4) [OF m b] by (auto simp: run_ok_def)
qed

theorem run_reaches_verdict_witness:
  "settled 1 (w_db (run_one_task demo_cfg (demo_env ''ac'') demo_task demo_world))
   \<or> no_verdict (demo_env ''ac'')"
proof -
  have f: "te_claim_fault (demo_env ''ac'') = NoFault" "te_finish_fault (demo_env ''ac'') = NoFault"
    by (simp_all add: demo_env_def)
  have p: "\<exists>r \<in> set (rows (w_db demo_world)). sub_id r = jt_submission_id demo_task \<and> sub_status r = ''pending''"
    by (simp add: demo_world_def demo_task_def demo_table_def demo_row_def)
  show ?thesis using run_reaches_verdict [OF f p, of demo_cfg] by (auto simp: demo_task_def)
qed

text \<open>
  A judge that reports an unknown or unfinished status leaves the submission running: nothing is
  stored, no one is told and no metric is recorded, although the container ran and was removed.
\<close>

theorem unknown_status_stuck:
  assumes "te_client e" and "mark_running (te_claim_fault e) (jt_submission_id task) (w_db w) = Inr (True, t)"
    and "te_mkdir e = Returns ()" and "task_written cfg e task" and "\<not> te_pool e"
    and "te_create e = Returns c" and "c \<noteq> []" and "te_start e = Returns ()" and "no_verdict e"
  shows "w_db (run_one_task cfg e task w) = t
    \<and> (\<exists>r \<in> set (rows t). sub_id r = jt_submission_id task \<and> sub_status r = ''running'')
    \<and> w_delivered (run_one_task cfg e task w) = w_delivered w
    \<and> (\<forall>st. Metrics st \<in> set (w_trace (run_one_task cfg e task w)) \<longrightarrow> Metrics st \<in> set (w_trace w))"
proof -
  obtain code where code: "te_wait e = WaitDone code"
    and bad: "\<not> (is_valid_status (jr_status (verdict_of e code)) \<and> is_terminal_status (jr_status (verdict_of e code)))"
    using assms(9) by (auto simp: no_verdict_def split: wait_result.splits)
  have "store_verdict e task (verdict_of e code) v = v" for v :: "'a world"
    using bad by (auto simp: store_verdict_def mark_finished_def)
  then have run: "run_one_task cfg e task w
      = (let d = task_dir_of cfg e (jt_submission_id task); f = path_join d ''task.json''
         in cleanup_and_release e d [] False (try_remove c (emit (Logs c)
              (emit (Wait c (int_add (int_mul (jc_judge_hard_timeout_seconds cfg) 1000) 5000)) (emit (Start c)
                (emit (Create (task_options cfg task f) (Returns c))
                  (emit (WriteTask f (task_json cfg task)) (emit (MkDir d) (w\<lparr>w_db := t\<rparr>)))))))))"
    using assms code
    by (auto simp: run_task_cases prepare_task_def make_task_dir_def write_task_json_def take_pool_slot_def task_written_def
        create_container_def run_container_def collect_verdict_def Let_def simp flip: verdict_of_def split: outcome.splits)
  show ?thesis
    using assms(5,7) mark_running_row(4) [OF assms(2)] by (simp add: run Let_def)
qed

theorem unknown_status_stuck_witness:
  "w_db (run_one_task demo_cfg (demo_env ''accepted'') demo_task demo_world) = demo_table ''running'' None"
proof -
  have h: "te_client (demo_env ''accepted'')" "te_mkdir (demo_env ''accepted'') = Returns ()" "task_written demo_cfg (demo_env ''accepted'') demo_task"
    "\<not> te_pool (demo_env ''accepted'')" "te_create (demo_env ''accepted'') = Returns ''c1''"
    "te_start (demo_env ''accepted'') = Returns ()"
    by (simp_all add: demo_env_def task_written_def)
  have m: "mark_running (te_claim_fault (demo_env ''accepted'')) (jt_submission_id demo_task) (w_db demo_world)
      = Inr (True, demo_table ''running'' None)" by code_simp
  have n: "no_verdict (demo_env ''accepted'')" by code_simp
  show ?thesis using unknown_status_stuck [OF h(1) m h(2-5) _ h(6) n] by simp
qed

text \<open>
  A run touches no other submission, and it announces only stored verdicts: what subscribers of
  the submission receive (each of them once) carries the status that a finished row of the table
  then has. Only a judge container that ran to its end leads to an announcement; the system-error
  verdicts of all other paths are stored without one.
\<close>

theorem run_announces_stored:
  "only_row (jt_submission_id task) (w_db w) (w_db (run_one_task cfg e task w))
   \<and> (\<exists>ds. w_delivered (run_one_task cfg e task w) = w_delivered w @ ds
        \<and> announced_ok e (jt_submission_id task) (w_db (run_one_task cfg e task w))
             (subscribers (jt_submission_id task) (w_notifier w)) ds)"
  by (rule run_task_ok)

text \<open>
  The queue is first in, first out, bounded, and loses nothing: in every interleaving of
  submitters, workers and shutdown, the tasks taken so far followed by the tasks still queued are
  exactly the accepted tasks in the order of acceptance, and a configured bound is respected.
\<close>

theorem queue_fifo:
  assumes "sc_queue s0 = []" and "sq_step\<^sup>*\<^sup>* (s0, [], []) (s, acc, tkn)"
  shows "acc = tkn @ sc_queue s
    \<and> (jc_max_queue_size (sc_cfg s) > 0 \<longrightarrow> int (length (sc_queue s)) \<le> jc_max_queue_size (sc_cfg s))"
proof -
  have "sq_inv (s0, [], [])" using assms(1) by (simp add: sq_inv_def)
  then show ?thesis using sq_steps_inv [OF assms(2)] by (simp add: sq_inv_def)
qed

definition demo_sched :: scheduler where
  "demo_sched = \<lparr>sc_cfg = demo_cfg, sc_has_db = True, sc_queue = [], sc_workers = 1, sc_running_count = 0,
     sc_running = True, sc_shutting_down = False\<rparr>"

theorem queue_fifo_witness:
  "[demo_task] = [] @ sc_queue (snd (enqueue demo_task demo_sched))"
proof -
  have "enqueue demo_task demo_sched = (True, snd (enqueue demo_task demo_sched))" by code_simp
  then have "sq_step (demo_sched, [], []) (snd (enqueue demo_task demo_sched), [] @ [demo_task], [])" by (rule accept)
  then have st: "sq_step\<^sup>*\<^sup>* (demo_sched, [], []) (snd (enqueue demo_task demo_sched), [demo_task], [])"
    by (simp add: r_into_rtranclp)
  have "sc_queue demo_sched = []" by (simp add: demo_sched_def)
  then show ?thesis using queue_fifo [OF _ st] by blast
qed

text \<open>
  A task can be accepted and never judged: during a shutdown, after the last worker has left, the
  queue still accepts a task until the flag is lowered, and no worker is left to take it.
\<close>

theorem late_task_never_judged:
  "\<exists>s s'. sq_step\<^sup>*\<^sup>* (demo_sched, [], []) (s, [], []) \<and> sc_workers s = 0 \<and> sc_shutting_down s
     \<and> enqueue demo_task s = (True, s') \<and> sc_queue s' = [demo_task] \<and> sc_workers s' = 0"
proof -
  let ?a = "shutdown_begin demo_sched"
  let ?b = "snd (worker_take ?a)"
  have "sq_step (demo_sched, [], []) (?a, [], [])" by (rule stop)
  moreover have "sq_step (?a, [], []) (?b, [], [])"
  proof (rule leaves)
    show "0 < sc_workers ?a" by code_simp
    show "worker_take ?a = (Some None, ?b)" by code_simp
  qed
  ultimately have "sq_step\<^sup>*\<^sup>* (demo_sched, [], []) (?b, [], [])"
    by (meson rtranclp.rtrancl_refl rtranclp.rtrancl_into_rtrancl)
  moreover have "sc_workers ?b = 0" "sc_shutting_down ?b" by code_simp+
  moreover have "enqueue demo_task ?b = (True, snd (enqueue demo_task ?b))"
    "sc_queue (snd (enqueue demo_task ?b)) = [demo_task]" "sc_workers (snd (enqueue demo_task ?b)) = 0"
    by code_simp+
  ultimately show ?thesis by blast
qed

lemma last_line_parsed:
  assumes "CHR 0x0A \<notin> set line" and "CHR 0x0D \<notin> set line" and "looks_like_object line"
    and "parse line = Returns (JObj ms)" and "tail = [] \<or> tail = [CHR 0x0A]"
    and "earlier = [] \<or> last earlier = CHR 0x0A"
  shows "parse_judge_result_json parse (earlier @ line @ tail) code = result_of_json (JObj ms)"
proof -
  have "line \<noteq> []" using assms(3) by (auto simp: looks_like_object_def)
  then have "split_lines [] (line @ tail) = [line]"
    using assms(1,2,5) split_lines_one [of line "[]"] split_lines_one_LF [of line "[]"] by auto
  then obtain ls where "split_lines [] (earlier @ line @ tail) = ls @ [line]"
    using split_lines_after [OF assms(6), of "line @ tail"] by metis
  then show ?thesis using assms(3,4) \<open>line \<noteq> []\<close> by (simp add: parse_judge_result_json_def Let_def)
qed

text \<open>
  The verdict is read from the last line: if the output is, or ends with, a line that is a JSON object
  (with or without a final newline), the result is that object's, whatever lines were printed before, so
  earlier output cannot forge it.
\<close>

theorem last_line_decides:
  assumes "CHR 0x0A \<notin> set line" and "CHR 0x0D \<notin> set line" and "looks_like_object line"
    and "parse line = Returns (JObj ms)" and "tail = [] \<or> tail = [CHR 0x0A]"
    and "earlier = [] \<or> last earlier = CHR 0x0A"
  shows "parse_judge_result_json parse (earlier @ line @ tail) code = result_of_json (JObj ms)"
  using assms by (rule last_line_parsed)

theorem last_line_decides_witness:
  "jr_status (parse_judge_result_json
     (\<lambda>s. if s = ''{1}'' then Returns (JObj [(''status'', JStr ''wa'')]) else Returns (JObj [(''status'', JStr ''ac'')]))
     (''{0}'' @ CHR 0x0A # ''{1}'' @ [CHR 0x0A]) 0) = ''wa''"
proof -
  have l: "CHR 0x0A \<notin> set ''{1}''" "CHR 0x0D \<notin> set ''{1}''" "looks_like_object ''{1}''" by code_simp+
  show ?thesis
    using last_line_decides [OF l, where ms = "[(''status'', JStr ''wa'')]" and earlier = "''{0}'' @ [CHR 0x0A]" and tail = "[CHR 0x0A]"
        and parse = "\<lambda>s. if s = ''{1}'' then Returns (JObj [(''status'', JStr ''wa'')]) else Returns (JObj [(''status'', JStr ''ac'')])" and code = 0]
    by (simp add: result_of_json_def str_member_def get_member_def)
qed

end
