(* ===== verification/Sample_Runner.thy ===== *)
theory Sample_Runner
  imports Judge_Scheduler
begin

text \<open>
  \<^verbatim>\<open>src/judge/sample_runner.h\<close>: running code against the sample cases of a problem, synchronously and
  without a submission.

  What docker, the file system and the clock answer is in the \<open>task_env\<close> of the scheduler (its database
  and pool fields are not used); the calls made are a list of the scheduler's events. The semaphore is
  the number of its permits, and a step relation interleaves any number of callers.

  Main results: at most the configured number of runs at a time, and every permit comes back; every
  path removes the container it created and its directory; no more cases than configured are sent.
\<close>

section \<open>Configuration and result\<close>

record JudgeConfig =
  sg_judge_hard_timeout_seconds :: int
  sg_output_limit_bytes :: int
  sg_judge_image :: string
  sg_network_mode :: string
  sg_task_dir_parent :: string
  sg_task_volume_name :: string
  sg_sample_max_concurrent :: int
  sg_sample_max_cases :: int

record SampleResult =
  sr_verdict :: JudgeResult
  sr_container_wall_ms :: int
  sr_error :: string
  sr_saturated :: bool

definition empty_sample_result :: SampleResult where
  "empty_sample_result = \<lparr>sr_verdict = empty_result, sr_container_wall_ms = 0, sr_error = [], sr_saturated = False\<rparr>"

section \<open>The semaphore\<close>

definition initial_permits :: "JudgeConfig \<Rightarrow> int" where
  "initial_permits cfg = (if sg_sample_max_concurrent cfg < 1 then 1 else sg_sample_max_concurrent cfg)"

definition try_acquire :: "int \<Rightarrow> bool \<times> int" where
  "try_acquire permits = (if permits \<le> 0 then (False, permits) else (True, permits - 1))"

definition release :: "int \<Rightarrow> int" where
  "release permits = permits + 1"

section \<open>The parts of a run\<close>

definition sample_task_json :: "JudgeConfig \<Rightarrow> JudgeTask \<Rightarrow> json" where
  "sample_task_json cfg task = JObj [(''submission_id'', JInt (jt_submission_id task)), (''language'', JStr (jt_language task)),
     (''code'', JStr (jt_code task)), (''time_limit_ms'', JInt (jt_time_limit_ms task)),
     (''memory_limit_mb'', JInt (jt_memory_limit_mb task)), (''compile_timeout_ms'', JInt (jt_compile_timeout_ms task)),
     (''run_hard_timeout_ms'', JInt (int_mul (sg_judge_hard_timeout_seconds cfg) 1000)),
     (''output_limit_bytes'', JInt (sg_output_limit_bytes cfg)),
     (''special_judge_source'', if jt_spj_source task = [] then JNull else JStr (jt_spj_source task)),
     (''special_judge_language'', if jt_spj_language task = [] then JNull else JStr (jt_spj_language task)),
     (''test_cases'', JArr (map case_json (jt_test_cases task)))]"

text \<open>\<open>tmp_dir\<close> is \<^verbatim>\<open>temp_directory_path()\<close>, which may throw.\<close>

definition sample_task_dir :: "string outcome \<Rightarrow> JudgeConfig \<Rightarrow> task_env \<Rightarrow> string outcome" where
  "sample_task_dir tmp_dir cfg e =
     (let name = ''litecode-judge-0-'' @ to_string (te_now_us e) in
      case (if sg_task_dir_parent cfg = [] then tmp_dir else Returns (sg_task_dir_parent cfg)) of
        Throws x \<Rightarrow> Throws x
      | Returns parent \<Rightarrow> (case te_mkdir e of Throws x \<Rightarrow> Throws x | Returns _ \<Rightarrow> Returns (path_join parent name)))"

definition sample_write_task :: "JudgeConfig \<Rightarrow> task_env \<Rightarrow> string \<Rightarrow> JudgeTask \<Rightarrow> unit outcome \<times> jevent list" where
  "sample_write_task cfg e path task =
     (if \<not> te_opened e then (Throws (''cannot open task.json for write: '' @ path), [])
      else
        case te_dump e (sample_task_json cfg task) of
          Throws x \<Rightarrow> (Throws x, [])
        | Returns _ \<Rightarrow>
            if \<not> te_written e then
              (Throws (''write to task.json failed: '' @ path), [WriteTask path (sample_task_json cfg task)])
            else (Returns (), [WriteTask path (sample_task_json cfg task)]))"

definition sample_options :: "JudgeConfig \<Rightarrow> JudgeTask \<Rightarrow> string \<Rightarrow> create_options" where
  "sample_options cfg task task_file =
     \<lparr>co_image = sg_judge_image cfg, co_command = [''/usr/local/bin/judge.sh''],
      co_env = [''JUDGE_TASK_FILE='' @ task_file, ''JUDGE_HOME=/judge'', ''JUDGE_TMP=/tmp/judge''],
      co_working_dir = ''/judge'',
      co_mounts = (if sg_task_volume_name cfg \<noteq> []
                   then [VolumeMount (sg_task_volume_name cfg) ''/tmp/litecode-judge'' True]
                   else [BindMount task_file ''/tmp/task.json'' True]),
      co_network_mode = sg_network_mode cfg, co_read_only = True, co_memory_mb = jt_memory_limit_mb task,
      co_cpus = 0, co_pids_limit = 50, co_security_opt = [''no-new-privileges:true''],
      co_tmpfs = [(''/tmp'', ''size=64m,mode=1777,exec''), (''/judge'', ''size=64m,mode=1777,exec'')],
      co_user = ''judgeuser''\<rparr>"

definition sample_remove :: "string \<Rightarrow> jevent list" where
  "sample_remove cid = (if cid = [] then [] else [Remove cid])"

definition sample_kill_and_remove :: "string \<Rightarrow> jevent list" where
  "sample_kill_and_remove cid = (if cid = [] then [] else Kill cid # sample_remove cid)"

definition sample_metrics :: "task_env \<Rightarrow> string \<Rightarrow> jevent list" where
  "sample_metrics e status = (if te_metrics e then [Metrics status] else [])"

text \<open>The system-error exit of every failing step: result, then what the step did before cleaning up.\<close>

definition sample_se :: "task_env \<Rightarrow> string \<Rightarrow> string \<Rightarrow> jevent list \<Rightarrow> SampleResult \<times> jevent list" where
  "sample_se e task_dir msg evs =
     (empty_sample_result\<lparr>sr_verdict := empty_result\<lparr>jr_status := ''se'', jr_error_message := msg\<rparr>, sr_error := msg\<rparr>,
      evs @ RmDir task_dir # sample_metrics e ''se'')"

text \<open>\<open>wall\<close> is the measured time in milliseconds, converted to \<^verbatim>\<open>int\<close>.\<close>

definition sample_collect ::
    "task_env \<Rightarrow> int \<Rightarrow> string \<Rightarrow> string \<Rightarrow> int \<Rightarrow> SampleResult \<times> jevent list" where
  "sample_collect e wall task_dir cid exit_code =
     (let logs = (case te_logs e of Returns l \<Rightarrow> l | Throws _ \<Rightarrow> []);
          r = parse_judge_result_json (te_parse e) logs exit_code
      in (empty_sample_result\<lparr>sr_verdict := r, sr_container_wall_ms := wrap32 wall,
            sr_error := (if jr_status r = ''se'' \<and> jr_parsed r then jr_error_message r else [])\<rparr>,
          Logs cid # sample_remove cid @ RmDir task_dir # sample_metrics e (jr_status r)))"

definition sample_container ::
    "JudgeConfig \<Rightarrow> task_env \<Rightarrow> int \<Rightarrow> string \<Rightarrow> string \<Rightarrow> SampleResult \<times> jevent list" where
  "sample_container cfg e wall task_dir cid =
     (case te_start e of
        Throws x \<Rightarrow> sample_se e task_dir (''docker start failed: '' @ x) (Start cid # sample_remove cid)
      | Returns _ \<Rightarrow>
          (let evs = [Start cid, Wait cid (int_add (int_mul (sg_judge_hard_timeout_seconds cfg) 1000) 5000)] in
           case te_wait e of
             WaitTimeout _ \<Rightarrow>
               sample_se e task_dir (''judge exceeded hard timeout ('' @ to_string (sg_judge_hard_timeout_seconds cfg) @ ''s)'')
                 (evs @ sample_kill_and_remove cid)
           | WaitFailed x \<Rightarrow> sample_se e task_dir (''docker wait failed: '' @ x) (evs @ sample_kill_and_remove cid)
           | WaitDone code \<Rightarrow> (case sample_collect e wall task_dir cid code of (r, es) \<Rightarrow> (r, evs @ es))))"

definition sample_create ::
    "JudgeConfig \<Rightarrow> task_env \<Rightarrow> int \<Rightarrow> JudgeTask \<Rightarrow> string \<Rightarrow> SampleResult \<times> jevent list" where
  "sample_create cfg e wall task task_dir =
     (let ev = Create (sample_options cfg task (path_join task_dir ''task.json'')) (te_create e) in
      case te_create e of
        Throws x \<Rightarrow> sample_se e task_dir (''docker create failed: '' @ x) [ev]
      | Returns cid \<Rightarrow>
          if cid = [] then sample_se e task_dir ''docker create returned empty id'' [ev]
          else (case sample_container cfg e wall task_dir cid of (r, es) \<Rightarrow> (r, ev # es)))"

text \<open>The run with its permit; \<open>Throws\<close> is the exception of \<^verbatim>\<open>make_task_dir\<close>, which nothing catches.\<close>

definition sample_run_permitted ::
    "string outcome \<Rightarrow> JudgeConfig \<Rightarrow> task_env \<Rightarrow> int \<Rightarrow> JudgeTask \<Rightarrow> SampleResult outcome \<times> jevent list" where
  "sample_run_permitted tmp_dir cfg e wall task0 =
     (let m = (if sg_sample_max_cases cfg < 1 then 1 else sg_sample_max_cases cfg);
          task = (if int (length (jt_test_cases task0)) > m
                  then task0\<lparr>jt_test_cases := take (nat m) (jt_test_cases task0)\<rparr> else task0);
          msg = ''docker client not configured''
      in if \<not> te_client e then
           (Returns (empty_sample_result\<lparr>sr_verdict := empty_result\<lparr>jr_status := ''se'', jr_error_message := msg\<rparr>, sr_error := msg\<rparr>),
            sample_metrics e ''se'')
         else case sample_task_dir tmp_dir cfg e of
                Throws x \<Rightarrow> (Throws x, [])
              | Returns d \<Rightarrow>
                  (case sample_write_task cfg e (path_join d ''task.json'') task of
                     (Throws x, es) \<Rightarrow>
                       (case sample_se e d (''write_task_json failed: '' @ x) es of (r, es) \<Rightarrow> (Returns r, MkDir d # es))
                   | (Returns _, es) \<Rightarrow>
                       (case sample_create cfg e wall task d of (r, es') \<Rightarrow> (Returns r, MkDir d # es @ es'))))"

text \<open>The whole call on the permits; the releaser gives the permit back however the run ends.\<close>

definition sample_run ::
    "string outcome \<Rightarrow> JudgeConfig \<Rightarrow> task_env \<Rightarrow> int \<Rightarrow> JudgeTask \<Rightarrow> int \<Rightarrow> SampleResult outcome \<times> jevent list \<times> int" where
  "sample_run tmp_dir cfg e wall task permits =
     (case try_acquire permits of
        (False, k) \<Rightarrow>
          (Returns (empty_sample_result\<lparr>sr_verdict := empty_result\<lparr>jr_status := ''se'',
             jr_error_message := ''sample runner saturated''\<rparr>, sr_saturated := True\<rparr>), [], k)
      | (True, k) \<Rightarrow> (case sample_run_permitted tmp_dir cfg e wall task of (r, es) \<Rightarrow> (r, es, release k)))"

section \<open>Lemmas\<close>

lemma sample_se_events:
  "sample_se e d msg evs = (r, es) \<Longrightarrow> es = evs @ RmDir d # sample_metrics e ''se'' \<and> \<not> sr_saturated r \<and> jr_status (sr_verdict r) = ''se''"
  by (auto simp: sample_se_def empty_sample_result_def)

lemma quiet_metrics [simp]: "quiet_events (sample_metrics e st)"
  by (simp add: sample_metrics_def quiet_events_def)

lemma sample_container_events:
  assumes "sample_container cfg e wall d cid = (r, es)" and "cid \<noteq> []"
  shows "quiet_events es" "Remove cid \<in> set es" "RmDir d \<in> set es"
  using assms
  by (auto simp: sample_container_def sample_collect_def sample_se_def sample_remove_def sample_kill_and_remove_def Let_def
      quiet_events_def sample_metrics_def split: outcome.splits wait_result.splits)

text \<open>The order of the calls with no exception for the directory.\<close>

definition all_tidy :: "jevent list \<Rightarrow> bool" where
  "all_tidy es \<longleftrightarrow>
     (\<forall>xs opts c ys. es = xs @ Create opts (Returns c) # ys \<and> c \<noteq> [] \<longrightarrow> Remove c \<in> set ys)
     \<and> (\<forall>xs d ys. es = xs @ MkDir d # ys \<longrightarrow> RmDir d \<in> set ys)"

lemma all_tidy_run:
  assumes "quiet_events mid" "quiet_events post" "RmDir d \<in> set post" "\<forall>c. r = Returns c \<and> c \<noteq> [] \<longrightarrow> Remove c \<in> set post"
  shows "all_tidy (MkDir d # mid @ Create opts r # post)"
proof -
  have "tidy True (MkDir d # mid @ Create opts r # post)" using assms by (rule tidy_run)
  then show ?thesis by (simp add: tidy_def all_tidy_def)
qed

lemma all_tidy_quiet:
  assumes "quiet_events es"
  shows "all_tidy es" and "RmDir d \<in> set es \<Longrightarrow> all_tidy (MkDir d # es)"
  using assms by (auto simp: all_tidy_def Cons_eq_append_conv)

lemma sample_create_events:
  assumes "sample_create cfg e wall task d = (r, es)"
  shows "\<exists>post. es = Create (sample_options cfg task (path_join d ''task.json'')) (te_create e) # post \<and> quiet_events post
    \<and> RmDir d \<in> set post \<and> (\<forall>c. te_create e = Returns c \<and> c \<noteq> [] \<longrightarrow> Remove c \<in> set post)"
proof (cases "\<exists>c. te_create e = Returns c \<and> c \<noteq> []")
  case True
  then obtain c where c: "te_create e = Returns c" "c \<noteq> []" by blast
  obtain r' es' where k: "sample_container cfg e wall d c = (r', es')" by fastforce
  show ?thesis using sample_container_events [OF k c(2)] assms c k by (auto simp: sample_create_def Let_def)
next
  case False
  then show ?thesis using assms by (auto simp: sample_create_def sample_se_def Let_def split: outcome.splits if_splits)
qed

lemma sample_create_no_write:
  "sample_create cfg e wall task d = (r, es) \<Longrightarrow> WriteTask path j \<notin> set es"
  by (auto simp: sample_create_def sample_container_def sample_collect_def sample_se_def sample_remove_def
      sample_kill_and_remove_def sample_metrics_def Let_def split: outcome.splits wait_result.splits if_splits prod.splits)

text \<open>The task with no more cases than the configuration allows.\<close>

definition capped :: "JudgeConfig \<Rightarrow> JudgeTask \<Rightarrow> JudgeTask" where
  "capped cfg task =
     (let m = (if sg_sample_max_cases cfg < 1 then 1 else sg_sample_max_cases cfg); cs = jt_test_cases task
      in if int (length cs) > m then task\<lparr>jt_test_cases := take (nat m) cs\<rparr> else task)"

lemma capped_take:
  "\<exists>k. capped cfg task = task\<lparr>jt_test_cases := take k (jt_test_cases task)\<rparr> \<and> int k \<le> max 1 (sg_sample_max_cases cfg)
     \<and> (k = 0 \<longrightarrow> jt_test_cases task = [])"
proof (cases "int (length (jt_test_cases task)) > (if sg_sample_max_cases cfg < 1 then 1 else sg_sample_max_cases cfg)")
  case False
  then show ?thesis by (intro exI [of _ "length (jt_test_cases task)"]) (auto simp: capped_def Let_def split: if_splits)
qed (auto simp: capped_def Let_def intro!: exI [of _ "nat (if sg_sample_max_cases cfg < 1 then 1 else sg_sample_max_cases cfg)"])

lemma sample_written_events:
  assumes run: "sample_run_permitted tmp_dir cfg e wall task = (r, es)" and "te_client e" and d: "sample_task_dir tmp_dir cfg e = Returns d"
  shows "all_tidy es \<and> (\<forall>path j. WriteTask path j \<in> set es \<longrightarrow> j = sample_task_json cfg (capped cfg task))"
proof -
  let ?t = "capped cfg task"
  obtain w ws where w: "sample_write_task cfg e (path_join d ''task.json'') ?t = (w, ws)" by fastforce
  then have ws: "quiet_events ws" "\<forall>path j. WriteTask path j \<in> set ws \<longrightarrow> j = sample_task_json cfg ?t"
    by (auto simp: sample_write_task_def quiet_events_def split: if_splits outcome.splits)
  note go = assms w [unfolded capped_def Let_def]
  show ?thesis
  proof (cases w)
    case (Throws x)
    then have "es = MkDir d # ws @ RmDir d # sample_metrics e ''se''"
      using go by (auto simp: sample_run_permitted_def Let_def sample_se_def split: prod.splits)
    then show ?thesis using ws by (auto simp: all_tidy_quiet sample_metrics_def)
  next
    case (Returns u)
    obtain r' es' where c: "sample_create cfg e wall ?t d = (r', es')" by fastforce
    then have es: "es = MkDir d # ws @ es'"
      using go Returns by (auto simp: sample_run_permitted_def Let_def capped_def)
    obtain post where p: "es' = Create (sample_options cfg ?t (path_join d ''task.json'')) (te_create e) # post"
      "quiet_events post" "RmDir d \<in> set post" "\<forall>c. te_create e = Returns c \<and> c \<noteq> [] \<longrightarrow> Remove c \<in> set post"
      using sample_create_events [OF c] by blast
    have "all_tidy es" unfolding es p(1) using ws(1) p by (intro all_tidy_run) auto
    moreover have "WriteTask path j \<notin> set es'" for path j using c by (rule sample_create_no_write)
    ultimately show ?thesis using ws(2) es by auto
  qed
qed

lemma sample_run_events:
  assumes "sample_run tmp_dir cfg e wall task permits = (r, es, permits')"
  shows "all_tidy es \<and> (\<forall>path j. WriteTask path j \<in> set es \<longrightarrow> j = sample_task_json cfg (capped cfg task))"
proof (cases "fst (try_acquire permits) \<and> te_client e")
  case False
  then show ?thesis
    using assms by (auto simp: sample_run_def try_acquire_def sample_run_permitted_def Let_def sample_metrics_def
        all_tidy_def Cons_eq_append_conv split: if_splits prod.splits)
next
  case True
  then have run: "sample_run_permitted tmp_dir cfg e wall task = (r, es)"
    using assms by (auto simp: sample_run_def try_acquire_def split: if_splits prod.splits)
  show ?thesis
  proof (cases "sample_task_dir tmp_dir cfg e")
    case (Throws x)
    then show ?thesis using run True by (simp add: sample_run_permitted_def Let_def all_tidy_def)
  next
    case (Returns d)
    then show ?thesis using sample_written_events [OF run] True by simp
  qed
qed

section \<open>Properties\<close>

text \<open>
  C32. A sample run leaves nothing behind, whatever docker and the file system do: every container it
  created is removed afterwards and so is the directory it made, on every path; the permit it took is
  back; and the task file has at most the configured number of cases, at least one if there are any.
\<close>

theorem sample_run_tidy:
  assumes "sample_run tmp_dir cfg e wall task permits = (r, es, permits')"
  shows "permits' = permits
    \<and> (\<forall>xs opts c ys. es = xs @ Create opts (Returns c) # ys \<and> c \<noteq> [] \<longrightarrow> Remove c \<in> set ys)
    \<and> (\<forall>xs d ys. es = xs @ MkDir d # ys \<longrightarrow> RmDir d \<in> set ys)
    \<and> (\<forall>path j. WriteTask path j \<in> set es \<longrightarrow>
         (\<exists>k. j = sample_task_json cfg (task\<lparr>jt_test_cases := take k (jt_test_cases task)\<rparr>)
            \<and> int k \<le> max 1 (sg_sample_max_cases cfg) \<and> (k = 0 \<longrightarrow> jt_test_cases task = [])))"
proof -
  note es = sample_run_events [OF assms]
  have "permits' = permits"
    using assms by (auto simp: sample_run_def try_acquire_def release_def split: if_splits prod.splits)
  moreover have "\<exists>k. j = sample_task_json cfg (task\<lparr>jt_test_cases := take k (jt_test_cases task)\<rparr>)
      \<and> int k \<le> max 1 (sg_sample_max_cases cfg) \<and> (k = 0 \<longrightarrow> jt_test_cases task = [])" if "WriteTask path j \<in> set es" for path j
    using capped_take [of cfg task] es that by metis
  ultimately show ?thesis using conjunct1 [OF es, unfolded all_tidy_def] by blast
qed

definition sample_cfg :: JudgeConfig where
  "sample_cfg = \<lparr>sg_judge_hard_timeout_seconds = 30, sg_output_limit_bytes = 1024, sg_judge_image = ''judge'', sg_network_mode = ''none'',
     sg_task_dir_parent = ''/tmp'', sg_task_volume_name = [], sg_sample_max_concurrent = 2, sg_sample_max_cases = 3\<rparr>"

theorem sample_run_tidy_witness:
  "let (r, es, k) = sample_run (Returns ''/tmp'') sample_cfg ((demo_env ''ac'')\<lparr>te_wait := WaitTimeout ''t''\<rparr>) 7 demo_task 1
   in k = 1 \<and> es = [MkDir ''/tmp/litecode-judge-0-5'', WriteTask ''/tmp/litecode-judge-0-5/task.json'' (sample_task_json sample_cfg demo_task),
        Create (sample_options sample_cfg demo_task ''/tmp/litecode-judge-0-5/task.json'') (Returns ''c1''), Start ''c1'', Wait ''c1'' 35000,
        Kill ''c1'', Remove ''c1'', RmDir ''/tmp/litecode-judge-0-5'', Metrics ''se'']"
proof -
  let ?r = "sample_run (Returns ''/tmp'') sample_cfg ((demo_env ''ac'')\<lparr>te_wait := WaitTimeout ''t''\<rparr>) 7 demo_task 1"
  have "fst (snd ?r) = [MkDir ''/tmp/litecode-judge-0-5'', WriteTask ''/tmp/litecode-judge-0-5/task.json'' (sample_task_json sample_cfg demo_task),
        Create (sample_options sample_cfg demo_task ''/tmp/litecode-judge-0-5/task.json'') (Returns ''c1''), Start ''c1'', Wait ''c1'' 35000,
        Kill ''c1'', Remove ''c1'', RmDir ''/tmp/litecode-judge-0-5'', Metrics ''se'']" by code_simp
  moreover have "snd (snd ?r) = 1"
    using sample_run_tidy [of "Returns ''/tmp''" sample_cfg "(demo_env ''ac'')\<lparr>te_wait := WaitTimeout ''t''\<rparr>" 7 demo_task 1
        "fst ?r" "fst (snd ?r)" "snd (snd ?r)"] by simp
  ultimately show ?thesis by (simp add: split_beta)
qed

section \<open>Concurrent callers\<close>

text \<open>The permits and the number of runs in progress; each call of the semaphore is one step.\<close>

datatype sem_event = Began | Refused | Ended

inductive sem_step :: "int \<times> nat \<Rightarrow> sem_event \<Rightarrow> int \<times> nat \<Rightarrow> bool" where
  began: "try_acquire k = (True, k') \<Longrightarrow> sem_step (k, n) Began (k', Suc n)"
| refused: "try_acquire k = (False, k') \<Longrightarrow> sem_step (k, n) Refused (k', n)"
| ended: "sem_step (k, Suc n) Ended (release k, n)"

inductive sem_run :: "int \<times> nat \<Rightarrow> sem_event list \<Rightarrow> int \<times> nat \<Rightarrow> bool" where
  sem_nil: "sem_run s [] s"
| sem_cons: "sem_step s e s' \<Longrightarrow> sem_run s' es s'' \<Longrightarrow> sem_run s (e # es) s''"

code_pred sem_step .
code_pred sem_run .

inductive_cases sem_stepE: "sem_step s e s'"

lemma sem_step_sum: "sem_step s e s' \<Longrightarrow> 0 \<le> fst s \<Longrightarrow> fst s' + int (snd s') = fst s + int (snd s) \<and> 0 \<le> fst s'"
  by (elim sem_stepE) (auto simp: try_acquire_def release_def split: if_splits)

lemma sem_run_sum: "sem_run s es s' \<Longrightarrow> 0 \<le> fst s \<Longrightarrow> fst s' + int (snd s') = fst s + int (snd s) \<and> 0 \<le> fst s'"
  by (induction rule: sem_run.induct) (auto dest: sem_step_sum)

text \<open>
  The bound on sample runs: in every interleaving of callers at most the configured number of runs (at
  least one) is in progress, and a caller is refused exactly when that many are; when no run is in
  progress, all permits are there.
\<close>

theorem sample_concurrency:
  assumes "sem_run (initial_permits cfg, 0) es (k, n)"
  shows "int n \<le> max 1 (sg_sample_max_concurrent cfg)
    \<and> (fst (try_acquire k) \<longleftrightarrow> int n < max 1 (sg_sample_max_concurrent cfg)) \<and> (n = 0 \<longrightarrow> k = initial_permits cfg)"
  using sem_run_sum [OF assms] by (auto simp: initial_permits_def try_acquire_def max_def split: if_splits)

theorem sample_concurrency_witness:
  "sem_run (initial_permits sample_cfg, 0) [Began, Began, Refused, Ended] (1, 1) \<and> fst (try_acquire 1)"
proof -
  have "sem_run (initial_permits sample_cfg, 0) [Began, Began, Refused, Ended] (1, 1)"
    by (rule sem_cons [OF began] sem_cons [OF refused] sem_cons [OF ended] sem_nil |
        simp add: try_acquire_def initial_permits_def sample_cfg_def release_def)+
  then show ?thesis using sample_concurrency [of sample_cfg "[Began, Began, Refused, Ended]" 1 1] by (simp add: sample_cfg_def)
qed

end
