(* ===== verification/Bcrypt.thy ===== *)
theory Bcrypt
  imports Blowfish
begin

text \<open>
  \<^verbatim>\<open>src/auth/bcrypt/bcrypt.c\<close>: the bcrypt base64 codec, salt generation, the hash itself and the
  check of a password against a stored hash.

  C strings are given without their terminating NUL; \<open>cstr_at\<close> reads the NUL at the end. Output
  buffers are the returned strings, and \<open>None\<close> is the \<^verbatim>\<open>-1\<close> return (\<^verbatim>\<open>EINVAL\<close>). The
  \<^verbatim>\<open>explicit_bzero_portable\<close> calls clear buffers nobody reads again; its own loop is modelled as
  \<open>explicit_bzero_portable\<close>. The bytes of \<^verbatim>\<open>/dev/urandom\<close> and the results of \<^verbatim>\<open>open\<close> and
  \<^verbatim>\<open>read\<close> are arguments.

  Main results: the codec round trip, that every hash re-verifies with the key it was made from,
  that an accepted check means the stored hash is exactly the recomputed one, and the format of
  what is stored.
\<close>

unbundle bit_operations_syntax

section \<open>Tables and helpers\<close>

definition Base64Code :: string where
  "Base64Code = ''./ABCDEFGHIJKLMNOPQRSTUVWXYZabcdefghijklmnopqrstuvwxyz0123456789''"

definition index_64 :: "u8 list" where
  "index_64 = [
    255, 255, 255, 255, 255, 255, 255, 255, 255, 255,
    255, 255, 255, 255, 255, 255, 255, 255, 255, 255,
    255, 255, 255, 255, 255, 255, 255, 255, 255, 255,
    255, 255, 255, 255, 255, 255, 255, 255, 255, 255,
    255, 255, 255, 255, 255, 255, 0, 1, 54, 55,
    56, 57, 58, 59, 60, 61, 62, 63, 255, 255,
    255, 255, 255, 255, 255, 2, 3, 4, 5, 6,
    7, 8, 9, 10, 11, 12, 13, 14, 15, 16,
    17, 18, 19, 20, 21, 22, 23, 24, 25, 26, 27,
    255, 255, 255, 255, 255, 255, 28, 29, 30,
    31, 32, 33, 34, 35, 36, 37, 38, 39, 40,
    41, 42, 43, 44, 45, 46, 47, 48, 49, 50,
    51, 52, 53, 255, 255, 255, 255, 255]"

definition CHAR64 :: "char \<Rightarrow> u8" where
  "CHAR64 c = (if uchar c > 127 then 255 else index_64 ! uchar c)"

abbreviation (input) BCRYPT_MAXSALT :: nat where "BCRYPT_MAXSALT \<equiv> 16"
abbreviation (input) BCRYPT_WORDS :: nat where "BCRYPT_WORDS \<equiv> 6"
abbreviation (input) BCRYPT_MINLOGROUNDS :: nat where "BCRYPT_MINLOGROUNDS \<equiv> 4"
abbreviation (input) BCRYPT_HASHSPACE :: nat where "BCRYPT_HASHSPACE \<equiv> 61"
abbreviation (input) BCRYPT_HASHSIZE :: nat where "BCRYPT_HASHSIZE \<equiv> 64"

text \<open>
  \<^verbatim>\<open>secure_random\<close> on Linux: the results of \<^verbatim>\<open>read\<close> come as a list, one per call; a call that
  returns \<open>n\<close> bytes appends them. A list that ends before the buffer is full stands for a call
  that has not returned yet.
\<close>

datatype read_result = ReadError | ReadBytes bytes

datatype random_result = RandomOk bytes | RandomFail | RandomBlocked

fun urandom_loop :: "nat \<Rightarrow> bytes \<Rightarrow> read_result list \<Rightarrow> random_result" where
  "urandom_loop buflen buf rs =
     (if length buf < buflen then
        (case rs of
           [] \<Rightarrow> RandomBlocked
         | ReadError # _ \<Rightarrow> RandomFail
         | ReadBytes bs # rs' \<Rightarrow>
             (if bs = [] then RandomFail
              else urandom_loop buflen (buf @ take (buflen - length buf) bs) rs'))
      else RandomOk buf)"

declare urandom_loop.simps [simp del]

definition secure_random :: "nat \<Rightarrow> bool \<Rightarrow> read_result list \<Rightarrow> random_result" where
  "secure_random buflen opened rs =
     (if buflen = 0 then RandomFail
      else if \<not> opened then RandomFail
      else urandom_loop buflen [] rs)"

fun explicit_bzero_portable :: "bytes \<Rightarrow> nat \<Rightarrow> bytes" where
  "explicit_bzero_portable p 0 = p"
| "explicit_bzero_portable [] (Suc n) = []"
| "explicit_bzero_portable (b # p) (Suc n) = 0 # explicit_bzero_portable p n"

fun bcmp_loop :: "bytes \<Rightarrow> bytes \<Rightarrow> nat \<Rightarrow> u8 \<Rightarrow> u8" where
  "bcmp_loop p1 p2 0 ret = ret"
| "bcmp_loop p1 p2 (Suc n) ret = bcmp_loop (tl p1) (tl p2) n (ret OR (hd p1 XOR hd p2))"

definition timingsafe_bcmp_portable :: "bytes \<Rightarrow> bytes \<Rightarrow> nat \<Rightarrow> u8" where
  "timingsafe_bcmp_portable b1 b2 n = bcmp_loop b1 b2 n 0"

section \<open>Base64\<close>

definition code64 :: "u8 \<Rightarrow> char" where
  "code64 w = Base64Code ! unat w"

fun encode_base64 :: "bytes \<Rightarrow> string" where
  "encode_base64 [] = []"
| "encode_base64 [b0] =
     (let c1 = push_bit 4 (b0 AND 0x03) in [code64 (drop_bit 2 b0), code64 c1])"
| "encode_base64 [b0, b1] =
     (let c1 = push_bit 4 (b0 AND 0x03);
          c1' = c1 OR (drop_bit 4 b1 AND 0x0f);
          c2 = push_bit 2 (b1 AND 0x0f)
      in [code64 (drop_bit 2 b0), code64 c1', code64 c2])"
| "encode_base64 (b0 # b1 # b2 # data) =
     (let c1 = push_bit 4 (b0 AND 0x03);
          c1' = c1 OR (drop_bit 4 b1 AND 0x0f);
          c2 = push_bit 2 (b1 AND 0x0f);
          c2' = c2 OR (drop_bit 6 b2 AND 0x03)
      in code64 (drop_bit 2 b0) # code64 c1' # code64 c2' # code64 (b2 AND 0x3f) # encode_base64 data)"

fun decode_base64 :: "nat \<Rightarrow> string \<Rightarrow> bytes option" where
  "decode_base64 len p =
     (if len = 0 then Some []
      else
        let c1 = CHAR64 (cstr_at p 0); c2 = CHAR64 (cstr_at p 1) in
        if c1 = 255 then None
        else if c2 = 255 then None
        else
          let b0 = push_bit 2 c1 OR drop_bit 4 (c2 AND 0x30) in
          if len = 1 then Some [b0]
          else
            let c3 = CHAR64 (cstr_at p 2) in
            if c3 = 255 then None
            else
              let b1 = push_bit 4 (c2 AND 0x0f) OR drop_bit 2 (c3 AND 0x3c) in
              if len = 2 then Some [b0, b1]
              else
                let c4 = CHAR64 (cstr_at p 3) in
                if c4 = 255 then None
                else
                  let b2 = push_bit 6 (c3 AND 0x03) OR c4 in
                  map_option (\<lambda>r. b0 # b1 # b2 # r) (decode_base64 (len - 3) (drop 4 p)))"

declare decode_base64.simps [simp del]

section \<open>Salt and hash\<close>

definition bcrypt_gensalt :: "int \<Rightarrow> bool \<Rightarrow> read_result list \<Rightarrow> string option" where
  "bcrypt_gensalt workfactor opened rs =
     (let log_rounds = (if workfactor < 4 then 4 else if workfactor > 31 then 31 else nat workfactor)
      in case secure_random BCRYPT_MAXSALT opened rs of
           RandomOk csalt \<Rightarrow> Some (''$2b$'' @ fmt_2_2u log_rounds @ ''$'' @ encode_base64 csalt)
         | _ \<Rightarrow> None)"

text \<open>The prefix \<^verbatim>\<open>$2<minor>$<nn>$\<close>: minor version, log2 of the rounds and what follows.\<close>

definition parse_prefix :: "string \<Rightarrow> (char \<times> nat \<times> string) option" where
  "parse_prefix salt =
     (if cstr_at salt 0 \<noteq> CHR ''$'' then None
      else let salt1 = drop 1 salt in
      if cstr_at salt1 0 \<noteq> CHR ''2'' then None
      else let minor = cstr_at salt1 1 in
      if minor \<noteq> CHR ''a'' \<and> minor \<noteq> CHR ''b'' then None
      else if cstr_at salt1 2 \<noteq> CHR ''$'' then None
      else let salt2 = drop 3 salt1 in
      if \<not> isdigit (cstr_at salt2 0) \<or> \<not> isdigit (cstr_at salt2 1) \<or> cstr_at salt2 2 \<noteq> CHR ''$''
      then None
      else let logr = (uchar (cstr_at salt2 1) - 48) + (uchar (cstr_at salt2 0) - 48) * 10 in
      if logr < BCRYPT_MINLOGROUNDS \<or> logr > 31 then None
      else Some (minor, logr, drop 3 salt2))"

text \<open>\<^verbatim>\<open>key_len\<close>, as the switch on the minor version sets it (\<^verbatim>\<open>(uint8_t)\<close> wraps for version a).\<close>

definition key_len :: "char \<Rightarrow> string \<Rightarrow> nat" where
  "key_len minor key =
     (if minor = CHR ''a'' then (length key + 1) mod 256
      else (if length key > 72 then 72 else length key) + 1)"

definition key_bytes :: "string \<Rightarrow> bytes" where
  "key_bytes key = map of_char key @ [0]"

definition bcrypt_setup :: "bytes \<Rightarrow> u16 \<Rightarrow> bytes \<Rightarrow> nat \<Rightarrow> blf_ctx" where
  "bcrypt_setup key keylen csalt logr =
     (let st0 = Blowfish_expandstate Blowfish_initstate csalt 16 key keylen
      in ((\<lambda>st. Blowfish_expand0state (Blowfish_expand0state st key keylen) csalt 16) ^^ (2 ^ logr)) st0)"

fun words_of_stream :: "nat \<Rightarrow> bytes \<Rightarrow> u16 \<Rightarrow> u16 \<Rightarrow> u32 list" where
  "words_of_stream 0 data n j = []"
| "words_of_stream (Suc i) data n j =
     (let (w, j') = Blowfish_stream2word data n j in w # words_of_stream i data n j')"

definition word_bytes_be :: "u32 \<Rightarrow> bytes" where
  "word_bytes_be w =
     [ucast (drop_bit 24 w AND 0xff), ucast (drop_bit 16 w AND 0xff),
      ucast (drop_bit 8 w AND 0xff), ucast (w AND 0xff)]"

definition bcrypt_magic :: bytes where
  "bcrypt_magic = map of_char ''OrpheanBeholderScryDoubt''"

definition bcrypt_ciphertext :: "blf_ctx \<Rightarrow> bytes" where
  "bcrypt_ciphertext st =
     (let cdata = words_of_stream BCRYPT_WORDS bcrypt_magic 24 0;
          cdata' = ((\<lambda>d. blf_enc st d (BCRYPT_WORDS div 2)) ^^ 64) cdata
      in concat (map word_bytes_be cdata'))"

definition bcrypt_hashpass_internal :: "string \<Rightarrow> string \<Rightarrow> nat \<Rightarrow> string option" where
  "bcrypt_hashpass_internal key salt encryptedlen =
     (if encryptedlen < BCRYPT_HASHSPACE then None
      else case parse_prefix salt of
        None \<Rightarrow> None
      | Some (minor, logr, salt3) \<Rightarrow>
          (if length salt3 * 3 div 4 < BCRYPT_MAXSALT then None
           else case decode_base64 BCRYPT_MAXSALT salt3 of
             None \<Rightarrow> None
           | Some csalt \<Rightarrow>
               let st = bcrypt_setup (key_bytes key) (word_of_nat (key_len minor key)) csalt logr;
                   ciphertext = bcrypt_ciphertext st
               in Some (''$2'' @ [minor] @ ''$'' @ fmt_2_2u logr @ ''$''
                        @ encode_base64 csalt
                        @ encode_base64 (take (4 * BCRYPT_WORDS - 1) ciphertext))))"

definition bcrypt_hashpass :: "string \<Rightarrow> string \<Rightarrow> string option" where
  "bcrypt_hashpass key salt = bcrypt_hashpass_internal key salt BCRYPT_HASHSIZE"

text \<open>\<^verbatim>\<open>bcrypt_checkpass\<close>: true for the return value 0.\<close>

definition bcrypt_checkpass :: "string \<Rightarrow> string \<Rightarrow> bool" where
  "bcrypt_checkpass key hash =
     (case bcrypt_hashpass_internal key hash BCRYPT_HASHSIZE of
        None \<Rightarrow> False
      | Some computed \<Rightarrow>
          length computed = length hash
          \<and> timingsafe_bcmp_portable (map of_char computed) (map of_char hash) (length hash) = 0)"

lemma bit8_eqI:
  assumes "bit x 0 = bit y 0" "bit x 1 = bit y 1" "bit x 2 = bit y 2" "bit x 3 = bit y 3"
    "bit x 4 = bit y 4" "bit x 5 = bit y 5" "bit x 6 = bit y 6" "bit x 7 = bit y 7"
  shows "x = (y :: u8)"
proof (rule bit_word_eqI)
  fix n :: nat
  assume "n < LENGTH(8)"
  then have "n \<in> {0, 1, 2, 3, 4, 5, 6, 7}" by auto
  then show "bit x n = bit y n" using assms by auto
qed

lemma unat_less_64I: "x AND 63 = x \<Longrightarrow> unat (x :: u8) < 64"
  using word_and_le1 [of x 63] by (simp add: word_le_nat_alt)

lemma u8_bit_high:
  "\<not> bit (b :: u8) 8" "\<not> bit (b :: u8) 9" "\<not> bit (b :: u8) 10" "\<not> bit (b :: u8) 11"
  "\<not> bit (b :: u8) 12" "\<not> bit (b :: u8) 13"
  by (auto dest: bit_imp_le_length)

lemmas u8_bits = bit_simps u8_bit_high

lemma sextet_and:
  "drop_bit 2 b AND 63 = (drop_bit 2 b :: u8)"
  "push_bit 4 (b AND 3) AND 63 = (push_bit 4 (b AND 3) :: u8)"
  "(push_bit 4 (b AND 3) OR (drop_bit 4 b' AND 15)) AND 63 = (push_bit 4 (b AND 3) OR (drop_bit 4 b' AND 15) :: u8)"
  "push_bit 2 (b AND 15) AND 63 = (push_bit 2 (b AND 15) :: u8)"
  "(push_bit 2 (b AND 15) OR (drop_bit 6 b' AND 3)) AND 63 = (push_bit 2 (b AND 15) OR (drop_bit 6 b' AND 3) :: u8)"
  "(b AND 63) AND 63 = (b AND 63 :: u8)"
  by (rule bit8_eqI; simp add: u8_bits)+

lemmas sextet_bounds = sextet_and [THEN unat_less_64I]

lemma sextet_join:
  "push_bit 2 (drop_bit 2 a) OR drop_bit 4 (push_bit 4 (a AND 3) AND 48) = (a :: u8)"
  "push_bit 2 (drop_bit 2 a) OR drop_bit 4 ((push_bit 4 (a AND 3) OR (drop_bit 4 b AND 15)) AND 48) = (a :: u8)"
  "push_bit 4 ((push_bit 4 (a AND 3) OR (drop_bit 4 b AND 15)) AND 15) OR drop_bit 2 (push_bit 2 (b AND 15) AND 60) = (b :: u8)"
  "push_bit 4 ((push_bit 4 (a AND 3) OR (drop_bit 4 b AND 15)) AND 15) OR drop_bit 2 ((push_bit 2 (b AND 15) OR (drop_bit 6 c AND 3)) AND 60) = (b :: u8)"
  "push_bit 6 ((push_bit 2 (b AND 15) OR (drop_bit 6 c AND 3)) AND 3) OR (c AND 63) = (c :: u8)"
  by (rule bit8_eqI; simp add: u8_bits)+

lemma CHAR64_table: "\<forall>k \<in> set [0..<64]. CHAR64 (Base64Code ! k) = word_of_nat k"
  by code_simp

lemma CHAR64_code64: "unat w < 64 \<Longrightarrow> CHAR64 (code64 w) = w"
  using bspec [OF CHAR64_table, of "unat w"] by (simp add: code64_def)

lemma sextet_not_255: "unat (w :: u8) < 64 \<Longrightarrow> w \<noteq> 255"
  by auto

lemma decode_group1:
  "unat s0 < 64 \<Longrightarrow> unat s1 < 64 \<Longrightarrow>
   decode_base64 (Suc 0) (code64 s0 # code64 s1 # rest) = Some [push_bit 2 s0 OR drop_bit 4 (s1 AND 48)]"
  by (simp add: decode_base64.simps [of "Suc 0"] CHAR64_code64 sextet_not_255)

lemma decode_group2:
  "unat s0 < 64 \<Longrightarrow> unat s1 < 64 \<Longrightarrow> unat s2 < 64 \<Longrightarrow>
   decode_base64 (Suc (Suc 0)) (code64 s0 # code64 s1 # code64 s2 # rest)
   = Some [push_bit 2 s0 OR drop_bit 4 (s1 AND 48), push_bit 4 (s1 AND 15) OR drop_bit 2 (s2 AND 60)]"
  by (simp add: decode_base64.simps [of "Suc (Suc 0)"] Let_def CHAR64_code64 sextet_not_255)

lemma decode_group3:
  "unat s0 < 64 \<Longrightarrow> unat s1 < 64 \<Longrightarrow> unat s2 < 64 \<Longrightarrow> unat s3 < 64 \<Longrightarrow>
   decode_base64 (Suc (Suc (Suc n))) (code64 s0 # code64 s1 # code64 s2 # code64 s3 # rest)
   = map_option (\<lambda>r. (push_bit 2 s0 OR drop_bit 4 (s1 AND 48))
        # (push_bit 4 (s1 AND 15) OR drop_bit 2 (s2 AND 60)) # (push_bit 6 (s2 AND 3) OR s3) # r)
       (decode_base64 n rest)"
  by (simp add: decode_base64.simps [of "Suc (Suc (Suc n))"] Let_def CHAR64_code64 sextet_not_255)

lemmas decode_groups = decode_group1 decode_group2 decode_group3

lemma decode_encode_base64: "decode_base64 (length xs) (encode_base64 xs @ rest) = Some xs"
proof (induction xs rule: encode_base64.induct)
  case 1
  then show ?case by (simp add: decode_base64.simps)
next
  case (4 b0 b1 b2 data)
  then show ?case
    by (simp only: encode_base64.simps Let_def append_Cons list.size add_0_right add_Suc_right
        decode_groups sextet_bounds sextet_join option.map)
qed (simp_all only: encode_base64.simps Let_def append_Cons list.size add_0_right add_Suc_right
        decode_groups sextet_bounds sextet_join)

lemma length_encode_base64: "length (encode_base64 xs) = (length xs * 4 + 2) div 3"
  by (induction xs rule: encode_base64.induct) (simp_all add: Let_def)

lemma length_decode_base64: "decode_base64 n p = Some xs \<Longrightarrow> length xs = n"
proof (induction n p arbitrary: xs rule: decode_base64.induct)
  case (1 n p)
  show ?case
  proof (cases "n < 3")
    case True
    with "1.prems" show ?thesis
      by (subst (asm) decode_base64.simps) (auto simp: Let_def split: if_splits)
  next
    case False
    with "1.prems" obtain r where r: "decode_base64 (n - 3) (drop 4 p) = Some r" "length xs = length r + 3"
      by (subst (asm) decode_base64.simps) (auto simp: Let_def split: if_splits)
    have "length r = n - 3"
      by (rule "1.IH" [OF _ refl refl _ _ refl _ refl _ refl _ refl _ refl r(1)])
         (use "1.prems" False in \<open>auto simp: decode_base64.simps [of n p] Let_def split: if_splits\<close>)
    with r(2) False show ?thesis by simp
  qed
qed

lemma length_Base64Code: "length Base64Code = 64"
  by (simp add: Base64Code_def)

lemma code64_mem: "unat w < 64 \<Longrightarrow> code64 w \<in> set Base64Code"
  by (simp add: code64_def length_Base64Code)

lemma encode_base64_alphabet: "set (encode_base64 xs) \<subseteq> set Base64Code"
  by (induction xs rule: encode_base64.induct)
     (simp_all only: encode_base64.simps Let_def list.set insert_subset empty_subsetI code64_mem sextet_bounds simp_thms)

lemma u8_xor_eq_0_iff: "a XOR b = 0 \<longleftrightarrow> (a :: u8) = b"
proof
  assume "a XOR b = 0"
  then have "(a XOR b) XOR b = b" by simp
  then show "a = b" by (simp add: xor.assoc)
qed simp

lemma bcmp_loop_zero:
  "n \<le> length p1 \<Longrightarrow> n \<le> length p2 \<Longrightarrow>
   bcmp_loop p1 p2 n ret = 0 \<longleftrightarrow> ret = 0 \<and> take n p1 = take n p2"
proof (induction n arbitrary: p1 p2 ret)
  case (Suc n)
  then show ?case
    by (cases p1; cases p2) (auto simp: or_eq_0_iff u8_xor_eq_0_iff)
qed simp

lemma urandom_loop_length: "urandom_loop n buf rs = RandomOk bs \<Longrightarrow> length buf \<le> n \<Longrightarrow> length bs = n"
proof (induction n buf rs rule: urandom_loop.induct)
  case (1 n buf rs)
  from "1.prems" show ?case
    by (subst (asm) urandom_loop.simps)
       (auto split: if_splits list.splits read_result.splits dest!: "1.IH" [rotated 3])
qed


section \<open>Prefix round trip\<close>

lemma parse_prefix_bounds:
  "parse_prefix salt = Some (minor, logr, rest) \<Longrightarrow>
   (minor = CHR ''a'' \<or> minor = CHR ''b'') \<and> 4 \<le> logr \<and> logr \<le> 31"
  by (auto simp: parse_prefix_def Let_def split: if_splits)

lemma parse_prefix_print:
  assumes "minor = CHR ''a'' \<or> minor = CHR ''b''" and "4 \<le> logr" and "logr \<le> 31"
  shows "parse_prefix (''$2'' @ [minor] @ ''$'' @ fmt_2_2u logr @ ''$'' @ rest) = Some (minor, logr, rest)"
proof -
  have "logr div 10 mod 10 = logr div 10" using assms by simp
  then have "logr mod 10 + logr div 10 mod 10 * 10 = logr" by simp
  then show ?thesis
    using assms
    by (auto simp: parse_prefix_def fmt_2_2u_two_digits Let_def uchar_digit_char)
qed

lemma length_words_of_stream [simp]: "length (words_of_stream n data m j) = n"
  by (induction n arbitrary: j) (simp_all split: prod.splits)

lemma length_blf_enc [simp]: "length (blf_enc c d n) = length d"
  by (simp add: blf_enc_def)

lemma length_funpow_keeps:
  fixes f :: "'a list \<Rightarrow> 'a list"
  shows "(\<And>x. length (f x) = length x) \<Longrightarrow> length ((f ^^ n) x) = length x"
  by (induction n) simp_all

lemma length_concat_word_bytes: "length (concat (map word_bytes_be ws)) = 4 * length ws"
  by (induction ws) (simp_all add: word_bytes_be_def)

lemma length_bcrypt_ciphertext [simp]: "length (bcrypt_ciphertext st) = 24"
  by (simp add: bcrypt_ciphertext_def length_concat_word_bytes length_funpow_keeps)

text \<open>What a successful call has computed.\<close>

lemma hashpass_internal_Some:
  assumes "bcrypt_hashpass_internal key salt n = Some h"
  obtains minor logr salt3 csalt where
    "parse_prefix salt = Some (minor, logr, salt3)"
    "decode_base64 16 salt3 = Some csalt"
    "h = ''$2'' @ [minor] @ ''$'' @ fmt_2_2u logr @ ''$'' @ encode_base64 csalt
       @ encode_base64 (take 23 (bcrypt_ciphertext
           (bcrypt_setup (key_bytes key) (word_of_nat (key_len minor key)) csalt logr)))"
  using assms
  by (auto simp: bcrypt_hashpass_internal_def Let_def split: if_splits option.splits)

lemma hashpass_internal_eq:
  assumes "61 \<le> n" and "parse_prefix salt = Some (minor, logr, salt3)"
    and "16 \<le> length salt3 * 3 div 4" and "decode_base64 16 salt3 = Some csalt"
  shows "bcrypt_hashpass_internal key salt n = Some
    (''$2'' @ [minor] @ ''$'' @ fmt_2_2u logr @ ''$'' @ encode_base64 csalt
       @ encode_base64 (take 23 (bcrypt_ciphertext
           (bcrypt_setup (key_bytes key) (word_of_nat (key_len minor key)) csalt logr))))"
  using assms by (simp add: bcrypt_hashpass_internal_def Let_def)

lemma hash_rehashes_to_itself:
  assumes "bcrypt_hashpass_internal key salt n = Some h"
  shows "bcrypt_hashpass_internal key h 64 = Some h"
proof -
  from assms obtain minor logr salt3 csalt where
    p: "parse_prefix salt = Some (minor, logr, salt3)"
    and d: "decode_base64 16 salt3 = Some csalt"
    and h: "h = ''$2'' @ [minor] @ ''$'' @ fmt_2_2u logr @ ''$'' @ encode_base64 csalt
       @ encode_base64 (take 23 (bcrypt_ciphertext
           (bcrypt_setup (key_bytes key) (word_of_nat (key_len minor key)) csalt logr)))"
    by (rule hashpass_internal_Some)
  define ct where "ct = encode_base64 (take 23 (bcrypt_ciphertext
           (bcrypt_setup (key_bytes key) (word_of_nat (key_len minor key)) csalt logr)))"
  have l: "length csalt = 16" using d by (rule length_decode_base64)
  have p': "parse_prefix h = Some (minor, logr, encode_base64 csalt @ ct)"
    unfolding h ct_def by (rule parse_prefix_print) (use parse_prefix_bounds [OF p] in auto)
  have d': "decode_base64 16 (encode_base64 csalt @ ct) = Some csalt"
    using decode_encode_base64 [of csalt ct] by (simp add: l)
  have "16 \<le> length (encode_base64 csalt @ ct) * 3 div 4"
    by (simp add: length_encode_base64 l ct_def)
  from hashpass_internal_eq [OF _ p' this d', of 64] show ?thesis
    by (simp add: h)
qed

lemma hash_length:
  assumes "bcrypt_hashpass_internal key salt n = Some h"
  shows "length h = 60"
proof -
  from assms obtain minor logr salt3 csalt where
    p: "parse_prefix salt = Some (minor, logr, salt3)"
    and d: "decode_base64 16 salt3 = Some csalt"
    and h: "h = ''$2'' @ [minor] @ ''$'' @ fmt_2_2u logr @ ''$'' @ encode_base64 csalt
       @ encode_base64 (take 23 (bcrypt_ciphertext
           (bcrypt_setup (key_bytes key) (word_of_nat (key_len minor key)) csalt logr)))"
    by (rule hashpass_internal_Some)
  have "length (fmt_2_2u logr) = 2"
    using parse_prefix_bounds [OF p] by (simp add: fmt_2_2u_two_digits)
  then show ?thesis
    by (simp add: h length_encode_base64 length_decode_base64 [OF d])
qed

lemma bcmp_equal:
  "length a = length b \<Longrightarrow> timingsafe_bcmp_portable a b (length b) = 0 \<longleftrightarrow> a = b"
  by (simp add: timingsafe_bcmp_portable_def bcmp_loop_zero)

lemma unat_of_char: "unat (of_char c :: u8) = uchar c"
proof -
  have "unat (of_nat (uchar c) :: u8) = uchar c" by (simp add: unat_of_nat)
  then show ?thesis by (simp only: of_nat_of_char)
qed

lemma map_of_char_inject: "map of_char a = (map of_char b :: u8 list) \<longleftrightarrow> a = b"
proof -
  have "inj (of_char :: char \<Rightarrow> u8)"
    by (rule injI) (metis char_of_char unat_of_char)
  then show ?thesis by (simp add: inj_map_eq_map)
qed

lemma checkpass_iff: "bcrypt_checkpass key hash \<longleftrightarrow> bcrypt_hashpass_internal key hash 64 = Some hash"
proof -
  have "length c = length hash \<and> timingsafe_bcmp_portable (map of_char c) (map of_char hash) (length hash) = 0
    \<longleftrightarrow> c = hash" for c
    using bcmp_equal [of "map of_char c" "map of_char hash"] map_of_char_inject by fastforce
  then show ?thesis by (simp add: bcrypt_checkpass_def split: option.splits)
qed

section \<open>Generated salts and long keys\<close>

lemma secure_random_length: "secure_random n opened rs = RandomOk bs \<Longrightarrow> length bs = n"
  by (auto simp: secure_random_def split: if_splits dest: urandom_loop_length)

lemma gensalt_Some:
  assumes "bcrypt_gensalt wfac opened rs = Some s"
  obtains logr csalt where "4 \<le> logr" "logr \<le> 31" "length csalt = 16"
    "s = ''$2b$'' @ fmt_2_2u logr @ ''$'' @ encode_base64 csalt"
    "logr = (if wfac < 4 then 4 else if wfac > 31 then 31 else nat wfac)"
proof -
  from assms obtain csalt where c: "secure_random 16 opened rs = RandomOk csalt"
    and s: "s = ''$2b$'' @ fmt_2_2u (if wfac < 4 then 4 else if wfac > 31 then 31 else nat wfac) @ ''$'' @ encode_base64 csalt"
    by (auto simp: bcrypt_gensalt_def Let_def split: random_result.splits)
  show thesis
    by (rule that [OF _ _ secure_random_length [OF c] s refl]) auto
qed

lemma hashpass_of_gensalt:
  assumes "bcrypt_gensalt wfac opened rs = Some s"
  shows "\<exists>h. bcrypt_hashpass key s = Some h \<and> length h = 60 \<and> take 29 h = s"
proof -
  from assms obtain logr csalt where r: "4 \<le> logr" "logr \<le> 31" and l: "length csalt = 16"
    and s: "s = ''$2b$'' @ fmt_2_2u logr @ ''$'' @ encode_base64 csalt" by (rule gensalt_Some)
  have p: "parse_prefix s = Some (CHR ''b'', logr, encode_base64 csalt)"
    using parse_prefix_print [of "CHR ''b''" logr "encode_base64 csalt"] r by (simp add: s)
  have d: "decode_base64 16 (encode_base64 csalt) = Some csalt"
    using decode_encode_base64 [of csalt "[]"] by (simp add: l)
  have len: "length (encode_base64 csalt) = 22" by (simp add: length_encode_base64 l)
  from hashpass_internal_eq [OF _ p _ d, of 64 key] len obtain h where
    h: "bcrypt_hashpass_internal key s 64 = Some h" and
    "h = ''$2b$'' @ fmt_2_2u logr @ ''$'' @ encode_base64 csalt
       @ encode_base64 (take 23 (bcrypt_ciphertext
           (bcrypt_setup (key_bytes key) (word_of_nat (key_len (CHR ''b'') key)) csalt logr)))"
    by simp
  then have "take 29 h = s"
    using len r by (simp add: s fmt_2_2u_two_digits)
  then show ?thesis using h hash_length [OF h] by (auto simp: bcrypt_hashpass_def)
qed

lemma mix_key_cong:
  assumes "0 < n" and "\<And>i. i < unat n \<Longrightarrow> key ! i = key' ! i"
  shows "mix_key key n i = mix_key key' n i"
proof -
  have "Blowfish_stream2word key n j = Blowfish_stream2word key' n j" for j
    using assms by (rule stream2word_cong)
  then show ?thesis by (simp add: mix_key_def)
qed

lemma bcrypt_setup_cong:
  assumes "0 < n" and "\<And>i. i < unat n \<Longrightarrow> key ! i = key' ! i"
  shows "bcrypt_setup key n csalt logr = bcrypt_setup key' n csalt logr"
proof -
  have "mix_key key n = mix_key key' n"
    by (rule ext) (rule mix_key_cong [OF assms])
  then have e: "expand_P_key c key n = expand_P_key c key' n" for c
    by (simp add: expand_P_key_def)
  show ?thesis
    by (simp add: bcrypt_setup_def Blowfish_expandstate_def Blowfish_expand0state_def e)
qed

lemma key_bytes_nth: "i < length key \<Longrightarrow> key_bytes key ! i = of_char (key ! i)"
  by (simp add: key_bytes_def nth_append)

section \<open>Properties\<close>

text \<open>
  The bcrypt base64 codec round trip: decoding as many bytes as were encoded gives them back,
  whatever follows the encoded text in the buffer.
\<close>

theorem base64_roundtrip: "decode_base64 (length xs) (encode_base64 xs @ rest) = Some xs"
  by (rule decode_encode_base64)

text \<open>
  A hash made from a key verifies against that key: whenever \<^verbatim>\<open>bcrypt_hashpass\<close> succeeds,
  \<^verbatim>\<open>bcrypt_checkpass\<close> accepts the same key with the produced hash, which has 60 characters.
\<close>

theorem bcrypt_hash_verifies:
  assumes "bcrypt_hashpass key salt = Some h"
  shows "bcrypt_checkpass key h \<and> length h = 60"
  using assms hash_rehashes_to_itself hash_length
  unfolding bcrypt_hashpass_def checkpass_iff by blast

theorem bcrypt_hash_verifies_witness:
  "\<exists>h. bcrypt_hashpass ''secret1'' ''$2b$04$......................'' = Some h
     \<and> bcrypt_checkpass ''secret1'' h"
proof -
  have p: "parse_prefix ''$2b$04$......................'' = Some (CHR ''b'', 4, ''......................'')"
    by code_simp
  have "decode_base64 16 ''......................'' = Some (replicate 16 0)"
    by code_simp
  from hashpass_internal_eq [OF _ p _ this, of 64 "''secret1''"]
  obtain h where "bcrypt_hashpass ''secret1'' ''$2b$04$......................'' = Some h"
    by (simp add: bcrypt_hashpass_def)
  then show ?thesis using bcrypt_hash_verifies by blast
qed

text \<open>
  C35. \<^verbatim>\<open>bcrypt_checkpass\<close> accepts exactly when hashing the key with the stored hash as salt
  reproduces the stored hash, so the constant-time comparison decides equality of the strings.
\<close>

theorem bcrypt_checkpass_exact:
  "bcrypt_checkpass key hash \<longleftrightarrow> bcrypt_hashpass key hash = Some hash"
  by (simp add: checkpass_iff bcrypt_hashpass_def)

text \<open>
  Every salt \<^verbatim>\<open>bcrypt_gensalt\<close> returns is accepted by \<^verbatim>\<open>bcrypt_hashpass\<close> for every key:
  the work factor is clamped to 4..31 and printed with two digits, the 16 random bytes survive the
  base64 text, and the hash starts with the salt string.
\<close>

theorem gensalt_accepted:
  assumes "bcrypt_gensalt workfactor opened reads = Some salt"
  shows "\<exists>h. bcrypt_hashpass key salt = Some h \<and> length h = 60 \<and> take 29 h = salt"
  using assms by (rule hashpass_of_gensalt)

theorem gensalt_accepted_witness:
  "\<exists>s h. bcrypt_gensalt 99 True [ReadBytes (replicate 10 7), ReadBytes (replicate 10 9)] = Some s
     \<and> bcrypt_hashpass ''pw'' s = Some h \<and> take 29 h = s"
proof -
  have "bcrypt_gensalt 99 True [ReadBytes (replicate 10 7), ReadBytes (replicate 10 9)] \<noteq> None"
    by code_simp
  then obtain s where
    "bcrypt_gensalt 99 True [ReadBytes (replicate 10 7), ReadBytes (replicate 10 9)] = Some s" by blast
  with gensalt_accepted [OF this, of "''pw''"] show ?thesis by blast
qed

text \<open>
  With version 2b only the first 73 bytes of a key longer than 72 bytes matter (the length is
  capped at 72 and one more byte is taken for the NUL, which such a key does not have there).
\<close>

theorem bcrypt_long_keys:
  assumes "72 < length key" and "72 < length key'" and "take 73 key = take 73 key'"
    and "parse_prefix salt = Some (CHR ''b'', logr, rest)"
  shows "bcrypt_hashpass key salt = bcrypt_hashpass key' salt"
proof -
  have "key_bytes key ! i = key_bytes key' ! i" if "i < unat (73 :: u16)" for i
    using that assms(1-3) by (simp add: key_bytes_nth) (metis nth_take)
  then have "bcrypt_setup (key_bytes key) 73 csalt logr = bcrypt_setup (key_bytes key') 73 csalt logr" for csalt
    by (intro bcrypt_setup_cong) simp_all
  moreover have "key_len (CHR ''b'') key = 73" "key_len (CHR ''b'') key' = 73"
    using assms by (simp_all add: key_len_def)
  ultimately show ?thesis
    using assms(4) by (auto simp: bcrypt_hashpass_def bcrypt_hashpass_internal_def Let_def split: option.splits)
qed

theorem bcrypt_long_keys_witness:
  "bcrypt_hashpass (replicate 80 (CHR ''x'')) ''$2b$04$......................''
   = bcrypt_hashpass (replicate 73 (CHR ''x'')) ''$2b$04$......................''"
proof -
  have "parse_prefix ''$2b$04$......................'' = Some (CHR ''b'', 4, ''......................'')"
    by code_simp
  then show ?thesis by (intro bcrypt_long_keys) simp_all
qed

end
