(* ===== verification/Password_Hash.thy ===== *)
theory Password_Hash
  imports Bcrypt
begin

text \<open>
  \<^verbatim>\<open>src/auth/password_hash.h\<close>: the password policy, \<^verbatim>\<open>hash_password\<close>, \<^verbatim>\<open>verify_password\<close>,
  \<^verbatim>\<open>extract_cost_factor\<close> and \<^verbatim>\<open>needs_rehash\<close> over the bcrypt model.

  A password is a \<^verbatim>\<open>std::string_view\<close>, so it may contain NUL bytes; the C functions see
  \<open>c_str\<close> of it. The exceptions are the constructors of \<open>password_error\<close>.
\<close>

datatype password_error =
    PasswordPolicyError string
  | PasswordHashError string

definition kBcryptCostFactor :: nat where "kBcryptCostFactor = 12"
definition kMinPasswordLength :: nat where "kMinPasswordLength = 8"
definition kMaxPasswordLength :: nat where "kMaxPasswordLength = 72"

text \<open>The scan for a letter and a digit, with its early exit.\<close>

fun scan_classes :: "string \<Rightarrow> bool \<Rightarrow> bool \<Rightarrow> bool \<times> bool" where
  "scan_classes [] has_letter has_digit = (has_letter, has_digit)"
| "scan_classes (c # cs) has_letter has_digit =
     (let l = (if \<not> has_letter \<and> isalpha c then True else has_letter);
          d = (if \<not> has_digit \<and> isdigit c then True else has_digit)
      in if l \<and> d then (l, d) else scan_classes cs l d)"

text \<open>\<open>Inl\<close> carries the text stored through \<^verbatim>\<open>error_out\<close>.\<close>

definition validate_password_strength :: "string \<Rightarrow> string + unit" where
  "validate_password_strength password =
     (if length password < kMinPasswordLength then
        Inl (''password must be at least '' @ to_string (int kMinPasswordLength) @ '' characters'')
      else if length password > kMaxPasswordLength then
        Inl (''password must be at most '' @ to_string (int kMaxPasswordLength) @ '' characters'')
      else case scan_classes password False False of
        (has_letter, has_digit) \<Rightarrow>
          (if \<not> has_letter \<or> \<not> has_digit then Inl ''password must contain both letters and digits''
           else Inr ()))"

definition require_password_strength :: "string \<Rightarrow> password_error + unit" where
  "require_password_strength password =
     (case validate_password_strength password of
        Inl why \<Rightarrow> Inl (PasswordPolicyError why) | Inr u \<Rightarrow> Inr u)"

definition hash_password :: "string \<Rightarrow> bool \<Rightarrow> read_result list \<Rightarrow> password_error + string" where
  "hash_password password opened reads =
     (case require_password_strength password of
        Inl e \<Rightarrow> Inl e
      | Inr _ \<Rightarrow>
          (case bcrypt_gensalt (int kBcryptCostFactor) opened reads of
             None \<Rightarrow> Inl (PasswordHashError ''bcrypt_gensalt failed (secure RNG unavailable)'')
           | Some salt \<Rightarrow>
               (case bcrypt_hashpass (c_str password) salt of
                  None \<Rightarrow> Inl (PasswordHashError
                            (''bcrypt_hashpass failed for cost='' @ to_string (int kBcryptCostFactor)))
                | Some h \<Rightarrow> Inr h)))"

definition verify_password :: "string \<Rightarrow> string \<Rightarrow> bool" where
  "verify_password password hash =
     (if password = [] \<or> hash = [] then False
      else bcrypt_checkpass (c_str password) (c_str hash))"

definition extract_cost_factor :: "string \<Rightarrow> int" where
  "extract_cost_factor hash =
     (if length hash < 7 then -1
      else if hash ! 0 \<noteq> CHR ''$'' then -1
      else if hash ! 1 \<noteq> CHR ''2'' then -1
      else if hash ! 2 \<noteq> CHR ''a'' \<and> hash ! 2 \<noteq> CHR ''b'' \<and> hash ! 2 \<noteq> CHR ''y'' then -1
      else if hash ! 3 \<noteq> CHR ''$'' then -1
      else if \<not> isdigit (hash ! 4) then -1
      else if \<not> isdigit (hash ! 5) then -1
      else if hash ! 6 \<noteq> CHR ''$'' then -1
      else
        let tens = int (uchar (hash ! 4)) - 48;
            ones = int (uchar (hash ! 5)) - 48;
            cost = tens * 10 + ones
        in if cost < 4 \<or> cost > 31 then -1 else cost)"

definition needs_rehash :: "string \<Rightarrow> bool" where
  "needs_rehash hash =
     (let cost = extract_cost_factor hash in cost > 0 \<and> cost < int kBcryptCostFactor)"

section \<open>Lemmas\<close>

lemma scan_classes_spec:
  "scan_classes cs l d = (l', d') \<Longrightarrow>
   (l' \<and> d') \<longleftrightarrow> (l \<or> (\<exists>c \<in> set cs. isalpha c)) \<and> (d \<or> (\<exists>c \<in> set cs. isdigit c))"
  by (induction cs arbitrary: l d) (auto simp: Let_def split: if_splits)

definition password_policy :: "string \<Rightarrow> bool" where
  "password_policy pw \<longleftrightarrow> 8 \<le> length pw \<and> length pw \<le> 72
     \<and> (\<exists>c \<in> set pw. isalpha c) \<and> (\<exists>c \<in> set pw. isdigit c)"

lemma validate_iff_policy: "validate_password_strength pw = Inr () \<longleftrightarrow> password_policy pw"
proof -
  obtain l d where ld: "scan_classes pw False False = (l, d)" by fastforce
  from scan_classes_spec [OF ld] show ?thesis
    by (auto simp: validate_password_strength_def password_policy_def ld kMinPasswordLength_def
        kMaxPasswordLength_def)
qed

lemma hash_password_Inr:
  assumes "hash_password pw opened reads = Inr h"
  obtains salt where "password_policy pw" "bcrypt_gensalt 12 opened reads = Some salt"
    "bcrypt_hashpass (c_str pw) salt = Some h"
  using assms
  by (auto simp: hash_password_def require_password_strength_def kBcryptCostFactor_def
      simp flip: validate_iff_policy split: sum.splits option.splits)

lemma not_NUL_Base64Code: "NUL \<notin> set Base64Code"
  by (simp add: Base64Code_def)

lemma digit_char_not_NUL [simp]: "digit_char d \<noteq> NUL" "NUL \<noteq> digit_char d"
proof -
  have "uchar (digit_char d) \<noteq> uchar NUL" by (simp add: uchar_digit_char)
  then show "digit_char d \<noteq> NUL" "NUL \<noteq> digit_char d" by metis+
qed

text \<open>A produced hash contains no NUL, so the C string of the stored column is the column.\<close>

lemma hash_no_NUL:
  assumes "bcrypt_hashpass_internal key salt n = Some h"
  shows "NUL \<notin> set h"
proof -
  from assms obtain minor logr salt3 csalt where
    p: "parse_prefix salt = Some (minor, logr, salt3)"
    and h: "h = ''$2'' @ [minor] @ ''$'' @ fmt_2_2u logr @ ''$'' @ encode_base64 csalt
       @ encode_base64 (take 23 (bcrypt_ciphertext
           (bcrypt_setup (key_bytes key) (word_of_nat (key_len minor key)) csalt logr)))"
    by (rule hashpass_internal_Some)
  have "NUL \<notin> set (encode_base64 xs)" for xs
    using encode_base64_alphabet not_NUL_Base64Code by blast
  moreover have "set (fmt_2_2u logr) = {digit_char (logr div 10), digit_char logr}"
    using parse_prefix_bounds [OF p] by (simp add: fmt_2_2u_two_digits)
  ultimately show ?thesis
    using parse_prefix_bounds [OF p] by (auto simp: h)
qed

lemma verify_password_eq:
  "pw \<noteq> [] \<Longrightarrow> h \<noteq> [] \<Longrightarrow> NUL \<notin> set h \<Longrightarrow> verify_password pw h = bcrypt_checkpass (c_str pw) h"
  by (simp add: verify_password_def c_str_id)

lemma extract_cost_prefix:
  assumes "4 \<le> logr" and "logr \<le> 31" and "minor \<in> {CHR ''a'', CHR ''b'', CHR ''y''}"
  shows "extract_cost_factor (''$2'' @ [minor] @ ''$'' @ fmt_2_2u logr @ ''$'' @ rest) = int logr"
proof -
  have "logr div 10 mod 10 = logr div 10" using assms by simp
  then have "int (logr div 10 mod 10) * 10 + int (logr mod 10) = int logr"
    by (metis div_mult_mod_eq of_nat_add of_nat_mult of_nat_numeral)
  then show ?thesis using assms
    by (auto simp: extract_cost_factor_def fmt_2_2u_two_digits uchar_digit_char Let_def nth_Cons')
qed

section \<open>Properties\<close>

text \<open>
  The password policy: \<^verbatim>\<open>validate_password_strength\<close> accepts exactly the passwords of 8 to 72
  bytes with at least one ASCII letter and one digit, despite the early exit of its scan.
\<close>

theorem password_policy_exact:
  "validate_password_strength pw = Inr () \<longleftrightarrow>
     8 \<le> length pw \<and> length pw \<le> 72 \<and> (\<exists>c \<in> set pw. isalpha c) \<and> (\<exists>c \<in> set pw. isdigit c)"
  by (simp add: validate_iff_policy password_policy_def)

lemma hash_verifies:
  assumes "hash_password pw opened reads = Inr h"
  shows "verify_password pw h" and "length h = 60"
proof -
  from assms obtain salt where pol: "password_policy pw"
    and h: "bcrypt_hashpass (c_str pw) salt = Some h" by (rule hash_password_Inr)
  from h have hi: "bcrypt_hashpass_internal (c_str pw) salt 64 = Some h"
    by (simp add: bcrypt_hashpass_def)
  show len: "length h = 60" using hi by (rule hash_length)
  have "pw \<noteq> []" "h \<noteq> []" using pol len by (auto simp: password_policy_def)
  then show "verify_password pw h"
    using verify_password_eq [of pw h] hash_no_NUL [OF hi] hash_rehashes_to_itself [OF hi]
    by (simp add: checkpass_iff)
qed

lemma demo_hash_exists: "\<exists>h. hash_password ''passw0rd'' True [ReadBytes (replicate 16 5)] = Inr h"
proof -
  have v: "validate_password_strength ''passw0rd'' = Inr ()" by code_simp
  have "bcrypt_gensalt 12 True [ReadBytes (replicate 16 5)] \<noteq> None" by code_simp
  then obtain s where s: "bcrypt_gensalt 12 True [ReadBytes (replicate 16 5)] = Some s" by blast
  then obtain h where "bcrypt_hashpass (c_str ''passw0rd'') s = Some h"
    using hashpass_of_gensalt by blast
  then show ?thesis
    using v s by (simp add: hash_password_def require_password_strength_def kBcryptCostFactor_def)
qed

text \<open>
  C26. Registration and login agree: a password that \<^verbatim>\<open>hash_password\<close> accepts verifies against
  the hash it returned; the hash has 60 characters, its cost is 12 and it needs no rehash.
\<close>

theorem hash_then_verify:
  assumes "hash_password pw opened reads = Inr h"
  shows "verify_password pw h \<and> length h = 60 \<and> extract_cost_factor h = 12 \<and> \<not> needs_rehash h"
proof -
  from assms obtain salt where s: "bcrypt_gensalt 12 opened reads = Some salt"
    and h: "bcrypt_hashpass (c_str pw) salt = Some h" by (rule hash_password_Inr)
  from s obtain csalt where salt: "salt = ''$2b$'' @ fmt_2_2u 12 @ ''$'' @ encode_base64 csalt"
    by (auto elim: gensalt_Some)
  have "take 29 h = salt" using hashpass_of_gensalt [OF s, of "c_str pw"] h by auto
  then have "h = ''$2'' @ [CHR ''b''] @ ''$'' @ fmt_2_2u 12 @ ''$'' @ (encode_base64 csalt @ drop 29 h)"
    using append_take_drop_id [of 29 h] by (simp add: salt)
  then have "extract_cost_factor h = 12"
    using extract_cost_prefix [of 12 "CHR ''b''" "encode_base64 csalt @ drop 29 h"] by simp
  then show ?thesis using hash_verifies [OF assms] by (simp add: needs_rehash_def kBcryptCostFactor_def)
qed

theorem hash_then_verify_witness:
  "\<exists>h. hash_password ''passw0rd'' True [ReadBytes (replicate 16 5)] = Inr h \<and> verify_password ''passw0rd'' h"
  using demo_hash_exists hash_then_verify by blast

text \<open>
  Only the bytes before the first NUL of a password count: two non-empty passwords with the
  same C string verify against exactly the same hashes, although the policy is checked on all
  bytes.
\<close>

theorem verify_ignores_after_NUL:
  assumes "c_str pw = c_str pw'" and "pw \<noteq> []" and "pw' \<noteq> []"
  shows "verify_password pw h = verify_password pw' h"
  using assms by (simp add: verify_password_def)

theorem verify_ignores_after_NUL_witness:
  "verify_password (''a1'' @ [NUL] @ ''secret'') ''$2b$04$......................''
   = verify_password (''a1'' @ [NUL] @ ''public'') ''$2b$04$......................''"
  by (rule verify_ignores_after_NUL) (simp_all add: c_str_def)

text \<open>
  Version 2y hashes: \<^verbatim>\<open>extract_cost_factor\<close> reports their cost (so \<^verbatim>\<open>needs_rehash\<close> may ask
  for an upgrade), but \<^verbatim>\<open>verify_password\<close> rejects every password for them, because
  \<^verbatim>\<open>bcrypt_hashpass_internal\<close> accepts only the minor versions a and b.
\<close>

theorem version_2y_never_verifies:
  assumes "4 \<le> logr" and "logr \<le> 31"
  shows "extract_cost_factor (''$2y$'' @ fmt_2_2u logr @ ''$'' @ rest) = int logr
    \<and> \<not> verify_password pw (''$2y$'' @ fmt_2_2u logr @ ''$'' @ rest)"
proof -
  have "extract_cost_factor (''$2y$'' @ fmt_2_2u logr @ ''$'' @ rest) = int logr"
    using extract_cost_prefix [of logr "CHR ''y''" rest] assms by simp
  moreover have "parse_prefix (c_str (''$2y$'' @ fmt_2_2u logr @ ''$'' @ rest)) = None"
    by (simp add: c_str_def parse_prefix_def)
  ultimately show ?thesis
    by (simp add: verify_password_def checkpass_iff bcrypt_hashpass_internal_def)
qed

theorem version_2y_never_verifies_witness:
  "extract_cost_factor ''$2y$10$abc'' = 10 \<and> \<not> verify_password ''passw0rd'' ''$2y$10$abc''"
proof -
  have "fmt_2_2u 10 = ''10''" by code_simp
  then show ?thesis using version_2y_never_verifies [of 10 "''abc''" "''passw0rd''"] by simp
qed

end
