(* ===== verification/Cookie_Utils.thy ===== *)
theory Cookie_Utils
  imports Prelude
begin

text \<open>
  \<^verbatim>\<open>src/utils/cookie_utils.h\<close>: the Set-Cookie values the auth routes send and the parser of the
  Cookie request header. The index-based loops become recursion on the unread rest of the header.

  Main results: the parser inverts the rendering a browser sends, and looking up the cookie that
  was issued returns the issued token.
\<close>

record cookie_config =
  ck_http_only :: bool
  ck_secure :: bool
  ck_same_site :: string
  ck_path :: string
  ck_name :: string
  ck_max_age_seconds :: int

definition build_set_cookie_header :: "cookie_config \<Rightarrow> string \<Rightarrow> int \<Rightarrow> string" where
  "build_set_cookie_header cfg value max_age_seconds =
     (let max_age = (if max_age_seconds > 0 then max_age_seconds else ck_max_age_seconds cfg)
      in ck_name cfg @ ''='' @ value
         @ (if max_age > 0 then ''; Max-Age='' @ to_string max_age else [])
         @ (if ck_path cfg \<noteq> [] then ''; Path='' @ ck_path cfg else [])
         @ (if ck_http_only cfg then ''; HttpOnly'' else [])
         @ (if ck_secure cfg then ''; Secure'' else [])
         @ (if ck_same_site cfg \<noteq> [] then ''; SameSite='' @ ck_same_site cfg else []))"

definition build_clear_cookie_header :: "cookie_config \<Rightarrow> string" where
  "build_clear_cookie_header cfg =
     ck_name cfg @ ''=; Max-Age=0'' @ (if ck_path cfg \<noteq> [] then ''; Path='' @ ck_path cfg else [])"

definition is_ows :: "char \<Rightarrow> bool" where
  "is_ows c \<longleftrightarrow> c = CHR '' '' \<or> c = CHR 0x09"

definition trim_ows :: "string \<Rightarrow> string" where
  "trim_ows s = rev (dropWhile is_ows (rev (dropWhile is_ows s)))"

definition is_cookie_sep :: "char \<Rightarrow> bool" where
  "is_cookie_sep c \<longleftrightarrow> is_ows c \<or> c = CHR '';'' \<or> c = CHR '',''"

definition dquote :: char where
  "dquote = CHR 0x22"

definition strip_dquotes :: "string \<Rightarrow> string" where
  "strip_dquotes v =
     (if 2 \<le> length v \<and> hd v = dquote \<and> last v = dquote then butlast (tl v) else v)"

text \<open>One \<^verbatim>\<open>name=value\<close> chunk; \<open>None\<close> is the \<^verbatim>\<open>continue\<close> of the loop.\<close>

definition cookie_of_chunk :: "string \<Rightarrow> (string \<times> string) option" where
  "cookie_of_chunk chunk =
     (case split_at_char (CHR ''='') chunk of
        None \<Rightarrow> None
      | Some (n, v) \<Rightarrow>
          let name = trim_ows n; value = trim_ows v
          in if name = [] then None else Some (name, strip_dquotes value))"

lemma length_after_chunk:
  assumes "dropWhile is_cookie_sep header \<noteq> []"
  shows "length (drop 1 (dropWhile (\<lambda>c. c \<noteq> CHR '';'') (dropWhile is_cookie_sep header))) < length header"
proof -
  let ?s = "dropWhile is_cookie_sep header"
  have "length (dropWhile (\<lambda>c. c \<noteq> CHR '';'') ?s) \<le> length ?s" by (rule length_dropWhile_le)
  moreover have "length ?s \<le> length header" by (rule length_dropWhile_le)
  moreover have "0 < length ?s" using assms by simp
  ultimately show ?thesis unfolding length_drop by linarith
qed

function parse_cookie_header :: "string \<Rightarrow> (string \<times> string) list" where
  "parse_cookie_header header =
     (let s = dropWhile is_cookie_sep header in
      if s = [] then []
      else
        let chunk = takeWhile (\<lambda>c. c \<noteq> CHR '';'') s;
            rest = drop 1 (dropWhile (\<lambda>c. c \<noteq> CHR '';'') s)
        in case cookie_of_chunk chunk of
             None \<Rightarrow> parse_cookie_header rest
           | Some p \<Rightarrow> p # parse_cookie_header rest)"
  by (pat_completeness, simp)

termination
proof (relation "measure length", goal_cases)
  case 1
  then show ?case by (rule wf_measure)
next
  case 2
  then show ?case using length_after_chunk by (simp only: in_measure)
next
  case 3
  then show ?case using length_after_chunk by (simp only: in_measure)
qed

declare parse_cookie_header.simps [simp del]

definition get_cookie_value :: "string \<Rightarrow> string \<Rightarrow> string" where
  "get_cookie_value header name =
     (if header = [] \<or> name = [] then []
      else case List.find (\<lambda>p. fst p = name) (parse_cookie_header header) of
             None \<Rightarrow> [] | Some p \<Rightarrow> snd p)"

section \<open>What a browser sends\<close>

text \<open>The cookie pairs as the Cookie header carries them, and the pairs that need no quoting.\<close>

fun render_cookies :: "(string \<times> string) list \<Rightarrow> string" where
  "render_cookies [] = []"
| "render_cookies [(n, v)] = n @ ''='' @ v"
| "render_cookies ((n, v) # ps) = n @ ''='' @ v @ ''; '' @ render_cookies ps"

definition plain_name :: "string \<Rightarrow> bool" where
  "plain_name n \<longleftrightarrow> n \<noteq> [] \<and> (\<forall>c \<in> set n. \<not> is_cookie_sep c \<and> c \<noteq> CHR ''='')"

definition plain_value :: "string \<Rightarrow> bool" where
  "plain_value v \<longleftrightarrow> (\<forall>c \<in> set v. c \<noteq> CHR '';'' \<and> \<not> is_ows c \<and> c \<noteq> dquote)"

lemma dropWhile_none: "(\<forall>c \<in> set s. \<not> P c) \<Longrightarrow> dropWhile P s = s"
  by (cases s) auto

lemma trim_ows_id: "(\<forall>c \<in> set s. \<not> is_ows c) \<Longrightarrow> trim_ows s = s"
  by (simp add: trim_ows_def dropWhile_none)

lemma strip_dquotes_id: "(\<forall>c \<in> set v. c \<noteq> dquote) \<Longrightarrow> strip_dquotes v = v"
  by (cases v) (auto simp: strip_dquotes_def)

lemma cookie_of_chunk_plain:
  assumes "plain_name n" and "plain_value v"
  shows "cookie_of_chunk (n @ CHR ''='' # v) = Some (n, v)"
proof -
  have "split_at_char (CHR ''='') (n @ CHR ''='' # v) = Some (n, v)"
    using assms(1) by (intro split_at_char_append) (auto simp: plain_name_def)
  moreover have "trim_ows n = n" "trim_ows v = v" "strip_dquotes v = v"
    using assms by (auto simp: plain_name_def plain_value_def is_cookie_sep_def intro!: trim_ows_id strip_dquotes_id)
  ultimately show ?thesis using assms(1) by (simp add: cookie_of_chunk_def plain_name_def)
qed

lemma dropWhile_seps_name:
  assumes "plain_name n"
  shows "dropWhile is_cookie_sep (n @ xs) = n @ xs"
proof -
  from assms obtain c cs where "n = c # cs" by (cases n) (auto simp: plain_name_def)
  then show ?thesis using assms by (simp add: plain_name_def)
qed

lemma chunk_no_semicolon:
  assumes "plain_name n" and "plain_value v"
  shows "\<forall>c \<in> set (n @ CHR ''='' # v). c \<noteq> CHR '';''"
  using assms by (auto simp: plain_name_def plain_value_def is_cookie_sep_def)

lemma parse_one:
  assumes "plain_name n" and "plain_value v"
  shows "parse_cookie_header (n @ CHR ''='' # v) = [(n, v)]"
proof -
  let ?p = "\<lambda>c. c \<noteq> CHR '';''"
  have t: "takeWhile ?p (n @ CHR ''='' # v) = n @ CHR ''='' # v"
    using chunk_no_semicolon [OF assms] by (simp only: takeWhile_eq_all_conv)
  have d: "dropWhile ?p (n @ CHR ''='' # v) = []"
    using chunk_no_semicolon [OF assms] by (simp only: dropWhile_eq_Nil_conv)
  have "parse_cookie_header [] = []" by (simp add: parse_cookie_header.simps)
  then show ?thesis
    by (subst parse_cookie_header.simps)
       (simp add: Let_def dropWhile_seps_name [OF assms(1)] t d cookie_of_chunk_plain [OF assms])
qed

lemma parse_more:
  assumes "plain_name n" and "plain_value v"
  shows "parse_cookie_header (n @ CHR ''='' # v @ CHR '';'' # rest) = (n, v) # parse_cookie_header rest"
proof -
  let ?p = "\<lambda>c. c \<noteq> CHR '';''"
  let ?s = "(n @ CHR ''='' # v) @ CHR '';'' # rest"
  have t: "takeWhile ?p ?s = n @ CHR ''='' # v" and d: "dropWhile ?p ?s = CHR '';'' # rest"
    using chunk_no_semicolon [OF assms]
    by (subst takeWhile_append2, blast, simp, subst dropWhile_append2, blast, simp)
  show ?thesis
    using t d cookie_of_chunk_plain [OF assms] dropWhile_seps_name [OF assms(1)]
    by (subst parse_cookie_header.simps) (simp add: Let_def)
qed

lemma parse_leading_space: "parse_cookie_header (CHR '' '' # s) = parse_cookie_header s"
  by (simp add: parse_cookie_header.simps [of "CHR '' '' # s"] parse_cookie_header.simps [of s]
      is_cookie_sep_def is_ows_def)

lemma parse_render:
  "(\<forall>p \<in> set ps. plain_name (fst p) \<and> plain_value (snd p)) \<Longrightarrow> parse_cookie_header (render_cookies ps) = ps"
proof (induction ps rule: render_cookies.induct)
  case 1
  then show ?case by (simp add: parse_cookie_header.simps)
next
  case (2 n v)
  then show ?case by (simp add: parse_one)
next
  case (3 n v p ps)
  then show ?case by (simp add: parse_more parse_leading_space)
qed

section \<open>Properties\<close>

text \<open>
  Parsing the Cookie header inverts its rendering: for any list of cookies whose names are
  tokens and whose values hold no semicolon, blank or double quote (as JWTs do), the parser returns
  exactly the list, in order.
\<close>

theorem cookie_header_roundtrip:
  assumes "\<forall>p \<in> set ps. plain_name (fst p) \<and> plain_value (snd p)"
  shows "parse_cookie_header (render_cookies ps) = ps"
  using assms by (rule parse_render)

theorem cookie_header_roundtrip_witness:
  "parse_cookie_header (render_cookies [(''theme'', ''dark''), (''lc_refresh'', ''a.b=.c'')])
   = [(''theme'', ''dark''), (''lc_refresh'', ''a.b=.c'')]"
proof -
  have "\<forall>p \<in> set [(''theme'', ''dark''), (''lc_refresh'', ''a.b=.c'')]. plain_name (fst p) \<and> plain_value (snd p)"
    by code_simp
  then show ?thesis by (rule cookie_header_roundtrip)
qed

lemma find_issued_cookie:
  assumes "plain_name (ck_name cfg)" and "plain_value token"
    and "\<forall>p \<in> set before. plain_name (fst p) \<and> plain_value (snd p) \<and> fst p \<noteq> ck_name cfg"
    and "\<forall>p \<in> set after. plain_name (fst p) \<and> plain_value (snd p)"
  shows "get_cookie_value (render_cookies (before @ (ck_name cfg, token) # after)) (ck_name cfg) = token"
proof -
  let ?ps = "before @ (ck_name cfg, token) # after"
  have p: "parse_cookie_header (render_cookies ?ps) = ?ps"
    using assms by (intro parse_render) auto
  have "render_cookies ?ps \<noteq> []"
  proof
    assume "render_cookies ?ps = []"
    then have "?ps = []" using p by (simp add: parse_cookie_header.simps)
    then show False by simp
  qed
  moreover have "List.find (\<lambda>p. fst p = ck_name cfg) ?ps = Some (ck_name cfg, token)"
    using assms(3) by (induction before) auto
  ultimately show ?thesis
    using assms(1) by (simp add: get_cookie_value_def p plain_name_def)
qed

text \<open>
  The refresh cookie is found again: if the browser's other cookies have other names, looking
  the configured name up in the header returns the issued token.
\<close>

theorem issued_cookie_found:
  assumes "plain_name (ck_name cfg)" and "plain_value token"
    and "\<forall>p \<in> set before. plain_name (fst p) \<and> plain_value (snd p) \<and> fst p \<noteq> ck_name cfg"
    and "\<forall>p \<in> set after. plain_name (fst p) \<and> plain_value (snd p)"
  shows "get_cookie_value (render_cookies (before @ (ck_name cfg, token) # after)) (ck_name cfg) = token"
  using assms by (rule find_issued_cookie)

definition dev_cookie :: cookie_config where
  "dev_cookie = \<lparr>ck_http_only = True, ck_secure = False, ck_same_site = ''Strict'',
     ck_path = ''/api/v1/auth'', ck_name = ''lc_refresh'', ck_max_age_seconds = 0\<rparr>"

theorem issued_cookie_found_witness:
  "get_cookie_value (render_cookies ([(''theme'', ''dark'')] @ (ck_name dev_cookie, ''h.p.s'') # []))
     (ck_name dev_cookie) = ''h.p.s''"
  by (rule issued_cookie_found) code_simp+

end
