(* ===== verification/Jwt_Utils.thy ===== *)
theory Jwt_Utils
  imports Validators
begin

text \<open>
  \<^verbatim>\<open>src/auth/jwt_utils.h\<close>: signing and verifying the two kinds of tokens.

  \<^verbatim>\<open>jwt-cpp\<close> is outside the repository; the argument \<open>L\<close> of the definitions holds what is called of
  it: building and signing a token, decoding, and the verifier configured with HS256, the secret and
  the issuer. A decoded token is its accessors, each of which may throw. \<open>jwt_lib_ok\<close> names the
  documented behaviour the round trip relies on: the accessors read back what the builder set, dates
  in whole seconds, and the verifier accepts a token signed with its own secret and issuer within
  its validity. Times are nanoseconds since the epoch (\<^verbatim>\<open>system_clock\<close> of libstdc++); a clock that
  is read twice is two arguments.

  Main results: what a successful verification guarantees about the claims, that signed tokens
  verify back to their claims and only as their own kind, and which failures are errors of the
  documented hierarchy.
\<close>

datatype TokenKind = Access | Refresh

fun token_kind_name :: "TokenKind \<Rightarrow> string" where
  "token_kind_name Access = ''access''"
| "token_kind_name Refresh = ''refresh''"

record Claims =
  user_id :: string
  username :: string
  role :: string
  kind :: TokenKind
  issued_at :: int
  expires_at :: int
  jti :: string

definition is_expired_at :: "Claims \<Rightarrow> int \<Rightarrow> bool" where
  "is_expired_at c now \<longleftrightarrow> now \<ge> expires_at c"

text \<open>
  The exception hierarchy (\<open>JwtClaimError\<close> is a \<open>JwtVerifyError\<close> in the source); \<open>LibError\<close> is an
  exception of the library that no handler of the function wraps.
\<close>

datatype jwt_error =
    JwtSignError string
  | JwtVerifyError string
  | JwtClaimError string
  | LibError string

fun is_jwt_verify_error :: "jwt_error \<Rightarrow> bool" where
  "is_jwt_verify_error (JwtVerifyError _) = True"
| "is_jwt_verify_error (JwtClaimError _) = True"
| "is_jwt_verify_error _ = False"

section \<open>The library\<close>

record jwt_builder =
  jb_type :: string
  jb_issuer :: string
  jb_subject :: string
  jb_id :: string
  jb_issued_at :: int
  jb_expires_at :: int
  jb_payload :: "(string \<times> string) list"

record decoded_jwt =
  dj_string :: "string \<Rightarrow> string outcome"
  dj_date :: "string \<Rightarrow> int outcome"
  dj_has :: "string \<Rightarrow> bool"

datatype check_result = CheckOk | CheckSignature string | CheckSystem string | CheckOther string

record jwt_lib =
  jl_sign :: "string \<Rightarrow> jwt_builder \<Rightarrow> string outcome"
  jl_decode :: "string \<Rightarrow> decoded_jwt outcome"
  jl_check :: "string \<Rightarrow> string \<Rightarrow> int \<Rightarrow> string \<Rightarrow> check_result"

abbreviation (input) ns_per_s :: int where
  "ns_per_s \<equiv> 1000000000"

section \<open>Signing\<close>

definition require_secret :: "string \<Rightarrow> jwt_error + unit" where
  "require_secret secret =
     (if length secret < 32 then
        Inl (JwtSignError (''JWT secret must be at least 32 bytes (got ''
              @ to_string (int (length secret)) @ '')''))
      else if secret = [] then Inl (JwtSignError ''JWT secret must not be empty'')
      else Inr ())"

definition require_ttl_seconds :: "int \<Rightarrow> jwt_error + unit" where
  "require_ttl_seconds ttl =
     (if ttl < 1 then Inl (JwtSignError (''JWT ttl_seconds must be >= 1 (got '' @ to_string ttl @ '')''))
      else Inr ())"

definition require_issuer :: "string \<Rightarrow> jwt_error + unit" where
  "require_issuer issuer =
     (if issuer = [] then Inl (JwtSignError ''JWT issuer must not be empty'') else Inr ())"

fun and_then :: "'e + unit \<Rightarrow> 'e + 'a \<Rightarrow> 'e + 'a" where
  "and_then (Inl e) k = Inl e"
| "and_then (Inr _) k = k"

record SignedToken =
  st_token :: string
  st_jti :: string

text \<open>\<open>uuid\<close> is the id \<^verbatim>\<open>generate_uuid_v4\<close> returns, \<open>now\<close> the clock at signing.\<close>

definition sign_access ::
    "jwt_lib \<Rightarrow> int \<Rightarrow> string \<Rightarrow> string \<Rightarrow> string \<Rightarrow> string \<Rightarrow> string \<Rightarrow> string \<Rightarrow> int \<Rightarrow> jwt_error + SignedToken" where
  "sign_access L now uuid secret issuer uid uname urole ttl =
     and_then (require_secret secret)
     (and_then (require_issuer issuer)
     (and_then (require_ttl_seconds ttl)
     (if uid = [] then Inl (JwtSignError ''sign_access: user_id must not be empty'')
      else if uname = [] then Inl (JwtSignError ''sign_access: username must not be empty'')
      else if urole = [] then Inl (JwtSignError ''sign_access: role must not be empty'')
      else case jl_sign L secret
                  \<lparr>jb_type = ''JWT'', jb_issuer = issuer, jb_subject = uid, jb_id = uuid,
                   jb_issued_at = now, jb_expires_at = now + ttl * ns_per_s,
                   jb_payload = [(''username'', uname), (''role'', urole),
                                 (''kind'', token_kind_name Access)]\<rparr> of
             Throws e \<Rightarrow> Inl (JwtSignError (''jwt-cpp sign_access failed: '' @ e))
           | Returns t \<Rightarrow> Inr \<lparr>st_token = t, st_jti = uuid\<rparr>)))"

definition sign_refresh ::
    "jwt_lib \<Rightarrow> int \<Rightarrow> string \<Rightarrow> string \<Rightarrow> string \<Rightarrow> string \<Rightarrow> int \<Rightarrow> jwt_error + SignedToken" where
  "sign_refresh L now uuid secret issuer uid ttl =
     and_then (require_secret secret)
     (and_then (require_issuer issuer)
     (and_then (require_ttl_seconds ttl)
     (if uid = [] then Inl (JwtSignError ''sign_refresh: user_id must not be empty'')
      else case jl_sign L secret
                  \<lparr>jb_type = ''JWT'', jb_issuer = issuer, jb_subject = uid, jb_id = uuid,
                   jb_issued_at = now, jb_expires_at = now + ttl * ns_per_s,
                   jb_payload = [(''kind'', token_kind_name Refresh)]\<rparr> of
             Throws e \<Rightarrow> Inl (JwtSignError (''jwt-cpp sign_refresh failed: '' @ e))
           | Returns t \<Rightarrow> Inr \<lparr>st_token = t, st_jti = uuid\<rparr>)))"

section \<open>Verifying\<close>

text \<open>The steps of \<^verbatim>\<open>verify\<close> after the verifier has run, in the order of the source.\<close>

definition read_subject :: "decoded_jwt \<Rightarrow> jwt_error + string" where
  "read_subject d =
     (case dj_string d ''sub'' of
        Throws e \<Rightarrow> Inl (JwtClaimError (''missing `sub` claim: '' @ e))
      | Returns s \<Rightarrow> if s = [] then Inl (JwtClaimError ''`sub` claim is empty'') else Inr s)"

text \<open>The error for an unknown kind is thrown inside the \<^verbatim>\<open>try\<close> and wrapped again by its handler.\<close>

definition read_kind :: "decoded_jwt \<Rightarrow> jwt_error + TokenKind" where
  "read_kind d =
     (case dj_string d ''kind'' of
        Throws e \<Rightarrow> Inl (JwtClaimError (''missing or non-string `kind` claim: '' @ e))
      | Returns k \<Rightarrow>
          if k = ''access'' then Inr Access
          else if k = ''refresh'' then Inr Refresh
          else Inl (JwtClaimError (''missing or non-string `kind` claim: ''
                      @ ''unknown `kind` claim: '' @ [quote] @ k @ [quote])))"

definition read_identity :: "TokenKind \<Rightarrow> decoded_jwt \<Rightarrow> jwt_error + string \<times> string" where
  "read_identity expected d =
     (case expected of
        Access \<Rightarrow>
          (case dj_string d ''username'' of
             Throws e \<Rightarrow> Inl (JwtClaimError (''missing `username` claim: '' @ e))
           | Returns u \<Rightarrow>
               if u = [] then Inl (JwtClaimError ''`username` claim is empty'')
               else case dj_string d ''role'' of
                      Throws e \<Rightarrow> Inl (JwtClaimError (''missing `role` claim: '' @ e))
                    | Returns r \<Rightarrow>
                        if r = [] then Inl (JwtClaimError ''`role` claim is empty'')
                        else if r \<noteq> ''user'' \<and> r \<noteq> ''admin'' then
                          Inl (JwtClaimError (''`role` claim has unknown value: '' @ [quote] @ r @ [quote]))
                        else Inr (u, r))
      | Refresh \<Rightarrow>
          if dj_has d ''username'' then Inl (JwtClaimError ''refresh token must not carry `username`'')
          else if dj_has d ''role'' then Inl (JwtClaimError ''refresh token must not carry `role`'')
          else Inr ([], []))"

definition read_jti :: "decoded_jwt \<Rightarrow> string" where
  "read_jti d =
     (if dj_has d ''jti'' then case dj_string d ''jti'' of Returns j \<Rightarrow> j | Throws _ \<Rightarrow> [] else [])"

definition read_claims :: "decoded_jwt \<Rightarrow> TokenKind \<Rightarrow> int \<Rightarrow> jwt_error + Claims" where
  "read_claims d expected now =
     (case read_subject d of Inl e \<Rightarrow> Inl e | Inr s \<Rightarrow>
      case read_kind d of Inl e \<Rightarrow> Inl e | Inr k \<Rightarrow>
      if k \<noteq> expected then
        Inl (JwtVerifyError (''token kind mismatch: expected '' @ token_kind_name expected
               @ '', got '' @ token_kind_name k))
      else case read_identity expected d of Inl e \<Rightarrow> Inl e | Inr (u, r) \<Rightarrow>
      case dj_date d ''iat'' of Throws e \<Rightarrow> Inl (LibError e) | Returns iat \<Rightarrow>
      case dj_date d ''exp'' of Throws e \<Rightarrow> Inl (LibError e) | Returns ex \<Rightarrow>
      if now \<ge> ex then Inl (JwtVerifyError ''token has expired'')
      else Inr \<lparr>user_id = s, username = u, role = r, kind = k,
                issued_at = iat, expires_at = ex, jti = read_jti d\<rparr>)"

definition verify ::
    "jwt_lib \<Rightarrow> int \<Rightarrow> int \<Rightarrow> string \<Rightarrow> string \<Rightarrow> string \<Rightarrow> TokenKind \<Rightarrow> jwt_error + Claims" where
  "verify L now1 now2 token secret issuer expected =
     and_then (require_secret secret)
     (and_then (require_issuer issuer)
     (if token = [] then Inl (JwtVerifyError ''token is empty'')
      else case jl_decode L token of
             Throws e \<Rightarrow> Inl (JwtVerifyError (''malformed token: '' @ e))
           | Returns d \<Rightarrow>
               (case jl_check L secret issuer now1 token of
                  CheckSignature e \<Rightarrow> Inl (JwtVerifyError (''signature verification failed: '' @ e))
                | CheckSystem e \<Rightarrow> Inl (JwtVerifyError (''token rejected: '' @ e))
                | CheckOther e \<Rightarrow> Inl (JwtVerifyError (''verification failed: '' @ e))
                | CheckOk \<Rightarrow> read_claims d expected now2)))"

section \<open>What the round trip relies on\<close>

text \<open>Dates are stored as \<^verbatim>\<open>time_t\<close>: whole seconds.\<close>

definition whole_seconds :: "int \<Rightarrow> int" where
  "whole_seconds t = trunc_div t ns_per_s * ns_per_s"

definition reads_back :: "jwt_builder \<Rightarrow> decoded_jwt \<Rightarrow> bool" where
  "reads_back b d \<longleftrightarrow>
     dj_string d ''sub'' = Returns (jb_subject b)
     \<and> dj_has d ''jti'' \<and> dj_string d ''jti'' = Returns (jb_id b)
     \<and> dj_date d ''iat'' = Returns (whole_seconds (jb_issued_at b))
     \<and> dj_date d ''exp'' = Returns (whole_seconds (jb_expires_at b))
     \<and> (\<forall>(k, v) \<in> set (jb_payload b). dj_string d k = Returns v)
     \<and> (\<forall>k \<in> set [''username'', ''role'']. dj_has d k = (k \<in> fst ` set (jb_payload b)))"

text \<open>Builders whose private claims have distinct names, none of them a registered claim.\<close>

definition proper_builder :: "jwt_builder \<Rightarrow> bool" where
  "proper_builder b \<longleftrightarrow>
     distinct (map fst (jb_payload b))
     \<and> (\<forall>k \<in> set (map fst (jb_payload b)). k \<notin> set [''iss'', ''sub'', ''jti'', ''iat'', ''exp''])"

definition jwt_lib_ok :: "jwt_lib \<Rightarrow> bool" where
  "jwt_lib_ok L \<longleftrightarrow>
     (\<forall>secret b t. jl_sign L secret b = Returns t \<and> proper_builder b \<longrightarrow>
        t \<noteq> []
        \<and> (\<exists>d. jl_decode L t = Returns d \<and> reads_back b d)
        \<and> (\<forall>now. whole_seconds (jb_issued_at b) \<le> now \<and> now \<le> whole_seconds (jb_expires_at b) \<longrightarrow>
             jl_check L secret (jb_issuer b) now t = CheckOk))"

section \<open>Lemmas\<close>

lemma and_then_Inr: "and_then a k = Inr x \<longleftrightarrow> a = Inr () \<and> k = Inr x"
  by (cases a) auto

lemma require_secret_Inr: "require_secret s = Inr () \<longleftrightarrow> 32 \<le> length s"
  by (auto simp: require_secret_def)

lemma require_issuer_Inr: "require_issuer s = Inr () \<longleftrightarrow> s \<noteq> []"
  by (simp add: require_issuer_def)

lemma require_ttl_Inr: "require_ttl_seconds t = Inr () \<longleftrightarrow> 1 \<le> t"
  by (auto simp: require_ttl_seconds_def)

lemmas guard_simps = and_then_Inr require_secret_Inr require_issuer_Inr require_ttl_Inr

lemma verify_Inr:
  "verify L now1 now2 token secret issuer expected = Inr c \<longleftrightarrow>
     32 \<le> length secret \<and> issuer \<noteq> [] \<and> token \<noteq> []
     \<and> (\<exists>d. jl_decode L token = Returns d \<and> jl_check L secret issuer now1 token = CheckOk
            \<and> read_claims d expected now2 = Inr c)"
  by (auto simp: verify_def guard_simps split: outcome.splits check_result.splits)

lemma read_identity_Inr:
  "read_identity k d = Inr (u, r) \<Longrightarrow>
     (case k of Access \<Rightarrow> u \<noteq> [] \<and> r \<in> {''user'', ''admin''} | Refresh \<Rightarrow> u = [] \<and> r = [])"
  by (auto simp: read_identity_def split: TokenKind.splits outcome.splits if_splits)

lemma read_claims_Inr:
  assumes "read_claims d expected now = Inr c"
  shows "user_id c \<noteq> []" and "kind c = expected" and "now < expires_at c"
    and "case expected of Access \<Rightarrow> username c \<noteq> [] \<and> role c \<in> {''user'', ''admin''}
                        | Refresh \<Rightarrow> username c = [] \<and> role c = []"
proof -
  from assms obtain s u r iat ex where
      s: "read_subject d = Inr s" and i: "read_identity expected d = Inr (u, r)"
    and c: "c = \<lparr>user_id = s, username = u, role = r, kind = expected, issued_at = iat,
                 expires_at = ex, jti = read_jti d\<rparr>" and e: "now < ex"
    by (auto simp: read_claims_def split: sum.splits outcome.splits if_splits)
  from s have "s \<noteq> []" by (auto simp: read_subject_def split: outcome.splits if_splits)
  then show "user_id c \<noteq> []" "kind c = expected" "now < expires_at c" using c e by simp_all
  show "case expected of Access \<Rightarrow> username c \<noteq> [] \<and> role c \<in> {''user'', ''admin''}
                       | Refresh \<Rightarrow> username c = [] \<and> role c = []"
    using read_identity_Inr [OF i] c by (simp split: TokenKind.splits)
qed

lemma read_Inl:
  "read_subject d = Inl e \<Longrightarrow> is_jwt_verify_error e"
  "read_kind d = Inl e \<Longrightarrow> is_jwt_verify_error e"
  "read_identity k d = Inl e \<Longrightarrow> is_jwt_verify_error e"
  by (auto simp: read_subject_def read_kind_def read_identity_def
      split: outcome.splits if_splits TokenKind.splits)

lemma read_claims_Inl:
  "read_claims d expected now = Inl e \<Longrightarrow>
     is_jwt_verify_error e \<or> (\<exists>m. e = LibError m \<and> (dj_date d ''iat'' = Throws m \<or> dj_date d ''exp'' = Throws m))"
  by (auto simp: read_claims_def split: sum.splits outcome.splits if_splits dest: read_Inl)

definition access_builder :: "int \<Rightarrow> string \<Rightarrow> string \<Rightarrow> string \<Rightarrow> string \<Rightarrow> string \<Rightarrow> int \<Rightarrow> jwt_builder" where
  "access_builder now uuid issuer uid uname urole ttl =
     \<lparr>jb_type = ''JWT'', jb_issuer = issuer, jb_subject = uid, jb_id = uuid,
      jb_issued_at = now, jb_expires_at = now + ttl * ns_per_s,
      jb_payload = [(''username'', uname), (''role'', urole), (''kind'', token_kind_name Access)]\<rparr>"

definition refresh_builder :: "int \<Rightarrow> string \<Rightarrow> string \<Rightarrow> string \<Rightarrow> int \<Rightarrow> jwt_builder" where
  "refresh_builder now uuid issuer uid ttl =
     \<lparr>jb_type = ''JWT'', jb_issuer = issuer, jb_subject = uid, jb_id = uuid,
      jb_issued_at = now, jb_expires_at = now + ttl * ns_per_s,
      jb_payload = [(''kind'', token_kind_name Refresh)]\<rparr>"

lemma sign_access_Inr:
  "sign_access L now uuid secret issuer uid uname urole ttl = Inr st \<longleftrightarrow>
     32 \<le> length secret \<and> issuer \<noteq> [] \<and> 1 \<le> ttl \<and> uid \<noteq> [] \<and> uname \<noteq> [] \<and> urole \<noteq> []
     \<and> (\<exists>t. jl_sign L secret (access_builder now uuid issuer uid uname urole ttl) = Returns t
            \<and> st = \<lparr>st_token = t, st_jti = uuid\<rparr>)"
  by (auto simp: sign_access_def guard_simps access_builder_def split: outcome.splits)

lemma sign_refresh_Inr:
  "sign_refresh L now uuid secret issuer uid ttl = Inr st \<longleftrightarrow>
     32 \<le> length secret \<and> issuer \<noteq> [] \<and> 1 \<le> ttl \<and> uid \<noteq> []
     \<and> (\<exists>t. jl_sign L secret (refresh_builder now uuid issuer uid ttl) = Returns t
            \<and> st = \<lparr>st_token = t, st_jti = uuid\<rparr>)"
  by (auto simp: sign_refresh_def guard_simps refresh_builder_def split: outcome.splits)

lemma access_reads_back:
  assumes "reads_back (access_builder now uuid issuer uid uname urole ttl) d"
    and "uid \<noteq> []" and "uname \<noteq> []" and "urole \<in> {''user'', ''admin''}"
  shows "read_claims d Access t =
           (if whole_seconds (now + ttl * ns_per_s) \<le> t then Inl (JwtVerifyError ''token has expired'')
            else Inr \<lparr>user_id = uid, username = uname, role = urole, kind = Access,
                      issued_at = whole_seconds now, expires_at = whole_seconds (now + ttl * ns_per_s), jti = uuid\<rparr>)"
    and "\<exists>m. read_claims d Refresh t = Inl (JwtVerifyError m)"
  using assms
  by (auto simp: reads_back_def access_builder_def read_claims_def read_subject_def read_kind_def
      read_identity_def read_jti_def)

lemma refresh_reads_back:
  assumes "reads_back (refresh_builder now uuid issuer uid ttl) d" and "uid \<noteq> []"
  shows "read_claims d Refresh t =
           (if whole_seconds (now + ttl * ns_per_s) \<le> t then Inl (JwtVerifyError ''token has expired'')
            else Inr \<lparr>user_id = uid, username = [], role = [], kind = Refresh,
                      issued_at = whole_seconds now, expires_at = whole_seconds (now + ttl * ns_per_s), jti = uuid\<rparr>)"
    and "\<exists>m. read_claims d Access t = Inl (JwtVerifyError m)"
  using assms
  by (auto simp: reads_back_def refresh_builder_def read_claims_def read_subject_def read_kind_def
      read_identity_def read_jti_def)

lemma proper_builders [simp]:
  "proper_builder (access_builder now uuid issuer uid uname urole ttl)"
  "proper_builder (refresh_builder now uuid issuer uid ttl)"
  by (simp_all add: proper_builder_def access_builder_def refresh_builder_def)

lemma builder_fields [simp]:
  "jb_issuer (access_builder now uuid issuer uid uname urole ttl) = issuer"
  "jb_issued_at (access_builder now uuid issuer uid uname urole ttl) = now"
  "jb_expires_at (access_builder now uuid issuer uid uname urole ttl) = now + ttl * ns_per_s"
  "jb_issuer (refresh_builder now uuid issuer uid ttl) = issuer"
  "jb_issued_at (refresh_builder now uuid issuer uid ttl) = now"
  "jb_expires_at (refresh_builder now uuid issuer uid ttl) = now + ttl * ns_per_s"
  by (simp_all add: access_builder_def refresh_builder_def)

lemma jwt_lib_okD:
  assumes "jwt_lib_ok L" and "jl_sign L secret b = Returns t" and "proper_builder b"
    and "whole_seconds (jb_issued_at b) \<le> now" and "now \<le> whole_seconds (jb_expires_at b)"
  obtains d where "t \<noteq> []" and "jl_decode L t = Returns d" and "reads_back b d"
    and "jl_check L secret (jb_issuer b) now t = CheckOk"
  using assms unfolding jwt_lib_ok_def by blast

lemma verify_checked:
  assumes "32 \<le> length secret" and "issuer \<noteq> []" and "token \<noteq> []"
    and "jl_decode L token = Returns d" and "jl_check L secret issuer now1 token = CheckOk"
  shows "verify L now1 now2 token secret issuer k = read_claims d k now2"
  using assms by (auto simp: verify_def require_secret_def require_issuer_def)

lemma refresh_verifies:
  assumes L: "jwt_lib_ok L" and s: "sign_refresh L now uuid secret issuer uid ttl = Inr st"
    and t: "whole_seconds now \<le> t1" "t1 \<le> whole_seconds (now + ttl * ns_per_s)"
           "t2 < whole_seconds (now + ttl * ns_per_s)"
  shows "verify L t1 t2 (st_token st) secret issuer Refresh =
           Inr \<lparr>user_id = uid, username = [], role = [], kind = Refresh, issued_at = whole_seconds now,
                expires_at = whole_seconds (now + ttl * ns_per_s), jti = st_jti st\<rparr>"
    and "\<exists>m. verify L t1 t2 (st_token st) secret issuer Access = Inl (JwtVerifyError m)"
proof -
  let ?b = "refresh_builder now uuid issuer uid ttl"
  from s have g: "32 \<le> length secret" "issuer \<noteq> []" "uid \<noteq> []" "st_jti st = uuid"
    and sg: "jl_sign L secret ?b = Returns (st_token st)"
    by (auto simp: sign_refresh_Inr)
  obtain d where d: "st_token st \<noteq> []" "jl_decode L (st_token st) = Returns d" "reads_back ?b d"
      "jl_check L secret (jb_issuer ?b) t1 (st_token st) = CheckOk"
    using jwt_lib_okD [OF L sg, of t1] t by auto
  show "verify L t1 t2 (st_token st) secret issuer Refresh =
           Inr \<lparr>user_id = uid, username = [], role = [], kind = Refresh, issued_at = whole_seconds now,
                expires_at = whole_seconds (now + ttl * ns_per_s), jti = st_jti st\<rparr>"
    using verify_checked [OF g(1,2) d(1,2)] d(4) refresh_reads_back(1) [OF d(3) g(3)] t g by simp
  show "\<exists>m. verify L t1 t2 (st_token st) secret issuer Access = Inl (JwtVerifyError m)"
    using verify_checked [OF g(1,2) d(1,2)] d(4) refresh_reads_back(2) [OF d(3) g(3)] by simp
qed

lemma access_verifies:
  assumes L: "jwt_lib_ok L" and s: "sign_access L now uuid secret issuer uid uname urole ttl = Inr st"
    and r: "urole \<in> {''user'', ''admin''}"
    and t: "whole_seconds now \<le> t1" "t1 \<le> whole_seconds (now + ttl * ns_per_s)"
           "t2 < whole_seconds (now + ttl * ns_per_s)"
  shows "verify L t1 t2 (st_token st) secret issuer Access =
           Inr \<lparr>user_id = uid, username = uname, role = urole, kind = Access, issued_at = whole_seconds now,
                expires_at = whole_seconds (now + ttl * ns_per_s), jti = st_jti st\<rparr>"
    and "\<exists>m. verify L t1 t2 (st_token st) secret issuer Refresh = Inl (JwtVerifyError m)"
proof -
  let ?b = "access_builder now uuid issuer uid uname urole ttl"
  from s have g: "32 \<le> length secret" "issuer \<noteq> []" "uid \<noteq> []" "uname \<noteq> []" "st_jti st = uuid"
    and sg: "jl_sign L secret ?b = Returns (st_token st)"
    by (auto simp: sign_access_Inr)
  obtain d where d: "st_token st \<noteq> []" "jl_decode L (st_token st) = Returns d" "reads_back ?b d"
      "jl_check L secret (jb_issuer ?b) t1 (st_token st) = CheckOk"
    using jwt_lib_okD [OF L sg, of t1] t by auto
  show "verify L t1 t2 (st_token st) secret issuer Access =
           Inr \<lparr>user_id = uid, username = uname, role = urole, kind = Access, issued_at = whole_seconds now,
                expires_at = whole_seconds (now + ttl * ns_per_s), jti = st_jti st\<rparr>"
    using verify_checked [OF g(1,2) d(1,2)] d(4) access_reads_back(1) [OF d(3) g(3,4) r] t g by simp
  show "\<exists>m. verify L t1 t2 (st_token st) secret issuer Refresh = Inl (JwtVerifyError m)"
    using verify_checked [OF g(1,2) d(1,2)] d(4) access_reads_back(2) [OF d(3) g(3,4) r] by simp
qed

section \<open>A library that knows a table of tokens\<close>

text \<open>
  An instance of the parameter for concrete evaluation: tokens stand in a table with the secret and
  the builder they were made from.
\<close>

type_synonym token_table = "(string \<times> string \<times> jwt_builder) list"

definition decoded_of :: "jwt_builder \<Rightarrow> decoded_jwt" where
  "decoded_of b =
     \<lparr>dj_string = (\<lambda>k. case map_of ([(''iss'', jb_issuer b), (''sub'', jb_subject b), (''jti'', jb_id b)] @ jb_payload b) k
                      of None \<Rightarrow> Throws ''claim not found'' | Some v \<Rightarrow> Returns v),
      dj_date = (\<lambda>k. if k = ''iat'' then Returns (whole_seconds (jb_issued_at b))
                     else if k = ''exp'' then Returns (whole_seconds (jb_expires_at b))
                     else Throws ''claim not found''),
      dj_has = (\<lambda>k. k \<in> set [''iss'', ''sub'', ''jti'', ''iat'', ''exp''] \<or> k \<in> set (map fst (jb_payload b)))\<rparr>"

definition table_lib :: "token_table \<Rightarrow> jwt_lib" where
  "table_lib tbl =
     \<lparr>jl_sign = (\<lambda>secret b. case List.find (\<lambda>(t, s, b'). s = secret \<and> b' = b) tbl of
                   None \<Rightarrow> Throws ''no such token'' | Some (t, _) \<Rightarrow> Returns t),
      jl_decode = (\<lambda>t. case map_of tbl t of
                     None \<Rightarrow> Throws ''invalid token'' | Some (_, b) \<Rightarrow> Returns (decoded_of b)),
      jl_check = (\<lambda>secret issuer now t. case map_of tbl t of
                     None \<Rightarrow> CheckSignature ''invalid token''
                   | Some (s, b) \<Rightarrow>
                       if s \<noteq> secret then CheckSignature ''invalid signature''
                       else if jb_issuer b \<noteq> issuer then CheckSystem ''issuer''
                       else if now < whole_seconds (jb_issued_at b) \<or> now > whole_seconds (jb_expires_at b)
                       then CheckSystem ''token expired'' else CheckOk)\<rparr>"

lemma find_SomeD: "List.find P xs = Some x \<Longrightarrow> x \<in> set xs \<and> P x"
  by (induction xs) (auto split: if_splits)

lemma reads_back_decoded_of: "proper_builder b \<Longrightarrow> reads_back b (decoded_of b)"
  by (auto simp: reads_back_def decoded_of_def proper_builder_def image_iff
      intro: map_of_is_SomeI split: option.splits)

lemma table_lib_ok:
  assumes "distinct (map fst tbl)" and "[] \<notin> set (map fst tbl)"
  shows "jwt_lib_ok (table_lib tbl)"
  unfolding jwt_lib_ok_def
proof (intro allI impI, elim conjE)
  fix secret b t
  assume s: "jl_sign (table_lib tbl) secret b = Returns t" and p: "proper_builder b"
  then have "(t, secret, b) \<in> set tbl"
    by (auto simp: table_lib_def split: option.splits dest!: find_SomeD)
  then have m: "map_of tbl t = Some (secret, b)" and "t \<noteq> []"
    using assms by (auto intro: map_of_is_SomeI rev_image_eqI)
  then show "t \<noteq> [] \<and> (\<exists>d. jl_decode (table_lib tbl) t = Returns d \<and> reads_back b d) \<and>
      (\<forall>now. whole_seconds (jb_issued_at b) \<le> now \<and> now \<le> whole_seconds (jb_expires_at b) \<longrightarrow>
         jl_check (table_lib tbl) secret (jb_issuer b) now t = CheckOk)"
    using reads_back_decoded_of [OF p] by (auto simp: table_lib_def)
qed

section \<open>Properties\<close>

text \<open>
  C11. What a successful verification guarantees, whatever the library does: the secret had at least
  32 bytes, the token decoded and passed the HS256 and issuer check with that secret, the user id is
  not empty, the kind is the expected one, the token had not expired at the final clock reading, and
  the identity fits the kind (access: a user name and role user or admin; refresh: neither).
\<close>

theorem verify_guarantees:
  assumes "verify L now1 now2 token secret issuer expected = Inr c"
  shows "32 \<le> length secret \<and> jl_check L secret issuer now1 token = CheckOk
    \<and> user_id c \<noteq> [] \<and> kind c = expected \<and> \<not> is_expired_at c now2
    \<and> (case expected of Access \<Rightarrow> username c \<noteq> [] \<and> role c \<in> {''user'', ''admin''}
                       | Refresh \<Rightarrow> username c = [] \<and> role c = [])"
proof -
  from assms obtain d where d: "32 \<le> length secret" "jl_check L secret issuer now1 token = CheckOk"
      "read_claims d expected now2 = Inr c"
    by (auto simp: verify_Inr)
  show ?thesis using d(1,2) read_claims_Inr [OF d(3)] by (auto simp: is_expired_at_def)
qed

definition demo_secret :: string where
  "demo_secret = ''0123456789abcdef0123456789abcdef''"

definition demo_table :: token_table where
  "demo_table =
     [(''acc'', demo_secret, access_builder 1500000000 ''j1'' ''litecode'' ''7'' ''alice'' ''admin'' 60),
      (''ref'', demo_secret, refresh_builder 1500000000 ''j2'' ''litecode'' ''7'' 3600)]"

lemma demo_lib_ok: "jwt_lib_ok (table_lib demo_table)"
  by (rule table_lib_ok) (simp_all add: demo_table_def)

theorem verify_guarantees_witness:
  "role \<lparr>user_id = ''7'', username = ''alice'', role = ''admin'', kind = Access,
     issued_at = 1000000000, expires_at = 61000000000, jti = ''j1''\<rparr> \<in> {''user'', ''admin''}
   \<and> verify (table_lib demo_table) 2000000000 2000000000 ''acc'' demo_secret ''litecode'' Access
     = Inr \<lparr>user_id = ''7'', username = ''alice'', role = ''admin'', kind = Access,
            issued_at = 1000000000, expires_at = 61000000000, jti = ''j1''\<rparr>"
proof -
  have v: "verify (table_lib demo_table) 2000000000 2000000000 ''acc'' demo_secret ''litecode'' Access
     = Inr \<lparr>user_id = ''7'', username = ''alice'', role = ''admin'', kind = Access,
            issued_at = 1000000000, expires_at = 61000000000, jti = ''j1''\<rparr>"
    by code_simp
  then show ?thesis using verify_guarantees [OF v] by simp
qed

text \<open>
  Signed tokens verify back to what was signed, and only as their own kind: within its validity
  an access token gives the user id, name, role and token id it was made with, dates in whole
  seconds, and is refused as a refresh token; a refresh token gives its user id and token id and is
  refused as an access token.
\<close>

theorem signed_tokens_verify:
  assumes "jwt_lib_ok L"
    and "sign_access L now uuid secret issuer uid uname urole ttl = Inr sa" and "urole \<in> {''user'', ''admin''}"
    and "sign_refresh L now uuid' secret issuer uid ttl' = Inr sr"
    and "whole_seconds now \<le> t1"
    and "t1 < whole_seconds (now + ttl * ns_per_s)" and "t2 < whole_seconds (now + ttl * ns_per_s)"
    and "t1 < whole_seconds (now + ttl' * ns_per_s)" and "t2 < whole_seconds (now + ttl' * ns_per_s)"
  shows "(\<exists>c. verify L t1 t2 (st_token sa) secret issuer Access = Inr c \<and> user_id c = uid
            \<and> username c = uname \<and> role c = urole \<and> jti c = uuid
            \<and> expires_at c = whole_seconds (now + ttl * ns_per_s))
    \<and> (\<exists>c. verify L t1 t2 (st_token sr) secret issuer Refresh = Inr c \<and> user_id c = uid
            \<and> jti c = uuid' \<and> expires_at c = whole_seconds (now + ttl' * ns_per_s))
    \<and> (\<exists>m. verify L t1 t2 (st_token sa) secret issuer Refresh = Inl (JwtVerifyError m))
    \<and> (\<exists>m. verify L t1 t2 (st_token sr) secret issuer Access = Inl (JwtVerifyError m))"
proof -
  have "st_jti sa = uuid" "st_jti sr = uuid'"
    using assms(2,4) by (auto simp: sign_access_Inr sign_refresh_Inr)
  then show ?thesis
    using access_verifies [OF assms(1-3,5) _ assms(7)] refresh_verifies [OF assms(1,4,5) _ assms(9)] assms(6,8)
    by simp
qed

theorem signed_tokens_verify_witness:
  "\<exists>c. verify (table_lib demo_table) 1000000000 2000000000 ''ref'' demo_secret ''litecode'' Refresh = Inr c
       \<and> user_id c = ''7''"
proof -
  have a: "sign_access (table_lib demo_table) 1500000000 ''j1'' demo_secret ''litecode'' ''7'' ''alice'' ''admin'' 60
      = Inr \<lparr>st_token = ''acc'', st_jti = ''j1''\<rparr>" by code_simp
  have r: "sign_refresh (table_lib demo_table) 1500000000 ''j2'' demo_secret ''litecode'' ''7'' 3600
      = Inr \<lparr>st_token = ''ref'', st_jti = ''j2''\<rparr>" by code_simp
  show ?thesis
    using signed_tokens_verify [OF demo_lib_ok a _ r, of 1000000000 2000000000]
    by (auto simp: whole_seconds_def trunc_div_def)
qed

text \<open>
  Which failures are errors of the documented hierarchy: with a long enough secret and an issuer,
  every failure of the verification is a JwtVerifyError or a JwtClaimError, except one. A token that
  passed the signature check and every check of its string claims, but whose iat (or exp) accessor
  throws, lets the exception of the library escape.
\<close>

theorem verify_failures:
  assumes "32 \<le> length secret" and "issuer \<noteq> []"
    and "verify L now1 now2 token secret issuer expected = Inl e"
  shows "is_jwt_verify_error e
    \<or> (\<exists>d m. e = LibError m \<and> jl_decode L token = Returns d \<and> jl_check L secret issuer now1 token = CheckOk
             \<and> (dj_date d ''iat'' = Throws m \<or> dj_date d ''exp'' = Throws m))"
proof (cases "\<exists>d. jl_decode L token = Returns d \<and> jl_check L secret issuer now1 token = CheckOk \<and> token \<noteq> []")
  case True
  then obtain d where d: "jl_decode L token = Returns d" "jl_check L secret issuer now1 token = CheckOk"
    and t: "token \<noteq> []" by blast
  have "read_claims d expected now2 = Inl e"
    using verify_checked [OF assms(1,2) t d] assms(3) by simp
  then show ?thesis using read_claims_Inl d by blast
next
  case False
  then show ?thesis
    using assms by (auto simp: verify_def require_secret_def require_issuer_def
        split: outcome.splits check_result.splits if_splits)
qed

definition no_iat_lib :: jwt_lib where
  "no_iat_lib = (table_lib demo_table)
     \<lparr>jl_decode := (\<lambda>t. Returns ((decoded_of (refresh_builder 1500000000 ''j2'' ''litecode'' ''7'' 3600))
         \<lparr>dj_date := (\<lambda>k. if k = ''iat'' then Throws ''claim not found'' else Returns 3601000000000)\<rparr>))\<rparr>"

theorem verify_failures_witness:
  "verify no_iat_lib 2000000000 2000000000 ''ref'' demo_secret ''litecode'' Refresh = Inl (LibError ''claim not found'')
   \<and> (is_jwt_verify_error (LibError ''claim not found'')
      \<or> jl_check no_iat_lib demo_secret ''litecode'' 2000000000 ''ref'' = CheckOk)"
proof -
  have v: "verify no_iat_lib 2000000000 2000000000 ''ref'' demo_secret ''litecode'' Refresh
      = Inl (LibError ''claim not found'')" by code_simp
  have l: "32 \<le> length demo_secret" by (simp add: demo_secret_def)
  show ?thesis using verify_failures [OF l _ v] v by auto
qed

end
