(* ===== verification/Refresh_Token.thy ===== *)
theory Refresh_Token
  imports Containers Jwt_Utils
begin

text \<open>
  \<^verbatim>\<open>src/auth/refresh_token.h\<close>: the revocation store and the issue, rotate and logout helpers.

  The abstract class \<^verbatim>\<open>RefreshTokenStore\<close> is the record \<open>store_ops\<close> the helpers take as an argument;
  its contract is the locale \<open>revocation_store\<close>, interpreted on the in-memory store. Every reading
  of a clock is an argument: \<^verbatim>\<open>system_clock\<close> readings of the helpers, \<^verbatim>\<open>steady_clock\<close> readings of the
  store, all in nanoseconds. A store operation runs under the store's mutex and is one step, so the
  steps of concurrent requests interleave between store operations.

  Main results: a rotated token is refused for as long as its revocation lasts, across any
  interleaving of other store operations that stays below the capacity; the revocation is
  truncated to whole seconds, which leaves a window in which the token can be presented again; two
  overlapping rotations of one token both succeed; the store never exceeds its capacity.
\<close>

section \<open>Store interface and the in-memory store\<close>

record 's store_ops =
  so_revoke :: "int \<Rightarrow> int \<Rightarrow> string \<Rightarrow> int \<Rightarrow> 's \<Rightarrow> 's"
  so_is_revoked :: "int \<Rightarrow> string \<Rightarrow> 's \<Rightarrow> bool \<times> 's"
  so_purge :: "int \<Rightarrow> 's \<Rightarrow> nat \<times> 's"

record mem_store =
  blacklist :: "(string, int) umap"
  max_entries :: nat

definition new_mem_store :: "nat \<Rightarrow> mem_store" where
  "new_mem_store n = \<lparr>blacklist = [], max_entries = n\<rparr>"

definition purge_expired :: "int \<Rightarrow> mem_store \<Rightarrow> nat \<times> mem_store" where
  "purge_expired now s =
     (length (filter (\<lambda>(j, e). now \<ge> e) (blacklist s)),
      s\<lparr>blacklist := um_retain (\<lambda>(j, e). \<not> now \<ge> e) (blacklist s)\<rparr>)"

text \<open>The scan for the entry that expires soonest, with the strict comparison of the source.\<close>

fun soonest_from :: "string \<times> int \<Rightarrow> (string \<times> int) list \<Rightarrow> string \<times> int" where
  "soonest_from best [] = best"
| "soonest_from best (p # ps) = soonest_from (if snd p < snd best then p else best) ps"

definition evict_soonest :: "(string, int) umap \<Rightarrow> (string, int) umap" where
  "evict_soonest m = (case m of [] \<Rightarrow> [] | p # ps \<Rightarrow> um_erase (fst (soonest_from p m)) m)"

definition revoke :: "int \<Rightarrow> int \<Rightarrow> string \<Rightarrow> int \<Rightarrow> mem_store \<Rightarrow> mem_store" where
  "revoke t1 t2 j ttl s =
     (if j = [] then s
      else if ttl \<le> 0 then s
      else
        let expiry = t1 + ttl * ns_per_s;
            s1 = snd (purge_expired t2 s);
            m = (if max_entries s1 > 0 \<and> length (blacklist s1) \<ge> max_entries s1
                 then evict_soonest (blacklist s1) else blacklist s1)
        in s1\<lparr>blacklist := um_emplace j expiry m\<rparr>)"

definition is_revoked :: "int \<Rightarrow> string \<Rightarrow> mem_store \<Rightarrow> bool \<times> mem_store" where
  "is_revoked now j s =
     (if j = [] then (False, s)
      else case um_find j (blacklist s) of
             None \<Rightarrow> (False, s)
           | Some e \<Rightarrow> if now \<ge> e then (False, s\<lparr>blacklist := um_erase j (blacklist s)\<rparr>) else (True, s))"

definition store_size :: "mem_store \<Rightarrow> nat" where
  "store_size s = length (blacklist s)"

definition clear_store :: "mem_store \<Rightarrow> mem_store" where
  "clear_store s = s\<lparr>blacklist := []\<rparr>"

definition mem_ops :: "mem_store store_ops" where
  "mem_ops = \<lparr>so_revoke = revoke, so_is_revoked = is_revoked, so_purge = purge_expired\<rparr>"

section \<open>Issuing, rotating, revoking\<close>

datatype rt_error =
    RefreshTokenError string
  | RefreshTokenRevokedError string
  | RefreshTokenInvalidError string
  | Propagated jwt_error

record TokenPair =
  access_token :: string
  access_jti :: string
  access_expires_at :: int
  refresh_token :: string
  refresh_jti :: string
  refresh_expires_at :: int

definition access_expires_in_seconds :: "TokenPair \<Rightarrow> int \<Rightarrow> int" where
  "access_expires_in_seconds p now =
     (let remaining = access_expires_at p - now in if remaining \<le> 0 then 0 else trunc_div remaining ns_per_s)"

text \<open>The clock readings and generated ids of one call.\<close>

record issue_env =
  ie_access_signed :: int
  ie_access_uuid :: string
  ie_refresh_signed :: int
  ie_refresh_uuid :: string
  ie_now1 :: int
  ie_now2 :: int

record rotate_env =
  re_check :: int
  re_final :: int
  re_query :: int
  re_now :: int
  re_revoke1 :: int
  re_revoke2 :: int
  re_issue :: issue_env

definition issue_token_pair ::
    "jwt_lib \<Rightarrow> issue_env \<Rightarrow> string \<Rightarrow> string \<Rightarrow> string \<Rightarrow> string \<Rightarrow> string \<Rightarrow> int \<Rightarrow> int \<Rightarrow> rt_error + TokenPair" where
  "issue_token_pair L e secret issuer uid uname urole access_ttl refresh_ttl =
     (if access_ttl < 1 then Inl (RefreshTokenError ''issue_token_pair: access_ttl_seconds must be >= 1'')
      else if refresh_ttl < access_ttl then
        Inl (RefreshTokenError ''issue_token_pair: refresh_ttl_seconds must be >= access_ttl_seconds'')
      else case sign_access L (ie_access_signed e) (ie_access_uuid e) secret issuer uid uname urole access_ttl of
             Inl x \<Rightarrow> Inl (Propagated x)
           | Inr a \<Rightarrow>
               (case sign_refresh L (ie_refresh_signed e) (ie_refresh_uuid e) secret issuer uid refresh_ttl of
                  Inl x \<Rightarrow> Inl (Propagated x)
                | Inr r \<Rightarrow>
                    Inr \<lparr>access_token = st_token a, access_jti = st_jti a,
                         access_expires_at = ie_now1 e + access_ttl * ns_per_s,
                         refresh_token = st_token r, refresh_jti = st_jti r,
                         refresh_expires_at = ie_now2 e + refresh_ttl * ns_per_s\<rparr>))"

text \<open>\<^verbatim>\<open>catch (const JwtError&)\<close>: everything of the hierarchy, not the library's own exceptions.\<close>

fun jwt_what :: "jwt_error \<Rightarrow> string" where
  "jwt_what (JwtSignError m) = m"
| "jwt_what (JwtVerifyError m) = m"
| "jwt_what (JwtClaimError m) = m"
| "jwt_what (LibError m) = m"

fun is_jwt_error :: "jwt_error \<Rightarrow> bool" where
  "is_jwt_error (LibError _) = False"
| "is_jwt_error _ = True"

text \<open>Rotation up to and including the blacklist check.\<close>

definition rotate_check ::
    "'s store_ops \<Rightarrow> jwt_lib \<Rightarrow> rotate_env \<Rightarrow> string \<Rightarrow> string \<Rightarrow> string \<Rightarrow> string \<Rightarrow> string \<Rightarrow> int \<Rightarrow> int
       \<Rightarrow> 's \<Rightarrow> (rt_error + Claims) \<times> 's" where
  "rotate_check ops L e secret issuer presented uname urole access_ttl refresh_ttl s =
     (if access_ttl < 1 then
        (Inl (RefreshTokenError ''rotate_token_pair: access_ttl_seconds must be >= 1''), s)
      else if refresh_ttl < access_ttl then
        (Inl (RefreshTokenError ''rotate_token_pair: refresh_ttl_seconds must be >= access_ttl_seconds''), s)
      else if presented = [] then (Inl (RefreshTokenInvalidError ''refresh token is empty''), s)
      else if uname = [] then
        (Inl (RefreshTokenError (''rotate_token_pair: username must not be empty ''
                @ ''(the refresh token doesn't carry it; look up the user row)'')), s)
      else if urole = [] then
        (Inl (RefreshTokenError (''rotate_token_pair: role must not be empty ''
                @ ''(the refresh token doesn't carry it; look up the user row)'')), s)
      else case verify L (re_check e) (re_final e) presented secret issuer Refresh of
             Inl x \<Rightarrow>
               if is_jwt_error x then
                 (Inl (RefreshTokenInvalidError (''refresh token verification failed: '' @ jwt_what x)), s)
               else (Inl (Propagated x), s)
           | Inr c \<Rightarrow>
               (case so_is_revoked ops (re_query e) (jti c) s of
                  (True, s1) \<Rightarrow>
                    (Inl (RefreshTokenRevokedError (''refresh token has been revoked (jti='' @ jti c @ '')'')), s1)
                | (False, s1) \<Rightarrow> (Inr c, s1)))"

definition remaining_seconds :: "Claims \<Rightarrow> int \<Rightarrow> int" where
  "remaining_seconds c now =
     (let r = trunc_div (expires_at c - now) ns_per_s in if r < 0 then 0 else r)"

text \<open>The rest: revoke the presented token, issue the new pair.\<close>

definition rotate_commit ::
    "'s store_ops \<Rightarrow> jwt_lib \<Rightarrow> rotate_env \<Rightarrow> string \<Rightarrow> string \<Rightarrow> Claims \<Rightarrow> string \<Rightarrow> string \<Rightarrow> int \<Rightarrow> int
       \<Rightarrow> 's \<Rightarrow> (rt_error + TokenPair) \<times> 's" where
  "rotate_commit ops L e secret issuer c uname urole access_ttl refresh_ttl s =
     (issue_token_pair L (re_issue e) secret issuer (user_id c) uname urole access_ttl refresh_ttl,
      so_revoke ops (re_revoke1 e) (re_revoke2 e) (jti c) (remaining_seconds c (re_now e)) s)"

definition rotate_token_pair ::
    "'s store_ops \<Rightarrow> jwt_lib \<Rightarrow> rotate_env \<Rightarrow> string \<Rightarrow> string \<Rightarrow> string \<Rightarrow> string \<Rightarrow> string \<Rightarrow> int \<Rightarrow> int
       \<Rightarrow> 's \<Rightarrow> (rt_error + TokenPair) \<times> 's" where
  "rotate_token_pair ops L e secret issuer presented uname urole access_ttl refresh_ttl s =
     (case rotate_check ops L e secret issuer presented uname urole access_ttl refresh_ttl s of
        (Inl x, s1) \<Rightarrow> (Inl x, s1)
      | (Inr c, s1) \<Rightarrow> rotate_commit ops L e secret issuer c uname urole access_ttl refresh_ttl s1)"

record RevokeOutcome =
  ro_revoked :: bool
  ro_parsed :: bool
  ro_user_matched :: bool
  ro_jti :: string
  ro_reason :: string

text \<open>Logout; \<open>Inl\<close> is an exception that is no \<^verbatim>\<open>JwtError\<close> and leaves the function.\<close>

definition revoke_refresh_token ::
    "'s store_ops \<Rightarrow> jwt_lib \<Rightarrow> rotate_env \<Rightarrow> string \<Rightarrow> string \<Rightarrow> string \<Rightarrow> int \<Rightarrow> string \<Rightarrow> 's
       \<Rightarrow> (jwt_error + RevokeOutcome) \<times> 's" where
  "revoke_refresh_token ops L e presented secret issuer max_ttl expected_user s =
     (if presented = [] then
        (Inr \<lparr>ro_revoked = False, ro_parsed = False, ro_user_matched = False, ro_jti = [],
              ro_reason = ''refresh token is empty''\<rparr>, s)
      else case verify L (re_check e) (re_final e) presented secret issuer Refresh of
             Inl x \<Rightarrow>
               if is_jwt_error x then
                 (Inr \<lparr>ro_revoked = False, ro_parsed = False, ro_user_matched = False, ro_jti = [],
                       ro_reason = ''token did not parse: '' @ jwt_what x\<rparr>, s)
               else (Inl x, s)
           | Inr c \<Rightarrow>
               if expected_user \<noteq> [] \<and> user_id c \<noteq> expected_user then
                 (Inr \<lparr>ro_revoked = False, ro_parsed = True, ro_user_matched = False, ro_jti = jti c,
                       ro_reason = ''user_id mismatch (jti='' @ jti c @ '' expected='' @ expected_user
                         @ '' got='' @ user_id c @ '')''\<rparr>, s)
               else
                 let r = remaining_seconds c (re_now e);
                     r = (if max_ttl > 0 \<and> r > max_ttl then max_ttl else r)
                 in (Inr \<lparr>ro_revoked = True, ro_parsed = True, ro_user_matched = True, ro_jti = jti c,
                          ro_reason = ''revoked (jti='' @ jti c @ '')''\<rparr>,
                     so_revoke ops (re_revoke1 e) (re_revoke2 e) (jti c) r s))"

section \<open>Operations of other threads\<close>

datatype store_op = OpRevoke int int string int | OpQuery int string | OpPurge int

fun run_op :: "'s store_ops \<Rightarrow> store_op \<Rightarrow> 's \<Rightarrow> 's" where
  "run_op ops (OpRevoke t1 t2 j ttl) s = so_revoke ops t1 t2 j ttl s"
| "run_op ops (OpQuery t j) s = snd (so_is_revoked ops t j s)"
| "run_op ops (OpPurge t) s = snd (so_purge ops t s)"

fun run_ops :: "'s store_ops \<Rightarrow> store_op list \<Rightarrow> 's \<Rightarrow> 's" where
  "run_ops ops [] s = s"
| "run_ops ops (x # xs) s = run_ops ops xs (run_op ops x s)"

fun op_time :: "store_op \<Rightarrow> int" where
  "op_time (OpRevoke t1 t2 j ttl) = t2"
| "op_time (OpQuery t j) = t"
| "op_time (OpPurge t) = t"

text \<open>Sequences that stay before the time \<open>e\<close> and meet free room at every revocation.\<close>

fun calm :: "'s store_ops \<Rightarrow> ('s \<Rightarrow> bool) \<Rightarrow> int \<Rightarrow> store_op list \<Rightarrow> 's \<Rightarrow> bool" where
  "calm ops room e [] s = True"
| "calm ops room e (x # xs) s =
     (op_time x < e \<and> (case x of OpRevoke t1 t2 j ttl \<Rightarrow> room s | _ \<Rightarrow> True)
      \<and> calm ops room e xs (run_op ops x s))"

section \<open>Shape of a rotation\<close>

lemma read_claims_same:
  "read_claims d k b = Inr c \<Longrightarrow> read_claims d k b' = Inr c' \<Longrightarrow> c' = c"
  by (auto simp: read_claims_def split: sum.splits outcome.splits if_splits)

lemma verify_same_token:
  assumes "verify L a b tok secret issuer k = Inr c" and "verify L a' b' tok secret issuer k = Inr c'"
  shows "c' = c"
proof -
  obtain d where "jl_decode L tok = Returns d" "read_claims d k b = Inr c" "read_claims d k b' = Inr c'"
    using assms unfolding verify_Inr by force
  then show ?thesis by (blast intro: read_claims_same)
qed

lemma rotate_ok:
  assumes "rotate_token_pair ops L e secret issuer tok uname urole attl rttl s = (Inr p, s')"
    and "verify L (re_check e) (re_final e) tok secret issuer Refresh = Inr c"
  shows "\<exists>s1. so_is_revoked ops (re_query e) (jti c) s = (False, s1)
    \<and> s' = so_revoke ops (re_revoke1 e) (re_revoke2 e) (jti c) (remaining_seconds c (re_now e)) s1
    \<and> issue_token_pair L (re_issue e) secret issuer (user_id c) uname urole attl rttl = Inr p"
  using assms
  by (auto simp: rotate_token_pair_def rotate_check_def rotate_commit_def
      split: if_splits prod.splits bool.splits)

lemma rotate_revoked:
  assumes v: "verify L a b tok secret issuer Refresh = Inr c"
    and r: "fst (so_is_revoked ops (re_query e) (jti c) s)"
  shows "fst (rotate_token_pair ops L e secret issuer tok uname urole attl rttl s) \<noteq> Inr p"
proof (cases "verify L (re_check e) (re_final e) tok secret issuer Refresh")
  case (Inl x)
  then show ?thesis by (simp add: rotate_token_pair_def rotate_check_def)
next
  case (Inr c')
  then have "c' = c" using v verify_same_token by blast
  then show ?thesis
    using r Inr by (auto simp: rotate_token_pair_def rotate_check_def split: prod.splits bool.splits)
qed

section \<open>The contract of a store\<close>

locale revocation_store =
  fixes ops :: "'s store_ops"
    and inv :: "'s \<Rightarrow> bool"
    and room :: "'s \<Rightarrow> bool"
    and until :: "'s \<Rightarrow> string \<Rightarrow> int option"
  assumes inv_revoke: "inv s \<Longrightarrow> inv (so_revoke ops t1 t2 j ttl s)"
    and inv_query: "inv s \<Longrightarrow> inv (snd (so_is_revoked ops t j s))"
    and inv_purge: "inv s \<Longrightarrow> inv (snd (so_purge ops t s))"
    and query_result: "inv s \<Longrightarrow> j \<noteq> [] \<Longrightarrow>
          fst (so_is_revoked ops t j s) \<longleftrightarrow> (case until s j of None \<Rightarrow> False | Some e \<Rightarrow> t < e)"
    and query_keeps: "inv s \<Longrightarrow> until s j' = Some e \<Longrightarrow> t < e \<Longrightarrow>
          until (snd (so_is_revoked ops t j s)) j' = Some e"
    and query_only: "inv s \<Longrightarrow> until (snd (so_is_revoked ops t j s)) j' = Some e \<Longrightarrow> until s j' = Some e"
    and purge_keeps: "inv s \<Longrightarrow> until s j' = Some e \<Longrightarrow> t < e \<Longrightarrow> until (snd (so_purge ops t s)) j' = Some e"
    and revoke_keeps: "inv s \<Longrightarrow> room s \<Longrightarrow> until s j' = Some e \<Longrightarrow> t2 < e \<Longrightarrow>
          until (so_revoke ops t1 t2 j ttl s) j' = Some e"
    and revoke_new: "inv s \<Longrightarrow> j \<noteq> [] \<Longrightarrow> 1 \<le> ttl \<Longrightarrow>
          (case until s j of None \<Rightarrow> True | Some e \<Rightarrow> e \<le> t2) \<Longrightarrow>
          until (so_revoke ops t1 t2 j ttl s) j = Some (t1 + ttl * ns_per_s)"
begin

lemma calm_keeps:
  "inv s \<Longrightarrow> until s j = Some e \<Longrightarrow> calm ops room e xs s \<Longrightarrow>
     inv (run_ops ops xs s) \<and> until (run_ops ops xs s) j = Some e"
proof (induction xs arbitrary: s)
  case (Cons x xs)
  have "inv (run_op ops x s)"
    using Cons.prems(1) by (cases x) (simp_all add: inv_revoke inv_query inv_purge)
  moreover have "until (run_op ops x s) j = Some e"
    using Cons.prems by (cases x) (auto simp: query_keeps purge_keeps revoke_keeps)
  ultimately show ?case using Cons by simp
qed simp

text \<open>Revoke, then anything calm, then query: still revoked.\<close>

lemma revoked_stays:
  assumes "inv s" and "j \<noteq> []" and "1 \<le> ttl"
    and "case until s j of None \<Rightarrow> True | Some e \<Rightarrow> e \<le> t2"
    and "calm ops room (t1 + ttl * ns_per_s) xs (so_revoke ops t1 t2 j ttl s)"
    and "t < t1 + ttl * ns_per_s"
  shows "fst (so_is_revoked ops t j (run_ops ops xs (so_revoke ops t1 t2 j ttl s)))"
proof -
  have "inv (run_ops ops xs (so_revoke ops t1 t2 j ttl s)) \<and>
        until (run_ops ops xs (so_revoke ops t1 t2 j ttl s)) j = Some (t1 + ttl * ns_per_s)"
    using assms by (intro calm_keeps) (simp_all add: inv_revoke revoke_new)
  then show ?thesis using assms(2,6) by (simp add: query_result)
qed

text \<open>The same revocation is over once its time has come.\<close>

lemma revocation_lapses:
  assumes "inv s" and "j \<noteq> []" and "1 \<le> ttl"
    and "case until s j of None \<Rightarrow> True | Some e \<Rightarrow> e \<le> t2"
    and "t1 + ttl * ns_per_s \<le> t"
  shows "\<not> fst (so_is_revoked ops t j (so_revoke ops t1 t2 j ttl s))"
  using assms by (simp add: query_result inv_revoke revoke_new)

text \<open>Rotating a token that was rotated before, while its revocation lasts.\<close>

lemma rotate_again:
  assumes i: "inv s"
    and rot: "rotate_token_pair ops L e secret issuer tok uname urole attl rttl s = (Inr p, s')"
    and v: "verify L (re_check e) (re_final e) tok secret issuer Refresh = Inr c"
    and j: "jti c \<noteq> []" and ttl: "1 \<le> remaining_seconds c (re_now e)"
    and mono: "re_query e \<le> re_revoke2 e"
    and calm: "calm ops room (re_revoke1 e + remaining_seconds c (re_now e) * ns_per_s) xs s'"
    and early: "re_query e' < re_revoke1 e + remaining_seconds c (re_now e) * ns_per_s"
  shows "fst (rotate_token_pair ops L e' secret issuer tok uname' urole' attl' rttl' (run_ops ops xs s')) \<noteq> Inr p'"
proof -
  obtain s1 where q: "so_is_revoked ops (re_query e) (jti c) s = (False, s1)"
    and s': "s' = so_revoke ops (re_revoke1 e) (re_revoke2 e) (jti c) (remaining_seconds c (re_now e)) s1"
    using rotate_ok [OF rot v] by blast
  have i1: "inv s1" using inv_query [OF i] q by (metis snd_conv)
  have "case until s (jti c) of None \<Rightarrow> True | Some x \<Rightarrow> x \<le> re_revoke2 e"
    using query_result [OF i j, of "re_query e"] q mono by (auto split: option.splits)
  then have old: "case until s1 (jti c) of None \<Rightarrow> True | Some x \<Rightarrow> x \<le> re_revoke2 e"
    using query_only [OF i, of "re_query e" "jti c" "jti c"] q by (auto split: option.splits)
  have "fst (so_is_revoked ops (re_query e') (jti c) (run_ops ops xs s'))"
    unfolding s' using i1 j ttl old calm [unfolded s'] early by (rule revoked_stays)
  then show ?thesis by (rule rotate_revoked [OF v])
qed

end

section \<open>The in-memory store fulfils the contract\<close>

definition mem_inv :: "mem_store \<Rightarrow> bool" where
  "mem_inv s \<longleftrightarrow> um_ok (blacklist s)"

definition mem_room :: "mem_store \<Rightarrow> bool" where
  "mem_room s \<longleftrightarrow> max_entries s = 0 \<or> store_size s < max_entries s"

definition mem_until :: "mem_store \<Rightarrow> string \<Rightarrow> int option" where
  "mem_until s j = um_find j (blacklist s)"

lemma soonest_from_in: "soonest_from p ps = p \<or> soonest_from p ps \<in> set ps"
  by (induction p ps rule: soonest_from.induct) auto

lemma soonest_from_le: "snd (soonest_from p ps) \<le> snd p \<and> (\<forall>q \<in> set ps. snd (soonest_from p ps) \<le> snd q)"
  by (induction p ps rule: soonest_from.induct) (auto split: if_splits)

lemma evict_ok: "um_ok m \<Longrightarrow> um_ok (evict_soonest m)"
  unfolding evict_soonest_def by (cases m) (simp, metis list.simps(5) um.ok_erase)

lemma evict_find:
  assumes "um_ok m" and "um_find j m = Some e"
  shows "um_find j (evict_soonest m) = Some e
    \<or> (um_find j (evict_soonest m) = None \<and> (\<forall>(j', e') \<in> set m. e \<le> e'))"
proof (cases m)
  case (Cons p ps)
  let ?x = "soonest_from p m"
  have x: "?x \<in> set m" using soonest_from_in [of p m] Cons by auto
  show ?thesis
  proof (cases "fst ?x = j")
    case True
    then have "um_find j m = Some (snd ?x)" using x assms(1) by (simp add: um_find_Some_iff flip: True)
    then have "snd ?x = e" using assms(2) by simp
    then have "\<forall>(j', e') \<in> set m. e \<le> e'" using soonest_from_le [of p m] by fastforce
    then show ?thesis using True assms(1) Cons by (simp add: evict_soonest_def um.find_erase)
  next
    case False
    then show ?thesis using assms Cons by (simp add: evict_soonest_def um.find_erase)
  qed
qed (use assms in simp)

lemma evict_find_None: "um_ok m \<Longrightarrow> um_find j m = None \<Longrightarrow> um_find j (evict_soonest m) = None"
  unfolding evict_soonest_def by (cases m) (simp, metis list.simps(5) um.find_erase)

lemma evict_length:
  assumes "um_ok m" and "m \<noteq> []"
  shows "length (evict_soonest m) = length m - 1"
proof -
  obtain p ps where m: "m = p # ps" using assms(2) by (cases m) auto
  have "soonest_from p m \<in> set m" using soonest_from_in [of p m] m by auto
  then have "um_find (fst (soonest_from p m)) m \<noteq> None" by (auto simp: um_find_None_iff)
  then show ?thesis using assms(1) m by (simp add: evict_soonest_def um.size_erase)
qed

lemma purge_find:
  "um_ok (blacklist s) \<Longrightarrow> um_find j (blacklist (snd (purge_expired t s))) =
     (case um_find j (blacklist s) of None \<Rightarrow> None | Some e \<Rightarrow> if t < e then Some e else None)"
  by (simp add: purge_expired_def um_find_retain not_le cong: option.case_cong)

lemma purge_ok: "um_ok (blacklist s) \<Longrightarrow> um_ok (blacklist (snd (purge_expired t s)))"
  by (simp add: purge_expired_def um_ok_retain)

lemma purge_length: "length (blacklist (snd (purge_expired t s))) \<le> length (blacklist s)"
  by (simp add: purge_expired_def length_retain_le)

lemma purge_max [simp]: "max_entries (snd (purge_expired t s)) = max_entries s"
  by (simp add: purge_expired_def)

lemma revoke_ok: "um_ok (blacklist s) \<Longrightarrow> um_ok (blacklist (revoke t1 t2 j ttl s))"
  by (simp add: revoke_def Let_def um_ok_emplace evict_ok purge_ok)

lemma revoke_max [simp]: "max_entries (revoke t1 t2 j ttl s) = max_entries s"
  by (simp add: revoke_def Let_def)

lemma is_revoked_state:
  "blacklist (snd (is_revoked t j s)) = blacklist s
   \<or> (\<exists>e. um_find j (blacklist s) = Some e \<and> e \<le> t \<and> blacklist (snd (is_revoked t j s)) = um_erase j (blacklist s))"
  by (auto simp: is_revoked_def split: option.splits)

interpretation mem: revocation_store mem_ops mem_inv mem_room mem_until
proof
  fix s t t1 t2 j ttl j' e
  assume i: "mem_inv s"
  then have ok: "um_ok (blacklist s)" by (simp add: mem_inv_def)
  let ?P = "blacklist (snd (purge_expired t2 s))"
  have okP: "um_ok ?P" using ok by (rule purge_ok)
  show "mem_inv (so_revoke mem_ops t1 t2 j ttl s)"
    using ok by (simp add: mem_inv_def mem_ops_def revoke_ok)
  show "mem_inv (snd (so_is_revoked mem_ops t j s))"
    using ok is_revoked_state [of t j s] by (auto simp: mem_inv_def mem_ops_def um.ok_erase)
  show "mem_inv (snd (so_purge mem_ops t s))"
    using ok by (simp add: mem_inv_def mem_ops_def purge_ok)
  show "fst (so_is_revoked mem_ops t j s) \<longleftrightarrow> (case mem_until s j of None \<Rightarrow> False | Some e \<Rightarrow> t < e)"
    if "j \<noteq> []" using that by (auto simp: mem_ops_def is_revoked_def mem_until_def split: option.splits)
  show "mem_until (snd (so_is_revoked mem_ops t j s)) j' = Some e"
    if "mem_until s j' = Some e" "t < e"
    using that ok is_revoked_state [of t j s] by (auto simp: mem_ops_def mem_until_def um.find_erase)
  show "mem_until s j' = Some e" if "mem_until (snd (so_is_revoked mem_ops t j s)) j' = Some e"
    using that ok is_revoked_state [of t j s]
    by (auto simp: mem_ops_def mem_until_def um.find_erase split: if_splits)
  show "mem_until (snd (so_purge mem_ops t s)) j' = Some e" if "mem_until s j' = Some e" "t < e"
    using that ok by (simp add: mem_ops_def mem_until_def purge_find)
  show "mem_until (so_revoke mem_ops t1 t2 j ttl s) j' = Some e"
    if "mem_room s" "mem_until s j' = Some e" "t2 < e"
  proof -
    have "um_find j' ?P = Some e" using that ok by (simp add: purge_find mem_until_def)
    moreover have "(0 < max_entries s \<and> max_entries s \<le> length ?P) = False"
      using that(1) purge_length [of t2 s] by (auto simp: mem_room_def store_size_def)
    moreover have "um_find j' (blacklist s) = Some e" using that(2) by (simp add: mem_until_def)
    ultimately show ?thesis
      using okP by (auto simp: mem_ops_def mem_until_def revoke_def Let_def um_find_emplace)
  qed
  show "mem_until (so_revoke mem_ops t1 t2 j ttl s) j = Some (t1 + ttl * ns_per_s)"
    if "j \<noteq> []" "1 \<le> ttl" "case mem_until s j of None \<Rightarrow> True | Some e \<Rightarrow> e \<le> t2"
  proof -
    have "um_find j ?P = None"
      using that(3) ok by (auto simp: purge_find mem_until_def split: option.splits)
    then show ?thesis
      using that(1,2) okP
      by (simp add: mem_ops_def mem_until_def revoke_def Let_def um_find_emplace evict_ok evict_find_None)
  qed
qed

section \<open>Capacity\<close>

lemma emplace_keeps: "um_ok m \<Longrightarrow> um_find k m = Some v \<Longrightarrow> um_find k (um_emplace k' w m) = Some v"
  by (auto simp: um_find_emplace)

lemma length_emplace_le: "um_ok m \<Longrightarrow> length (um_emplace k v m) \<le> Suc (length m)"
  by (auto simp: um_emplace_def um.size_put split: option.splits)

lemma revoke_bounded:
  assumes "um_ok (blacklist s)" and "0 < max_entries s" and "store_size s \<le> max_entries s"
  shows "store_size (revoke t1 t2 j ttl s) \<le> max_entries s"
proof -
  let ?P = "blacklist (snd (purge_expired t2 s))"
  let ?m = "if max_entries s \<le> length ?P then evict_soonest ?P else ?P"
  have ok: "um_ok ?P" and le: "length ?P \<le> max_entries s"
    using assms purge_length [of t2 s] by (auto simp: purge_ok store_size_def)
  have "length ?m < max_entries s"
  proof (cases "max_entries s \<le> length ?P")
    case True
    then have "?P \<noteq> []" using assms(2) by auto
    then show ?thesis using True evict_length [OF ok] le assms(2) by simp
  qed simp
  moreover have "um_ok ?m" using ok evict_ok by simp
  ultimately have "length (um_emplace j (t1 + ttl * ns_per_s) ?m) \<le> max_entries s"
    using length_emplace_le [of ?m j "t1 + ttl * ns_per_s"] by simp
  then show ?thesis using assms(2,3) by (simp add: revoke_def Let_def store_size_def)
qed

lemma query_bounded: "um_ok (blacklist s) \<Longrightarrow> store_size (snd (is_revoked t j s)) \<le> store_size s"
  using is_revoked_state [of t j s] by (auto simp: store_size_def um.size_erase)

lemma query_max [simp]: "max_entries (snd (is_revoked t j s)) = max_entries s"
  by (simp add: is_revoked_def split: option.splits)

definition bounded_store :: "mem_store \<Rightarrow> bool" where
  "bounded_store s \<longleftrightarrow> mem_inv s \<and> (max_entries s = 0 \<or> store_size s \<le> max_entries s)"

lemma run_op_bounded:
  assumes "bounded_store s"
  shows "bounded_store (run_op mem_ops x s) \<and> max_entries (run_op mem_ops x s) = max_entries s"
proof (cases x)
  case (OpRevoke t1 t2 j ttl)
  then show ?thesis
    using assms revoke_bounded [of s t1 t2 j ttl] by (auto simp: bounded_store_def mem_inv_def mem_ops_def revoke_ok)
next
  case (OpQuery t j)
  then show ?thesis
    using assms query_bounded [of s t j] mem.inv_query [of s t j]
    by (auto simp: bounded_store_def mem_inv_def mem_ops_def)
next
  case (OpPurge t)
  then show ?thesis
    using assms purge_length [of t s] by (auto simp: bounded_store_def mem_inv_def mem_ops_def purge_ok store_size_def)
qed

lemma run_ops_bounded:
  "bounded_store s \<Longrightarrow> bounded_store (run_ops mem_ops xs s) \<and> max_entries (run_ops mem_ops xs s) = max_entries s"
proof (induction xs arbitrary: s)
  case (Cons x xs)
  then show ?case using run_op_bounded [of s x] by simp
qed simp

section \<open>Properties\<close>

text \<open>
  C6. Rotation uses a refresh token up: after a successful rotation of a token with an id and at
  least one second left, whatever revocations, queries and purges other requests perform in between
  while the store has room, presenting the same token again never yields a new pair, as long as the
  revocation recorded by the first rotation lasts (its remaining whole seconds).
\<close>

theorem rotation_single_use:
  assumes "mem_inv s"
    and "rotate_token_pair mem_ops L e secret issuer tok uname urole attl rttl s = (Inr p, s')"
    and "verify L (re_check e) (re_final e) tok secret issuer Refresh = Inr c"
    and "jti c \<noteq> []" and "1 \<le> remaining_seconds c (re_now e)" and "re_query e \<le> re_revoke2 e"
    and "calm mem_ops mem_room (re_revoke1 e + remaining_seconds c (re_now e) * ns_per_s) xs s'"
    and "re_query e' < re_revoke1 e + remaining_seconds c (re_now e) * ns_per_s"
  shows "fst (rotate_token_pair mem_ops L e' secret issuer tok uname' urole' attl' rttl' (run_ops mem_ops xs s')) \<noteq> Inr p'"
  using assms by (rule mem.rotate_again)

text \<open>The demonstration library can also sign the pairs the rotations below issue.\<close>

definition rot_env :: "int \<Rightarrow> rotate_env" where
  "rot_env t = \<lparr>re_check = t, re_final = t, re_query = t, re_now = t, re_revoke1 = t, re_revoke2 = t,
     re_issue = \<lparr>ie_access_signed = 0, ie_access_uuid = ''a'', ie_refresh_signed = 0, ie_refresh_uuid = ''r'',
                 ie_now1 = t, ie_now2 = t\<rparr>\<rparr>"

definition rot_table :: token_table where
  "rot_table =
     [(''ref'', demo_secret, refresh_builder 0 ''j2'' ''litecode'' ''7'' 20),
      (''acc2'', demo_secret, access_builder 0 ''a'' ''litecode'' ''7'' ''alice'' ''user'' 10),
      (''ref2'', demo_secret, refresh_builder 0 ''r'' ''litecode'' ''7'' 30)]"

definition rot_claims :: Claims where
  "rot_claims = \<lparr>user_id = ''7'', username = [], role = [], kind = Refresh, issued_at = 0,
     expires_at = 20000000000, jti = ''j2''\<rparr>"

definition rot_pair :: "int \<Rightarrow> TokenPair" where
  "rot_pair t = \<lparr>access_token = ''acc2'', access_jti = ''a'', access_expires_at = t + 10000000000,
     refresh_token = ''ref2'', refresh_jti = ''r'', refresh_expires_at = t + 30000000000\<rparr>"

text \<open>At time 9.1 s the token has 10.9 s left; its revocation lasts 10 s.\<close>

abbreviation (input) t_first :: int where
  "t_first \<equiv> 9100000000"

definition rot_after :: mem_store where
  "rot_after = \<lparr>blacklist = [(''j2'', 19100000000)], max_entries = 100\<rparr>"

lemma rot_first:
  "rotate_token_pair mem_ops (table_lib rot_table) (rot_env t_first) demo_secret ''litecode'' ''ref'' ''alice'' ''user'' 10 30
     (new_mem_store 100) = (Inr (rot_pair t_first), rot_after)"
  by code_simp

lemma rot_verify:
  "verify (table_lib rot_table) (re_check (rot_env t_first)) (re_final (rot_env t_first)) ''ref'' demo_secret ''litecode'' Refresh
     = Inr rot_claims"
  by code_simp

lemma rot_side:
  "mem_inv (new_mem_store 100)" "jti rot_claims \<noteq> []"
  "remaining_seconds rot_claims (re_now (rot_env t_first)) = 10"
  "re_query (rot_env t) = t" "re_revoke1 (rot_env t) = t" "re_revoke2 (rot_env t) = t"
  by (simp_all add: mem_inv_def new_mem_store_def rot_claims_def remaining_seconds_def rot_env_def trunc_div_def)

theorem rotation_single_use_witness:
  "fst (rotate_token_pair mem_ops (table_lib rot_table) (rot_env 19000000000) demo_secret ''litecode'' ''ref'' ''alice'' ''user''
     10 30 (run_ops mem_ops [OpQuery 9200000000 ''j2'', OpRevoke 9300000000 9300000000 ''x'' 5] rot_after))
   \<noteq> Inr (rot_pair 19000000000)"
proof -
  have c: "calm mem_ops mem_room (t_first + 10 * ns_per_s) [OpQuery 9200000000 ''j2'', OpRevoke 9300000000 9300000000 ''x'' 5] rot_after"
    by code_simp
  show ?thesis
    by (rule rotation_single_use [OF rot_side(1) rot_first rot_verify rot_side(2)]) (use c in \<open>simp_all add: rot_side\<close>)
qed

text \<open>
  The revocation is shorter than the token: the time left is cut to whole seconds, so once those
  have passed the blacklist check no longer stops the token, and if it still verifies, a second
  rotation of the same token yields a second pair.
\<close>

theorem rotation_replay_window:
  assumes "mem_inv s"
    and "rotate_token_pair mem_ops L e secret issuer tok uname urole attl rttl s = (Inr p, s')"
    and "verify L (re_check e) (re_final e) tok secret issuer Refresh = Inr c"
    and "jti c \<noteq> []" and "1 \<le> remaining_seconds c (re_now e)" and "re_query e \<le> re_revoke2 e"
    and "re_revoke1 e + remaining_seconds c (re_now e) * ns_per_s \<le> re_query e'"
    and "verify L (re_check e') (re_final e') tok secret issuer Refresh = Inr c"
    and "issue_token_pair L (re_issue e') secret issuer (user_id c) uname urole attl rttl = Inr p'"
  shows "fst (rotate_token_pair mem_ops L e' secret issuer tok uname urole attl rttl s') = Inr p'"
proof -
  obtain s1 where q: "so_is_revoked mem_ops (re_query e) (jti c) s = (False, s1)"
    and s': "s' = so_revoke mem_ops (re_revoke1 e) (re_revoke2 e) (jti c) (remaining_seconds c (re_now e)) s1"
    using rotate_ok [OF assms(2,3)] by blast
  have old: "case mem_until s1 (jti c) of None \<Rightarrow> True | Some x \<Rightarrow> x \<le> re_revoke2 e"
    using mem.query_result [OF assms(1,4), of "re_query e"] mem.query_only [OF assms(1), of "re_query e" "jti c" "jti c"]
      q assms(6) by (auto split: option.splits)
  have "mem_inv s1" using mem.inv_query [OF assms(1)] q by (metis snd_conv)
  then have "\<not> fst (so_is_revoked mem_ops (re_query e') (jti c) s')"
    unfolding s' using assms(4,5) old assms(7) by (rule mem.revocation_lapses)
  moreover have "tok \<noteq> []" "uname \<noteq> []" "urole \<noteq> []" "1 \<le> attl" "attl \<le> rttl"
    using assms(2,3) by (auto simp: rotate_token_pair_def rotate_check_def verify_Inr split: if_splits)
  ultimately show ?thesis
    using assms(8,9)
    by (auto simp: rotate_token_pair_def rotate_check_def rotate_commit_def split: prod.splits bool.splits)
qed

theorem rotation_replay_window_witness:
  "fst (rotate_token_pair mem_ops (table_lib rot_table) (rot_env 19500000000) demo_secret ''litecode'' ''ref'' ''alice'' ''user''
     10 30 rot_after) = Inr (rot_pair 19500000000)"
proof -
  have v: "verify (table_lib rot_table) (re_check (rot_env 19500000000)) (re_final (rot_env 19500000000)) ''ref''
      demo_secret ''litecode'' Refresh = Inr rot_claims" by code_simp
  have i: "issue_token_pair (table_lib rot_table) (re_issue (rot_env 19500000000)) demo_secret ''litecode'' (user_id rot_claims)
      ''alice'' ''user'' 10 30 = Inr (rot_pair 19500000000)" by code_simp
  show ?thesis
    by (rule rotation_replay_window [OF rot_side(1) rot_first rot_verify rot_side(2) _ _ _ v i]) (simp_all add: rot_side)
qed

text \<open>
  Two overlapping rotations of one token both succeed: the check and the revocation are separate
  store operations, so if the second request's check runs before the first request's revocation, it
  passes too, and both requests return the pair they sign.
\<close>

theorem overlapping_rotations:
  assumes "mem_inv s"
    and "rotate_check mem_ops L e secret issuer tok uname urole attl rttl s = (Inr c, s1)"
    and "verify L (re_check e') (re_final e') tok secret issuer Refresh = Inr c"
    and "re_query e \<le> re_query e'"
  shows "\<exists>s2. rotate_check mem_ops L e' secret issuer tok uname urole attl rttl s1 = (Inr c, s2)
    \<and> fst (rotate_commit mem_ops L e secret issuer c uname urole attl rttl s2)
        = issue_token_pair L (re_issue e) secret issuer (user_id c) uname urole attl rttl
    \<and> fst (rotate_commit mem_ops L e' secret issuer c uname urole attl rttl
             (snd (rotate_commit mem_ops L e secret issuer c uname urole attl rttl s2)))
        = issue_token_pair L (re_issue e') secret issuer (user_id c) uname urole attl rttl"
proof -
  from assms(2) have g: "tok \<noteq> []" "uname \<noteq> []" "urole \<noteq> []" "1 \<le> attl" "attl \<le> rttl"
    and q: "so_is_revoked mem_ops (re_query e) (jti c) s = (False, s1)"
    by (auto simp: rotate_check_def split: if_splits sum.splits prod.splits bool.splits)
  have "\<not> fst (is_revoked (re_query e') (jti c) s1)"
  proof (cases "jti c = []")
    case False
    have i1: "mem_inv s1" using mem.inv_query [OF assms(1)] q by (metis snd_conv)
    have "mem_until s1 (jti c) = Some x \<Longrightarrow> x \<le> re_query e'" for x
      using mem.query_result [OF assms(1) False, of "re_query e"] mem.query_only [OF assms(1), of "re_query e" "jti c" "jti c" x]
        q assms(4) by simp
    then show ?thesis
      using mem.query_result [OF i1 False, of "re_query e'"] by (force simp: mem_ops_def split: option.splits)
  qed (simp add: is_revoked_def)
  then obtain s2 where "so_is_revoked mem_ops (re_query e') (jti c) s1 = (False, s2)"
    by (metis mem_ops_def prod.collapse store_ops.select_convs(2))
  then have "rotate_check mem_ops L e' secret issuer tok uname urole attl rttl s1 = (Inr c, s2)"
    using g assms(3) by (simp add: rotate_check_def)
  then show ?thesis by (simp add: rotate_commit_def)
qed

theorem overlapping_rotations_witness:
  "\<exists>s2. rotate_check mem_ops (table_lib rot_table) (rot_env 9200000000) demo_secret ''litecode'' ''ref'' ''alice'' ''user'' 10 30
       (new_mem_store 100) = (Inr rot_claims, s2)"
proof -
  have a: "rotate_check mem_ops (table_lib rot_table) (rot_env t_first) demo_secret ''litecode'' ''ref'' ''alice'' ''user'' 10 30
      (new_mem_store 100) = (Inr rot_claims, new_mem_store 100)" by code_simp
  have v: "verify (table_lib rot_table) (re_check (rot_env 9200000000)) (re_final (rot_env 9200000000)) ''ref''
      demo_secret ''litecode'' Refresh = Inr rot_claims" by code_simp
  show ?thesis using overlapping_rotations [OF rot_side(1) a v] by (auto simp: rot_side)
qed

text \<open>
  Capacity: from an empty store with a positive cap, no sequence of revocations, queries and
  purges makes the blacklist larger than the cap or gives an id two entries, and a revocation drops a
  live entry of another id only when the store is full after purging, and then only an entry that
  expires no later than any other.
\<close>

theorem store_capacity:
  assumes "0 < n" and "s = run_ops mem_ops xs (new_mem_store n)"
  shows "store_size s \<le> n \<and> distinct (map fst (blacklist s))
    \<and> (mem_until s j = Some x \<and> t2 < x \<and> mem_until (revoke t1 t2 j' ttl s) j \<noteq> Some x
         \<longrightarrow> n \<le> store_size (snd (purge_expired t2 s))
             \<and> (\<forall>(k, y) \<in> set (blacklist (snd (purge_expired t2 s))). x \<le> y))"
proof -
  have "bounded_store (new_mem_store n)" by (simp add: bounded_store_def new_mem_store_def mem_inv_def store_size_def)
  then have b: "bounded_store s" and m: "max_entries s = n"
    using run_ops_bounded [of "new_mem_store n" xs] assms(2) by (simp_all add: new_mem_store_def)
  then have ok: "um_ok (blacklist s)" and le: "store_size s \<le> n"
    using assms(1) by (auto simp: bounded_store_def mem_inv_def)
  let ?P = "blacklist (snd (purge_expired t2 s))"
  have okP: "um_ok ?P" using ok by (rule purge_ok)
  have "n \<le> length ?P \<and> (\<forall>(k, y) \<in> set ?P. x \<le> y)"
    if h: "um_find j (blacklist s) = Some x" "t2 < x" "um_find j (blacklist (revoke t1 t2 j' ttl s)) \<noteq> Some x"
  proof -
    have f: "um_find j ?P = Some x" using h ok by (simp add: purge_find)
    let ?m = "if 0 < n \<and> n \<le> length ?P then evict_soonest ?P else ?P"
    have "um_find j (um_emplace j' (t1 + ttl * ns_per_s) ?m) \<noteq> Some x"
      using h m by (auto simp: revoke_def Let_def split: if_splits)
    moreover have "um_ok ?m" using okP evict_ok [OF okP] by simp
    ultimately have "um_find j ?m \<noteq> Some x"
      using emplace_keeps contrapos_nn by metis
    then show ?thesis using f evict_find [OF okP f] by (auto split: if_splits)
  qed
  then show ?thesis using le ok by (auto simp: um_ok_def mem_until_def store_size_def)
qed

theorem store_capacity_witness:
  "store_size (run_ops mem_ops [OpRevoke 0 0 ''a'' 5, OpRevoke 0 0 ''b'' 9, OpRevoke 0 0 ''c'' 7] (new_mem_store 2)) \<le> 2"
  by (rule store_capacity [THEN conjunct1, OF _ refl]) simp

end
