(* ===== verification/Auth_Middleware.thy ===== *)
theory Auth_Middleware
  imports Jwt_Utils
begin

text \<open>
  \<^verbatim>\<open>src/middleware/auth_middleware.h\<close> and \<^verbatim>\<open>src/middleware/admin_middleware.h\<close>: reading the bearer
  token of a request, the authentication guard and the role guard.

  The string views and index loops are the suffixes they denote; log calls have no effect on the
  result and are left out. A guard returns the claims, throws an \<open>ApiException\<close>, or lets an
  exception of the JWT library through.

  Main results: exactly which headers carry a token and which token, that a request passes a guard
  only with a token that verifies (and the admin role), and that refusals look alike.
\<close>

definition iequals_ascii :: "string \<Rightarrow> string \<Rightarrow> bool" where
  "iequals_ascii a b \<longleftrightarrow> length a = length b \<and> list_all2 (\<lambda>x y. tolower x = tolower y) a b"

definition kBearerScheme :: string where
  "kBearerScheme = ''Bearer''"

definition is_blank :: "char \<Rightarrow> bool" where
  "is_blank c \<longleftrightarrow> c = CHR '' '' \<or> c = CHR 0x09"

definition extract_bearer_token :: "string \<Rightarrow> string" where
  "extract_bearer_token header_value =
     (let h = dropWhile isspace header_value in
      if h = [] then []
      else
        let scheme = takeWhile (\<lambda>c. \<not> is_blank c) h in
        if \<not> iequals_ascii scheme kBearerScheme then []
        else
          let rest = dropWhile isspace (drop (length scheme) h) in
          if rest = [] then []
          else
            let token = takeWhile (\<lambda>c. \<not> is_blank c) rest in
            if token = [] then []
            else if \<exists>c \<in> set token. is_blank c \<or> c = CHR 0x0D \<or> c = CHR 0x0A then []
            else token)"

definition looks_like_bearer :: "string \<Rightarrow> bool" where
  "looks_like_bearer header =
     iequals_ascii (takeWhile (\<lambda>c. \<not> is_blank c) (dropWhile isspace header)) kBearerScheme"

datatype guard_error = Api ApiException | Escapes string

record jwt_config =
  jc_secret :: string
  jc_issuer :: string

definition unauthorized :: "string \<Rightarrow> guard_error" where
  "unauthorized msg = Api \<lparr>ae_status = 401, ae_code = UNAUTHORIZED, ae_message = msg, ae_details = JNull\<rparr>"

definition require_authentication ::
    "jwt_lib \<Rightarrow> int \<Rightarrow> int \<Rightarrow> http_request \<Rightarrow> jwt_config \<Rightarrow> guard_error + Claims" where
  "require_authentication L now1 now2 req cfg =
     (let header = get_header_value req ''Authorization'' in
      if header = [] then Inl (unauthorized ''missing Authorization header'')
      else
        let token = extract_bearer_token header in
        if token = [] then
          Inl (unauthorized (if looks_like_bearer header then ''empty bearer token''
                             else ''Authorization scheme must be Bearer''))
        else case verify L now1 now2 token (jc_secret cfg) (jc_issuer cfg) Access of
               Inr c \<Rightarrow> Inr c
             | Inl (LibError m) \<Rightarrow> Inl (Escapes m)
             | Inl _ \<Rightarrow> Inl (unauthorized ''invalid or expired token''))"

definition require_role :: "Claims \<Rightarrow> string \<Rightarrow> guard_error + unit" where
  "require_role c expected =
     (if role c \<noteq> expected then
        Inl (Api \<lparr>ae_status = 403, ae_code = FORBIDDEN, ae_message = ''insufficient privileges'',
                  ae_details = JNull\<rparr>)
      else Inr ())"

definition require_admin ::
    "jwt_lib \<Rightarrow> int \<Rightarrow> int \<Rightarrow> http_request \<Rightarrow> jwt_config \<Rightarrow> guard_error + Claims" where
  "require_admin L now1 now2 req cfg =
     (case require_authentication L now1 now2 req cfg of
        Inl e \<Rightarrow> Inl e
      | Inr c \<Rightarrow> (case require_role c ''admin'' of Inl e \<Rightarrow> Inl e | Inr _ \<Rightarrow> Inr c))"

section \<open>Lemmas\<close>

lemma blank_isspace: "is_blank c \<Longrightarrow> isspace c"
  by (auto simp: is_blank_def isspace_def)

lemma iequals_no_blank:
  assumes "iequals_ascii a kBearerScheme"
  shows "\<forall>c \<in> set a. \<not> isspace c" and "a \<noteq> []"
proof -
  have low: "tolower c \<noteq> tolower d" if "isspace c" "d \<in> set kBearerScheme" for c d
  proof -
    have "uchar (tolower d) \<ge> 97" using that(2) by (auto simp: kBearerScheme_def tolower_def char_class_defs)
    moreover have "tolower c = c" "uchar c < 97" using that(1) by (auto simp: tolower_def char_class_defs)
    ultimately show ?thesis by auto
  qed
  from assms show "\<forall>c \<in> set a. \<not> isspace c"
    using low by (auto simp: iequals_ascii_def list_all2_conv_all_nth in_set_conv_nth) (metis nth_mem)
  show "a \<noteq> []" using assms by (auto simp: iequals_ascii_def kBearerScheme_def)
qed

lemma dropWhile_prefix: "(\<forall>c \<in> set xs. P c) \<Longrightarrow> (ys = [] \<or> \<not> P (hd ys)) \<Longrightarrow> dropWhile P (xs @ ys) = ys"
  by (induction xs) (cases ys, auto)

lemma takeWhile_prefix: "(\<forall>c \<in> set xs. P c) \<Longrightarrow> (ys = [] \<or> \<not> P (hd ys)) \<Longrightarrow> takeWhile P (xs @ ys) = xs"
  by (induction xs) (cases ys, auto)

lemma bearer_complete:
  assumes ws: "\<forall>c \<in> set ws. isspace c" and scheme: "iequals_ascii scheme kBearerScheme"
    and sep: "sep \<noteq> []" "is_blank (hd sep)" "\<forall>c \<in> set sep. isspace c"
    and tok: "token \<noteq> []" "\<not> isspace (hd token)"
      "\<forall>c \<in> set token. \<not> is_blank c \<and> c \<noteq> CHR 0x0D \<and> c \<noteq> CHR 0x0A"
    and tail: "tail = [] \<or> is_blank (hd tail)"
  shows "extract_bearer_token (ws @ scheme @ sep @ token @ tail) = token"
proof -
  note sc = iequals_no_blank [OF scheme]
  have "dropWhile isspace (ws @ scheme @ sep @ token @ tail) = scheme @ sep @ token @ tail"
    using ws sc by (intro dropWhile_prefix) (auto simp: hd_append)
  moreover have "takeWhile (\<lambda>c. \<not> is_blank c) (scheme @ sep @ token @ tail) = scheme"
    using sc sep blank_isspace by (intro takeWhile_prefix) (auto simp: hd_append)
  moreover have "dropWhile isspace (sep @ token @ tail) = token @ tail"
    using sep tok by (intro dropWhile_prefix) (auto simp: hd_append)
  moreover have "takeWhile (\<lambda>c. \<not> is_blank c) (token @ tail) = token"
    using tok tail by (intro takeWhile_prefix) auto
  ultimately show ?thesis
    using sc(2) tok scheme by (auto simp: extract_bearer_token_def Let_def)
qed

lemma split_takeWhile:
  obtains ys where "xs = takeWhile P xs @ ys" and "ys = dropWhile P xs" and "ys = [] \<or> \<not> P (hd ys)"
proof -
  have "dropWhile P xs = [] \<or> \<not> P (hd (dropWhile P xs))" using hd_dropWhile by blast
  then show ?thesis using that takeWhile_dropWhile_id by metis
qed

lemma bearer_sound:
  assumes "extract_bearer_token s = token" and "token \<noteq> []"
  obtains ws scheme sep tail where "s = ws @ scheme @ sep @ token @ tail"
    and "\<forall>c \<in> set ws. isspace c" and "iequals_ascii scheme kBearerScheme"
    and "sep \<noteq> []" and "is_blank (hd sep)" and "\<forall>c \<in> set sep. isspace c"
    and "\<not> isspace (hd token)" and "\<forall>c \<in> set token. \<not> is_blank c \<and> c \<noteq> CHR 0x0D \<and> c \<noteq> CHR 0x0A"
    and "tail = [] \<or> is_blank (hd tail)"
proof -
  define h where "h = dropWhile isspace s"
  define scheme where "scheme = takeWhile (\<lambda>c. \<not> is_blank c) h"
  define after where "after = dropWhile (\<lambda>c. \<not> is_blank c) h"
  define rest where "rest = dropWhile isspace after"
  have d: "drop (length scheme) h = after"
    unfolding scheme_def after_def by (simp add: dropWhile_eq_drop)
  have t: "token = takeWhile (\<lambda>c. \<not> is_blank c) rest" and rest: "rest \<noteq> []"
    and sch: "iequals_ascii scheme kBearerScheme"
    and clean: "\<forall>c \<in> set token. \<not> is_blank c \<and> c \<noteq> CHR 0x0D \<and> c \<noteq> CHR 0x0A"
    using assms d unfolding extract_bearer_token_def Let_def
    by (auto simp flip: h_def scheme_def rest_def split: if_splits)
  have after: "after = takeWhile isspace after @ rest" unfolding rest_def by simp
  have "after \<noteq> []" using rest rest_def by auto
  then have hd_after: "is_blank (hd after)" unfolding after_def using hd_dropWhile by blast
  have hd_rest: "\<not> isspace (hd rest)" using rest unfolding rest_def by (rule hd_dropWhile)
  have sep: "takeWhile isspace after \<noteq> []" "hd (takeWhile isspace after) = hd after"
    using \<open>after \<noteq> []\<close> hd_after blank_isspace by (cases after; auto)+
  have "hd token = hd rest" using t assms(2) by (cases rest) (auto split: if_splits)
  moreover have "rest = token @ dropWhile (\<lambda>c. \<not> is_blank c) rest" unfolding t by simp
  moreover have "dropWhile (\<lambda>c. \<not> is_blank c) rest = [] \<or> is_blank (hd (dropWhile (\<lambda>c. \<not> is_blank c) rest))"
    using hd_dropWhile by blast
  moreover have "s = takeWhile isspace s @ scheme @ after" unfolding scheme_def after_def h_def by simp
  ultimately show ?thesis
    using that [of "takeWhile isspace s" scheme "takeWhile isspace after" "dropWhile (\<lambda>c. \<not> is_blank c) rest"]
      sch sep hd_after hd_rest clean after
    by (auto dest: set_takeWhileD)
qed

lemma extract_Nil [simp]: "extract_bearer_token [] = []"
  by (simp add: extract_bearer_token_def)

lemma require_authentication_Inr:
  "require_authentication L now1 now2 req cfg = Inr c \<Longrightarrow>
     verify L now1 now2 (extract_bearer_token (get_header_value req ''Authorization'')) (jc_secret cfg) (jc_issuer cfg) Access
       = Inr c"
  by (auto simp: require_authentication_def Let_def split: if_splits sum.splits jwt_error.splits)

section \<open>Properties\<close>

text \<open>
  Exactly which Authorization headers carry which token: white space, the word Bearer in any
  case, white space starting with a blank or tab, the token (no blank, tab, CR or LF, not starting
  with white space), and then either the end or a blank with anything after it.
\<close>

theorem bearer_token_exact:
  assumes "token \<noteq> []"
  shows "extract_bearer_token s = token \<longleftrightarrow>
    (\<exists>ws scheme sep tail. s = ws @ scheme @ sep @ token @ tail
       \<and> (\<forall>c \<in> set ws. isspace c) \<and> iequals_ascii scheme kBearerScheme
       \<and> sep \<noteq> [] \<and> is_blank (hd sep) \<and> (\<forall>c \<in> set sep. isspace c)
       \<and> \<not> isspace (hd token) \<and> (\<forall>c \<in> set token. \<not> is_blank c \<and> c \<noteq> CHR 0x0D \<and> c \<noteq> CHR 0x0A)
       \<and> (tail = [] \<or> is_blank (hd tail)))" (is "?L = ?R")
proof
  assume ?L
  then show ?R using assms by (rule bearer_sound) blast
next
  assume ?R
  then show ?L
  proof (elim exE conjE)
    fix ws scheme sep tail
    assume h: "s = ws @ scheme @ sep @ token @ tail" and x: "\<forall>c \<in> set ws. isspace c"
      "iequals_ascii scheme kBearerScheme" "sep \<noteq> []" "is_blank (hd sep)" "\<forall>c \<in> set sep. isspace c"
      and y: "\<not> isspace (hd token)" "\<forall>c \<in> set token. \<not> is_blank c \<and> c \<noteq> CHR 0x0D \<and> c \<noteq> CHR 0x0A"
      "tail = [] \<or> is_blank (hd tail)"
    show ?L unfolding h using x assms y by (rule bearer_complete)
  qed
qed

theorem bearer_token_exact_witness:
  "extract_bearer_token ''  bEARER  abc def'' = ''abc''"
proof (rule bearer_token_exact [THEN iffD2], simp, intro exI conjI)
  show "''  bEARER  abc def'' = ''  '' @ ''bEARER'' @ ''  '' @ ''abc'' @ '' def''" by simp
qed code_simp+

text \<open>
  C14. The admin guard lets a request through only with claims whose role is admin, read from a token
  of the request that the library accepted under the configured secret and issuer and that had not
  expired; without exceptions of the library every refusal is a 401 UNAUTHORIZED or, only for a
  request that authenticated with another role, a 403 FORBIDDEN; and the refusal of a token does not
  say why it was refused.
\<close>

theorem admin_gate:
  "case require_admin L now1 now2 req cfg of
     Inr c \<Rightarrow> role c = ''admin'' \<and> kind c = Access \<and> \<not> is_expired_at c now2
       \<and> jl_check L (jc_secret cfg) (jc_issuer cfg) now1 (extract_bearer_token (get_header_value req ''Authorization'')) = CheckOk
   | Inl (Api e) \<Rightarrow>
       (ae_status e = 403 \<and> ae_code e = FORBIDDEN
        \<and> (\<exists>c. require_authentication L now1 now2 req cfg = Inr c \<and> role c = ''user''))
       \<or> (ae_status e = 401 \<and> ae_code e = UNAUTHORIZED
          \<and> (extract_bearer_token (get_header_value req ''Authorization'') = []
             \<or> ae_message e = ''invalid or expired token''))
   | Inl (Escapes m) \<Rightarrow>
       verify L now1 now2 (extract_bearer_token (get_header_value req ''Authorization'')) (jc_secret cfg) (jc_issuer cfg) Access
         = Inl (LibError m)"
proof (cases "require_authentication L now1 now2 req cfg")
  case (Inr c)
  note v = require_authentication_Inr [OF this]
  from v obtain d where d: "read_claims d Access now2 = Inr c" by (auto simp: verify_Inr)
  have r: "role c = ''user'' \<or> role c = ''admin''" "kind c = Access" "\<not> is_expired_at c now2"
    using read_claims_Inr [OF d] by (auto simp: is_expired_at_def)
  show ?thesis
    using Inr v r by (auto simp: require_admin_def require_role_def verify_Inr)
next
  case (Inl e)
  then show ?thesis
    by (auto simp: require_admin_def require_authentication_def unauthorized_def Let_def
        split: if_splits sum.splits jwt_error.splits)
qed

end
