(* ===== verification/Rate_Limit.thy ===== *)
theory Rate_Limit
  imports Auth_Middleware Containers Double "HOL-Library.Sublist"
begin

text \<open>
  \<^verbatim>\<open>src/middleware/rate_limit.h\<close>: the quotas, the token buckets, pruning, the choice of the bucket key
  and the guard that route handlers call.

  Times are nanoseconds of \<^verbatim>\<open>steady_clock\<close>, windows are seconds, token counts are doubles (theory
  Double). \<open>None\<close> in a decision is the conversion of a non-finite double, which a capacity of zero
  leads to and which the language leaves undefined. The bucket table is an association list whose
  order stands for the container's iteration order; \<^verbatim>\<open>std::sort\<close> is a stable sort by age.

  Main results: the token count stays between zero and the capacity; the number of requests a key
  gets through in any period is at most the capacity plus the refill of the period; keys do not
  influence each other; the table stays bounded; the sweep for full buckets never finds one.
\<close>

section \<open>Quotas\<close>

datatype RateLimitKeyType = ByIp | ByUser | ByUserOrIp

record RateLimitQuota =
  q_name :: string
  q_capacity :: int
  q_window :: int
  q_key_type :: RateLimitKeyType

record RateLimitConfig =
  auth_register_per_minute_per_ip :: int
  auth_login_per_minute_per_ip :: int
  problems_public_per_minute_per_ip :: int
  submission_per_minute_per_user :: int
  admin_write_per_minute :: int
  bulk_import_per_hour :: int
  stats_ranking_per_minute_per_ip :: int
  admin_users_list_per_minute :: int
  admin_users_role_per_minute :: int
  admin_audit_logs_per_minute :: int
  admin_queue_per_minute :: int
  sample_run_per_minute_per_user :: int

definition auth_register_quota :: "RateLimitConfig \<Rightarrow> RateLimitQuota" where
  "auth_register_quota cfg = \<lparr>q_name = ''auth.register'', q_capacity = auth_register_per_minute_per_ip cfg,
     q_window = 60, q_key_type = ByIp\<rparr>"

definition auth_login_quota :: "RateLimitConfig \<Rightarrow> RateLimitQuota" where
  "auth_login_quota cfg = \<lparr>q_name = ''auth.login'', q_capacity = auth_login_per_minute_per_ip cfg,
     q_window = 60, q_key_type = ByIp\<rparr>"

definition problems_public_quota :: "RateLimitConfig \<Rightarrow> RateLimitQuota" where
  "problems_public_quota cfg = \<lparr>q_name = ''problems.read'', q_capacity = problems_public_per_minute_per_ip cfg,
     q_window = 60, q_key_type = ByIp\<rparr>"

definition submission_quota :: "RateLimitConfig \<Rightarrow> RateLimitQuota" where
  "submission_quota cfg = \<lparr>q_name = ''submission'', q_capacity = submission_per_minute_per_user cfg,
     q_window = 60, q_key_type = ByUser\<rparr>"

definition admin_write_quota :: "RateLimitConfig \<Rightarrow> RateLimitQuota" where
  "admin_write_quota cfg = \<lparr>q_name = ''admin.write'', q_capacity = admin_write_per_minute cfg,
     q_window = 60, q_key_type = ByUser\<rparr>"

definition bulk_import_quota :: "RateLimitConfig \<Rightarrow> RateLimitQuota" where
  "bulk_import_quota cfg = \<lparr>q_name = ''admin.bulk_import'', q_capacity = bulk_import_per_hour cfg,
     q_window = 3600, q_key_type = ByUser\<rparr>"

definition stats_ranking_quota :: "RateLimitConfig \<Rightarrow> RateLimitQuota" where
  "stats_ranking_quota cfg = \<lparr>q_name = ''stats.ranking'', q_capacity = stats_ranking_per_minute_per_ip cfg,
     q_window = 60, q_key_type = ByIp\<rparr>"

definition admin_users_list_quota :: "RateLimitConfig \<Rightarrow> RateLimitQuota" where
  "admin_users_list_quota cfg = \<lparr>q_name = ''admin.users.list'', q_capacity = admin_users_list_per_minute cfg,
     q_window = 60, q_key_type = ByUser\<rparr>"

definition admin_users_role_quota :: "RateLimitConfig \<Rightarrow> RateLimitQuota" where
  "admin_users_role_quota cfg = \<lparr>q_name = ''admin.users.role'', q_capacity = admin_users_role_per_minute cfg,
     q_window = 60, q_key_type = ByUser\<rparr>"

definition admin_audit_logs_quota :: "RateLimitConfig \<Rightarrow> RateLimitQuota" where
  "admin_audit_logs_quota cfg = \<lparr>q_name = ''admin.audit_logs'', q_capacity = admin_audit_logs_per_minute cfg,
     q_window = 60, q_key_type = ByUser\<rparr>"

definition admin_queue_quota :: "RateLimitConfig \<Rightarrow> RateLimitQuota" where
  "admin_queue_quota cfg = \<lparr>q_name = ''admin.queue'', q_capacity = admin_queue_per_minute cfg,
     q_window = 60, q_key_type = ByUser\<rparr>"

definition sample_run_quota :: "RateLimitConfig \<Rightarrow> RateLimitQuota" where
  "sample_run_quota cfg = \<lparr>q_name = ''sample.run'', q_capacity = sample_run_per_minute_per_user cfg,
     q_window = 60, q_key_type = ByUser\<rparr>"

section \<open>Buckets\<close>

record bucket =
  b_capacity :: int
  b_window :: int
  b_tokens :: rat
  b_last_refill :: int

record RateLimitDecision =
  d_allowed :: bool
  d_limit :: int
  d_remaining :: int
  d_retry_after :: "int option"
  d_reset_at :: "int option"

type_synonym limiter = "(string, bucket) umap"

abbreviation (input) kRateLimitMaxTrackedKeys :: int where
  "kRateLimitMaxTrackedKeys \<equiv> 100000"

abbreviation (input) ns_per_ms :: int where
  "ns_per_ms \<equiv> 1000000"

definition to_double :: "int \<Rightarrow> rat" where
  "to_double k = rnd (of_int k)"

definition empty_bucket :: bucket where
  "empty_bucket = \<lparr>b_capacity = 0, b_window = 0, b_tokens = 0, b_last_refill = 0\<rparr>"

text \<open>\<^verbatim>\<open>consume\<close>, in the order of the source: re-initialise, refill, spend.\<close>

definition reinit :: "RateLimitQuota \<Rightarrow> int \<Rightarrow> bucket \<Rightarrow> bucket" where
  "reinit q now b =
     (if b_capacity b \<noteq> q_capacity q \<or> b_window b \<noteq> q_window q then
        \<lparr>b_capacity = q_capacity q, b_window = q_window q, b_tokens = to_double (q_capacity q), b_last_refill = now\<rparr>
      else b)"

definition elapsed_ms :: "int \<Rightarrow> bucket \<Rightarrow> int" where
  "elapsed_ms now b = trunc_div (now - b_last_refill b) ns_per_ms"

definition refilled :: "int \<Rightarrow> int \<Rightarrow> int \<Rightarrow> rat \<Rightarrow> rat" where
  "refilled elapsed window_ms capacity tokens =
     (let add = rnd (rnd (to_double elapsed / to_double window_ms) * to_double capacity)
      in min (to_double capacity) (rnd (tokens + add)))"

definition refill :: "RateLimitQuota \<Rightarrow> int \<Rightarrow> bucket \<Rightarrow> bucket" where
  "refill q now b =
     (let el = elapsed_ms now b; window_ms = q_window q * 1000 in
      if el > 0 \<and> window_ms > 0 \<and> q_capacity q > 0 then
        b\<lparr>b_tokens := refilled el window_ms (q_capacity q) (b_tokens b), b_last_refill := now\<rparr>
      else b)"

definition spend :: "RateLimitQuota \<Rightarrow> int \<Rightarrow> bucket \<Rightarrow> RateLimitDecision \<times> bucket" where
  "spend q now b =
     (let ms_per_t = fdiv (to_double (q_window q * 1000)) (to_double (q_capacity q)) in
      if b_tokens b \<ge> 1 then
        let tokens = rnd (b_tokens b - 1);
            missing = rnd (to_double (q_capacity q) - tokens);
            reset_ms = map_option (\<lambda>m. trunc_int (rnd (rnd (missing * m) + 1 / 2))) ms_per_t
        in (\<lparr>d_allowed = True, d_limit = q_capacity q, d_remaining = trunc_int tokens,
             d_retry_after = Some 0, d_reset_at = map_option (\<lambda>r. now + r * ns_per_ms) reset_ms\<rparr>,
            b\<lparr>b_tokens := tokens\<rparr>)
      else
        let need_ms = map_option (\<lambda>m. rnd (rnd (1 - b_tokens b) * m)) ms_per_t;
            retry_s = map_option (\<lambda>n. max 1 (trunc_int (rnd (rnd (n / 1000) + rnd (999 / 1000))))) need_ms
        in (\<lparr>d_allowed = False, d_limit = q_capacity q, d_remaining = 0,
             d_retry_after = retry_s,
             d_reset_at = map_option (\<lambda>n. now + trunc_int (rnd (n + 1 / 2)) * ns_per_ms) need_ms\<rparr>, b))"

definition bucket_step :: "RateLimitQuota \<Rightarrow> int \<Rightarrow> bucket \<Rightarrow> RateLimitDecision \<times> bucket" where
  "bucket_step q now b = spend q now (refill q now (reinit q now b))"

definition prune_if_needed :: "limiter \<Rightarrow> limiter" where
  "prune_if_needed m =
     (if int (length m) < kRateLimitMaxTrackedKeys then m
      else
        let m1 = um_retain (\<lambda>(k, b). \<not> b_tokens b \<ge> to_double (b_capacity b)) m in
        if int (length m1) < kRateLimitMaxTrackedKeys then m1
        else
          let entries = sort_key (\<lambda>(k, b). b_last_refill b) m1;
              drop_n = max 1 (length entries div 10)
          in fold (\<lambda>(k, b). um_erase k) (take drop_n entries) m1)"

definition composite_key :: "RateLimitQuota \<Rightarrow> string \<Rightarrow> string" where
  "composite_key q key = q_name q @ ''|'' @ key"

definition consume :: "RateLimitQuota \<Rightarrow> string \<Rightarrow> int \<Rightarrow> limiter \<Rightarrow> RateLimitDecision \<times> limiter" where
  "consume q key now m =
     (let m1 = prune_if_needed m;
          b = (case um_find (composite_key q key) m1 of None \<Rightarrow> empty_bucket | Some b \<Rightarrow> b);
          (d, b') = bucket_step q now b
      in (d, um_put (composite_key q key) b' m1))"

definition peek :: "string \<Rightarrow> string \<Rightarrow> int \<Rightarrow> int \<Rightarrow> int \<Rightarrow> limiter \<Rightarrow> RateLimitDecision" where
  "peek quota_name key capacity window now m =
     (case um_find (quota_name @ ''|'' @ key) m of
        None \<Rightarrow> \<lparr>d_allowed = True, d_limit = capacity, d_remaining = capacity, d_retry_after = Some 0,
                 d_reset_at = Some now\<rparr>
      | Some b \<Rightarrow>
          let el = elapsed_ms now b; window_ms = window * 1000;
              tokens = (if el > 0 \<and> window_ms > 0 \<and> capacity > 0 then refilled el window_ms capacity (b_tokens b)
                        else b_tokens b)
          in \<lparr>d_allowed = tokens \<ge> 1, d_limit = capacity, d_remaining = trunc_int tokens, d_retry_after = Some 0,
              d_reset_at = Some now\<rparr>)"

definition limiter_size :: "limiter \<Rightarrow> nat" where
  "limiter_size m = length m"

definition limiter_clear :: "limiter \<Rightarrow> limiter" where
  "limiter_clear m = []"

section \<open>Client keys\<close>

definition trim_spaces :: "string \<Rightarrow> string" where
  "trim_spaces s = rev (dropWhile isspace (rev (dropWhile isspace s)))"

text \<open>\<^verbatim>\<open>kRateLimitTrustXff\<close> is true.\<close>

definition extract_client_ip :: "http_request \<Rightarrow> string" where
  "extract_client_ip req =
     (let xff = get_header_value req ''X-Forwarded-For'';
          first = trim_spaces (case split_at_char (CHR '','') xff of None \<Rightarrow> xff | Some (a, _) \<Rightarrow> a);
          real = get_header_value req ''X-Real-IP''
      in if xff \<noteq> [] \<and> first \<noteq> [] then first
         else if real \<noteq> [] then real
         else remote_addr req)"

definition b64_alpha :: string where
  "b64_alpha = ''ABCDEFGHIJKLMNOPQRSTUVWXYZabcdefghijklmnopqrstuvwxyz0123456789+/''"

fun index_from :: "nat \<Rightarrow> char \<Rightarrow> string \<Rightarrow> nat option" where
  "index_from i c [] = None"
| "index_from i c (x # xs) = (if x = c then Some i else index_from (Suc i) c xs)"

text \<open>The lookup table; \<open>None\<close> is \<^verbatim>\<open>kInvalid\<close>.\<close>

definition kTbl :: "char \<Rightarrow> nat option" where
  "kTbl c = index_from 0 c b64_alpha"

definition b64_normalize :: "string \<Rightarrow> string" where
  "b64_normalize s =
     (let n = map (\<lambda>c. if c = CHR ''-'' then CHR ''+'' else if c = CHR ''_'' then CHR ''/'' else c) s
      in n @ replicate ((4 - length n mod 4) mod 4) (CHR ''=''))"

text \<open>The decoding loop; \<open>None\<close> is the early return on an invalid character.\<close>

fun b64_loop :: "nat \<Rightarrow> u32 \<Rightarrow> string \<Rightarrow> string \<Rightarrow> string option" where
  "b64_loop bits acc [] out = Some out"
| "b64_loop bits acc (c # s) out =
     (if c = CHR ''='' then Some out
      else case kTbl c of
             None \<Rightarrow> None
           | Some v \<Rightarrow>
               let acc1 = push_bit 6 acc OR of_nat v; bits1 = bits + 6 in
               if bits1 \<ge> 8 then
                 let bits2 = bits1 - 8 in
                 b64_loop bits2 (acc1 AND (push_bit bits2 1 - 1)) s
                   (out @ [char_of (unat (drop_bit bits2 acc1 AND 0xFF))])
               else b64_loop bits1 acc1 s out)"

definition base64url_decode :: "string \<Rightarrow> string" where
  "base64url_decode s =
     (if s = [] then [] else case b64_loop 0 0 (b64_normalize s) [] of None \<Rightarrow> [] | Some out \<Rightarrow> out)"

text \<open>\<open>parse\<close> is \<^verbatim>\<open>nlohmann::json::parse\<close>.\<close>

definition try_extract_jwt_subject :: "(string \<Rightarrow> json outcome) \<Rightarrow> http_request \<Rightarrow> string" where
  "try_extract_jwt_subject parse req =
     (let h = dropWhile isspace (get_header_value req ''Authorization'') in
      if length h < 6 \<or> \<not> iequals_ascii (take 6 h) kBearerScheme then []
      else
        let token = takeWhile (\<lambda>c. \<not> (is_blank c \<or> c = CHR 0x0D \<or> c = CHR 0x0A)) (dropWhile isspace (drop 6 h)) in
        if token = [] then []
        else case split_at_char (CHR ''.'') token of
               None \<Rightarrow> []
             | Some (_, rest) \<Rightarrow>
                 (case split_at_char (CHR ''.'') rest of
                    None \<Rightarrow> []
                  | Some (p, _) \<Rightarrow>
                      if p = [] then []
                      else
                        let payload = base64url_decode p in
                        if payload = [] then []
                        else case parse payload of
                               Throws _ \<Rightarrow> []
                             | Returns j \<Rightarrow> (case get_member j ''sub'' of Some (JStr x) \<Rightarrow> x | _ \<Rightarrow> [])))"

definition resolve_client_key :: "(string \<Rightarrow> json outcome) \<Rightarrow> http_request \<Rightarrow> RateLimitQuota \<Rightarrow> string" where
  "resolve_client_key parse req q =
     (if q_key_type q = ByIp then ''ip:'' @ extract_client_ip req
      else
        let sub = try_extract_jwt_subject parse req in
        if sub \<noteq> [] then ''user:'' @ sub
        else ''ip:'' @ extract_client_ip req)"

section \<open>The guard\<close>

datatype guard_result = Passes | Limited ApiException | UndefinedConversion

definition consume_rate_limit ::
    "(string \<Rightarrow> json outcome) \<Rightarrow> int \<Rightarrow> http_response \<Rightarrow> http_request \<Rightarrow> limiter \<Rightarrow> RateLimitQuota
       \<Rightarrow> guard_result \<times> http_response \<times> limiter" where
  "consume_rate_limit parse now res req m q =
     (let key = resolve_client_key parse req q;
          (d, m1) = consume q key now m;
          res = set_header ''X-RateLimit-Limit'' (to_string (d_limit d)) res;
          res = set_header ''X-RateLimit-Remaining'' (to_string (if d_remaining d > 0 then d_remaining d else 0)) res
      in if d_allowed d then (Passes, res, m1)
         else case d_retry_after d of
                None \<Rightarrow> (UndefinedConversion, res, m1)
              | Some retry_s \<Rightarrow>
                  (Limited \<lparr>ae_status = 429, ae_code = RATE_LIMITED,
                            ae_message = ''rate limit exceeded for '' @ q_name q,
                            ae_details = JObj [(''quota'', JStr (q_name q)), (''limit'', JInt (d_limit d)),
                                               (''retry_after_s'', JInt retry_s)]\<rparr>,
                   set_header ''Retry-After'' (to_string retry_s) res, m1))"

section \<open>Bucket invariant\<close>

definition quota_ok :: "RateLimitQuota \<Rightarrow> bool" where
  "quota_ok q \<longleftrightarrow> 1 \<le> q_capacity q \<and> q_capacity q < 2 ^ 31 \<and> 1 \<le> q_window q \<and> q_window q < 2 ^ 40"

definition bucket_ok :: "RateLimitQuota \<Rightarrow> bucket \<Rightarrow> bool" where
  "bucket_ok q b \<longleftrightarrow> b_capacity b = q_capacity q \<and> b_window b = q_window q
     \<and> is_double (b_tokens b) \<and> 0 \<le> b_tokens b \<and> b_tokens b \<le> of_int (q_capacity q)"

lemma to_double_capacity: "quota_ok q \<Longrightarrow> to_double (q_capacity q) = of_int (q_capacity q)"
  unfolding to_double_def quota_ok_def by (rule rnd_of_int) simp

lemma to_double_window: "quota_ok q \<Longrightarrow> to_double (q_window q * 1000) = of_int (q_window q * 1000)"
  unfolding to_double_def quota_ok_def by (rule rnd_of_int) simp

text \<open>
  The most one millisecond can add to a bucket: capacity over window, four rounding errors, and the
  rounding of the sum.
\<close>

definition max_gain_per_ms :: "RateLimitQuota \<Rightarrow> rat" where
  "max_gain_per_ms q =
     of_int (q_capacity q) * ((1 + 1 / 2 ^ 53) ^ 4 / of_int (q_window q * 1000) + 1 / 2 ^ 53)"

lemma to_double_nonneg: "0 \<le> k \<Longrightarrow> 0 \<le> to_double k"
  by (simp add: to_double_def rnd_nonneg)

lemma rnd_upper_le: "0 \<le> x \<Longrightarrow> x \<le> y \<Longrightarrow> rnd x \<le> y * (1 + 1 / 2 ^ 53)"
  using rnd_upper [of x] by (meson mult_right_mono order_trans divide_nonneg_nonneg add_nonneg_nonneg zero_le_one zero_le_numeral zero_le_power)

definition refill_add :: "int \<Rightarrow> int \<Rightarrow> int \<Rightarrow> rat" where
  "refill_add el w cap = rnd (rnd (to_double el / to_double w) * to_double cap)"

lemma refilled_alt: "refilled el w cap t = min (to_double cap) (rnd (t + refill_add el w cap))"
  by (simp add: refilled_def refill_add_def Let_def)

lemma refill_add_bounds:
  assumes "quota_ok q" and "0 \<le> el"
  shows "0 \<le> refill_add el (q_window q * 1000) (q_capacity q)"
    and "refill_add el (q_window q * 1000) (q_capacity q)
         \<le> of_int el * of_int (q_capacity q) / of_int (q_window q * 1000) * (1 + 1 / 2 ^ 53) ^ 3"
proof -
  let ?u = "1 + 1 / 2 ^ 53 :: rat" and ?w = "of_int (q_window q * 1000) :: rat" and ?c = "of_int (q_capacity q) :: rat"
  have w: "0 < ?w" and c: "0 < ?c" using assms(1) by (simp_all add: quota_ok_def)
  have e: "0 \<le> to_double el" "to_double el \<le> of_int el * ?u"
    using assms(2) rnd_upper_le [of "of_int el" "of_int el"] by (simp_all add: to_double_def rnd_nonneg)
  have a: "0 \<le> to_double el / ?w" using e w by (intro divide_nonneg_pos)
  have a': "to_double el / ?w \<le> of_int el * ?u / ?w" by (rule divide_right_mono [OF e(2)]) (use w in linarith)
  have b: "0 \<le> rnd (to_double el / ?w) * ?c" by (rule mult_nonneg_nonneg [OF rnd_nonneg [OF a]]) (use c in linarith)
  have b': "rnd (to_double el / ?w) * ?c \<le> of_int el * ?u / ?w * ?u * ?c"
    by (rule mult_right_mono [OF rnd_upper_le [OF a a']]) (use c in linarith)
  have "rnd (rnd (to_double el / ?w) * ?c) \<le> of_int el * ?u / ?w * ?u * ?c * ?u"
    by (rule rnd_upper_le [OF b b'])
  also have "\<dots> = of_int el * ?c / ?w * ?u ^ 3" by (simp add: power3_eq_cube)
  finally show "refill_add el (q_window q * 1000) (q_capacity q) \<le> of_int el * ?c / ?w * ?u ^ 3"
    unfolding refill_add_def to_double_capacity [OF assms(1)] to_double_window [OF assms(1)] .
  show "0 \<le> refill_add el (q_window q * 1000) (q_capacity q)"
    unfolding refill_add_def to_double_capacity [OF assms(1)] to_double_window [OF assms(1)]
    by (rule rnd_nonneg [OF b])
qed

lemma refilled_bounds:
  assumes q: "quota_ok q" and el: "1 \<le> el" and t: "is_double t" "0 \<le> t" "t \<le> of_int (q_capacity q)"
  defines "r \<equiv> refilled el (q_window q * 1000) (q_capacity q) t"
  shows "t \<le> r" and "r \<le> of_int (q_capacity q)" and "is_double r" and "r \<le> t + max_gain_per_ms q * of_int el"
proof -
  let ?c = "of_int (q_capacity q) :: rat" and ?w = "of_int (q_window q * 1000) :: rat" and ?u = "1 / 2 ^ 53 :: rat"
  let ?a = "refill_add el (q_window q * 1000) (q_capacity q)"
  have a: "0 \<le> ?a" "?a \<le> of_int el * ?c / ?w * (1 + ?u) ^ 3"
    using refill_add_bounds [OF q, of el] el by simp_all
  have r: "r = min ?c (rnd (t + ?a))" by (simp only: r_def refilled_alt to_double_capacity [OF q])
  have "rnd t \<le> rnd (t + ?a)" by (rule rnd_mono) (use a(1) in simp)
  then show "t \<le> r" using t(1,3) by (simp add: r is_double_def)
  show "r \<le> ?c" by (simp add: r)
  have "is_double ?c" using to_double_capacity [OF q] by (simp add: to_double_def is_double_def)
  then show "is_double r" by (simp add: r min_def)
  have "r \<le> (t + ?a) * (1 + ?u)" using rnd_upper_le [of "t + ?a" "t + ?a"] t(2) a(1) by (simp add: r)
  also have "\<dots> = t + t * ?u + ?a * (1 + ?u)" by (simp add: algebra_simps)
  also have "\<dots> \<le> t + of_int el * ?c * ?u + of_int el * ?c / ?w * (1 + ?u) ^ 3 * (1 + ?u)"
  proof (intro add_mono mult_right_mono order_refl)
    have "?c * 1 \<le> ?c * of_int el" using el q by (intro mult_left_mono) (simp_all add: quota_ok_def)
    then show "t \<le> of_int el * ?c" using t(3) by (simp add: mult.commute)
  qed (use a(2) in simp_all)
  also have "\<dots> = t + max_gain_per_ms q * of_int el"
    unfolding max_gain_per_ms_def by (simp add: algebra_simps power4_eq_xxxx power3_eq_cube)
  finally show "r \<le> t + max_gain_per_ms q * of_int el" .
qed

lemma max_gain_nonneg: "quota_ok q \<Longrightarrow> 0 \<le> max_gain_per_ms q"
  by (simp add: max_gain_per_ms_def quota_ok_def)

text \<open>Refilling: the new count, and how far the clock of the bucket moved.\<close>

lemma elapsed_nonneg:
  "b_last_refill b \<le> now \<Longrightarrow> elapsed_ms now b = (now - b_last_refill b) div ns_per_ms"
  by (simp add: elapsed_ms_def trunc_div_nonneg)

lemma refill_bounds:
  assumes q: "quota_ok q" and b: "bucket_ok q b" and last: "b_last_refill b \<le> now"
  defines "b' \<equiv> refill q now b"
  shows "bucket_ok q b'" and "b_tokens b \<le> b_tokens b'" and "b_last_refill b \<le> b_last_refill b'" and "b_last_refill b' \<le> now"
    and "now - b_last_refill b' < ns_per_ms"
    and "b_tokens b' \<le> b_tokens b + max_gain_per_ms q * (of_int (b_last_refill b' - b_last_refill b) / 1000000)"
proof -
  have g: "0 < q_window q * 1000" "0 < q_capacity q" using q by (simp_all add: quota_ok_def)
  let ?el = "elapsed_ms now b"
  have el: "?el = (now - b_last_refill b) div ns_per_ms" by (rule elapsed_nonneg [OF last])
  have all: "bucket_ok q b' \<and> b_tokens b \<le> b_tokens b' \<and> b_last_refill b \<le> b_last_refill b' \<and> b_last_refill b' \<le> now
      \<and> now - b_last_refill b' < ns_per_ms
      \<and> b_tokens b' \<le> b_tokens b + max_gain_per_ms q * (of_int (b_last_refill b' - b_last_refill b) / 1000000)"
  proof (cases "0 < ?el")
    case True
    then have b': "b' = b\<lparr>b_tokens := refilled ?el (q_window q * 1000) (q_capacity q) (b_tokens b), b_last_refill := now\<rparr>"
      using g by (simp add: b'_def refill_def Let_def)
    have t: "1 \<le> ?el" "is_double (b_tokens b)" "0 \<le> b_tokens b" "b_tokens b \<le> of_int (q_capacity q)"
      using True b by (simp_all add: bucket_ok_def)
    note rb = refilled_bounds [OF q t]
    have "?el * ns_per_ms \<le> now - b_last_refill b" unfolding el
      by (metis div_mult_mod_eq le_add_same_cancel1 pos_mod_sign zero_less_numeral)
    then have "(of_int (?el * ns_per_ms) :: rat) \<le> of_int (now - b_last_refill b)" by (simp only: of_int_le_iff)
    then have "(of_int ?el :: rat) \<le> of_int (now - b_last_refill b) / 1000000" by simp
    then have "max_gain_per_ms q * of_int ?el \<le> max_gain_per_ms q * (of_int (now - b_last_refill b) / 1000000)"
      by (rule mult_left_mono) (rule max_gain_nonneg [OF q])
    then show ?thesis
      using rb b last b' by (auto simp: bucket_ok_def)
  next
    case False
    then have "b' = b" by (simp add: b'_def refill_def Let_def)
    moreover have "now - b_last_refill b < ns_per_ms" using False el last by (simp add: pos_imp_zdiv_pos_iff)
    ultimately show ?thesis
      using b last by simp
  qed
  then show "bucket_ok q b'" "b_tokens b \<le> b_tokens b'" "b_last_refill b \<le> b_last_refill b'" "b_last_refill b' \<le> now"
    "now - b_last_refill b' < ns_per_ms"
    "b_tokens b' \<le> b_tokens b + max_gain_per_ms q * (of_int (b_last_refill b' - b_last_refill b) / 1000000)"
    by blast+
qed

lemma spend_bounds:
  assumes q: "quota_ok q" and b: "bucket_ok q b" and s: "spend q now b = (d, b')"
  shows "bucket_ok q b'" and "b_last_refill b' = b_last_refill b"
    and "b_tokens b' = b_tokens b - (if d_allowed d then 1 else 0)"
    and "d_allowed d \<longleftrightarrow> 1 \<le> b_tokens b" and "d_limit d = q_capacity q"
    and "d_remaining d = (if d_allowed d then \<lfloor>b_tokens b'\<rfloor> else 0)"
    and "b_tokens b' < of_int (q_capacity q)"
proof -
  have c: "(of_int (q_capacity q) :: rat) < 2 ^ 52" "(1 :: rat) \<le> of_int (q_capacity q)"
  proof -
    have "q_capacity q < 2 ^ 52" using q by (simp add: quota_ok_def)
    then have "(of_int (q_capacity q) :: rat) < of_int (2 ^ 52)" by (simp only: of_int_less_iff)
    then show "(of_int (q_capacity q) :: rat) < 2 ^ 52" by simp
  qed (use q in \<open>simp add: quota_ok_def\<close>)
  have sub: "rnd (b_tokens b - 1) = b_tokens b - 1" if "1 \<le> b_tokens b"
    using that b c by (intro rnd_minus_1) (auto simp: bucket_ok_def)
  then have dbl: "is_double (b_tokens b - 1)" if "1 \<le> b_tokens b" using that by (simp add: is_double_def)
  show "bucket_ok q b'" "b_last_refill b' = b_last_refill b"
    "b_tokens b' = b_tokens b - (if d_allowed d then 1 else 0)"
    "d_allowed d \<longleftrightarrow> 1 \<le> b_tokens b" "d_limit d = q_capacity q"
    "d_remaining d = (if d_allowed d then \<lfloor>b_tokens b'\<rfloor> else 0)"
    "b_tokens b' < of_int (q_capacity q)"
    using s b c sub dbl
    by (auto simp: spend_def Let_def bucket_ok_def trunc_int_def split: if_splits)
qed

section \<open>Requests against the limiter\<close>

definition spent :: "RateLimitDecision \<Rightarrow> rat" where
  "spent d = (if d_allowed d then 1 else 0)"

lemma reinit_ok: "bucket_ok q b \<Longrightarrow> reinit q now b = b"
  by (simp add: reinit_def bucket_ok_def)

lemma bucket_step_ok:
  assumes q: "quota_ok q" and b: "bucket_ok q b" and last: "b_last_refill b \<le> now"
    and s: "bucket_step q now b = (d, b')"
  shows "bucket_ok q b'" and "b_last_refill b \<le> b_last_refill b'" and "b_last_refill b' \<le> now"
    and "now - b_last_refill b' < ns_per_ms"
    and "spent d + b_tokens b' \<le> b_tokens b + max_gain_per_ms q * (of_int (b_last_refill b' - b_last_refill b) / 1000000)"
    and "spent d + b_tokens b' \<le> of_int (q_capacity q)" and "b_tokens b' < of_int (q_capacity q)"
    and "1 \<le> b_tokens b \<Longrightarrow> d_allowed d"
proof -
  note r = refill_bounds [OF q b last]
  have sp: "spend q now (refill q now b) = (d, b')" using s by (simp add: bucket_step_def reinit_ok [OF b])
  note s' = spend_bounds [OF q r(1) sp]
  show "bucket_ok q b'" by (rule s'(1))
  show "b_last_refill b \<le> b_last_refill b'" "b_last_refill b' \<le> now" "now - b_last_refill b' < ns_per_ms"
    using r s'(2) by simp_all
  have t: "spent d + b_tokens b' = b_tokens (refill q now b)" using s'(3) by (simp add: spent_def)
  show "spent d + b_tokens b' \<le> b_tokens b + max_gain_per_ms q * (of_int (b_last_refill b' - b_last_refill b) / 1000000)"
    unfolding t s'(2) by (rule r(6))
  show "spent d + b_tokens b' \<le> of_int (q_capacity q)" unfolding t using r(1) by (simp add: bucket_ok_def)
  show "b_tokens b' < of_int (q_capacity q)" by (rule s'(7))
  show "1 \<le> b_tokens b \<Longrightarrow> d_allowed d" using s'(4) r(2) by simp
qed

definition fresh_bucket :: "RateLimitQuota \<Rightarrow> int \<Rightarrow> bucket" where
  "fresh_bucket q now = \<lparr>b_capacity = q_capacity q, b_window = q_window q, b_tokens = of_int (q_capacity q), b_last_refill = now\<rparr>"

lemma fresh_bucket_ok: "quota_ok q \<Longrightarrow> bucket_ok q (fresh_bucket q now)"
  using to_double_capacity [of q]
  by (auto simp: bucket_ok_def fresh_bucket_def quota_ok_def to_double_def is_double_def)

text \<open>A bucket that is missing, belongs to another quota, or is in order.\<close>

definition bucket_fits :: "RateLimitQuota \<Rightarrow> int \<Rightarrow> bucket \<Rightarrow> bool" where
  "bucket_fits q t b \<longleftrightarrow> (b_capacity b = q_capacity q \<and> b_window b = q_window q \<longrightarrow> bucket_ok q b \<and> b_last_refill b \<le> t)"

lemma bucket_step_fits:
  assumes q: "quota_ok q" and b: "bucket_fits q now b" and s: "bucket_step q now b = (d, b')"
  obtains b0 where "bucket_ok q b0" and "b_last_refill b0 \<le> now" and "bucket_step q now b0 = (d, b')"
proof (cases "b_capacity b = q_capacity q \<and> b_window b = q_window q")
  case True
  then show ?thesis using that [of b] b s by (simp add: bucket_fits_def)
next
  case False
  have "reinit q now b = fresh_bucket q now"
    using False to_double_capacity [OF q] by (auto simp: reinit_def fresh_bucket_def)
  then have "bucket_step q now (fresh_bucket q now) = (d, b')"
    using s reinit_ok [OF fresh_bucket_ok [OF q]] by (simp add: bucket_step_def)
  then show ?thesis using that [of "fresh_bucket q now"] fresh_bucket_ok [OF q] by (simp add: fresh_bucket_def)
qed

type_synonym request = "int \<times> RateLimitQuota \<times> string"

fun hits :: "string \<Rightarrow> limiter \<Rightarrow> request list \<Rightarrow> nat" where
  "hits c m [] = 0"
| "hits c m ((now, q, k) # es) =
     (let (d, m') = consume q k now m
      in (if composite_key q k = c \<and> d_allowed d then 1 else 0) + hits c m' es)"

text \<open>The table never reaches the size at which pruning starts.\<close>

fun unpruned :: "limiter \<Rightarrow> request list \<Rightarrow> bool" where
  "unpruned m [] = True"
| "unpruned m ((now, q, k) # es) =
     (int (length m) < kRateLimitMaxTrackedKeys \<and> unpruned (snd (consume q k now m)) es)"

definition bucket_at :: "string \<Rightarrow> limiter \<Rightarrow> bucket" where
  "bucket_at c m = (case um_find c m of None \<Rightarrow> empty_bucket | Some b \<Rightarrow> b)"

lemma consume_unpruned:
  assumes "int (length m) < kRateLimitMaxTrackedKeys" and "bucket_step q now (bucket_at (composite_key q k) m) = (d, b')"
  shows "consume q k now m = (d, um_put (composite_key q k) b' m)"
  using assms by (simp add: consume_def prune_if_needed_def bucket_at_def Let_def)

lemma consume_other:
  assumes "um_ok m" and "int (length m) < kRateLimitMaxTrackedKeys" and "composite_key q k \<noteq> c"
  shows "um_find c (snd (consume q k now m)) = um_find c m" and "um_ok (snd (consume q k now m))"
proof -
  obtain d b' where "bucket_step q now (bucket_at (composite_key q k) m) = (d, b')" by fastforce
  note u = consume_unpruned [OF assms(2) this]
  show "um_find c (snd (consume q k now m)) = um_find c m" "um_ok (snd (consume q k now m))"
    using assms by (simp_all add: u um.find_put um.ok_put)
qed

lemma hits_Cons_other:
  "composite_key q k \<noteq> c \<Longrightarrow> hits c m ((now, q, k) # es) = hits c (snd (consume q k now m)) es"
  by (simp split: prod.splits)

text \<open>A period of requests: in order of time, within \<open>t..t1\<close>, the ones for \<open>c\<close> under quota \<open>q\<close>.\<close>

fun in_period :: "string \<Rightarrow> RateLimitQuota \<Rightarrow> int \<Rightarrow> int \<Rightarrow> request list \<Rightarrow> bool" where
  "in_period c q t t1 [] = True"
| "in_period c q t t1 ((now, q', k) # es) =
     (t \<le> now \<and> now \<le> t1 \<and> (composite_key q' k = c \<longrightarrow> q' = q) \<and> in_period c q now t1 es)"

lemma gain_mono:
  assumes "quota_ok q" and "a \<le> b"
  shows "max_gain_per_ms q * (of_int a / 1000000) \<le> max_gain_per_ms q * (of_int b / 1000000)"
  by (rule mult_left_mono) (use assms max_gain_nonneg in \<open>auto intro: divide_right_mono\<close>)

lemma hits_from_bucket:
  assumes q: "quota_ok q"
  shows "um_ok m \<Longrightarrow> um_find c m = Some b \<Longrightarrow> bucket_ok q b \<Longrightarrow> b_last_refill b \<le> t \<Longrightarrow> t \<le> t1 \<Longrightarrow>
    in_period c q t t1 es \<Longrightarrow> unpruned m es \<Longrightarrow>
    of_nat (hits c m es) \<le> b_tokens b + max_gain_per_ms q * (of_int (t1 - b_last_refill b) / 1000000)"
proof (induction es arbitrary: m b t)
  case Nil
  then have "b_last_refill b \<le> t1" by simp
  then have "0 \<le> max_gain_per_ms q * (of_int (t1 - b_last_refill b) / 1000000)"
    using max_gain_nonneg [OF q] by (intro mult_nonneg_nonneg) simp_all
  then show ?case using Nil by (simp add: bucket_ok_def)
next
  case (Cons e es)
  obtain now q' k where e: "e = (now, q', k)" by (cases e) auto
  have pr: "t \<le> now" "now \<le> t1" "in_period c q now t1 es" "composite_key q' k = c \<longrightarrow> q' = q"
    and u: "int (length m) < kRateLimitMaxTrackedKeys" "unpruned (snd (consume q' k now m)) es"
    using Cons.prems by (simp_all add: e)
  show ?case
  proof (cases "composite_key q' k = c")
    case False
    note o = consume_other [OF Cons.prems(1) u(1) False]
    show ?thesis
      unfolding e hits_Cons_other [OF False]
      by (rule Cons.IH [OF o(2) _ Cons.prems(3) _ pr(2,3) u(2)]) (use o Cons.prems pr in simp_all)
  next
    case True
    then have q': "q' = q" using pr(4) by simp
    obtain d b' where s: "bucket_step q now b = (d, b')" by fastforce
    have c: "consume q' k now m = (d, um_put c b' m)"
      using consume_unpruned [OF u(1), of q now k] s True Cons.prems(2) by (simp add: bucket_at_def q')
    have now: "b_last_refill b \<le> now" using Cons.prems pr by simp
    note bs = bucket_step_ok [OF q Cons.prems(3) now s]
    have "of_nat (hits c (um_put c b' m) es)
        \<le> b_tokens b' + max_gain_per_ms q * (of_int (t1 - b_last_refill b') / 1000000)"
      by (rule Cons.IH [OF _ _ bs(1,3) pr(2,3)])
         (use Cons.prems(1) u(2) c in \<open>simp_all add: um.ok_put um.find_put\<close>)
    moreover have "(of_nat (hits c m (e # es)) :: rat) = spent d + of_nat (hits c (um_put c b' m) es)"
      using c True by (simp add: e spent_def)
    moreover have "max_gain_per_ms q * (of_int (b_last_refill b' - b_last_refill b) / 1000000)
        + max_gain_per_ms q * (of_int (t1 - b_last_refill b') / 1000000)
        = max_gain_per_ms q * (of_int (t1 - b_last_refill b) / 1000000)"
      by (simp flip: distrib_left add_divide_distrib)
    ultimately show ?thesis using bs(5) by linarith
  qed
qed

lemma hits_bound:
  assumes q: "quota_ok q"
  shows "um_ok m \<Longrightarrow> bucket_fits q t (bucket_at c m) \<Longrightarrow> t0 \<le> t \<Longrightarrow> t \<le> t1 \<Longrightarrow> in_period c q t t1 es \<Longrightarrow> unpruned m es \<Longrightarrow>
    of_nat (hits c m es) \<le> of_int (q_capacity q) + max_gain_per_ms q * (of_int (t1 - t0 + ns_per_ms) / 1000000)"
proof (induction es arbitrary: m t)
  case Nil
  have "0 \<le> max_gain_per_ms q * (of_int (t1 - t0 + ns_per_ms) / 1000000)"
    using max_gain_nonneg [OF q] Nil by (intro mult_nonneg_nonneg divide_nonneg_pos) simp_all
  then show ?case using q by (simp add: quota_ok_def)
next
  case (Cons e es)
  obtain now q' k where e: "e = (now, q', k)" by (cases e) auto
  have pr: "t \<le> now" "now \<le> t1" "in_period c q now t1 es" "composite_key q' k = c \<longrightarrow> q' = q"
    and u: "int (length m) < kRateLimitMaxTrackedKeys" "unpruned (snd (consume q' k now m)) es"
    using Cons.prems by (simp_all add: e)
  have fits: "bucket_fits q now (bucket_at c m)" using Cons.prems(2) pr(1) by (auto simp: bucket_fits_def)
  show ?case
  proof (cases "composite_key q' k = c")
    case False
    note o = consume_other [OF Cons.prems(1) u(1) False]
    show ?thesis
      unfolding e hits_Cons_other [OF False]
      by (rule Cons.IH [OF o(2) _ _ pr(2,3) u(2)]) (use o fits Cons.prems pr in \<open>simp_all add: bucket_at_def\<close>)
  next
    case True
    then have q': "q' = q" using pr(4) by simp
    obtain d b' where s: "bucket_step q now (bucket_at c m) = (d, b')" by fastforce
    have c: "consume q' k now m = (d, um_put c b' m)"
      using consume_unpruned [OF u(1), of q now k] s True by (simp add: q')
    obtain b0 where b0: "bucket_ok q b0" "b_last_refill b0 \<le> now" "bucket_step q now b0 = (d, b')"
      using bucket_step_fits [OF q fits s] .
    note bs = bucket_step_ok [OF q b0]
    have "of_nat (hits c (um_put c b' m) es)
        \<le> b_tokens b' + max_gain_per_ms q * (of_int (t1 - b_last_refill b') / 1000000)"
      by (rule hits_from_bucket [OF q _ _ bs(1,3) pr(2,3)])
         (use Cons.prems(1) u(2) c in \<open>simp_all add: um.ok_put um.find_put\<close>)
    moreover have "(of_nat (hits c m (e # es)) :: rat) = spent d + of_nat (hits c (um_put c b' m) es)"
      using c True by (simp add: e spent_def)
    moreover have "max_gain_per_ms q * (of_int (t1 - b_last_refill b') / 1000000)
        \<le> max_gain_per_ms q * (of_int (t1 - t0 + ns_per_ms) / 1000000)"
      by (rule gain_mono [OF q]) (use bs(4) pr(1) Cons.prems(3) in simp)
    ultimately show ?thesis using bs(6) by linarith
  qed
qed

section \<open>The table\<close>

fun run_requests :: "request list \<Rightarrow> limiter \<Rightarrow> limiter" where
  "run_requests [] m = m"
| "run_requests ((now, q, k) # es) m = run_requests es (snd (consume q k now m))"

definition bucket_sane :: "bucket \<Rightarrow> bool" where
  "bucket_sane b \<longleftrightarrow> (\<exists>q. quota_ok q \<and> bucket_ok q b) \<and> b_tokens b < of_int (b_capacity b)"

definition table_ok :: "limiter \<Rightarrow> bool" where
  "table_ok m \<longleftrightarrow> um_ok m \<and> int (length m) \<le> kRateLimitMaxTrackedKeys \<and> (\<forall>(k, b) \<in> set m. bucket_sane b)"

lemma refill_ok_any:
  assumes "quota_ok q" and "bucket_ok q b"
  shows "bucket_ok q (refill q now b)"
proof (cases "b_last_refill b \<le> now")
  case True
  then show ?thesis using refill_bounds(1) [OF assms] by simp
next
  case False
  then have "elapsed_ms now b \<le> 0" by (simp add: elapsed_ms_def trunc_div_def)
  then show ?thesis using assms(2) by (simp add: refill_def Let_def)
qed

lemma bucket_before_spend:
  assumes "quota_ok q" and "bucket_sane b \<or> b = empty_bucket"
  shows "bucket_ok q (refill q now (reinit q now b))"
proof -
  have "bucket_ok q (reinit q now b)"
  proof (cases "b_capacity b = q_capacity q \<and> b_window b = q_window q")
    case True
    then have "b \<noteq> empty_bucket" using assms(1) by (auto simp: empty_bucket_def quota_ok_def)
    then have "bucket_ok q b" using assms(2) True by (auto simp: bucket_sane_def bucket_ok_def)
    then show ?thesis by (simp add: reinit_ok)
  next
    case False
    then have "reinit q now b = fresh_bucket q now"
      using to_double_capacity [OF assms(1)] by (auto simp: reinit_def fresh_bucket_def)
    then show ?thesis using fresh_bucket_ok [OF assms(1)] by simp
  qed
  then show ?thesis by (rule refill_ok_any [OF assms(1)])
qed

lemma bucket_step_sane:
  assumes "quota_ok q" and "bucket_sane b \<or> b = empty_bucket" and "bucket_step q now b = (d, b')"
  shows "bucket_sane b'"
proof -
  have "bucket_ok q (refill q now (reinit q now b))" by (rule bucket_before_spend [OF assms(1,2)])
  then have "bucket_ok q b'" "b_tokens b' < of_int (q_capacity q)"
    using spend_bounds(1,7) [OF assms(1)] assms(3) by (auto simp: bucket_step_def)
  then show ?thesis using assms(1) by (auto simp: bucket_sane_def bucket_ok_def)
qed

lemma fold_erase:
  "um_ok m \<Longrightarrow> um_ok (fold (\<lambda>(k, b). um_erase k) es m) \<and> set (fold (\<lambda>(k, b). um_erase k) es m) \<subseteq> set m
     \<and> length (fold (\<lambda>(k, b). um_erase k) es m) \<le> length m"
proof (induction es arbitrary: m)
  case (Cons e es)
  obtain k b where e: "e = (k, b)" by (cases e)
  have m: "um_ok (um_erase k m)" "length (um_erase k m) \<le> length m" "set (um_erase k m) \<subseteq> set m"
    using um.ok_erase [OF Cons.prems] um.size_erase [OF Cons.prems, of k]
    by (auto simp: um_erase_def AList.delete_eq split: if_splits)
  show ?case using Cons.IH [OF m(1)] m(2,3) by (auto simp: e)
qed simp

lemma prune_shape:
  assumes "um_ok m"
  shows "um_ok (prune_if_needed m)" and "set (prune_if_needed m) \<subseteq> set m"
    and "int (length m) \<le> kRateLimitMaxTrackedKeys \<Longrightarrow> int (length (prune_if_needed m)) < kRateLimitMaxTrackedKeys"
proof -
  define m1 where "m1 = um_retain (\<lambda>(k, b). \<not> b_tokens b \<ge> to_double (b_capacity b)) m"
  define es where "es = sort_key (\<lambda>(k, b). b_last_refill b) m1"
  define ds where "ds = take (max 1 (length es div 10)) es"
  have m1: "um_ok m1" "set m1 \<subseteq> set m" "length m1 \<le> length m"
    using um_ok_retain [OF assms] length_retain_le by (auto simp: m1_def um_retain_def)
  have p: "prune_if_needed m = (if int (length m) < kRateLimitMaxTrackedKeys then m
      else if int (length m1) < kRateLimitMaxTrackedKeys then m1 else fold (\<lambda>(k, b). um_erase k) ds m1)"
    unfolding prune_if_needed_def m1_def [symmetric] Let_def es_def [symmetric] ds_def [symmetric] ..
  show "um_ok (prune_if_needed m)" "set (prune_if_needed m) \<subseteq> set m"
    unfolding p using assms m1 fold_erase [OF m1(1), of ds] by auto
  show "int (length (prune_if_needed m)) < kRateLimitMaxTrackedKeys" if "int (length m) \<le> kRateLimitMaxTrackedKeys"
  proof (cases "int (length m1) < kRateLimitMaxTrackedKeys")
    case False
    then have "m1 \<noteq> []" by auto
    then have "es \<noteq> []" unfolding es_def by (metis length_0_conv length_sort)
    then have "ds \<noteq> []" by (simp add: ds_def)
    then obtain k b ds' where ds: "ds = (k, b) # ds'" by (metis list.exhaust prod.exhaust)
    have "(k, b) \<in> set es" using ds unfolding ds_def by (metis in_set_takeD list.set_intros(1))
    then have "um_find k m1 \<noteq> None" by (auto simp: es_def um_find_None_iff intro: rev_image_eqI)
    then have "length (um_erase k m1) < length m1"
      using m1(1) \<open>m1 \<noteq> []\<close> by (simp add: um.size_erase)
    moreover have "length (fold (\<lambda>(k, b). um_erase k) ds m1) \<le> length (um_erase k m1)"
      using fold_erase [OF um.ok_erase [OF m1(1)], of ds' k] by (simp add: ds)
    ultimately show ?thesis using that m1(3) p False by (auto split: if_splits)
  qed (use p that in auto)
qed

lemma consume_table_ok:
  assumes m: "table_ok m" and q: "quota_ok q"
  shows "table_ok (snd (consume q k now m))"
proof -
  let ?p = "prune_if_needed m"
  have p: "um_ok ?p" "set ?p \<subseteq> set m" "int (length ?p) < kRateLimitMaxTrackedKeys"
    using m prune_shape [of m] by (auto simp: table_ok_def)
  obtain d b' where s: "bucket_step q now (bucket_at (composite_key q k) ?p) = (d, b')" by fastforce
  have c: "snd (consume q k now m) = um_put (composite_key q k) b' ?p"
    using s by (simp add: consume_def bucket_at_def Let_def)
  have "bucket_sane (bucket_at (composite_key q k) ?p) \<or> bucket_at (composite_key q k) ?p = empty_bucket"
    using m p(2) by (force simp: table_ok_def bucket_at_def dest: um_find_in_set split: option.splits)
  then have "bucket_sane b'" by (rule bucket_step_sane [OF q _ s])
  moreover have "x = b' \<or> (k', x) \<in> set m" if "(k', x) \<in> set (um_put (composite_key q k) b' ?p)" for k' x
    using that p um_find_Some_iff [OF um.ok_put [OF p(1)]] um_find_Some_iff [OF p(1)] um.find_put [OF p(1)]
    by (metis option.inject subsetD)
  then have "\<forall>(k', x) \<in> set (um_put (composite_key q k) b' ?p). x = b' \<or> (k', x) \<in> set m" by blast
  ultimately have "\<forall>(k', x) \<in> set (um_put (composite_key q k) b' ?p). bucket_sane x"
    using m by (fastforce simp: table_ok_def)
  then show ?thesis
    using p um.size_put_le [OF p(1), of "composite_key q k" b'] by (simp add: table_ok_def c um.ok_put)
qed

lemma run_requests_table_ok:
  "table_ok m \<Longrightarrow> (\<forall>(now, q, k) \<in> set es. quota_ok q) \<Longrightarrow> table_ok (run_requests es m)"
  by (induction es m rule: run_requests.induct) (auto intro: consume_table_ok)

lemma unpruned_short: "um_ok m \<Longrightarrow> int (length m + length es) \<le> kRateLimitMaxTrackedKeys \<Longrightarrow> unpruned m es"
proof (induction m es rule: unpruned.induct)
  case (2 m now q k es)
  obtain d b' where s: "bucket_step q now (bucket_at (composite_key q k) m) = (d, b')" by fastforce
  have l: "int (length m) < kRateLimitMaxTrackedKeys" using 2 by simp
  have "snd (consume q k now m) = um_put (composite_key q k) b' m" using consume_unpruned [OF l s] by simp
  then show ?case
    using 2 l um.size_put_le [OF 2(2), of "composite_key q k" b'] by (simp add: um.ok_put)
qed simp

section \<open>Properties\<close>

text \<open>
  C5. The rate limit holds: over any period, whatever other keys do, a key gets at most its capacity
  plus the refill of the period through (the exact refill rate capacity over window, inflated by the
  rounding of double arithmetic, about one part in \<open>2^51\<close>, and one millisecond for the truncation of
  times). This covers every sequence of requests in the order of the steady clock that does not fill
  the table up to its pruning size.
\<close>

theorem rate_bound:
  assumes "quota_ok q" and "um_ok m" and "bucket_fits q t0 (bucket_at c m)"
    and "t0 \<le> t1" and "in_period c q t0 t1 es" and "unpruned m es"
  shows "of_nat (hits c m es)
    \<le> of_int (q_capacity q) + max_gain_per_ms q * (of_int (t1 - t0 + ns_per_ms) / 1000000)"
  using hits_bound [OF assms(1,2,3) order_refl assms(4,5,6)] .

definition demo_quota :: RateLimitQuota where
  "demo_quota = \<lparr>q_name = ''auth.login'', q_capacity = 2, q_window = 60, q_key_type = ByIp\<rparr>"

definition demo_requests :: "request list" where
  "demo_requests = [(0, demo_quota, ''ip:a''), (0, demo_quota, ''ip:b''), (0, demo_quota, ''ip:a''),
     (0, demo_quota, ''ip:a''), (30000000000, demo_quota, ''ip:a'')]"

theorem rate_bound_witness:
  "hits (composite_key demo_quota ''ip:a'') [] demo_requests = 3
   \<and> of_nat (hits (composite_key demo_quota ''ip:a'') [] demo_requests)
     \<le> of_int (q_capacity demo_quota) + max_gain_per_ms demo_quota * (of_int (30000000000 - 0 + ns_per_ms) / 1000000)"
proof
  show "hits (composite_key demo_quota ''ip:a'') [] demo_requests = 3" by code_simp
  show "of_nat (hits (composite_key demo_quota ''ip:a'') [] demo_requests)
     \<le> of_int (q_capacity demo_quota) + max_gain_per_ms demo_quota * (of_int (30000000000 - 0 + ns_per_ms) / 1000000)"
  proof (rule rate_bound)
    show "quota_ok demo_quota" by (simp add: quota_ok_def demo_quota_def)
    show "bucket_fits demo_quota 0 (bucket_at (composite_key demo_quota ''ip:a'') [])"
      by (simp add: bucket_fits_def bucket_at_def empty_bucket_def demo_quota_def)
    show "in_period (composite_key demo_quota ''ip:a'') demo_quota 0 30000000000 demo_requests" by code_simp
    show "unpruned [] demo_requests" by (rule unpruned_short) (simp_all add: demo_requests_def)
  qed simp_all
qed

text \<open>
  The table of buckets, after any requests with quotas of positive capacity and window: it has at
  most 100000 entries, one per key; and every stored token count lies between zero and strictly below
  the capacity. In particular no stored bucket ever looks full, so the first pruning pass, which drops
  the buckets whose stored count equals the capacity, never drops one.
\<close>

theorem limiter_table:
  assumes "\<forall>(now, q, k) \<in> set es. quota_ok q"
  shows "let m = run_requests es [] in
    int (length m) \<le> kRateLimitMaxTrackedKeys \<and> distinct (map fst m)
    \<and> (\<forall>(k, b) \<in> set m. 0 \<le> b_tokens b \<and> b_tokens b < of_int (b_capacity b))
    \<and> um_retain (\<lambda>(k, b). \<not> b_tokens b \<ge> to_double (b_capacity b)) m = m"
proof -
  have "table_ok []" by (simp add: table_ok_def)
  then have t: "table_ok (run_requests es [])" using assms by (rule run_requests_table_ok)
  have b: "0 \<le> b_tokens b \<and> b_tokens b < of_int (b_capacity b) \<and> b_tokens b < to_double (b_capacity b)"
    if "bucket_sane b" for b
  proof -
    from that obtain q where q: "quota_ok q" "bucket_ok q b" by (auto simp: bucket_sane_def)
    then have "to_double (b_capacity b) = of_int (b_capacity b)"
      using to_double_capacity [of q] by (simp add: bucket_ok_def)
    then show ?thesis using that q by (simp add: bucket_sane_def bucket_ok_def)
  qed
  have "um_retain (\<lambda>(k, b). \<not> b_tokens b \<ge> to_double (b_capacity b)) (run_requests es []) = run_requests es []"
    using t b by (fastforce simp: um_retain_def table_ok_def filter_id_conv not_le)
  then show ?thesis using t b by (fastforce simp: table_ok_def um_ok_def Let_def)
qed

theorem limiter_table_witness:
  "int (length (run_requests demo_requests [])) \<le> kRateLimitMaxTrackedKeys"
proof -
  have "\<forall>(now, q, k) \<in> set demo_requests. quota_ok q"
    by (simp add: demo_requests_def quota_ok_def demo_quota_def)
  then show ?thesis using limiter_table [of demo_requests] by (simp add: Let_def)
qed

definition q3599 :: RateLimitQuota where
  "q3599 = \<lparr>q_name = ''admin.bulk_import'', q_capacity = 3599, q_window = 3600, q_key_type = ByUser\<rparr>"

definition drained :: bucket where
  "drained = \<lparr>b_capacity = 3599, b_window = 3600, b_tokens = 0, b_last_refill = 0\<rparr>"

lemma drained_ok: "quota_ok q3599" "bucket_ok q3599 drained"
  by (simp_all add: quota_ok_def bucket_ok_def q3599_def drained_def is_double_def)

lemma q3599_arith:
  "fdiv (to_double 3600000) (to_double 3599) = Some (2199634265070075 / 2199023255552)"
  "rnd (rnd 1 * (2199634265070075 / 2199023255552)) = (2199634265070075 / 2199023255552)" "rnd ((2199634265070075 / 2199023255552) / 1000) = (2252425487431757 / 2251799813685248)" "rnd (999 / 1000) = (8998192055486251 / 9007199254740992)"
  "trunc_int (rnd ((2252425487431757 / 2251799813685248) + (8998192055486251 / 9007199254740992))) = 1"
  by code_simp+

lemma q3599_retry:
  "map_option (\<lambda>m. max 1 (trunc_int (rnd (rnd (rnd (rnd 1 * m) / 1000) + rnd (999 / 1000)))))
     (fdiv (to_double 3600000) (to_double 3599)) = Some 1"
  unfolding q3599_arith option.map by simp

lemma drained_first: "spend q3599 0 drained = (d, b) \<Longrightarrow> \<not> d_allowed d \<and> d_retry_after d = Some 1 \<and> b = drained"
  using q3599_retry by (auto simp: spend_def Let_def q3599_def drained_def option.map_comp comp_def)

text \<open>
  The advertised waiting time can be too short: with the bulk-import quota at 3599 per hour, a
  drained bucket refuses a request with Retry-After 1, and a request exactly one second later is
  refused again.
\<close>

theorem retry_after_too_early:
  "\<exists>d d' b b'. bucket_step q3599 0 drained = (d, b) \<and> bucket_step q3599 ns_per_s b = (d', b')
     \<and> \<not> d_allowed d \<and> d_retry_after d = Some 1 \<and> \<not> d_allowed d'"
proof -
  obtain d b where s: "spend q3599 0 drained = (d, b)" by fastforce
  have "refill q3599 0 drained = drained" by (simp add: refill_def elapsed_ms_def trunc_div_def drained_def)
  then have 1: "bucket_step q3599 0 drained = (d, b)" using s reinit_ok [OF drained_ok(2)] by (simp add: bucket_step_def)
  obtain d' b' where s': "spend q3599 ns_per_s (refill q3599 ns_per_s drained) = (d', b')" by fastforce
  have 2: "bucket_step q3599 ns_per_s drained = (d', b')" using s' reinit_ok [OF drained_ok(2)] by (simp add: bucket_step_def)
  have "b_tokens (refill q3599 ns_per_s drained) < 1" by code_simp
  then have "\<not> d_allowed d'"
    using spend_bounds(4) [OF drained_ok(1) refill_ok_any [OF drained_ok] s'] by simp
  then show ?thesis using 1 2 drained_first [OF s] by blast
qed

lemma spend_retry:
  assumes "quota_ok q" and "spend q now b = (d, b')" and "\<not> d_allowed d"
  shows "\<exists>r. d_retry_after d = Some r \<and> 1 \<le> r"
  using assms to_double_capacity [OF assms(1)]
  by (auto simp: spend_def Let_def fdiv_def quota_ok_def split: if_splits)

lemma consume_decision:
  assumes "quota_ok q" and "table_ok m" and "consume q k now m = (d, m')"
  shows "d_limit d = q_capacity q" and "0 \<le> d_remaining d" and "\<not> d_allowed d \<Longrightarrow> d_remaining d = 0 \<and> (\<exists>r. d_retry_after d = Some r \<and> 1 \<le> r)"
proof -
  let ?b = "bucket_at (composite_key q k) (prune_if_needed m)"
  obtain b' where s: "bucket_step q now ?b = (d, b')"
    using assms(3) by (auto simp: consume_def bucket_at_def Let_def split: prod.splits)
  have "bucket_sane ?b \<or> ?b = empty_bucket"
    using assms(2) prune_shape [of m] by (force simp: table_ok_def bucket_at_def dest: um_find_in_set split: option.splits)
  then have "bucket_ok q (refill q now (reinit q now ?b))" by (rule bucket_before_spend [OF assms(1)])
  note sp = spend_bounds [OF assms(1) this s [unfolded bucket_step_def]]
  show "d_limit d = q_capacity q" "0 \<le> d_remaining d"
    using sp(1,5,6) by (auto simp: bucket_ok_def)
  show "\<not> d_allowed d \<Longrightarrow> d_remaining d = 0 \<and> (\<exists>r. d_retry_after d = Some r \<and> 1 \<le> r)"
    using sp(6) spend_retry [OF assms(1) s [unfolded bucket_step_def]] by simp
qed

text \<open>
  The guard answers as documented: it always stamps the limit and the remaining count on the
  response (never a negative count); it lets the request through or refuses it with a 429
  RATE_LIMITED that repeats quota and limit and carries a Retry-After of at least one second, the same
  in the header and in the body. With a positive capacity no undefined conversion occurs.
\<close>

theorem rate_limit_guard:
  assumes "quota_ok q" and "table_ok m" and "consume_rate_limit parse now res req m q = (r, res', m')"
  shows "\<exists>n \<ge> 0. case r of
      Passes \<Rightarrow> rsp_headers res' = rsp_headers res
        @ [(''X-RateLimit-Limit'', to_string (q_capacity q)), (''X-RateLimit-Remaining'', to_string n)]
    | Limited e \<Rightarrow> n = 0 \<and> ae_status e = 429 \<and> ae_code e = RATE_LIMITED
        \<and> (\<exists>w \<ge> 1. get_member (ae_details e) ''retry_after_s'' = Some (JInt w)
            \<and> get_member (ae_details e) ''limit'' = Some (JInt (q_capacity q))
            \<and> rsp_headers res' = rsp_headers res
                @ [(''X-RateLimit-Limit'', to_string (q_capacity q)), (''X-RateLimit-Remaining'', to_string n),
                   (''Retry-After'', to_string w)])
    | UndefinedConversion \<Rightarrow> False"
proof -
  obtain d m1 where c: "consume q (resolve_client_key parse req q) now m = (d, m1)" by fastforce
  note cd = consume_decision [OF assms(1,2) c]
  have rem: "(if d_remaining d > 0 then d_remaining d else 0) = d_remaining d" using cd(2) by simp
  show ?thesis
  proof (cases "d_allowed d")
    case True
    then show ?thesis
      using assms(3) c cd(1,2) rem by (intro exI [of _ "d_remaining d"]) (auto simp: consume_rate_limit_def Let_def set_header_def)
  next
    case False
    then obtain w where w: "d_retry_after d = Some w" "1 \<le> w" "d_remaining d = 0" using cd(3) by blast
    then show ?thesis
      using assms(3) c cd(1) False
      by (intro exI [of _ 0]) (auto simp: consume_rate_limit_def Let_def set_header_def get_member_def)
  qed
qed

definition demo_request :: http_request where
  "demo_request = \<lparr>req_body = [], remote_addr = ''10.0.0.1'', req_header = (\<lambda>_. None)\<rparr>"

theorem rate_limit_guard_witness:
  "fst (consume_rate_limit (\<lambda>_. Throws []) 0 \<lparr>rsp_status = 200, rsp_content = None, rsp_headers = []\<rparr> demo_request [] demo_quota)
   \<noteq> UndefinedConversion"
proof -
  have q: "quota_ok demo_quota" "table_ok []" by (simp_all add: quota_ok_def demo_quota_def table_ok_def)
  obtain r res' m' where "consume_rate_limit (\<lambda>_. Throws []) 0 \<lparr>rsp_status = 200, rsp_content = None, rsp_headers = []\<rparr>
      demo_request [] demo_quota = (r, res', m')" by (rule prod_cases3)
  then show ?thesis using rate_limit_guard [OF q] by fastforce
qed

text \<open>
  The two readers of the Authorization header differ: there is a header in which the
  authentication guard finds no bearer token, but from which the rate limiter reads a user id.
\<close>

theorem subject_reader_looser:
  "\<exists>parse req. extract_bearer_token (get_header_value req ''Authorization'') = []
     \<and> try_extract_jwt_subject parse req = ''7''"
proof (intro exI conjI)
  let ?req = "\<lparr>req_body = [], remote_addr = [], req_header = (\<lambda>_. Some ''Bearera.e30.c'')\<rparr>"
  let ?parse = "\<lambda>s. if s = ''{}'' then Returns (JObj [(''sub'', JStr ''7'')]) else Throws []"
  show "extract_bearer_token (get_header_value ?req ''Authorization'') = []" by code_simp
  show "try_extract_jwt_subject ?parse ?req = ''7''" by code_simp
qed

end
