(* ===== verification/Login_Tracker.thy ===== *)
theory Login_Tracker
  imports Containers
begin

text \<open>
  The class \<^verbatim>\<open>LoginFailureTracker\<close> of \<^verbatim>\<open>src/routes/auth_routes.h\<close>: failed logins per user name, the
  audit cadence and the lockout.

  Times are \<^verbatim>\<open>steady_clock\<close> nanoseconds, and \<open>0\<close> is the \<^verbatim>\<open>time_point{}\<close> the source tests for. The
  methods run under the mutex of the class, so each is one step; the clock they read is an argument.
  The failure count is an unbounded integer (the \<^verbatim>\<open>int\<close> of the source cannot overflow before two
  billion recorded failures).

  Main results: how many guesses against one name a history of gates and recordings lets through in a period (the theory
  Login_Lockout applies it to the login handler), that an
  active lockout is neither extended nor lifted by further failures, the exact remaining time, the
  bound on the table, and what its eviction does to the counters.
\<close>

abbreviation (input) second :: int where
  "second \<equiv> 1000000000"

section \<open>Configuration, entries, outcomes\<close>

record LoginLockoutConfig =
  lo_enabled :: bool
  lo_threshold :: int
  lo_window_seconds :: int
  lo_lockout_duration_seconds :: int

record tracker_entry =
  te_count :: int
  te_first_failure_at :: int
  te_locked_until :: int

definition fresh_entry :: tracker_entry where
  "fresh_entry = \<lparr>te_count = 0, te_first_failure_at = 0, te_locked_until = 0\<rparr>"

record login_tracker =
  lt_cfg :: LoginLockoutConfig
  lt_max_entries :: nat
  lt_failures :: "(string, tracker_entry) umap"

record tracker_outcome =
  oc_count :: int
  oc_should_audit :: bool
  oc_locked :: bool
  oc_was_already_locked :: bool
  oc_locked_for_seconds :: int
  oc_remaining_seconds :: int

definition no_outcome :: tracker_outcome where
  "no_outcome = \<lparr>oc_count = 0, oc_should_audit = False, oc_locked = False, oc_was_already_locked = False,
                 oc_locked_for_seconds = 0, oc_remaining_seconds = 0\<rparr>"

definition kAuditLogEvery :: int where
  "kAuditLogEvery = 5"

section \<open>Operations\<close>

definition new_tracker :: "LoginLockoutConfig \<Rightarrow> nat \<Rightarrow> login_tracker" where
  "new_tracker cfg n =
     \<lparr>lt_cfg = cfg\<lparr>lo_threshold := (if lo_threshold cfg < 1 then 1 else lo_threshold cfg),
                   lo_window_seconds := (if lo_window_seconds cfg < 1 then 1 else lo_window_seconds cfg),
                   lo_lockout_duration_seconds :=
                     (if lo_lockout_duration_seconds cfg < 1 then 1 else lo_lockout_duration_seconds cfg)\<rparr>,
      lt_max_entries = n, lt_failures = []\<rparr>"

text \<open>Rounded up to whole seconds.\<close>

definition seconds_until :: "int \<Rightarrow> int \<Rightarrow> int" where
  "seconds_until a b =
     (if a \<le> b then 0
      else let diff = a - b; secs = trunc_div diff second
           in if secs * second < diff then secs + 1 else secs)"

text \<open>The scan for the entry to drop when the table is full.\<close>

definition better_victim :: "int \<Rightarrow> string \<times> tracker_entry \<Rightarrow> string \<times> tracker_entry \<Rightarrow> string \<times> tracker_entry" where
  "better_victim now victim it =
     (let victim_locked = te_locked_until (snd victim) > now;
          it_locked = te_locked_until (snd it) > now
      in if \<not> victim_locked \<and> it_locked then victim
         else if victim_locked \<and> \<not> it_locked then it
         else if te_count (snd it) > te_count (snd victim) then it
         else victim)"

definition find_victim :: "int \<Rightarrow> (string, tracker_entry) umap \<Rightarrow> (string \<times> tracker_entry) option" where
  "find_victim now m = (case m of [] \<Rightarrow> None | p # ps \<Rightarrow> Some (foldl (better_victim now) p ps))"

definition enforce_cap :: "int \<Rightarrow> nat \<Rightarrow> (string, tracker_entry) umap \<Rightarrow> (string, tracker_entry) umap" where
  "enforce_cap now n m =
     (if n > 0 \<and> length m \<ge> n then
        case find_victim now m of None \<Rightarrow> m | Some v \<Rightarrow> um_erase (fst v) m
      else m)"

text \<open>The part of \<^verbatim>\<open>record_failure\<close> that works on the entry of the name.\<close>

definition fail_entry :: "LoginLockoutConfig \<Rightarrow> int \<Rightarrow> tracker_entry \<Rightarrow> tracker_outcome \<times> tracker_entry" where
  "fail_entry cfg now e =
     (if lo_enabled cfg \<and> te_locked_until e > now then
        (no_outcome\<lparr>oc_count := te_count e, oc_was_already_locked := True,
                    oc_locked_for_seconds := lo_lockout_duration_seconds cfg,
                    oc_remaining_seconds := seconds_until (te_locked_until e) now\<rparr>, e)
      else
        let fresh = (te_first_failure_at e = 0);
            e1 = (if fresh \<or> now - te_first_failure_at e \<ge> lo_window_seconds cfg * second
                  then \<lparr>te_count = 1, te_first_failure_at = now, te_locked_until = 0\<rparr>
                  else e\<lparr>te_count := te_count e + 1\<rparr>);
            out = no_outcome\<lparr>oc_count := te_count e1,
                             oc_should_audit := te_count e1 > 0 \<and> te_count e1 mod kAuditLogEvery = 0\<rparr>
        in if lo_enabled cfg \<and> te_count e1 \<ge> lo_threshold cfg \<and> te_locked_until e1 \<le> now then
             (out\<lparr>oc_locked := True, oc_locked_for_seconds := lo_lockout_duration_seconds cfg,
                  oc_remaining_seconds := lo_lockout_duration_seconds cfg\<rparr>,
              e1\<lparr>te_locked_until := now + lo_lockout_duration_seconds cfg * second\<rparr>)
           else (out, e1))"

definition record_failure :: "int \<Rightarrow> string \<Rightarrow> login_tracker \<Rightarrow> tracker_outcome \<times> login_tracker" where
  "record_failure now u t =
     (if u = [] then (no_outcome, t)
      else let m = enforce_cap now (lt_max_entries t) (lt_failures t);
               e = (case um_find u m of None \<Rightarrow> fresh_entry | Some e \<Rightarrow> e);
               (out, e') = fail_entry (lt_cfg t) now e
           in (out, t\<lparr>lt_failures := um_put u e' m\<rparr>))"

definition reset_failures :: "string \<Rightarrow> login_tracker \<Rightarrow> login_tracker" where
  "reset_failures u t = (if u = [] then t else t\<lparr>lt_failures := um_erase u (lt_failures t)\<rparr>)"

definition failure_count :: "string \<Rightarrow> login_tracker \<Rightarrow> int" where
  "failure_count u t = (case um_find u (lt_failures t) of None \<Rightarrow> 0 | Some e \<Rightarrow> te_count e)"

text \<open>The answer and the remaining seconds.\<close>

definition is_locked :: "int \<Rightarrow> string \<Rightarrow> login_tracker \<Rightarrow> bool \<times> int" where
  "is_locked now u t =
     (if u = [] then (False, 0)
      else case um_find u (lt_failures t) of
             None \<Rightarrow> (False, 0)
           | Some e \<Rightarrow> if te_locked_until e > now then (True, seconds_until (te_locked_until e) now) else (False, 0))"

definition remaining_lockout_seconds :: "int \<Rightarrow> string \<Rightarrow> login_tracker \<Rightarrow> int" where
  "remaining_lockout_seconds now u t = snd (is_locked now u t)"

definition clear_failures :: "login_tracker \<Rightarrow> login_tracker" where
  "clear_failures t = t\<lparr>lt_failures := []\<rparr>"

definition tracked_names :: "login_tracker \<Rightarrow> nat" where
  "tracked_names t = length (lt_failures t)"

section \<open>Histories of login attempts\<close>

text \<open>
  What one run of the login handler asks of the tracker: \<open>Wrong g v t1 t2\<close> looks at the gate of the name
  \<open>g\<close> as typed at time \<open>t1\<close> and, if it is open, records a failure for the name \<open>v\<close> as stored at time \<open>t2\<close>;
  \<open>Right g v t1\<close> clears the failures of \<open>v\<close> instead. The theory Login_Lockout shows that the handler does
  this. \<open>guesses\<close> counts the wrong passwords for \<open>u\<close> that passed the gate and were recorded in the period
  from \<open>a\<close> to \<open>b\<close>.
\<close>

datatype login_event = Wrong string string int int | Right string string int

fun gate_name :: "login_event \<Rightarrow> string" where
  "gate_name (Wrong g v t1 t2) = g"
| "gate_name (Right g v t) = g"

fun event_name :: "login_event \<Rightarrow> string" where
  "event_name (Wrong g v t1 t2) = v"
| "event_name (Right g v t) = v"

fun event_time :: "login_event \<Rightarrow> int" where
  "event_time (Wrong g v t1 t2) = t2"
| "event_time (Right g v t) = t"

definition gate_closed :: "int \<Rightarrow> string \<Rightarrow> login_tracker \<Rightarrow> bool" where
  "gate_closed now u t \<longleftrightarrow> lo_enabled (lt_cfg t) \<and> fst (is_locked now u t)"

fun login_step :: "login_event \<Rightarrow> login_tracker \<Rightarrow> login_tracker" where
  "login_step (Wrong g v t1 t2) t = (if gate_closed t1 g t then t else snd (record_failure t2 v t))"
| "login_step (Right g v t1) t = (if gate_closed t1 g t then t else reset_failures v t)"

fun guess_of :: "int \<Rightarrow> int \<Rightarrow> string \<Rightarrow> login_event \<Rightarrow> login_tracker \<Rightarrow> nat" where
  "guess_of a b u (Wrong g v t1 t2) t =
     (if v = u \<and> \<not> gate_closed t1 g t \<and> a \<le> t2 \<and> t2 < b then 1 else 0)"
| "guess_of a b u (Right g v t1) t = 0"

fun guesses :: "int \<Rightarrow> int \<Rightarrow> string \<Rightarrow> login_event list \<Rightarrow> login_tracker \<Rightarrow> nat" where
  "guesses a b u [] t = 0"
| "guesses a b u (x # xs) t = guess_of a b u x t + guesses a b u xs (login_step x t)"

text \<open>The gate is read before the failure is recorded, and recordings are in order of time.\<close>

fun in_order :: "int \<Rightarrow> login_event list \<Rightarrow> bool" where
  "in_order now [] = True"
| "in_order now (Wrong g v t1 t2 # xs) = (now \<le> t1 \<and> t1 \<le> t2 \<and> in_order t2 xs)"
| "in_order now (Right g v t1 # xs) = (now \<le> t1 \<and> in_order t1 xs)"

section \<open>Lemmas on one entry\<close>

lemma seconds_until_bounds:
  assumes "b < a"
  shows "1 \<le> seconds_until a b" "a \<le> b + seconds_until a b * second"
    "b + (seconds_until a b - 1) * second < a"
proof -
  have m: "(a - b) = (a - b) div second * second + (a - b) mod second"
    by (rule div_mult_mod_eq [symmetric])
  have r: "0 \<le> (a - b) mod second" "(a - b) mod second < second" by simp_all
  have s: "seconds_until a b =
      (if (a - b) div second * second < a - b then (a - b) div second + 1 else (a - b) div second)"
    using assms by (simp add: seconds_until_def Let_def trunc_div_nonneg)
  show "a \<le> b + seconds_until a b * second" "b + (seconds_until a b - 1) * second < a"
    unfolding s using m r by (auto simp: algebra_simps)
  then show "1 \<le> seconds_until a b" using assms by linarith
qed

definition sane :: "LoginLockoutConfig \<Rightarrow> bool" where
  "sane cfg \<longleftrightarrow> 1 \<le> lo_threshold cfg \<and> 1 \<le> lo_window_seconds cfg \<and> 1 \<le> lo_lockout_duration_seconds cfg"

lemma new_tracker_sane [simp]: "sane (lt_cfg (new_tracker cfg n))"
  by (simp add: sane_def new_tracker_def)

text \<open>What is left of the allowance of a period, by the state of the entry.\<close>

definition allowance :: "LoginLockoutConfig \<Rightarrow> int \<Rightarrow> int \<Rightarrow> tracker_entry \<Rightarrow> int" where
  "allowance cfg a b e =
     (if te_locked_until e \<ge> b then 0
      else if te_first_failure_at e \<ge> a then max 1 (lo_threshold cfg - te_count e)
      else if te_count e = 0 then lo_threshold cfg
      else lo_threshold cfg + max 0 (lo_threshold cfg - 1 - te_count e))"

lemma allowance_nonneg: "sane cfg \<Longrightarrow> 0 \<le> allowance cfg a b e"
  by (auto simp: allowance_def sane_def)

text \<open>A count of zero only before the first failure.\<close>

definition entry_ok :: "tracker_entry \<Rightarrow> bool" where
  "entry_ok e \<longleftrightarrow> 0 \<le> te_count e \<and> (te_count e = 0 \<longrightarrow> te_first_failure_at e = 0)"

definition guess_limit :: "LoginLockoutConfig \<Rightarrow> int" where
  "guess_limit cfg = max (lo_threshold cfg) (2 * lo_threshold cfg - 2)"

lemma allowance_le: "sane cfg \<Longrightarrow> entry_ok e \<Longrightarrow> allowance cfg a b e \<le> guess_limit cfg"
  by (auto simp: allowance_def sane_def entry_ok_def guess_limit_def)

lemma fail_entry_ok: "entry_ok e \<Longrightarrow> entry_ok (snd (fail_entry cfg now e))"
  by (auto simp: fail_entry_def Let_def entry_ok_def)

lemma fail_uses_allowance:
  assumes "sane cfg" "lo_enabled cfg" "0 < a" "entry_ok e"
    and "b - a \<le> lo_window_seconds cfg * second" "b - a \<le> lo_lockout_duration_seconds cfg * second"
    and "te_locked_until e \<le> now" "a \<le> now" "now < b"
  shows "allowance cfg a b (snd (fail_entry cfg now e)) + 1 \<le> allowance cfg a b e"
  using assms by (auto simp: allowance_def fail_entry_def Let_def sane_def entry_ok_def)

section \<open>Lemmas on the table\<close>

lemma foldl_victim_in: "foldl (better_victim now) p ps \<in> insert p (set ps)"
proof (induction ps arbitrary: p)
  case (Cons q ps)
  have "better_victim now p q \<in> {p, q}" by (auto simp: better_victim_def Let_def)
  with Cons [of "better_victim now p q"] show ?case by auto
qed simp

lemma find_victim_in: "find_victim now m = Some v \<Longrightarrow> v \<in> set m"
  using foldl_victim_in by (auto simp: find_victim_def split: list.splits)

lemma enforce_cap_ok: "um_ok m \<Longrightarrow> um_ok (enforce_cap now n m)"
  by (simp add: enforce_cap_def um.ok_erase split: option.splits)

lemma enforce_cap_room: "length m < n \<or> n = 0 \<Longrightarrow> enforce_cap now n m = m"
  by (auto simp: enforce_cap_def)

lemma length_enforce_cap:
  assumes "um_ok m" "length m \<le> n" "0 < n"
  shows "length (enforce_cap now n m) < n"
proof (cases "length m \<ge> n")
  case True
  then obtain v where v: "find_victim now m = Some v"
    using assms by (cases m) (auto simp: find_victim_def)
  then have "um_find (fst v) m \<noteq> None"
    using find_victim_in [OF v] by (simp add: um_find_None_iff)
  then show ?thesis
    using v assms True by (simp add: enforce_cap_def um.size_erase)
qed (use assms in \<open>simp add: enforce_cap_def\<close>)

definition tracker_ok :: "login_tracker \<Rightarrow> bool" where
  "tracker_ok t \<longleftrightarrow> um_ok (lt_failures t) \<and> (\<forall>p \<in> set (lt_failures t). entry_ok (snd p))
     \<and> (0 < lt_max_entries t \<longrightarrow> length (lt_failures t) \<le> lt_max_entries t)"

lemma tracker_okD:
  "tracker_ok t \<Longrightarrow> um_ok (lt_failures t)"
  "tracker_ok t \<Longrightarrow> um_find u (lt_failures t) = Some e \<Longrightarrow> entry_ok e"
  by (force simp: tracker_ok_def dest: um_find_in_set)+

lemma new_tracker_ok [simp]: "tracker_ok (new_tracker cfg n)"
  by (simp add: tracker_ok_def new_tracker_def)

lemma record_failure_cfg [simp]:
  "lt_cfg (snd (record_failure now u t)) = lt_cfg t"
  "lt_max_entries (snd (record_failure now u t)) = lt_max_entries t"
  by (simp_all add: record_failure_def Let_def split: prod.splits)

lemma reset_failures_cfg [simp]:
  "lt_cfg (reset_failures u t) = lt_cfg t" "lt_max_entries (reset_failures u t) = lt_max_entries t"
  by (simp_all add: reset_failures_def)

lemma set_um_erase: "set (um_erase k m) \<subseteq> set m"
  by (auto simp: um_erase_def AList.delete_eq)

lemma set_um_put: "set (um_put k v m) \<subseteq> insert (k, v) (set m)"
  unfolding um_put_def by (induction m) auto

lemma set_enforce_cap: "set (enforce_cap now n m) \<subseteq> set m"
  by (simp add: enforce_cap_def set_um_erase split: option.splits)

definition entry_of :: "string \<Rightarrow> (string, tracker_entry) umap \<Rightarrow> tracker_entry" where
  "entry_of u m = (case um_find u m of None \<Rightarrow> fresh_entry | Some e \<Rightarrow> e)"

lemma record_failure_table:
  "u \<noteq> [] \<Longrightarrow> lt_failures (snd (record_failure now u t)) =
     (let m = enforce_cap now (lt_max_entries t) (lt_failures t)
      in um_put u (snd (fail_entry (lt_cfg t) now (entry_of u m))) m)"
  by (simp add: record_failure_def entry_of_def Let_def split: prod.splits)

lemma record_failure_nil [simp]: "record_failure now [] t = (no_outcome, t)"
  by (simp add: record_failure_def)

lemma entry_of_ok: "\<forall>p \<in> set m. entry_ok (snd p) \<Longrightarrow> entry_ok (entry_of u m)"
  by (force simp: entry_of_def fresh_entry_def entry_ok_def split: option.splits dest: um_find_in_set)

lemma record_failure_ok:
  assumes "tracker_ok t"
  shows "tracker_ok (snd (record_failure now u t))"
proof (cases "u = []")
  case False
  let ?m = "enforce_cap now (lt_max_entries t) (lt_failures t)"
  let ?e = "snd (fail_entry (lt_cfg t) now (entry_of u ?m))"
  have ok: "um_ok ?m" and good: "\<forall>p \<in> set ?m. entry_ok (snd p)"
    using assms set_enforce_cap [of now "lt_max_entries t" "lt_failures t"]
    by (auto simp: tracker_ok_def enforce_cap_ok)
  have "\<forall>p \<in> set (um_put u ?e ?m). entry_ok (snd p)"
    using set_um_put [of u ?e ?m] good fail_entry_ok [OF entry_of_ok [OF good]] by auto
  moreover have "0 < lt_max_entries t \<longrightarrow> length (um_put u ?e ?m) \<le> lt_max_entries t"
    using assms ok length_enforce_cap [of "lt_failures t" "lt_max_entries t" now] um.size_put_le [OF ok, of u ?e]
    by (auto simp: tracker_ok_def)
  ultimately show ?thesis
    using ok False by (simp add: tracker_ok_def record_failure_table Let_def um.ok_put)
qed (use assms in \<open>simp add: record_failure_def\<close>)

lemma reset_failures_ok:
  assumes "tracker_ok t"
  shows "tracker_ok (reset_failures u t)"
  using assms set_um_erase [of u "lt_failures t"]
  by (auto simp: tracker_ok_def reset_failures_def um.ok_erase um.size_erase)

lemma login_step_ok: "tracker_ok t \<Longrightarrow> tracker_ok (login_step x t)"
  by (cases x) (simp_all add: record_failure_ok reset_failures_ok)

lemma login_step_cfg [simp]:
  "lt_cfg (login_step x t) = lt_cfg t" "lt_max_entries (login_step x t) = lt_max_entries t"
  by (cases x; simp)+

text \<open>Below the cap, only the operations on a name touch its entry.\<close>

definition roomy :: "login_tracker \<Rightarrow> bool" where
  "roomy t \<longleftrightarrow> lt_max_entries t = 0 \<or> length (lt_failures t) < lt_max_entries t"

lemma step_other:
  assumes "tracker_ok t" "roomy t" "event_name x \<noteq> u"
  shows "um_find u (lt_failures (login_step x t)) = um_find u (lt_failures t)"
proof (cases x)
  case (Wrong g v t1 t2)
  then show ?thesis
    using assms by (cases "v = []") (auto simp: record_failure_table enforce_cap_room roomy_def Let_def
        um.find_put tracker_okD record_failure_nil)
next
  case (Right g v t1)
  then show ?thesis using assms by (auto simp: reset_failures_def um.find_erase tracker_okD)
qed

lemma step_wrong_same:
  assumes "tracker_ok t" "roomy t" "u \<noteq> []"
  shows "entry_of u (lt_failures (login_step (Wrong u u t1 t2) t)) =
     (if gate_closed t1 u t then entry_of u (lt_failures t)
      else snd (fail_entry (lt_cfg t) t2 (entry_of u (lt_failures t))))"
  using assms
  by (auto simp: record_failure_table enforce_cap_room roomy_def Let_def um.find_put tracker_okD entry_of_def
      split: option.splits)

lemma gate_closed_iff:
  "gate_closed now u t \<longleftrightarrow> lo_enabled (lt_cfg t) \<and> u \<noteq> [] \<and> um_find u (lt_failures t) \<noteq> None
     \<and> te_locked_until (entry_of u (lt_failures t)) > now"
  by (auto simp: gate_closed_def is_locked_def entry_of_def split: option.splits)

text \<open>The table holds only names that were tried.\<close>

lemma keys_put: "fst ` set (um_put k v m) \<subseteq> insert k (fst ` set m)"
  using set_um_put [of k v m] by auto

lemma step_keys:
  "fst ` set (lt_failures (login_step x t)) \<subseteq> insert (event_name x) (fst ` set (lt_failures t))"
proof (cases x)
  case (Wrong g v t1 t2)
  show ?thesis
  proof (cases "v = []")
    case False
    let ?m = "enforce_cap t2 (lt_max_entries t) (lt_failures t)"
    have "fst ` set ?m \<subseteq> fst ` set (lt_failures t)" using set_enforce_cap by (rule image_mono)
    moreover have "fst ` set (um_put v e ?m) \<subseteq> insert v (fst ` set ?m)" for e by (rule keys_put)
    ultimately show ?thesis using Wrong False by (simp add: record_failure_table Let_def) blast
  qed (use Wrong in auto)
next
  case (Right g v t1)
  have "fst ` set (um_erase v (lt_failures t)) \<subseteq> fst ` set (lt_failures t)" using set_um_erase by (rule image_mono)
  then show ?thesis using Right by (auto simp: reset_failures_def)
qed

lemma few_names_roomy:
  assumes "tracker_ok t" "finite S" "fst ` set (lt_failures t) \<subseteq> S" "lt_max_entries t = 0 \<or> card S < lt_max_entries t"
  shows "roomy t"
proof -
  have "length (lt_failures t) = card (fst ` set (lt_failures t))"
    using assms(1) distinct_card [of "map fst (lt_failures t)"] by (simp add: tracker_ok_def um_ok_def)
  moreover have "card (fst ` set (lt_failures t)) \<le> card S" using assms(2,3) by (rule card_mono)
  ultimately show ?thesis using assms(4) by (auto simp: roomy_def)
qed

section \<open>Counting guesses\<close>

lemma guesses_step:
  assumes t: "tracker_ok t" "roomy t" and cfg: "sane (lt_cfg t)" "lo_enabled (lt_cfg t)" and u: "u \<noteq> []"
    and x: "\<forall>g t1. x \<noteq> Right g u t1" "\<And>g v t1 t2. x = Wrong g v t1 t2 \<Longrightarrow> t1 \<le> t2 \<and> a \<le> t2 \<and> 0 \<le> t1" and a: "0 < a"
    and same: "event_name x = u \<Longrightarrow> gate_name x = u"
    and w: "b - a \<le> lo_window_seconds (lt_cfg t) * second" "b - a \<le> lo_lockout_duration_seconds (lt_cfg t) * second"
  shows "int (guess_of a b u x t) + (if b \<le> event_time x then 0 else
           allowance (lt_cfg t) a b (entry_of u (lt_failures (login_step x t))))
         \<le> allowance (lt_cfg t) a b (entry_of u (lt_failures t))"
proof (cases "event_name x = u")
  case False
  then show ?thesis
    using step_other [OF t False] allowance_nonneg [OF cfg(1)]
    by (cases x) (auto simp: entry_of_def)
next
  case True
  then obtain t1 t2 where xe: "x = Wrong u u t1 t2" using x(1) same by (cases x) auto
  note o = x(2) [OF xe]
  show ?thesis
  proof (cases "gate_closed t1 u t \<or> b \<le> t2")
    case True
    then show ?thesis
      using xe allowance_nonneg [OF cfg(1)] step_wrong_same [OF t u, of t1 t2] by auto
  next
    case False
    then have "te_locked_until (entry_of u (lt_failures t)) \<le> t2"
      using cfg u o by (auto simp: gate_closed_iff entry_of_def fresh_entry_def split: option.splits)
    moreover have "entry_ok (entry_of u (lt_failures t))" using t(1) by (auto intro: entry_of_ok simp: tracker_ok_def)
    ultimately show ?thesis
      using fail_uses_allowance [OF cfg a _ w, of "entry_of u (lt_failures t)" t2] False xe o
        step_wrong_same [OF t u, of t1 t2] by auto
  qed
qed

lemma guesses_over: "in_order now xs \<Longrightarrow> b \<le> now \<Longrightarrow> guesses a b u xs t = 0"
proof (induction xs arbitrary: now t)
  case (Cons x xs)
  then show ?case by (cases x) (auto intro: Cons.IH)
qed simp

lemma guesses_in_period:
  assumes "tracker_ok t" "lt_max_entries t = 0 \<or> card S < lt_max_entries t" "finite S"
    and "fst ` set (lt_failures t) \<subseteq> S" "event_name ` set xs \<subseteq> S"
    and "sane (lt_cfg t)" "lo_enabled (lt_cfg t)" "u \<noteq> []" "0 < a" "\<forall>g t1. Right g u t1 \<notin> set xs"
    and "b - a \<le> lo_window_seconds (lt_cfg t) * second"
    and "b - a \<le> lo_lockout_duration_seconds (lt_cfg t) * second"
    and "in_order now xs" "0 \<le> now" "\<forall>x \<in> set xs. event_name x = u \<longrightarrow> gate_name x = u"
  shows "int (guesses a b u xs t) \<le> guess_limit (lt_cfg t)
    \<and> (a \<le> now \<longrightarrow> int (guesses a b u xs t) \<le> allowance (lt_cfg t) a b (entry_of u (lt_failures t)))"
  using assms
proof (induction xs arbitrary: t now)
  case Nil
  then show ?case using allowance_nonneg by (auto simp: sane_def guess_limit_def)
next
  case (Cons x xs)
  note room = few_names_roomy [OF Cons.prems(1,3,4,2)]
  define now' where "now' = event_time x"
  have ord: "in_order now' xs" "now \<le> now'" using Cons.prems(13) by (cases x; simp add: now'_def)+
  have "fst ` set (lt_failures (login_step x t)) \<subseteq> S" using subset_trans [OF step_keys] Cons.prems(4,5) by simp
  then have IH: "int (guesses a b u xs (login_step x t)) \<le> guess_limit (lt_cfg t)"
    "a \<le> now' \<Longrightarrow> int (guesses a b u xs (login_step x t))
       \<le> allowance (lt_cfg t) a b (entry_of u (lt_failures (login_step x t)))"
    using Cons.IH [of "login_step x t" now'] Cons.prems ord login_step_ok by auto
  have below: "int (guesses a b u (x # xs) t) \<le> allowance (lt_cfg t) a b (entry_of u (lt_failures t))" if "a \<le> now'"
  proof -
    have "\<forall>g t1. x \<noteq> Right g u t1" using Cons.prems(10) by auto
    moreover have "t1 \<le> t2 \<and> a \<le> t2 \<and> 0 \<le> t1" if "x = Wrong g v t1 t2" for g v t1 t2
      using Cons.prems(13,14) \<open>a \<le> now'\<close> that by (simp add: now'_def)
    moreover have "b \<le> now' \<Longrightarrow> guesses a b u xs (login_step x t) = 0" using guesses_over ord(1) by blast
    ultimately show ?thesis
      using guesses_step [OF Cons.prems(1) room Cons.prems(6-8), of x a b] IH(2) [OF that] Cons.prems(9,11,12,15)
        allowance_nonneg [OF Cons.prems(6)]
      by (cases x) (auto simp: now'_def split: if_splits)
  qed
  show ?case
  proof (cases "a \<le> now'")
    case True
    moreover have "entry_ok (entry_of u (lt_failures t))"
      using Cons.prems(1) by (auto intro: entry_of_ok simp: tracker_ok_def)
    ultimately show ?thesis using below allowance_le [OF Cons.prems(6)] order_trans by blast
  next
    case False
    then have "guess_of a b u x t = 0" by (cases x) (auto simp: now'_def)
    then show ?thesis using IH(1) False ord(2) by simp
  qed
qed

section \<open>Properties\<close>

definition demo_lockout :: LoginLockoutConfig where
  "demo_lockout = \<lparr>lo_enabled = True, lo_threshold = 3, lo_window_seconds = 900, lo_lockout_duration_seconds = 900\<rparr>"

text \<open>
  A lockout lasts exactly until its time is up, and the seconds reported are the waiting time: a name
  locked now is refused with \<open>r\<close> seconds at least one, is still locked \<open>r - 1\<close> seconds later and free
  \<open>r\<close> seconds later, and failures recorded meanwhile change nothing (they are not counted, not
  audited, and neither extend nor lift the lockout).
\<close>

theorem lockout_exact:
  assumes "tracker_ok t" and "roomy t" and "lo_enabled (lt_cfg t)" and "is_locked now u t = (True, r)"
    and "fst (is_locked now' u t)"
  shows "1 \<le> r \<and> fst (is_locked (now + (r - 1) * second) u t) \<and> is_locked (now + r * second) u t = (False, 0)
    \<and> (let (out, t') = record_failure now' u t in
         oc_was_already_locked out \<and> \<not> oc_should_audit out \<and> \<not> oc_locked out
         \<and> (\<forall>v. um_find v (lt_failures t') = um_find v (lt_failures t))
         \<and> (\<forall>v s. is_locked s v t' = is_locked s v t))"
proof -
  obtain e where e: "um_find u (lt_failures t) = Some e" "te_locked_until e > now" "u \<noteq> []"
    "r = seconds_until (te_locked_until e) now"
    using assms(4) by (auto simp: is_locked_def split: if_splits option.splits)
  note b = seconds_until_bounds [OF e(2), folded e(4)]
  have l: "te_locked_until e > now'" using assms(5) e by (simp add: is_locked_def split: if_splits)
  have rec: "record_failure now' u t = (no_outcome\<lparr>oc_count := te_count e, oc_was_already_locked := True,
       oc_locked_for_seconds := lo_lockout_duration_seconds (lt_cfg t),
       oc_remaining_seconds := seconds_until (te_locked_until e) now'\<rparr>, t\<lparr>lt_failures := um_put u e (lt_failures t)\<rparr>)"
    using assms(2,3) e l by (auto simp: record_failure_def enforce_cap_room roomy_def fail_entry_def Let_def)
  have same: "um_find v (um_put u e (lt_failures t)) = um_find v (lt_failures t)" for v
    using assms(1) e(1) by (simp add: um.find_put tracker_okD)
  show ?thesis
    unfolding rec using b e by (auto simp: is_locked_def same no_outcome_def)
qed

theorem lockout_exact_witness:
  "let e = \<lparr>te_count = 3, te_first_failure_at = 1, te_locked_until = 5500000000\<rparr>;
       t = (new_tracker demo_lockout 10)\<lparr>lt_failures := [(''bob'', e)]\<rparr>
   in is_locked 1000000000 ''bob'' t = (True, 5) \<and> is_locked 6000000000 ''bob'' t = (False, 0)"
proof -
  let ?e = "\<lparr>te_count = 3, te_first_failure_at = 1, te_locked_until = 5500000000\<rparr>"
  let ?t = "(new_tracker demo_lockout 10)\<lparr>lt_failures := [(''bob'', ?e)]\<rparr>"
  have "tracker_ok ?t" "roomy ?t" "lo_enabled (lt_cfg ?t)"
    by (simp_all add: tracker_ok_def roomy_def new_tracker_def demo_lockout_def um_ok_def entry_ok_def)
  moreover have l: "is_locked 1000000000 ''bob'' ?t = (True, 5)" by code_simp
  ultimately show ?thesis
    using lockout_exact [of ?t 1000000000 "''bob''" 5 1000000000] by (simp add: Let_def)
qed

fun fail_at :: "string \<Rightarrow> int list \<Rightarrow> login_tracker \<Rightarrow> tracker_outcome list \<times> login_tracker" where
  "fail_at u [] t = ([], t)"
| "fail_at u (s # ss) t = (let (out, t') = record_failure s u t; (outs, t'') = fail_at u ss t' in (out # outs, t''))"

lemma fst_fail_at_Cons:
  "fst (fail_at u (s # ss) t) = fst (record_failure s u t) # fst (fail_at u ss (snd (record_failure s u t)))"
  by (simp add: Let_def split: prod.splits)

declare fail_at.simps(2) [simp del]

definition expected_outcome :: "LoginLockoutConfig \<Rightarrow> int \<Rightarrow> tracker_outcome \<Rightarrow> bool" where
  "expected_outcome cfg k out \<longleftrightarrow> oc_count out = k \<and> (oc_should_audit out \<longleftrightarrow> k mod 5 = 0)
     \<and> (oc_locked out \<longleftrightarrow> k = lo_threshold cfg) \<and> \<not> oc_was_already_locked out"

lemma fail_entry_next:
  assumes "0 \<le> k" "k < lo_threshold cfg" "0 < first" "lo_enabled cfg"
    and "e = \<lparr>te_count = k, te_first_failure_at = first, te_locked_until = 0\<rparr> \<and> s < first + lo_window_seconds cfg * second
         \<or> e = fresh_entry \<and> k = 0 \<and> s = first"
    and "first \<le> s"
  shows "expected_outcome cfg (k + 1) (fst (fail_entry cfg s e))"
    "k + 1 < lo_threshold cfg \<Longrightarrow>
     snd (fail_entry cfg s e) = \<lparr>te_count = k + 1, te_first_failure_at = first, te_locked_until = 0\<rparr>"
  using assms
  by (auto simp: fail_entry_def Let_def fresh_entry_def expected_outcome_def no_outcome_def kAuditLogEvery_def)

lemma fail_at_counts:
  assumes "lt_cfg t = cfg" "tracker_ok t" "lt_max_entries t = 0 \<or> length (lt_failures t) < lt_max_entries t" "u \<noteq> []"
    and "um_find u (lt_failures t) = Some \<lparr>te_count = k, te_first_failure_at = first, te_locked_until = 0\<rparr>"
    and "0 \<le> k" "0 < first" "lo_enabled cfg" "k + int (length ss) \<le> lo_threshold cfg"
    and "\<forall>s \<in> set ss. first \<le> s \<and> s < first + lo_window_seconds cfg * second"
  shows "\<forall>i < length ss. expected_outcome cfg (k + int i + 1) (fst (fail_at u ss t) ! i)"
  using assms
proof (induction ss arbitrary: t k)
  case (Cons s ss)
  let ?e = "\<lparr>te_count = k, te_first_failure_at = first, te_locked_until = 0\<rparr>"
  let ?t = "snd (record_failure s u t)"
  have tab: "lt_failures ?t = um_put u (snd (fail_entry cfg s ?e)) (lt_failures t)"
    and out: "fst (record_failure s u t) = fst (fail_entry cfg s ?e)"
    using Cons.prems(1,3-5)
    by (auto simp: record_failure_def enforce_cap_room Let_def split: prod.splits)
  have now: "expected_outcome cfg (k + 1) (fst (fail_entry cfg s ?e))"
    using Cons.prems by (intro fail_entry_next [where first = first]) auto
  have later: "\<forall>i < length ss. expected_outcome cfg (k + 1 + int i + 1) (fst (fail_at u ss ?t) ! i)"
    if "ss \<noteq> []"
  proof -
    have "k + 1 < lo_threshold cfg" using Cons.prems(9) that by (cases ss) auto
    then have "snd (fail_entry cfg s ?e) = \<lparr>te_count = k + 1, te_first_failure_at = first, te_locked_until = 0\<rparr>"
      using Cons.prems by (intro fail_entry_next) auto
    then show ?thesis
      using Cons.prems by (intro Cons.IH)
        (auto simp: tab um.find_put um.size_put tracker_okD record_failure_ok)
  qed
  show ?case
    using now later by (cases "ss = []") (auto simp: fst_fail_at_Cons out less_Suc_eq_0_disj algebra_simps)
qed simp

text \<open>
  The lockout fires at the threshold and not before: with room in the table, starting from a name
  without an entry, the \<open>k\<close>-th failure inside one window reports the count \<open>k\<close>, is audited exactly
  when \<open>k\<close> is a multiple of five, and locks the name exactly when \<open>k\<close> is the threshold.
\<close>

theorem lockout_at_threshold:
  assumes "tracker_ok t" and "lo_enabled (lt_cfg t)" and "u \<noteq> []" and "um_find u (lt_failures t) = None"
    and "lt_max_entries t = 0 \<or> Suc (length (lt_failures t)) < lt_max_entries t"
    and "0 < s" and "\<forall>r \<in> set ss. s \<le> r \<and> r < s + lo_window_seconds (lt_cfg t) * second"
    and "i < length (s # ss)" and "int (length (s # ss)) \<le> lo_threshold (lt_cfg t)"
  shows "expected_outcome (lt_cfg t) (int i + 1) (fst (fail_at u (s # ss) t) ! i)"
proof -
  let ?t = "snd (record_failure s u t)"
  have tab: "lt_failures ?t = um_put u (snd (fail_entry (lt_cfg t) s fresh_entry)) (lt_failures t)"
    and out: "fst (record_failure s u t) = fst (fail_entry (lt_cfg t) s fresh_entry)"
    using assms(3-5) by (auto simp: record_failure_def enforce_cap_room Let_def split: prod.splits)
  have now: "expected_outcome (lt_cfg t) (0 + 1) (fst (fail_entry (lt_cfg t) s fresh_entry))"
    using assms by (intro fail_entry_next [where first = s]) auto
  have later: "\<forall>i < length ss. expected_outcome (lt_cfg t) (1 + int i + 1) (fst (fail_at u ss ?t) ! i)" if "ss \<noteq> []"
  proof -
    have "0 + 1 < lo_threshold (lt_cfg t)" using assms(9) that by (cases ss) auto
    then have "snd (fail_entry (lt_cfg t) s fresh_entry) = \<lparr>te_count = 0 + 1, te_first_failure_at = s, te_locked_until = 0\<rparr>"
      using assms by (intro fail_entry_next) auto
    then show ?thesis
      using assms by (intro fail_at_counts [where first = s])
        (auto simp: tab um.find_put um.size_put tracker_okD record_failure_ok)
  qed
  show ?thesis
    using now later assms(8) by (cases i; cases "ss = []") (auto simp: fst_fail_at_Cons out algebra_simps)
qed

theorem lockout_at_threshold_witness:
  "oc_locked (fst (fail_at ''bob'' [7, 8, 9] (new_tracker demo_lockout 10)) ! 2)"
proof -
  have c: "lo_enabled (lt_cfg (new_tracker demo_lockout 10))" "lo_window_seconds (lt_cfg (new_tracker demo_lockout 10)) = 900"
    "lo_threshold (lt_cfg (new_tracker demo_lockout 10)) = 3" "lt_failures (new_tracker demo_lockout 10) = []"
    "lt_max_entries (new_tracker demo_lockout 10) = 10"
    by (simp_all add: new_tracker_def demo_lockout_def)
  have "expected_outcome (lt_cfg (new_tracker demo_lockout 10)) (int 2 + 1)
      (fst (fail_at ''bob'' [7, 8, 9] (new_tracker demo_lockout 10)) ! 2)"
    by (rule lockout_at_threshold) (simp_all add: c)
  then show ?thesis by (simp add: expected_outcome_def c)
qed

section \<open>Eviction\<close>

abbreviation (input) locked_at :: "int \<Rightarrow> string \<times> tracker_entry \<Rightarrow> bool" where
  "locked_at now p \<equiv> te_locked_until (snd p) > now"

text \<open>The order in which entries are given up.\<close>

definition rather :: "int \<Rightarrow> string \<times> tracker_entry \<Rightarrow> string \<times> tracker_entry \<Rightarrow> bool" where
  "rather now p q \<longleftrightarrow> \<not> locked_at now q \<and> locked_at now p
     \<or> locked_at now q = locked_at now p \<and> te_count (snd p) \<le> te_count (snd q)"

lemma rather_trans: "rather now p q \<Longrightarrow> rather now q r \<Longrightarrow> rather now p r"
  by (auto simp: rather_def)

lemma better_victim_rather: "rather now p (better_victim now p q)" "rather now q (better_victim now p q)"
  by (auto simp: rather_def better_victim_def Let_def)

lemma foldl_victim_rather: "\<forall>q \<in> insert p (set ps). rather now q (foldl (better_victim now) p ps)"
proof (induction ps arbitrary: p)
  case Nil
  then show ?case by (simp add: rather_def)
next
  case (Cons q ps)
  let ?b = "better_victim now p q"
  have "rather now ?b (foldl (better_victim now) ?b ps)" using Cons [of ?b] by blast
  then have "rather now p (foldl (better_victim now) ?b ps)" "rather now q (foldl (better_victim now) ?b ps)"
    using better_victim_rather rather_trans by blast+
  then show ?case using Cons [of ?b] by simp
qed

lemma find_victim_rather: "find_victim now m = Some v \<Longrightarrow> q \<in> set m \<Longrightarrow> rather now q v"
  using foldl_victim_rather by (auto simp: find_victim_def split: list.splits)

lemma find_victim_Some: "m \<noteq> [] \<Longrightarrow> \<exists>v. find_victim now m = Some v"
  by (cases m) (auto simp: find_victim_def)

lemma failure_count_record_other:
  assumes "um_ok (lt_failures t)" "v \<noteq> u" "v \<noteq> []"
  shows "um_find u (lt_failures (snd (record_failure now v t)))
       = um_find u (enforce_cap now (lt_max_entries t) (lt_failures t))"
  using assms by (simp add: record_failure_table Let_def um.find_put enforce_cap_ok)

text \<open>
  The table keeps its bound and its configuration through any history of logins, and giving up an
  entry never lifts a lockout while there is an entry that is not locked: a failure for another name
  keeps every locked name locked, for as long as before.
\<close>

theorem tracker_bounded:
  "let t = fold login_step xs (new_tracker cfg n) in
     um_ok (lt_failures t) \<and> (0 < n \<longrightarrow> tracked_names t \<le> n) \<and> lt_cfg t = lt_cfg (new_tracker cfg n)
     \<and> (is_locked now u t = (True, r) \<and> v \<noteq> u \<and> (\<exists>p \<in> set (lt_failures t). \<not> locked_at now p)
          \<longrightarrow> is_locked now u (snd (record_failure now v t)) = (True, r))"
proof -
  have inv: "tracker_ok (fold login_step xs t) \<and> lt_cfg (fold login_step xs t) = lt_cfg t
      \<and> lt_max_entries (fold login_step xs t) = lt_max_entries t" if "tracker_ok t" for t
    using that by (induction xs arbitrary: t) (auto simp: login_step_ok)
  have keeps: "is_locked now u (snd (record_failure now v t)) = (True, r)"
    if l: "is_locked now u t = (True, r)" and v: "v \<noteq> u" and ok: "tracker_ok t"
      and free: "\<exists>p \<in> set (lt_failures t). \<not> locked_at now p" for t
  proof (cases "v = []")
    case False
    obtain e where e: "um_find u (lt_failures t) = Some e" "te_locked_until e > now"
      using l by (auto simp: is_locked_def split: if_splits option.splits)
    have "um_find u (enforce_cap now (lt_max_entries t) (lt_failures t)) = Some e"
    proof (cases "find_victim now (lt_failures t)")
      case (Some w)
      have "\<not> locked_at now w"
        using free find_victim_rather [OF Some] by (auto simp: rather_def)
      moreover have "w \<in> set (lt_failures t)" using Some by (rule find_victim_in)
      ultimately have "fst w \<noteq> u"
        using e ok by (metis prod.collapse um_find_Some_iff tracker_okD(1) option.inject)
      then show ?thesis using e Some ok by (auto simp: enforce_cap_def um.find_erase tracker_okD)
    qed (use e in \<open>simp add: enforce_cap_def\<close>)
    then show ?thesis
      using l e False v ok by (simp add: is_locked_def failure_count_record_other tracker_okD split: if_splits)
  qed (use l in simp)
  let ?t = "fold login_step xs (new_tracker cfg n)"
  have t: "tracker_ok ?t" "lt_cfg ?t = lt_cfg (new_tracker cfg n)" "lt_max_entries ?t = n"
    using inv [OF new_tracker_ok, of cfg n] by (simp_all add: new_tracker_def)
  then have "um_ok (lt_failures ?t) \<and> (0 < n \<longrightarrow> tracked_names ?t \<le> n)"
    by (auto simp: tracker_ok_def tracked_names_def)
  then show ?thesis using t keeps [OF _ _ t(1)] by (simp add: Let_def)
qed

theorem tracker_bounded_witness:
  "is_locked 10 ''bob'' (snd (record_failure 10 ''mia'' (fold login_step
     [Wrong ''bob'' ''bob'' 1 1, Wrong ''bob'' ''bob'' 2 2, Wrong ''bob'' ''bob'' 3 3, Wrong ''eve'' ''eve'' 4 4] (new_tracker demo_lockout 3)))) = (True, 900)"
proof -
  let ?t = "fold login_step [Wrong ''bob'' ''bob'' 1 1, Wrong ''bob'' ''bob'' 2 2, Wrong ''bob'' ''bob'' 3 3, Wrong ''eve'' ''eve'' 4 4]
    (new_tracker demo_lockout 3)"
  have "is_locked 10 ''bob'' ?t = (True, 900)" by code_simp
  moreover have "\<exists>p \<in> set (lt_failures ?t). \<not> locked_at 10 p" by code_simp
  ultimately show ?thesis
    using tracker_bounded [of "[Wrong ''bob'' ''bob'' 1 1, Wrong ''bob'' ''bob'' 2 2, Wrong ''bob'' ''bob'' 3 3, Wrong ''eve'' ''eve'' 4 4]"
        demo_lockout 3 10 "''bob''" 900 "''mia''"]
    unfolding Let_def by blast
qed

text \<open>
  The eviction gives up the strongest evidence first: when the table is full and a name that is not
  locked has more failures than any other such name, one failure for any other name erases its count.
  Whoever keeps the table full can so guess for ever without being locked out, by trying another name
  in between.
\<close>

theorem eviction_forgets_leader:
  assumes "tracker_ok t" and "0 < lt_max_entries t" and "length (lt_failures t) = lt_max_entries t"
    and "um_find u (lt_failures t) = Some e" and "te_locked_until e \<le> now"
    and "\<forall>p \<in> set (lt_failures t). fst p \<noteq> u \<longrightarrow> locked_at now p \<or> te_count (snd p) < te_count e"
    and "v \<noteq> u" and "v \<noteq> []"
  shows "failure_count u (snd (record_failure now v t)) = 0 \<and> \<not> fst (is_locked later u (snd (record_failure now v t)))"
proof -
  obtain w where w: "find_victim now (lt_failures t) = Some w"
    using find_victim_Some [of "lt_failures t"] assms(2,3) by fastforce
  have "(u, e) \<in> set (lt_failures t)" using assms(4) by (rule um_find_in_set)
  then have "rather now (u, e) w" using find_victim_rather [OF w] by blast
  then have "fst w = u"
    using assms(5,6) find_victim_in [OF w] by (auto simp: rather_def)
  then have "um_find u (enforce_cap now (lt_max_entries t) (lt_failures t)) = None"
    using w assms(1-3) by (simp add: enforce_cap_def um.find_erase tracker_okD)
  then show ?thesis
    using assms by (simp add: failure_count_def is_locked_def failure_count_record_other tracker_okD)
qed

theorem eviction_forgets_leader_witness:
  "let t = (new_tracker (demo_lockout\<lparr>lo_threshold := 9\<rparr>) 2)\<lparr>lt_failures :=
             [(''eve'', \<lparr>te_count = 1, te_first_failure_at = 1, te_locked_until = 0\<rparr>),
              (''bob'', \<lparr>te_count = 8, te_first_failure_at = 2, te_locked_until = 0\<rparr>)]\<rparr>
   in failure_count ''bob'' t = 8 \<and> failure_count ''bob'' (snd (record_failure 20 ''x'' t)) = 0"
proof -
  let ?e = "\<lparr>te_count = 8, te_first_failure_at = 2, te_locked_until = 0\<rparr>"
  let ?t = "(new_tracker (demo_lockout\<lparr>lo_threshold := 9\<rparr>) 2)\<lparr>lt_failures :=
             [(''eve'', \<lparr>te_count = 1, te_first_failure_at = 1, te_locked_until = 0\<rparr>), (''bob'', ?e)]\<rparr>"
  have "failure_count ''bob'' (snd (record_failure 20 ''x'' ?t)) = 0 \<and> \<not> fst (is_locked 21 ''bob'' (snd (record_failure 20 ''x'' ?t)))"
    by (rule eviction_forgets_leader [where e = ?e])
      (simp_all add: tracker_ok_def um_ok_def entry_ok_def new_tracker_def um_find_def)
  moreover have "failure_count ''bob'' ?t = 8" by (simp add: failure_count_def um_find_def)
  ultimately show ?thesis by (simp add: Let_def)
qed

end
