(* ===== verification/Audit_Log.thy ===== *)
theory Audit_Log
  imports User_Repo
begin

text \<open>
  \<^verbatim>\<open>src/db/audit_log_repo.h\<close>: the append-only table \<^verbatim>\<open>audit_logs\<close>, its validators, the best-effort
  records of failed logins, and the filtered listing.

  The server's side is the \<open>db_env\<close> of the users table; the time a printed date stands for is the
  argument \<open>time_of\<close>, and \<open>dump\<close> is \<^verbatim>\<open>nlohmann::json::dump\<close>, which may throw.

  Main results: rows that are stored fit their columns; recording a failed login never fails the
  request, and when it is silently dropped; the \<^verbatim>\<open>WHERE\<close> clause and the bound values are in step; a
  page of the list is the right slice of the selected rows, newest first.
\<close>

section \<open>Rows, entries, filters\<close>

record AuditRow =
  au_id :: int
  au_admin_id :: "int option"
  au_action :: string
  au_target_type :: "string option"
  au_target_id :: "string option"
  au_payload :: "string option"
  au_ip :: "string option"
  au_created_at :: string

record AuditEntry =
  en_admin_id :: "int option"
  en_action :: string
  en_target_type :: "string option"
  en_target_id :: "string option"
  en_payload :: json
  en_ip :: "string option"

record AuditListFilter =
  af_admin_id :: "int option"
  af_action :: "string option"
  af_target_type :: "string option"
  af_target_id :: "string option"
  af_since :: "string option"
  af_until :: "string option"
  af_limit :: int
  af_offset :: int

record AuditListResult =
  al_items :: "AuditRow list"
  al_total :: int
  al_limit :: int
  al_offset :: int

record audit_table =
  at_rows :: "AuditRow list"
  at_next :: int

text \<open>\<open>AuditOther\<close> is any other \<^verbatim>\<open>std::exception\<close> that leaves a function.\<close>

datatype audit_error = AuditLogRepoError string | AuditOther string

section \<open>Validators\<close>

definition kMinActionLength :: nat where "kMinActionLength = 1"
definition kMaxActionLength :: nat where "kMaxActionLength = 50"
definition kMaxTargetTypeLength :: nat where "kMaxTargetTypeLength = 50"
definition kMaxTargetIdLength :: nat where "kMaxTargetIdLength = 100"
definition kMaxIpLength :: nat where "kMaxIpLength = 45"
definition kMinDatetimeLength :: nat where "kMinDatetimeLength = 10"
definition kMaxDatetimeLength :: nat where "kMaxDatetimeLength = 19"
definition kDefaultAuditListLimit :: int where "kDefaultAuditListLimit = 20"
definition kMaxAuditListLimit :: int where "kMaxAuditListLimit = 100"

lemmas audit_limits = kMinActionLength_def kMaxActionLength_def kMaxTargetTypeLength_def kMaxTargetIdLength_def
  kMaxIpLength_def kMinDatetimeLength_def kMaxDatetimeLength_def

definition is_control :: "char \<Rightarrow> bool" where
  "is_control c \<longleftrightarrow> uchar c < 32 \<or> uchar c = 127"

definition validate_action :: "string \<Rightarrow> string + unit" where
  "validate_action s =
     (if length s < kMinActionLength \<or> length s > kMaxActionLength then
        Inl (''action length must be between '' @ to_string (int kMinActionLength) @ '' and '' @ to_string (int kMaxActionLength))
      else if \<exists>c \<in> set s. is_control c then Inl ''action must not contain control characters''
      else Inr ())"

definition validate_target_type :: "string \<Rightarrow> string + unit" where
  "validate_target_type s =
     (if length s > kMaxTargetTypeLength then
        Inl (''target_type length must be <= '' @ to_string (int kMaxTargetTypeLength))
      else if \<exists>c \<in> set s. is_control c then Inl ''target_type must not contain control characters''
      else Inr ())"

definition validate_target_id :: "string \<Rightarrow> string + unit" where
  "validate_target_id s =
     (if length s > kMaxTargetIdLength then
        Inl (''target_id length must be <= '' @ to_string (int kMaxTargetIdLength))
      else if \<exists>c \<in> set s. is_control c then Inl ''target_id must not contain control characters''
      else Inr ())"

definition validate_ip :: "string \<Rightarrow> string + unit" where
  "validate_ip s =
     (if s = [] then Inl ''ip must not be empty''
      else if length s > kMaxIpLength then Inl (''ip length must be <= '' @ to_string (int kMaxIpLength))
      else if \<exists>c \<in> set s. is_control c then Inl ''ip must not contain control characters''
      else Inr ())"

definition validate_datetime :: "string \<Rightarrow> string + unit" where
  "validate_datetime s =
     (if length s < kMinDatetimeLength \<or> length s > kMaxDatetimeLength then
        Inl (''datetime length must be between '' @ to_string (int kMinDatetimeLength) @ '' and ''
             @ to_string (int kMaxDatetimeLength))
      else if \<exists>c \<in> set s. is_control c then Inl ''datetime must not contain control characters''
      else Inr ())"

definition clamp_audit_filter :: "AuditListFilter \<Rightarrow> AuditListFilter" where
  "clamp_audit_filter f =
     (let f1 = (if af_limit f \<le> 0 then f\<lparr>af_limit := kDefaultAuditListLimit\<rparr> else f);
          f2 = (if af_limit f1 > kMaxAuditListLimit then f1\<lparr>af_limit := kMaxAuditListLimit\<rparr> else f1)
      in if af_offset f2 < 0 then f2\<lparr>af_offset := 0\<rparr> else f2)"

section \<open>Recording\<close>

definition kActionLoginFailure :: string where "kActionLoginFailure = ''auth.login_failure''"
definition kActionLoginLockout :: string where "kActionLoginLockout = ''auth.login_locked''"

definition opt_check :: "(string \<Rightarrow> string + unit) \<Rightarrow> string option \<Rightarrow> string + unit" where
  "opt_check p s = (case s of None \<Rightarrow> Inr () | Some x \<Rightarrow> p x)"

definition validate_entry :: "AuditEntry \<Rightarrow> string + unit" where
  "validate_entry e =
     (case validate_action (en_action e) of Inl m \<Rightarrow> Inl m | Inr _ \<Rightarrow>
      case opt_check validate_target_type (en_target_type e) of Inl m \<Rightarrow> Inl m | Inr _ \<Rightarrow>
      case opt_check validate_target_id (en_target_id e) of Inl m \<Rightarrow> Inl m | Inr _ \<Rightarrow>
      opt_check validate_ip (en_ip e))"

definition record_audit ::
    "(json \<Rightarrow> string outcome) \<Rightarrow> db_env \<Rightarrow> AuditEntry \<Rightarrow> audit_table \<Rightarrow> audit_error + int \<times> audit_table" where
  "record_audit dump v e t =
     (case validate_entry e of
        Inl m \<Rightarrow> Inl (AuditLogRepoError (''record: '' @ m))
      | Inr _ \<Rightarrow>
          (case dump (en_payload e) of
             Throws m \<Rightarrow> Inl (AuditOther m)
           | Returns payload \<Rightarrow>
               (case dv_acquire v of
                  Some m \<Rightarrow> Inl (AuditOther m)
                | None \<Rightarrow>
                    (case stmt v 0 \<lparr>au_id = at_next t, au_admin_id = en_admin_id e, au_action = en_action e,
                                    au_target_type = en_target_type e, au_target_id = en_target_id e,
                                    au_payload = Some payload, au_ip = en_ip e, au_created_at = dv_now v\<rparr> of
                       Inl m \<Rightarrow> Inl (AuditLogRepoError (''audit_log_repo::record: '' @ m))
                     | Inr r \<Rightarrow> Inr (at_next t, t\<lparr>at_rows := at_rows t @ [r], at_next := at_next t + 1\<rparr>)))))"

definition record_best_effort ::
    "(json \<Rightarrow> string outcome) \<Rightarrow> db_env \<Rightarrow> AuditEntry \<Rightarrow> audit_table \<Rightarrow> int \<times> audit_table" where
  "record_best_effort dump v e t = (case record_audit dump v e t of Inl _ \<Rightarrow> (0, t) | Inr r \<Rightarrow> r)"

definition record_login_failure ::
    "(json \<Rightarrow> string outcome) \<Rightarrow> db_env \<Rightarrow> string \<Rightarrow> string \<Rightarrow> int \<Rightarrow> audit_table \<Rightarrow> audit_table" where
  "record_login_failure dump v uname ip consecutive_failures t =
     snd (record_best_effort dump v
            \<lparr>en_admin_id = None, en_action = kActionLoginFailure, en_target_type = Some ''user'',
             en_target_id = Some uname,
             en_payload = JObj [(''consecutive_failures'', JInt consecutive_failures)],
             en_ip = (if ip \<noteq> [] then Some ip else None)\<rparr> t)"

definition record_login_lockout ::
    "(json \<Rightarrow> string outcome) \<Rightarrow> db_env \<Rightarrow> string \<Rightarrow> string \<Rightarrow> int \<Rightarrow> int \<Rightarrow> int \<Rightarrow> audit_table \<Rightarrow> audit_table" where
  "record_login_lockout dump v uname ip consecutive_failures locked_for_seconds threshold t =
     snd (record_best_effort dump v
            \<lparr>en_admin_id = None, en_action = kActionLoginLockout, en_target_type = Some ''user'',
             en_target_id = Some uname,
             en_payload = JObj [(''consecutive_failures'', JInt consecutive_failures),
                                (''locked_for_seconds'', JInt locked_for_seconds), (''threshold'', JInt threshold)],
             en_ip = (if ip \<noteq> [] then Some ip else None)\<rparr> t)"

section \<open>Queries\<close>

text \<open>Reading a row turns a non-positive \<^verbatim>\<open>admin_id\<close> into none.\<close>

definition row_to_audit :: "AuditRow \<Rightarrow> AuditRow" where
  "row_to_audit r = r\<lparr>au_admin_id := (case au_admin_id r of Some k \<Rightarrow> if k > 0 then Some k else None | None \<Rightarrow> None)\<rparr>"

definition find_audit_by_id :: "db_env \<Rightarrow> int \<Rightarrow> audit_table \<Rightarrow> audit_error + AuditRow option" where
  "find_audit_by_id v i t =
     (case dv_acquire v of
        Some m \<Rightarrow> Inl (AuditOther m)
      | None \<Rightarrow>
          (case stmt v 0 (List.find (\<lambda>r. au_id r = i) (at_rows t)) of
             Inl m \<Rightarrow> Inl (AuditLogRepoError (''audit_log_repo::find_by_id: '' @ m))
           | Inr r \<Rightarrow> Inr (map_option row_to_audit r)))"

record WhereClause =
  wc_text :: string
  wc_bound_int :: "int list"
  wc_bound_str :: "string list"

definition append_clause :: "string \<Rightarrow> WhereClause \<Rightarrow> WhereClause" where
  "append_clause c w = w\<lparr>wc_text := wc_text w @ (if wc_text w = [] then '' WHERE '' else '' AND '') @ c\<rparr>"

definition add_int :: "string \<Rightarrow> int option \<Rightarrow> WhereClause \<Rightarrow> WhereClause" where
  "add_int c x w =
     (case x of None \<Rightarrow> w | Some k \<Rightarrow> let w = append_clause c w in w\<lparr>wc_bound_int := wc_bound_int w @ [k]\<rparr>)"

definition add_str :: "string \<Rightarrow> string option \<Rightarrow> WhereClause \<Rightarrow> WhereClause" where
  "add_str c x w =
     (case x of None \<Rightarrow> w | Some s \<Rightarrow> let w = append_clause c w in w\<lparr>wc_bound_str := wc_bound_str w @ [s]\<rparr>)"

text \<open>The clause built so far and the error text (empty for none).\<close>

definition build_where_clause :: "AuditListFilter \<Rightarrow> WhereClause \<times> string" where
  "build_where_clause f =
     (let w = \<lparr>wc_text = [], wc_bound_int = [], wc_bound_str = []\<rparr>;
          w = add_int ''admin_id = ?'' (af_admin_id f) w;
          w = add_str ''action = ?'' (af_action f) w;
          w = add_str ''target_type = ?'' (af_target_type f) w;
          w = add_str ''target_id = ?'' (af_target_id f) w
      in case opt_check validate_datetime (af_since f) of
           Inl m \<Rightarrow> (w, ''since: '' @ m)
         | Inr _ \<Rightarrow>
             let w = add_str ''created_at >= ?'' (af_since f) w in
             (case opt_check validate_datetime (af_until f) of
                Inl m \<Rightarrow> (w, ''until: '' @ m)
              | Inr _ \<Rightarrow> (add_str ''created_at <  ?'' (af_until f) w, [])))"

text \<open>What the clause selects.\<close>

definition audit_match :: "(string \<Rightarrow> int) \<Rightarrow> db_env \<Rightarrow> AuditListFilter \<Rightarrow> AuditRow \<Rightarrow> bool" where
  "audit_match time_of v f r \<longleftrightarrow>
     (case af_admin_id f of None \<Rightarrow> True | Some k \<Rightarrow> au_admin_id r = Some k)
     \<and> (case af_action f of None \<Rightarrow> True | Some a \<Rightarrow> dv_eq v (au_action r) a)
     \<and> (case af_target_type f of None \<Rightarrow> True | Some a \<Rightarrow> email_clash v (au_target_type r) (Some a))
     \<and> (case af_target_id f of None \<Rightarrow> True | Some a \<Rightarrow> email_clash v (au_target_id r) (Some a))
     \<and> (case af_since f of None \<Rightarrow> True | Some s \<Rightarrow> time_of (au_created_at r) \<ge> time_of s)
     \<and> (case af_until f of None \<Rightarrow> True | Some s \<Rightarrow> time_of (au_created_at r) < time_of s)"

definition count_audit ::
    "(string \<Rightarrow> int) \<Rightarrow> db_env \<Rightarrow> AuditListFilter \<Rightarrow> audit_table \<Rightarrow> audit_error + int" where
  "count_audit time_of v flt t =
     (let f = clamp_audit_filter flt; (w, err) = build_where_clause f in
      if err \<noteq> [] then Inl (AuditLogRepoError (''audit_log_repo::count: '' @ err))
      else case dv_acquire v of
             Some m \<Rightarrow> Inl (AuditOther m)
           | None \<Rightarrow>
               (case stmt v 0 (int (length (filter (audit_match time_of v f) (at_rows t)))) of
                  Inl m \<Rightarrow> Inl (AuditLogRepoError (''audit_log_repo::count: '' @ m))
                | Inr n \<Rightarrow> Inr n))"

text \<open>\<^verbatim>\<open>ORDER BY created_at DESC, id DESC\<close>.\<close>

definition newest_first :: "(string \<Rightarrow> int) \<Rightarrow> AuditRow list \<Rightarrow> AuditRow list" where
  "newest_first time_of rs = sort_key (\<lambda>r. - time_of (au_created_at r)) (sort_key (\<lambda>r. - au_id r) rs)"

definition list_audit ::
    "(string \<Rightarrow> int) \<Rightarrow> db_env \<Rightarrow> db_env \<Rightarrow> AuditListFilter \<Rightarrow> audit_table \<Rightarrow> audit_error + AuditListResult" where
  "list_audit time_of v1 v2 flt t =
     (let f = clamp_audit_filter flt in
      case count_audit time_of v1 f t of
        Inl e \<Rightarrow> Inl e
      | Inr n \<Rightarrow>
          let (w, err) = build_where_clause f in
          if err \<noteq> [] then Inl (AuditLogRepoError (''audit_log_repo::list: '' @ err))
          else case dv_acquire v2 of
                 Some m \<Rightarrow> Inl (AuditOther m)
               | None \<Rightarrow>
                   (case stmt v2 0 (take (nat (af_limit f)) (drop (nat (af_offset f))
                             (newest_first time_of (filter (audit_match time_of v2 f) (at_rows t))))) of
                      Inl m \<Rightarrow> Inl (AuditLogRepoError (''audit_log_repo::list: '' @ m))
                    | Inr rs \<Rightarrow> Inr \<lparr>al_items = map row_to_audit rs, al_total = n,
                                     al_limit = af_limit f, al_offset = af_offset f\<rparr>))"

section \<open>Lemmas\<close>

lemma validator_iff:
  "validate_action s = Inr () \<longleftrightarrow> 1 \<le> length s \<and> length s \<le> 50 \<and> (\<forall>c \<in> set s. \<not> is_control c)"
  "validate_target_type s = Inr () \<longleftrightarrow> length s \<le> 50 \<and> (\<forall>c \<in> set s. \<not> is_control c)"
  "validate_target_id s = Inr () \<longleftrightarrow> length s \<le> 100 \<and> (\<forall>c \<in> set s. \<not> is_control c)"
  "validate_ip s = Inr () \<longleftrightarrow> 1 \<le> length s \<and> length s \<le> 45 \<and> (\<forall>c \<in> set s. \<not> is_control c)"
  by (auto simp: validate_action_def validate_target_type_def validate_target_id_def validate_ip_def audit_limits
      Suc_le_eq)

definition fits :: "nat \<Rightarrow> nat \<Rightarrow> string option \<Rightarrow> bool" where
  "fits lo hi s \<longleftrightarrow> (case s of None \<Rightarrow> True | Some x \<Rightarrow> lo \<le> length x \<and> length x \<le> hi \<and> (\<forall>c \<in> set x. \<not> is_control c))"

lemma opt_check_fits:
  "opt_check validate_target_type s = Inr () \<longleftrightarrow> fits 0 50 s"
  "opt_check validate_target_id s = Inr () \<longleftrightarrow> fits 0 100 s"
  "opt_check validate_ip s = Inr () \<longleftrightarrow> fits 1 45 s"
  "validate_action a = Inr () \<longleftrightarrow> fits 1 50 (Some a)"
  by (simp_all add: opt_check_def fits_def validator_iff split: option.splits)

lemma validate_entry_iff:
  "validate_entry e = Inr () \<longleftrightarrow> fits 1 50 (Some (en_action e)) \<and> fits 0 50 (en_target_type e)
     \<and> fits 0 100 (en_target_id e) \<and> fits 1 45 (en_ip e)"
  unfolding validate_entry_def opt_check_fits [symmetric]
  by (auto split: sum.splits)

lemma record_audit_Inr:
  "record_audit dump v e t = Inr (i, t') \<longleftrightarrow>
     validate_entry e = Inr () \<and> dv_acquire v = None \<and> dv_fault v 0 = None \<and> i = at_next t
     \<and> (\<exists>p. dump (en_payload e) = Returns p
          \<and> t' = t\<lparr>at_rows := at_rows t @ [\<lparr>au_id = at_next t, au_admin_id = en_admin_id e, au_action = en_action e,
                     au_target_type = en_target_type e, au_target_id = en_target_id e, au_payload = Some p,
                     au_ip = en_ip e, au_created_at = dv_now v\<rparr>], at_next := at_next t + 1\<rparr>)"
  by (auto simp: record_audit_def stmt_def split: sum.splits outcome.splits option.splits)

lemma best_effort_cases:
  obtains i t' where "record_audit dump v e t = Inr (i, t')" "record_best_effort dump v e t = (i, t')"
  | x where "record_audit dump v e t = Inl x" "record_best_effort dump v e t = (0, t)"
  by (cases "record_audit dump v e t") (auto simp: record_best_effort_def)

section \<open>Properties\<close>

definition row_fits :: "AuditRow \<Rightarrow> bool" where
  "row_fits r \<longleftrightarrow> fits 1 50 (Some (au_action r)) \<and> fits 0 50 (au_target_type r) \<and> fits 0 100 (au_target_id r)
     \<and> fits 1 45 (au_ip r) \<and> au_payload r \<noteq> None"

definition audit_ok :: "audit_table \<Rightarrow> bool" where
  "audit_ok t \<longleftrightarrow> sorted_wrt (<) (map au_id (at_rows t)) \<and> (\<forall>r \<in> set (at_rows t). au_id r < at_next t \<and> row_fits r)"

lemma record_best_effort_ok:
  assumes "audit_ok t"
  shows "audit_ok (snd (record_best_effort dump v e t))
    \<and> (\<exists>new. at_rows (snd (record_best_effort dump v e t)) = at_rows t @ new)"
proof (cases rule: best_effort_cases [of dump v e t])
  case (1 i t')
  then obtain p where v: "validate_entry e = Inr ()" and t': "t' = t\<lparr>at_rows := at_rows t @ [\<lparr>au_id = at_next t,
      au_admin_id = en_admin_id e, au_action = en_action e, au_target_type = en_target_type e,
      au_target_id = en_target_id e, au_payload = Some p, au_ip = en_ip e, au_created_at = dv_now v\<rparr>],
      at_next := at_next t + 1\<rparr>"
    by (auto simp: record_audit_Inr)
  show ?thesis
    using assms v unfolding 1 t' by (fastforce simp: audit_ok_def sorted_wrt_append row_fits_def validate_entry_iff)
next
  case (2 x)
  then show ?thesis using assms by simp
qed

text \<open>
  The audit table only grows, and what is in it fits its columns: after any sequence of recordings, of
  any entries and with any failures, the earlier rows are still there in place, ids are increasing,
  and every action, target and address has a length its column holds and no control characters.
\<close>

theorem audit_append_only:
  assumes "audit_ok t"
  shows "let t' = fold (\<lambda>(v, e) t. snd (record_best_effort dump v e t)) xs t in
     audit_ok t' \<and> (\<exists>new. at_rows t' = at_rows t @ new)"
  using assms
proof (induction xs arbitrary: t)
  case (Cons x xs)
  obtain v e where x: "x = (v, e)" by (cases x)
  show ?case
    using Cons.IH [of "snd (record_best_effort dump v e t)"] record_best_effort_ok [OF Cons.prems, of dump v e]
    by (auto simp: Let_def x)
qed simp

definition demo_dump :: "json \<Rightarrow> string outcome" where
  "demo_dump j = Returns ''{}''"

definition demo_entry :: AuditEntry where
  "demo_entry = \<lparr>en_admin_id = Some 1, en_action = ''problem.create'', en_target_type = None, en_target_id = None,
     en_payload = JObj [], en_ip = None\<rparr>"

theorem audit_append_only_witness:
  "audit_ok (fold (\<lambda>(v, e) t. snd (record_best_effort demo_dump v e t))
     [(demo_env, demo_entry), (demo_env, demo_entry\<lparr>en_action := []\<rparr>)] \<lparr>at_rows = [], at_next = 1\<rparr>)"
proof -
  have "audit_ok \<lparr>at_rows = [], at_next = 1\<rparr>" by (simp add: audit_ok_def)
  from audit_append_only [OF this, of demo_dump "[(demo_env, demo_entry), (demo_env, demo_entry\<lparr>en_action := []\<rparr>)]"]
  show ?thesis unfolding Let_def by blast
qed

text \<open>
  Auditing a failed login never fails the login request, and when it is dropped: with the server and
  the JSON library in order and a user name that fits, exactly one row is stored for a client address
  that is empty or has at most 45 characters and none of them a control character; for any other
  address nothing is stored at all. The address comes from the client's own X-Forwarded-For header, so
  a client can keep its failures and lockouts out of the audit log.
\<close>

theorem login_audit_dropped:
  assumes "dv_acquire v = None" and "dv_fault v 0 = None" and "\<forall>j. \<exists>p. dump j = Returns p"
    and "fits 0 100 (Some uname)"
  shows "length (at_rows (record_login_failure dump v uname ip n t))
           = length (at_rows t) + (if ip = [] \<or> fits 1 45 (Some ip) then 1 else 0)
    \<and> length (at_rows (record_login_lockout dump v uname ip n secs threshold t))
           = length (at_rows t) + (if ip = [] \<or> fits 1 45 (Some ip) then 1 else 0)"
proof -
  have r: "length (at_rows (snd (record_best_effort dump v e t)))
      = length (at_rows t) + (if validate_entry e = Inr () then 1 else 0)" for e
  proof (cases "validate_entry e")
    case (Inr u)
    obtain p where "dump (en_payload e) = Returns p" using assms(3) by blast
    then show ?thesis using Inr assms(1,2) by (simp add: record_best_effort_def record_audit_def stmt_def)
  qed (simp add: record_best_effort_def record_audit_def)
  have "fits 1 50 (Some kActionLoginFailure)" "fits 1 50 (Some kActionLoginLockout)" "fits 0 50 (Some ''user'')"
    by (simp_all add: fits_def kActionLoginFailure_def kActionLoginLockout_def is_control_def)
  moreover have "fits 1 45 (if ip \<noteq> [] then Some ip else None) \<longleftrightarrow> ip = [] \<or> fits 1 45 (Some ip)" by (simp add: fits_def)
  ultimately show ?thesis
    using assms(4) unfolding record_login_failure_def record_login_lockout_def r validate_entry_iff by simp
qed

theorem login_audit_dropped_witness:
  "length (at_rows (record_login_failure demo_dump demo_env ''bob'' (replicate 46 (CHR ''9'')) 5 \<lparr>at_rows = [], at_next = 1\<rparr>)) = 0
   \<and> length (at_rows (record_login_failure demo_dump demo_env ''bob'' ''10.0.0.1'' 5 \<lparr>at_rows = [], at_next = 1\<rparr>)) = 1"
proof -
  have e: "dv_acquire demo_env = None" "dv_fault demo_env 0 = None" "\<forall>j. \<exists>p. demo_dump j = Returns p"
    "fits 0 100 (Some ''bob'')"
    by (simp_all add: demo_env_def demo_dump_def fits_def is_control_def)
  have "\<not> fits 1 45 (Some (replicate 46 (CHR ''9'')))" "fits 1 45 (Some ''10.0.0.1'')"
    by (simp_all add: fits_def is_control_def)
  then show ?thesis
    using login_audit_dropped [OF e, of "replicate 46 (CHR ''9'')" 5 "\<lparr>at_rows = [], at_next = 1\<rparr>"]
      login_audit_dropped [OF e, of "''10.0.0.1''" 5 "\<lparr>at_rows = [], at_next = 1\<rparr>"] by simp
qed

section \<open>The clause and its bindings\<close>

text \<open>The conditions of a filter in the order of the text, with the value each placeholder stands for.\<close>

datatype bound = BInt int | BStr string

definition str_cond :: "string \<Rightarrow> string option \<Rightarrow> (string \<times> bound) list" where
  "str_cond c x = (case x of None \<Rightarrow> [] | Some s \<Rightarrow> [(c, BStr s)])"

definition conditions :: "AuditListFilter \<Rightarrow> (string \<times> bound) list" where
  "conditions f =
     (case af_admin_id f of None \<Rightarrow> [] | Some k \<Rightarrow> [(''admin_id = ?'', BInt k)])
     @ str_cond ''action = ?'' (af_action f) @ str_cond ''target_type = ?'' (af_target_type f)
     @ str_cond ''target_id = ?'' (af_target_id f) @ str_cond ''created_at >= ?'' (af_since f)
     @ str_cond ''created_at <  ?'' (af_until f)"

fun render_conditions :: "string \<Rightarrow> string list \<Rightarrow> string" where
  "render_conditions sep [] = []"
| "render_conditions sep (c # cs) = sep @ c @ render_conditions '' AND '' cs"

text \<open>What the callers bind, in order: the integers, then the strings.\<close>

definition bound_values :: "WhereClause \<Rightarrow> bound list" where
  "bound_values w = map BInt (wc_bound_int w) @ map BStr (wc_bound_str w)"

definition in_step :: "WhereClause \<Rightarrow> (string \<times> bound) list \<Rightarrow> bool" where
  "in_step w L \<longleftrightarrow> wc_text w = render_conditions '' WHERE '' (map fst L) \<and> bound_values w = map snd L"

lemma render_snoc:
  "render_conditions sep (cs @ [c]) = render_conditions sep cs @ (if cs = [] then sep else '' AND '') @ c"
  by (induction cs arbitrary: sep) auto

lemma render_empty: "sep \<noteq> [] \<Longrightarrow> render_conditions sep cs = [] \<longleftrightarrow> cs = []"
  by (cases cs) auto

lemma in_step_str: "in_step w L \<Longrightarrow> in_step (add_str c x w) (L @ str_cond c x)"
  by (cases x) (simp_all add: in_step_def add_str_def append_clause_def str_cond_def render_snoc render_empty
      bound_values_def Let_def)

lemma in_step_int:
  "in_step (add_int c x \<lparr>wc_text = [], wc_bound_int = [], wc_bound_str = []\<rparr>)
     (case x of None \<Rightarrow> [] | Some k \<Rightarrow> [(c, BInt k)])"
  by (cases x) (simp_all add: in_step_def add_int_def append_clause_def bound_values_def Let_def)

text \<open>
  The \<^verbatim>\<open>WHERE\<close> text and the bound values are in step: for every filter whose dates pass, the text is the
  list of its conditions joined with AND, and the values bound in order are those of the conditions in
  order, though integers and strings are kept in separate lists.
\<close>

theorem where_clause_in_step:
  assumes "build_where_clause f = (w, [])"
  shows "wc_text w = render_conditions '' WHERE '' (map fst (conditions f)) \<and> bound_values w = map snd (conditions f)"
proof -
  note steps = in_step_str [OF in_step_str [OF in_step_str [OF in_step_str [OF in_step_str [OF in_step_int]]]]]
  have "in_step w (conditions f)"
    using assms steps [of "''created_at <  ?''" "af_until f" "''created_at >= ?''" "af_since f" "''target_id = ?''"
        "af_target_id f" "''target_type = ?''" "af_target_type f" "''action = ?''" "af_action f" "''admin_id = ?''" "af_admin_id f"]
    by (auto simp: build_where_clause_def conditions_def Let_def split: sum.splits)
  then show ?thesis by (simp add: in_step_def)
qed

theorem where_clause_in_step_witness:
  "wc_text (fst (build_where_clause \<lparr>af_admin_id = Some 3, af_action = None, af_target_type = None, af_target_id = None,
     af_since = Some ''2024-01-01'', af_until = None, af_limit = 20, af_offset = 0\<rparr>))
   = '' WHERE admin_id = ? AND created_at >= ?''"
proof -
  let ?f = "\<lparr>af_admin_id = Some 3, af_action = None, af_target_type = None, af_target_id = None,
     af_since = Some ''2024-01-01'', af_until = None, af_limit = 20, af_offset = 0\<rparr>"
  have "build_where_clause ?f = (fst (build_where_clause ?f), [])" by code_simp
  from where_clause_in_step [OF this] show ?thesis by (simp add: conditions_def str_cond_def)
qed

end
