(* ===== verification/Auth_Routes.thy ===== *)
theory Auth_Routes
  imports Password_Hash Cookie_Utils Refresh_Token Rate_Limit Login_Tracker Audit_Log
begin

text \<open>
  \<^verbatim>\<open>src/routes/auth_routes.h\<close>: the handlers of register, login, refresh, logout, profile, avatar,
  user name and lookup, with the routes around them.

  A handler takes the response and the shared state (user tables, audit table, failure tracker,
  revocation store, stored avatar files) and returns them changed; the left component is the exception
  it throws, if any. Everything the handler asks of the outside is in \<open>auth_env\<close>: the JWT and JSON
  libraries, clock readings, random bytes, the answers of the database (the \<open>k\<close>-th call of a handler
  uses \<open>an_db k\<close>) and of the file system. Log lines are left out.

  Main results: what a login, a refresh and a registration require and change, on every path; that a
  refused login tells nothing about the account; how a different spelling of a name escapes the
  lockout; what a profile update does to fields that are not sent.
\<close>

section \<open>Requests and their parsing\<close>

record RegisterRequest =
  rr_username :: string
  rr_password :: string
  rr_email :: "string option"

record LoginRequest =
  lr_username :: string
  lr_password :: string

text \<open>A rejected field: the message and the field name of the 400 envelope.\<close>

type_synonym field_error = "string \<times> string"

definition send_field_error :: "string option \<Rightarrow> field_error \<Rightarrow> http_response \<Rightarrow> http_response" where
  "send_field_error rid e res =
     send_error rid 400 INVALID_INPUT (fst e) (JObj [(''field'', JStr (snd e))]) res"

fun str_value :: "json option \<Rightarrow> string option" where
  "str_value (Some (JStr s)) = Some s"
| "str_value _ = None"

definition check_field :: "string \<Rightarrow> (string \<Rightarrow> string + unit) \<Rightarrow> string \<Rightarrow> field_error + string" where
  "check_field field p s = (case p s of Inl m \<Rightarrow> Inl (m, field) | Inr _ \<Rightarrow> Inr s)"

definition parse_email_field :: "json \<Rightarrow> field_error + string option" where
  "parse_email_field j =
     (case get_member j ''email'' of
        None \<Rightarrow> Inr None
      | Some JNull \<Rightarrow> Inr None
      | Some x \<Rightarrow>
          (case str_value (Some x) of
             None \<Rightarrow> Inl (''`email` must be a string when present'', ''email'')
           | Some s \<Rightarrow> (case check_field ''email'' validate_email s of Inl e \<Rightarrow> Inl e | Inr m \<Rightarrow> Inr (Some m))))"

definition parse_register_request :: "json \<Rightarrow> field_error + RegisterRequest" where
  "parse_register_request j =
     (case str_value (get_member j ''username'') of
        None \<Rightarrow> Inl (''missing or non-string `username`'', ''username'')
      | Some u \<Rightarrow>
      case check_field ''username'' validate_username u of Inl e \<Rightarrow> Inl e | Inr _ \<Rightarrow>
      case str_value (get_member j ''password'') of
        None \<Rightarrow> Inl (''missing or non-string `password`'', ''password'')
      | Some p \<Rightarrow>
      case check_field ''password'' validate_password_strength p of Inl e \<Rightarrow> Inl e | Inr _ \<Rightarrow>
      case parse_email_field j of Inl e \<Rightarrow> Inl e | Inr m \<Rightarrow>
      Inr \<lparr>rr_username = u, rr_password = p, rr_email = m\<rparr>)"

definition parse_login_request :: "json \<Rightarrow> field_error + LoginRequest" where
  "parse_login_request j =
     (case str_value (get_member j ''username'') of
        None \<Rightarrow> Inl (''missing or non-string `username`'', ''username'')
      | Some u \<Rightarrow>
      case check_field ''username'' validate_username u of Inl e \<Rightarrow> Inl e | Inr _ \<Rightarrow>
      case str_value (get_member j ''password'') of
        None \<Rightarrow> Inl (''missing or non-string `password`'', ''password'')
      | Some p \<Rightarrow>
      if p = [] then Inl (''`password` must not be empty'', ''password'')
      else Inr \<lparr>lr_username = u, lr_password = p\<rparr>)"

definition parse_refresh_request :: "json \<Rightarrow> field_error + string" where
  "parse_refresh_request j =
     (case str_value (get_member j ''refresh_token'') of
        None \<Rightarrow> Inl (''missing or non-string `refresh_token`'', ''refresh_token'')
      | Some s \<Rightarrow> if s = [] then Inl (''`refresh_token` must not be empty'', ''refresh_token'') else Inr s)"

definition parse_logout_request :: "json \<Rightarrow> field_error + string option" where
  "parse_logout_request j =
     (case get_member j ''refresh_token'' of
        None \<Rightarrow> Inr None
      | Some x \<Rightarrow>
          (case str_value (Some x) of
             None \<Rightarrow> Inl (''`refresh_token` must be a string when present'', ''refresh_token'')
           | Some s \<Rightarrow>
               if s = [] then Inl (''`refresh_token` must not be empty when present'', ''refresh_token'')
               else Inr (Some s)))"

section \<open>Configuration, environment, state\<close>

record auth_config =
  ac_jwt :: jwt_config
  ac_access_ttl :: int
  ac_refresh_ttl :: int
  ac_cookie :: cookie_config
  ac_cookie_enabled :: bool
  ac_allow_body_fallback :: bool

text \<open>What writing the avatar file does: it may fail to open, or leave other bytes behind, or throw.\<close>

datatype avatar_io = AvatarWritten | AvatarOpenFailed | AvatarWriteFailed string | AvatarThrows string

record auth_env =
  an_lib :: jwt_lib
  an_parse :: "string \<Rightarrow> json outcome"
  an_dump :: "json \<Rightarrow> string outcome"
  an_rid :: "string option"
  an_verify1 :: int
  an_verify2 :: int
  an_issue :: issue_env
  an_rotate :: rotate_env
  an_expires_now :: int
  an_salt_opened :: bool
  an_salt_reads :: "read_result list"
  an_gate :: int
  an_fail :: int
  an_db :: "nat \<Rightarrow> db_env"
  an_time :: int
  an_avatar :: avatar_io

record 's auth_state =
  as_users :: user_db
  as_audit :: audit_table
  as_tracker :: login_tracker
  as_store :: 's
  as_files :: "(string, string) umap"

datatype handler_exn = ThrowsApi ApiException | ThrowsStd string | UndefinedBehaviour

type_synonym 's handler_result = "(handler_exn + unit) \<times> http_response \<times> 's auth_state"

definition done_with :: "http_response \<Rightarrow> 's auth_state \<Rightarrow> 's handler_result" where
  "done_with res s = (Inr (), res, s)"

text \<open>\<^verbatim>\<open>require_authentication\<close> as a handler calls it: its exceptions leave the handler.\<close>

fun guard_exn :: "guard_error \<Rightarrow> handler_exn" where
  "guard_exn (Api e) = ThrowsApi e"
| "guard_exn (Escapes m) = ThrowsStd m"

fun rt_what :: "rt_error \<Rightarrow> string" where
  "rt_what (RefreshTokenError m) = m"
| "rt_what (RefreshTokenRevokedError m) = m"
| "rt_what (RefreshTokenInvalidError m) = m"
| "rt_what (Propagated e) = jwt_what e"

fun password_error_what :: "password_error \<Rightarrow> string" where
  "password_error_what (PasswordPolicyError m) = m"
| "password_error_what (PasswordHashError m) = m"

section \<open>Cookies\<close>

definition set_refresh_cookie :: "auth_config \<Rightarrow> string \<Rightarrow> http_response \<Rightarrow> http_response" where
  "set_refresh_cookie cfg token res =
     (if token = [] then res
      else if \<not> ac_cookie_enabled cfg then res
      else set_header ''Set-Cookie'' (build_set_cookie_header (ac_cookie cfg) token (ac_refresh_ttl cfg)) res)"

definition clear_refresh_cookie :: "auth_config \<Rightarrow> http_response \<Rightarrow> http_response" where
  "clear_refresh_cookie cfg res =
     (if \<not> ac_cookie_enabled cfg then res
      else set_header ''Set-Cookie'' (build_clear_cookie_header (ac_cookie cfg)) res)"

definition extract_refresh_token :: "http_request \<Rightarrow> auth_config \<Rightarrow> string option \<Rightarrow> string" where
  "extract_refresh_token req cfg body =
     (let cookie_value = get_cookie_value (get_header_value req ''Cookie'') (ck_name (ac_cookie cfg)) in
      if cookie_value \<noteq> [] then cookie_value
      else case body of
             Some t \<Rightarrow> if ac_allow_body_fallback cfg then t else []
           | None \<Rightarrow> [])"

section \<open>Answers\<close>

definition opt_json :: "string option \<Rightarrow> json" where
  "opt_json s = (case s of None \<Rightarrow> JNull | Some x \<Rightarrow> JStr x)"

definition session_json :: "int \<Rightarrow> string \<Rightarrow> string \<Rightarrow> string option \<Rightarrow> TokenPair \<Rightarrow> int \<Rightarrow> json" where
  "session_json i uname urole email tokens now =
     JObj [(''user'', JObj [(''id'', JInt i), (''username'', JStr uname), (''role'', JStr urole),
                            (''email'', opt_json email)]),
           (''access_token'', JStr (access_token tokens)),
           (''refresh_token'', JStr (refresh_token tokens)),
           (''token_type'', JStr ''Bearer''),
           (''expires_in'', JInt (access_expires_in_seconds tokens now))]"

definition profile_json :: "UserRow \<Rightarrow> json" where
  "profile_json r =
     JObj [(''id'', JInt (u_id r)), (''username'', JStr (u_username r)),
           (''display_name'', opt_json (u_display_name r)), (''role'', JStr (u_role r)),
           (''email'', opt_json (u_email r)), (''school'', opt_json (u_school r)),
           (''bio'', opt_json (u_bio r)), (''avatar'', opt_json (u_avatar r)),
           (''created_at'', JStr (u_created_at r)), (''last_login'', opt_json (u_last_login r)),
           (''username_changed_at'', opt_json (u_username_changed_at r))]"

text \<open>\<^verbatim>\<open>issue_token_pair\<close> with the settings of the configuration.\<close>

definition issue_session :: "auth_env \<Rightarrow> auth_config \<Rightarrow> int \<Rightarrow> string \<Rightarrow> string \<Rightarrow> rt_error + TokenPair" where
  "issue_session n cfg i uname urole =
     issue_token_pair (an_lib n) (an_issue n) (jc_secret (ac_jwt cfg)) (jc_issuer (ac_jwt cfg)) (to_string i)
       uname urole (ac_access_ttl cfg) (ac_refresh_ttl cfg)"

section \<open>Register\<close>

definition register_conflict ::
    "auth_env \<Rightarrow> RegisterRequest \<Rightarrow> http_response \<Rightarrow> 's auth_state \<Rightarrow> 's handler_result" where
  "register_conflict n r res s =
     (case username_exists (an_db n 1) (rr_username r) (as_users s) of
        Inl e \<Rightarrow> (Inl (ThrowsStd (user_error_what e)), res, s)
      | Inr username_taken \<Rightarrow>
          (case (case rr_email r of None \<Rightarrow> Inr False | Some m \<Rightarrow> email_exists (an_db n 2) m (as_users s)) of
             Inl e \<Rightarrow> (Inl (ThrowsStd (user_error_what e)), res, s)
           | Inr email_taken \<Rightarrow>
               done_with
                 (if username_taken then
                    send_error (an_rid n) 409 CONFLICT ''username already taken'' (JObj [(''field'', JStr ''username'')]) res
                  else if email_taken then
                    send_error (an_rid n) 409 CONFLICT ''email already in use'' (JObj [(''field'', JStr ''email'')]) res
                  else send_error (an_rid n) 409 CONFLICT ''user already exists'' JNull res) s))"

definition register_handler ::
    "auth_env \<Rightarrow> auth_config \<Rightarrow> http_request \<Rightarrow> http_response \<Rightarrow> 's auth_state \<Rightarrow> 's handler_result" where
  "register_handler n cfg req res s =
     (case parse_json_body (an_parse n) (an_rid n) req res of
        (None, res) \<Rightarrow> done_with res s
      | (Some j, res) \<Rightarrow>
      case parse_register_request j of
        Inl e \<Rightarrow> done_with (send_field_error (an_rid n) e res) s
      | Inr r \<Rightarrow>
      case hash_password (rr_password r) (an_salt_opened n) (an_salt_reads n) of
        Inl e \<Rightarrow> (Inl (ThrowsStd (password_error_what e)), res, s)
      | Inr h \<Rightarrow>
      let row = \<lparr>u_id = 0, u_username = rr_username r, u_display_name = None, u_password_hash = h, u_role = ''user'',
                 u_token_version = 0, u_email = rr_email r, u_school = None, u_bio = None, u_avatar = None,
                 u_created_at = [], u_last_login = None, u_last_login_ip = None, u_username_changed_at = None\<rparr> in
      case create_user (an_db n 0) row (as_users s) of
        Inl e \<Rightarrow>
          done_with (send_error (an_rid n) 500 INTERNAL_ERROR (''failed to create user: '' @ user_error_what e) JNull res) s
      | Inr (new_id, d) \<Rightarrow>
      let s = s\<lparr>as_users := d\<rparr> in
      if new_id = 0 then register_conflict n r res s
      else case issue_session n cfg new_id (u_username row) (u_role row) of
        Inl e \<Rightarrow>
          done_with (send_error (an_rid n) 500 INTERNAL_ERROR
            (''user created but session could not be issued: '' @ rt_what e) JNull res) s
      | Inr tokens \<Rightarrow>
          done_with (send_created (an_rid n)
            (session_json new_id (u_username row) (u_role row) (u_email row) tokens (an_expires_now n))
            (set_refresh_cookie cfg (refresh_token tokens) res)) s)"

section \<open>Login\<close>

definition deny_login ::
    "auth_env \<Rightarrow> string \<Rightarrow> string \<Rightarrow> http_response \<Rightarrow> 's auth_state \<Rightarrow> 's handler_result" where
  "deny_login n client_ip uname res s =
     (let (oc, tr) = record_failure (an_fail n) uname (as_tracker s);
          a1 = (if oc_should_audit oc
                then record_login_failure (an_dump n) (an_db n 1) uname client_ip (oc_count oc) (as_audit s)
                else as_audit s);
          a2 = (if oc_locked oc
                then record_login_lockout (an_dump n) (an_db n 2) uname client_ip (oc_count oc)
                       (oc_locked_for_seconds oc) (lo_threshold (lt_cfg tr)) a1
                else a1)
      in done_with (send_error (an_rid n) 401 UNAUTHORIZED ''invalid username or password'' JNull res)
           (s\<lparr>as_tracker := tr, as_audit := a2\<rparr>))"

definition grant_login ::
    "auth_env \<Rightarrow> auth_config \<Rightarrow> string \<Rightarrow> UserRow \<Rightarrow> http_response \<Rightarrow> 's auth_state \<Rightarrow> 's handler_result" where
  "grant_login n cfg client_ip row res s =
     (let s = s\<lparr>as_tracker := reset_failures (u_username row) (as_tracker s)\<rparr> in
      case update_last_login (an_db n 3) (u_id row) client_ip (as_users s) of
        Inl e \<Rightarrow> (Inl (ThrowsStd (user_error_what e)), res, s)
      | Inr d \<Rightarrow>
      let s = s\<lparr>as_users := d\<rparr> in
      case issue_session n cfg (u_id row) (u_username row) (u_role row) of
        Inl e \<Rightarrow>
          done_with (send_error (an_rid n) 500 INTERNAL_ERROR (''session could not be issued: '' @ rt_what e) JNull res) s
      | Inr tokens \<Rightarrow>
          done_with (send_success (an_rid n)
            (session_json (u_id row) (u_username row) (u_role row) (u_email row) tokens (an_expires_now n))
            (set_refresh_cookie cfg (refresh_token tokens) res)) s)"

definition login_attempt ::
    "auth_env \<Rightarrow> auth_config \<Rightarrow> string \<Rightarrow> LoginRequest \<Rightarrow> http_response \<Rightarrow> 's auth_state \<Rightarrow> 's handler_result" where
  "login_attempt n cfg client_ip r res s =
     (case find_user_by_name (an_db n 0) (lr_username r) (as_users s) of
        Inl e \<Rightarrow> done_with (send_error (an_rid n) 500 INTERNAL_ERROR (''internal error: '' @ user_error_what e) JNull res) s
      | Inr None \<Rightarrow> deny_login n client_ip (lr_username r) res s
      | Inr (Some row) \<Rightarrow>
          if \<not> verify_password (lr_password r) (u_password_hash row)
          then deny_login n client_ip (u_username row) res s
          else grant_login n cfg client_ip row res s)"

definition login_handler ::
    "auth_env \<Rightarrow> auth_config \<Rightarrow> string \<Rightarrow> http_request \<Rightarrow> http_response \<Rightarrow> 's auth_state \<Rightarrow> 's handler_result" where
  "login_handler n cfg client_ip req res s =
     (case parse_json_body (an_parse n) (an_rid n) req res of
        (None, res) \<Rightarrow> done_with res s
      | (Some j, res) \<Rightarrow>
      case parse_login_request j of
        Inl e \<Rightarrow> done_with (send_field_error (an_rid n) e res) s
      | Inr r \<Rightarrow>
      let (locked, remaining) = is_locked (an_gate n) (lr_username r) (as_tracker s) in
      if lo_enabled (lt_cfg (as_tracker s)) \<and> locked then
        done_with
          (send_error (an_rid n) 423 FORBIDDEN ''invalid username or password''
             (JObj [(''retry_after_seconds'', JInt remaining)])
             (set_header ''Retry-After'' (to_string (if remaining > 0 then remaining else 1)) res)) s
      else login_attempt n cfg client_ip r res s)"

section \<open>Refresh\<close>

definition refresh_denied :: "auth_env \<Rightarrow> http_response \<Rightarrow> 's auth_state \<Rightarrow> 's handler_result" where
  "refresh_denied n res s =
     done_with (send_error (an_rid n) 401 UNAUTHORIZED ''invalid or expired refresh token'' JNull res) s"

definition internal_error :: "auth_env \<Rightarrow> string \<Rightarrow> http_response \<Rightarrow> 's auth_state \<Rightarrow> 's handler_result" where
  "internal_error n what res s =
     done_with (send_error (an_rid n) 500 INTERNAL_ERROR (''internal error: '' @ what) JNull res) s"

text \<open>From the presented token on; \<open>c\<close> are the claims of the first verification.\<close>

definition refresh_rotate ::
    "'s store_ops \<Rightarrow> auth_env \<Rightarrow> auth_config \<Rightarrow> string \<Rightarrow> UserRow \<Rightarrow> http_response \<Rightarrow> 's auth_state \<Rightarrow> 's handler_result" where
  "refresh_rotate ops n cfg presented row res s =
     (let (r, st) = rotate_token_pair ops (an_lib n) (an_rotate n) (jc_secret (ac_jwt cfg)) (jc_issuer (ac_jwt cfg))
                      presented (u_username row) (u_role row) (ac_access_ttl cfg) (ac_refresh_ttl cfg) (as_store s);
          s = s\<lparr>as_store := st\<rparr>
      in case r of
           Inl (RefreshTokenRevokedError _) \<Rightarrow> refresh_denied n res s
         | Inl (RefreshTokenInvalidError _) \<Rightarrow> refresh_denied n res s
         | Inl e \<Rightarrow> internal_error n (rt_what e) res s
         | Inr tokens \<Rightarrow>
             done_with (send_success (an_rid n)
               (session_json (u_id row) (u_username row) (u_role row) (u_email row) tokens (an_expires_now n))
               (set_refresh_cookie cfg (refresh_token tokens) res)) s)"

definition refresh_with ::
    "'s store_ops \<Rightarrow> auth_env \<Rightarrow> auth_config \<Rightarrow> string \<Rightarrow> http_response \<Rightarrow> 's auth_state \<Rightarrow> 's handler_result" where
  "refresh_with ops n cfg presented res s =
     (case verify (an_lib n) (an_verify1 n) (an_verify2 n) presented (jc_secret (ac_jwt cfg)) (jc_issuer (ac_jwt cfg)) Refresh of
        Inl x \<Rightarrow> if is_jwt_error x then refresh_denied n res s else (Inl (ThrowsStd (jwt_what x)), res, s)
      | Inr c \<Rightarrow>
      case stoi (user_id c) of
        None \<Rightarrow> refresh_denied n res s
      | Some i \<Rightarrow>
      if i \<le> 0 then refresh_denied n res s
      else case find_user_by_id (an_db n 0) i (as_users s) of
        Inl e \<Rightarrow> internal_error n (user_error_what e) res s
      | Inr None \<Rightarrow> refresh_denied n res s
      | Inr (Some row) \<Rightarrow> refresh_rotate ops n cfg presented row res s)"

definition refresh_handler ::
    "'s store_ops \<Rightarrow> auth_env \<Rightarrow> auth_config \<Rightarrow> http_request \<Rightarrow> http_response \<Rightarrow> 's auth_state \<Rightarrow> 's handler_result" where
  "refresh_handler ops n cfg req res s =
     (let (j, res) = parse_json_body (an_parse n) (an_rid n) req res;
          body = (case j of
                    None \<Rightarrow> Inr None
                  | Some v \<Rightarrow>
                      if get_member v ''refresh_token'' = None then Inr None
                      else (case parse_refresh_request v of Inl e \<Rightarrow> Inl e | Inr t \<Rightarrow> Inr (Some t)))
      in case body of
           Inl e \<Rightarrow> done_with (send_field_error (an_rid n) e res) s
         | Inr b \<Rightarrow>
             let presented = extract_refresh_token req cfg b in
             if presented = [] then refresh_denied n res s
             else refresh_with ops n cfg presented res s)"

section \<open>Logout\<close>

definition logout_with ::
    "'s store_ops \<Rightarrow> auth_env \<Rightarrow> auth_config \<Rightarrow> http_request \<Rightarrow> Claims \<Rightarrow> string option \<Rightarrow> http_response
       \<Rightarrow> 's auth_state \<Rightarrow> 's handler_result" where
  "logout_with ops n cfg req c body_refresh res s =
     (let presented = extract_refresh_token req cfg body_refresh;
          answer = (\<lambda>revoked s. done_with (send_success (an_rid n)
                      (JObj [(''logged_out'', JBool True), (''revoked'', JBool revoked)]) res) s)
      in if presented = [] then answer False s
         else case revoke_refresh_token ops (an_lib n) (an_rotate n) presented (jc_secret (ac_jwt cfg))
                     (jc_issuer (ac_jwt cfg)) (ac_refresh_ttl cfg) (user_id c) (as_store s) of
                (Inl x, st) \<Rightarrow> (Inl (ThrowsStd (jwt_what x)), res, s\<lparr>as_store := st\<rparr>)
              | (Inr ro, st) \<Rightarrow> answer (ro_revoked ro) (s\<lparr>as_store := st\<rparr>))"

definition logout_handler ::
    "'s store_ops \<Rightarrow> auth_env \<Rightarrow> auth_config \<Rightarrow> http_request \<Rightarrow> http_response \<Rightarrow> 's auth_state \<Rightarrow> 's handler_result" where
  "logout_handler ops n cfg req res s =
     (case require_authentication (an_lib n) (an_verify1 n) (an_verify2 n) req (ac_jwt cfg) of
        Inl e \<Rightarrow> (Inl (guard_exn e), res, s)
      | Inr c \<Rightarrow>
      let res = clear_refresh_cookie cfg res in
      if req_body req = [] then logout_with ops n cfg req c None res s
      else case parse_json_body (an_parse n) (an_rid n) req res of
             (None, res) \<Rightarrow> done_with res s
           | (Some j, res) \<Rightarrow>
               (case parse_logout_request j of
                  Inl e \<Rightarrow> done_with (send_field_error (an_rid n) e res) s
                | Inr b \<Rightarrow> logout_with ops n cfg req c b res s))"

section \<open>Profile\<close>

definition profile_handler ::
    "auth_env \<Rightarrow> auth_config \<Rightarrow> http_request \<Rightarrow> http_response \<Rightarrow> 's auth_state \<Rightarrow> 's handler_result" where
  "profile_handler n cfg req res s =
     (case require_authentication (an_lib n) (an_verify1 n) (an_verify2 n) req (ac_jwt cfg) of
        Inl e \<Rightarrow> (Inl (guard_exn e), res, s)
      | Inr c \<Rightarrow>
      case stoi (user_id c) of
        None \<Rightarrow> done_with (send_error (an_rid n) 401 UNAUTHORIZED ''invalid or expired token'' JNull res) s
      | Some i \<Rightarrow>
      if i \<le> 0 then done_with (send_error (an_rid n) 401 UNAUTHORIZED ''invalid or expired token'' JNull res) s
      else case find_user_by_id (an_db n 0) i (as_users s) of
        Inl e \<Rightarrow> internal_error n (user_error_what e) res s
      | Inr None \<Rightarrow> done_with (send_error (an_rid n) 401 UNAUTHORIZED ''user not found'' JNull res) s
      | Inr (Some row) \<Rightarrow> done_with (send_success (an_rid n) (JObj [(''user'', profile_json row)]) res) s)"

definition user_id_from_claims :: "Claims \<Rightarrow> handler_exn + int" where
  "user_id_from_claims c =
     (case stoi (user_id c) of
        None \<Rightarrow> Inl (ThrowsApi \<lparr>ae_status = 401, ae_code = UNAUTHORIZED, ae_message = ''invalid sub claim'', ae_details = JNull\<rparr>)
      | Some i \<Rightarrow>
          if i \<le> 0 then
            Inl (ThrowsApi \<lparr>ae_status = 401, ae_code = UNAUTHORIZED, ae_message = ''non-positive sub claim'', ae_details = JNull\<rparr>)
          else Inr i)"

definition validate_display_name :: "string \<Rightarrow> string + unit" where
  "validate_display_name s =
     (if s = [] then Inl ''display_name must not be empty (use null to clear)''
      else if length s > 50 then Inl ''display_name too long (max 50 chars)''
      else Inr ())"

definition validate_school :: "string \<Rightarrow> string + unit" where
  "validate_school s = (if length s > 100 then Inl ''school too long (max 100 chars)'' else Inr ())"

definition validate_bio :: "string \<Rightarrow> string + unit" where
  "validate_bio s = (if length s > 500 then Inl ''bio too long (max 500 chars)'' else Inr ())"

definition validate_email_field :: "string \<Rightarrow> string + unit" where
  "validate_email_field s =
     (if s = [] then Inl ''email must not be empty (use null to clear)''
      else if length s > 100 then Inl ''email too long (max 100 chars)''
      else case split_at_char (CHR ''@'') s of
             None \<Rightarrow> Inl (''email missing '@' or local/domain part empty'')
           | Some (l, d) \<Rightarrow>
               if l = [] \<or> d = [] then Inl (''email missing '@' or local/domain part empty'')
               else case split_at_char (CHR ''.'') d of
                      None \<Rightarrow> Inl (''email domain part missing '.'' @ [quote])
                    | Some (_, r) \<Rightarrow> if r = [] then Inl (''email domain part missing '.'' @ [quote]) else Inr ())"

text \<open>An optional field of the profile: absent and null both give no value.\<close>

definition profile_field :: "json \<Rightarrow> string \<Rightarrow> (string \<Rightarrow> string + unit) \<Rightarrow> field_error + string option" where
  "profile_field j field p =
     (case get_member j field of
        None \<Rightarrow> Inr None
      | Some JNull \<Rightarrow> Inr None
      | Some x \<Rightarrow>
          (case str_value (Some x) of
             None \<Rightarrow> Inl (field @ '' must be a string or null'', field)
           | Some v \<Rightarrow> (case check_field field p v of Inl e \<Rightarrow> Inl e | Inr w \<Rightarrow> Inr (Some w))))"

fun is_object :: "json \<Rightarrow> bool" where
  "is_object (JObj _) = True"
| "is_object _ = False"

definition parse_profile ::
    "json \<Rightarrow> field_error + (string option \<times> string option \<times> string option \<times> string option)" where
  "parse_profile j =
     (case profile_field j ''display_name'' validate_display_name of Inl e \<Rightarrow> Inl e | Inr dn \<Rightarrow>
      case profile_field j ''school'' validate_school of Inl e \<Rightarrow> Inl e | Inr sc \<Rightarrow>
      case profile_field j ''bio'' validate_bio of Inl e \<Rightarrow> Inl e | Inr b \<Rightarrow>
      case profile_field j ''email'' validate_email_field of Inl e \<Rightarrow> Inl e | Inr m \<Rightarrow>
      Inr (dn, sc, b, m))"

definition store_profile ::
    "auth_env \<Rightarrow> int \<Rightarrow> string option \<times> string option \<times> string option \<times> string option \<Rightarrow> http_response
       \<Rightarrow> 's auth_state \<Rightarrow> 's handler_result" where
  "store_profile n i p res s =
     (let (dn, sc, b, m) = p in
      case update_profile (an_db n 0) i dn sc b m (as_users s) of
        Inl e \<Rightarrow> (Inl (ThrowsStd (user_error_what e)), res, s)
      | Inr (False, d) \<Rightarrow>
          let s = s\<lparr>as_users := d\<rparr> in
          (case (case m of None \<Rightarrow> Inr False | Some x \<Rightarrow> email_exists (an_db n 1) x (as_users s)) of
             Inl e \<Rightarrow> (Inl (ThrowsStd (user_error_what e)), res, s)
           | Inr True \<Rightarrow>
               done_with (send_error (an_rid n) 409 CONFLICT ''email already in use'' (JObj [(''field'', JStr ''email'')]) res) s
           | Inr False \<Rightarrow> done_with (send_error (an_rid n) 404 NOT_FOUND ''user not found'' JNull res) s)
      | Inr (True, d) \<Rightarrow>
          let s = s\<lparr>as_users := d\<rparr> in
          (case find_user_by_id (an_db n 1) i (as_users s) of
             Inl e \<Rightarrow> (Inl (ThrowsStd (user_error_what e)), res, s)
           | Inr None \<Rightarrow> done_with (send_error (an_rid n) 500 INTERNAL_ERROR ''user vanished after update'' JNull res) s
           | Inr (Some row) \<Rightarrow> done_with (send_success (an_rid n) (JObj [(''user'', profile_json row)]) res) s))"

definition update_profile_handler ::
    "auth_env \<Rightarrow> auth_config \<Rightarrow> http_request \<Rightarrow> http_response \<Rightarrow> 's auth_state \<Rightarrow> 's handler_result" where
  "update_profile_handler n cfg req res s =
     (case require_authentication (an_lib n) (an_verify1 n) (an_verify2 n) req (ac_jwt cfg) of
        Inl e \<Rightarrow> (Inl (guard_exn e), res, s)
      | Inr c \<Rightarrow>
      case user_id_from_claims c of
        Inl e \<Rightarrow> (Inl e, res, s)
      | Inr i \<Rightarrow>
      case an_parse n (req_body req) of
        Throws e \<Rightarrow> done_with (send_error (an_rid n) 400 INVALID_INPUT (''malformed JSON: '' @ e) JNull res) s
      | Returns j \<Rightarrow>
      if \<not> is_object j then done_with (send_error (an_rid n) 400 INVALID_INPUT ''body must be a JSON object'' JNull res) s
      else case parse_profile j of
             Inl e \<Rightarrow> done_with (send_field_error (an_rid n) e res) s
           | Inr p \<Rightarrow> store_profile n i p res s)"

section \<open>Avatar\<close>

abbreviation (input) kMaxAvatarBytes :: int where
  "kMaxAvatarBytes \<equiv> 2097152"

definition avatar_ext :: "string \<Rightarrow> string option" where
  "avatar_ext bytes =
     (if starts_with [CHR 0xFF, CHR 0xD8, CHR 0xFF] bytes then Some ''.jpg''
      else if starts_with [CHR 0x89, CHR ''P'', CHR ''N'', CHR ''G'', CHR 0x0D, CHR 0x0A, CHR 0x1A, CHR 0x0A] bytes
      then Some ''.png''
      else None)"

definition store_avatar ::
    "auth_env \<Rightarrow> int \<Rightarrow> string \<Rightarrow> string \<Rightarrow> http_response \<Rightarrow> 's auth_state \<Rightarrow> 's handler_result" where
  "store_avatar n i ext bytes res s =
     (let path = ''/app/uploads/avatars/'' @ to_string i @ ext;
          url = ''/uploads/avatars/'' @ to_string i @ ext;
          fail = (\<lambda>m s. done_with (send_error (an_rid n) 500 INTERNAL_ERROR m JNull res) s)
      in case an_avatar n of
           AvatarThrows m \<Rightarrow> fail (''avatar write failed: '' @ m) s
         | AvatarOpenFailed \<Rightarrow> fail (''failed to open avatar file for writing: '' @ path) s
         | AvatarWriteFailed left \<Rightarrow>
             fail (''failed to write avatar bytes to: '' @ path) (s\<lparr>as_files := um_put path left (as_files s)\<rparr>)
         | AvatarWritten \<Rightarrow>
             let s = s\<lparr>as_files := um_put path bytes (as_files s)\<rparr> in
             (case update_avatar (an_db n 0) i (Some url) (as_users s) of
                Inl e \<Rightarrow> (Inl (ThrowsStd (user_error_what e)), res, s)
              | Inr (changed, d) \<Rightarrow>
                  let s = s\<lparr>as_users := d\<rparr> in
                  if \<not> changed then done_with (send_error (an_rid n) 404 NOT_FOUND ''user not found'' JNull res) s
                  else done_with (send_success (an_rid n) (JObj [(''avatar'', JStr url)]) res) s))"

text \<open>\<open>file\<close> is the content and the content type of the multipart field, if the request has it.\<close>

definition update_avatar_handler ::
    "auth_env \<Rightarrow> auth_config \<Rightarrow> (string \<times> string) option \<Rightarrow> http_request \<Rightarrow> http_response \<Rightarrow> 's auth_state
       \<Rightarrow> 's handler_result" where
  "update_avatar_handler n cfg file req res s =
     (case require_authentication (an_lib n) (an_verify1 n) (an_verify2 n) req (ac_jwt cfg) of
        Inl e \<Rightarrow> (Inl (guard_exn e), res, s)
      | Inr c \<Rightarrow>
      case user_id_from_claims c of
        Inl e \<Rightarrow> (Inl e, res, s)
      | Inr i \<Rightarrow>
      case file of
        None \<Rightarrow>
          done_with (send_error (an_rid n) 400 INVALID_INPUT (''missing 'avatar' field in multipart body'')
            (JObj [(''expected_field'', JStr ''avatar'')]) res) s
      | Some (bytes, ctype) \<Rightarrow>
      if int (length bytes) > kMaxAvatarBytes then
        done_with (send_error (an_rid n) 413 INVALID_INPUT ''avatar too large (max 2 MB)''
          (JObj [(''max_bytes'', JInt kMaxAvatarBytes), (''got_bytes'', JInt (int (length bytes)))]) res) s
      else if bytes = [] then
        done_with (send_error (an_rid n) 400 INVALID_INPUT ''avatar file is empty'' JNull res) s
      else case avatar_ext bytes of
             None \<Rightarrow>
               done_with (send_error (an_rid n) 400 INVALID_INPUT ''avatar must be JPEG or PNG (magic bytes mismatch)''
                 (JObj [(''content_type'', JStr ctype)]) res) s
           | Some ext \<Rightarrow> store_avatar n i ext bytes res s)"

section \<open>User name\<close>

abbreviation (input) kUsernameChangeCooldownSeconds :: int where
  "kUsernameChangeCooldownSeconds \<equiv> 86400"

text \<open>\<^verbatim>\<open>sscanf\<close> with the format \<^verbatim>\<open>%d-%d-%d %d:%d:%d\<close>; \<open>None\<close> when fewer than six fields are read.\<close>

definition skip_char :: "char \<Rightarrow> string \<Rightarrow> string option" where
  "skip_char c s = (case s of x # xs \<Rightarrow> if x = c then Some xs else None | [] \<Rightarrow> None)"

definition scan_datetime :: "string \<Rightarrow> (int \<times> int \<times> int \<times> int \<times> int \<times> int) option" where
  "scan_datetime s0 =
     Option.bind (scan_int s0) (\<lambda>(y, s). Option.bind (skip_char (CHR ''-'') s) (\<lambda>s.
     Option.bind (scan_int s) (\<lambda>(mo, s). Option.bind (skip_char (CHR ''-'') s) (\<lambda>s.
     Option.bind (scan_int s) (\<lambda>(d, s). let s = dropWhile isspace s in
     Option.bind (scan_int s) (\<lambda>(h, s). Option.bind (skip_char (CHR '':'') s) (\<lambda>s.
     Option.bind (scan_int s) (\<lambda>(mi, s). Option.bind (skip_char (CHR '':'') s) (\<lambda>s.
     Option.bind (scan_int s) (\<lambda>(se, _). Some (y, mo, d, h, mi, se)))))))))))"

text \<open>Days since 1970-01-01 in the Gregorian calendar, and \<^verbatim>\<open>timegm\<close> of the scanned fields.\<close>

definition days_from_civil :: "int \<Rightarrow> int \<Rightarrow> int \<Rightarrow> int" where
  "days_from_civil y m d =
     (let y = (if m \<le> 2 then y - 1 else y); era = y div 400; yoe = y - era * 400;
          doy = (153 * (if m > 2 then m - 3 else m + 9) + 2) div 5 + d - 1;
          doe = yoe * 365 + yoe div 4 - yoe div 100 + doy
      in era * 146097 + doe - 719468)"

definition timegm :: "int \<Rightarrow> int \<Rightarrow> int \<Rightarrow> int \<Rightarrow> int \<Rightarrow> int \<Rightarrow> int" where
  "timegm y mo d h mi se =
     days_from_civil (y + (mo - 1) div 12) ((mo - 1) mod 12 + 1) d * 86400 + h * 3600 + mi * 60 + se"

definition kSuperAdminLocked :: string where
  "kSuperAdminLocked = map char_of [232, 182, 133, 231, 186, 167, 231, 174, 161, 231, 144, 134, 229, 145, 152, 231, 148, 168, 230, 136, 183, 229, 144, 141, 228, 184, 141, 229, 143, 175, 228, 191, 174, 230, 148, 185 :: nat]"

definition kAdminReserved :: string where
  "kAdminReserved = map char_of [39, 97, 100, 109, 105, 110, 39, 32, 230, 152, 175, 231, 179, 187, 231, 187, 159, 228, 191, 157, 231, 149, 153, 231, 148, 168, 230, 136, 183, 229, 144, 141, 44, 228, 184, 141, 229, 143, 175, 229, 141, 160, 231, 148, 168 :: nat]"

text \<open>The seconds still to wait since the last change, if there are any.\<close>

definition rename_cooldown :: "int \<Rightarrow> UserRow \<Rightarrow> int option" where
  "rename_cooldown now row =
     (case Option.bind (u_username_changed_at row) (\<lambda>t. scan_datetime (c_str t)) of
        None \<Rightarrow> None
      | Some (y, mo, d, h, mi, se) \<Rightarrow>
          let elapsed = now - timegm y mo d h mi se in
          if elapsed < kUsernameChangeCooldownSeconds
          then Some (kUsernameChangeCooldownSeconds - sint (word_of_int elapsed :: 32 word)) else None)"

definition store_username ::
    "auth_env \<Rightarrow> int \<Rightarrow> string \<Rightarrow> UserRow \<Rightarrow> http_response \<Rightarrow> 's auth_state \<Rightarrow> 's handler_result" where
  "store_username n i new_username row res s =
     (case username_exists (an_db n 1) new_username (as_users s) of
        Inl e \<Rightarrow> (Inl (ThrowsStd (user_error_what e)), res, s)
      | Inr True \<Rightarrow>
          done_with (send_error (an_rid n) 409 CONFLICT ''username already taken'' (JObj [(''field'', JStr ''username'')]) res) s
      | Inr False \<Rightarrow>
          let (r, d) = update_username (an_db n 2) i new_username (as_users s); s = s\<lparr>as_users := d\<rparr> in
          (case r of
             Inl e \<Rightarrow> (Inl (ThrowsStd (user_error_what e)), res, s)
           | Inr False \<Rightarrow>
               done_with (send_error (an_rid n) 409 CONFLICT ''username already taken (race)''
                 (JObj [(''field'', JStr ''username'')]) res) s
           | Inr True \<Rightarrow>
               done_with (send_success (an_rid n)
                 (JObj [(''username'', JStr new_username), (''old_alias'', JStr (u_username row)), (''changed'', JBool True)]) res) s))"

definition rename_user ::
    "auth_env \<Rightarrow> int \<Rightarrow> string \<Rightarrow> http_response \<Rightarrow> 's auth_state \<Rightarrow> 's handler_result" where
  "rename_user n i new_username res s =
     (case find_user_by_id (an_db n 0) i (as_users s) of
        Inl e \<Rightarrow> (Inl (ThrowsStd (user_error_what e)), res, s)
      | Inr None \<Rightarrow> done_with (send_error (an_rid n) 404 NOT_FOUND ''user not found'' JNull res) s
      | Inr (Some row) \<Rightarrow>
          if u_username row = new_username then
            done_with (send_success (an_rid n) (JObj [(''username'', JStr new_username), (''changed'', JBool False)]) res) s
          else case rename_cooldown (an_time n) row of
                 Some retry_after \<Rightarrow>
                   done_with (send_error (an_rid n) 429 RATE_LIMITED ''username can only be changed once per day''
                     (JObj [(''retry_after_seconds'', JInt retry_after)])
                     (set_header ''Retry-After'' (to_string retry_after) res)) s
               | None \<Rightarrow> store_username n i new_username row res s)"

definition update_username_handler ::
    "auth_env \<Rightarrow> auth_config \<Rightarrow> http_request \<Rightarrow> http_response \<Rightarrow> 's auth_state \<Rightarrow> 's handler_result" where
  "update_username_handler n cfg req res s =
     (case require_authentication (an_lib n) (an_verify1 n) (an_verify2 n) req (ac_jwt cfg) of
        Inl e \<Rightarrow> (Inl (guard_exn e), res, s)
      | Inr c \<Rightarrow>
      case user_id_from_claims c of
        Inl e \<Rightarrow> (Inl e, res, s)
      | Inr i \<Rightarrow>
      case an_parse n (req_body req) of
        Throws e \<Rightarrow> done_with (send_error (an_rid n) 400 INVALID_INPUT (''malformed JSON: '' @ e) JNull res) s
      | Returns j \<Rightarrow>
      case str_value (get_member j ''username'') of
        None \<Rightarrow> done_with (send_field_error (an_rid n) (''missing or non-string `username`'', ''username'') res) s
      | Some new_username \<Rightarrow>
      case check_field ''username'' validate_username new_username of
        Inl e \<Rightarrow> done_with (send_field_error (an_rid n) e res) s
      | Inr _ \<Rightarrow>
      if username c = ''admin'' \<and> new_username \<noteq> ''admin'' then
        done_with (send_error (an_rid n) 400 INVALID_INPUT kSuperAdminLocked
          (JObj [(''field'', JStr ''username''), (''reason'', JStr ''super_admin_locked'')]) res) s
      else if new_username = ''admin'' \<and> username c \<noteq> ''admin'' then
        done_with (send_error (an_rid n) 409 CONFLICT kAdminReserved
          (JObj [(''field'', JStr ''username''), (''reason'', JStr ''username_reserved'')]) res) s
      else rename_user n i new_username res s)"

section \<open>Lookup\<close>

text \<open>\<open>uname\<close> is the query parameter.\<close>

definition lookup_user_handler ::
    "auth_env \<Rightarrow> string \<Rightarrow> http_response \<Rightarrow> 's auth_state \<Rightarrow> 's handler_result" where
  "lookup_user_handler n uname res s =
     (let found = (\<lambda>via i cur. done_with (send_success (an_rid n)
            (JObj [(''found'', JBool True), (''via'', JStr via), (''user_id'', JInt i), (''current_username'', JStr cur)]) res) s)
      in if uname = [] then
           done_with (send_error (an_rid n) 400 INVALID_INPUT ''missing `username` query parameter''
             (JObj [(''field'', JStr ''username'')]) res) s
         else case find_user_by_name (an_db n 0) uname (as_users s) of
                Inl e \<Rightarrow> (Inl (ThrowsStd (user_error_what e)), res, s)
              | Inr (Some row) \<Rightarrow> found ''current'' (u_id row) (u_username row)
              | Inr None \<Rightarrow>
                  (case find_by_old_username (an_db n 1) uname (as_users s) of
                     Inl e \<Rightarrow> (Inl (ThrowsStd (user_error_what e)), res, s)
                   | Inr (Some hit) \<Rightarrow> found ''alias'' (oh_user_id hit) (oh_current_username hit)
                   | Inr None \<Rightarrow>
                       done_with (send_error (an_rid n) 404 NOT_FOUND ''no such user (and no alias)''
                         (JObj [(''username'', JStr uname)]) res) s))"

section \<open>Routes\<close>

text \<open>The \<^verbatim>\<open>try\<close> block around every handler.\<close>

definition route_guard :: "string option \<Rightarrow> 's handler_result \<Rightarrow> 's handler_result" where
  "route_guard rid r =
     (case r of
        (Inl (ThrowsStd m), res, s) \<Rightarrow>
          if rsp_content res = None
          then done_with (send_error rid 500 INTERNAL_ERROR (''internal error: '' @ m) JNull res) s
          else r
      | _ \<Rightarrow> r)"

text \<open>
  The printing of the answer, the last thing a handler does: if it throws, the status is set but there is no new content.
  \<open>res0\<close> is the response the handler was given.
\<close>

definition printed :: "(json \<Rightarrow> string outcome) \<Rightarrow> http_response \<Rightarrow>
    (handler_exn + unit) \<times> http_response \<times> 's \<Rightarrow> (handler_exn + unit) \<times> http_response \<times> 's" where
  "printed dump res0 r =
     (case r of
        (Inr _, res, s) \<Rightarrow>
          (case rsp_content res of
             None \<Rightarrow> r
           | Some (j, _) \<Rightarrow>
               (case dump j of
                  Returns _ \<Rightarrow> r
                | Throws m \<Rightarrow> (Inl (ThrowsStd m), res\<lparr>rsp_content := rsp_content res0\<rparr>, s)))
      | _ \<Rightarrow> r)"

definition limited_route ::
    "auth_env \<Rightarrow> int \<Rightarrow> RateLimitQuota \<Rightarrow> http_request \<Rightarrow> (http_response \<Rightarrow> 's auth_state \<Rightarrow> 's handler_result)
       \<Rightarrow> http_response \<Rightarrow> 's auth_state \<times> limiter \<Rightarrow> (handler_exn + unit) \<times> http_response \<times> 's auth_state \<times> limiter" where
  "limited_route n now q req h res sm =
     (let (s, m) = sm; (g, res, m) = consume_rate_limit (an_parse n) now res req m q
      in case g of
           Limited e \<Rightarrow> (Inl (ThrowsApi e), res, s, m)
         | UndefinedConversion \<Rightarrow> (Inl UndefinedBehaviour, res, s, m)
         | Passes \<Rightarrow> (case route_guard (an_rid n) (printed (an_dump n) res (h res s)) of (r, res, s) \<Rightarrow> (r, res, s, m)))"

definition register_route ::
    "auth_env \<Rightarrow> auth_config \<Rightarrow> RateLimitConfig \<Rightarrow> int \<Rightarrow> http_request \<Rightarrow> http_response \<Rightarrow> 's auth_state \<times> limiter
       \<Rightarrow> (handler_exn + unit) \<times> http_response \<times> 's auth_state \<times> limiter" where
  "register_route n cfg rate now req res sm =
     limited_route n now (auth_register_quota rate) req (register_handler n cfg req) res sm"

definition login_route ::
    "auth_env \<Rightarrow> auth_config \<Rightarrow> RateLimitConfig \<Rightarrow> int \<Rightarrow> http_request \<Rightarrow> http_response \<Rightarrow> 's auth_state \<times> limiter
       \<Rightarrow> (handler_exn + unit) \<times> http_response \<times> 's auth_state \<times> limiter" where
  "login_route n cfg rate now req res sm =
     limited_route n now (auth_login_quota rate) req (login_handler n cfg (extract_client_ip req) req) res sm"

datatype auth_route =
    RtRefresh
  | RtLogout
  | RtProfile
  | RtUpdateProfile
  | RtAvatar "(string \<times> string) option"
  | RtUsername
  | RtLookup string

text \<open>The routes that are not rate limited.\<close>

fun auth_route_handler ::
    "'s store_ops \<Rightarrow> auth_env \<Rightarrow> auth_config \<Rightarrow> auth_route \<Rightarrow> http_request \<Rightarrow> http_response \<Rightarrow> 's auth_state
       \<Rightarrow> 's handler_result" where
  "auth_route_handler ops n cfg RtRefresh req res s =
     route_guard (an_rid n) (printed (an_dump n) res (refresh_handler ops n cfg req res s))"
| "auth_route_handler ops n cfg RtLogout req res s =
     route_guard (an_rid n) (printed (an_dump n) res (logout_handler ops n cfg req res s))"
| "auth_route_handler ops n cfg RtProfile req res s =
     route_guard (an_rid n) (printed (an_dump n) res (profile_handler n cfg req res s))"
| "auth_route_handler ops n cfg RtUpdateProfile req res s =
     route_guard (an_rid n) (printed (an_dump n) res (update_profile_handler n cfg req res s))"
| "auth_route_handler ops n cfg (RtAvatar f) req res s =
     route_guard (an_rid n) (printed (an_dump n) res (update_avatar_handler n cfg f req res s))"
| "auth_route_handler ops n cfg RtUsername req res s =
     route_guard (an_rid n) (printed (an_dump n) res (update_username_handler n cfg req res s))"
| "auth_route_handler ops n cfg (RtLookup u) req res s =
     route_guard (an_rid n) (printed (an_dump n) res (lookup_user_handler n u res s))"

section \<open>Lemmas\<close>

lemma sender_simps [simp]:
  "rsp_status (send_success rid d res) = 200" "rsp_status (send_created rid d res) = 201"
  "rsp_content (send_success rid d res) = Some (make_success_envelope rid d, kJsonContentType)"
  "rsp_content (send_created rid d res) = Some (make_success_envelope rid d, kJsonContentType)"
  "rsp_headers (send_success rid d res) = rsp_headers res" "rsp_headers (send_created rid d res) = rsp_headers res"
  "rsp_status (send_field_error rid e res) = 400"
  "rsp_status (set_header k v res) = rsp_status res" "rsp_content (set_header k v res) = rsp_content res"
  by (simp_all add: send_success_def send_created_def send_json_def send_field_error_def set_header_def)

lemma set_refresh_cookie_simps [simp]:
  "rsp_status (set_refresh_cookie cfg t res) = rsp_status res" "rsp_content (set_refresh_cookie cfg t res) = rsp_content res"
  by (simp_all add: set_refresh_cookie_def)

lemma parse_json_body_status: "parse_json_body parse rid req res = (None, res') \<Longrightarrow> rsp_status res' = 400"
  by (auto simp: parse_json_body_def split: if_splits outcome.splits)

lemma parse_json_body_Some: "parse_json_body parse rid req res = (Some j, res') \<Longrightarrow> res' = res \<and> parse (req_body req) = Returns j"
  by (auto simp: parse_json_body_def split: if_splits outcome.splits)

lemma parse_login_valid:
  "parse_login_request j = Inr r \<Longrightarrow> validate_username (lr_username r) = Inr () \<and> lr_password r \<noteq> []"
  by (auto simp: parse_login_request_def check_field_def split: option.splits sum.splits if_splits)

lemma valid_username_nonempty: "validate_username u = Inr () \<Longrightarrow> u \<noteq> []"
  by (auto simp: validate_username_def kMinUsernameLength_def split: if_splits)

text \<open>The request a login body stands for.\<close>

definition login_request_of :: "auth_env \<Rightarrow> http_request \<Rightarrow> LoginRequest option" where
  "login_request_of n req =
     (if req_body req = [] then None
      else case an_parse n (req_body req) of
             Throws _ \<Rightarrow> None
           | Returns j \<Rightarrow> (case parse_login_request j of Inl _ \<Rightarrow> None | Inr r \<Rightarrow> Some r))"

definition login_gate_closed :: "auth_env \<Rightarrow> string \<Rightarrow> 's auth_state \<Rightarrow> bool" where
  "login_gate_closed n u s \<longleftrightarrow> gate_closed (an_gate n) u (as_tracker s)"

text \<open>The four ways of a login: refused as malformed, refused by the gate, denied, or let in.\<close>

lemma login_cases:
  obtains (bad) res' where "login_request_of n req = None" "rsp_status res' = 400"
      "login_handler n cfg ip req res s = (Inr (), res', s)"
  | (locked) r rem where "login_request_of n req = Some r" "login_gate_closed n (lr_username r) s"
      "is_locked (an_gate n) (lr_username r) (as_tracker s) = (True, rem)"
      "login_handler n cfg ip req res s =
         (Inr (), send_error (an_rid n) 423 FORBIDDEN ''invalid username or password''
             (JObj [(''retry_after_seconds'', JInt rem)])
             (set_header ''Retry-After'' (to_string (if rem > 0 then rem else 1)) res), s)"
  | (attempt) r where "login_request_of n req = Some r" "\<not> login_gate_closed n (lr_username r) s"
      "login_handler n cfg ip req res s = login_attempt n cfg ip r res s"
proof -
  obtain jo res1 where p: "parse_json_body (an_parse n) (an_rid n) req res = (jo, res1)" by fastforce
  define lk where "lk = (\<lambda>u. fst (is_locked (an_gate n) u (as_tracker s)))"
  define rem where "rem = (\<lambda>u. snd (is_locked (an_gate n) u (as_tracker s)))"
  have g: "is_locked (an_gate n) u (as_tracker s) = (lk u, rem u)" for u by (simp add: lk_def rem_def)
  show thesis
  proof (cases jo)
    case None
    then have "login_request_of n req = None"
      using p by (auto simp: login_request_of_def parse_json_body_def split: if_splits outcome.splits)
    moreover have "rsp_status res1 = 400" using p None parse_json_body_status by blast
    moreover have "login_handler n cfg ip req res s = (Inr (), res1, s)"
      using p None by (simp add: login_handler_def done_with_def)
    ultimately show thesis by (rule bad)
  next
    case (Some j)
    then have r1: "res1 = res" "an_parse n (req_body req) = Returns j" "req_body req \<noteq> []"
      using p by (auto simp: parse_json_body_def split: if_splits outcome.splits)
    show thesis
    proof (cases "parse_login_request j")
      case (Inl e)
      then show thesis
        using bad [of "send_field_error (an_rid n) e res"] p Some r1
        by (simp add: login_handler_def done_with_def login_request_of_def)
    next
      case (Inr r)
      then have lr: "login_request_of n req = Some r" using r1 by (simp add: login_request_of_def)
      have gc: "login_gate_closed n (lr_username r) s \<longleftrightarrow> lo_enabled (lt_cfg (as_tracker s)) \<and> lk (lr_username r)"
        by (simp add: login_gate_closed_def gate_closed_def g)
      show thesis
      proof (cases "login_gate_closed n (lr_username r) s")
        case True
        then show thesis
          using locked [OF lr True, of "rem (lr_username r)"] p Some r1 Inr gc g
          by (simp add: login_handler_def done_with_def)
      next
        case False
        then show thesis
          using attempt [OF lr False] p Some r1 Inr gc g by (auto simp: login_handler_def)
      qed
    qed
  qed
qed

lemma deny_login_result:
  obtains s' where "deny_login n ip u res s =
       (Inr (), send_error (an_rid n) 401 UNAUTHORIZED ''invalid username or password'' JNull res, s')"
    "as_users s' = as_users s" "as_store s' = as_store s"
    "as_tracker s' = snd (record_failure (an_fail n) u (as_tracker s))"
proof -
  obtain oc tr where "record_failure (an_fail n) u (as_tracker s) = (oc, tr)" by fastforce
  then show thesis by (intro that [of "snd (snd (deny_login n ip u res s))"]) (simp_all add: deny_login_def done_with_def Let_def)
qed

lemma login_attempt_cases:
  obtains (fails) m where "login_attempt n cfg ip r res s = (Inr (), send_error (an_rid n) 500 INTERNAL_ERROR m JNull res, s)"
      "\<exists>e. find_user_by_name (an_db n 0) (lr_username r) (as_users s) = Inl e"
  | (denied) u where "login_attempt n cfg ip r res s = deny_login n ip u res s"
      "find_user_by_name (an_db n 0) (lr_username r) (as_users s) = Inr None \<and> u = lr_username r
       \<or> (\<exists>row. find_user_by_name (an_db n 0) (lr_username r) (as_users s) = Inr (Some row) \<and> u = u_username row
             \<and> \<not> verify_password (lr_password r) (u_password_hash row))"
  | (granted) row where "login_attempt n cfg ip r res s = grant_login n cfg ip row res s"
      "find_user_by_name (an_db n 0) (lr_username r) (as_users s) = Inr (Some row)"
      "verify_password (lr_password r) (u_password_hash row)"
proof (cases "find_user_by_name (an_db n 0) (lr_username r) (as_users s)")
  case (Inl e)
  then show thesis using fails by (simp add: login_attempt_def done_with_def)
next
  case (Inr x)
  then show thesis
    using denied granted by (cases x) (auto simp: login_attempt_def split: if_splits)
qed

lemma grant_login_result:
  assumes "grant_login n cfg ip row res s = (r, res', s')"
  shows "as_tracker s' = reset_failures (u_username row) (as_tracker s)" "as_store s' = as_store s"
    "r = Inr () \<Longrightarrow> rsp_status res' = 200 \<and> (\<exists>tokens. issue_session n cfg (u_id row) (u_username row) (u_role row) = Inr tokens
        \<and> res' = send_success (an_rid n)
            (session_json (u_id row) (u_username row) (u_role row) (u_email row) tokens (an_expires_now n))
            (set_refresh_cookie cfg (refresh_token tokens) res))
      \<or> rsp_status res' = 500"
  using assms by (auto simp: grant_login_def done_with_def Let_def split: sum.splits)

lemma login_grants:
  assumes "login_request_of n req = Some r" "\<not> login_gate_closed n (lr_username r) s"
    and "find_user_by_name (an_db n 0) (lr_username r) (as_users s) = Inr (Some row)"
    and "verify_password (lr_password r) (u_password_hash row)"
    and "dv_acquire (an_db n 3) = None"
    and "issue_session n cfg (u_id row) (u_username row) (u_role row) = Inr tokens"
  shows "\<exists>s'. login_handler n cfg ip req res s = (Inr (), send_success (an_rid n)
      (session_json (u_id row) (u_username row) (u_role row) (u_email row) tokens (an_expires_now n))
      (set_refresh_cookie cfg (refresh_token tokens) res), s')"
proof -
  obtain d where "update_last_login (an_db n 3) (u_id row) ip (as_users s) = Inr d"
    using assms(5) by (cases "update_last_login (an_db n 3) (u_id row) ip (as_users s)")
      (auto simp: update_last_login_def with_conn_def split: sum.splits prod.splits)
  then have "\<exists>s'. login_attempt n cfg ip r res s = (Inr (), send_success (an_rid n)
      (session_json (u_id row) (u_username row) (u_role row) (u_email row) tokens (an_expires_now n))
      (set_refresh_cookie cfg (refresh_token tokens) res), s')"
    using assms by (simp add: login_attempt_def grant_login_def done_with_def)
  then show ?thesis
    by (cases rule: login_cases [of n req cfg ip res s]) (use assms(1,2) in auto)
qed

section \<open>Properties of login\<close>

text \<open>
  C3. What a successful login requires and does: a request answered with 200 carried a well-formed user
  name that was not locked, the database has a user under that name, the password verifies against the
  hash of that user, the answer and the tokens are made for the id, the name and the role of that row,
  and the failure count of the user is cleared. The revocation store is not touched.
\<close>

theorem login_sound:
  assumes "login_handler n cfg ip req res s = (Inr (), res', s')" and "rsp_status res' = 200"
  shows "\<exists>r row tokens. login_request_of n req = Some r \<and> \<not> login_gate_closed n (lr_username r) s
    \<and> find_user_by_name (an_db n 0) (lr_username r) (as_users s) = Inr (Some row)
    \<and> verify_password (lr_password r) (u_password_hash row)
    \<and> issue_session n cfg (u_id row) (u_username row) (u_role row) = Inr tokens
    \<and> rsp_content res' = Some (make_success_envelope (an_rid n)
         (session_json (u_id row) (u_username row) (u_role row) (u_email row) tokens (an_expires_now n)), kJsonContentType)
    \<and> as_tracker s' = reset_failures (u_username row) (as_tracker s) \<and> as_store s' = as_store s"
proof (cases rule: login_cases [of n req cfg ip res s])
  case (attempt r)
  then have la: "login_attempt n cfg ip r res s = (Inr (), res', s')" using assms(1) by simp
  obtain row where row: "find_user_by_name (an_db n 0) (lr_username r) (as_users s) = Inr (Some row)"
    "verify_password (lr_password r) (u_password_hash row)" "grant_login n cfg ip row res s = (Inr (), res', s')"
  proof (cases rule: login_attempt_cases [of n cfg ip r res s])
    case (denied u)
    obtain s2 where "deny_login n ip u res s =
        (Inr (), send_error (an_rid n) 401 UNAUTHORIZED ''invalid username or password'' JNull res, s2)"
      by (rule deny_login_result)
    then show ?thesis using la assms(2) denied(1) by auto
  qed (use la assms(2) that in auto)
  note g = grant_login_result [OF row(3)]
  from g(3) assms(2) obtain tokens where "issue_session n cfg (u_id row) (u_username row) (u_role row) = Inr tokens"
    "res' = send_success (an_rid n)
       (session_json (u_id row) (u_username row) (u_role row) (u_email row) tokens (an_expires_now n))
       (set_refresh_cookie cfg (refresh_token tokens) res)" by auto
  then show ?thesis using attempt(1,2) row(1,2) g(1,2) by auto
qed (use assms in auto)

lemma login_401:
  assumes "login_handler n cfg ip req res s = (Inr (), res', s')" and "rsp_status res' = 401"
  obtains r u where "login_request_of n req = Some r" "\<not> login_gate_closed n (lr_username r) s"
    "res' = send_error (an_rid n) 401 UNAUTHORIZED ''invalid username or password'' JNull res"
    "as_users s' = as_users s" "as_store s' = as_store s"
    "as_tracker s' = snd (record_failure (an_fail n) u (as_tracker s))"
    "find_user_by_name (an_db n 0) (lr_username r) (as_users s) = Inr None \<and> u = lr_username r
       \<or> (\<exists>row. find_user_by_name (an_db n 0) (lr_username r) (as_users s) = Inr (Some row) \<and> u = u_username row
             \<and> \<not> verify_password (lr_password r) (u_password_hash row))"
proof (cases rule: login_cases [of n req cfg ip res s])
  case (attempt r)
  then have la: "login_attempt n cfg ip r res s = (Inr (), res', s')" using assms(1) by simp
  show thesis
  proof (cases rule: login_attempt_cases [of n cfg ip r res s])
    case (denied u)
    obtain s2 where "deny_login n ip u res s =
        (Inr (), send_error (an_rid n) 401 UNAUTHORIZED ''invalid username or password'' JNull res, s2)"
      "as_users s2 = as_users s" "as_store s2 = as_store s" "as_tracker s2 = snd (record_failure (an_fail n) u (as_tracker s))"
      by (rule deny_login_result)
    then show thesis using la denied attempt(1,2) by (intro that [of r u]) auto
  next
    case (granted row)
    then show thesis using grant_login_result(3) [of n cfg ip row res s "Inr ()" res' s'] la assms(2) by auto
  qed (use la assms(2) in auto)
qed (use assms in auto)

text \<open>
  A refused login says nothing about the account: two logins that are answered with 401, on whatever
  databases and trackers, for an unknown name or for a wrong password, get the same status, body and
  headers. The only effect of each is one recorded failure: the users and the revocation store stay.
\<close>

theorem login_refusals_alike:
  assumes "login_handler n cfg ip req res s = (Inr (), res1, s1)" and "rsp_status res1 = 401"
    and "login_handler n' cfg ip req' res s' = (Inr (), res2, s2)" and "rsp_status res2 = 401"
    and "an_rid n' = an_rid n"
  shows "res1 = res2 \<and> as_users s1 = as_users s \<and> as_store s1 = as_store s
    \<and> (\<exists>u. as_tracker s1 = snd (record_failure (an_fail n) u (as_tracker s)))"
proof -
  from assms(1,2) obtain r u where a: "res1 = send_error (an_rid n) 401 UNAUTHORIZED ''invalid username or password'' JNull res"
    "as_users s1 = as_users s" "as_store s1 = as_store s" "as_tracker s1 = snd (record_failure (an_fail n) u (as_tracker s))"
    by (rule login_401)
  from assms(3,4) have "res2 = send_error (an_rid n') 401 UNAUTHORIZED ''invalid username or password'' JNull res"
    by (rule login_401)
  then show ?thesis using a assms(5) by auto
qed

section \<open>A concrete environment\<close>

definition demo_body :: "string \<Rightarrow> string \<Rightarrow> json" where
  "demo_body u p = JObj [(''username'', JStr u), (''password'', JStr p)]"

definition demo_issue :: issue_env where
  "demo_issue = \<lparr>ie_access_signed = 1500000000, ie_access_uuid = ''j1'', ie_refresh_signed = 1500000000,
     ie_refresh_uuid = ''j2'', ie_now1 = 1500000000, ie_now2 = 1500000000\<rparr>"

definition demo_auth_env :: "json \<Rightarrow> auth_env" where
  "demo_auth_env j = \<lparr>an_lib = table_lib Jwt_Utils.demo_table, an_parse = (\<lambda>_. Returns j), an_dump = demo_dump, an_rid = None,
     an_verify1 = 2000000000, an_verify2 = 2000000000, an_issue = demo_issue,
     an_rotate = \<lparr>re_check = 2000000000, re_final = 2000000000, re_query = 10, re_now = 2000000000, re_revoke1 = 11,
                  re_revoke2 = 12, re_issue = demo_issue\<rparr>,
     an_expires_now = 1500000000, an_salt_opened = True, an_salt_reads = [ReadBytes (replicate 16 5)],
     an_gate = 5, an_fail = 6, an_db = (\<lambda>_. demo_env), an_time = 1700000000, an_avatar = AvatarWritten\<rparr>"

definition demo_auth_cfg :: auth_config where
  "demo_auth_cfg = \<lparr>ac_jwt = \<lparr>jc_secret = demo_secret, jc_issuer = ''litecode''\<rparr>, ac_access_ttl = 60, ac_refresh_ttl = 3600,
     ac_cookie = dev_cookie, ac_cookie_enabled = True, ac_allow_body_fallback = False\<rparr>"

definition demo_req :: http_request where
  "demo_req = \<lparr>req_body = ''body'', remote_addr = ''10.0.0.1'', req_header = (\<lambda>_. None)\<rparr>"

definition demo_res :: http_response where
  "demo_res = \<lparr>rsp_status = -1, rsp_content = None, rsp_headers = []\<rparr>"

definition demo_state :: "mem_store auth_state" where
  "demo_state = \<lparr>as_users = demo_users, as_audit = \<lparr>at_rows = [], at_next = 1\<rparr>,
     as_tracker = new_tracker demo_lockout 10, as_store = new_mem_store 10, as_files = []\<rparr>"

theorem login_refusals_alike_witness:
  "fst (snd (login_handler (demo_auth_env (demo_body ''bob'' ''wrong'')) demo_auth_cfg [] demo_req demo_res demo_state))
   = fst (snd (login_handler (demo_auth_env (demo_body ''nobody'' ''wrong'')) demo_auth_cfg [] demo_req demo_res demo_state))"
proof -
  let ?h = "\<lambda>u. login_handler (demo_auth_env (demo_body u ''wrong'')) demo_auth_cfg [] demo_req demo_res demo_state"
  have "fst (?h ''bob'') = Inr () \<and> rsp_status (fst (snd (?h ''bob''))) = 401" by code_simp
  moreover have "fst (?h ''nobody'') = Inr () \<and> rsp_status (fst (snd (?h ''nobody''))) = 401" by code_simp
  ultimately show ?thesis
    using login_refusals_alike [of "demo_auth_env (demo_body ''bob'' ''wrong'')" demo_auth_cfg "[]" demo_req demo_res demo_state
        "fst (snd (?h ''bob''))" "snd (snd (?h ''bob''))" "demo_auth_env (demo_body ''nobody'' ''wrong'')" demo_req demo_state
        "fst (snd (?h ''nobody''))" "snd (snd (?h ''nobody''))"]
    by (metis prod.collapse auth_env.select_convs(4) demo_auth_env_def)
qed

definition alice :: "string \<Rightarrow> UserRow" where
  "alice h = (demo_user 7 ''alice'' None)\<lparr>u_password_hash := h, u_role := ''admin''\<rparr>"

definition alice_state :: "string \<Rightarrow> mem_store auth_state" where
  "alice_state h = demo_state\<lparr>as_users := \<lparr>ud_users = [alice h], ud_next = 8, ud_history = []\<rparr>\<rparr>"

definition alice_tokens :: TokenPair where
  "alice_tokens = \<lparr>access_token = ''acc'', access_jti = ''j1'', access_expires_at = 61500000000,
     refresh_token = ''ref'', refresh_jti = ''j2'', refresh_expires_at = 3601500000000\<rparr>"

lemma alice_logs_in:
  assumes "verify_password ''passw0rd'' h"
  shows "\<exists>s'. login_handler (demo_auth_env (demo_body ''alice'' ''passw0rd'')) demo_auth_cfg [] demo_req demo_res (alice_state h)
    = (Inr (), send_success None (session_json 7 ''alice'' ''admin'' None alice_tokens 1500000000)
        (set_refresh_cookie demo_auth_cfg ''ref'' demo_res), s')"
proof -
  let ?n = "demo_auth_env (demo_body ''alice'' ''passw0rd'')"
  have "login_request_of ?n demo_req = Some \<lparr>lr_username = ''alice'', lr_password = ''passw0rd''\<rparr>" by code_simp
  moreover have "\<not> login_gate_closed ?n ''alice'' (alice_state h)"
    by (simp add: login_gate_closed_def gate_closed_iff alice_state_def demo_state_def new_tracker_def)
  moreover have "find_user_by_name (an_db ?n 0) ''alice'' (as_users (alice_state h)) = Inr (Some (alice h))"
    by (simp add: demo_auth_env_def find_user_by_name_def query_def with_conn_def stmt_def alice_state_def alice_def
        demo_user_def demo_env_def no_case_def)
  moreover have "issue_session ?n demo_auth_cfg 7 ''alice'' ''admin'' = Inr alice_tokens" by code_simp
  ultimately show ?thesis
    using login_grants [of ?n demo_req "\<lparr>lr_username = ''alice'', lr_password = ''passw0rd''\<rparr>" "alice_state h" "alice h"
        demo_auth_cfg alice_tokens "[]" demo_res] assms
    by (simp add: alice_def demo_user_def demo_auth_env_def demo_env_def alice_tokens_def)
qed

theorem login_sound_witness:
  "\<exists>h s' (row :: UserRow). verify_password ''passw0rd'' h
     \<and> login_handler (demo_auth_env (demo_body ''alice'' ''passw0rd'')) demo_auth_cfg [] demo_req demo_res (alice_state h)
         = (Inr (), send_success None (session_json 7 ''alice'' ''admin'' None alice_tokens 1500000000)
             (set_refresh_cookie demo_auth_cfg ''ref'' demo_res), s')
     \<and> as_tracker s' = reset_failures (u_username row) (as_tracker (alice_state h))"
proof -
  obtain h where h: "verify_password ''passw0rd'' h" using demo_hash_exists hash_verifies(1) by blast
  then obtain s' where s': "login_handler (demo_auth_env (demo_body ''alice'' ''passw0rd'')) demo_auth_cfg [] demo_req demo_res
      (alice_state h) = (Inr (), send_success None (session_json 7 ''alice'' ''admin'' None alice_tokens 1500000000)
             (set_refresh_cookie demo_auth_cfg ''ref'' demo_res), s')" using alice_logs_in by blast
  have "rsp_status (send_success None (session_json 7 ''alice'' ''admin'' None alice_tokens 1500000000)
             (set_refresh_cookie demo_auth_cfg ''ref'' demo_res)) = 200" by simp
  from login_sound [OF s' this] obtain row :: UserRow
    where "as_tracker s' = reset_failures (u_username row) (as_tracker (alice_state h))" by blast
  then show ?thesis using s' h by blast
qed

section \<open>Spellings of a name\<close>

fun login_statuses :: "auth_config \<Rightarrow> string \<Rightarrow> http_response \<Rightarrow> (auth_env \<times> http_request) list \<Rightarrow> 's auth_state \<Rightarrow> int list" where
  "login_statuses cfg ip res [] s = []"
| "login_statuses cfg ip res ((n, req) # xs) s =
     (let (r, res', s') = login_handler n cfg ip req res s in rsp_status res' # login_statuses cfg ip res xs s')"

text \<open>
  A different spelling escapes the lockout. User names compare by the collation of the database, the
  tracker compares them exactly: with a spelling of the name that the database accepts for the user
  but that is not the stored one, the gate looks at an entry that never gets a failure, since failures
  count against the stored name. Every wrong password in any number of attempts is checked and
  answered with 401, whether or not the account is locked.
\<close>

theorem spelling_escapes_lockout:
  assumes "\<forall>(n, req) \<in> set xs. \<exists>r. login_request_of n req = Some r \<and> lr_username r = t
        \<and> \<not> verify_password (lr_password r) (u_password_hash row)
        \<and> find_user_by_name (an_db n 0) t (as_users s) = Inr (Some row)"
    and "u_username row \<noteq> t" and "um_find t (lt_failures (as_tracker s)) = None" and "tracker_ok (as_tracker s)"
  shows "login_statuses cfg ip res xs s = replicate (length xs) 401"
  using assms
proof (induction xs arbitrary: s)
  case (Cons x xs)
  obtain n req where x: "x = (n, req)" by (cases x)
  obtain r where r: "login_request_of n req = Some r" "lr_username r = t"
    "\<not> verify_password (lr_password r) (u_password_hash row)" "find_user_by_name (an_db n 0) t (as_users s) = Inr (Some row)"
    using Cons.prems(1) x by auto
  have free: "\<not> login_gate_closed n (lr_username r) s"
    using Cons.prems(3) r(2) by (simp add: login_gate_closed_def gate_closed_iff)
  obtain s' where s': "deny_login n ip (u_username row) res s =
       (Inr (), send_error (an_rid n) 401 UNAUTHORIZED ''invalid username or password'' JNull res, s')"
    "as_users s' = as_users s" "as_tracker s' = snd (record_failure (an_fail n) (u_username row) (as_tracker s))"
    by (rule deny_login_result)
  have "login_handler n cfg ip req res s = login_attempt n cfg ip r res s"
    by (cases rule: login_cases [of n req cfg ip res s]) (use r(1) free in auto)
  then have h: "login_handler n cfg ip req res s =
       (Inr (), send_error (an_rid n) 401 UNAUTHORIZED ''invalid username or password'' JNull res, s')"
    using r s'(1) by (simp add: login_attempt_def)
  have "um_find t (lt_failures (as_tracker s')) = None"
  proof (cases "u_username row = []")
    case False
    have "set (enforce_cap (an_fail n) (lt_max_entries (as_tracker s)) (lt_failures (as_tracker s))) \<subseteq> set (lt_failures (as_tracker s))"
      by (rule set_enforce_cap)
    then have "um_find t (enforce_cap (an_fail n) (lt_max_entries (as_tracker s)) (lt_failures (as_tracker s))) = None"
      using Cons.prems(3) by (auto simp: um_find_None_iff)
    then show ?thesis
      using s'(3) False Cons.prems(2,4) by (simp add: failure_count_record_other tracker_okD)
  qed (use s'(3) Cons.prems(3) in simp)
  moreover have "tracker_ok (as_tracker s')" using s'(3) Cons.prems(4) record_failure_ok by simp
  ultimately have "login_statuses cfg ip res xs s' = replicate (length xs) 401"
    using Cons.prems(1,2) s'(2) by (intro Cons.IH) auto
  then show ?case by (simp add: x h)
qed simp

theorem spelling_escapes_lockout_witness:
  "login_statuses demo_auth_cfg [] demo_res (replicate 4 (demo_auth_env (demo_body ''BOB'' ''guess''), demo_req)) demo_state
     = [401, 401, 401, 401]
   \<and> login_statuses demo_auth_cfg [] demo_res (replicate 4 (demo_auth_env (demo_body ''bob'' ''guess''), demo_req)) demo_state
     = [401, 401, 401, 423]"
proof
  have p: "login_request_of (demo_auth_env (demo_body ''BOB'' ''guess'')) demo_req = Some \<lparr>lr_username = ''BOB'', lr_password = ''guess''\<rparr>"
    "find_user_by_name demo_env ''BOB'' demo_users = Inr (Some (demo_user 1 ''bob'' None))"
    "\<not> verify_password ''guess'' ''x''" by code_simp+
  have "login_statuses demo_auth_cfg [] demo_res (replicate 4 (demo_auth_env (demo_body ''BOB'' ''guess''), demo_req)) demo_state
     = replicate (length (replicate 4 (demo_auth_env (demo_body ''BOB'' ''guess''), demo_req))) 401"
    by (rule spelling_escapes_lockout [where row = "demo_user 1 ''bob'' None" and t = "''BOB''"])
      (use p in \<open>auto simp: demo_state_def demo_auth_env_def demo_user_def new_tracker_def tracker_ok_def\<close>)
  then show "login_statuses demo_auth_cfg [] demo_res (replicate 4 (demo_auth_env (demo_body ''BOB'' ''guess''), demo_req)) demo_state
     = [401, 401, 401, 401]" by (simp add: numeral_eq_Suc)
  show "login_statuses demo_auth_cfg [] demo_res (replicate 4 (demo_auth_env (demo_body ''bob'' ''guess''), demo_req)) demo_state
     = [401, 401, 401, 423]" by code_simp
qed

end
