(* ===== verification/Submission_Routes.thy ===== *)
theory Submission_Routes
  imports Problem_Repo Sample_Runner Auth_Routes
begin

text \<open>
  \<^verbatim>\<open>src/routes/submission_routes.h\<close>: submitting code, reading and listing submissions, waiting for a
  verdict as a server-sent event, and running the samples.

  A handler works on \<open>sub_state\<close>: the submissions table, the problem tables, the rate limiter, the
  scheduler if there is one, the notifier and the permits of the sample runner. What it asks of the
  outside is in \<open>sub_env\<close>, as for the authentication routes; \<open>sn_fmt\<close> prints the time of a row. The path and
  the query parameters of a request are arguments. The event handler is cut where it blocks. Log lines
  are left out.

  Main results: what a submission stores and queues for every status of the answer; that a failed load of
  the cases queues a task without cases; that the number of the problem wraps. Reading, waiting and sample
  runs are in \<open>Submission_Reads\<close>.
\<close>

section \<open>Environment and state\<close>

record sub_env =
  sn_lib :: jwt_lib
  sn_parse :: "string \<Rightarrow> json outcome"
  sn_dump :: "json \<Rightarrow> string outcome"
  sn_rid :: "string option"
  sn_verify1 :: int
  sn_verify2 :: int
  sn_now :: int
  sn_problem :: db_env
  sn_cases :: db_env
  sn_judge :: db_env
  sn_create :: sql_fault
  sn_db_now :: int
  sn_find :: sql_fault
  sn_find_again :: sql_fault
  sn_count :: sql_fault
  sn_list :: sql_fault
  sn_fmt :: "int \<Rightarrow> string"
  sn_tmp_dir :: "string outcome"
  sn_sample :: task_env
  sn_sample_wall :: int

record sub_config =
  sb_jwt :: jwt_config
  sb_rate :: RateLimitConfig
  sb_judge :: JudgeConfig

record sub_state =
  ss_subs :: table
  ss_problems :: problem_db
  ss_limiter :: limiter
  ss_sched :: "scheduler option"
  ss_permits :: "int option"

type_synonym sub_result = "(handler_exn + unit) \<times> http_response \<times> sub_state"

definition answered :: "http_response \<Rightarrow> sub_state \<Rightarrow> sub_result" where
  "answered res s = (Inr (), res, s)"

fun repo_error_what :: "repo_error \<Rightarrow> string" where
  "repo_error_what (SubmissionRepoError m) = m"
| "repo_error_what (PoolError m) = m"

definition sub_internal :: "sub_env \<Rightarrow> string \<Rightarrow> http_response \<Rightarrow> sub_state \<Rightarrow> sub_result" where
  "sub_internal n what res s = answered (send_error (sn_rid n) 500 INTERNAL_ERROR (''internal error: '' @ what) JNull res) s"

section \<open>Fields of the body\<close>

abbreviation (input) kSubmissionDetailValueMax :: nat where
  "kSubmissionDetailValueMax \<equiv> 64"

definition truncate_for_envelope :: "string \<Rightarrow> string" where
  "truncate_for_envelope v =
     (if length v \<le> kSubmissionDetailValueMax then v else take kSubmissionDetailValueMax v @ ''...'')"

text \<open>A rejected field: the message and the details of the 400 envelope.\<close>

type_synonym bad_field = "string \<times> json"

definition send_bad_field :: "string option \<Rightarrow> bad_field \<Rightarrow> http_response \<Rightarrow> http_response" where
  "send_bad_field rid e res = send_error rid 400 INVALID_INPUT (fst e) (snd e) res"

definition require_int_field :: "json \<Rightarrow> string \<Rightarrow> int \<Rightarrow> int \<Rightarrow> bad_field + int" where
  "require_int_field body field lo hi =
     (let missing = Inl (''missing required field '' @ [quote] @ field @ [quote], JObj [(''field'', JStr field)]) in
      case get_member body field of
        None \<Rightarrow> missing
      | Some JNull \<Rightarrow> missing
      | Some (JInt k) \<Rightarrow>
          let v = wrap32 k in
          if v < lo \<or> v > hi then
            Inl (''field '' @ [quote] @ field @ [quote] @ '' out of range'',
                 JObj [(''field'', JStr field), (''value'', JStr (to_string v)), (''min'', JStr (to_string lo)),
                       (''max'', JStr (to_string hi))])
          else Inr v
      | Some _ \<Rightarrow> Inl (''field '' @ [quote] @ field @ [quote] @ '' must be an integer'', JObj [(''field'', JStr field)]))"

definition require_language_field :: "json \<Rightarrow> bad_field + string" where
  "require_language_field body =
     (let field = ''language''; d = JObj [(''field'', JStr field)];
          missing = Inl (''missing required field '' @ [quote] @ field @ [quote], d) in
      case get_member body field of
        None \<Rightarrow> missing
      | Some JNull \<Rightarrow> missing
      | Some (JStr v) \<Rightarrow>
          if \<not> is_valid_language v then
            Inl (''language must be one of: c, cpp'',
                 JObj [(''field'', JStr field), (''value'', JStr (truncate_for_envelope v))])
          else Inr v
      | Some _ \<Rightarrow> Inl (''field '' @ [quote] @ field @ [quote] @ '' must be a string'', d))"

definition require_code_field :: "json \<Rightarrow> bad_field + string" where
  "require_code_field body =
     (let field = ''code''; d = JObj [(''field'', JStr field)];
          missing = Inl (''missing required field '' @ [quote] @ field @ [quote], d) in
      case get_member body field of
        None \<Rightarrow> missing
      | Some JNull \<Rightarrow> missing
      | Some (JStr v) \<Rightarrow>
          (case validate_code_length (length v) of
             Inl err \<Rightarrow>
               Inl (err, JObj [(''field'', JStr field), (''length'', JStr (to_string (int (length v)))),
                               (''min_length'', JStr (to_string (int kMinCodeLength))),
                               (''max_length'', JStr (to_string (int kMaxCodeLength)))])
           | Inr _ \<Rightarrow> Inr v)
      | Some _ \<Rightarrow> Inl (''field '' @ [quote] @ field @ [quote] @ '' must be a string'', d))"

section \<open>Paths and parameters\<close>

definition parse_status_param :: "string \<Rightarrow> string option" where
  "parse_status_param raw = (if raw = [] then None else if is_valid_status raw then Some raw else None)"

text \<open>\<^verbatim>\<open>std::stoi\<close> that must consume the whole string.\<close>

definition stoi_all :: "string \<Rightarrow> int option" where
  "stoi_all s =
     (case scan_int s of
        Some (k, []) \<Rightarrow> if - (2 ^ 31) \<le> k \<and> k < 2 ^ 31 then Some k else None
      | _ \<Rightarrow> None)"

definition id_after :: "string \<Rightarrow> string \<Rightarrow> int option" where
  "id_after pre path =
     (if length path \<le> length pre then None
      else if \<not> starts_with pre path then None
      else let tl = drop (length pre) path in
           if CHR ''/'' \<in> set tl then None
           else case stoi_all tl of None \<Rightarrow> None | Some v \<Rightarrow> if v \<le> 0 then None else Some v)"

definition extract_id_from_path :: "string \<Rightarrow> int option" where
  "extract_id_from_path path = id_after ''/api/v1/submissions/'' path"

definition extract_sse_id_from_path :: "string \<Rightarrow> int option" where
  "extract_sse_id_from_path path = id_after ''/api/v1/submissions/sse/'' path"

definition claims_user_id_int :: "Claims \<Rightarrow> int" where
  "claims_user_id_int c = (case stoi (user_id c) of None \<Rightarrow> 0 | Some i \<Rightarrow> i)"

section \<open>Answers\<close>

definition opt_int_json :: "int option \<Rightarrow> json" where
  "opt_int_json x = (case x of None \<Rightarrow> JNull | Some k \<Rightarrow> JInt k)"

text \<open>\<open>created\<close> is the printed time of creation, which a published row does not have.\<close>

definition serialize_submission_row :: "(int \<Rightarrow> string) \<Rightarrow> string \<Rightarrow> submission \<Rightarrow> bool \<Rightarrow> json" where
  "serialize_submission_row fmt created r include_code =
     JObj ([(''id'', JInt (sub_id r)), (''user_id'', JInt (sub_user_id r)), (''problem_id'', JInt (sub_problem_id r)),
            (''language'', JStr (sub_language r)), (''status'', JStr (sub_status r)),
            (''time_used'', opt_int_json (sub_time_used r)), (''memory_used'', opt_int_json (sub_memory_used r)),
            (''error_message'', opt_json (sub_error_message r)), (''created_at'', JStr created),
            (''finished_at'', opt_json (map_option fmt (sub_finished_at r)))]
           @ (if include_code then [(''code'', JStr (sub_code r))] else []))"

definition stored_json :: "sub_env \<Rightarrow> submission \<Rightarrow> bool \<Rightarrow> json" where
  "stored_json n r include_code = serialize_submission_row (sn_fmt n) (sn_fmt n (sub_created_at r)) r include_code"

section \<open>Submitting\<close>

definition case_input :: "SampleCaseRow \<Rightarrow> TestCaseInput" where
  "case_input c = \<lparr>tc_input = sc_input c, tc_expected_output = sc_expected_output c, tc_judge_type = sc_judge_type c,
     tc_float_epsilon = None, tc_order_num = sc_order_num c\<rparr>"

text \<open>The task of a submission; an unreadable special judge leaves its fields empty.\<close>

definition task_for ::
    "sub_env \<Rightarrow> int \<Rightarrow> Claims \<Rightarrow> ProblemRow \<Rightarrow> string \<Rightarrow> string \<Rightarrow> SampleCaseRow list \<Rightarrow> problem_db \<Rightarrow> JudgeTask" where
  "task_for n sid c p language code cs d =
     (let spj = (case find_judge (sn_judge n) (p_id p) d of Inr (Some j) \<Rightarrow> (sj_source j, sj_language j) | _ \<Rightarrow> ([], []))
      in \<lparr>jt_submission_id = sid, jt_user_id = claims_user_id_int c, jt_problem_id = p_id p, jt_language = language,
          jt_code = code, jt_time_limit_ms = p_time_limit p, jt_memory_limit_mb = p_memory_limit p,
          jt_compile_timeout_ms = 10000, jt_test_cases = map case_input cs, jt_spj_source = fst spj, jt_spj_language = snd spj\<rparr>)"

text \<open>From the stored row on: load the cases (none if that fails), queue the task, answer.\<close>

definition queue_submission ::
    "sub_env \<Rightarrow> int \<Rightarrow> Claims \<Rightarrow> ProblemRow \<Rightarrow> string \<Rightarrow> string \<Rightarrow> http_response \<Rightarrow> sub_state \<Rightarrow> sub_result" where
  "queue_submission n sid c p language code res s =
     (let cs = (case list_for_problem (sn_cases n) (p_id p) (Some False) (ss_problems s) of Inl _ \<Rightarrow> [] | Inr cs \<Rightarrow> cs);
          task = task_for n sid c p language code cs (ss_problems s);
          accepted = send_created (sn_rid n)
            (JObj [(''submission_id'', JInt sid), (''status'', JStr ''pending''), (''problem_id'', JInt (p_id p)),
                   (''language'', JStr language)]) res
      in case ss_sched s of
           None \<Rightarrow> answered accepted s
         | Some sch \<Rightarrow>
             (case enqueue task sch of
                (False, sch') \<Rightarrow>
                  answered (send_error (sn_rid n) 503 SERVICE_UNAVAILABLE ''judge queue is full, please retry later''
                    (JObj [(''submission_id'', JStr (to_string sid)), (''queue_size'', JInt (int (length (sc_queue sch'))))]) res)
                    (s\<lparr>ss_sched := Some sch'\<rparr>)
              | (True, sch') \<Rightarrow> answered accepted (s\<lparr>ss_sched := Some sch'\<rparr>)))"

definition no_such_problem :: "sub_env \<Rightarrow> int \<Rightarrow> http_response \<Rightarrow> sub_state \<Rightarrow> sub_result" where
  "no_such_problem n pid res s =
     answered (send_error (sn_rid n) 400 INVALID_INPUT ''problem does not exist''
       (JObj [(''problem_id'', JStr (to_string pid))]) res) s"

definition store_submission ::
    "sub_env \<Rightarrow> Claims \<Rightarrow> ProblemRow \<Rightarrow> string \<Rightarrow> string \<Rightarrow> http_response \<Rightarrow> sub_state \<Rightarrow> sub_result" where
  "store_submission n c p language code res s =
     (let row = \<lparr>sub_id = 0, sub_user_id = claims_user_id_int c, sub_problem_id = p_id p, sub_language = language, sub_code = code,
                 sub_status = [], sub_time_used = None, sub_memory_used = None, sub_error_message = None,
                 sub_created_at = 0, sub_finished_at = None\<rparr>
      in case Submission_Repo.create (sn_create n) (sn_db_now n) row (ss_subs s) of
           Inl e \<Rightarrow> sub_internal n (repo_error_what e) res s
         | Inr (sid, t) \<Rightarrow>
             let s = s\<lparr>ss_subs := t\<rparr> in
             if sid \<le> 0 then no_such_problem n (p_id p) res s
             else queue_submission n sid c p language code res s)"

text \<open>The checks of the body that submitting and running samples share.\<close>

definition parse_submission :: "json \<Rightarrow> bad_field + (int \<times> string \<times> string)" where
  "parse_submission body =
     (case require_int_field body ''problem_id'' 1 (2 ^ 31 - 1) of Inl e \<Rightarrow> Inl e | Inr pid \<Rightarrow>
      case require_language_field body of Inl e \<Rightarrow> Inl e | Inr language \<Rightarrow>
      case require_code_field body of Inl e \<Rightarrow> Inl e | Inr code \<Rightarrow> Inr (pid, language, code))"

text \<open>
  Authentication, rate limit, body and problem, up to where the two handlers part; \<open>k\<close> goes on with
  the claims, the problem, the language and the code.
\<close>

definition with_submission ::
    "sub_env \<Rightarrow> sub_config \<Rightarrow> RateLimitQuota \<Rightarrow> http_request
       \<Rightarrow> (Claims \<Rightarrow> ProblemRow \<Rightarrow> string \<Rightarrow> string \<Rightarrow> http_response \<Rightarrow> sub_state \<Rightarrow> sub_result)
       \<Rightarrow> http_response \<Rightarrow> sub_state \<Rightarrow> sub_result" where
  "with_submission n cfg q req k res s =
     (case require_authentication (sn_lib n) (sn_verify1 n) (sn_verify2 n) req (sb_jwt cfg) of
        Inl e \<Rightarrow> (Inl (guard_exn e), res, s)
      | Inr c \<Rightarrow>
      case consume_rate_limit (sn_parse n) (sn_now n) res req (ss_limiter s) q of
        (Limited e, res, m) \<Rightarrow> (Inl (ThrowsApi e), res, s\<lparr>ss_limiter := m\<rparr>)
      | (UndefinedConversion, res, m) \<Rightarrow> (Inl UndefinedBehaviour, res, s\<lparr>ss_limiter := m\<rparr>)
      | (Passes, res, m) \<Rightarrow>
      let s = s\<lparr>ss_limiter := m\<rparr> in
      case parse_json_body (sn_parse n) (sn_rid n) req res of
        (None, res) \<Rightarrow> answered res s
      | (Some body, res) \<Rightarrow>
      case parse_submission body of
        Inl e \<Rightarrow> answered (send_bad_field (sn_rid n) e res) s
      | Inr (pid, language, code) \<Rightarrow>
      case find_problem_by_id (sn_problem n) pid False (ss_subs s) (ss_problems s) of
        Inl e \<Rightarrow> sub_internal n (problem_error_what e) res s
      | Inr None \<Rightarrow> no_such_problem n pid res s
      | Inr (Some p) \<Rightarrow> k c p language code res s)"

definition create_submission_handler ::
    "sub_env \<Rightarrow> sub_config \<Rightarrow> http_request \<Rightarrow> http_response \<Rightarrow> sub_state \<Rightarrow> sub_result" where
  "create_submission_handler n cfg req res s =
     with_submission n cfg (submission_quota (sb_rate cfg)) req (store_submission n) res s"

section \<open>Reading\<close>

definition get_submission_handler ::
    "sub_env \<Rightarrow> sub_config \<Rightarrow> string \<Rightarrow> http_request \<Rightarrow> http_response \<Rightarrow> sub_state \<Rightarrow> sub_result" where
  "get_submission_handler n cfg path req res s =
     (case require_authentication (sn_lib n) (sn_verify1 n) (sn_verify2 n) req (sb_jwt cfg) of
        Inl e \<Rightarrow> (Inl (guard_exn e), res, s)
      | Inr c \<Rightarrow>
      case extract_id_from_path path of
        None \<Rightarrow>
          answered (send_error (sn_rid n) 400 INVALID_INPUT ''submission id must be a positive integer''
            (JObj [(''path'', JStr path)]) res) s
      | Some i \<Rightarrow>
      case Submission_Repo.find_by_id (sn_find n) i (ss_subs s) of
        Inl e \<Rightarrow> sub_internal n (repo_error_what e) res s
      | Inr None \<Rightarrow>
          answered (send_error (sn_rid n) 404 NOT_FOUND ''submission not found'' (JObj [(''id'', JStr (to_string i))]) res) s
      | Inr (Some row) \<Rightarrow>
          if role c \<noteq> ''admin'' \<and> sub_user_id row \<noteq> claims_user_id_int c then
            answered (send_error (sn_rid n) 403 FORBIDDEN ''you can only view your own submissions''
              (JObj [(''id'', JStr (to_string i))]) res) s
          else answered (send_success (sn_rid n) (stored_json n row True) res) s)"

text \<open>\<open>params\<close> are the query parameters: \<^verbatim>\<open>has_param\<close> and \<^verbatim>\<open>get_param_value\<close>.\<close>

definition int_param ::
    "(string \<Rightarrow> string option) \<Rightarrow> string \<Rightarrow> int \<Rightarrow> string \<Rightarrow> int option \<Rightarrow> bad_field + int option" where
  "int_param params field lo message dflt =
     (case params field of
        None \<Rightarrow> Inr dflt
      | Some raw \<Rightarrow>
          (case stoi_all raw of
             Some v \<Rightarrow> if v < lo then Inl (message, JObj [(''field'', JStr field), (''value'', JStr raw)]) else Inr (Some v)
           | None \<Rightarrow> Inl (message, JObj [(''field'', JStr field), (''value'', JStr raw)])))"

definition status_param :: "(string \<Rightarrow> string option) \<Rightarrow> bad_field + string option" where
  "status_param params =
     (case params ''status'' of
        None \<Rightarrow> Inr None
      | Some raw \<Rightarrow>
          (case parse_status_param raw of
             None \<Rightarrow>
               Inl (''status must be one of: pending, running, ac, wa, re, tle, mle, ole, pe, ce, se'',
                    JObj [(''field'', JStr ''status''), (''value'', JStr raw)])
           | Some v \<Rightarrow> Inr (Some v)))"

definition parse_list_params :: "Claims \<Rightarrow> (string \<Rightarrow> string option) \<Rightarrow> bad_field + list_filter" where
  "parse_list_params c params =
     (case int_param params ''problem_id'' 1 ''problem_id must be a positive integer'' None of Inl e \<Rightarrow> Inl e | Inr pid \<Rightarrow>
      case status_param params of Inl e \<Rightarrow> Inl e | Inr st \<Rightarrow>
      case int_param params ''limit'' 1 ''limit must be a positive integer'' (Some 20) of Inl e \<Rightarrow> Inl e | Inr lm \<Rightarrow>
      case int_param params ''offset'' 0 ''offset must be a non-negative integer'' (Some 0) of Inl e \<Rightarrow> Inl e | Inr off \<Rightarrow>
      case (if role c = ''admin''
            then int_param params ''user_id'' 1 ''user_id must be a positive integer'' (Some (claims_user_id_int c))
            else Inr (Some (claims_user_id_int c))) of Inl e \<Rightarrow> Inl e | Inr u \<Rightarrow>
      Inr \<lparr>f_user_id = u, f_problem_id = pid, f_status = st, f_include_unfinished = True,
           f_limit = (case lm of None \<Rightarrow> 20 | Some k \<Rightarrow> k), f_offset = (case off of None \<Rightarrow> 0 | Some k \<Rightarrow> k)\<rparr>)"

definition list_submissions_handler ::
    "sub_env \<Rightarrow> sub_config \<Rightarrow> (string \<Rightarrow> string option) \<Rightarrow> http_request \<Rightarrow> http_response \<Rightarrow> sub_state \<Rightarrow> sub_result" where
  "list_submissions_handler n cfg params req res s =
     (case require_authentication (sn_lib n) (sn_verify1 n) (sn_verify2 n) req (sb_jwt cfg) of
        Inl e \<Rightarrow> (Inl (guard_exn e), res, s)
      | Inr c \<Rightarrow>
      case parse_list_params c params of
        Inl e \<Rightarrow> answered (send_bad_field (sn_rid n) e res) s
      | Inr f \<Rightarrow>
      case list_submissions (sn_count n) (sn_list n) f (ss_subs s) of
        Inl e \<Rightarrow> sub_internal n (repo_error_what e) res s
      | Inr r \<Rightarrow>
          answered (send_success (sn_rid n)
            (JObj [(''items'', JArr (map (\<lambda>x. stored_json n x False) (lr_items r))), (''total'', JInt (int (lr_total r))),
                   (''limit'', JInt (lr_limit r)), (''offset'', JInt (lr_offset r))]) res) s)"

section \<open>Running the samples\<close>

abbreviation (input) kMaxSamplesHardCap :: nat where
  "kMaxSamplesHardCap \<equiv> 4"

definition text_or_null :: "string \<Rightarrow> json" where
  "text_or_null t = (if t = [] then JNull else JStr t)"

definition case_result_json :: "CaseResult \<Rightarrow> json" where
  "case_result_json c = JObj [(''index'', JInt (cr_index c)), (''status'', JStr (if cr_status c = [] then ''se'' else cr_status c)),
     (''time_ms'', JInt (cr_time_ms c)), (''mem_kb'', JInt (cr_mem_kb c)), (''info'', text_or_null (cr_info c)),
     (''input'', JStr (cr_input c)), (''expected_output'', JStr (cr_expected_output c)),
     (''actual_output'', JStr (cr_actual_output c)), (''stderr'', JStr (cr_stderr c))]"

definition sample_answer_json :: "SampleResult \<Rightarrow> nat \<Rightarrow> nat \<Rightarrow> json" where
  "sample_answer_json r used total_count =
     (let v = sr_verdict r in
      JObj [(''status'', JStr (jr_status v)), (''time_used_ms'', JInt (jr_time_used_ms v)),
            (''memory_used_kb'', JInt (jr_memory_used_kb v)), (''error_message'', text_or_null (jr_error_message v)),
            (''failed_case_index'', JInt (jr_failed_case_index v)), (''parsed'', JBool (jr_parsed v)),
            (''container_wall_ms'', JInt (sr_container_wall_ms r)), (''used_sample_count'', JInt (int used)),
            (''total_sample_count'', JInt (int total_count)), (''cases'', JArr (map case_result_json (jr_case_results v)))])"

definition unavailable :: "sub_env \<Rightarrow> string \<Rightarrow> http_response \<Rightarrow> sub_state \<Rightarrow> sub_result" where
  "unavailable n message res s = answered (send_error (sn_rid n) 503 SERVICE_UNAVAILABLE message JNull res) s"

text \<open>From the problem on. A null runner is \<open>ss_permits = None\<close>.\<close>

definition run_samples_of ::
    "sub_env \<Rightarrow> sub_config \<Rightarrow> Claims \<Rightarrow> ProblemRow \<Rightarrow> string \<Rightarrow> string \<Rightarrow> http_response \<Rightarrow> sub_state \<Rightarrow> sub_result" where
  "run_samples_of n cfg c p language code res s =
     (case list_for_problem (sn_cases n) (p_id p) (Some True) (ss_problems s) of
        Inl e \<Rightarrow> sub_internal n (problem_error_what e) res s
      | Inr [] \<Rightarrow>
          answered (send_error (sn_rid n) 400 INVALID_INPUT ''problem has no sample test cases configured''
            (JObj [(''problem_id'', JStr (to_string (p_id p)))]) res) s
      | Inr cs \<Rightarrow>
          let used = min (length cs) kMaxSamplesHardCap;
              task = task_for n 0 c p language code (take used cs) (ss_problems s)
          in case ss_permits s of
               None \<Rightarrow> unavailable n ''sample runner is not configured on this server'' res s
             | Some permits \<Rightarrow>
                 (case sample_run (sn_tmp_dir n) (sb_judge cfg) (sn_sample n) (sn_sample_wall n) task permits of
                    (Throws x, _, permits') \<Rightarrow> sub_internal n x res (s\<lparr>ss_permits := Some permits'\<rparr>)
                  | (Returns r, _, permits') \<Rightarrow>
                      let s = s\<lparr>ss_permits := Some permits'\<rparr> in
                      if sr_saturated r then unavailable n ''sample runner saturated, retry shortly'' res s
                      else answered (send_success (sn_rid n) (sample_answer_json r used (length cs)) res) s))"

definition run_samples_handler ::
    "sub_env \<Rightarrow> sub_config \<Rightarrow> http_request \<Rightarrow> http_response \<Rightarrow> sub_state \<Rightarrow> sub_result" where
  "run_samples_handler n cfg req res s =
     with_submission n cfg (sample_run_quota (sb_rate cfg)) req (run_samples_of n cfg) res s"

section \<open>Server-sent events\<close>

definition kSseContentType :: string where
  "kSseContentType = ''text/event-stream; charset=utf-8''"

abbreviation (input) kSseRetryIntervalMs :: int where
  "kSseRetryIntervalMs \<equiv> 3000"

definition LF :: string where
  "LF = [CHR 0x0A]"

definition format_sse_event :: "(json \<Rightarrow> string outcome) \<Rightarrow> string \<Rightarrow> json \<Rightarrow> string outcome" where
  "format_sse_event dump ev data =
     (case dump data of
        Throws x \<Rightarrow> Throws x
      | Returns t \<Rightarrow> Returns (''event: '' @ ev @ LF @ ''data: '' @ t @ LF @ LF))"

definition format_sse_error_event ::
    "(json \<Rightarrow> string outcome) \<Rightarrow> string option \<Rightarrow> int \<Rightarrow> ErrorCode \<Rightarrow> string \<Rightarrow> string outcome" where
  "format_sse_error_event dump rid http_status code message =
     (case dump (set_member ''status'' (JInt http_status) (make_error_envelope rid code message JNull)) of
        Throws x \<Rightarrow> Throws x
      | Returns t \<Rightarrow> Returns (''event: error'' @ LF @ ''data: '' @ t @ LF @ LF))"

text \<open>What the handler has put into the response: the status it set, if any, and the body.\<close>

record sse_response =
  se_status :: "int option"
  se_body :: string

type_synonym sse_result = "handler_exn + sse_response"

definition sse_error :: "sub_env \<Rightarrow> int \<Rightarrow> ErrorCode \<Rightarrow> string \<Rightarrow> sse_result" where
  "sse_error n http_status code message =
     (case format_sse_error_event (sn_dump n) (sn_rid n) http_status code message of
        Throws x \<Rightarrow> Inl (ThrowsStd x)
      | Returns b \<Rightarrow> Inr \<lparr>se_status = Some http_status, se_body = b\<rparr>)"

definition kRetryFrame :: string where
  "kRetryFrame = ''retry: '' @ to_string kSseRetryIntervalMs @ LF @ LF"

definition sse_serve :: "sub_env \<Rightarrow> string \<Rightarrow> json \<Rightarrow> sse_result" where
  "sse_serve n ev data =
     (case format_sse_event (sn_dump n) ev data of
        Throws x \<Rightarrow> Inl (ThrowsStd x)
      | Returns b \<Rightarrow> Inr \<lparr>se_status = None, se_body = kRetryFrame @ b\<rparr>)"

text \<open>
  The handler up to the wait: it has answered, or it is subscribed under a handle. \<open>cb\<close> is its callback;
  a null notifier is \<open>None\<close>. The second read is \<open>sn_find_again\<close>, on the table at that moment.
\<close>

datatype 'cb sse_step = SseAnswers sse_result | SseWaits int handle "'cb notifier"

definition sse_enter ::
    "sub_env \<Rightarrow> sub_config \<Rightarrow> string \<Rightarrow> http_request \<Rightarrow> table \<Rightarrow> table \<Rightarrow> 'cb \<Rightarrow> 'cb notifier option \<Rightarrow> 'cb sse_step" where
  "sse_enter n cfg path req t t_again cb notifier =
     (case require_authentication (sn_lib n) (sn_verify1 n) (sn_verify2 n) req (sb_jwt cfg) of
        Inl e \<Rightarrow> SseAnswers (Inl (guard_exn e))
      | Inr c \<Rightarrow>
      case extract_sse_id_from_path path of
        None \<Rightarrow> SseAnswers (sse_error n 400 INVALID_INPUT ''submission id must be a positive integer'')
      | Some i \<Rightarrow>
      case Submission_Repo.find_by_id (sn_find n) i t of
        Inl e \<Rightarrow> SseAnswers (sse_error n 500 INTERNAL_ERROR (''internal error: '' @ repo_error_what e))
      | Inr None \<Rightarrow> SseAnswers (sse_error n 404 NOT_FOUND ''submission not found'')
      | Inr (Some row) \<Rightarrow>
      if role c \<noteq> ''admin'' \<and> sub_user_id row \<noteq> claims_user_id_int c then
        SseAnswers (sse_error n 403 FORBIDDEN ''you can only view your own submissions'')
      else case notifier of
        None \<Rightarrow> SseAnswers (sse_serve n ''result'' (stored_json n row False))
      | Some m \<Rightarrow>
      if is_terminal_status (sub_status row) then SseAnswers (sse_serve n ''result'' (stored_json n row False))
      else case Submission_Repo.find_by_id (sn_find_again n) i t_again of
        Inl _ \<Rightarrow> SseAnswers (sse_serve n ''result'' (stored_json n row False))
      | Inr pre \<Rightarrow>
      let final_row = (case pre of None \<Rightarrow> row | Some r \<Rightarrow> r) in
      case wait_for_enter is_terminal_status i (Some (sub_status final_row, final_row)) cb m of
        (Some (_, r), _) \<Rightarrow> SseAnswers (sse_serve n ''result'' (stored_json n r False))
      | (None, Some (h, m')) \<Rightarrow> SseWaits i h m'
      | (None, None) \<Rightarrow> SseAnswers (sse_serve n ''result'' (stored_json n final_row False)))"

text \<open>
  From the wake-up on: \<open>fired\<close> is the published row, \<open>None\<close> the end of \<^verbatim>\<open>kSseWaitTimeoutMs\<close>. The
  published row has an empty \<^verbatim>\<open>created_at\<close>.
\<close>

definition sse_leave ::
    "sub_env \<Rightarrow> int \<Rightarrow> handle \<Rightarrow> submission option \<Rightarrow> 'cb notifier \<Rightarrow> sse_result \<times> 'cb notifier" where
  "sse_leave n i h fired m =
     (case wait_for_leave i h fired m of
        (Some r, m') \<Rightarrow> (sse_serve n ''result'' (serialize_submission_row (sn_fmt n) [] r False), m')
      | (None, m') \<Rightarrow> (sse_serve n ''pending'' (JObj [(''submission_id'', JInt i)]), m'))"

section \<open>Routes\<close>

text \<open>The \<^verbatim>\<open>try\<close> blocks of \<^verbatim>\<open>register_submission_routes\<close>; the body of the event route is empty when it throws.\<close>

definition sub_guard :: "sub_env \<Rightarrow> sub_result \<Rightarrow> sub_result" where
  "sub_guard n r =
     (case r of
        (Inl (ThrowsStd m), res, s) \<Rightarrow> if rsp_content res = None then sub_internal n m res s else r
      | _ \<Rightarrow> r)"

definition sse_guard :: "sub_env \<Rightarrow> sse_result \<Rightarrow> sse_result" where
  "sse_guard n r =
     (case r of
        Inl (ThrowsStd m) \<Rightarrow> sse_error n 500 INTERNAL_ERROR (''internal error: '' @ m)
      | _ \<Rightarrow> r)"

datatype sub_route = RtSubmit | RtRunSamples | RtGet string | RtList "string \<Rightarrow> string option"

fun sub_route_handler ::
    "sub_env \<Rightarrow> sub_config \<Rightarrow> sub_route \<Rightarrow> http_request \<Rightarrow> http_response \<Rightarrow> sub_state \<Rightarrow> sub_result" where
  "sub_route_handler n cfg RtSubmit req res s =
     sub_guard n (printed (sn_dump n) res (create_submission_handler n cfg req res s))"
| "sub_route_handler n cfg RtRunSamples req res s =
     sub_guard n (printed (sn_dump n) res (run_samples_handler n cfg req res s))"
| "sub_route_handler n cfg (RtGet path) req res s =
     sub_guard n (printed (sn_dump n) res (get_submission_handler n cfg path req res s))"
| "sub_route_handler n cfg (RtList params) req res s =
     sub_guard n (printed (sn_dump n) res (list_submissions_handler n cfg params req res s))"

section \<open>Lemmas\<close>

lemma send_status [simp]:
  "rsp_status (send_error rid st code m d res) = st"
  "rsp_status (send_success rid j res) = 200"
  "rsp_status (send_created rid j res) = 201"
  by (simp_all add: send_error_def send_success_def send_created_def send_json_def)

lemma sub_answers [simp]:
  "answered res s = (r, res', s') \<longleftrightarrow> r = Inr () \<and> res' = res \<and> s' = s"
  "sub_internal n m res s = (r, res', s') \<longleftrightarrow>
     r = Inr () \<and> res' = send_error (sn_rid n) 500 INTERNAL_ERROR (''internal error: '' @ m) JNull res \<and> s' = s"
  "no_such_problem n pid res s = (r, res', s') \<longleftrightarrow>
     r = Inr () \<and> res' = send_error (sn_rid n) 400 INVALID_INPUT ''problem does not exist''
       (JObj [(''problem_id'', JStr (to_string pid))]) res \<and> s' = s"
  "unavailable n m res s = (r, res', s') \<longleftrightarrow>
     r = Inr () \<and> res' = send_error (sn_rid n) 503 SERVICE_UNAVAILABLE m JNull res \<and> s' = s"
  by (auto simp: answered_def sub_internal_def no_such_problem_def unavailable_def)

lemma parse_json_body_None: "parse_json_body parse rid req res = (None, res') \<Longrightarrow> rsp_status res' = 400"
  by (auto simp: parse_json_body_def split: if_splits outcome.splits)

text \<open>The problem a handler goes on with is stored, not deleted, and has the requested number.\<close>

definition live_problem :: "int \<Rightarrow> sub_state \<Rightarrow> ProblemRow \<Rightarrow> bool" where
  "live_problem pid s p \<longleftrightarrow>
     (\<exists>p0. p0 \<in> set (pd_problems (ss_problems s)) \<and> p_id p0 = pid \<and> \<not> p_is_deleted p0 \<and> p = row_to_problem (ss_subs s) p0)"

lemma find_Some_set: "List.find P xs = Some x \<Longrightarrow> x \<in> set xs \<and> P x"
  by (auto simp: find_Some_iff)

lemma find_problem_live:
  "find_problem_by_id v pid False (ss_subs s) (ss_problems s) = Inr (Some p) \<Longrightarrow> live_problem pid s p"
  by (fastforce simp: find_problem_by_id_def acquired_def sql_def live_problem_def split: option.splits dest: find_Some_set)

lemma with_submission_cases:
  assumes "with_submission n cfg q req k res s = (r, res', s')"
  obtains (refused) m where "s' = s\<lparr>ss_limiter := m\<rparr>" "r = Inr () \<Longrightarrow> rsp_status res' \<in> {400, 500}"
  | (runs) c body pid language code p res1 m where
      "require_authentication (sn_lib n) (sn_verify1 n) (sn_verify2 n) req (sb_jwt cfg) = Inr c"
      "sn_parse n (req_body req) = Returns body" "parse_submission body = Inr (pid, language, code)"
      "live_problem pid s p" "k c p language code res1 (s\<lparr>ss_limiter := m\<rparr>) = (r, res', s')"
proof (cases "require_authentication (sn_lib n) (sn_verify1 n) (sn_verify2 n) req (sb_jwt cfg)")
  case (Inl e)
  then show ?thesis using assms refused [of "ss_limiter s"] by (auto simp: with_submission_def)
next
  case (Inr c)
  note auth = this
  obtain g res1 m where rl: "consume_rate_limit (sn_parse n) (sn_now n) res req (ss_limiter s) q = (g, res1, m)"
    by (metis prod_cases3)
  obtain b res2 where pb: "parse_json_body (sn_parse n) (sn_rid n) req res1 = (b, res2)" by fastforce
  show ?thesis
  proof (cases "g = Passes \<and> b \<noteq> None \<and> (\<exists>x p. parse_submission (the b) = Inr x
      \<and> find_problem_by_id (sn_problem n) (fst x) False (ss_subs s) (ss_problems s) = Inr (Some p))")
    case True
    then obtain body pid language code p where t: "g = Passes" "b = Some body" "parse_submission body = Inr (pid, language, code)"
      "find_problem_by_id (sn_problem n) pid False (ss_subs s) (ss_problems s) = Inr (Some p)" by auto
    have "sn_parse n (req_body req) = Returns body"
      using pb t(2) by (auto simp: parse_json_body_def split: if_splits outcome.splits)
    moreover have "k c p language code res2 (s\<lparr>ss_limiter := m\<rparr>) = (r, res', s')"
      using assms auth rl pb t by (simp add: with_submission_def)
    ultimately show ?thesis using runs [OF auth] t(3) find_problem_live [OF t(4)] by blast
  next
    case False
    have "s' = s\<lparr>ss_limiter := m\<rparr> \<and> (r = Inr () \<longrightarrow> rsp_status res' \<in> {400, 500})"
    proof (cases g)
      case Passes
      show ?thesis
      proof (cases b)
        case None
        then show ?thesis using assms auth rl pb Passes parse_json_body_None [OF pb [unfolded None]] by (simp add: with_submission_def)
      next
        case (Some body)
        then show ?thesis using False assms auth rl pb Passes
          by (auto simp: with_submission_def send_bad_field_def Let_def split: sum.splits option.splits)
      qed
    qed (use assms auth rl in \<open>auto simp: with_submission_def\<close>)
    then show ?thesis using refused by blast
  qed
qed

lemma create_Inr:
  assumes "Submission_Repo.create fault now row t = Inr (sid, t')"
  shows "sid = 0 \<and> t' = t \<or> (\<exists>r. sid = auto_inc t \<and> rows t' = rows t @ [r] \<and> sub_id r = sid \<and> sub_user_id r = sub_user_id row
    \<and> sub_problem_id r = sub_problem_id row \<and> sub_language r = sub_language row \<and> sub_code r = sub_code row \<and> sub_status r = ''pending'')"
  using assms unfolding create_def Let_def by (auto split: if_splits sum.splits sql_fault.splits)

lemma store_submission_cases:
  assumes "store_submission n c p language code res s = (r, res', s')" and pos: "0 < auto_inc (ss_subs s)"
  obtains (unstored) "r = Inr ()" "s' = s" "rsp_status res' \<in> {400, 500}"
  | (stored) row t where
      "sub_id row = auto_inc (ss_subs s)" "sub_user_id row = claims_user_id_int c" "sub_problem_id row = p_id p"
      "sub_language row = language" "sub_code row = code" "sub_status row = ''pending''"
      "rows t = rows (ss_subs s) @ [row]"
      "queue_submission n (sub_id row) c p language code res (s\<lparr>ss_subs := t\<rparr>) = (r, res', s')"
proof -
  let ?row = "\<lparr>sub_id = 0, sub_user_id = claims_user_id_int c, sub_problem_id = p_id p, sub_language = language, sub_code = code,
                 sub_status = [], sub_time_used = None, sub_memory_used = None, sub_error_message = None,
                 sub_created_at = 0, sub_finished_at = None\<rparr>"
  show ?thesis
  proof (cases "Submission_Repo.create (sn_create n) (sn_db_now n) ?row (ss_subs s)")
    case (Inl e)
    then show ?thesis using assms unstored by (simp add: store_submission_def)
  next
    case (Inr a)
    obtain sid t where a: "a = (sid, t)" by fastforce
    consider "sid = 0" "t = ss_subs s" | row where
      "sub_id row = auto_inc (ss_subs s)" "sub_user_id row = claims_user_id_int c" "sub_problem_id row = p_id p"
      "sub_language row = language" "sub_code row = code" "sub_status row = ''pending''"
      "rows t = rows (ss_subs s) @ [row]" "sid = sub_id row"
      using create_Inr [OF Inr [unfolded a]] by auto
    then show ?thesis
    proof cases
      case 1
      then show ?thesis using assms Inr a unstored by (simp add: store_submission_def)
    next
      case (2 row)
      have "\<not> sid \<le> 0" using 2(1,8) pos by simp
      then have "queue_submission n (sub_id row) c p language code res (s\<lparr>ss_subs := t\<rparr>) = (r, res', s')"
        using assms(1) Inr a 2(8) by (simp add: store_submission_def)
      then show ?thesis using stored 2 by blast
    qed
  qed
qed

lemma queue_submission_cases:
  assumes "queue_submission n sid c p language code res s = (r, res', s')"
  obtains (unjudged) "r = Inr ()" "rsp_status res' = 201" "ss_sched s = None" "s' = s"
  | (full) sch where "r = Inr ()" "rsp_status res' = 503" "ss_sched s = Some sch" "s' = s"
  | (queued) sch cs where "r = Inr ()" "rsp_status res' = 201" "ss_sched s = Some sch"
      "s' = s\<lparr>ss_sched := Some (sch\<lparr>sc_queue := sc_queue sch @ [task_for n sid c p language code cs (ss_problems s)]\<rparr>)\<rparr>"
      "case list_for_problem (sn_cases n) (p_id p) (Some False) (ss_problems s) of Inl _ \<Rightarrow> cs = [] | Inr xs \<Rightarrow> cs = xs"
proof -
  let ?cs = "case list_for_problem (sn_cases n) (p_id p) (Some False) (ss_problems s) of Inl _ \<Rightarrow> [] | Inr cs \<Rightarrow> cs"
  let ?task = "task_for n sid c p language code ?cs (ss_problems s)"
  show ?thesis
  proof (cases "ss_sched s")
    case None
    then show ?thesis using assms unjudged by (simp add: queue_submission_def Let_def)
  next
    case (Some sch)
    show ?thesis
    proof (cases "fst (enqueue ?task sch)")
      case False
      then have e: "enqueue ?task sch = (False, sch)"
        by (auto simp: enqueue_def split: if_splits)
      then show ?thesis using assms Some full by (simp add: queue_submission_def Let_def)
    next
      case True
      then have e: "enqueue ?task sch = (True, sch\<lparr>sc_queue := sc_queue sch @ [?task]\<rparr>)"
        by (auto simp: enqueue_def split: if_splits)
      then have "r = Inr () \<and> rsp_status res' = 201 \<and> s' = s\<lparr>ss_sched := Some (sch\<lparr>sc_queue := sc_queue sch @ [?task]\<rparr>)\<rparr>"
        using assms Some by (auto simp: queue_submission_def Let_def)
      moreover have "case list_for_problem (sn_cases n) (p_id p) (Some False) (ss_problems s) of Inl _ \<Rightarrow> ?cs = [] | Inr xs \<Rightarrow> ?cs = xs"
        by (simp split: sum.splits)
      ultimately show ?thesis using queued [OF _ _ Some] by blast
    qed
  qed
qed

section \<open>Submitting: properties\<close>

text \<open>What the task of a stored row says: its number, code and language, the limits of the problem, and the hidden cases.\<close>

definition task_judges :: "sub_env \<Rightarrow> problem_db \<Rightarrow> ProblemRow \<Rightarrow> submission \<Rightarrow> JudgeTask \<Rightarrow> bool" where
  "task_judges n d p row task \<longleftrightarrow>
     jt_submission_id task = sub_id row \<and> jt_user_id task = sub_user_id row \<and> jt_problem_id task = sub_problem_id row
     \<and> jt_language task = sub_language row \<and> jt_code task = sub_code row
     \<and> jt_time_limit_ms task = p_time_limit p \<and> jt_memory_limit_mb task = p_memory_limit p
     \<and> (\<forall>cs. list_for_problem (sn_cases n) (p_id p) (Some False) d = Inr cs \<longrightarrow> jt_test_cases task = map case_input cs)"


definition demo_sub_env :: "json \<Rightarrow> sub_env" where
  "demo_sub_env j = \<lparr>sn_lib = table_lib Jwt_Utils.demo_table, sn_parse = (\<lambda>_. Returns j), sn_dump = demo_dump, sn_rid = None,
     sn_verify1 = 2000000000, sn_verify2 = 2000000000, sn_now = 5, sn_problem = User_Repo.demo_env, sn_cases = User_Repo.demo_env,
     sn_judge = User_Repo.demo_env, sn_create = NoFault, sn_db_now = 100, sn_find = NoFault, sn_find_again = NoFault,
     sn_count = NoFault, sn_list = NoFault, sn_fmt = to_string, sn_tmp_dir = Returns ''/tmp'',
     sn_sample = Judge_Scheduler.demo_env ''ac'', sn_sample_wall = 12\<rparr>"

definition demo_judge_cfg :: JudgeConfig where
  "demo_judge_cfg = \<lparr>sg_judge_hard_timeout_seconds = 30, sg_output_limit_bytes = 1000, sg_judge_image = ''judge'',
     sg_network_mode = ''none'', sg_task_dir_parent = ''/tmp'', sg_task_volume_name = [], sg_sample_max_concurrent = 2,
     sg_sample_max_cases = 3\<rparr>"

definition demo_sub_cfg :: sub_config where
  "demo_sub_cfg = \<lparr>sb_jwt = \<lparr>jc_secret = demo_secret, jc_issuer = ''litecode''\<rparr>,
     sb_rate = \<lparr>auth_register_per_minute_per_ip = 5, auth_login_per_minute_per_ip = 5, problems_public_per_minute_per_ip = 5,
       submission_per_minute_per_user = 5, admin_write_per_minute = 5, bulk_import_per_hour = 5, stats_ranking_per_minute_per_ip = 5,
       admin_users_list_per_minute = 5, admin_users_role_per_minute = 5, admin_audit_logs_per_minute = 5, admin_queue_per_minute = 5,
       sample_run_per_minute_per_user = 5\<rparr>, sb_judge = demo_judge_cfg\<rparr>"

definition demo_sub_state :: sub_state where
  "demo_sub_state = \<lparr>ss_subs = empty_table, ss_problems = one_problem, ss_limiter = [], ss_sched = Some demo_sched, ss_permits = Some 2\<rparr>"

lemma demo_sub_facts: "0 < auto_inc (ss_subs demo_sub_state)" "ss_sched demo_sub_state = Some demo_sched"
  "rows (ss_subs demo_sub_state) = []" "sc_queue demo_sched = []"
  by (simp_all add: demo_sub_state_def empty_table_def demo_sched_def)

definition demo_submission :: json where
  "demo_submission = JObj [(''problem_id'', JInt 1), (''language'', JStr ''cpp''), (''code'', JStr ''int main(){}'')]"

definition submit_req :: http_request where
  "submit_req = \<lparr>req_body = ''body'', remote_addr = ''10.0.0.1'',
     req_header = (\<lambda>h. if h = ''Authorization'' then Some ''Bearer acc'' else None)\<rparr>"

lemma validate_code_length_code [code]:
  "validate_code_length n =
     (if 1 \<le> int n \<and> int n \<le> 15728640 then Inr ()
      else Inl (''code length must be between '' @ to_string 1 @ '' and '' @ to_string 15728640 @ '' bytes''))"
proof -
  have "1 \<le> int n \<and> int n \<le> 15728640 \<longleftrightarrow> \<not> (n < kMinCodeLength \<or> n > kMaxCodeLength)"
    by (simp only: kMinCodeLength_def kMaxCodeLength_def) linarith
  moreover have "int kMinCodeLength = 1" "int kMaxCodeLength = 15728640" by (simp_all add: kMinCodeLength_def kMaxCodeLength_def)
  ultimately show ?thesis by (simp only: validate_code_length_def if_not_P if_P not_not split: if_split) simp
qed


text \<open>
  C38. If the cases cannot be loaded, the submission is accepted all the same, and the task that is queued has
  no cases at all.
\<close>

theorem failed_load_queues_no_cases:
  assumes "create_submission_handler n cfg req res s = (Inr (), res', s')" and "rsp_status res' = 201"
    and "0 < auto_inc (ss_subs s)" and "ss_sched s = Some sch"
    and "\<And>pid. \<exists>e. list_for_problem (sn_cases n) pid (Some False) (ss_problems s) = Inl e"
  shows "\<exists>row task. rows (ss_subs s') = rows (ss_subs s) @ [row] \<and> sub_status row = ''pending''
    \<and> ss_sched s' = Some (sch\<lparr>sc_queue := sc_queue sch @ [task]\<rparr>)
    \<and> jt_submission_id task = sub_id row \<and> jt_test_cases task = []"
  using assms(1) unfolding create_submission_handler_def
proof (cases rule: with_submission_cases)
  case (refused m)
  then show ?thesis using assms(2) by auto
next
  case (runs c body pid language code p res1 m)
  have pos: "0 < auto_inc (ss_subs (s\<lparr>ss_limiter := m\<rparr>))" using assms(3) by simp
  from runs(5) pos show ?thesis
  proof (cases rule: store_submission_cases)
    case unstored
    then show ?thesis using assms(2) by auto
  next
    case (stored row t)
    from stored(8) show ?thesis
    proof (cases rule: queue_submission_cases)
      case (queued sch' cs)
      have "cs = []" using queued(5) assms(5) [of "p_id p"] by auto
      then show ?thesis using queued(3,4) stored(6,7) assms(4) by (auto simp: task_for_def Let_def)
    qed (use assms(2,4) in auto)
  qed
qed

definition unreadable_cases :: "sub_env" where
  "unreadable_cases = (demo_sub_env demo_submission)\<lparr>sn_cases := User_Repo.demo_env\<lparr>dv_acquire := Some ''no connection''\<rparr>\<rparr>"

theorem failed_load_queues_no_cases_witness:
  "\<exists>sch' task. ss_sched (snd (snd (create_submission_handler unreadable_cases demo_sub_cfg submit_req demo_res demo_sub_state))) = Some sch'
     \<and> sc_queue sch' = [task] \<and> jt_test_cases task = []"
proof -
  let ?h = "create_submission_handler unreadable_cases demo_sub_cfg submit_req demo_res demo_sub_state"
  have "case ?h of (r, res, s) \<Rightarrow> r = Inr () \<and> rsp_status res = 201" by code_simp
  then have v: "fst ?h = Inr () \<and> rsp_status (fst (snd ?h)) = 201" by (simp add: case_prod_beta)
  then have h: "?h = (Inr (), fst (snd ?h), snd (snd ?h))" by (simp add: prod_eq_iff)
  have "\<exists>e. list_for_problem (sn_cases unreadable_cases) pid (Some False) (ss_problems demo_sub_state) = Inl e" for pid
    by (simp add: unreadable_cases_def list_for_problem_def acquired_def)
  from failed_load_queues_no_cases [OF h _ demo_sub_facts(1,2) this] v demo_sub_facts(4) show ?thesis by auto
qed

text \<open>
  The number of the problem is read modulo \<open>2^32\<close> before its range is checked: every integer that is
  congruent to a number in range is taken for that number.
\<close>

theorem problem_id_wraps:
  assumes "1 \<le> v" and "v < 2 ^ 31"
  shows "require_int_field (JObj [(field, JInt (v + 2 ^ 32 * k))]) field 1 (2 ^ 31 - 1) = Inr v"
proof -
  have "v + 2 ^ 32 * k + 2 ^ 31 = v + 2 ^ 31 + k * 2 ^ 32" by simp
  then have "(v + 2 ^ 32 * k + 2 ^ 31) mod 2 ^ 32 = (v + 2 ^ 31) mod 2 ^ 32" by (metis mod_mult_self1)
  also have "\<dots> = v + 2 ^ 31" using assms by (intro mod_pos_pos_trivial) simp_all
  finally have "wrap32 (v + 2 ^ 32 * k) = v" by (simp add: wrap32_def)
  then show ?thesis using assms by (simp add: require_int_field_def get_member_def Let_def)
qed

theorem problem_id_wraps_witness: "require_int_field (JObj [(''problem_id'', JInt 4294967297)]) ''problem_id'' 1 (2 ^ 31 - 1) = Inr 1"
  using problem_id_wraps [of 1 "''problem_id''" 1] by simp

end
