(* ===== verification/Submission_Reads.thy ===== *)
theory Submission_Reads
  imports Submission_Routes
begin

text \<open>
  The read side of \<^verbatim>\<open>src/routes/submission_routes.h\<close>: who may see which submission through the three
  routes that show one, how a verdict reaches a waiting client and how it can be missed, and that a sample
  run changes nothing.
\<close>

section \<open>Reading: properties\<close>

definition may_read :: "Claims \<Rightarrow> submission \<Rightarrow> bool" where
  "may_read c r \<longleftrightarrow> role c = ''admin'' \<or> sub_user_id r = claims_user_id_int c"

lemma find_by_id_Some: "Submission_Repo.find_by_id f i t = Inr (Some r) \<Longrightarrow> r \<in> set (rows t) \<and> sub_id r = i"
  by (auto simp: find_by_id_def sql_run_def split: sql_fault.splits dest: find_Some_set)

lemma parse_list_user:
  "parse_list_params c params = Inr f \<Longrightarrow> role c \<noteq> ''admin'' \<Longrightarrow> f_user_id f = Some (claims_user_id_int c)"
  by (auto simp: parse_list_params_def split: sum.splits)

lemma list_items:
  assumes "list_submissions fc fl f t = Inr r"
  shows "set (lr_items r) \<subseteq> {x \<in> set (rows t). matches_filter (Submission_Repo.clamp_list_filter f) x}"
    and "f_user_id (Submission_Repo.clamp_list_filter f) = f_user_id f" and "length (lr_items r) \<le> 100"
proof -
  let ?f = "Submission_Repo.clamp_list_filter f"
  have cc: "Submission_Repo.clamp_list_filter ?f = ?f" by (simp add: Submission_Repo.clamp_list_filter_def kSubmissionDefaultListLimit_def kSubmissionMaxListLimit_def Let_def)
  have "lr_items r = take (nat (f_limit ?f)) (drop (nat (f_offset ?f)) (rev (sort_key (\<lambda>r. sub_created_at r)
      (sort_key (\<lambda>r. sub_id r) (List.filter (matches_filter ?f) (rows t))))))"
    using assms by (auto simp: list_submissions_def sql_run_def Let_def split: sum.splits sql_fault.splits)
  moreover have "f_limit ?f \<le> 100" by (simp add: Submission_Repo.clamp_list_filter_def kSubmissionDefaultListLimit_def kSubmissionMaxListLimit_def Let_def)
  ultimately show "set (lr_items r) \<subseteq> {x \<in> set (rows t). matches_filter ?f x}" "length (lr_items r) \<le> 100"
    by (auto dest!: in_set_takeD in_set_dropD)
  show "f_user_id ?f = f_user_id f" by (simp add: Submission_Repo.clamp_list_filter_def Let_def)
qed

lemma get_submission_200:
  assumes "get_submission_handler n cfg path req res s = (Inr (), res', s')" and "rsp_status res' = 200"
  obtains c i row where "require_authentication (sn_lib n) (sn_verify1 n) (sn_verify2 n) req (sb_jwt cfg) = Inr c"
    "extract_id_from_path path = Some i" "row \<in> set (rows (ss_subs s))" "sub_id row = i" "may_read c row"
    "res' = send_success (sn_rid n) (stored_json n row True) res"
  using assms
  by (auto simp: get_submission_handler_def may_read_def split: sum.splits option.splits if_splits dest!: find_by_id_Some)

lemma list_submissions_200:
  assumes "list_submissions_handler n cfg params req res s = (Inr (), res', s')" and "rsp_status res' = 200"
  obtains c f r where "require_authentication (sn_lib n) (sn_verify1 n) (sn_verify2 n) req (sb_jwt cfg) = Inr c"
    "parse_list_params c params = Inr f" "list_submissions (sn_count n) (sn_list n) f (ss_subs s) = Inr r"
    "res' = send_success (sn_rid n)
        (JObj [(''items'', JArr (map (\<lambda>x. stored_json n x False) (lr_items r))), (''total'', JInt (int (lr_total r))),
               (''limit'', JInt (lr_limit r)), (''offset'', JInt (lr_offset r))]) res"
  using assms by (auto simp: list_submissions_handler_def send_bad_field_def split: sum.splits)

lemma listed_may_read:
  assumes "parse_list_params c params = Inr f" and "list_submissions fc fl f t = Inr r" and "x \<in> set (lr_items r)"
  shows "may_read c x"
proof (cases "role c = ''admin''")
  case False
  then have "f_user_id f = Some (claims_user_id_int c)" by (rule parse_list_user [OF assms(1)])
  then show ?thesis using list_items(1,2) [OF assms(2)] assms(3) by (auto simp: may_read_def matches_filter_def)
qed (simp add: may_read_def)

text \<open>The rows of a page: the matching rows, newest first, from the offset on.\<close>

definition page_rows :: "list_filter \<Rightarrow> table \<Rightarrow> submission list" where
  "page_rows f t = take (nat (f_limit f)) (drop (nat (f_offset f)) (rev (sort_key (\<lambda>r. sub_created_at r)
     (sort_key (\<lambda>r. sub_id r) (List.filter (matches_filter f) (rows t))))))"

lemma list_result_page:
  assumes "list_submissions fc fl f t = Inr r"
  shows "lr_items r = page_rows (Submission_Repo.clamp_list_filter f) t"
    and "lr_total r = length (List.filter (matches_filter (Submission_Repo.clamp_list_filter f)) (rows t))"
  using assms
  by (auto simp: list_submissions_def count_submissions_def sql_run_def Let_def page_rows_def clamp_idem split: sum.splits sql_fault.splits)

lemma sse_error_status: "sse_error n k code m = Inr r \<Longrightarrow> se_status r = Some k"
  by (auto simp: sse_error_def split: outcome.splits)

lemma sse_enter_reads:
  assumes "sse_enter n cfg path req t t_again cb notifier = st"
    and "(\<exists>r. st = SseAnswers (Inr r) \<and> se_status r = None) \<or> (\<exists>i h m. st = SseWaits i h m)"
  obtains c i row where "require_authentication (sn_lib n) (sn_verify1 n) (sn_verify2 n) req (sb_jwt cfg) = Inr c"
    "extract_sse_id_from_path path = Some i" "Submission_Repo.find_by_id (sn_find n) i t = Inr (Some row)" "may_read c row"
  using assms that
  by (auto simp: sse_enter_def may_read_def dest: sse_error_status split: sum.splits option.splits if_splits)

lemma sse_enter_serves:
  assumes "sse_enter n cfg path req t t_again cb notifier = SseAnswers (Inr r)"
    and "require_authentication (sn_lib n) (sn_verify1 n) (sn_verify2 n) req (sb_jwt cfg) = Inr c" "may_read c row"
    and "extract_sse_id_from_path path = Some i" "Submission_Repo.find_by_id (sn_find n) i t = Inr (Some row)"
  shows "\<exists>row'. (row' = row \<or> Submission_Repo.find_by_id (sn_find_again n) i t_again = Inr (Some row'))
    \<and> sse_serve n ''result'' (stored_json n row' False) = Inr r"
  using assms
  by (auto simp: sse_enter_def may_read_def wait_for_enter_def Let_def
      split: sum.splits option.splits if_splits prod.splits)

lemma sse_enter_waits:
  assumes "sse_enter n cfg path req t t_again cb (Some m) = SseWaits i h m'"
  shows "subscribe i (Some cb) m = Inr (h, m') \<and> extract_sse_id_from_path path = Some i"
  using assms by (auto simp: sse_enter_def wait_for_enter_def Let_def split: sum.splits option.splits if_splits prod.splits)

text \<open>
  C13. A user who is not an administrator sees only their own submissions, through each of the three routes.
  The single submission: the answer is that row, which the caller may read. The list: the answer is exactly the
  page of the rows that match the parameters, each of which the caller may read (at most 100). The event stream:
  if it answers at once, the body is a result event of the submission named in the path, as the first or the
  second read found it, and the caller may read that row; if it starts to wait, it is subscribed to the
  submission named in the path, which the caller may read. Between the two reads other requests, workers and the
  recovery sweep may run any statements on the table.
\<close>

theorem submissions_private:
  assumes "repo_run t es t_again" and "Submission_Repo.table_ok t"
  shows "(get_submission_handler n cfg path req res s = (Inr (), res', s') \<and> rsp_status res' = 200 \<longrightarrow>
      (\<exists>c row. require_authentication (sn_lib n) (sn_verify1 n) (sn_verify2 n) req (sb_jwt cfg) = Inr c
         \<and> row \<in> set (rows (ss_subs s)) \<and> extract_id_from_path path = Some (sub_id row) \<and> may_read c row
         \<and> res' = send_success (sn_rid n) (stored_json n row True) res))
   \<and> (list_submissions_handler n cfg params req res s = (Inr (), res', s') \<and> rsp_status res' = 200 \<longrightarrow>
      (\<exists>c f. require_authentication (sn_lib n) (sn_verify1 n) (sn_verify2 n) req (sb_jwt cfg) = Inr c
         \<and> parse_list_params c params = Inr f
         \<and> (let g = Submission_Repo.clamp_list_filter f; items = page_rows g (ss_subs s) in
              (\<forall>x \<in> set items. x \<in> set (rows (ss_subs s)) \<and> may_read c x) \<and> length items \<le> 100
              \<and> res' = send_success (sn_rid n)
                  (JObj [(''items'', JArr (map (\<lambda>x. stored_json n x False) items)),
                         (''total'', JInt (int (length (List.filter (matches_filter g) (rows (ss_subs s)))))),
                         (''limit'', JInt (f_limit g)), (''offset'', JInt (f_offset g))]) res)))
   \<and> (sse_enter n cfg path req t t_again cb notifier = SseAnswers (Inr r) \<and> se_status r = None \<longrightarrow>
      (\<exists>c row. require_authentication (sn_lib n) (sn_verify1 n) (sn_verify2 n) req (sb_jwt cfg) = Inr c
         \<and> row \<in> set (rows t) \<union> set (rows t_again) \<and> extract_sse_id_from_path path = Some (sub_id row) \<and> may_read c row
         \<and> sse_serve n ''result'' (stored_json n row False) = Inr r))
   \<and> (sse_enter n cfg path req t t_again cb notifier = SseWaits i h m \<longrightarrow>
      (\<exists>c row m0. require_authentication (sn_lib n) (sn_verify1 n) (sn_verify2 n) req (sb_jwt cfg) = Inr c
         \<and> row \<in> set (rows t) \<and> extract_sse_id_from_path path = Some (sub_id row) \<and> may_read c row
         \<and> notifier = Some m0 \<and> subscribe (sub_id row) (Some cb) m0 = Inr (h, m) \<and> i = sub_id row))"
  (is "?get \<and> ?list \<and> ?sse \<and> ?wait")
proof (intro conjI)
  show ?get by (metis get_submission_200)
  show ?list
  proof (intro impI)
    assume h: "list_submissions_handler n cfg params req res s = (Inr (), res', s') \<and> rsp_status res' = 200"
    obtain c f r where l: "require_authentication (sn_lib n) (sn_verify1 n) (sn_verify2 n) req (sb_jwt cfg) = Inr c"
      "parse_list_params c params = Inr f" "list_submissions (sn_count n) (sn_list n) f (ss_subs s) = Inr r"
      "res' = send_success (sn_rid n)
          (JObj [(''items'', JArr (map (\<lambda>x. stored_json n x False) (lr_items r))), (''total'', JInt (int (lr_total r))),
                 (''limit'', JInt (lr_limit r)), (''offset'', JInt (lr_offset r))]) res"
      by (rule list_submissions_200 [OF conjunct1 [OF h] conjunct2 [OF h]])
    have "\<forall>x \<in> set (lr_items r). may_read c x" using listed_may_read [OF l(2,3)] by blast
    moreover have "lr_limit r = f_limit (Submission_Repo.clamp_list_filter f)" "lr_offset r = f_offset (Submission_Repo.clamp_list_filter f)"
      using l(3) by (auto simp: list_submissions_def sql_run_def Let_def split: sum.splits sql_fault.splits)
    ultimately show "\<exists>c f. require_authentication (sn_lib n) (sn_verify1 n) (sn_verify2 n) req (sb_jwt cfg) = Inr c
         \<and> parse_list_params c params = Inr f
         \<and> (let g = Submission_Repo.clamp_list_filter f; items = page_rows g (ss_subs s) in
              (\<forall>x \<in> set items. x \<in> set (rows (ss_subs s)) \<and> may_read c x) \<and> length items \<le> 100
              \<and> res' = send_success (sn_rid n)
                  (JObj [(''items'', JArr (map (\<lambda>x. stored_json n x False) items)),
                         (''total'', JInt (int (length (List.filter (matches_filter g) (rows (ss_subs s)))))),
                         (''limit'', JInt (f_limit g)), (''offset'', JInt (f_offset g))]) res)"
      using l list_items(1,3) [OF l(3)] by (intro exI [of _ c] exI [of _ f]) (auto simp: Let_def list_result_page)
  qed
  show ?sse
  proof (intro impI)
    assume a: "sse_enter n cfg path req t t_again cb notifier = SseAnswers (Inr r) \<and> se_status r = None"
    obtain c j row where p: "require_authentication (sn_lib n) (sn_verify1 n) (sn_verify2 n) req (sb_jwt cfg) = Inr c"
      "extract_sse_id_from_path path = Some j" "Submission_Repo.find_by_id (sn_find n) j t = Inr (Some row)" "may_read c row"
      by (rule sse_enter_reads [OF conjunct1 [OF a]]) (use a in auto)
    obtain row' where q: "row' = row \<or> Submission_Repo.find_by_id (sn_find_again n) j t_again = Inr (Some row')"
      "sse_serve n ''result'' (stored_json n row' False) = Inr r"
      using sse_enter_serves [OF conjunct1 [OF a] p(1,4,2,3)] by blast
    have row: "row \<in> set (rows t)" "sub_id row = j" using find_by_id_Some [OF p(3)] by simp_all
    have "row' \<in> set (rows t) \<union> set (rows t_again)" "sub_id row' = j" using q(1) row find_by_id_Some by blast+
    moreover have "sub_user_id row' = sub_user_id row"
      using q(1) same_owner [OF assms row(1)] row(2) find_by_id_Some by blast
    ultimately show "\<exists>c row. require_authentication (sn_lib n) (sn_verify1 n) (sn_verify2 n) req (sb_jwt cfg) = Inr c
         \<and> row \<in> set (rows t) \<union> set (rows t_again) \<and> extract_sse_id_from_path path = Some (sub_id row) \<and> may_read c row
         \<and> sse_serve n ''result'' (stored_json n row False) = Inr r"
      using p(1,2,4) q(2) by (intro exI [of _ c] exI [of _ row']) (auto simp: may_read_def)
  qed
  show ?wait
  proof (intro impI)
    assume a: "sse_enter n cfg path req t t_again cb notifier = SseWaits i h m"
    then obtain m0 where m0: "notifier = Some m0" by (cases notifier) (auto simp: sse_enter_def split: sum.splits option.splits if_splits)
    obtain c j row where p: "require_authentication (sn_lib n) (sn_verify1 n) (sn_verify2 n) req (sb_jwt cfg) = Inr c"
      "extract_sse_id_from_path path = Some j" "Submission_Repo.find_by_id (sn_find n) j t = Inr (Some row)" "may_read c row"
      by (rule sse_enter_reads [OF a]) auto
    then show "\<exists>c row m0. require_authentication (sn_lib n) (sn_verify1 n) (sn_verify2 n) req (sb_jwt cfg) = Inr c
         \<and> row \<in> set (rows t) \<and> extract_sse_id_from_path path = Some (sub_id row) \<and> may_read c row
         \<and> notifier = Some m0 \<and> subscribe (sub_id row) (Some cb) m0 = Inr (h, m) \<and> i = sub_id row"
      using sse_enter_waits [OF a [unfolded m0]] find_by_id_Some [OF p(3)] m0 by auto
  qed
qed

definition user_sub_env :: sub_env where
  "user_sub_env = (demo_sub_env JNull)\<lparr>sn_lib :=
     table_lib [(''acc'', demo_secret, access_builder 1500000000 ''j1'' ''litecode'' ''7'' ''alice'' ''user'' 60)]\<rparr>"

definition two_rows :: table where
  "two_rows = \<lparr>rows = [demo_row\<lparr>sub_id := 1, sub_user_id := 7, sub_status := ''pending''\<rparr>, demo_row\<lparr>sub_id := 2, sub_user_id := 8\<rparr>], auto_inc = 3\<rparr>"

definition two_rows_state :: sub_state where
  "two_rows_state = demo_sub_state\<lparr>ss_subs := two_rows\<rparr>"

theorem submissions_private_witness:
  "rsp_status (fst (snd (get_submission_handler user_sub_env demo_sub_cfg ''/api/v1/submissions/2'' submit_req demo_res two_rows_state))) = 403
   \<and> (\<exists>c row. require_authentication (sn_lib user_sub_env) (sn_verify1 user_sub_env) (sn_verify2 user_sub_env) submit_req (sb_jwt demo_sub_cfg) = Inr c
        \<and> row \<in> set (rows two_rows) \<and> may_read c row)"
proof -
  let ?h = "\<lambda>p. get_submission_handler user_sub_env demo_sub_cfg p submit_req demo_res two_rows_state"
  have v: "fst (?h ''/api/v1/submissions/1'') = Inr () \<and> rsp_status (fst (snd (?h ''/api/v1/submissions/1''))) = 200
    \<and> rsp_status (fst (snd (?h ''/api/v1/submissions/2''))) = 403" by code_simp
  then have h: "?h ''/api/v1/submissions/1'' = (Inr (), fst (snd (?h ''/api/v1/submissions/1'')), snd (snd (?h ''/api/v1/submissions/1'')))"
    by (simp add: prod_eq_iff)
  have r: "repo_run two_rows [] two_rows" by (rule run_nil)
  have ok: "Submission_Repo.table_ok two_rows" by code_simp
  have "rows (ss_subs two_rows_state) = rows two_rows" by (simp add: two_rows_state_def)
  then show ?thesis using submissions_private [OF r ok, of user_sub_env demo_sub_cfg "''/api/v1/submissions/1''" submit_req demo_res two_rows_state
      "fst (snd (?h ''/api/v1/submissions/1''))" "snd (snd (?h ''/api/v1/submissions/1''))"] h v by metis
qed

section \<open>Waiting for a verdict\<close>

text \<open>
  While a request waits, other threads use the notifier: each call is one step under its mutex. The run of a list
  of calls gives the callbacks made, in order, and the registry. A waiter has received what its callback was
  called with first.
\<close>

datatype 'cb notifier_op = OpSubscribe int 'cb | OpUnsubscribe int handle | OpPublish int submission

fun notify_step :: "'cb notifier_op \<Rightarrow> 'cb notifier \<Rightarrow> ('cb \<times> submission) list \<times> 'cb notifier" where
  "notify_step (OpSubscribe j cb) m = ([], register j cb m)"
| "notify_step (OpUnsubscribe j h) m = ([], unsubscribe j h m)"
| "notify_step (OpPublish j row) m = snd (publish (j, row) m)"

fun notify_run :: "'cb notifier_op list \<Rightarrow> 'cb notifier \<Rightarrow> ('cb \<times> submission) list \<times> 'cb notifier" where
  "notify_run [] m = ([], m)"
| "notify_run (x # xs) m =
     (case notify_step x m of (calls, m') \<Rightarrow> case notify_run xs m' of (calls', m'') \<Rightarrow> (calls @ calls', m''))"

definition received :: "'cb \<Rightarrow> ('cb \<times> submission) list \<Rightarrow> submission option" where
  "received cb calls = map_option snd (List.find (\<lambda>c. fst c = cb) calls)"

text \<open>Calls that leave a waiter of the submission \<open>i\<close> with the callback \<open>cb\<close> alone.\<close>

fun bystander :: "int \<Rightarrow> 'cb \<Rightarrow> 'cb notifier_op \<Rightarrow> bool" where
  "bystander i cb (OpSubscribe j cb') \<longleftrightarrow> cb' \<noteq> cb"
| "bystander i cb (OpUnsubscribe j h) \<longleftrightarrow> j \<noteq> i"
| "bystander i cb (OpPublish j row) \<longleftrightarrow> j \<noteq> i"

definition waiting :: "int \<Rightarrow> 'cb \<Rightarrow> 'cb notifier \<Rightarrow> bool" where
  "waiting i cb m \<longleftrightarrow> notifier_ok m \<and> cb \<in> set (subscribers i m) \<and> (\<forall>j. j \<noteq> i \<longrightarrow> cb \<notin> set (subscribers j m))"

lemma bystander_step:
  assumes "waiting i cb m" and "bystander i cb x"
  shows "waiting i cb (snd (notify_step x m))" and "cb \<notin> fst ` set (fst (notify_step x m))"
proof -
  have ok: "notifier_ok m" using assms(1) by (simp add: waiting_def)
  show "waiting i cb (snd (notify_step x m))"
  proof (cases x)
    case (OpSubscribe j cb')
    then show ?thesis using assms reg.ok_register [OF ok] reg.view_register [OF ok] by (auto simp: waiting_def)
  next
    case (OpUnsubscribe j h)
    then show ?thesis
      using assms notifier_ok_unsubscribe [OF ok] by (auto simp: waiting_def subscribers_unsubscribe [OF ok] dest: in_set_butlastD)
  next
    case (OpPublish j row)
    then show ?thesis using assms notifier_ok_publish [OF ok] by (auto simp: waiting_def subscribers_publish [OF ok])
  qed
  show "cb \<notin> fst ` set (fst (notify_step x m))"
    using assms by (cases x) (auto simp: waiting_def publish_calls)
qed

lemma bystander_run:
  assumes "waiting i cb m" and "\<forall>x \<in> set xs. bystander i cb x"
  shows "waiting i cb (snd (notify_run xs m)) \<and> cb \<notin> fst ` set (fst (notify_run xs m))"
  using assms
proof (induction xs arbitrary: m)
  case (Cons x xs)
  have "bystander i cb x" using Cons.prems(2) by simp
  note st = bystander_step [OF Cons.prems(1) this]
  show ?case using Cons.IH [OF st(1)] Cons.prems(2) st(2) by (auto simp: split_beta)
qed simp

lemma notify_run_append:
  "notify_run (xs @ ys) m = (fst (notify_run xs m) @ fst (notify_run ys (snd (notify_run xs m))), snd (notify_run ys (snd (notify_run xs m))))"
  by (induction xs arbitrary: m) (simp_all add: split_beta)

lemma received_skip: "cb \<notin> fst ` set as \<Longrightarrow> received cb (as @ bs) = received cb bs"
  unfolding received_def by (induction as) auto

lemma received_hit: "cb \<in> set cbs \<Longrightarrow> received cb (map (\<lambda>c. (c, row)) cbs @ bs) = Some row"
  unfolding received_def by (induction cbs) auto

text \<open>
  C31. A client that waits is served: once the handler has subscribed its callback (a fresh one) to the submission, other
  threads may subscribe, unsubscribe and publish in any order, as long as none of them unsubscribes from or publishes
  this submission; then a publication of the submission calls the callback with the published row, and whatever happens
  to the notifier afterwards, the handler answers with a result event of that row, without the code and with an
  empty time of creation. (An unsubscription from the same submission, by a waiter that timed out or was
  served, could remove this callback instead of its own: theorem \<open>served_waiter_drops_newcomer\<close>.)
\<close>

theorem sse_delivers:
  assumes "sse_enter n cfg path req t t_again cb (Some m) = SseWaits i h m'" and "notifier_ok m"
    and "\<forall>j. cb \<notin> set (subscribers j m)" and "\<forall>x \<in> set others. bystander i cb x"
    and "notify_run (others @ OpPublish i row # later) m' = (calls, m'')"
  shows "(cb, row) \<in> set calls
    \<and> fst (sse_leave n i h (received cb calls) m'') = sse_serve n ''result'' (serialize_submission_row (sn_fmt n) [] row False)"
proof -
  have sub: "subscribe i (Some cb) m = Inr (h, m')" using sse_enter_waits [OF assms(1)] by simp
  have w: "waiting i cb m'"
    using notifier_ok_subscribe [OF assms(2) sub] assms(3) by (auto simp: waiting_def subscribers_subscribe [OF assms(2) sub])
  let ?m = "snd (notify_run others m')"
  obtain rest where calls: "calls = fst (notify_run others m') @ map (\<lambda>c. (c, row)) (subscribers i ?m) @ rest"
    using assms(5) by (auto simp: notify_run_append split_beta publish_calls)
  have b: "cb \<in> set (subscribers i ?m)" "cb \<notin> fst ` set (fst (notify_run others m'))"
    using bystander_run [OF w assms(4)] by (simp_all add: waiting_def)
  then have "received cb calls = Some row" unfolding calls by (simp add: received_skip received_hit)
  then show ?thesis using b(1) calls by (auto simp: sse_leave_def wait_for_leave_def)
qed

theorem sse_delivers_witness:
  "\<exists>m' h calls m''. sse_enter user_sub_env demo_sub_cfg ''/api/v1/submissions/sse/1'' submit_req two_rows two_rows ''cb'' (Some new_notifier)
       = SseWaits 1 h m'
     \<and> notify_run ([OpSubscribe 1 ''x'', OpSubscribe 2 ''y'', OpPublish 2 demo_row, OpUnsubscribe 2 3] @ OpPublish 1 demo_row # [OpUnsubscribe 1 2]) m'
         = (calls, m'')
     \<and> fst (sse_leave user_sub_env 1 h (received ''cb'' calls) m'')
         = sse_serve user_sub_env ''result'' (serialize_submission_row (sn_fmt user_sub_env) [] demo_row False)"
proof -
  let ?e = "sse_enter user_sub_env demo_sub_cfg ''/api/v1/submissions/sse/1'' submit_req two_rows two_rows ''cb'' (Some new_notifier)"
  let ?o = "[OpSubscribe 1 ''x'', OpSubscribe 2 ''y'', OpPublish 2 demo_row, OpUnsubscribe 2 3]"
  have "(case ?e of SseWaits i h m' \<Rightarrow> i = 1 | _ \<Rightarrow> False)" by code_simp
  then obtain h m' where e: "?e = SseWaits 1 h m'" by (auto split: sse_step.splits)
  obtain calls m'' where p: "notify_run (?o @ OpPublish 1 demo_row # [OpUnsubscribe 1 2]) m' = (calls, m'')" by fastforce
  have f: "\<forall>j. ''cb'' \<notin> set (subscribers j (new_notifier :: string notifier))" by (simp add: subscribers_def new_notifier_def)
  have o: "\<forall>x \<in> set ?o. bystander 1 ''cb'' x" by simp
  show ?thesis using sse_delivers [OF e notifier_ok_new f o p] e p by blast
qed

text \<open>
  A verdict can be missed: if the judge stores and publishes it after the handler has read the row and
  before it has subscribed, the publication reaches nobody, no later publication of that submission can
  follow, and the client is told after the full wait that the submission is pending although it is finished.
\<close>

theorem sse_missed_verdict:
  "\<exists>t' h m'. mark_finished NoFault 200 1 ''ac'' (Some 3) (Some 4) [] two_rows = Inr (True, t')
     \<and> (\<exists>r \<in> set (rows t'). sub_id r = 1 \<and> sub_status r = ''ac'')
     \<and> publish (1, demo_row\<lparr>sub_status := ''ac''\<rparr>) (new_notifier :: string notifier) = (0, [], new_notifier)
     \<and> sse_enter user_sub_env demo_sub_cfg ''/api/v1/submissions/sse/1'' submit_req two_rows two_rows ''cb'' (Some new_notifier) = SseWaits 1 h m'
     \<and> mark_finished NoFault now 1 st a b e t' \<noteq> Inr (True, t'')
     \<and> fst (sse_leave user_sub_env 1 h None m') = sse_serve user_sub_env ''pending'' (JObj [(''submission_id'', JInt 1)])"
proof -
  let ?f = "mark_finished NoFault 200 1 ''ac'' (Some 3) (Some 4) [] two_rows"
  let ?e = "sse_enter user_sub_env demo_sub_cfg ''/api/v1/submissions/sse/1'' submit_req two_rows two_rows ''cb'' (Some new_notifier)"
  have "(case ?e of SseWaits i h m' \<Rightarrow> i = 1 | _ \<Rightarrow> False)" by code_simp
  then obtain h m' where e: "?e = SseWaits 1 h m'" by (auto split: sse_step.splits)
  have f: "case ?f of Inl _ \<Rightarrow> False | Inr (b, t') \<Rightarrow> b \<and> map (\<lambda>r. (sub_id r, sub_status r)) (rows t') = [(1, ''ac''), (2, ''pending'')]"
    by code_simp
  then obtain t' where t: "?f = Inr (True, t')" "map (\<lambda>r. (sub_id r, sub_status r)) (rows t') = [(1, ''ac''), (2, ''pending'')]"
    by (auto split: sum.splits)
  then obtain r1 r2 where r: "rows t' = [r1, r2]" "sub_id r1 = 1" "sub_status r1 = ''ac''" "sub_id r2 = 2" by auto
  then have "mark_finished NoFault now 1 st a b e t' \<noteq> Inr (True, t'')"
    by (auto simp: mark_finished_def sql_run_def update_where_def split: if_splits)
  moreover have "publish (1, demo_row\<lparr>sub_status := ''ac''\<rparr>) new_notifier = (0, [], new_notifier :: string notifier)"
    by (simp add: publish_def new_notifier_def um_simps)
  ultimately show ?thesis using e t(1) r by (auto simp: sse_leave_def wait_for_leave_def)
qed

section \<open>Running the samples\<close>

text \<open>
  Running the samples never changes a submission, a problem, the judge queue or the number of permits; an
  answer of 200 comes from a run of at most four of the samples of an existing problem, and shows the
  verdict of that run.
\<close>

theorem sample_run_changes_nothing:
  assumes "run_samples_handler n cfg req res s = (r, res', s')"
  shows "ss_subs s' = ss_subs s \<and> ss_problems s' = ss_problems s \<and> ss_sched s' = ss_sched s \<and> ss_permits s' = ss_permits s
    \<and> (r = Inr () \<and> rsp_status res' = 200 \<longrightarrow> (\<exists>c p language code cs permits v es res1.
         live_problem (p_id p) s p \<and> list_for_problem (sn_cases n) (p_id p) (Some True) (ss_problems s) = Inr cs \<and> cs \<noteq> []
         \<and> ss_permits s = Some permits
         \<and> sample_run (sn_tmp_dir n) (sb_judge cfg) (sn_sample n) (sn_sample_wall n)
              (task_for n 0 c p language code (take 4 cs) (ss_problems s)) permits = (Returns v, es, permits)
         \<and> \<not> sr_saturated v
         \<and> res' = send_success (sn_rid n) (sample_answer_json v (min (length cs) 4) (length cs)) res1))"
  using assms unfolding run_samples_handler_def
proof (cases rule: with_submission_cases)
  case (refused m)
  then show ?thesis by auto
next
  case (runs c body pid language code p res1 m)
  have pid: "p_id p = pid" using runs(4) by (auto simp: live_problem_def row_to_problem_def)
  show ?thesis
  proof (cases "list_for_problem (sn_cases n) (p_id p) (Some True) (ss_problems s)")
    case (Inl e)
    then show ?thesis using runs(5) by (auto simp: run_samples_of_def)
  next
    case (Inr cs)
    note ls = this
    show ?thesis
    proof (cases "cs = [] \<or> ss_permits s = None")
      case True
      then show ?thesis using ls runs(5) by (cases cs) (auto simp: run_samples_of_def Let_def)
    next
      case False
      then obtain permits where p: "cs \<noteq> []" "ss_permits s = Some permits" by auto
      let ?t = "task_for n 0 c p language code (take 4 cs) (ss_problems s)"
      have tk: "take (min (length cs) 4) cs = take 4 cs" by (cases "length cs \<le> 4") auto
      obtain o1 es pm where run: "sample_run (sn_tmp_dir n) (sb_judge cfg) (sn_sample n) (sn_sample_wall n) ?t permits = (o1, es, pm)"
        by (metis prod_cases3)
      have pm: "pm = permits" using run by (auto simp: sample_run_def try_acquire_def release_def split: if_splits prod.splits)
      let ?s = "s\<lparr>ss_limiter := m, ss_permits := Some permits\<rparr>"
      have eq: "run_samples_of n cfg c p language code res1 (s\<lparr>ss_limiter := m\<rparr>) =
          (case o1 of Throws x \<Rightarrow> sub_internal n x res1 ?s
           | Returns v \<Rightarrow> if sr_saturated v then unavailable n ''sample runner saturated, retry shortly'' res1 ?s
                        else answered (send_success (sn_rid n) (sample_answer_json v (min (length cs) 4) (length cs)) res1) ?s)"
        using ls p run tk pm by (cases cs) (auto simp: run_samples_of_def Let_def split: outcome.splits)
      have e: "s' = ?s \<and> (r = Inr () \<and> rsp_status res' = 200 \<longrightarrow> (\<exists>v. o1 = Returns v \<and> \<not> sr_saturated v
          \<and> res' = send_success (sn_rid n) (sample_answer_json v (min (length cs) 4) (length cs)) res1))"
        using runs(5) [unfolded eq] by (auto split: outcome.splits if_splits)
      have "live_problem (p_id p) s p" using runs(4) pid by simp
      note found = this ls p run [unfolded pm]
      show ?thesis
      proof (intro conjI impI)
        assume "r = Inr () \<and> rsp_status res' = 200"
        with e obtain v where v: "o1 = Returns v" "\<not> sr_saturated v"
          "res' = send_success (sn_rid n) (sample_answer_json v (min (length cs) 4) (length cs)) res1" by blast
        show "\<exists>c p language code cs permits v es res1.
            live_problem (p_id p) s p \<and> list_for_problem (sn_cases n) (p_id p) (Some True) (ss_problems s) = Inr cs \<and> cs \<noteq> []
            \<and> ss_permits s = Some permits
            \<and> sample_run (sn_tmp_dir n) (sb_judge cfg) (sn_sample n) (sn_sample_wall n)
                 (task_for n 0 c p language code (take 4 cs) (ss_problems s)) permits = (Returns v, es, permits)
            \<and> \<not> sr_saturated v
            \<and> res' = send_success (sn_rid n) (sample_answer_json v (min (length cs) 4) (length cs)) res1"
          using found [unfolded v(1)] v(2,3) by blast
      qed (use e p(2) in simp_all)
    qed
  qed
qed

end
