(* ===== verification/Docker_Client.thy ===== *)
theory Docker_Client
  imports Judge_Scheduler "HOL-Library.While_Combinator"
begin

text \<open>
  \<^verbatim>\<open>src/judge/docker_client.h\<close>: the client of the docker engine that the scheduler, the sample runner and the
  warm pool use: endpoint URLs, query strings, the body of a create request, the multiplexed log format, and
  the calls.

  A call is one HTTP exchange. \<^verbatim>\<open>httplib\<close> is the function \<open>dk_http\<close> from the request to its reply (\<open>NoReply\<close> is
  a null \<^verbatim>\<open>Result\<close> with the text of its error), \<^verbatim>\<open>nlohmann::json\<close> is \<open>dk_parse\<close> and \<open>dk_dump\<close>. Every operation
  returns its result and the requests it has sent. Log lines are left out.

  Main results: the loop that strips the log frames ends, and inverts the framing, so that the verdict of a
  judge is read whatever frames its output arrives in; a parsed endpoint is well-formed and printing it gives
  the same endpoint; a query string decodes to its parameters; every call sends at most one request, none
  without a container id, and returns only after a reply in the 200s.
\<close>

section \<open>Errors and endpoints\<close>

datatype docker_error =
    DockerConfigError string
  | DockerHttpError int string string
  | DockerTimeoutError string
  | JsonError

definition build_message :: "int \<Rightarrow> string \<Rightarrow> string \<Rightarrow> string" where
  "build_message status url body =
     ''docker http '' @ to_string status @ '' on '' @ url @ '' (body='' @ to_string (int (length body)) @ '' bytes): '' @ body"

record Endpoint =
  ep_scheme :: string
  ep_host :: string
  ep_port :: int
  ep_base :: string
  ep_timeout_ms :: int

definition default_endpoint :: Endpoint where
  "default_endpoint = \<lparr>ep_scheme = ''http'', ep_host = [], ep_port = 2375, ep_base = ''/'', ep_timeout_ms = 30000\<rparr>"

definition to_url :: "Endpoint \<Rightarrow> string" where
  "to_url ep = (if ep_scheme ep = ''tcp'' then ''http'' else ep_scheme ep) @ ''://'' @ ep_host ep @ '':'' @ to_string (ep_port ep)"

definition endpoint_join :: "Endpoint \<Rightarrow> string \<Rightarrow> string" where
  "endpoint_join ep path =
     (let out = ep_base ep;
          out = (if out = [] \<or> last out \<noteq> CHR ''/'' then out @ ''/'' else out)
      in if path \<noteq> [] \<and> hd path = CHR ''/'' then out @ tl path else out @ path)"

text \<open>\<^verbatim>\<open>s.find(needle)\<close> as the part before the first occurrence and the part after it.\<close>

fun split_at_str :: "string \<Rightarrow> string \<Rightarrow> (string \<times> string) option" where
  "split_at_str needle [] = (if needle = [] then Some ([], []) else None)"
| "split_at_str needle (c # cs) =
     (if starts_with needle (c # cs) then Some ([], drop (length needle) (c # cs))
      else map_option (\<lambda>(a, b). (c # a, b)) (split_at_str needle cs))"

definition parse_port :: "string \<Rightarrow> string \<Rightarrow> docker_error + int" where
  "parse_port port_s url =
     (let err = DockerConfigError (''docker endpoint port invalid: '' @ [quote] @ port_s @ [quote] @ '' in '' @ url) in
      case stoi port_s of None \<Rightarrow> Inl err | Some p \<Rightarrow> if p < 1 \<or> p > 65535 then Inl err else Inr p)"

definition parse_authority :: "string \<Rightarrow> string \<Rightarrow> docker_error + string \<times> int" where
  "parse_authority authority url =
     (let missing = DockerConfigError (''docker endpoint missing host: '' @ url) in
      case split_at_char (CHR '':'') authority of
        None \<Rightarrow> if authority = [] then Inl missing else Inr (authority, 2375)
      | Some (host, port_s) \<Rightarrow>
          if host = [] then Inl missing
          else case parse_port port_s url of Inl e \<Rightarrow> Inl e | Inr p \<Rightarrow> Inr (host, p))"

definition parse_endpoint_url :: "string \<Rightarrow> docker_error + Endpoint" where
  "parse_endpoint_url url =
     (case split_at_str ''://'' url of
        None \<Rightarrow> Inl (DockerConfigError (''docker endpoint url missing scheme: '' @ url))
      | Some (raw, rest) \<Rightarrow>
          if raw = [] then Inl (DockerConfigError (''docker endpoint url missing scheme: '' @ url))
          else let scheme = map tolower raw in
          if scheme \<noteq> ''http'' \<and> scheme \<noteq> ''tcp'' then
            Inl (DockerConfigError (''docker endpoint scheme must be http or tcp, got '' @ [quote] @ scheme @ [quote] @ '' in '' @ url))
          else if CHR ''@'' \<in> set rest then Inl (DockerConfigError (''docker endpoint url has '' @ [quote] @ ''@'' @ [quote] @ '' (no credentials): '' @ url))
          else if CHR ''#'' \<in> set rest then Inl (DockerConfigError (''docker endpoint url has fragment: '' @ url))
          else if CHR ''?'' \<in> set rest then Inl (DockerConfigError (''docker endpoint url has query string: '' @ url))
          else let (authority, base) = (case split_at_char (CHR ''/'') rest of None \<Rightarrow> (rest, ''/'') | Some (a, b) \<Rightarrow> (a, CHR ''/'' # b)) in
          case parse_authority authority url of
            Inl e \<Rightarrow> Inl e
          | Inr (host, port) \<Rightarrow> Inr (default_endpoint\<lparr>ep_scheme := scheme, ep_host := host, ep_port := port, ep_base := base\<rparr>))"

section \<open>Query strings\<close>

definition hex_digit :: "nat \<Rightarrow> char" where
  "hex_digit k = ''0123456789ABCDEF'' ! k"

definition escaped :: "char \<Rightarrow> bool" where
  "escaped c \<longleftrightarrow> c \<in> {CHR '' '', CHR ''&'', CHR ''='', CHR ''?'', CHR ''#''}"

definition escape_value :: "string \<Rightarrow> string" where
  "escape_value v = concat (map (\<lambda>c. if escaped c then [CHR ''%'', hex_digit (uchar c div 16 mod 16), hex_digit (uchar c mod 16)] else [c]) v)"

definition query_step :: "string \<Rightarrow> string \<times> string \<Rightarrow> string" where
  "query_step out kv =
     (case kv of (k, v) \<Rightarrow>
        if v = [] then out else (if out = [] then [] else out @ ''&'') @ k @ ''='' @ escape_value v)"

definition build_query :: "(string \<times> string) list \<Rightarrow> string" where
  "build_query qs = foldl query_step [] qs"

section \<open>Log frames\<close>

definition byte_word :: "string \<Rightarrow> nat \<Rightarrow> 32 word" where
  "byte_word s i = of_nat (uchar (s ! i))"

definition frame_size :: "string \<Rightarrow> nat \<Rightarrow> 32 word" where
  "frame_size body pos =
     or (or (or (push_bit 24 (byte_word body (pos + 4))) (push_bit 16 (byte_word body (pos + 5))))
            (push_bit 8 (byte_word body (pos + 6)))) (byte_word body (pos + 7))"

definition keep_stream :: "bool \<Rightarrow> bool \<Rightarrow> nat \<Rightarrow> bool" where
  "keep_stream want_stdout want_stderr stream \<longleftrightarrow> stream = 1 \<and> want_stdout \<or> stream = 2 \<and> want_stderr \<or> stream = 0"

text \<open>The loop state: the position, the output, and whether \<^verbatim>\<open>break\<close> was taken.\<close>

definition frame_step :: "string \<Rightarrow> bool \<Rightarrow> bool \<Rightarrow> nat \<times> string \<times> bool \<Rightarrow> nat \<times> string \<times> bool" where
  "frame_step body so se st =
     (case st of (pos, out, _) \<Rightarrow>
        let size = unat (frame_size body pos) in
        if pos + 8 + size > length body then (pos, out @ drop pos body, True)
        else (pos + 8 + size,
              (if keep_stream so se (uchar (body ! pos)) then out @ take size (drop (pos + 8) body) else out), False))"

definition frame_more :: "string \<Rightarrow> nat \<times> string \<times> bool \<Rightarrow> bool" where
  "frame_more body st = (case st of (pos, _, broke) \<Rightarrow> \<not> broke \<and> pos + 8 \<le> length body)"

text \<open>\<open>None\<close> would be a loop that never ends.\<close>

definition strip_docker_log_frames :: "string \<Rightarrow> bool \<Rightarrow> bool \<Rightarrow> string option" where
  "strip_docker_log_frames body want_stdout want_stderr =
     (if length body < 8 then Some body
      else if uchar (body ! 0) > 2 then Some body
      else map_option (\<lambda>(_, out, _). out)
             (while_option (frame_more body) (frame_step body want_stdout want_stderr) (0, [], False)))"

section \<open>The body of a create request\<close>

definition mount_json :: "mount \<Rightarrow> json" where
  "mount_json m =
     (case m of
        VolumeMount v c ro \<Rightarrow> JObj [(''Type'', JStr ''volume''), (''Source'', JStr v), (''Target'', JStr c), (''ReadOnly'', JBool ro)]
      | BindMount h c ro \<Rightarrow> JObj [(''Type'', JStr ''bind''), (''Source'', JStr h), (''Target'', JStr c), (''ReadOnly'', JBool ro)])"

definition str_array :: "string list \<Rightarrow> json" where
  "str_array xs = JArr (map JStr xs)"

definition host_config :: "create_options \<Rightarrow> json" where
  "host_config opts = JObj (
     [(''NetworkMode'', JStr (if co_network_mode opts = [] then ''none'' else co_network_mode opts))]
     @ (if co_read_only opts then [(''ReadonlyRootfs'', JBool True)] else [])
     @ (if co_pids_limit opts > 0 then [(''PidsLimit'', JInt (co_pids_limit opts))] else [])
     @ (if co_memory_mb opts > 0 then [(''Memory'', JInt (co_memory_mb opts * 1024 * 1024))] else [])
     @ (if co_cpus opts > 0 then [(''NanoCpus'', JInt (trunc_int (rnd (co_cpus opts * 1000000000))))] else [])
     @ (if co_security_opt opts \<noteq> [] then [(''SecurityOpt'', str_array (co_security_opt opts))] else [])
     @ (if co_tmpfs opts \<noteq> [] then [(''Tmpfs'', JObj (map (\<lambda>(k, v). (k, JStr v)) (co_tmpfs opts)))] else [])
     @ (if co_mounts opts \<noteq> [] then [(''Mounts'', JArr (map mount_json (co_mounts opts)))] else []))"

definition build_create_body :: "create_options \<Rightarrow> json" where
  "build_create_body opts = JObj (
     [(''Image'', JStr (co_image opts)), (''AttachStdin'', JBool False), (''AttachStdout'', JBool False),
      (''AttachStderr'', JBool False), (''Tty'', JBool False), (''OpenStdin'', JBool False), (''StdinOnce'', JBool False)]
     @ (if co_command opts \<noteq> [] then [(''Cmd'', str_array (co_command opts))] else [])
     @ (if co_env opts \<noteq> [] then [(''Env'', str_array (co_env opts))] else [])
     @ (if co_working_dir opts \<noteq> [] then [(''WorkingDir'', JStr (co_working_dir opts))] else [])
     @ (if co_user opts \<noteq> [] then [(''User'', JStr (co_user opts))] else [])
     @ [(''HostConfig'', host_config opts)])"

section \<open>Requests\<close>

record wire_request =
  wr_method :: string
  wr_url :: string
  wr_path :: string
  wr_body :: "string option"
  wr_timeout :: "int \<times> int"

datatype wire_reply = NoReply string | Reply int string

record docker_env =
  dk_http :: "wire_request \<Rightarrow> wire_reply"
  dk_parse :: "string \<Rightarrow> json outcome"
  dk_dump :: "json \<Rightarrow> string outcome"

record HttpResult =
  hr_status :: int
  hr_body :: json
  hr_raw :: string

type_synonym 'a docker_result = "(docker_error + 'a) \<times> wire_request list"

text \<open>\<^verbatim>\<open>timeout % 1000\<close> truncates like the division.\<close>

definition split_timeout :: "int \<Rightarrow> int \<times> int" where
  "split_timeout ms = (let sec = trunc_div ms 1000 in (sec, (ms - sec * 1000) * 1000))"

definition read_reply :: "docker_env \<Rightarrow> string \<Rightarrow> string \<Rightarrow> bool \<Rightarrow> wire_reply \<Rightarrow> docker_error + HttpResult" where
  "read_reply dk method full expect_json rc =
     (case rc of
        NoReply err \<Rightarrow> Inl (DockerTimeoutError (''docker '' @ method @ '' '' @ full @ '' failed: '' @ err))
      | Reply status raw \<Rightarrow>
          let body = (if \<not> expect_json then JNull
                      else if raw = [] then JObj []
                      else case dk_parse dk raw of Returns j \<Rightarrow> j | Throws _ \<Rightarrow> JObj [])
          in if status < 200 \<or> status \<ge> 300 then Inl (DockerHttpError status full raw)
             else Inr \<lparr>hr_status = status, hr_body = body, hr_raw = raw\<rparr>)"

definition do_request ::
    "docker_env \<Rightarrow> Endpoint \<Rightarrow> string \<Rightarrow> string \<Rightarrow> json option \<Rightarrow> bool \<Rightarrow> int \<Rightarrow> HttpResult docker_result" where
  "do_request dk ep method path body expect_json timeout_ms =
     (let timeout_ms = (if timeout_ms < 0 then ep_timeout_ms ep else timeout_ms);
          full = endpoint_join ep path;
          send = (\<lambda>b. let rq = \<lparr>wr_method = method, wr_url = to_url ep, wr_path = full, wr_body = b, wr_timeout = split_timeout timeout_ms\<rparr>
                      in (read_reply dk method full expect_json (dk_http dk rq), [rq]))
      in case (case body of None \<Rightarrow> Returns None | Some j \<Rightarrow> (case dk_dump dk j of Throws x \<Rightarrow> Throws x | Returns t \<Rightarrow> Returns (Some t))) of
           Throws _ \<Rightarrow> (Inl JsonError, [])
         | Returns b \<Rightarrow>
             if method = ''GET'' then
               if body \<noteq> None then (Inl (DockerConfigError (''GET cannot carry a body: '' @ path)), []) else send None
             else if method = ''POST'' then send b
             else if method = ''DELETE'' then
               if body \<noteq> None then (Inl (DockerConfigError (''DELETE cannot carry a body: '' @ path)), []) else send None
             else (Inl (DockerConfigError (''unsupported HTTP method: '' @ method)), []))"

section \<open>The client\<close>

definition client_new :: "string \<Rightarrow> int \<Rightarrow> docker_error + Endpoint" where
  "client_new url default_timeout_ms =
     (case parse_endpoint_url url of
        Inl e \<Rightarrow> Inl e
      | Inr ep \<Rightarrow>
          if default_timeout_ms < 1 then Inl (DockerConfigError ''docker client timeout_ms must be >= 1'')
          else Inr (ep\<lparr>ep_timeout_ms := default_timeout_ms\<rparr>))"

definition client_of_endpoint :: "Endpoint \<Rightarrow> Endpoint" where
  "client_of_endpoint ep = (if ep_timeout_ms ep < 1 then ep\<lparr>ep_timeout_ms := 30000\<rparr> else ep)"

text \<open>The part of an operation after its request.\<close>

definition then_result :: "'a docker_result \<Rightarrow> ('a \<Rightarrow> docker_error + 'b) \<Rightarrow> 'b docker_result" where
  "then_result r f = (case r of (Inl e, rqs) \<Rightarrow> (Inl e, rqs) | (Inr x, rqs) \<Rightarrow> (f x, rqs))"

definition docker_ping :: "docker_env \<Rightarrow> Endpoint \<Rightarrow> bool \<times> wire_request list" where
  "docker_ping dk ep =
     (case do_request dk ep ''GET'' ''/_ping'' None False (-1) of
        (Inl _, rqs) \<Rightarrow> (False, rqs)
      | (Inr r, rqs) \<Rightarrow> (hr_status r = 200 \<or> hr_status r = 204, rqs))"

definition docker_info :: "docker_env \<Rightarrow> Endpoint \<Rightarrow> json docker_result" where
  "docker_info dk ep = then_result (do_request dk ep ''GET'' ''/info'' None True (-1)) (\<lambda>r. Inr (hr_body r))"

definition docker_version :: "docker_env \<Rightarrow> Endpoint \<Rightarrow> json docker_result" where
  "docker_version dk ep = then_result (do_request dk ep ''GET'' ''/version'' None True (-1)) (\<lambda>r. Inr (hr_body r))"

definition read_string :: "json \<Rightarrow> docker_error + string" where
  "read_string j = (case j of JStr t \<Rightarrow> Inr t | _ \<Rightarrow> Inl JsonError)"

fun warning_step :: "string \<Rightarrow> json \<Rightarrow> string" where
  "warning_step os (JStr w) = (if os = [] then w else os @ ''; '' @ w)"
| "warning_step os _ = (if os = [] then [] else os @ ''; '')"

definition read_warnings :: "json \<Rightarrow> string" where
  "read_warnings j = (case get_member j ''Warnings'' of Some (JArr ws) \<Rightarrow> foldl warning_step [] ws | _ \<Rightarrow> [])"

record CreateResult =
  cr_container :: string
  cr_warnings :: string

definition read_created :: "HttpResult \<Rightarrow> docker_error + CreateResult" where
  "read_created r =
     (case (case get_member (hr_body r) ''Id'' of
              Some j \<Rightarrow> read_string j
            | None \<Rightarrow> if hr_raw r \<noteq> [] then Inl (DockerHttpError (hr_status r) ''/containers/create'' (hr_raw r)) else Inr []) of
        Inl e \<Rightarrow> Inl e
      | Inr i \<Rightarrow> Inr \<lparr>cr_container = i, cr_warnings = read_warnings (hr_body r)\<rparr>)"

definition docker_create :: "docker_env \<Rightarrow> Endpoint \<Rightarrow> create_options \<Rightarrow> CreateResult docker_result" where
  "docker_create dk ep opts =
     (if co_image opts = [] then (Inl (DockerConfigError ''docker create: image is required''), [])
      else then_result (do_request dk ep ''POST'' ''/containers/create'' (Some (build_create_body opts)) True (-1)) read_created)"

definition containers_path :: "string \<Rightarrow> string" where
  "containers_path cid = ''/containers/'' @ cid"

text \<open>The check after a call that expects no content.\<close>

definition expect_done :: "string \<Rightarrow> HttpResult \<Rightarrow> docker_error + unit" where
  "expect_done path r =
     (if hr_status r \<noteq> 204 \<and> hr_status r \<noteq> 200 then Inl (DockerHttpError (hr_status r) path (hr_raw r)) else Inr ())"

definition docker_start :: "docker_env \<Rightarrow> Endpoint \<Rightarrow> string \<Rightarrow> unit docker_result" where
  "docker_start dk ep cid =
     (if cid = [] then (Inl (DockerConfigError ''docker start: container id is empty''), [])
      else let path = containers_path cid @ ''/start''
           in then_result (do_request dk ep ''POST'' path None False (-1)) (expect_done path))"

definition with_query :: "string \<Rightarrow> (string \<times> string) list \<Rightarrow> string" where
  "with_query path qs = (let q = build_query qs in if q \<noteq> [] then path @ ''?'' @ q else path)"

record WaitResult =
  wt_exit_code :: int
  wt_error :: string

definition read_wait :: "HttpResult \<Rightarrow> WaitResult" where
  "read_wait r =
     \<lparr>wt_exit_code = (case get_member (hr_body r) ''StatusCode'' of Some (JInt k) \<Rightarrow> wrap32 k | _ \<Rightarrow> -1),
      wt_error = (case get_member (hr_body r) ''Error'' of Some (JStr t) \<Rightarrow> t | _ \<Rightarrow> [])\<rparr>"

definition docker_wait :: "docker_env \<Rightarrow> Endpoint \<Rightarrow> string \<Rightarrow> int \<Rightarrow> WaitResult docker_result" where
  "docker_wait dk ep cid timeout_ms =
     (if cid = [] then (Inl (DockerConfigError ''docker wait: container id is empty''), [])
      else if timeout_ms < 1 then (Inl (DockerConfigError ''docker wait: timeout_ms must be >= 1''), [])
      else then_result (do_request dk ep ''POST''
             (with_query (containers_path cid @ ''/wait'') [(''condition'', ''not-running'')]) None True timeout_ms)
             (\<lambda>r. Inr (read_wait r)))"

definition docker_kill :: "docker_env \<Rightarrow> Endpoint \<Rightarrow> string \<Rightarrow> unit docker_result" where
  "docker_kill dk ep cid =
     (if cid = [] then (Inl (DockerConfigError ''docker kill: container id is empty''), [])
      else let path = containers_path cid @ ''/kill''
           in then_result (do_request dk ep ''POST'' path None False (-1)) (expect_done path))"

definition bool_text :: "bool \<Rightarrow> string" where
  "bool_text b = (if b then ''true'' else ''false'')"

definition docker_remove :: "docker_env \<Rightarrow> Endpoint \<Rightarrow> string \<Rightarrow> bool \<Rightarrow> bool \<Rightarrow> unit docker_result" where
  "docker_remove dk ep cid force remove_volumes =
     (if cid = [] then (Inl (DockerConfigError ''docker remove: container id is empty''), [])
      else let path = with_query (containers_path cid) [(''force'', bool_text force), (''v'', bool_text remove_volumes)]
           in then_result (do_request dk ep ''DELETE'' path None False (-1)) (expect_done path))"

definition docker_inspect :: "docker_env \<Rightarrow> Endpoint \<Rightarrow> string \<Rightarrow> json docker_result" where
  "docker_inspect dk ep cid =
     (if cid = [] then (Inl (DockerConfigError ''docker inspect: container id is empty''), [])
      else then_result (do_request dk ep ''GET'' (containers_path cid @ ''/json'') None True (-1)) (\<lambda>r. Inr (hr_body r)))"

text \<open>The outer \<open>None\<close> is a log whose frames would never be stripped; every exception gives the empty text.\<close>

definition docker_logs :: "docker_env \<Rightarrow> Endpoint \<Rightarrow> string \<Rightarrow> bool \<Rightarrow> bool \<Rightarrow> int \<Rightarrow> string option \<times> wire_request list" where
  "docker_logs dk ep cid want_stdout want_stderr tail_bytes =
     (if cid = [] then (Some [], [])
      else let path = with_query (containers_path cid @ ''/logs'')
                 [(''stdout'', bool_text want_stdout), (''stderr'', bool_text want_stderr), (''timestamps'', ''false''),
                  (''follow'', ''false''), (''tail'', to_string tail_bytes)]
           in case do_request dk ep ''GET'' path None False (-1) of
                (Inl _, rqs) \<Rightarrow> (Some [], rqs)
              | (Inr r, rqs) \<Rightarrow>
                  ((if hr_status r = 200 then strip_docker_log_frames (hr_raw r) want_stdout want_stderr else Some []), rqs))"

definition docker_create_exec :: "docker_env \<Rightarrow> Endpoint \<Rightarrow> string \<Rightarrow> string list \<Rightarrow> string docker_result" where
  "docker_create_exec dk ep cid cmd =
     (if cid = [] then (Inl (DockerConfigError ''docker create_exec: container id empty''), [])
      else if cmd = [] then (Inl (DockerConfigError ''docker create_exec: cmd is empty''), [])
      else let path = containers_path cid @ ''/exec'';
               body = JObj [(''Cmd'', str_array cmd), (''AttachStdout'', JBool False), (''AttachStderr'', JBool False),
                            (''AttachStdin'', JBool False), (''Tty'', JBool False), (''Detach'', JBool False)]
           in then_result (do_request dk ep ''POST'' path (Some body) True (-1))
                (\<lambda>r. case get_member (hr_body r) ''Id'' of
                       Some j \<Rightarrow> read_string j
                     | None \<Rightarrow> Inl (DockerHttpError (hr_status r) path (hr_raw r))))"

definition docker_probe :: "docker_env \<Rightarrow> Endpoint option \<Rightarrow> ProbeResult" where
  "docker_probe dk client =
     (case client of
        None \<Rightarrow> \<lparr>pr_ok = False, pr_detail = ''no docker client configured'', pr_extra = []\<rparr>
      | Some ep \<Rightarrow>
          if fst (docker_ping dk ep) then \<lparr>pr_ok = True, pr_detail = ''docker proxy reachable'', pr_extra = []\<rparr>
          else \<lparr>pr_ok = False, pr_detail = ''docker proxy unreachable'', pr_extra = []\<rparr>)"

definition make_client_from_config :: "string \<Rightarrow> int \<Rightarrow> docker_error + Endpoint option" where
  "make_client_from_config docker_socket_url default_timeout_ms =
     (if docker_socket_url = [] then Inr None
      else case client_new docker_socket_url default_timeout_ms of Inl e \<Rightarrow> Inl e | Inr ep \<Rightarrow> Inr (Some ep))"

section \<open>Log frames: properties\<close>

text \<open>The loop makes progress: a frame moves the position by at least its header, and a broken frame ends it.\<close>

definition frame_measure :: "string \<Rightarrow> nat \<times> string \<times> bool \<Rightarrow> nat" where
  "frame_measure body st = (case st of (pos, _, broke) \<Rightarrow> if broke then 0 else Suc (length body - pos))"

definition frame_inv :: "string \<Rightarrow> nat \<times> string \<times> bool \<Rightarrow> bool" where
  "frame_inv body st \<longleftrightarrow> (case st of (pos, out, broke) \<Rightarrow> pos \<le> length body \<and> length out \<le> (if broke then length body else pos))"

lemma frame_step_progress:
  assumes "frame_inv body st" and "frame_more body st"
  shows "frame_inv body (frame_step body so se st) \<and> frame_measure body (frame_step body so se st) < frame_measure body st"
  using assms by (cases st) (auto simp: frame_inv_def frame_more_def frame_measure_def frame_step_def Let_def)

lemma frame_start: "frame_inv body (0, [], False)"
  by (simp add: frame_inv_def)

lemma strip_total:
  "\<exists>out. strip_docker_log_frames body want_stdout want_stderr = Some out \<and> length out \<le> length body"
proof -
  let ?b = "frame_more body" and ?c = "frame_step body want_stdout want_stderr"
  obtain st where st: "while_option ?b ?c (0, [], False) = Some st"
    using measure_while_option_Some [of "frame_inv body" ?b ?c "frame_measure body", OF frame_step_progress frame_start] by blast
  have "frame_inv body st"
    using while_option_rule [of "frame_inv body" ?b ?c, OF _ st frame_start] frame_step_progress by blast
  then have "length (fst (snd st)) \<le> length body" by (cases st) (auto simp: frame_inv_def split: if_splits)
  then show ?thesis using st by (cases st) (auto simp: strip_docker_log_frames_def)
qed

text \<open>
  C33. Stripping the frames of a log ends for every input, and never makes the text longer.
\<close>

theorem strip_terminates:
  "\<exists>out. strip_docker_log_frames body want_stdout want_stderr = Some out \<and> length out \<le> length body"
  by (rule strip_total)

text \<open>The format of the engine: a frame is the stream, three zero bytes, the length of the payload and the payload.\<close>

definition be_bytes :: "32 word \<Rightarrow> string" where
  "be_bytes w = map (\<lambda>k. char_of (unat (take_bit 8 (drop_bit k w)))) [24, 16, 8, 0]"

definition log_frame :: "nat \<times> string \<Rightarrow> string" where
  "log_frame f = char_of (fst f) # replicate 3 NUL @ be_bytes (of_nat (length (snd f))) @ snd f"

definition frame_ok :: "nat \<times> string \<Rightarrow> bool" where
  "frame_ok f \<longleftrightarrow> fst f \<le> 2 \<and> length (snd f) < 2 ^ 32"

lemma byte_mod: "unat (take_bit 8 (w :: 32 word)) mod 256 = unat (take_bit 8 w)"
proof -
  have "unat (take_bit 8 w) < 2 ^ 8" unfolding unsigned_take_bit_eq by (rule take_bit_nat_less_exp)
  then show ?thesis by simp
qed

lemma four_bytes:
  "or (or (or (push_bit 24 (take_bit 8 (drop_bit 24 w))) (push_bit 16 (take_bit 8 (drop_bit 16 w))))
          (push_bit 8 (take_bit 8 (drop_bit 8 w)))) (take_bit 8 w) = (w :: 32 word)"
proof (rule bit_word_eqI)
  fix k
  assume "k < LENGTH(32)"
  then consider "k < 8" | "8 \<le> k" "k < 16" | "16 \<le> k" "k < 24" | "24 \<le> k" "k < 32" by fastforce
  then show "bit (or (or (or (push_bit 24 (take_bit 8 (drop_bit 24 w))) (push_bit 16 (take_bit 8 (drop_bit 16 w))))
          (push_bit 8 (take_bit 8 (drop_bit 8 w)))) (take_bit 8 w)) k = bit w k"
    by cases (auto simp: bit_simps)
qed

lemma log_frame_nth:
  "log_frame f ! 4 = be_bytes (of_nat (length (snd f))) ! 0" "log_frame f ! 5 = be_bytes (of_nat (length (snd f))) ! 1"
  "log_frame f ! 6 = be_bytes (of_nat (length (snd f))) ! 2" "log_frame f ! 7 = be_bytes (of_nat (length (snd f))) ! 3"
  by (simp_all add: log_frame_def be_bytes_def nth_append)

lemma log_frame_shape: "length (log_frame f) = 8 + length (snd f)" "drop 8 (log_frame f) = snd f"
  "fst f \<le> 2 \<Longrightarrow> uchar (log_frame f ! 0) = fst f"
  by (simp_all add: log_frame_def be_bytes_def)

lemma frame_size_at:
  assumes "body = pre @ log_frame f @ post" and "length (snd f) < 2 ^ 32"
  shows "unat (frame_size body (length pre)) = length (snd f)"
proof -
  let ?w = "of_nat (length (snd f)) :: 32 word"
  have b: "body ! (length pre + k) = log_frame f ! k" if "k < 8" for k
    using that by (simp add: assms(1) nth_append log_frame_shape)
  have "frame_size body (length pre) = ?w"
    by (simp add: frame_size_def byte_word_def b log_frame_nth be_bytes_def byte_mod four_bytes)
  then show ?thesis using assms(2) by (simp add: unsigned_of_nat take_bit_nat_eq_self)
qed

definition kept :: "bool \<Rightarrow> bool \<Rightarrow> (nat \<times> string) list \<Rightarrow> string" where
  "kept so se fs = concat (map snd (filter (\<lambda>f. keep_stream so se (fst f)) fs))"

lemma frame_step_frame:
  assumes "body = pre @ log_frame f @ post" and "frame_ok f"
  shows "frame_more body (length pre, out, False)"
    and "frame_step body so se (length pre, out, False) = (length (pre @ log_frame f), out @ kept so se [f], False)"
proof -
  have sz: "unat (frame_size body (length pre)) = length (snd f)"
    using frame_size_at [OF assms(1)] assms(2) by (simp add: frame_ok_def)
  have st: "uchar (body ! length pre) = fst f"
    using assms log_frame_shape(1,3) [of f] by (simp add: nth_append frame_ok_def)
  have pay: "take (length (snd f)) (drop (length pre + 8) body) = snd f"
    using log_frame_shape(1,2) [of f] by (simp add: assms(1) add.commute)
  show "frame_more body (length pre, out, False)" by (simp add: frame_more_def assms(1) log_frame_shape)
  show "frame_step body so se (length pre, out, False) = (length (pre @ log_frame f), out @ kept so se [f], False)"
    by (simp add: frame_step_def sz st pay Let_def kept_def log_frame_shape) (simp add: assms(1) log_frame_shape)
qed

lemma strip_frames_loop:
  assumes "body = pre @ concat (map log_frame fs)" and "\<forall>f \<in> set fs. frame_ok f"
  shows "while_option (frame_more body) (frame_step body so se) (length pre, out, False)
    = Some (length body, out @ kept so se fs, False)"
  using assms
proof (induction fs arbitrary: pre out)
  case Nil
  then show ?case by (subst while_option_unfold) (simp add: frame_more_def kept_def)
next
  case (Cons f fs)
  have b: "body = pre @ log_frame f @ concat (map log_frame fs)" using Cons.prems(1) by simp
  have "frame_ok f" using Cons.prems(2) by simp
  note step = frame_step_frame [OF b this]
  have "kept so se [f] @ kept so se fs = kept so se (f # fs)" by (simp add: kept_def)
  moreover have "while_option (frame_more body) (frame_step body so se) (length (pre @ log_frame f), out @ kept so se [f], False)
      = Some (length body, (out @ kept so se [f]) @ kept so se fs, False)"
    using b Cons.prems(2) by (intro Cons.IH) simp_all
  ultimately show ?case using step by (subst while_option_unfold) simp
qed

lemma strip_framed:
  assumes "\<forall>f \<in> set fs. frame_ok f"
  shows "strip_docker_log_frames (concat (map log_frame fs)) want_stdout want_stderr
    = Some (concat (map snd (filter (\<lambda>f. keep_stream want_stdout want_stderr (fst f)) fs)))"
proof (cases fs)
  case Nil
  then show ?thesis by (simp add: strip_docker_log_frames_def)
next
  case (Cons f gs)
  let ?body = "concat (map log_frame fs)"
  have "length ?body \<ge> 8" "uchar (?body ! 0) \<le> 2"
    using assms Cons log_frame_shape(1,3) [of f] by (auto simp: nth_append frame_ok_def)
  then show ?thesis
    using strip_frames_loop [of ?body "[]" fs want_stdout want_stderr "[]"] assms
    by (simp add: strip_docker_log_frames_def kept_def)
qed

text \<open>
  Stripping inverts the framing: a log that consists of frames gives exactly the payloads of the wanted
  streams, in order (frames of stream 0 are always kept).
\<close>

theorem strip_inverts_framing:
  assumes "\<forall>f \<in> set fs. frame_ok f"
  shows "strip_docker_log_frames (concat (map log_frame fs)) want_stdout want_stderr
    = Some (concat (map snd (filter (\<lambda>f. keep_stream want_stdout want_stderr (fst f)) fs)))"
  using assms by (rule strip_framed)

theorem strip_inverts_framing_witness:
  "strip_docker_log_frames (log_frame (1, ''ab'') @ log_frame (2, ''err'') @ log_frame (1, ''c'')) True False = Some ''abc''"
  using strip_inverts_framing [of "[(1, ''ab''), (2, ''err''), (1, ''c'')]" True False]
  by (simp add: frame_ok_def keep_stream_def)

section \<open>Endpoints: properties\<close>

definition host_char :: "char \<Rightarrow> bool" where
  "host_char c \<longleftrightarrow> c \<notin> set '':/@#?''"

definition base_char :: "char \<Rightarrow> bool" where
  "base_char c \<longleftrightarrow> c \<notin> set ''@#?''"

definition endpoint_ok :: "Endpoint \<Rightarrow> bool" where
  "endpoint_ok ep \<longleftrightarrow> (ep_scheme ep = ''http'' \<or> ep_scheme ep = ''tcp'') \<and> ep_host ep \<noteq> [] \<and> list_all host_char (ep_host ep)
     \<and> 1 \<le> ep_port ep \<and> ep_port ep \<le> 65535 \<and> (\<exists>b. ep_base ep = CHR ''/'' # b) \<and> list_all base_char (ep_base ep)"

definition endpoint_text :: "Endpoint \<Rightarrow> string" where
  "endpoint_text ep = ep_scheme ep @ ''://'' @ ep_host ep @ '':'' @ to_string (ep_port ep) @ ep_base ep"

lemma parse_authority_Inr:
  assumes "parse_authority authority url = Inr (host, port)" and "list_all (\<lambda>c. c \<notin> set ''/@#?'') authority"
  shows "host \<noteq> []" "list_all host_char host" "1 \<le> port" "port \<le> 65535"
proof -
  have "host \<noteq> [] \<and> list_all host_char host \<and> 1 \<le> port \<and> port \<le> 65535"
  proof (cases "split_at_char (CHR '':'') authority")
    case None
    then have "CHR '':'' \<notin> set authority" by (auto simp: split_at_char_def split: if_splits)
    then show ?thesis using assms None by (auto simp: parse_authority_def host_char_def list_all_iff split: if_splits)
  next
    case (Some hp)
    obtain h p where hp: "hp = (h, p)" by fastforce
    have "authority = h @ CHR '':'' # p \<and> CHR '':'' \<notin> set h" using split_at_char_Some Some hp by simp
    then show ?thesis using assms Some hp
      by (auto simp: parse_authority_def parse_port_def host_char_def list_all_iff Let_def split: if_splits option.splits sum.splits)
  qed
  then show "host \<noteq> []" "list_all host_char host" "1 \<le> port" "port \<le> 65535" by simp_all
qed

lemma parse_endpoint_ok:
  assumes "parse_endpoint_url url = Inr ep"
  shows "endpoint_ok ep \<and> ep_timeout_ms ep = 30000"
proof -
  obtain raw rest where sp: "split_at_str ''://'' url = Some (raw, rest)"
    and sch: "map tolower raw = ''http'' \<or> map tolower raw = ''tcp''"
    and no: "CHR ''@'' \<notin> set rest" "CHR ''#'' \<notin> set rest" "CHR ''?'' \<notin> set rest"
    using assms by (auto simp: parse_endpoint_url_def Let_def split: option.splits if_splits)
  obtain authority base where ab: "(case split_at_char (CHR ''/'') rest of None \<Rightarrow> (rest, ''/'') | Some (a, b) \<Rightarrow> (a, CHR ''/'' # b)) = (authority, base)"
    by fastforce
  obtain host port where hp: "parse_authority authority url = Inr (host, port)"
    and ep: "ep = default_endpoint\<lparr>ep_scheme := map tolower raw, ep_host := host, ep_port := port, ep_base := base\<rparr>"
    using assms sp sch no ab by (auto simp: parse_endpoint_url_def Let_def split: sum.splits if_splits)
  have shape: "(\<exists>b. base = CHR ''/'' # b) \<and> list_all base_char base \<and> list_all (\<lambda>c. c \<notin> set ''/@#?'') authority"
  proof (cases "split_at_char (CHR ''/'') rest")
    case None
    then have "CHR ''/'' \<notin> set rest" by (auto simp: split_at_char_def split: if_splits)
    then show ?thesis using None ab no by (auto simp: base_char_def list_all_iff)
  next
    case (Some x)
    obtain a b where "x = (a, b)" by fastforce
    then have "rest = a @ CHR ''/'' # b \<and> CHR ''/'' \<notin> set a" "authority = a" "base = CHR ''/'' # b"
      using split_at_char_Some Some ab by auto
    then show ?thesis using no by (auto simp: base_char_def list_all_iff)
  qed
  then show ?thesis using parse_authority_Inr [OF hp] sch ep by (auto simp: endpoint_ok_def default_endpoint_def)
qed

lemma port_digits: "1 \<le> p \<Longrightarrow> \<forall>c \<in> set (to_string p). isdigit c"
  using nat_to_string_digits by (simp add: to_string_def)

lemma parse_endpoint_text:
  assumes "endpoint_ok ep" and "ep_timeout_ms ep = 30000"
  shows "parse_endpoint_url (endpoint_text ep) = Inr ep"
proof -
  obtain b where b: "ep_base ep = CHR ''/'' # b" using assms(1) by (auto simp: endpoint_ok_def)
  let ?auth = "ep_host ep @ CHR '':'' # to_string (ep_port ep)"
  let ?url = "endpoint_text ep"
  have port: "1 \<le> ep_port ep" "ep_port ep \<le> 65535" using assms(1) by (simp_all add: endpoint_ok_def)
  have d: "c \<notin> set '':/@#?''" if "c \<in> set (to_string (ep_port ep))" for c
    using port_digits [OF port(1)] that by (auto simp: isdigit_def)
  have h: "c \<notin> set '':/@#?''" if "c \<in> set (ep_host ep)" for c
    using assms(1) that by (auto simp: endpoint_ok_def list_all_iff host_char_def)
  have bc: "c \<notin> set ''@#?''" if "c \<in> set b" for c
    using assms(1) that b by (auto simp: endpoint_ok_def list_all_iff base_char_def)
  have sch: "ep_scheme ep = ''http'' \<or> ep_scheme ep = ''tcp''" using assms(1) by (simp add: endpoint_ok_def)
  have sp: "split_at_str ''://'' ?url = Some (ep_scheme ep, ?auth @ CHR ''/'' # b)"
    using sch by (auto simp: endpoint_text_def b)
  have low: "map tolower (ep_scheme ep) = ep_scheme ep" "ep_scheme ep \<noteq> []"
    using sch by (auto simp: tolower_def isupper_def)
  have sl: "split_at_char (CHR ''/'') (?auth @ CHR ''/'' # b) = Some (?auth, b)"
    by (rule split_at_char_append) (use h d in auto)
  have co: "split_at_char (CHR '':'') ?auth = Some (ep_host ep, to_string (ep_port ep))"
    by (rule split_at_char_append) (use h in auto)
  have "parse_authority ?auth ?url = Inr (ep_host ep, ep_port ep)"
    using assms(1) port stoi_to_string [of "ep_port ep"] by (simp add: parse_authority_def co parse_port_def endpoint_ok_def)
  moreover have "CHR ''@'' \<notin> set (?auth @ CHR ''/'' # b)" "CHR ''#'' \<notin> set (?auth @ CHR ''/'' # b)" "CHR ''?'' \<notin> set (?auth @ CHR ''/'' # b)"
    using h d bc by auto
  ultimately have "parse_endpoint_url ?url = Inr (default_endpoint\<lparr>ep_scheme := ep_scheme ep, ep_host := ep_host ep, ep_port := ep_port ep, ep_base := ep_base ep\<rparr>)"
    using sp low sl sch b by (auto simp: parse_endpoint_url_def Let_def)
  then show ?thesis using assms(2) by (cases ep) (simp add: default_endpoint_def)
qed

text \<open>
  What a URL that is accepted means: the scheme is \<^verbatim>\<open>http\<close> or \<^verbatim>\<open>tcp\<close>, the host is not empty and has none of
  the delimiters, the port is a port, the base path starts with a slash and has no query or fragment; and
  printing the endpoint and parsing it again gives the same endpoint.
\<close>

theorem endpoint_wellformed:
  assumes "parse_endpoint_url url = Inr ep"
  shows "endpoint_ok ep \<and> parse_endpoint_url (endpoint_text ep) = Inr ep"
  using parse_endpoint_ok [OF assms] parse_endpoint_text by blast

theorem endpoint_wellformed_witness:
  "\<exists>ep. parse_endpoint_url ''TCP://docker-proxy:2375x/v1.40'' = Inr ep \<and> ep_host ep = ''docker-proxy'' \<and> ep_port ep = 2375
     \<and> parse_endpoint_url (endpoint_text ep) = Inr ep"
proof -
  have "case parse_endpoint_url ''TCP://docker-proxy:2375x/v1.40'' of Inl _ \<Rightarrow> False | Inr ep \<Rightarrow> ep_host ep = ''docker-proxy'' \<and> ep_port ep = 2375"
    by code_simp
  then obtain ep where "parse_endpoint_url ''TCP://docker-proxy:2375x/v1.40'' = Inr ep" "ep_host ep = ''docker-proxy''" "ep_port ep = 2375"
    by (auto split: sum.splits)
  then show ?thesis using endpoint_wellformed by blast
qed

section \<open>Query strings: properties\<close>

definition hex_value :: "char \<Rightarrow> nat" where
  "hex_value c = (if isdigit c then uchar c - 48 else uchar c - 55)"

fun unescape :: "string \<Rightarrow> string" where
  "unescape (c # a # b # s) =
     (if c = CHR ''%'' then char_of (16 * hex_value a + hex_value b) # unescape s else c # unescape (a # b # s))"
| "unescape s = s"

text \<open>How a server reads a query: parameters are separated by \<open>&\<close>, the value follows the first \<open>=\<close>.\<close>

fun split_all :: "char \<Rightarrow> string \<Rightarrow> string list" where
  "split_all d [] = [[]]"
| "split_all d (c # cs) = (if c = d then [] # split_all d cs else case split_all d cs of w # ws \<Rightarrow> (c # w) # ws | [] \<Rightarrow> [[c]])"

definition read_param :: "string \<Rightarrow> string \<times> string" where
  "read_param p = (takeWhile (\<lambda>c. c \<noteq> CHR ''='') p, unescape (tl (dropWhile (\<lambda>c. c \<noteq> CHR ''='') p)))"

definition read_query :: "string \<Rightarrow> (string \<times> string) list" where
  "read_query q = (if q = [] then [] else map read_param (split_all (CHR ''&'') q))"

lemma unescape_plain: "c \<noteq> CHR ''%'' \<Longrightarrow> unescape (c # s) = c # unescape s"
  by (cases s rule: unescape.cases) auto

lemma char_codes: "char_of (32 :: nat) = CHR '' ''" "char_of (38 :: nat) = CHR ''&''" "char_of (61 :: nat) = CHR ''=''"
  "char_of (63 :: nat) = CHR ''?''" "char_of (35 :: nat) = CHR ''#''"
  by code_simp+

lemma escape_table:
  "list_all (\<lambda>c. char_of (16 * hex_value (hex_digit (uchar c div 16 mod 16)) + hex_value (hex_digit (uchar c mod 16))) = c
     \<and> hex_digit (uchar c div 16 mod 16) \<notin> set ''&='' \<and> hex_digit (uchar c mod 16) \<notin> set ''&='') '' &=?#''"
  by (simp add: hex_digit_def hex_value_def isdigit_def char_codes)

lemma escaped_hex:
  assumes "escaped c"
  shows "char_of (16 * hex_value (hex_digit (uchar c div 16 mod 16)) + hex_value (hex_digit (uchar c mod 16))) = c"
    and "hex_digit (uchar c div 16 mod 16) \<notin> set ''&=''" and "hex_digit (uchar c mod 16) \<notin> set ''&=''"
proof -
  have "c \<in> set '' &=?#''" using assms by (auto simp: escaped_def)
  then show "char_of (16 * hex_value (hex_digit (uchar c div 16 mod 16)) + hex_value (hex_digit (uchar c mod 16))) = c"
    "hex_digit (uchar c div 16 mod 16) \<notin> set ''&=''" "hex_digit (uchar c mod 16) \<notin> set ''&=''"
    using escape_table unfolding list_all_iff by blast+
qed

lemma unescape_escape_value: "CHR ''%'' \<notin> set v \<Longrightarrow> unescape (escape_value v) = v"
proof (induction v)
  case (Cons c v)
  then show ?case by (auto simp: escape_value_def unescape_plain escaped_hex(1))
qed (simp add: escape_value_def)

lemma escape_clean: "CHR ''&'' \<notin> set (escape_value v)"
proof (induction v)
  case (Cons c v)
  then show ?case using escaped_hex(2,3) [of c] by (cases "escaped c") (auto simp: escape_value_def, simp add: escaped_def)
qed (simp add: escape_value_def)

lemma split_all_append: "split_all d (a @ d # b) = split_all d a @ split_all d b"
proof (induction a)
  case (Cons c a)
  have "split_all d a \<noteq> []" by (cases a) (auto split: list.splits)
  then show ?case using Cons by (auto split: list.splits)
qed simp

lemma split_all_single: "d \<notin> set a \<Longrightarrow> split_all d a = [a]"
  by (induction a) auto

definition param_ok :: "string \<times> string \<Rightarrow> bool" where
  "param_ok kv \<longleftrightarrow> CHR ''&'' \<notin> set (fst kv) \<and> CHR ''='' \<notin> set (fst kv) \<and> CHR ''%'' \<notin> set (snd kv)"

lemma read_param_text: "param_ok (k, v) \<Longrightarrow> read_param (k @ ''='' @ escape_value v) = (k, v)"
  by (simp add: read_param_def param_ok_def unescape_escape_value takeWhile_append dropWhile_append)

lemma read_query_step:
  assumes "param_ok kv"
  shows "read_query (query_step out kv) = read_query out @ (if snd kv = [] then [] else [kv])"
proof (cases kv)
  case (Pair k v)
  show ?thesis
  proof (cases "v = []")
    case False
    let ?p = "k @ ''='' @ escape_value v"
    have p: "CHR ''&'' \<notin> set ?p" using assms Pair escape_clean [of v] by (auto simp: param_ok_def)
    have "read_param ?p = (k, v)" using assms Pair read_param_text by simp
    then show ?thesis
      using False Pair split_all_single [OF p] split_all_append [of "CHR ''&''" out ?p]
      by (simp add: query_step_def read_query_def)
  qed (simp add: Pair query_step_def)
qed

text \<open>
  A query string decodes to its parameters: read the usual way, what \<^verbatim>\<open>build_query\<close> prints gives back the
  parameters with a value, in order, as long as no value has a percent sign (which is not escaped) and no
  name has a separator.
\<close>

theorem query_roundtrip:
  assumes "\<forall>kv \<in> set qs. param_ok kv"
  shows "read_query (build_query qs) = filter (\<lambda>kv. snd kv \<noteq> []) qs"
proof -
  have "read_query (foldl query_step out qs) = read_query out @ filter (\<lambda>kv. snd kv \<noteq> []) qs" for out
    using assms
  proof (induction qs arbitrary: out)
    case (Cons kv qs)
    then show ?case by (simp add: read_query_step)
  qed simp
  from this [of "[]"] show ?thesis by (simp add: build_query_def read_query_def)
qed

theorem query_roundtrip_witness:
  "read_query (build_query [(''force'', ''true''), (''v'', []), (''name'', ''a b&c=d'')]) = [(''force'', ''true''), (''name'', ''a b&c=d'')]"
  using query_roundtrip [of "[(''force'', ''true''), (''v'', []), (''name'', ''a b&c=d'')]"] by (simp add: param_ok_def)

section \<open>Calls: properties\<close>

lemma do_request_reply:
  assumes "do_request dk ep method path body expect_json timeout_ms = (r, rqs)"
  shows "length rqs \<le> 1"
    and "r = Inr h \<Longrightarrow> \<exists>rq. rqs = [rq] \<and> wr_method rq = method \<and> wr_path rq = endpoint_join ep path
           \<and> dk_http dk rq = Reply (hr_status h) (hr_raw h) \<and> 200 \<le> hr_status h \<and> hr_status h < 300"
proof -
  show "length rqs \<le> 1"
    using assms by (auto simp: do_request_def Let_def split: option.splits outcome.splits if_splits)
  assume "r = Inr h"
  then show "\<exists>rq. rqs = [rq] \<and> wr_method rq = method \<and> wr_path rq = endpoint_join ep path
           \<and> dk_http dk rq = Reply (hr_status h) (hr_raw h) \<and> 200 \<le> hr_status h \<and> hr_status h < 300"
    using assms by (auto simp: do_request_def read_reply_def Let_def split: option.splits outcome.splits if_splits wire_reply.splits)
qed

text \<open>The calls that name a container, with their result as success or error.\<close>

datatype container_op = OpStart | OpWait int | OpKill | OpRemove bool bool | OpInspect | OpExec "string list"

fun container_call :: "docker_env \<Rightarrow> Endpoint \<Rightarrow> string \<Rightarrow> container_op \<Rightarrow> unit docker_result" where
  "container_call dk ep cid OpStart = docker_start dk ep cid"
| "container_call dk ep cid (OpWait ms) = then_result (docker_wait dk ep cid ms) (\<lambda>_. Inr ())"
| "container_call dk ep cid OpKill = docker_kill dk ep cid"
| "container_call dk ep cid (OpRemove f v) = docker_remove dk ep cid f v"
| "container_call dk ep cid OpInspect = then_result (docker_inspect dk ep cid) (\<lambda>_. Inr ())"
| "container_call dk ep cid (OpExec cmd) = then_result (docker_create_exec dk ep cid cmd) (\<lambda>_. Inr ())"

text \<open>One request at most, and success only after a reply in the 200s to a request on the given path.\<close>

definition one_exchange :: "docker_env \<Rightarrow> Endpoint \<Rightarrow> string \<Rightarrow> 'a docker_result \<Rightarrow> bool" where
  "one_exchange dk ep pre r \<longleftrightarrow> length (snd r) \<le> 1
     \<and> (\<forall>x. fst r = Inr x \<longrightarrow> (\<exists>rq rest st raw. snd r = [rq] \<and> wr_path rq = endpoint_join ep (pre @ rest)
          \<and> dk_http dk rq = Reply st raw \<and> 200 \<le> st \<and> st < 300))"

lemma one_exchange_request: "one_exchange dk ep pre (do_request dk ep method (pre @ rest) body expect_json timeout_ms)"
proof -
  obtain r rqs where "do_request dk ep method (pre @ rest) body expect_json timeout_ms = (r, rqs)" by fastforce
  then show ?thesis using do_request_reply by (fastforce simp: one_exchange_def)
qed

lemma one_exchange_then: "one_exchange dk ep pre r \<Longrightarrow> one_exchange dk ep pre (then_result r f)"
  by (auto simp: one_exchange_def then_result_def split: sum.splits prod.splits)

lemma one_exchange_none: "one_exchange dk ep pre (Inl e, [])"
  by (simp add: one_exchange_def)

lemma with_query_prefix: "\<exists>rest. with_query (pre @ x) qs = pre @ rest"
  by (auto simp: with_query_def Let_def)

lemma one_exchange_query: "one_exchange dk ep pre (do_request dk ep method (with_query (pre @ x) qs) body expect_json timeout_ms)"
  using with_query_prefix [of pre x qs] one_exchange_request by metis

text \<open>
  Every call on a container sends at most one request, none if the container id is empty, and returns
  normally only after the engine has answered a request on that container's path with a status in the
  200s.
\<close>

theorem container_calls_checked:
  assumes "container_call dk ep cid call = (r, rqs)"
  shows "length rqs \<le> 1 \<and> (cid = [] \<longrightarrow> rqs = [] \<and> r \<noteq> Inr ())
    \<and> (r = Inr () \<longrightarrow> (\<exists>rq rest st raw. rqs = [rq] \<and> wr_path rq = endpoint_join ep (containers_path cid @ rest)
         \<and> dk_http dk rq = Reply st raw \<and> 200 \<le> st \<and> st < 300))"
proof -
  let ?pre = "containers_path cid"
  note ex = one_exchange_then one_exchange_none one_exchange_request one_exchange_query
    one_exchange_query [of dk ep ?pre _ "[]", simplified]
  have "one_exchange dk ep ?pre (container_call dk ep cid call)"
    by (cases call) (simp_all add: docker_start_def docker_wait_def docker_kill_def docker_remove_def docker_inspect_def
        docker_create_exec_def Let_def ex)
  moreover have "cid = [] \<longrightarrow> rqs = [] \<and> r \<noteq> Inr ()"
    using assms by (cases call) (auto simp: docker_start_def docker_wait_def docker_kill_def docker_remove_def docker_inspect_def
        docker_create_exec_def then_result_def)
  ultimately show ?thesis using assms by (simp add: one_exchange_def)
qed

definition demo_docker :: docker_env where
  "demo_docker = \<lparr>dk_http = (\<lambda>rq. if wr_method rq = ''POST'' then Reply 204 [] else Reply 404 ''gone''),
     dk_parse = (\<lambda>_. Throws ''no json''), dk_dump = (\<lambda>_. Returns ''{}'')\<rparr>"

theorem container_calls_checked_witness:
  "\<exists>rq st raw. snd (container_call demo_docker default_endpoint ''c1'' OpStart) = [rq] \<and> dk_http demo_docker rq = Reply st raw \<and> 200 \<le> st \<and> st < 300"
proof -
  have "fst (container_call demo_docker default_endpoint ''c1'' OpStart) = Inr ()" by code_simp
  then have c: "container_call demo_docker default_endpoint ''c1'' OpStart = (Inr (), snd (container_call demo_docker default_endpoint ''c1'' OpStart))"
    by (metis prod.collapse)
  show ?thesis using container_calls_checked [OF c] by blast
qed

section \<open>From the log to the verdict\<close>

text \<open>
  C7. The judge's verdict is read whatever frames its output arrives in: if the engine answers the log request
  with frames of the two streams, and the text written to standard output is one line that is a JSON object,
  or ends with such a line, the result is that object's, however the text is cut into frames, whatever lines
  come before it and whatever standard error is interleaved with it.
\<close>

theorem framed_verdict:
  assumes "cid \<noteq> []" and "\<And>rq. dk_http dk rq = Reply 200 (concat (map log_frame fs))"
    and "\<forall>f \<in> set fs. frame_ok f \<and> (fst f = 1 \<or> fst f = 2)"
    and "concat (map snd (filter (\<lambda>f. fst f = 1) fs)) = earlier @ line @ tail"
    and "earlier = [] \<or> last earlier = CHR 0x0A"
    and "CHR 0x0A \<notin> set line" and "CHR 0x0D \<notin> set line" and "looks_like_object line"
    and "parse line = Returns (JObj ms)" and "tail = [] \<or> tail = [CHR 0x0A]"
  shows "\<exists>logs. fst (docker_logs dk ep cid True False 16384) = Some logs
    \<and> parse_judge_result_json parse logs code = result_of_json (JObj ms)"
proof -
  have "filter (\<lambda>f. keep_stream True False (fst f)) fs = filter (\<lambda>f. fst f = 1) fs"
    using assms(3) by (intro filter_cong) (auto simp: keep_stream_def)
  moreover have "kept True False fs = concat (map snd (filter (\<lambda>f. keep_stream True False (fst f)) fs))" by (simp add: kept_def)
  ultimately have "strip_docker_log_frames (concat (map log_frame fs)) True False = Some (earlier @ line @ tail)"
    using strip_framed [of fs True False] assms(3,4) by simp
  then have "fst (docker_logs dk ep cid True False 16384) = Some (earlier @ line @ tail)"
    using assms(1,2) by (simp add: docker_logs_def do_request_def read_reply_def Let_def)
  moreover have "parse_judge_result_json parse (earlier @ line @ tail) code = result_of_json (JObj ms)"
    using assms(6-10,5) by (rule last_line_parsed)
  ultimately show ?thesis by blast
qed

theorem framed_verdict_witness:
  "(\<exists>logs. fst (docker_logs (demo_docker\<lparr>dk_http := \<lambda>_. Reply 200 (concat (map log_frame [(1, ''{''), (2, ''e''), (1, ''1}'' @ [CHR 0x0A])]))\<rparr>)
       default_endpoint ''c1'' True False 16384) = Some logs
     \<and> jr_status (parse_judge_result_json (\<lambda>_. Returns (JObj [(''status'', JStr ''wa'')])) logs 0) = ''wa'')
   \<and> (\<exists>logs. fst (docker_logs (demo_docker\<lparr>dk_http := \<lambda>_. Reply 200 (concat (map log_frame [(1, ''x'' @ [CHR 0x0A] @ ''{''), (2, ''e''), (1, ''1}'')]))\<rparr>)
       default_endpoint ''c1'' True False 16384) = Some logs
     \<and> jr_status (parse_judge_result_json (\<lambda>_. Returns (JObj [(''status'', JStr ''wa'')])) logs 0) = ''wa'')"
proof -
  let ?one = "[(1, ''{''), (2, ''e''), (1, ''1}'' @ [CHR 0x0A])]"
  let ?two = "[(1, ''x'' @ [CHR 0x0A] @ ''{''), (2, ''e''), (1, ''1}'')]"
  have l: "CHR 0x0A \<notin> set ''{1}''" "CHR 0x0D \<notin> set ''{1}''" "looks_like_object ''{1}''" by code_simp+
  have "\<exists>logs. fst (docker_logs (demo_docker\<lparr>dk_http := \<lambda>_. Reply 200 (concat (map log_frame ?one))\<rparr>) default_endpoint ''c1'' True False 16384) = Some logs
     \<and> parse_judge_result_json (\<lambda>_. Returns (JObj [(''status'', JStr ''wa'')])) logs 0 = result_of_json (JObj [(''status'', JStr ''wa'')])"
    by (rule framed_verdict [OF _ _ _ _ _ l, where fs = ?one and earlier = "[]" and tail = "[CHR 0x0A]"]) (simp_all add: frame_ok_def)
  moreover have "\<exists>logs. fst (docker_logs (demo_docker\<lparr>dk_http := \<lambda>_. Reply 200 (concat (map log_frame ?two))\<rparr>) default_endpoint ''c1'' True False 16384) = Some logs
     \<and> parse_judge_result_json (\<lambda>_. Returns (JObj [(''status'', JStr ''wa'')])) logs 0 = result_of_json (JObj [(''status'', JStr ''wa'')])"
    by (rule framed_verdict [OF _ _ _ _ _ l, where fs = ?two and earlier = "''x'' @ [CHR 0x0A]" and tail = "[]"]) (simp_all add: frame_ok_def)
  moreover have "jr_status (result_of_json (JObj [(''status'', JStr ''wa'')])) = ''wa''" by code_simp
  ultimately show ?thesis by metis
qed

end
