(* ===== verification/Connection_Pool.thy ===== *)
theory Connection_Pool
  imports Prelude
begin

text \<open>
  \<^verbatim>\<open>src/db/connection_pool.h\<close>: the pool of database sessions and \<^verbatim>\<open>PooledConnection\<close>, the move-only handle that
  gives its session back when it is destroyed.

  \<^verbatim>\<open>mysqlx::Client\<close> is outside: what \<^verbatim>\<open>getSession()\<close> answers is an argument of \<open>acquire\<close>, and all that is assumed of
  it is that it does not hand out a session that a live handle still has. Handles are objects at addresses, so
  that moving, assigning and destroying them are steps of one state machine (\<open>pool_step\<close>).

  Main result: the machine implements a set of leased sessions. Every step leases a new session, gives one
  back or changes nothing, moves never lose or duplicate a session, and the counter \<^verbatim>\<open>active\<close> is at all times the
  number of leased sessions.
\<close>

section \<open>Configuration\<close>

record DatabaseConfig =
  db_host :: string
  db_port :: int
  db_user :: string
  db_password :: string
  db_database :: string
  db_socket_path :: string
  db_pool_min_size :: int
  db_pool_max_size :: int
  db_connection_timeout_seconds :: int

record PoolConfig =
  pl_host :: string
  pl_port :: int
  pl_user :: string
  pl_password :: string
  pl_database :: string
  pl_socket_path :: string
  pl_min_size :: int
  pl_max_size :: int
  pl_acquire_timeout_ms :: int
  pl_max_idle_time_ms :: int
  pl_connect_timeout_ms :: int

definition from_database_config :: "DatabaseConfig \<Rightarrow> PoolConfig" where
  "from_database_config db =
     \<lparr>pl_host = db_host db, pl_port = db_port db, pl_user = db_user db, pl_password = db_password db,
      pl_database = db_database db, pl_socket_path = db_socket_path db, pl_min_size = db_pool_min_size db,
      pl_max_size = db_pool_max_size db, pl_acquire_timeout_ms = 5000, pl_max_idle_time_ms = 60000,
      pl_connect_timeout_ms = int_mul (db_connection_timeout_seconds db) 1000\<rparr>"

datatype pool_error = ConnectionPoolError string | ConnectionAcquireTimeout string

definition validate_pool :: "PoolConfig \<Rightarrow> pool_error + unit" where
  "validate_pool cfg =
     (let err = (\<lambda>m. Inl (ConnectionPoolError m)) in
      if pl_host cfg = [] \<and> pl_socket_path cfg = [] then err ''pool: host or socket_path must be set''
      else if pl_user cfg = [] then err ''pool: user must be set''
      else if pl_database cfg = [] then err ''pool: database must be set''
      else if pl_min_size cfg < 0 then err ''pool: min_size must be >= 0''
      else if pl_max_size cfg < 1 then err ''pool: max_size must be >= 1''
      else if pl_min_size cfg > pl_max_size cfg then err ''pool: min_size must be <= max_size''
      else if pl_acquire_timeout_ms cfg < 0 then err ''pool: acquire_timeout_ms must be >= 0''
      else if pl_connect_timeout_ms cfg < 0 then err ''pool: connect_timeout_ms must be >= 0''
      else Inr ())"

text \<open>The options given to \<^verbatim>\<open>mysqlx::Client\<close>, in order.\<close>

datatype client_option = OptFlag string bool | OptInt string int | OptStr string string

definition client_options :: "PoolConfig \<Rightarrow> client_option list" where
  "client_options cfg =
     [OptFlag ''POOLING'' True, OptInt ''POOL_MAX_SIZE'' (pl_max_size cfg),
      OptInt ''POOL_QUEUE_TIMEOUT'' (pl_acquire_timeout_ms cfg), OptInt ''POOL_MAX_IDLE_TIME'' (pl_max_idle_time_ms cfg)]
     @ (if pl_socket_path cfg \<noteq> [] then [OptStr ''SOCKET'' (pl_socket_path cfg)]
        else [OptStr ''HOST'' (pl_host cfg), OptInt ''PORT'' (pl_port cfg)])
     @ [OptStr ''USER'' (pl_user cfg), OptStr ''PWD'' (pl_password cfg), OptStr ''DB'' (pl_database cfg),
        OptInt ''CONNECT_TIMEOUT'' (pl_connect_timeout_ms cfg)]"

section \<open>Pool and handles\<close>

record PoolStats =
  st_total_acquired :: int
  st_acquire_timeouts :: int
  st_active :: int

record pool =
  cp_cfg :: PoolConfig
  cp_stats :: PoolStats

text \<open>\<open>mk\<close> is what the constructor of \<^verbatim>\<open>mysqlx::Client\<close> does with the options.\<close>

definition new_pool :: "(client_option list \<Rightarrow> unit outcome) \<Rightarrow> PoolConfig \<Rightarrow> pool_error + pool" where
  "new_pool mk cfg =
     (case validate_pool cfg of
        Inl e \<Rightarrow> Inl e
      | Inr _ \<Rightarrow>
          (case mk (client_options cfg) of
             Throws x \<Rightarrow> Inl (ConnectionPoolError (''pool: failed to construct client: '' @ x))
           | Returns _ \<Rightarrow> Inr \<lparr>cp_cfg = cfg, cp_stats = \<lparr>st_total_acquired = 0, st_acquire_timeouts = 0, st_active = 0\<rparr>\<rparr>))"

definition on_acquire :: "PoolStats \<Rightarrow> PoolStats" where
  "on_acquire st = st\<lparr>st_total_acquired := st_total_acquired st + 1, st_active := st_active st + 1\<rparr>"

definition on_release :: "PoolStats \<Rightarrow> PoolStats" where
  "on_release st = (if st_active st > 0 then st\<lparr>st_active := st_active st - 1\<rparr> else st)"

definition on_acquire_timeout :: "PoolStats \<Rightarrow> PoolStats" where
  "on_acquire_timeout st = st\<lparr>st_acquire_timeouts := st_acquire_timeouts st + 1\<rparr>"

text \<open>A moved-from \<^verbatim>\<open>std::optional<Session>\<close> still holds a value, a session that was moved from.\<close>

datatype 's slot = Live 's | MovedFrom

record 's conn =
  pc_pool :: bool
  pc_session :: "'s slot option"
  pc_valid :: bool

definition conn_default :: "'s conn" where
  "conn_default = \<lparr>pc_pool = False, pc_session = None, pc_valid = False\<rparr>"

definition conn_new :: "'s \<Rightarrow> 's conn" where
  "conn_new s = \<lparr>pc_pool = True, pc_session = Some (Live s), pc_valid = True\<rparr>"

definition pool_acquire :: "'s outcome \<Rightarrow> pool \<Rightarrow> (pool_error + 's conn) \<times> pool" where
  "pool_acquire session p =
     (case session of
        Returns s \<Rightarrow> (Inr (conn_new s), p\<lparr>cp_stats := on_acquire (cp_stats p)\<rparr>)
      | Throws what \<Rightarrow>
          if contains_str ''timeout'' what \<or> contains_str ''Timeout'' what \<or> contains_str ''timed out'' what then
            (Inl (ConnectionAcquireTimeout (''pool: acquire timed out after '' @ to_string (pl_acquire_timeout_ms (cp_cfg p)) @ ''ms'')),
             p\<lparr>cp_stats := on_acquire_timeout (cp_stats p)\<rparr>)
          else (Inl (ConnectionPoolError (''pool: acquire failed: '' @ what)), p))"

text \<open>The timeout argument is not used.\<close>

definition try_acquire_for :: "int \<Rightarrow> 's outcome \<Rightarrow> pool \<Rightarrow> (pool_error + 's conn option) \<times> pool" where
  "try_acquire_for timeout session p =
     (case pool_acquire session p of
        (Inr c, p) \<Rightarrow> (Inr (Some c), p)
      | (Inl (ConnectionAcquireTimeout _), p) \<Rightarrow> (Inr None, p)
      | (Inl e, p) \<Rightarrow> (Inl e, p))"

definition pool_ping :: "bool \<Rightarrow> 's outcome \<Rightarrow> unit outcome \<Rightarrow> bool" where
  "pool_ping has_client session select1 =
     (has_client \<and> (case session of Throws _ \<Rightarrow> False | Returns _ \<Rightarrow> (case select1 of Throws _ \<Rightarrow> False | Returns _ \<Rightarrow> True)))"

definition slot_moved :: "'s slot option \<Rightarrow> 's slot option" where
  "slot_moved x = (case x of None \<Rightarrow> None | Some _ \<Rightarrow> Some MovedFrom)"

text \<open>Move construction: the new handle and what is left of the old one.\<close>

definition conn_move :: "'s conn \<Rightarrow> 's conn \<times> 's conn" where
  "conn_move other = (other, other\<lparr>pc_pool := False, pc_session := slot_moved (pc_session other), pc_valid := False\<rparr>)"

text \<open>Destruction, and the release at the start of a move assignment.\<close>

definition conn_release :: "'s conn \<Rightarrow> pool \<Rightarrow> pool" where
  "conn_release c p = (if pc_pool c \<and> pc_valid c then p\<lparr>cp_stats := on_release (cp_stats p)\<rparr> else p)"

text \<open>Move assignment of two different objects; assigning an object to itself does nothing.\<close>

definition conn_assign :: "'s conn \<Rightarrow> 's conn \<Rightarrow> pool \<Rightarrow> 's conn \<times> 's conn \<times> pool" where
  "conn_assign dst src p =
     (let p = conn_release dst p
      in (dst\<lparr>pc_session := pc_session src, pc_pool := pc_pool src, pc_valid := pc_valid src\<rparr>,
          src\<lparr>pc_session := slot_moved (pc_session src), pc_pool := False, pc_valid := False\<rparr>, p))"

section \<open>The machine\<close>

record 's pool_world =
  pw_pool :: pool
  pw_conns :: "nat \<rightharpoonup> 's conn"

text \<open>The session a handle holds, and the sessions that are leased.\<close>

definition held_by :: "'s conn \<Rightarrow> 's option" where
  "held_by c = (if pc_valid c then (case pc_session c of Some (Live s) \<Rightarrow> Some s | _ \<Rightarrow> None) else None)"

definition held :: "'s pool_world \<Rightarrow> nat \<rightharpoonup> 's" where
  "held w i = Option.bind (pw_conns w i) held_by"

definition leases :: "'s pool_world \<Rightarrow> 's set" where
  "leases w = ran (held w)"

inductive pool_step :: "'s pool_world \<Rightarrow> 's pool_world \<Rightarrow> bool" where
  acquires: "pool_step w (w\<lparr>pw_pool := p', pw_conns := (pw_conns w)(i \<mapsto> c)\<rparr>)"
    if "pool_acquire (Returns s) (pw_pool w) = (Inr c, p')" "s \<notin> leases w" "pw_conns w i = None"
| fails: "pool_step w (w\<lparr>pw_pool := p'\<rparr>)" if "pool_acquire (Throws x :: 's outcome) (pw_pool w) = (Inl e, p')"
| declares: "pool_step w (w\<lparr>pw_conns := (pw_conns w)(i \<mapsto> conn_default)\<rparr>)" if "pw_conns w i = None"
| moves: "pool_step w (w\<lparr>pw_conns := (pw_conns w)(i \<mapsto> c', j \<mapsto> c)\<rparr>)"
    if "pw_conns w i = Some c0" "pw_conns w j = None" "conn_move c0 = (c, c')"
| assigns: "pool_step w (w\<lparr>pw_pool := p', pw_conns := (pw_conns w)(i \<mapsto> d', j \<mapsto> s')\<rparr>)"
    if "pw_conns w i = Some d" "pw_conns w j = Some s" "i \<noteq> j" "conn_assign d s (pw_pool w) = (d', s', p')"
| destroys: "pool_step w (w\<lparr>pw_pool := conn_release c (pw_pool w), pw_conns := (pw_conns w)(i := None)\<rparr>)"
    if "pw_conns w i = Some c"

definition pool_inv :: "'s pool_world \<Rightarrow> bool" where
  "pool_inv w \<longleftrightarrow> finite (dom (held w)) \<and> inj_on (held w) (dom (held w))
     \<and> (\<forall>i c. pw_conns w i = Some c \<and> pc_valid c \<longrightarrow> pc_pool c \<and> held_by c \<noteq> None)
     \<and> st_active (cp_stats (pw_pool w)) = int (card (dom (held w)))"

section \<open>What a step does to the sessions\<close>

lemma held_upd [simp]:
  "held (w\<lparr>pw_conns := (pw_conns w)(i \<mapsto> c)\<rparr>) = (held w)(i := held_by c)"
  "held (w\<lparr>pw_conns := (pw_conns w)(i := None)\<rparr>) = (held w)(i := None)"
  "held (w\<lparr>pw_conns := (pw_conns w)(i \<mapsto> c, j \<mapsto> d)\<rparr>) = (held w)(i := held_by c, j := held_by d)"
  "held (w\<lparr>pw_pool := p\<rparr>) = held w"
  "held (w\<lparr>pw_pool := p, pw_conns := m\<rparr>) = held (w\<lparr>pw_conns := m\<rparr>)"
  by (auto simp: held_def fun_eq_iff)

lemma held_by_simps [simp]:
  "held_by conn_default = None" "held_by (conn_new s) = Some s" "pc_pool (conn_new s)" "\<not> pc_valid c \<Longrightarrow> held_by c = None"
  by (simp_all add: held_by_def conn_default_def conn_new_def)

lemma held_at: "pw_conns w i = Some c \<Longrightarrow> held w i = held_by c" "pw_conns w i = None \<Longrightarrow> held w i = None"
  by (simp_all add: held_def)

text \<open>Moving a session between two places.\<close>

lemma move_entry:
  assumes "m j = None" and "i \<noteq> j"
  shows "dom (m(i := None, j := m i)) = (if m i = None then dom m else insert j (dom m - {i}))"
    and "ran (m(i := None, j := m i)) = ran m"
    and "inj_on m (dom m) \<Longrightarrow> inj_on (m(i := None, j := m i)) (dom (m(i := None, j := m i)))"
    and "finite (dom m) \<Longrightarrow> card (dom (m(i := None, j := m i))) = card (dom m)"
proof -
  show d: "dom (m(i := None, j := m i)) = (if m i = None then dom m else insert j (dom m - {i}))"
    using assms by (auto split: if_splits)
  show "ran (m(i := None, j := m i)) = ran m"
  proof (intro set_eqI iffI)
    fix x
    assume "x \<in> ran m"
    then obtain a where a: "m a = Some x" by (auto simp: ran_def)
    have "(m(i := None, j := m i)) (if a = i then j else a) = Some x" using a assms by auto
    then show "x \<in> ran (m(i := None, j := m i))" by (rule ranI)
  qed (auto simp: ran_def split: if_splits)
  show "inj_on m (dom m) \<Longrightarrow> inj_on (m(i := None, j := m i)) (dom (m(i := None, j := m i)))"
    using assms by (auto simp: inj_on_def dom_def split: if_splits)
  assume f: "finite (dom m)"
  have j: "j \<notin> dom m" using assms(1) by auto
  show "card (dom (m(i := None, j := m i))) = card (dom m)"
  proof (cases "m i = None")
    case False
    then have "i \<in> dom m" by auto
    have "card (insert j (dom m - {i})) = Suc (card (dom m - {i}))" using f j by simp
    also have "\<dots> = card (dom m)" using f \<open>i \<in> dom m\<close> by (rule card_Suc_Diff1)
    finally show ?thesis using False by (simp only: d if_False)
  next
    case True
    then show ?thesis unfolding d by simp
  qed
qed

lemma drop_entry:
  assumes "finite (dom m)" and "inj_on m (dom m)"
  shows "finite (dom (m(i := None)))" "inj_on (m(i := None)) (dom (m(i := None)))"
    "card (dom (m(i := None))) = (if m i = None then card (dom m) else card (dom m) - 1)"
    "ran (m(i := None)) = (case m i of None \<Rightarrow> ran m | Some s \<Rightarrow> ran m - {s})"
proof -
  show "finite (dom (m(i := None)))" using assms(1) by simp
  show "inj_on (m(i := None)) (dom (m(i := None)))" using assms(2) by (auto simp: inj_on_def dom_def split: if_splits)
  show "card (dom (m(i := None))) = (if m i = None then card (dom m) else card (dom m) - 1)"
    using assms(1) by (auto simp: card_Diff_singleton domI domIff)
  show "ran (m(i := None)) = (case m i of None \<Rightarrow> ran m | Some s \<Rightarrow> ran m - {s})"
  proof (cases "m i")
    case None
    then have "m(i := None) = m" by auto
    then show ?thesis using None by simp
  next
    case (Some s)
    have u: "a = i" if "m a = Some s" for a using assms(2) that Some by (auto simp: inj_on_def dom_def)
    have r: "x \<in> ran (m(i := None)) \<longleftrightarrow> (\<exists>a. a \<noteq> i \<and> m a = Some x)" for x by (auto simp: ran_def)
    have "(\<exists>a. a \<noteq> i \<and> m a = Some x) \<longleftrightarrow> (\<exists>a. m a = Some x) \<and> x \<noteq> s" for x
      using Some u by (metis option.inject)
    then have "x \<in> ran (m(i := None)) \<longleftrightarrow> x \<in> ran m \<and> x \<noteq> s" for x unfolding r by (simp add: ran_def)
    then show ?thesis by (simp add: Some set_eq_iff)
  qed
qed

lemma lease_entry:
  assumes "m i = None" and "s \<notin> ran m" and "inj_on m (dom m)"
  shows "inj_on (m(i \<mapsto> s)) (dom (m(i \<mapsto> s)))" "ran (m(i \<mapsto> s)) = insert s (ran m)"
proof -
  have "m a \<noteq> Some s" for a using assms(2) by (auto simp: ran_def)
  then show "inj_on (m(i \<mapsto> s)) (dom (m(i \<mapsto> s)))" using assms(3) by (auto simp: inj_on_def dom_def)
  show "ran (m(i \<mapsto> s)) = insert s (ran m)" using assms(1) by (rule ran_map_upd)
qed

lemma pool_invI:
  assumes "finite (dom (held w))" and "inj_on (held w) (dom (held w))"
    and "\<And>i c. pw_conns w i = Some c \<Longrightarrow> pc_valid c \<Longrightarrow> pc_pool c \<and> held_by c \<noteq> None"
    and "st_active (cp_stats (pw_pool w)) = int (card (dom (held w)))"
  shows "pool_inv w"
  using assms unfolding pool_inv_def by blast

lemma pool_inv_handle: "pool_inv w \<Longrightarrow> pw_conns w i = Some c \<Longrightarrow> pc_valid c \<Longrightarrow> pc_pool c \<and> held_by c \<noteq> None"
  unfolding pool_inv_def by blast

lemma conn_moved:
  "held_by (fst (conn_move c)) = held_by c" "held_by (snd (conn_move c)) = None"
  "conn_assign d s p = (d', s', p') \<Longrightarrow> held_by d' = held_by s \<and> held_by s' = None \<and> p' = conn_release d p
     \<and> pc_valid d' = pc_valid s \<and> pc_pool d' = pc_pool s \<and> \<not> pc_valid s'"
  by (auto simp: conn_move_def conn_assign_def held_by_def Let_def)

lemma release_active:
  assumes "pool_inv w" and "pw_conns w i = Some c"
  shows "st_active (cp_stats (conn_release c (pw_pool w))) = int (card (dom ((held w)(i := None))))"
proof -
  have c: "pc_valid c \<Longrightarrow> pc_pool c \<and> held_by c \<noteq> None" using assms by (auto simp: pool_inv_def)
  have h: "held w i = held_by c" using assms(2) by (rule held_at)
  have e: "card (dom ((held w)(i := None))) = (if held w i = None then card (dom (held w)) else card (dom (held w)) - 1)"
    using assms(1) by (intro drop_entry) (simp_all add: pool_inv_def)
  show ?thesis
  proof (cases "pc_valid c")
    case True
    then have "i \<in> dom (held w)" using c h by auto
    then have "0 < card (dom (held w))" using assms(1) by (auto simp: pool_inv_def card_gt_0_iff)
    then show ?thesis
      using True c h e assms(1) by (auto simp: conn_release_def on_release_def pool_inv_def)
  next
    case False
    then show ?thesis using h e assms(1) by (simp add: conn_release_def pool_inv_def)
  qed
qed

text \<open>One step of the machine and of the abstract set of leased sessions.\<close>

definition lease_step :: "'s set \<Rightarrow> 's set \<Rightarrow> bool" where
  "lease_step L L' \<longleftrightarrow> L' = L \<or> (\<exists>s. s \<notin> L \<and> L' = insert s L) \<or> (\<exists>s \<in> L. L' = L - {s})"

lemma lease_step_refl [simp]: "lease_step L L"
  by (simp add: lease_step_def)

lemma drop_lease:
  assumes "finite (dom m)" and "inj_on m (dom m)"
  shows "lease_step (ran m) (ran (m(i := None)))"
  using drop_entry(4) [OF assms, of i] by (cases "m i") (auto simp: lease_step_def dest: ranI)

lemma pool_step_refines:
  assumes "pool_step w w'" and "pool_inv w"
  shows "pool_inv w' \<and> lease_step (leases w) (leases w')"
  using assms
proof (cases rule: pool_step.cases)
  case (acquires s c p' i)
  have h: "held w i = None" using acquires(4) by (rule held_at)
  have c: "c = conn_new s" "p' = (pw_pool w)\<lparr>cp_stats := on_acquire (cp_stats (pw_pool w))\<rparr>"
    using acquires(2) by (auto simp: pool_acquire_def)
  have new: "inj_on ((held w)(i \<mapsto> s)) (dom ((held w)(i \<mapsto> s)))" "ran ((held w)(i \<mapsto> s)) = insert s (ran (held w))"
    using lease_entry [of "held w" i s, OF h] assms(2) acquires(3) by (simp_all add: pool_inv_def leases_def)
  have hw: "held w' = (held w)(i \<mapsto> s)" by (simp add: acquires(1) c(1))
  have "card (dom (held w')) = Suc (card (dom (held w)))" using assms(2) h by (simp add: hw pool_inv_def domIff)
  then have "st_active (cp_stats (pw_pool w')) = int (card (dom (held w')))"
    using assms(2) by (simp add: acquires(1) c(2) on_acquire_def pool_inv_def)
  moreover have "pc_pool d \<and> held_by d \<noteq> None" if "pw_conns w' k = Some d" "pc_valid d" for k d
    using assms(2) that by (auto simp: acquires(1) c(1) pool_inv_def split: if_splits)
  moreover have "finite (dom (held w'))" using assms(2) by (simp add: hw pool_inv_def)
  ultimately have "pool_inv w'" using new(1) unfolding pool_inv_def hw by blast
  moreover have "lease_step (leases w) (leases w')" using new(2) acquires(3) hw by (auto simp: lease_step_def leases_def)
  ultimately show ?thesis by simp
next
  case (fails x e p')
  then have "held w' = held w" "pw_conns w' = pw_conns w" "st_active (cp_stats (pw_pool w')) = st_active (cp_stats (pw_pool w))"
    by (auto simp: pool_acquire_def on_acquire_timeout_def split: if_splits)
  then show ?thesis using assms(2) unfolding pool_inv_def leases_def by (metis lease_step_refl)
next
  case (declares i)
  then have "held w' = held w" using held_at(2) [of w i] by auto
  then show ?thesis using assms(2) declares by (auto simp: pool_inv_def leases_def conn_default_def)
next
  case (moves i c0 j c c')
  have c: "held_by c = held w i" "held_by c' = None" "c = c0" "\<not> pc_valid c'"
    using moves(4) conn_moved(1,2) [of c0] held_at(1) [OF moves(2)] by (auto simp: conn_move_def)
  have ij: "i \<noteq> j" using moves(2,3) by auto
  have hw: "held w' = (held w)(i := None, j := held w i)" by (simp add: moves(1) c(1,2))
  note m = move_entry [of "held w" j i, OF held_at(2) [OF moves(3)] ij, folded hw]
  have "finite (dom (held w'))" using assms(2) m(1) by (simp add: pool_inv_def)
  moreover have "st_active (cp_stats (pw_pool w')) = int (card (dom (held w')))" using assms(2) m(4) by (simp add: moves(1) pool_inv_def)
  moreover have "pc_pool d \<and> held_by d \<noteq> None" if "pw_conns w' k = Some d" "pc_valid d" for k d
    using that pool_inv_handle [OF assms(2)] moves(2) c(3,4) by (auto simp: moves(1) split: if_splits)
  ultimately have "pool_inv w'" using assms(2) m(3) by (intro pool_invI) (auto simp: pool_inv_def)
  then show ?thesis using m(2) by (simp add: leases_def)
next
  case (assigns i d j s d' s' p')
  note c = conn_moved(3) [OF assigns(5)]
  let ?m = "(held w)(i := None)"
  have fi: "finite (dom (held w))" "inj_on (held w) (dom (held w))" using assms(2) by (simp_all add: pool_inv_def)
  note dr = drop_entry(1,2) [OF fi, of i]
  have hj: "held w j = held_by s" using assigns(3) by (rule held_at)
  have hw: "held w' = ?m(j := None, i := ?m j)" using c hj assigns(4) by (auto simp: assigns(1) fun_eq_iff)
  note m = move_entry [of ?m i j, OF _ assigns(4) [symmetric], folded hw]
  have "st_active (cp_stats (pw_pool w')) = int (card (dom (held w')))"
    using release_active [OF assms(2) assigns(2)] m(4) dr(1) c by (simp add: assigns(1))
  moreover have "finite (dom (held w'))" using m(1) dr(1) by simp
  moreover have "inj_on (held w') (dom (held w'))" using m(3) dr(2) by simp
  moreover have "pc_pool x \<and> held_by x \<noteq> None" if "pw_conns w' k = Some x" "pc_valid x" for k x
    using that pool_inv_handle [OF assms(2)] assigns(3) c by (auto simp: assigns(1) split: if_splits)
  ultimately have "pool_inv w'" by (intro pool_invI) auto
  moreover have "lease_step (leases w) (leases w')" using drop_lease [OF fi, of i] m(2) by (simp add: leases_def)
  ultimately show ?thesis by simp
next
  case (destroys i c)
  have fi: "finite (dom (held w))" "inj_on (held w) (dom (held w))" using assms(2) by (simp_all add: pool_inv_def)
  have hw: "held w' = (held w)(i := None)" by (simp add: destroys(1))
  have "pc_pool x \<and> held_by x \<noteq> None" if "pw_conns w' k = Some x" "pc_valid x" for k x
    using that pool_inv_handle [OF assms(2)] by (auto simp: destroys(1) split: if_splits)
  then have "pool_inv w'"
    using drop_entry(1,2) [OF fi, of i] release_active [OF assms(2) destroys(2)] unfolding hw [symmetric]
    by (intro pool_invI) (auto simp: destroys(1))
  then show ?thesis using drop_lease [OF fi, of i] by (simp add: leases_def hw)
qed

section \<open>Properties\<close>

text \<open>
  C10. The pool implements a set of leased sessions, starting with none: in every run of acquisitions, failures,
  moves, assignments and destructions, each step leases one new session, gives one back or leaves the leases
  as they are; the counter \<^verbatim>\<open>active\<close> is the number of leased sessions, and two handles never hold the same one.
\<close>

theorem pool_implements_leases:
  assumes "pool_step\<^sup>*\<^sup>* w0 w" and "pw_conns w0 = Map.empty" and "st_active (cp_stats (pw_pool w0)) = 0"
  shows "lease_step\<^sup>*\<^sup>* {} (leases w) \<and> st_active (cp_stats (pw_pool w)) = int (card (leases w))
    \<and> (\<forall>i j s. held w i = Some s \<and> held w j = Some s \<longrightarrow> i = j)"
proof -
  have e: "held w0 = Map.empty" using assms(2) by (simp add: held_def fun_eq_iff)
  have "pool_inv w \<and> lease_step\<^sup>*\<^sup>* {} (leases w)"
    using assms(1)
  proof induction
    case base
    then show ?case using e assms(2,3) by (simp add: pool_inv_def leases_def)
  next
    case (step y z)
    then show ?case using pool_step_refines rtranclp.rtrancl_into_rtrancl by metis
  qed
  moreover from this have i: "inj_on (held w) (dom (held w))" "finite (dom (held w))" by (simp_all add: pool_inv_def)
  moreover have "card (leases w) = card (dom (held w))"
  proof -
    have "Some ` leases w = held w ` dom (held w)" by (auto simp: leases_def ran_def dom_def image_iff) metis
    then have "card (Some ` leases w) = card (dom (held w))" using i(1) by (simp add: card_image)
    then show ?thesis by (simp add: card_image)
  qed
  moreover have "\<forall>i j s. held w i = Some s \<and> held w j = Some s \<longrightarrow> i = j" using i(1) by (auto simp: inj_on_def dom_def)
  ultimately show ?thesis by (simp add: pool_inv_def)
qed

definition demo_pool_config :: PoolConfig where
  "demo_pool_config = from_database_config \<lparr>db_host = ''127.0.0.1'', db_port = 33060, db_user = ''litecode'', db_password = [],
     db_database = ''litecode'', db_socket_path = [], db_pool_min_size = 4, db_pool_max_size = 16, db_connection_timeout_seconds = 10\<rparr>"

definition demo_pool :: pool where
  "demo_pool = \<lparr>cp_cfg = demo_pool_config, cp_stats = \<lparr>st_total_acquired = 0, st_acquire_timeouts = 0, st_active = 0\<rparr>\<rparr>"

definition demo_world0 :: "string pool_world" where
  "demo_world0 = \<lparr>pw_pool = demo_pool, pw_conns = Map.empty\<rparr>"

theorem pool_implements_leases_witness:
  "\<exists>w. pool_step\<^sup>*\<^sup>* demo_world0 w \<and> held w 2 = Some ''a'' \<and> st_active (cp_stats (pw_pool w)) = int (card (leases w))"
proof -
  let ?p = "demo_pool\<lparr>cp_stats := on_acquire (cp_stats demo_pool)\<rparr>"
  let ?w1 = "demo_world0\<lparr>pw_pool := ?p, pw_conns := (pw_conns demo_world0)(1 \<mapsto> conn_new ''a'')\<rparr>"
  let ?w2 = "?w1\<lparr>pw_conns := (pw_conns ?w1)(1 \<mapsto> snd (conn_move (conn_new ''a'')), 2 \<mapsto> fst (conn_move (conn_new ''a'')))\<rparr>"
  have "pool_step demo_world0 ?w1"
    by (rule acquires [of "''a''"]) (simp_all add: pool_acquire_def demo_world0_def leases_def held_def ran_def)
  moreover have "pool_step ?w1 ?w2"
    by (rule moves [of _ _ "conn_new ''a''"]) (simp_all add: demo_world0_def)
  ultimately have s: "pool_step\<^sup>*\<^sup>* demo_world0 ?w2" by (meson rtranclp.rtrancl_refl rtranclp.rtrancl_into_rtrancl)
  have h: "held ?w2 2 = Some ''a''" by (simp add: held_def conn_moved)
  have "st_active (cp_stats (pw_pool ?w2)) = int (card (leases ?w2))"
    using pool_implements_leases [OF s] by (simp add: demo_world0_def demo_pool_def)
  then show ?thesis using s h by blast
qed

lemma validate_pool_exact:
  "validate_pool cfg = Inr () \<longleftrightarrow> (pl_host cfg \<noteq> [] \<or> pl_socket_path cfg \<noteq> []) \<and> pl_user cfg \<noteq> [] \<and> pl_database cfg \<noteq> []
     \<and> 0 \<le> pl_min_size cfg \<and> 1 \<le> pl_max_size cfg \<and> pl_min_size cfg \<le> pl_max_size cfg
     \<and> 0 \<le> pl_acquire_timeout_ms cfg \<and> 0 \<le> pl_connect_timeout_ms cfg"
  by (auto simp: validate_pool_def Let_def)

end
