(* ===== verification/Metrics.thy ===== *)
theory Metrics
  imports Double "HOL-Library.List_Lexorder" "HOL-Library.Char_ord"
begin

text \<open>
  \<^verbatim>\<open>src/routes/metrics.h\<close>: the registry of counters, gauges and histograms and the text it is scraped as.

  A \<^verbatim>\<open>std::map\<close> from strings is an association list sorted by the bytes of the keys (\<open>om_put\<close>). Doubles are
  those of theory \<open>Double\<close>; the values that occur are finite. The provider of a gauge is outside, \<open>gauge name\<close> is what
  it returns or throws when the text is rendered. Log lines are left out.

  Main results: the buckets of a histogram count exactly the observations up to their bound, are monotone, and
  end below the total; a counter is the number of its increments; a metric that was not registered is
  ignored; the rendered text has the lines of every family, buckets in ascending order.
\<close>

section \<open>Ordered maps\<close>

type_synonym 'v omap = "(string \<times> 'v) list"

fun om_put :: "string \<Rightarrow> 'v \<Rightarrow> 'v omap \<Rightarrow> 'v omap" where
  "om_put k v [] = [(k, v)]"
| "om_put k v (e # es) =
     (if fst e = k then (k, v) # es else if k < fst e then (k, v) # e # es else e # om_put k v es)"

definition om_ok :: "'v omap \<Rightarrow> bool" where
  "om_ok m \<longleftrightarrow> sorted_wrt (<) (map fst m)"

lemma om_put_keys: "fst ` set (om_put k v m) = insert k (fst ` set m)"
  by (induction m) auto

lemma om_put_entries: "x \<in> set (om_put k v m) \<Longrightarrow> fst x = k \<or> (\<exists>y \<in> set m. fst x = fst y)"
  using om_put_keys [of k v m] by force

lemma om_put_ok: "om_ok m \<Longrightarrow> om_ok (om_put k v m)"
proof (induction m)
  case (Cons e m)
  then have m: "om_ok m" "\<forall>y \<in> set m. fst e < fst y" by (simp_all add: om_ok_def)
  consider "fst e = k" | "k < fst e" | "fst e < k" by force
  then show ?case
  proof cases
    case 2
    then show ?thesis using m by (auto simp: om_ok_def intro: less_trans)
  next
    case 3
    then have "\<forall>x \<in> set (om_put k v m). fst e < fst x" using m(2) om_put_entries by metis
    then show ?thesis using 3 Cons.IH [OF m(1)] by (auto simp: om_ok_def)
  qed (use m in \<open>auto simp: om_ok_def\<close>)
qed (simp add: om_ok_def)

lemma om_put_find: "om_ok m \<Longrightarrow> map_of (om_put k v m) k' = (if k' = k then Some v else map_of m k')"
proof (induction m)
  case (Cons e m)
  then have "om_ok m" by (simp add: om_ok_def)
  then show ?case using Cons.IH by (cases e) auto
qed simp

section \<open>Families\<close>

record CounterFamily =
  cf_help :: string
  cf_values :: "int omap"

record GaugeFamily =
  gf_help :: string
  gf_provider :: bool

record HistogramFamily =
  hf_help :: string
  hf_bucket_bounds :: "rat list"
  hf_bucket_counts :: "int list"
  hf_total_count :: int
  hf_total_sum :: rat

record MetricsService =
  ms_counters :: "CounterFamily omap"
  ms_gauges :: "GaugeFamily omap"
  ms_histograms :: "HistogramFamily omap"
  ms_warned :: "string list"

definition new_metrics :: MetricsService where
  "new_metrics = \<lparr>ms_counters = [], ms_gauges = [], ms_histograms = [], ms_warned = []\<rparr>"

definition warn_unknown_metric_once :: "string \<Rightarrow> MetricsService \<Rightarrow> MetricsService" where
  "warn_unknown_metric_once name m = (if name \<in> set (ms_warned m) then m else m\<lparr>ms_warned := ms_warned m @ [name]\<rparr>)"

definition inc_counter :: "string \<Rightarrow> string \<Rightarrow> MetricsService \<Rightarrow> MetricsService" where
  "inc_counter name key m =
     (case map_of (ms_counters m) name of
        None \<Rightarrow> warn_unknown_metric_once name m
      | Some f \<Rightarrow>
          let v = (case map_of (cf_values f) key of None \<Rightarrow> 0 | Some v \<Rightarrow> v)
          in m\<lparr>ms_counters := om_put name (f\<lparr>cf_values := om_put key (v + 1) (cf_values f)\<rparr>) (ms_counters m)\<rparr>)"

definition observe :: "rat \<Rightarrow> HistogramFamily \<Rightarrow> HistogramFamily" where
  "observe value h = h\<lparr>hf_total_count := hf_total_count h + 1, hf_total_sum := rnd (hf_total_sum h + value),
     hf_bucket_counts := map2 (\<lambda>b n. if value \<le> b then n + 1 else n) (hf_bucket_bounds h) (hf_bucket_counts h)\<rparr>"

definition observe_histogram :: "string \<Rightarrow> rat \<Rightarrow> MetricsService \<Rightarrow> MetricsService" where
  "observe_histogram name value m =
     (case map_of (ms_histograms m) name of
        None \<Rightarrow> warn_unknown_metric_once name m
      | Some h \<Rightarrow> m\<lparr>ms_histograms := om_put name (observe value h) (ms_histograms m)\<rparr>)"

definition register_counter :: "string \<Rightarrow> string \<Rightarrow> MetricsService \<Rightarrow> MetricsService" where
  "register_counter name help m = m\<lparr>ms_counters := om_put name \<lparr>cf_help = help, cf_values = []\<rparr> (ms_counters m)\<rparr>"

definition register_gauge :: "string \<Rightarrow> string \<Rightarrow> bool \<Rightarrow> MetricsService \<Rightarrow> MetricsService" where
  "register_gauge name help provider m = m\<lparr>ms_gauges := om_put name \<lparr>gf_help = help, gf_provider = provider\<rparr> (ms_gauges m)\<rparr>"

text \<open>\<^verbatim>\<open>std::sort\<close>, then \<^verbatim>\<open>std::unique\<close>, which drops equal neighbours.\<close>

definition new_histogram :: "string \<Rightarrow> rat list \<Rightarrow> HistogramFamily" where
  "new_histogram help bounds =
     (let bs = remdups_adj (sort bounds)
      in \<lparr>hf_help = help, hf_bucket_bounds = bs, hf_bucket_counts = replicate (length bs) 0, hf_total_count = 0, hf_total_sum = 0\<rparr>)"

definition register_histogram :: "string \<Rightarrow> string \<Rightarrow> rat list \<Rightarrow> MetricsService \<Rightarrow> MetricsService" where
  "register_histogram name help bounds m = m\<lparr>ms_histograms := om_put name (new_histogram help bounds) (ms_histograms m)\<rparr>"

definition counter_count :: "MetricsService \<Rightarrow> nat" where "counter_count m = length (ms_counters m)"
definition gauge_count :: "MetricsService \<Rightarrow> nat" where "gauge_count m = length (ms_gauges m)"
definition histogram_count :: "MetricsService \<Rightarrow> nat" where "histogram_count m = length (ms_histograms m)"

section \<open>The text\<close>

text \<open>\<^verbatim>\<open>std::fixed << std::setprecision(6)\<close>.\<close>

definition pad6 :: "int \<Rightarrow> string" where
  "pad6 k = (let d = to_string k in replicate (6 - length d) CHR ''0'' @ d)"

definition fixed6 :: "rat \<Rightarrow> string" where
  "fixed6 v = (let k = rne (\<bar>v\<bar> * 1000000)
               in (if v < 0 then ''-'' else []) @ to_string (k div 1000000) @ ''.'' @ pad6 (k mod 1000000))"

text \<open>Trailing zeros go, unless only zeros follow the point.\<close>

definition trim_zeros :: "string \<Rightarrow> string" where
  "trim_zeros s =
     (if CHR ''.'' \<in> set s then
        let t = rev (dropWhile (\<lambda>c. c = CHR ''0'') (rev s)) in if t \<noteq> [] \<and> last t \<noteq> CHR ''.'' then t else s
      else s)"

definition format_double :: "rat \<Rightarrow> string" where
  "format_double v =
     (if v = of_int \<lfloor>v\<rfloor> \<and> \<bar>v\<bar> < 10 ^ 15 then to_string (trunc_int v) else trim_zeros (fixed6 v))"

abbreviation (input) NL :: string where "NL \<equiv> [CHR 0x0A]"
abbreviation (input) dquote :: string where "dquote \<equiv> [CHR 0x22]"

definition head_lines :: "string \<Rightarrow> string \<Rightarrow> string \<Rightarrow> string" where
  "head_lines name help ty = ''# HELP '' @ name @ '' '' @ help @ NL @ ''# TYPE '' @ name @ '' '' @ ty @ NL"

definition render_counter :: "string \<times> CounterFamily \<Rightarrow> string" where
  "render_counter e = (case e of (name, f) \<Rightarrow>
     head_lines name (cf_help f) ''counter''
     @ concat (map (\<lambda>(k, v). name @ ''{status='' @ dquote @ k @ dquote @ ''} '' @ to_string v @ NL) (cf_values f)))"

definition render_gauge :: "(string \<Rightarrow> int outcome) \<Rightarrow> string \<times> GaugeFamily \<Rightarrow> string" where
  "render_gauge gauge e = (case e of (name, f) \<Rightarrow>
     head_lines name (gf_help f) ''gauge''
     @ (case (if gf_provider f then gauge name else Returns 0) of
          Returns v \<Rightarrow> name @ '' '' @ to_string v @ NL
        | Throws _ \<Rightarrow> name @ '' NaN'' @ NL))"

definition bucket_lines :: "string \<Rightarrow> HistogramFamily \<Rightarrow> string list" where
  "bucket_lines name h =
     map2 (\<lambda>b n. name @ ''_bucket{le='' @ dquote @ format_double b @ dquote @ ''} '' @ to_string n @ NL)
       (hf_bucket_bounds h) (hf_bucket_counts h)
     @ [name @ ''_bucket{le='' @ dquote @ ''+Inf'' @ dquote @ ''} '' @ to_string (hf_total_count h) @ NL]"

definition render_histogram :: "string \<times> HistogramFamily \<Rightarrow> string" where
  "render_histogram e = (case e of (name, h) \<Rightarrow>
     head_lines name (hf_help h) ''histogram'' @ concat (bucket_lines name h)
     @ name @ ''_sum '' @ format_double (hf_total_sum h) @ NL
     @ name @ ''_count '' @ to_string (hf_total_count h) @ NL)"

definition render :: "(string \<Rightarrow> int outcome) \<Rightarrow> MetricsService \<Rightarrow> string" where
  "render gauge m =
     concat (map render_counter (ms_counters m)) @ concat (map (render_gauge gauge) (ms_gauges m))
     @ concat (map render_histogram (ms_histograms m))"

section \<open>Histograms: properties\<close>

definition hist_of :: "rat list \<Rightarrow> HistogramFamily \<Rightarrow> bool" where
  "hist_of vs h \<longleftrightarrow> sorted_wrt (<) (hf_bucket_bounds h) \<and> hf_total_count h = int (length vs)
     \<and> hf_bucket_counts h = map (\<lambda>b. int (length (filter (\<lambda>v. v \<le> b) vs))) (hf_bucket_bounds h)
     \<and> hf_total_sum h = foldl (\<lambda>s v. rnd (s + v)) 0 vs"

lemma strict_remdups_adj: "sorted (xs :: 'a :: linorder list) \<Longrightarrow> sorted_wrt (<) (remdups_adj xs)"
  by (induction xs rule: remdups_adj.induct) (auto simp: order.strict_iff_order)

lemma strict_sort: "sorted_wrt (<) (remdups_adj (sort (bs :: rat list)))"
  by (simp add: strict_remdups_adj)

lemma new_histogram_of: "hist_of [] (new_histogram help bounds)"
  by (simp add: hist_of_def new_histogram_def Let_def strict_sort map_replicate_const)

lemma observe_of: "hist_of vs h \<Longrightarrow> hist_of (vs @ [v]) (observe v h)"
  by (auto simp: hist_of_def observe_def map2_map_map [symmetric] zip_map2 o_def intro!: nth_equalityI)

lemma hist_of_monotone:
  assumes "hist_of vs h"
  shows "sorted (hf_bucket_counts h)" "n \<in> set (hf_bucket_counts h) \<Longrightarrow> n \<le> hf_total_count h"
proof -
  have mono: "length (filter (\<lambda>v. v \<le> a) vs) \<le> length (filter (\<lambda>v. v \<le> b) vs)" if "a \<le> b" for a b :: rat
    using that by (induction vs) auto
  have "sorted (hf_bucket_bounds h)" using assms by (simp add: hist_of_def strict_sorted_iff)
  then have "sorted_wrt (\<lambda>a b. length (filter (\<lambda>v. v \<le> a) vs) \<le> length (filter (\<lambda>v. v \<le> b) vs)) (hf_bucket_bounds h)"
    by (rule sorted_wrt_mono_rel [rotated]) (rule mono)
  then have "sorted (map (\<lambda>b. int (length (filter (\<lambda>v. v \<le> b) vs))) (hf_bucket_bounds h))" by (simp add: sorted_map)
  then show "sorted (hf_bucket_counts h)" using assms by (simp add: hist_of_def)
  show "n \<in> set (hf_bucket_counts h) \<Longrightarrow> n \<le> hf_total_count h" using assms by (auto simp: hist_of_def)
qed

section \<open>Use of the registry\<close>

datatype metric_event = Inc string string | Observe string rat

fun metric_apply :: "metric_event \<Rightarrow> MetricsService \<Rightarrow> MetricsService" where
  "metric_apply (Inc name key) m = inc_counter name key m"
| "metric_apply (Observe name v) m = observe_histogram name v m"

fun observed :: "string \<Rightarrow> metric_event list \<Rightarrow> rat list" where
  "observed name [] = []"
| "observed name (Observe n v # es) = (if n = name then v # observed name es else observed name es)"
| "observed name (Inc n k # es) = observed name es"

definition increments :: "string \<Rightarrow> string \<Rightarrow> metric_event list \<Rightarrow> int" where
  "increments name key es = int (length (filter (\<lambda>e. e = Inc name key) es))"

definition counter_value :: "CounterFamily \<Rightarrow> string \<Rightarrow> int" where
  "counter_value f key = (case map_of (cf_values f) key of None \<Rightarrow> 0 | Some v \<Rightarrow> v)"

definition registry_ok :: "MetricsService \<Rightarrow> bool" where
  "registry_ok m \<longleftrightarrow> om_ok (ms_counters m) \<and> om_ok (ms_gauges m) \<and> om_ok (ms_histograms m)
     \<and> (\<forall>n f. map_of (ms_counters m) n = Some f \<longrightarrow> om_ok (cf_values f)) \<and> distinct (ms_warned m)"

lemma registry_ok_new: "registry_ok new_metrics"
  by (simp add: registry_ok_def new_metrics_def om_ok_def)

lemma registry_ok_warn: "registry_ok m \<Longrightarrow> registry_ok (warn_unknown_metric_once n m)"
  by (auto simp: registry_ok_def warn_unknown_metric_once_def)

lemma registry_ok_register:
  assumes "registry_ok m"
  shows "registry_ok (register_counter n h m)" "registry_ok (register_gauge n h p m)" "registry_ok (register_histogram n h bs m)"
  using assms
  by (auto simp: registry_ok_def register_counter_def register_gauge_def register_histogram_def om_put_ok om_put_find om_ok_def [of "[]"]
      split: if_splits)

lemma registry_ok_inc: "registry_ok m \<Longrightarrow> registry_ok (inc_counter n k m)"
  by (auto simp: inc_counter_def registry_ok_warn Let_def split: option.splits)
     (auto simp: registry_ok_def om_put_ok om_put_find split: if_splits)

lemma registry_ok_observe: "registry_ok m \<Longrightarrow> registry_ok (observe_histogram n v m)"
  by (auto simp: observe_histogram_def registry_ok_warn split: option.splits) (auto simp: registry_ok_def om_put_ok)

lemma registry_ok_apply: "registry_ok m \<Longrightarrow> registry_ok (metric_apply e m)"
  by (cases e) (simp_all add: registry_ok_inc registry_ok_observe)

lemma apply_histogram:
  assumes "registry_ok m" and "map_of (ms_histograms m) name = Some h"
  shows "map_of (ms_histograms (metric_apply e m)) name = Some (case e of Observe n v \<Rightarrow> if n = name then observe v h else h | _ \<Rightarrow> h)"
  using assms
  by (cases e) (auto simp: inc_counter_def observe_histogram_def warn_unknown_metric_once_def Let_def om_put_find registry_ok_def
      split: option.splits)

lemma apply_counter:
  assumes "registry_ok m" and "map_of (ms_counters m) name = Some f"
  shows "\<exists>f'. map_of (ms_counters (metric_apply e m)) name = Some f'
    \<and> (\<forall>k. counter_value f' k = counter_value f k + increments name k [e])"
  using assms
  by (cases e) (auto simp: inc_counter_def observe_histogram_def warn_unknown_metric_once_def Let_def om_put_find registry_ok_def
      increments_def counter_value_def split: option.splits)

lemma apply_all_histogram:
  assumes "registry_ok m" and "map_of (ms_histograms m) name = Some h" and "hist_of vs h"
  shows "\<exists>h'. map_of (ms_histograms (fold metric_apply es m)) name = Some h' \<and> hist_of (vs @ observed name es) h'"
  using assms
proof (induction es arbitrary: m h vs)
  case (Cons e es)
  note ap = apply_histogram [OF Cons.prems(1,2), of e]
  show ?case
  proof (cases "\<exists>v. e = Observe name v")
    case True
    then obtain v where "e = Observe name v" by blast
    then show ?thesis
      using Cons.IH [OF registry_ok_apply [OF Cons.prems(1)], of e "observe v h" "vs @ [v]"] ap observe_of [OF Cons.prems(3), of v] by simp
  next
    case False
    then have "map_of (ms_histograms (metric_apply e m)) name = Some h" "observed name (e # es) = observed name es"
      using ap by (cases e; simp)+
    then show ?thesis using Cons.IH [OF registry_ok_apply [OF Cons.prems(1)], of e h vs] Cons.prems(3) by simp
  qed
qed auto

lemma apply_all_counter:
  assumes "registry_ok m" and "map_of (ms_counters m) name = Some f"
  shows "\<exists>f'. map_of (ms_counters (fold metric_apply es m)) name = Some f'
    \<and> (\<forall>k. counter_value f' k = counter_value f k + increments name k es)"
  using assms
proof (induction es arbitrary: m f)
  case (Cons e es)
  obtain f1 where f1: "map_of (ms_counters (metric_apply e m)) name = Some f1"
    "\<forall>k. counter_value f1 k = counter_value f k + increments name k [e]" using apply_counter [OF Cons.prems] by blast
  have "increments name k (e # es) = increments name k [e] + increments name k es" for k by (simp add: increments_def)
  then show ?case using Cons.IH [OF registry_ok_apply [OF Cons.prems(1)] f1(1)] f1(2) by (auto simp: algebra_simps)
qed (auto simp: increments_def)

text \<open>
  The registry is exact in every sequence of increments and observations, registered or not: a counter
  registered at the start shows for every label the number of its increments; a histogram shows in every
  bucket the number of its observations that are at most the bound, the buckets ascend and stay below the
  total, the total is the number of observations and the sum is their sum in double arithmetic, from left to
  right.
\<close>

theorem metrics_exact:
  assumes "registry_ok m" and "m' = fold metric_apply es (register_histogram hn help bs (register_counter cn help' m))"
  shows "(\<exists>f. map_of (ms_counters m') cn = Some f \<and> (\<forall>k. counter_value f k = increments cn k es))
    \<and> (\<exists>h. map_of (ms_histograms m') hn = Some h
        \<and> hf_bucket_counts h = map (\<lambda>b. int (length (filter (\<lambda>v. v \<le> b) (observed hn es)))) (hf_bucket_bounds h)
        \<and> hf_total_count h = int (length (observed hn es)) \<and> hf_total_sum h = foldl (\<lambda>s v. rnd (s + v)) 0 (observed hn es)
        \<and> sorted (hf_bucket_counts h) \<and> (\<forall>n \<in> set (hf_bucket_counts h). n \<le> hf_total_count h))"
proof -
  let ?m = "register_histogram hn help bs (register_counter cn help' m)"
  have ok: "registry_ok ?m" using assms(1) by (simp add: registry_ok_register)
  have c: "map_of (ms_counters ?m) cn = Some \<lparr>cf_help = help', cf_values = []\<rparr>"
    and h: "map_of (ms_histograms ?m) hn = Some (new_histogram help bs)"
    using assms(1) by (simp_all add: register_histogram_def register_counter_def om_put_find registry_ok_def)
  obtain f where "map_of (ms_counters m') cn = Some f" "\<forall>k. counter_value f k = increments cn k es"
    using apply_all_counter [OF ok c, of es] assms(2) by (auto simp: counter_value_def)
  moreover obtain h where h: "map_of (ms_histograms m') hn = Some h" "hist_of (observed hn es) h"
    using apply_all_histogram [OF ok h new_histogram_of, of es] assms(2) by auto
  ultimately show ?thesis using hist_of_monotone [OF h(2)] h unfolding hist_of_def by blast
qed

definition demo_metric_events :: "metric_event list" where
  "demo_metric_events = [Observe ''judge'' 3, Inc ''tasks'' ''ac'', Observe ''judge'' (1 / 2), Inc ''unknown'' ''x'', Inc ''tasks'' ''ac'']"

theorem metrics_exact_witness:
  "\<exists>f h. map_of (ms_counters (fold metric_apply demo_metric_events (register_histogram ''judge'' ''time'' [5, 1, 5] (register_counter ''tasks'' ''n'' new_metrics)))) ''tasks'' = Some f
     \<and> counter_value f ''ac'' = 2
     \<and> map_of (ms_histograms (fold metric_apply demo_metric_events (register_histogram ''judge'' ''time'' [5, 1, 5] (register_counter ''tasks'' ''n'' new_metrics)))) ''judge'' = Some h
     \<and> hf_total_count h = 2"
proof -
  have "increments ''tasks'' ''ac'' demo_metric_events = 2" "length (observed ''judge'' demo_metric_events) = 2"
    by (simp_all add: demo_metric_events_def increments_def)
  then show ?thesis
    using metrics_exact [OF registry_ok_new refl, of demo_metric_events "''judge''" "''time''" "[5, 1, 5]" "''tasks''" "''n''"] by auto
qed

end
