(* ===== verification/Tag_Repo.thy ===== *)
theory Tag_Repo
  imports Problem_Repo
begin

text \<open>
  \<^verbatim>\<open>src/db/tag_repo.h\<close>: tags, the tags of problems, and the resolver that turns the names an administrator
  typed into tags.

  The tables are those of Problem_Repo and \<^verbatim>\<open>tags\<close>, with the unique name (up to the collation), the primary key of
  \<^verbatim>\<open>problem_tags\<close> and its foreign keys. \<^verbatim>\<open>INSERT IGNORE\<close> skips a row that violates a key or a foreign key. The order of names
  is that of the collation: \<open>tv_rank\<close> is the rank of a name.

  Main results: names stay unique and every attached tag and problem exists; replacing the tags of a problem
  is atomic, and what it leaves attached; what resolving a list of names creates and returns, and that a name
  that is stored in another spelling makes it fail after it has created the others.
\<close>

section \<open>Names\<close>

record TagRow =
  t_id :: int
  t_name :: string

record TagWithCount =
  tw_tag :: TagRow
  tw_problem_count :: int

datatype tag_error =
    TagRepoError string
  | TagNotFoundError string
  | TagAlreadyExistsError string
  | TagMysqlxError string
  | TagPoolError string

abbreviation (input) kMinTagNameLength :: nat where "kMinTagNameLength \<equiv> 1"
abbreviation (input) kMaxTagNameLength :: nat where "kMaxTagNameLength \<equiv> 50"

definition blank :: "char \<Rightarrow> bool" where
  "blank c \<longleftrightarrow> c = CHR '' '' \<or> c = CHR 0x09"

definition control :: "char \<Rightarrow> bool" where
  "control c \<longleftrightarrow> uchar c < 32 \<or> uchar c = 127"

definition validate_tag_name :: "string \<Rightarrow> string + unit" where
  "validate_tag_name name =
     (if length name < kMinTagNameLength \<or> length name > kMaxTagNameLength then
        Inl (''tag name length must be between '' @ to_string (int kMinTagNameLength) @ '' and '' @ to_string (int kMaxTagNameLength))
      else if blank (hd name) \<or> blank (last name) then Inl ''tag name must not start or end with whitespace''
      else if \<exists>c \<in> set name. control c then Inl ''tag name must not contain control characters''
      else Inr ())"

definition trim_tag_name :: "string \<Rightarrow> string" where
  "trim_tag_name name = rev (dropWhile blank (rev (dropWhile blank name)))"

section \<open>Tables and statements\<close>

record tag_db =
  td_tags :: "TagRow list"
  td_next :: int
  td_pd :: problem_db

record tag_env = fk_env +
  tv_rank :: "string \<Rightarrow> int"

definition tag_conn :: "'e db_env_scheme \<Rightarrow> tag_error + 'a \<Rightarrow> tag_error + 'a" where
  "tag_conn v body = (case dv_acquire v of Some m \<Rightarrow> Inl (TagPoolError m) | None \<Rightarrow> body)"

definition tag_sql :: "'e db_env_scheme \<Rightarrow> nat \<Rightarrow> (string \<Rightarrow> tag_error) \<Rightarrow> 'a \<Rightarrow> tag_error + 'a" where
  "tag_sql v k wrap r = (case dv_fault v k of Some m \<Rightarrow> Inl (wrap m) | None \<Rightarrow> Inr r)"

definition tag_wrap :: "string \<Rightarrow> string \<Rightarrow> tag_error" where
  "tag_wrap op what = TagRepoError (''tag_repo::'' @ op @ '': '' @ what)"

definition name_taken :: "'e db_env_scheme \<Rightarrow> string \<Rightarrow> tag_db \<Rightarrow> bool" where
  "name_taken v name d \<longleftrightarrow> (\<exists>t \<in> set (td_tags d). dv_eq v (t_name t) name)"

definition add_tag :: "string \<Rightarrow> tag_db \<Rightarrow> tag_db" where
  "add_tag name d = d\<lparr>td_tags := td_tags d @ [\<lparr>t_id = td_next d, t_name = name\<rparr>], td_next := td_next d + 1\<rparr>"

definition create_tag :: "'e db_env_scheme \<Rightarrow> string \<Rightarrow> tag_db \<Rightarrow> tag_error + int \<times> tag_db" where
  "create_tag v name d =
     (let trimmed = trim_tag_name name in
      case validate_tag_name trimmed of
        Inl err \<Rightarrow> Inl (TagRepoError (''create: '' @ err))
      | Inr _ \<Rightarrow>
          tag_conn v
            (case (case dv_fault v 0 of
                     Some m \<Rightarrow> Inl m
                   | None \<Rightarrow> if name_taken v trimmed d then Inl (dv_duplicate v) else Inr (td_next d, add_tag trimmed d)) of
               Inr x \<Rightarrow> Inr x
             | Inl what \<Rightarrow> if is_duplicate_error what then Inr (0, d) else Inl (tag_wrap ''create'' what)))"

definition tag_name_exists :: "'e db_env_scheme \<Rightarrow> string \<Rightarrow> tag_db \<Rightarrow> tag_error + bool" where
  "tag_name_exists v name d = tag_conn v (tag_sql v 0 TagMysqlxError (name_taken v name d))"

definition find_tag_by_id :: "'e db_env_scheme \<Rightarrow> int \<Rightarrow> tag_db \<Rightarrow> tag_error + TagRow option" where
  "find_tag_by_id v i d = tag_conn v (tag_sql v 0 TagMysqlxError (List.find (\<lambda>t. t_id t = i) (td_tags d)))"

definition find_tag_by_name :: "'e db_env_scheme \<Rightarrow> string \<Rightarrow> tag_db \<Rightarrow> tag_error + TagRow option" where
  "find_tag_by_name v name d = tag_conn v (tag_sql v 0 TagMysqlxError (List.find (\<lambda>t. dv_eq v (t_name t) name) (td_tags d)))"

definition update_tag :: "'e db_env_scheme \<Rightarrow> int \<Rightarrow> string \<Rightarrow> tag_db \<Rightarrow> tag_error + bool \<times> tag_db" where
  "update_tag v i new_name d =
     (let trimmed = trim_tag_name new_name in
      case validate_tag_name trimmed of
        Inl err \<Rightarrow> Inl (TagRepoError (''update: '' @ err))
      | Inr _ \<Rightarrow>
          tag_conn v
            (case tag_sql v 0 TagMysqlxError (\<exists>t \<in> set (td_tags d). t_id t = i) of
               Inl e \<Rightarrow> Inl e
             | Inr False \<Rightarrow> Inl (TagNotFoundError (''tag_repo::update: id '' @ to_string i @ '' not found''))
             | Inr True \<Rightarrow>
                 (case (case dv_fault v 1 of
                          Some m \<Rightarrow> Inl m
                        | None \<Rightarrow>
                            if \<exists>t \<in> set (td_tags d). t_id t \<noteq> i \<and> dv_eq v (t_name t) trimmed then Inl (dv_duplicate v)
                            else Inr (length (filter (\<lambda>t. t_id t = i \<and> (dv_count_matched v \<or> t_name t \<noteq> trimmed)) (td_tags d)),
                                      d\<lparr>td_tags := map (\<lambda>t. if t_id t = i then t\<lparr>t_name := trimmed\<rparr> else t) (td_tags d)\<rparr>)) of
                    Inr (n, d') \<Rightarrow> Inr (n > 0, d')
                  | Inl what \<Rightarrow>
                      Inl (if is_duplicate_error what
                           then TagAlreadyExistsError (''tag_repo::update: name '' @ [quote] @ trimmed @ [quote] @ '' already exists'')
                           else tag_wrap ''update'' what))))"

text \<open>Deleting a tag takes its attachments along (\<^verbatim>\<open>ON DELETE CASCADE\<close>).\<close>

definition set_links :: "(int \<times> int) list \<Rightarrow> tag_db \<Rightarrow> tag_db" where
  "set_links ls d = d\<lparr>td_pd := (td_pd d)\<lparr>pd_problem_tags := ls\<rparr>\<rparr>"

definition links :: "tag_db \<Rightarrow> (int \<times> int) list" where
  "links d = pd_problem_tags (td_pd d)"

definition delete_tag :: "'e db_env_scheme \<Rightarrow> int \<Rightarrow> tag_db \<Rightarrow> tag_error + bool \<times> tag_db" where
  "delete_tag v i d =
     tag_conn v (tag_sql v 0 (tag_wrap ''delete_by_id'')
       (\<exists>t \<in> set (td_tags d). t_id t = i,
        (set_links (filter (\<lambda>l. snd l \<noteq> i) (links d)) d)\<lparr>td_tags := filter (\<lambda>t. t_id t \<noteq> i) (td_tags d)\<rparr>))"

text \<open>\<^verbatim>\<open>ORDER BY name ASC, id ASC\<close>.\<close>

definition by_name_order :: "tag_env \<Rightarrow> TagRow list \<Rightarrow> TagRow list" where
  "by_name_order v ts = sort_key (\<lambda>t. tv_rank v (t_name t)) (sort_key t_id ts)"

definition list_tags :: "tag_env \<Rightarrow> tag_db \<Rightarrow> tag_error + TagRow list" where
  "list_tags v d = tag_conn v (tag_sql v 0 (tag_wrap ''list'') (by_name_order v (td_tags d)))"

text \<open>The two queries count the attachments, or those to problems that are not deleted.\<close>

definition is_live :: "tag_db \<Rightarrow> int \<Rightarrow> bool" where
  "is_live d i \<longleftrightarrow> (\<exists>p \<in> set (pd_problems (td_pd d)). p_id p = i \<and> \<not> p_is_deleted p)"

definition tag_uses :: "bool \<Rightarrow> int \<Rightarrow> tag_db \<Rightarrow> (int \<times> int) list" where
  "tag_uses only_live i d = filter (\<lambda>l. snd l = i \<and> (only_live \<longrightarrow> is_live d (fst l))) (links d)"

definition list_with_count :: "tag_env \<Rightarrow> bool \<Rightarrow> tag_db \<Rightarrow> tag_error + TagWithCount list" where
  "list_with_count v count_live_problems d =
     tag_conn v (tag_sql v 0 (tag_wrap ''list_with_count'')
       (map (\<lambda>t. \<lparr>tw_tag = t, tw_problem_count = int (length (tag_uses count_live_problems (t_id t) d))\<rparr>) (by_name_order v (td_tags d))))"

section \<open>Tags of problems\<close>

definition link_ok :: "int \<Rightarrow> int \<Rightarrow> tag_db \<Rightarrow> bool" where
  "link_ok pid tid d \<longleftrightarrow> (\<exists>p \<in> set (pd_problems (td_pd d)). p_id p = pid) \<and> (\<exists>t \<in> set (td_tags d). t_id t = tid)"

text \<open>\<^verbatim>\<open>INSERT IGNORE INTO problem_tags\<close>.\<close>

definition insert_link :: "int \<Rightarrow> int \<Rightarrow> tag_db \<Rightarrow> tag_db" where
  "insert_link pid tid d =
     (if (pid, tid) \<in> set (links d) \<or> \<not> link_ok pid tid d then d else set_links (links d @ [(pid, tid)]) d)"

definition attach :: "'e db_env_scheme \<Rightarrow> int \<Rightarrow> int \<Rightarrow> tag_db \<Rightarrow> tag_error + tag_db" where
  "attach v pid tid d = tag_conn v (tag_sql v 0 (tag_wrap ''attach'') (insert_link pid tid d))"

definition detach :: "'e db_env_scheme \<Rightarrow> int \<Rightarrow> int \<Rightarrow> tag_db \<Rightarrow> tag_error + bool \<times> tag_db" where
  "detach v pid tid d =
     tag_conn v (tag_sql v 0 (tag_wrap ''detach'')
       ((pid, tid) \<in> set (links d), set_links (filter (\<lambda>l. l \<noteq> (pid, tid)) (links d)) d))"

definition clear_tags :: "'e db_env_scheme \<Rightarrow> int \<Rightarrow> tag_db \<Rightarrow> tag_error + nat \<times> tag_db" where
  "clear_tags v pid d =
     tag_conn v (tag_sql v 0 (tag_wrap ''clear'')
       (length (filter (\<lambda>l. fst l = pid) (links d)), set_links (filter (\<lambda>l. fst l \<noteq> pid) (links d)) d))"

text \<open>The loop that drops repeated ids.\<close>

fun unique_ids :: "int list \<Rightarrow> int list \<Rightarrow> int list" where
  "unique_ids seen [] = []"
| "unique_ids seen (i # is) = (if i \<in> set seen then unique_ids seen is else i # unique_ids (i # seen) is)"

fun insert_links :: "'e db_env_scheme \<Rightarrow> nat \<Rightarrow> int \<Rightarrow> int list \<Rightarrow> tag_db \<Rightarrow> string + tag_db" where
  "insert_links v k pid [] d = Inr d"
| "insert_links v k pid (i # is) d =
     (case dv_fault v k of Some m \<Rightarrow> Inl m | None \<Rightarrow> insert_links v (Suc k) pid is (insert_link pid i d))"

text \<open>Statement 0 starts the transaction, 1 deletes, then the inserts, the last one commits; a failure rolls back.\<close>

definition replace_tags :: "'e db_env_scheme \<Rightarrow> int \<Rightarrow> int list \<Rightarrow> tag_db \<Rightarrow> (tag_error + unit) \<times> tag_db" where
  "replace_tags v pid tag_ids d =
     (let is = unique_ids [] tag_ids; fail = (\<lambda>m. (Inl (tag_wrap ''replace'' m), d)) in
      case dv_acquire v of
        Some m \<Rightarrow> (Inl (TagPoolError m), d)
      | None \<Rightarrow>
      case dv_fault v 0 of
        Some m \<Rightarrow> fail m
      | None \<Rightarrow>
      case dv_fault v 1 of
        Some m \<Rightarrow> fail m
      | None \<Rightarrow>
      case insert_links v 2 pid is (set_links (filter (\<lambda>l. fst l \<noteq> pid) (links d)) d) of
        Inl m \<Rightarrow> fail m
      | Inr d' \<Rightarrow> (case dv_fault v (2 + length is) of Some m \<Rightarrow> fail m | None \<Rightarrow> (Inr (), d')))"

definition list_tags_for_problem :: "tag_env \<Rightarrow> int \<Rightarrow> tag_db \<Rightarrow> tag_error + TagRow list" where
  "list_tags_for_problem v pid d =
     tag_conn v (tag_sql v 0 (tag_wrap ''list_tags_for_problem'')
       (by_name_order v (filter (\<lambda>t. (pid, t_id t) \<in> set (links d)) (td_tags d))))"

definition list_problems_for_tag :: "'e db_env_scheme \<Rightarrow> int \<Rightarrow> bool \<Rightarrow> tag_db \<Rightarrow> tag_error + int list" where
  "list_problems_for_tag v tid include_deleted d =
     tag_conn v (tag_sql v 0 (tag_wrap ''list_problems_for_tag'')
       (sort (map fst (tag_uses (\<not> include_deleted) tid d))))"

definition count_tags_for_problem :: "'e db_env_scheme \<Rightarrow> int \<Rightarrow> tag_db \<Rightarrow> tag_error + int" where
  "count_tags_for_problem v pid d =
     tag_conn v (tag_sql v 0 (tag_wrap ''count_tags_for_problem'') (int (length (filter (\<lambda>l. fst l = pid) (links d)))))"

definition count_problems_for_tag :: "'e db_env_scheme \<Rightarrow> int \<Rightarrow> bool \<Rightarrow> tag_db \<Rightarrow> tag_error + int" where
  "count_problems_for_tag v tid include_deleted d =
     tag_conn v (tag_sql v 0 (tag_wrap ''count_problems_for_tag'') (int (length (tag_uses (\<not> include_deleted) tid d))))"

section \<open>Resolving names\<close>

fun trim_all :: "string list \<Rightarrow> tag_error + string list" where
  "trim_all [] = Inr []"
| "trim_all (n # ns) =
     (let t = trim_tag_name n in
      case validate_tag_name t of
        Inl err \<Rightarrow> Inl (TagRepoError (''find_or_create_many: '' @ [quote] @ n @ [quote] @ '': '' @ err))
      | Inr _ \<Rightarrow> (case trim_all ns of Inl e \<Rightarrow> Inl e | Inr ts \<Rightarrow> Inr (t # ts)))"

definition insert_ignore :: "'e db_env_scheme \<Rightarrow> string \<Rightarrow> tag_db \<Rightarrow> tag_db" where
  "insert_ignore v name d = (if name_taken v name d then d else add_tag name d)"

text \<open>The rows are looked up by their exact spelling.\<close>

fun resolve :: "TagRow list \<Rightarrow> string list \<Rightarrow> tag_error + TagRow list" where
  "resolve found [] = Inr []"
| "resolve found (n # ns) =
     (case List.find (\<lambda>t. t_name t = n) found of
        None \<Rightarrow> Inl (TagRepoError (''find_or_create_many: failed to resolve '' @ [quote] @ n @ [quote]
                  @ '' after INSERT IGNORE -- collation mismatch between input and stored value is the most likely cause ''
                  @ ''(try pre-trimming and matching the canonical case stored on disk)''))
      | Some t \<Rightarrow> (case resolve found ns of Inl e \<Rightarrow> Inl e | Inr ts \<Rightarrow> Inr (t # ts)))"

definition find_or_create_many :: "'e db_env_scheme \<Rightarrow> string list \<Rightarrow> tag_db \<Rightarrow> (tag_error + TagRow list) \<times> tag_db" where
  "find_or_create_many v names d =
     (if names = [] then (Inr [], d)
      else case trim_all names of
        Inl e \<Rightarrow> (Inl e, d)
      | Inr trimmed \<Rightarrow>
          (case tag_conn v (tag_sql v 0 (tag_wrap ''find_or_create_many'') (fold (insert_ignore v) trimmed d)) of
             Inl e \<Rightarrow> (Inl e, d)
           | Inr d' \<Rightarrow>
               (case tag_sql v 1 (tag_wrap ''find_or_create_many'') (filter (\<lambda>t. \<exists>n \<in> set trimmed. dv_eq v (t_name t) n) (td_tags d')) of
                  Inl e \<Rightarrow> (Inl e, d')
                | Inr found \<Rightarrow> (resolve found trimmed, d'))))"

section \<open>Invariant\<close>

definition tags_ok :: "(string \<Rightarrow> string \<Rightarrow> bool) \<Rightarrow> tag_db \<Rightarrow> bool" where
  "tags_ok eq d \<longleftrightarrow> distinct (map t_id (td_tags d)) \<and> (\<forall>t \<in> set (td_tags d). t_id t < td_next d)
     \<and> (\<forall>t \<in> set (td_tags d). \<forall>u \<in> set (td_tags d). eq (t_name t) (t_name u) \<longrightarrow> t_id t = t_id u)
     \<and> distinct (links d) \<and> (\<forall>l \<in> set (links d). link_ok (fst l) (snd l) d)"

lemma links_set [simp]: "links (set_links ls d) = ls" "td_tags (set_links ls d) = td_tags d" "td_next (set_links ls d) = td_next d"
  "link_ok pid tid (set_links ls d) = link_ok pid tid d"
  by (simp_all add: links_def set_links_def link_ok_def)

lemma links_add [simp]: "links (add_tag n d) = links d" "td_next (add_tag n d) = td_next d + 1"
  "td_tags (add_tag n d) = td_tags d @ [\<lparr>t_id = td_next d, t_name = n\<rparr>]" "td_pd (add_tag n d) = td_pd d"
  by (simp_all add: links_def add_tag_def)

lemma tags_ok_filter: "tags_ok eq d \<Longrightarrow> tags_ok eq (set_links (filter P (links d)) d)"
  by (auto simp: tags_ok_def)

lemma collation_flip: "collation eq \<Longrightarrow> eq a b \<Longrightarrow> eq b a"
  unfolding collation_def by blast

lemma tags_ok_add:
  assumes "tags_ok eq d" and "collation eq" and "\<not> (\<exists>t \<in> set (td_tags d). eq (t_name t) n)"
  shows "tags_ok eq (add_tag n d)"
proof -
  have "\<not> eq n (t_name t)" if "t \<in> set (td_tags d)" for t using assms(3) that collation_flip [OF assms(2)] by blast
  moreover have "link_ok i j (add_tag n d)" if "link_ok i j d" for i j using that by (auto simp: link_ok_def)
  ultimately show ?thesis using assms(1,3) by (auto simp: tags_ok_def)
qed

lemma tags_ok_link: "tags_ok eq d \<Longrightarrow> tags_ok eq (insert_link pid tid d)"
  by (auto simp: tags_ok_def insert_link_def)

lemma insert_links_ok: "insert_links v k pid is d = Inr d' \<Longrightarrow> tags_ok eq d \<Longrightarrow> tags_ok eq d'"
  by (induction "is" arbitrary: k d) (auto simp: tags_ok_link split: option.splits)

lemma insert_ignore_ok: "tags_ok (dv_eq v) d \<Longrightarrow> collation (dv_eq v) \<Longrightarrow> tags_ok (dv_eq v) (insert_ignore v n d)"
  by (simp add: insert_ignore_def name_taken_def tags_ok_add)

lemma insert_ignores_ok: "tags_ok (dv_eq v) d \<Longrightarrow> collation (dv_eq v) \<Longrightarrow> tags_ok (dv_eq v) (fold (insert_ignore v) ns d)"
  by (induction ns arbitrary: d) (simp_all add: insert_ignore_ok)

lemma create_tag_ok:
  "create_tag v n d = Inr (i, d') \<Longrightarrow> tags_ok (dv_eq v) d \<Longrightarrow> collation (dv_eq v) \<Longrightarrow> tags_ok (dv_eq v) d'"
  by (auto simp: create_tag_def Let_def tag_conn_def name_taken_def split: sum.splits option.splits if_splits intro!: tags_ok_add)

lemma update_tag_ok:
  assumes "update_tag v i n d = Inr (b, d')" and "tags_ok (dv_eq v) d" and "collation (dv_eq v)"
  shows "tags_ok (dv_eq v) d'"
proof -
  let ?n = "trim_tag_name n"
  let ?g = "\<lambda>t. if t_id t = i then t\<lparr>t_name := ?n\<rparr> else t"
  have d': "d' = d\<lparr>td_tags := map ?g (td_tags d)\<rparr>" and no: "\<forall>t \<in> set (td_tags d). t_id t \<noteq> i \<longrightarrow> \<not> dv_eq v (t_name t) ?n"
    using assms(1) by (auto simp: update_tag_def Let_def tag_conn_def tag_sql_def split: sum.splits option.splits if_splits bool.splits)
  have id: "map t_id (map ?g (td_tags d)) = map t_id (td_tags d)" by simp
  have e: "(\<exists>t \<in> set (map ?g ts). t_id t = b) \<longleftrightarrow> (\<exists>t \<in> set ts. t_id t = b)" for ts b by (induction ts) auto
  have td: "td_tags d' = map ?g (td_tags d)" "td_pd d' = td_pd d" by (simp_all add: d')
  have lk: "link_ok a b d' = link_ok a b d" for a b by (simp only: link_ok_def td e)
  have ls: "links d' = links d" by (simp add: d' links_def)
  have "t_id t = t_id u" if "t \<in> set (map ?g (td_tags d))" "u \<in> set (map ?g (td_tags d))" "dv_eq v (t_name t) (t_name u)" for t u
  proof -
    from that(1,2) obtain t0 u0 where tu: "t0 \<in> set (td_tags d)" "t = ?g t0" "u0 \<in> set (td_tags d)" "u = ?g u0" by auto
    have same: "dv_eq v (t_name t0) (t_name u0) \<Longrightarrow> t_id t0 = t_id u0" using tu assms(2) unfolding tags_ok_def by blast
    have left: "t_id u0 = i \<Longrightarrow> t_id t0 \<noteq> i \<Longrightarrow> \<not> dv_eq v (t_name t0) ?n" using no tu(1) by blast
    have right: "t_id t0 = i \<Longrightarrow> t_id u0 \<noteq> i \<Longrightarrow> \<not> dv_eq v ?n (t_name u0)"
      using no tu(3) collation_flip [OF assms(3)] by blast
    show ?thesis using that(3) same left right unfolding tu(2,4) by (simp split: if_splits)
  qed
  then have names: "\<forall>t \<in> set (td_tags d'). \<forall>u \<in> set (td_tags d'). dv_eq v (t_name t) (t_name u) \<longrightarrow> t_id t = t_id u"
    unfolding td by blast
  have "\<forall>t \<in> set (td_tags d'). t_id t < td_next d'" using assms(2) by (auto simp: d' tags_ok_def)
  moreover have "distinct (map t_id (td_tags d'))" using assms(2) unfolding td id by (simp add: tags_ok_def)
  moreover have "distinct (links d') \<and> (\<forall>l \<in> set (links d'). link_ok (fst l) (snd l) d')"
    using assms(2) unfolding ls lk by (simp add: tags_ok_def)
  ultimately show ?thesis using names unfolding tags_ok_def by blast
qed

lemma delete_tag_ok:
  assumes "delete_tag v i d = Inr (b, d')" and "tags_ok eq d"
  shows "tags_ok eq d'"
proof -
  let ?d = "set_links (filter (\<lambda>l. snd l \<noteq> i) (links d)) d"
  have d': "d' = ?d\<lparr>td_tags := filter (\<lambda>t. t_id t \<noteq> i) (td_tags d)\<rparr>"
    using assms(1) by (auto simp: delete_tag_def tag_conn_def tag_sql_def split: option.splits)
  have "links d' = filter (\<lambda>l. snd l \<noteq> i) (links d)" by (simp add: d' links_def set_links_def)
  moreover have "link_ok a b d'" if "link_ok a b d" "b \<noteq> i" for a b using that by (auto simp: d' link_ok_def set_links_def)
  moreover have "td_tags d' = filter (\<lambda>t. t_id t \<noteq> i) (td_tags d)" "td_next d' = td_next d" by (simp_all add: d')
  ultimately show ?thesis using assms(2) by (auto simp: tags_ok_def distinct_map_filter)
qed

lemma replace_tags_ok: "tags_ok eq d \<Longrightarrow> tags_ok eq (snd (replace_tags v pid is d))"
  by (auto simp: replace_tags_def Let_def insert_links_ok tags_ok_filter split: option.splits sum.splits)

lemma resolver_ok:
  "tags_ok (dv_eq v) d \<Longrightarrow> collation (dv_eq v) \<Longrightarrow> tags_ok (dv_eq v) (snd (find_or_create_many v ns d))"
  by (auto simp: find_or_create_many_def tag_conn_def tag_sql_def insert_ignores_ok split: option.splits sum.splits)

datatype tag_op =
    CreateTag string
  | RenameTag int string
  | DeleteTag int
  | Attach int int
  | Detach int int
  | ClearTags int
  | ReplaceTags int "int list"
  | ResolveTags "string list"

definition after :: "tag_error + 'a \<times> tag_db \<Rightarrow> tag_db \<Rightarrow> tag_db" where
  "after r d = (case r of Inl _ \<Rightarrow> d | Inr (_, d') \<Rightarrow> d')"

fun run_tag_op :: "tag_env \<times> tag_op \<Rightarrow> tag_db \<Rightarrow> tag_db" where
  "run_tag_op (v, CreateTag n) d = after (create_tag v n d) d"
| "run_tag_op (v, RenameTag i n) d = after (update_tag v i n d) d"
| "run_tag_op (v, DeleteTag i) d = after (delete_tag v i d) d"
| "run_tag_op (v, Attach p t) d = (case attach v p t d of Inl _ \<Rightarrow> d | Inr d' \<Rightarrow> d')"
| "run_tag_op (v, Detach p t) d = after (detach v p t d) d"
| "run_tag_op (v, ClearTags p) d = after (clear_tags v p d) d"
| "run_tag_op (v, ReplaceTags p is) d = snd (replace_tags v p is d)"
| "run_tag_op (v, ResolveTags ns) d = snd (find_or_create_many v ns d)"

lemma run_tag_op_ok:
  assumes "tags_ok (dv_eq v) d" and "collation (dv_eq v)"
  shows "tags_ok (dv_eq v) (run_tag_op (v, x) d)"
proof (cases x)
  case (CreateTag n)
  then show ?thesis using assms create_tag_ok by (fastforce simp: after_def split: sum.splits)
next
  case (RenameTag i n)
  then show ?thesis using assms update_tag_ok by (fastforce simp: after_def split: sum.splits)
next
  case (DeleteTag i)
  then show ?thesis using assms delete_tag_ok by (fastforce simp: after_def split: sum.splits)
qed (use assms in \<open>auto simp: after_def attach_def detach_def clear_tags_def tag_conn_def tag_sql_def tags_ok_filter tags_ok_link
       replace_tags_ok resolver_ok split: sum.splits option.splits\<close>)

section \<open>Properties\<close>

text \<open>
  Whatever sequence of operations runs, and whatever fails in between, the tags keep their keys: no two tags
  have the same id or names the collation identifies, no attachment is doubled, and every attachment is
  between a tag and a problem that exist.
\<close>

theorem tag_keys_unique:
  assumes "collation eq" and "\<forall>(v, x) \<in> set xs. dv_eq v = eq" and "tags_ok eq d"
  shows "tags_ok eq (fold run_tag_op xs d)"
  using assms(2,3)
proof (induction xs arbitrary: d)
  case (Cons y ys)
  obtain v x where y: "y = (v, x)" by (cases y)
  then have "tags_ok eq (run_tag_op y d)" using run_tag_op_ok [of v d x] Cons.prems assms(1) by simp
  then show ?case using Cons.IH Cons.prems(1) by simp
qed simp

definition tag_demo_env :: tag_env where
  "tag_demo_env = \<lparr>dv_eq = no_case, dv_char_eq = (\<lambda>a b. tolower a = tolower b), dv_now = ''2024-01-02 03:04:05'',
     dv_count_matched = False, dv_duplicate = ''Duplicate entry'', dv_acquire = None, dv_fault = (\<lambda>_. None),
     fv_foreign_key = ''a foreign key constraint fails'', tv_rank = (\<lambda>s. int (length s))\<rparr>"

definition no_tags :: tag_db where
  "no_tags = \<lparr>td_tags = [], td_next = 1, td_pd = one_problem\<rparr>"

definition demo_tag_ops :: "(tag_env \<times> tag_op) list" where
  "demo_tag_ops = map (Pair tag_demo_env) [CreateTag ''dp'', CreateTag ''DP'', ResolveTags [''graph'', ''dp''], ReplaceTags 1 [2, 1, 2, 9], Attach 5 1, RenameTag 1 ''Graph'', DeleteTag 2]"

theorem tag_keys_unique_witness:
  "tags_ok no_case (fold run_tag_op demo_tag_ops no_tags) \<and> links (fold run_tag_op demo_tag_ops no_tags) = [(1, 1)]"
proof
  have "tags_ok no_case no_tags" by (simp add: tags_ok_def no_tags_def links_def one_problem_def no_problems_def)
  then show "tags_ok no_case (fold run_tag_op demo_tag_ops no_tags)"
    by (intro tag_keys_unique) (auto simp: no_case_collation demo_tag_ops_def tag_demo_env_def)
  show "links (fold run_tag_op demo_tag_ops no_tags) = [(1, 1)]" by code_simp
qed

lemma unique_ids_set: "set (unique_ids seen is) = set is - set seen"
  by (induction "is" arbitrary: seen) auto

lemma insert_links_links:
  assumes "insert_links v k pid is d = Inr d'"
  shows "td_tags d' = td_tags d \<and> (\<forall>l. l \<in> set (links d') \<longleftrightarrow> l \<in> set (links d) \<or> (fst l = pid \<and> snd l \<in> set is \<and> link_ok pid (snd l) d))"
  using assms
proof (induction "is" arbitrary: k d)
  case (Cons i "is")
  have step: "td_tags (insert_link pid i d) = td_tags d" "link_ok pid j (insert_link pid i d) = link_ok pid j d" for j
    by (auto simp: insert_link_def)
  have "l \<in> set (links (insert_link pid i d)) \<longleftrightarrow> l \<in> set (links d) \<or> (l = (pid, i) \<and> link_ok pid i d)" for l
    by (auto simp: insert_link_def)
  then show ?case using Cons.IH [of "Suc k" "insert_link pid i d"] Cons.prems step by (auto split: option.splits)
qed auto

text \<open>
  Replacing the tags of a problem is all or nothing: on success exactly the requested tags that exist are
  attached to it (none if the problem does not exist), without repetition, and no other problem is
  touched; on any error, nothing has changed.
\<close>

theorem replace_tags_exact:
  assumes "replace_tags v pid tag_ids d = (r, d')"
  shows "(r = Inr () \<longrightarrow> (\<forall>l. l \<in> set (links d') \<longleftrightarrow>
            (if fst l = pid then snd l \<in> set tag_ids \<and> link_ok pid (snd l) d else l \<in> set (links d))))
    \<and> (r \<noteq> Inr () \<longrightarrow> d' = d) \<and> td_tags d' = td_tags d"
proof (cases "r = Inr ()")
  case True
  let ?d = "set_links (filter (\<lambda>l. fst l \<noteq> pid) (links d)) d"
  have "insert_links v 2 pid (unique_ids [] tag_ids) ?d = Inr d'"
    using assms True by (auto simp: replace_tags_def Let_def split: option.splits sum.splits)
  from insert_links_links [OF this] show ?thesis using True by (auto simp: unique_ids_set)
next
  case False
  then show ?thesis using assms by (auto simp: replace_tags_def Let_def split: option.splits sum.splits)
qed

theorem replace_tags_exact_witness:
  "(1, 1) \<in> set (links (snd (replace_tags tag_demo_env 1 [7, 1, 1] (add_tag ''dp'' no_tags))))
   \<and> (1, 7) \<notin> set (links (snd (replace_tags tag_demo_env 1 [7, 1, 1] (add_tag ''dp'' no_tags))))"
proof -
  let ?r = "replace_tags tag_demo_env 1 [7, 1, 1] (add_tag ''dp'' no_tags)"
  have "fst ?r = Inr ()" by code_simp
  then have r: "?r = (Inr (), snd ?r)" by (metis prod.collapse)
  have "link_ok 1 1 (add_tag ''dp'' no_tags) \<and> \<not> link_ok 1 7 (add_tag ''dp'' no_tags)" by code_simp
  then show ?thesis using replace_tags_exact [OF r] by simp
qed

lemma name_taken_add: "name_taken v m d \<Longrightarrow> name_taken v m (add_tag n d)"
  by (auto simp: name_taken_def)

lemma insert_ignore_taken: "collation (dv_eq v) \<Longrightarrow> name_taken v n (insert_ignore v n d)"
  unfolding insert_ignore_def name_taken_def by (simp add: collation_refl)

lemma insert_ignores_taken:
  assumes "collation (dv_eq v)"
  shows "(\<forall>n \<in> set ns. name_taken v n (fold (insert_ignore v) ns d))
    \<and> (\<forall>m. name_taken v m d \<longrightarrow> name_taken v m (fold (insert_ignore v) ns d))"
proof (induction ns arbitrary: d)
  case (Cons n ns)
  have "name_taken v m d \<Longrightarrow> name_taken v m (insert_ignore v n d)" for m by (simp add: insert_ignore_def name_taken_add)
  then show ?case using Cons.IH [of "insert_ignore v n d"] insert_ignore_taken [OF assms, of n d] by simp
qed simp

lemma insert_ignores_frame:
  "\<exists>new. td_tags (fold (insert_ignore v) ns d) = td_tags d @ new \<and> t_name ` set new \<subseteq> set ns
     \<and> (\<forall>t \<in> set new. \<not> name_taken v (t_name t) d) \<and> td_pd (fold (insert_ignore v) ns d) = td_pd d"
proof (induction ns arbitrary: d)
  case (Cons n ns)
  obtain new where new: "td_tags (fold (insert_ignore v) ns (insert_ignore v n d)) = td_tags (insert_ignore v n d) @ new"
      "t_name ` set new \<subseteq> set ns" "\<forall>t \<in> set new. \<not> name_taken v (t_name t) (insert_ignore v n d)"
      "td_pd (fold (insert_ignore v) ns (insert_ignore v n d)) = td_pd (insert_ignore v n d)"
    using Cons.IH [of "insert_ignore v n d"] by blast
  show ?case
  proof (cases "name_taken v n d")
    case True
    then have "insert_ignore v n d = d" by (simp add: insert_ignore_def)
    then show ?thesis using new by (intro exI [of _ new]) auto
  next
    case False
    then have add: "insert_ignore v n d = add_tag n d" by (simp add: insert_ignore_def)
    let ?t = "\<lparr>t_id = td_next d, t_name = n\<rparr>"
    have "\<forall>t \<in> set new. \<not> name_taken v (t_name t) d" using new(3) name_taken_add unfolding add by blast
    then show ?thesis using new False by (intro exI [of _ "?t # new"]) (auto simp: add)
  qed
qed simp

lemma resolve_names: "resolve found ns = Inr ret \<Longrightarrow> map t_name ret = ns \<and> set ret \<subseteq> set found"
  by (induction ns arbitrary: ret) (auto split: option.splits sum.splits simp: find_Some_iff)

lemma resolve_succeeds: "(\<exists>ret. resolve found ns = Inr ret) \<longleftrightarrow> (\<forall>n \<in> set ns. \<exists>t \<in> set found. t_name t = n)"
proof (induction ns)
  case (Cons n ns)
  show ?case
  proof (cases "List.find (\<lambda>t. t_name t = n) found")
    case None
    then have "\<not> (\<exists>t \<in> set found. t_name t = n)" by (auto simp: find_None_iff)
    then show ?thesis using None by simp
  next
    case (Some t)
    then have "t \<in> set found \<and> t_name t = n" by (auto simp: find_Some_iff)
    then show ?thesis using Some Cons.IH by (auto split: sum.splits)
  qed
qed simp

lemma stored_spelling:
  assumes "tags_ok eq d" and "collation eq" and "\<exists>t \<in> set (td_tags d). eq (t_name t) n"
  shows "(\<exists>t \<in> set (td_tags d). t_name t = n) \<longleftrightarrow> (\<forall>t \<in> set (td_tags d). eq (t_name t) n \<longrightarrow> t_name t = n)"
proof -
  have "t = u" if "t \<in> set (td_tags d)" "u \<in> set (td_tags d)" "t_name t = n" "eq (t_name u) n" for t u
  proof -
    have "t_id t = t_id u" using that assms(1) collation_flip [OF assms(2)] unfolding tags_ok_def by blast
    moreover have "inj_on t_id (set (td_tags d))" using assms(1) by (simp add: tags_ok_def distinct_map)
    ultimately show ?thesis using that(1,2) by (simp add: inj_on_eq_iff)
  qed
  then show ?thesis using assms(3) by metis
qed

text \<open>
  Resolving names that are all well-formed, on a database that answers: the names that no tag has are added,
  in the spelling given, and nothing else changes; the call returns one row per name, in order, each
  with exactly that name. It does so exactly if no tag (after the additions) has one of the names in
  another spelling; otherwise it reports an error, although the additions have been made.
\<close>

theorem resolver_outcome:
  assumes "trim_all names = Inr ts" and "names \<noteq> []" and "dv_acquire v = None" and "\<forall>k. dv_fault v k = None"
    and "collation (dv_eq v)" and "tags_ok (dv_eq v) d" and "find_or_create_many v names d = (r, d')"
  shows "(\<exists>new. td_tags d' = td_tags d @ new \<and> t_name ` set new \<subseteq> set ts \<and> (\<forall>t \<in> set new. \<not> name_taken v (t_name t) d))
    \<and> td_pd d' = td_pd d \<and> (\<forall>n \<in> set ts. name_taken v n d')
    \<and> (\<forall>ret. r = Inr ret \<longrightarrow> map t_name ret = ts \<and> set ret \<subseteq> set (td_tags d'))
    \<and> ((\<exists>ret. r = Inr ret) \<longleftrightarrow> (\<forall>n \<in> set ts. \<forall>t \<in> set (td_tags d'). dv_eq v (t_name t) n \<longrightarrow> t_name t = n))"
proof -
  let ?found = "filter (\<lambda>t. \<exists>n \<in> set ts. dv_eq v (t_name t) n) (td_tags d')"
  have d': "d' = fold (insert_ignore v) ts d" and r: "r = resolve ?found ts"
    using assms(1-4,7) by (auto simp: find_or_create_many_def tag_conn_def tag_sql_def)
  have all_taken: "\<forall>n \<in> set ts. name_taken v n d'" using insert_ignores_taken [OF assms(5)] by (simp add: d')
  have ok: "tags_ok (dv_eq v) d'" unfolding d' by (rule insert_ignores_ok [OF assms(6,5)])
  have refl: "dv_eq v n n" for n by (rule collation_refl [OF assms(5)])
  have "(\<exists>ret. r = Inr ret) \<longleftrightarrow> (\<forall>n \<in> set ts. \<exists>t \<in> set (td_tags d'). t_name t = n)"
    unfolding r resolve_succeeds by (simp, metis refl)
  also have "\<dots> \<longleftrightarrow> (\<forall>n \<in> set ts. \<forall>t \<in> set (td_tags d'). dv_eq v (t_name t) n \<longrightarrow> t_name t = n)"
    using stored_spelling [OF ok assms(5)] all_taken unfolding name_taken_def by blast
  finally show ?thesis using insert_ignores_frame [of v ts d] all_taken resolve_names [of ?found ts] r
    unfolding d' [symmetric] by auto
qed

theorem resolver_outcome_witness:
  "\<not> (\<exists>ret. fst (find_or_create_many tag_demo_env ['' new '', ''DP''] (add_tag ''dp'' no_tags)) = Inr ret)
   \<and> map t_name (td_tags (snd (find_or_create_many tag_demo_env ['' new '', ''DP''] (add_tag ''dp'' no_tags)))) = [''dp'', ''new'']"
proof
  let ?d = "add_tag ''dp'' no_tags" and ?ns = "['' new '', ''DP'']"
  let ?r = "find_or_create_many tag_demo_env ?ns ?d"
  have tags: "td_tags (snd ?r) = [\<lparr>t_id = 1, t_name = ''dp''\<rparr>, \<lparr>t_id = 2, t_name = ''new''\<rparr>]" by code_simp
  then show "map t_name (td_tags (snd ?r)) = [''dp'', ''new'']" by simp
  have ts: "trim_all ?ns = Inr [''new'', ''DP'']" by code_simp
  have env: "dv_acquire tag_demo_env = None" "\<forall>k. dv_fault tag_demo_env k = None" "collation (dv_eq tag_demo_env)"
    by (simp_all add: tag_demo_env_def no_case_collation)
  have "tags_ok (dv_eq tag_demo_env) no_tags" by (simp add: tags_ok_def no_tags_def links_def one_problem_def no_problems_def)
  then have ok: "tags_ok (dv_eq tag_demo_env) ?d" using env(3) by (rule tags_ok_add) (simp add: no_tags_def)
  have clash: "dv_eq tag_demo_env ''dp'' ''DP''" by code_simp
  show "\<not> (\<exists>ret. fst ?r = Inr ret)"
    using resolver_outcome [OF ts _ env ok prod.collapse [symmetric]] clash unfolding tags by simp
qed

end
