(* ===== verification/Auth_Sessions.thy ===== *)
theory Auth_Sessions
  imports Auth_Routes
begin

text \<open>
  Properties of the handlers of \<^verbatim>\<open>src/routes/auth_routes.h\<close> that make up a session: registration, login,
  refresh and logout, across the components they call. The operations are those of Auth_Routes.
\<close>

section \<open>Refresh\<close>

lemma refresh_with_200:
  assumes "refresh_with ops n cfg presented res s = (Inr (), res', s')" and "rsp_status res' = 200"
  obtains c i row tokens where
    "verify (an_lib n) (an_verify1 n) (an_verify2 n) presented (jc_secret (ac_jwt cfg)) (jc_issuer (ac_jwt cfg)) Refresh = Inr c"
    "stoi (user_id c) = Some i" "0 < i" "find_user_by_id (an_db n 0) i (as_users s) = Inr (Some row)"
    "rotate_token_pair ops (an_lib n) (an_rotate n) (jc_secret (ac_jwt cfg)) (jc_issuer (ac_jwt cfg)) presented
       (u_username row) (u_role row) (ac_access_ttl cfg) (ac_refresh_ttl cfg) (as_store s) = (Inr tokens, as_store s')"
    "res' = send_success (an_rid n)
       (session_json (u_id row) (u_username row) (u_role row) (u_email row) tokens (an_expires_now n))
       (set_refresh_cookie cfg (refresh_token tokens) res)"
    "s' = s\<lparr>as_store := as_store s'\<rparr>"
proof -
  obtain c i row where a:
    "verify (an_lib n) (an_verify1 n) (an_verify2 n) presented (jc_secret (ac_jwt cfg)) (jc_issuer (ac_jwt cfg)) Refresh = Inr c"
    "stoi (user_id c) = Some i" "0 < i" "find_user_by_id (an_db n 0) i (as_users s) = Inr (Some row)"
    "refresh_rotate ops n cfg presented row res s = (Inr (), res', s')"
    using assms
    by (auto simp: refresh_with_def refresh_denied_def internal_error_def done_with_def
        split: sum.splits option.splits if_splits)
  obtain r st where rot: "rotate_token_pair ops (an_lib n) (an_rotate n) (jc_secret (ac_jwt cfg)) (jc_issuer (ac_jwt cfg)) presented
       (u_username row) (u_role row) (ac_access_ttl cfg) (ac_refresh_ttl cfg) (as_store s) = (r, st)" by fastforce
  then show thesis
    using that [OF a(1-4)] a(5) assms(2)
    by (cases r) (auto simp: refresh_rotate_def refresh_denied_def internal_error_def done_with_def Let_def split: rt_error.splits)
qed

lemma refresh_handler_200:
  assumes "refresh_handler ops n cfg req res s = (Inr (), res', s')" and "rsp_status res' = 200"
  obtains b res1 where "extract_refresh_token req cfg b \<noteq> []"
    "\<forall>t. b = Some t \<longrightarrow> (\<exists>v. an_parse n (req_body req) = Returns v \<and> get_member v ''refresh_token'' = Some (JStr t))"
    "refresh_with ops n cfg (extract_refresh_token req cfg b) res1 s = (Inr (), res', s')"
proof -
  obtain j res1 where p: "parse_json_body (an_parse n) (an_rid n) req res = (j, res1)" by fastforce
  have src: "an_parse n (req_body req) = Returns v" if "j = Some v" for v using p that parse_json_body_Some by blast
  have mem: "get_member v ''refresh_token'' = Some (JStr t)" if "parse_refresh_request v = Inr t" for v t
    using that by (auto simp: parse_refresh_request_def split: option.splits if_splits elim!: str_value.elims)
  from p show thesis
    using assms that [of _ res1] src mem
    by (auto simp: refresh_handler_def refresh_denied_def done_with_def Let_def
        split: sum.splits option.splits if_splits)
qed

lemma extract_refresh_token_source:
  "extract_refresh_token req cfg b = t \<Longrightarrow> t \<noteq> [] \<Longrightarrow>
     t = get_cookie_value (get_header_value req ''Cookie'') (ck_name (ac_cookie cfg))
     \<or> get_cookie_value (get_header_value req ''Cookie'') (ck_name (ac_cookie cfg)) = []
       \<and> ac_allow_body_fallback cfg \<and> b = Some t"
  by (auto simp: extract_refresh_token_def Let_def split: if_splits option.splits)

text \<open>
  C27. What a successful refresh requires and does: the token comes from the refresh cookie, or from the
  body if there is no cookie and the configuration allows it; it verifies as a refresh token; the user
  its subject names still exists, and the new tokens, made by rotating the old one, carry the name and the
  role that user has now in the database. Nothing but the revocation store changes.
\<close>

theorem refresh_sound:
  assumes "refresh_handler ops n cfg req res s = (Inr (), res', s')" and "rsp_status res' = 200"
  shows "\<exists>t c i row tokens.
      (t = get_cookie_value (get_header_value req ''Cookie'') (ck_name (ac_cookie cfg))
       \<or> get_cookie_value (get_header_value req ''Cookie'') (ck_name (ac_cookie cfg)) = [] \<and> ac_allow_body_fallback cfg
         \<and> (\<exists>v. an_parse n (req_body req) = Returns v \<and> get_member v ''refresh_token'' = Some (JStr t)))
    \<and> verify (an_lib n) (an_verify1 n) (an_verify2 n) t (jc_secret (ac_jwt cfg)) (jc_issuer (ac_jwt cfg)) Refresh = Inr c
    \<and> stoi (user_id c) = Some i \<and> find_user_by_id (an_db n 0) i (as_users s) = Inr (Some row)
    \<and> rotate_token_pair ops (an_lib n) (an_rotate n) (jc_secret (ac_jwt cfg)) (jc_issuer (ac_jwt cfg)) t
        (u_username row) (u_role row) (ac_access_ttl cfg) (ac_refresh_ttl cfg) (as_store s) = (Inr tokens, as_store s')
    \<and> rsp_content res' = Some (make_success_envelope (an_rid n)
        (session_json (u_id row) (u_username row) (u_role row) (u_email row) tokens (an_expires_now n)), kJsonContentType)
    \<and> s' = s\<lparr>as_store := as_store s'\<rparr>"
proof -
  from assms obtain b res1 where b: "extract_refresh_token req cfg b \<noteq> []"
    "\<forall>t. b = Some t \<longrightarrow> (\<exists>v. an_parse n (req_body req) = Returns v \<and> get_member v ''refresh_token'' = Some (JStr t))"
    "refresh_with ops n cfg (extract_refresh_token req cfg b) res1 s = (Inr (), res', s')"
    by (rule refresh_handler_200)
  from b(3) assms(2) obtain c i row tokens where
    "verify (an_lib n) (an_verify1 n) (an_verify2 n) (extract_refresh_token req cfg b) (jc_secret (ac_jwt cfg)) (jc_issuer (ac_jwt cfg)) Refresh = Inr c"
    "stoi (user_id c) = Some i" "find_user_by_id (an_db n 0) i (as_users s) = Inr (Some row)"
    "rotate_token_pair ops (an_lib n) (an_rotate n) (jc_secret (ac_jwt cfg)) (jc_issuer (ac_jwt cfg)) (extract_refresh_token req cfg b)
       (u_username row) (u_role row) (ac_access_ttl cfg) (ac_refresh_ttl cfg) (as_store s) = (Inr tokens, as_store s')"
    "res' = send_success (an_rid n)
       (session_json (u_id row) (u_username row) (u_role row) (u_email row) tokens (an_expires_now n))
       (set_refresh_cookie cfg (refresh_token tokens) res1)"
    "s' = s\<lparr>as_store := as_store s'\<rparr>"
    by (rule refresh_with_200)
  moreover have "rsp_content res' = Some (make_success_envelope (an_rid n)
        (session_json (u_id row) (u_username row) (u_role row) (u_email row) tokens (an_expires_now n)), kJsonContentType)"
    using calculation by simp
  ultimately show ?thesis
    using extract_refresh_token_source [OF refl b(1)] b(2)
    by (intro exI [of _ "extract_refresh_token req cfg b"] exI [of _ c] exI [of _ i] exI [of _ row] exI [of _ tokens]) blast
qed


definition cookie_req :: "string \<Rightarrow> string \<Rightarrow> http_request" where
  "cookie_req body cookies = \<lparr>req_body = body, remote_addr = ''10.0.0.1'',
     req_header = (\<lambda>h. if h = ''Cookie'' then Some cookies else None)\<rparr>"

theorem refresh_sound_witness:
  "\<exists>t c (i :: int) (row :: UserRow).
      t = get_cookie_value ''lc_refresh=ref'' ''lc_refresh''
    \<and> verify (table_lib Jwt_Utils.demo_table) 2000000000 2000000000 t demo_secret ''litecode'' Refresh = Inr c
    \<and> stoi (user_id c) = Some i \<and> find_user_by_id demo_env i (as_users (alice_state [])) = Inr (Some row)"
proof -
  let ?n = "demo_auth_env JNull" and ?r = "cookie_req [] ''lc_refresh=ref''"
  let ?h = "refresh_handler mem_ops ?n demo_auth_cfg ?r demo_res (alice_state [])"
  have "case ?h of (r, res, s) \<Rightarrow> r = Inr () \<and> rsp_status res = 200" by code_simp
  then have "?h = (Inr (), fst (snd ?h), snd (snd ?h))" "rsp_status (fst (snd ?h)) = 200" by (simp_all add: prod_eq_iff case_prod_beta)
  from refresh_sound [OF this] show ?thesis
    by (auto simp: demo_auth_env_def demo_auth_cfg_def dev_cookie_def cookie_req_def get_header_value_def)
qed

section \<open>Logout\<close>

lemma success_envelope_inj: "make_success_envelope rid d = make_success_envelope rid d' \<longleftrightarrow> d = d'"
  by (auto simp: make_success_envelope_def Let_def split: option.splits)

lemma logout_revokes:
  assumes "logout_handler ops n cfg req res s = (Inr (), res1, s1)" and "rsp_status res1 = 200"
    and "rsp_content res1 = Some (make_success_envelope (an_rid n)
           (JObj [(''logged_out'', JBool True), (''revoked'', JBool True)]), kJsonContentType)"
    and "get_cookie_value (get_header_value req ''Cookie'') (ck_name (ac_cookie cfg)) = t" and "t \<noteq> []"
  obtains c r where "require_authentication (an_lib n) (an_verify1 n) (an_verify2 n) req (ac_jwt cfg) = Inr c"
    "revoke_refresh_token ops (an_lib n) (an_rotate n) t (jc_secret (ac_jwt cfg)) (jc_issuer (ac_jwt cfg))
      (ac_refresh_ttl cfg) (user_id c) (as_store s) = (Inr r, as_store s1)" "ro_revoked r"
proof -
  have x: "extract_refresh_token req cfg b = t" for b using assms(4,5) by (simp add: extract_refresh_token_def)
  obtain c b res2 where "require_authentication (an_lib n) (an_verify1 n) (an_verify2 n) req (ac_jwt cfg) = Inr c"
    "logout_with ops n cfg req c b res2 s = (Inr (), res1, s1)"
    using assms(1,2) parse_json_body_status
    by (fastforce simp: logout_handler_def done_with_def Let_def split: sum.splits option.splits prod.splits if_splits)
  then show thesis
    using that assms(3,5) by (auto simp: logout_with_def x done_with_def Let_def success_envelope_inj split: prod.splits sum.splits)
qed

lemma revoke_refresh_token_True:
  assumes "revoke_refresh_token ops L e t secret issuer mx u s = (Inr r, s')" and "ro_revoked r"
    and "verify L (re_check e) (re_final e) t secret issuer Refresh = Inr c"
  shows "s' = so_revoke ops (re_revoke1 e) (re_revoke2 e) (jti c)
      (if mx > 0 \<and> remaining_seconds c (re_now e) > mx then mx else remaining_seconds c (re_now e)) s"
    and "u = [] \<or> user_id c = u"
  using assms by (auto simp: revoke_refresh_token_def Let_def split: if_splits)

text \<open>How long a logout keeps a token blacklisted: until it expires, at most the configured lifetime.\<close>

definition logout_seconds :: "auth_env \<Rightarrow> auth_config \<Rightarrow> Claims \<Rightarrow> int" where
  "logout_seconds n cfg c =
     (let r = remaining_seconds c (re_now (an_rotate n)) in
      if ac_refresh_ttl cfg > 0 \<and> r > ac_refresh_ttl cfg then ac_refresh_ttl cfg else r)"

text \<open>
  C12. Logout ends the session: once a logout has answered that it revoked the token of the refresh
  cookie, no refresh with that cookie succeeds for the whole seconds the token had left, whatever
  happens to the rest of the state and whatever revocations, queries and sweeps other requests
  perform in between while the store has room. The token belonged to the user who logged out.
\<close>

theorem logout_ends_session:
  assumes "logout_handler mem_ops n cfg req res s = (Inr (), res1, s1)" and "rsp_status res1 = 200"
    and "rsp_content res1 = Some (make_success_envelope (an_rid n)
           (JObj [(''logged_out'', JBool True), (''revoked'', JBool True)]), kJsonContentType)"
    and "get_cookie_value (get_header_value req ''Cookie'') (ck_name (ac_cookie cfg)) = t" and "t \<noteq> []"
    and "verify (an_lib n) (re_check (an_rotate n)) (re_final (an_rotate n)) t
           (jc_secret (ac_jwt cfg)) (jc_issuer (ac_jwt cfg)) Refresh = Inr c"
    and "jti c \<noteq> []" and "1 \<le> logout_seconds n cfg c"
    and "mem_inv (as_store s)" and "\<not> fst (is_revoked (re_revoke2 (an_rotate n)) (jti c) (as_store s))"
    and "calm mem_ops mem_room (re_revoke1 (an_rotate n) + logout_seconds n cfg c * ns_per_s) xs (as_store s1)"
    and "as_store s2 = run_ops mem_ops xs (as_store s1)"
    and "get_cookie_value (get_header_value req' ''Cookie'') (ck_name (ac_cookie cfg)) = t" and "an_lib n' = an_lib n"
    and "re_query (an_rotate n') < re_revoke1 (an_rotate n) + logout_seconds n cfg c * ns_per_s"
    and "refresh_handler mem_ops n' cfg req' res' s2 = (Inr (), res2, s3)"
  shows "rsp_status res2 \<noteq> 200
    \<and> (\<exists>a. require_authentication (an_lib n) (an_verify1 n) (an_verify2 n) req (ac_jwt cfg) = Inr a
          \<and> (user_id a = [] \<or> user_id c = user_id a))"
proof -
  from assms(1-5) obtain a r where a: "require_authentication (an_lib n) (an_verify1 n) (an_verify2 n) req (ac_jwt cfg) = Inr a"
    and rv: "revoke_refresh_token mem_ops (an_lib n) (an_rotate n) t (jc_secret (ac_jwt cfg)) (jc_issuer (ac_jwt cfg))
      (ac_refresh_ttl cfg) (user_id a) (as_store s) = (Inr r, as_store s1)" "ro_revoked r"
    by (rule logout_revokes)
  note rt = revoke_refresh_token_True [OF rv assms(6)]
  let ?e = "an_rotate n"
  have s1: "as_store s1 = so_revoke mem_ops (re_revoke1 ?e) (re_revoke2 ?e) (jti c) (logout_seconds n cfg c) (as_store s)"
    using rt(1) by (simp add: logout_seconds_def Let_def)
  have "case mem_until (as_store s) (jti c) of None \<Rightarrow> True | Some x \<Rightarrow> x \<le> re_revoke2 ?e"
    using mem.query_result [OF assms(9,7), of "re_revoke2 ?e"] assms(10) by (auto simp: mem_ops_def split: option.splits)
  then have "fst (so_is_revoked mem_ops (re_query (an_rotate n')) (jti c) (as_store s2))"
    unfolding assms(12) s1 using assms(7-9,15) assms(11) [unfolded s1] by (intro mem.revoked_stays)
  then have no: "fst (rotate_token_pair mem_ops (an_lib n') (an_rotate n') (jc_secret (ac_jwt cfg)) (jc_issuer (ac_jwt cfg)) t
       un ur (ac_access_ttl cfg) (ac_refresh_ttl cfg) (as_store s2)) \<noteq> Inr p" for un ur p
    unfolding assms(14) by (rule rotate_revoked [OF assms(6)])
  have x: "extract_refresh_token req' cfg b = t" for b using assms(5,13) by (simp add: extract_refresh_token_def)
  have "rsp_status res2 \<noteq> 200"
  proof
    assume 200: "rsp_status res2 = 200"
    with assms(16) obtain b r1 where "refresh_with mem_ops n' cfg (extract_refresh_token req' cfg b) r1 s2 = (Inr (), res2, s3)"
      by (rule refresh_handler_200)
    then have "refresh_with mem_ops n' cfg t r1 s2 = (Inr (), res2, s3)" by (simp add: x)
    then show False using 200 by (rule refresh_with_200) (metis no fst_conv)
  qed
  then show ?thesis using a rt(2) by blast
qed


definition session_req :: http_request where
  "session_req = \<lparr>req_body = [], remote_addr = ''10.0.0.1'',
     req_header = (\<lambda>h. if h = ''Cookie'' then Some ''lc_refresh=ref'' else if h = ''Authorization'' then Some ''Bearer acc'' else None)\<rparr>"

definition ref_claims :: Claims where
  "ref_claims = \<lparr>user_id = ''7'', username = [], role = [], kind = Refresh, issued_at = 1000000000,
     expires_at = 3601000000000, jti = ''j2''\<rparr>"

theorem logout_ends_session_witness:
  "let n = demo_auth_env JNull;
       s1 = snd (snd (logout_handler mem_ops n demo_auth_cfg session_req demo_res (alice_state [])))
   in rsp_status (fst (snd (refresh_handler mem_ops n demo_auth_cfg session_req demo_res s1))) \<noteq> 200"
proof -
  let ?n = "demo_auth_env JNull"
  let ?h = "logout_handler mem_ops ?n demo_auth_cfg session_req demo_res (alice_state [])"
  let ?g = "refresh_handler mem_ops ?n demo_auth_cfg session_req demo_res (snd (snd ?h))"
  have h: "fst ?h = Inr ()
     \<and> rsp_status (fst (snd ?h)) = 200
     \<and> rsp_content (fst (snd ?h)) = Some (make_success_envelope (an_rid ?n)
           (JObj [(''logged_out'', JBool True), (''revoked'', JBool True)]), kJsonContentType)
     \<and> get_cookie_value (get_header_value session_req ''Cookie'') (ck_name (ac_cookie demo_auth_cfg)) = ''ref''
     \<and> verify (an_lib ?n) (re_check (an_rotate ?n)) (re_final (an_rotate ?n)) ''ref''
           (jc_secret (ac_jwt demo_auth_cfg)) (jc_issuer (ac_jwt demo_auth_cfg)) Refresh = Inr ref_claims
     \<and> jti ref_claims \<noteq> []
     \<and> logout_seconds ?n demo_auth_cfg ref_claims = 3599
     \<and> \<not> fst (is_revoked (re_revoke2 (an_rotate ?n)) (jti ref_claims) (as_store (alice_state [])))
     \<and> fst ?g = Inr ()
     \<and> re_query (an_rotate ?n) < re_revoke1 (an_rotate ?n) + 3599 * ns_per_s"
    by code_simp
  have "?h = (Inr (), fst (snd ?h), snd (snd ?h))" "?g = (Inr (), fst (snd ?g), snd (snd ?g))"
    using h by (simp_all add: prod_eq_iff)
  moreover have "mem_inv (as_store (alice_state []))"
    by (simp add: mem_inv_def alice_state_def demo_state_def new_mem_store_def)
  ultimately have "rsp_status (fst (snd ?g)) \<noteq> 200"
    using logout_ends_session [of ?n demo_auth_cfg session_req demo_res "alice_state []" "fst (snd ?h)" "snd (snd ?h)" "''ref''"
        ref_claims "[]" "snd (snd ?h)" session_req ?n demo_res "fst (snd ?g)" "snd (snd ?g)"] h
    by simp
  then show ?thesis by (simp add: Let_def)
qed


section \<open>Registration, then login\<close>

definition register_request_of :: "auth_env \<Rightarrow> http_request \<Rightarrow> RegisterRequest option" where
  "register_request_of n req =
     (if req_body req = [] then None
      else case an_parse n (req_body req) of
             Throws _ \<Rightarrow> None
           | Returns j \<Rightarrow> (case parse_register_request j of Inl _ \<Rightarrow> None | Inr r \<Rightarrow> Some r))"

lemma find_user_by_name_calm:
  "calm_env v \<Longrightarrow> find_user_by_name v u d = Inr (List.find (\<lambda>r. dv_eq v (u_username r) u) (ud_users d))"
  by (simp add: find_user_by_name_def query_calm)

lemma register_conflict_status: "register_conflict n q res s = (Inr (), res', s') \<Longrightarrow> rsp_status res' = 409"
  by (auto simp: register_conflict_def done_with_def split: sum.splits option.splits if_splits)

definition registered_row :: "RegisterRequest \<Rightarrow> string \<Rightarrow> UserRow" where
  "registered_row q h = \<lparr>u_id = 0, u_username = rr_username q, u_display_name = None, u_password_hash = h, u_role = ''user'',
     u_token_version = 0, u_email = rr_email q, u_school = None, u_bio = None, u_avatar = None,
     u_created_at = [], u_last_login = None, u_last_login_ip = None, u_username_changed_at = None\<rparr>"

lemma register_handler_eq:
  assumes "register_request_of n req = Some q" and "hash_password (rr_password q) (an_salt_opened n) (an_salt_reads n) = Inr h"
    and "create_user (an_db n 0) (registered_row q h) (as_users s) = Inr (i, d)"
  shows "register_handler n cfg req res s = (if i = 0 then register_conflict n q res (s\<lparr>as_users := d\<rparr>)
        else case issue_session n cfg i (rr_username q) ''user'' of
          Inl e \<Rightarrow> done_with (send_error (an_rid n) 500 INTERNAL_ERROR
            (''user created but session could not be issued: '' @ rt_what e) JNull res) (s\<lparr>as_users := d\<rparr>)
        | Inr tokens \<Rightarrow> done_with (send_created (an_rid n)
            (session_json i (rr_username q) ''user'' (rr_email q) tokens (an_expires_now n))
            (set_refresh_cookie cfg (refresh_token tokens) res)) (s\<lparr>as_users := d\<rparr>))"
proof -
  obtain j where "parse_json_body (an_parse n) (an_rid n) req res = (Some j, res)" "parse_register_request j = Inr q"
    using assms(1) by (auto simp: register_request_of_def parse_json_body_def split: if_splits outcome.splits sum.splits)
  then show ?thesis
    using assms(2,3) by (simp add: register_handler_def registered_row_def Let_def cong: sum.case_cong)
qed

lemma register_201:
  assumes "register_handler n cfg req res s = (Inr (), res', s')" and "rsp_status res' = 201"
  obtains q h i d tokens where "register_request_of n req = Some q"
    "hash_password (rr_password q) (an_salt_opened n) (an_salt_reads n) = Inr h"
    "create_user (an_db n 0) (registered_row q h) (as_users s) = Inr (i, d)" "i \<noteq> 0" "s' = s\<lparr>as_users := d\<rparr>"
    "issue_session n cfg i (rr_username q) ''user'' = Inr tokens"
    "res' = send_created (an_rid n) (session_json i (rr_username q) ''user'' (rr_email q) tokens (an_expires_now n))
        (set_refresh_cookie cfg (refresh_token tokens) res)"
proof -
  obtain jo res1 where p: "parse_json_body (an_parse n) (an_rid n) req res = (jo, res1)" by fastforce
  then obtain j where j: "jo = Some j"
    using assms parse_json_body_status by (cases jo) (auto simp: register_handler_def done_with_def)
  then have r: "res1 = res" "an_parse n (req_body req) = Returns j" "req_body req \<noteq> []"
    using p by (auto simp: parse_json_body_def split: if_splits outcome.splits)
  then obtain q where q: "parse_register_request j = Inr q"
    using assms p j by (cases "parse_register_request j") (auto simp: register_handler_def done_with_def)
  then have rq: "register_request_of n req = Some q" using r by (simp add: register_request_of_def)
  obtain h where h: "hash_password (rr_password q) (an_salt_opened n) (an_salt_reads n) = Inr h"
    using assms p j q by (cases "hash_password (rr_password q) (an_salt_opened n) (an_salt_reads n)")
      (auto simp: register_handler_def)
  obtain i d where c: "create_user (an_db n 0) (registered_row q h) (as_users s) = Inr (i, d)"
    using assms p j r q h by (cases "create_user (an_db n 0) (registered_row q h) (as_users s)")
      (auto simp: register_handler_def done_with_def Let_def registered_row_def)
  note k = register_handler_eq [OF rq h c, of cfg res, unfolded assms(1)]
  have i: "i \<noteq> 0"
    using k assms(2) register_conflict_status [of n q res "s\<lparr>as_users := d\<rparr>" res' s'] by (auto split: if_splits)
  then obtain tokens where "issue_session n cfg i (rr_username q) ''user'' = Inr tokens"
    using k assms(2) by (auto simp: done_with_def split: sum.splits)
  then show thesis using k i by (intro that [OF rq h c i, of tokens]) (simp_all add: done_with_def)
qed

text \<open>
  C34. A user who has registered can log in: after a registration was answered with 201, a login with the
  same password and any spelling of the name that the collation of the database identifies with the
  registered one is answered with 200 for the id the registration reported, with the role user, unless
  the gate of the failure tracker is closed for that spelling, the server fails or the tokens cannot
  be signed.
\<close>

theorem register_then_login:
  assumes "register_handler n cfg req res s = (Inr (), res', s1)" and "rsp_status res' = 201"
    and "calm_env (an_db n 0)" and "users_ok (dv_eq (an_db n 0)) (as_users s)"
    and "register_request_of n req = Some q"
    and "login_request_of m req2 = Some r" and "lr_password r = rr_password q"
    and "dv_eq (an_db n 0) (rr_username q) (lr_username r)"
    and "calm_env (an_db m 0)" and "dv_eq (an_db m 0) = dv_eq (an_db n 0)" and "dv_acquire (an_db m 3) = None"
    and "\<not> login_gate_closed m (lr_username r) s1"
    and "issue_session m cfg (ud_next (as_users s)) (rr_username q) ''user'' = Inr tokens"
  shows "(\<exists>t. rsp_content res' = Some (make_success_envelope (an_rid n)
        (session_json (ud_next (as_users s)) (rr_username q) ''user'' (rr_email q) t (an_expires_now n)), kJsonContentType))
    \<and> (\<exists>s2. login_handler m cfg ip req2 res2 s1 = (Inr (), send_success (an_rid m)
        (session_json (ud_next (as_users s)) (rr_username q) ''user'' (rr_email q) tokens (an_expires_now m))
        (set_refresh_cookie cfg (refresh_token tokens) res2), s2))"
proof -
  from assms(1,2) obtain q' h i d t where g: "register_request_of n req = Some q'"
    "hash_password (rr_password q') (an_salt_opened n) (an_salt_reads n) = Inr h"
    "create_user (an_db n 0) (registered_row q' h) (as_users s) = Inr (i, d)" "i \<noteq> 0" "s1 = s\<lparr>as_users := d\<rparr>"
    "res' = send_created (an_rid n) (session_json i (rr_username q') ''user'' (rr_email q') t (an_expires_now n))
        (set_refresh_cookie cfg (refresh_token t) res)" by (rule register_201)
  then have [simp]: "q' = q" using assms(5) by simp
  obtain x where x: "i = ud_next (as_users s)" "u_id x = i" "u_username x = rr_username q" "u_password_hash x = h"
    "u_email x = rr_email q" "u_role x = ''user''"
    "find_user_by_name (an_db n 0) (lr_username r) d = Inr (Some x)"
    using create_user_cases [OF assms(3,4), of "registered_row q h"] g assms(8) by (auto simp: registered_row_def split: if_splits)
  have "find_user_by_name (an_db m 0) (lr_username r) (as_users s1) = Inr (Some x)"
    using x(7) assms(3,9,10) g(5) by (simp add: find_user_by_name_calm)
  moreover have "verify_password (lr_password r) (u_password_hash x)"
    using hash_verifies(1) [OF g(2)] assms(7) x(4) by simp
  ultimately have "\<exists>s2. login_handler m cfg ip req2 res2 s1 = (Inr (), send_success (an_rid m)
      (session_json (u_id x) (u_username x) (u_role x) (u_email x) tokens (an_expires_now m))
      (set_refresh_cookie cfg (refresh_token tokens) res2), s2)"
    using assms(6,11-13) x by (intro login_grants [where r = r and row = x]) simp_all
  then show ?thesis using x g(6) by auto
qed


definition reg_table :: token_table where
  "reg_table =
     [(''acc'', demo_secret, access_builder 1500000000 ''j1'' ''litecode'' ''7'' ''carol'' ''user'' 60),
      (''ref'', demo_secret, refresh_builder 1500000000 ''j2'' ''litecode'' ''7'' 3600)]"

definition reg_env :: "string \<Rightarrow> auth_env" where
  "reg_env u = (demo_auth_env (demo_body u ''passw0rd''))\<lparr>an_lib := table_lib reg_table\<rparr>"

definition reg_state :: "mem_store auth_state" where
  "reg_state = demo_state\<lparr>as_users := \<lparr>ud_users = [], ud_next = 7, ud_history = []\<rparr>\<rparr>"

theorem register_then_login_witness:
  "\<exists>res' s1 s2. register_handler (reg_env ''carol'') demo_auth_cfg demo_req demo_res reg_state = (Inr (), res', s1)
     \<and> rsp_status res' = 201
     \<and> login_handler (reg_env ''CAROL'') demo_auth_cfg [] demo_req demo_res s1 =
        (Inr (), send_success None (session_json 7 ''carol'' ''user'' None alice_tokens 1500000000)
           (set_refresh_cookie demo_auth_cfg ''ref'' demo_res), s2)"
proof -
  let ?n = "reg_env ''carol''" and ?m = "reg_env ''CAROL''"
  let ?q = "\<lparr>rr_username = ''carol'', rr_password = ''passw0rd'', rr_email = None\<rparr>"
  let ?r = "\<lparr>lr_username = ''CAROL'', lr_password = ''passw0rd''\<rparr>"
  have c: "register_request_of ?n demo_req = Some ?q \<and> login_request_of ?m demo_req = Some ?r
      \<and> dv_eq demo_env ''carol'' ''CAROL''
      \<and> issue_session ?n demo_auth_cfg 7 ''carol'' ''user'' = Inr alice_tokens
      \<and> issue_session ?m demo_auth_cfg 7 ''carol'' ''user'' = Inr alice_tokens" by code_simp
  have env [simp]: "an_db (reg_env u) k = demo_env" "an_salt_opened (reg_env u)" "an_salt_reads (reg_env u) = [ReadBytes (replicate 16 5)]"
    "an_rid (reg_env u) = None" "an_expires_now (reg_env u) = 1500000000" for u k
    by (simp_all add: reg_env_def demo_auth_env_def)
  obtain h where h: "hash_password (rr_password ?q) (an_salt_opened ?n) (an_salt_reads ?n) = Inr h" using demo_hash_exists by auto
  have ok: "users_ok (dv_eq demo_env) (as_users reg_state)" by (simp add: reg_state_def users_ok_def)
  obtain d where d: "create_user (an_db ?n 0) (registered_row ?q h) (as_users reg_state) = Inr (7, d)"
    using create_user_cases [OF demo_env_calm ok, of "registered_row ?q h"]
    by (auto simp: name_or_email_taken_def reg_state_def)
  let ?s1 = "reg_state\<lparr>as_users := d\<rparr>"
  let ?res = "send_created None (session_json 7 ''carol'' ''user'' None alice_tokens 1500000000)
       (set_refresh_cookie demo_auth_cfg ''ref'' demo_res)"
  have reg: "register_handler ?n demo_auth_cfg demo_req demo_res reg_state = (Inr (), ?res, ?s1)"
    using register_handler_eq [OF conjunct1 [OF c] h d, of demo_auth_cfg demo_res] c by (simp add: done_with_def alice_tokens_def)
  have gate: "\<not> login_gate_closed ?m (lr_username ?r) ?s1"
    by (simp add: login_gate_closed_def gate_closed_iff reg_state_def demo_state_def new_tracker_def)
  have "\<exists>s2. login_handler ?m demo_auth_cfg [] demo_req demo_res ?s1 =
        (Inr (), send_success (an_rid ?m) (session_json (ud_next (as_users reg_state)) (rr_username ?q) ''user'' (rr_email ?q)
           alice_tokens (an_expires_now ?m)) (set_refresh_cookie demo_auth_cfg (refresh_token alice_tokens) demo_res), s2)"
    by (rule conjunct2 [OF register_then_login [OF reg, where q = ?q and r = ?r and m = ?m]])
      (use c demo_env_calm ok gate in \<open>simp_all add: reg_state_def, simp_all add: demo_env_def\<close>)
  then show ?thesis using reg by (auto simp: reg_state_def alice_tokens_def)
qed


section \<open>The tokens of a session\<close>

text \<open>Documented of the compact serialization: base64url characters and dots.\<close>

definition compact_char :: "char \<Rightarrow> bool" where
  "compact_char c \<longleftrightarrow> isalpha c \<or> isdigit c \<or> c = CHR ''-'' \<or> c = CHR ''_'' \<or> c = CHR ''.''"

definition compact_tokens :: "jwt_lib \<Rightarrow> bool" where
  "compact_tokens L \<longleftrightarrow> (\<forall>secret b t. jl_sign L secret b = Returns t \<longrightarrow> t \<noteq> [] \<and> (\<forall>c \<in> set t. compact_char c))"

lemma compact_char_plain:
  assumes "compact_char c"
  shows "\<not> isspace c" "\<not> is_blank c" "c \<noteq> CHR 0x0D" "c \<noteq> CHR 0x0A" "c \<noteq> CHR '';''" "\<not> is_ows c" "c \<noteq> dquote"
  using assms by (auto simp: compact_char_def char_class_defs is_blank_def is_ows_def dquote_def)

lemma compact_bearer:
  assumes "t \<noteq> []" and "\<forall>c \<in> set t. compact_char c"
  shows "extract_bearer_token (''Bearer '' @ t) = t"
proof -
  have "iequals_ascii ''Bearer'' kBearerScheme" "is_blank (CHR '' '')" "isspace (CHR '' '')" by code_simp+
  then have "extract_bearer_token ([] @ ''Bearer'' @ '' '' @ t @ []) = t"
    using assms compact_char_plain by (intro bearer_complete) (auto dest: hd_in_set)
  then show ?thesis by simp
qed

lemma issue_session_parts:
  assumes "issue_session n cfg i uname urole = Inr tokens"
  obtains a r where
    "sign_access (an_lib n) (ie_access_signed (an_issue n)) (ie_access_uuid (an_issue n)) (jc_secret (ac_jwt cfg))
       (jc_issuer (ac_jwt cfg)) (to_string i) uname urole (ac_access_ttl cfg) = Inr a" "access_token tokens = st_token a"
    "sign_refresh (an_lib n) (ie_refresh_signed (an_issue n)) (ie_refresh_uuid (an_issue n)) (jc_secret (ac_jwt cfg))
       (jc_issuer (ac_jwt cfg)) (to_string i) (ac_refresh_ttl cfg) = Inr r" "refresh_token tokens = st_token r"
  using assms by (auto simp: issue_session_def issue_token_pair_def split: if_splits sum.splits)

text \<open>
  The tokens of a session work, and for the right user: a request that carries the access token of an
  issued pair as a bearer token passes the guard, from the second it was signed until it expires, with
  the name and the role it was issued for, and the handlers read back the same user id. The refresh
  token of the pair, sent back in the cookie among others, verifies as a refresh token of that user.
\<close>

theorem session_tokens_usable:
  assumes "jwt_lib_ok (an_lib n)" and "compact_tokens (an_lib n)" and "issue_session n cfg i uname urole = Inr tokens"
    and "0 < i" and "i < 2 ^ 31" and "urole \<in> {''user'', ''admin''}"
    and "an_lib m = an_lib n" and "get_header_value req ''Authorization'' = ''Bearer '' @ access_token tokens"
    and "whole_seconds (ie_access_signed (an_issue n)) \<le> an_verify1 m" "an_verify1 m \<le> an_verify2 m"
    and "an_verify2 m < whole_seconds (ie_access_signed (an_issue n) + ac_access_ttl cfg * ns_per_s)"
    and "get_header_value req ''Cookie'' = render_cookies (before @ (ck_name (ac_cookie cfg), refresh_token tokens) # after)"
    and "plain_name (ck_name (ac_cookie cfg))"
    and "\<forall>p \<in> set before. plain_name (fst p) \<and> plain_value (snd p) \<and> fst p \<noteq> ck_name (ac_cookie cfg)"
    and "\<forall>p \<in> set after. plain_name (fst p) \<and> plain_value (snd p)"
    and "whole_seconds (ie_refresh_signed (an_issue n)) \<le> an_verify1 m"
    and "an_verify2 m < whole_seconds (ie_refresh_signed (an_issue n) + ac_refresh_ttl cfg * ns_per_s)"
  shows "(\<exists>c. require_authentication (an_lib m) (an_verify1 m) (an_verify2 m) req (ac_jwt cfg) = Inr c
          \<and> username c = uname \<and> role c = urole \<and> user_id_from_claims c = Inr i)
    \<and> (\<exists>c. verify (an_lib m) (an_verify1 m) (an_verify2 m) (extract_refresh_token req cfg b)
             (jc_secret (ac_jwt cfg)) (jc_issuer (ac_jwt cfg)) Refresh = Inr c \<and> stoi (user_id c) = Some i)"
proof -
  from assms(3) obtain a r where a:
    "sign_access (an_lib n) (ie_access_signed (an_issue n)) (ie_access_uuid (an_issue n)) (jc_secret (ac_jwt cfg))
       (jc_issuer (ac_jwt cfg)) (to_string i) uname urole (ac_access_ttl cfg) = Inr a" "access_token tokens = st_token a"
    and r: "sign_refresh (an_lib n) (ie_refresh_signed (an_issue n)) (ie_refresh_uuid (an_issue n)) (jc_secret (ac_jwt cfg))
       (jc_issuer (ac_jwt cfg)) (to_string i) (ac_refresh_ttl cfg) = Inr r" "refresh_token tokens = st_token r"
    by (rule issue_session_parts)
  have ca: "st_token a \<noteq> [] \<and> (\<forall>c \<in> set (st_token a). compact_char c)" and cr: "st_token r \<noteq> [] \<and> (\<forall>c \<in> set (st_token r). compact_char c)"
    using assms(2) a(1) r(1) unfolding compact_tokens_def by (auto simp: sign_access_Inr sign_refresh_Inr)
  have i: "stoi (to_string i) = Some i" using assms(4,5) by (intro stoi_to_string) simp_all
  note va = access_verifies(1) [OF assms(1) a(1) assms(6), of "an_verify1 m" "an_verify2 m"]
  note vr = refresh_verifies(1) [OF assms(1) r(1), of "an_verify1 m" "an_verify2 m"]
  have "extract_bearer_token (get_header_value req ''Authorization'') = st_token a"
    unfolding assms(8) a(2) using ca by (intro compact_bearer) simp_all
  then have 1: "\<exists>c. require_authentication (an_lib m) (an_verify1 m) (an_verify2 m) req (ac_jwt cfg) = Inr c
          \<and> username c = uname \<and> role c = urole \<and> user_id_from_claims c = Inr i"
    using va ca assms(4,7-11) i by (simp add: require_authentication_def user_id_from_claims_def)
  have "plain_value (refresh_token tokens)" using cr compact_char_plain by (simp add: plain_value_def r(2))
  then have "extract_refresh_token req cfg b = st_token r"
    using find_issued_cookie [OF assms(13) _ assms(14,15)] cr by (simp add: extract_refresh_token_def assms(12) r(2))
  then show ?thesis using 1 vr assms(7,10,16,17) i by simp
qed

lemma compact_demo: "compact_tokens (table_lib Jwt_Utils.demo_table)"
proof -
  have "\<forall>p \<in> set Jwt_Utils.demo_table. fst p \<noteq> [] \<and> (\<forall>c \<in> set (fst p). compact_char c)" by code_simp
  then show ?thesis
    by (force simp: compact_tokens_def table_lib_def dest!: find_SomeD split: option.splits prod.splits)
qed

theorem session_tokens_usable_witness:
  "(\<exists>c. require_authentication (table_lib Jwt_Utils.demo_table) 2000000000 2000000000 session_req (ac_jwt demo_auth_cfg) = Inr c
          \<and> username c = ''alice'' \<and> role c = ''admin'' \<and> user_id_from_claims c = Inr 7)
   \<and> (\<exists>c. verify (table_lib Jwt_Utils.demo_table) 2000000000 2000000000 (extract_refresh_token session_req demo_auth_cfg None)
             demo_secret ''litecode'' Refresh = Inr c \<and> stoi (user_id c) = Some 7)"
proof -
  let ?n = "demo_auth_env JNull"
  have "issue_session ?n demo_auth_cfg 7 ''alice'' ''admin'' = Inr alice_tokens
    \<and> get_header_value session_req ''Authorization'' = ''Bearer '' @ access_token alice_tokens
    \<and> get_header_value session_req ''Cookie'' = render_cookies ([] @ (ck_name (ac_cookie demo_auth_cfg), refresh_token alice_tokens) # [])
    \<and> plain_name (ck_name (ac_cookie demo_auth_cfg))
    \<and> whole_seconds (ie_access_signed (an_issue ?n)) \<le> an_verify1 ?n
    \<and> an_verify2 ?n < whole_seconds (ie_access_signed (an_issue ?n) + ac_access_ttl demo_auth_cfg * ns_per_s)
    \<and> whole_seconds (ie_refresh_signed (an_issue ?n)) \<le> an_verify1 ?n
    \<and> an_verify2 ?n < whole_seconds (ie_refresh_signed (an_issue ?n) + ac_refresh_ttl demo_auth_cfg * ns_per_s)" by code_simp
  moreover have "an_lib ?n = table_lib Jwt_Utils.demo_table" "an_verify1 ?n = 2000000000" "an_verify2 ?n = 2000000000"
    "jc_secret (ac_jwt demo_auth_cfg) = demo_secret" "jc_issuer (ac_jwt demo_auth_cfg) = ''litecode''"
    by (simp_all add: demo_auth_env_def demo_auth_cfg_def)
  ultimately show ?thesis
    using session_tokens_usable [of ?n demo_auth_cfg 7 "''alice''" "''admin''" alice_tokens ?n session_req "[]" "[]" None]
      demo_lib_ok compact_demo by simp
qed

end
