(* ===== verification/Auth_Account.thy ===== *)
theory Auth_Account
  imports Auth_Routes
begin

text \<open>
  Properties of the account handlers of \<^verbatim>\<open>src/routes/auth_routes.h\<close>: profile, avatar and user name.
  The operations are those of Auth_Routes; each theorem says whose row and which file a request can
  change, and what it changes.
\<close>

section \<open>Profile\<close>

lemma profile_field_value:
  "profile_field j field p = Inr x \<Longrightarrow> x = str_value (get_member j field)"
  by (cases "get_member j field") (auto simp: profile_field_def check_field_def split: json.splits sum.splits)

lemma parse_profile_values:
  "parse_profile j = Inr (dn, sc, b, m) \<Longrightarrow>
     dn = str_value (get_member j ''display_name'') \<and> sc = str_value (get_member j ''school'')
     \<and> b = str_value (get_member j ''bio'') \<and> m = str_value (get_member j ''email'')"
  by (auto simp: parse_profile_def split: sum.splits dest: profile_field_value)

text \<open>The row after a profile update with the fields of \<open>j\<close>.\<close>

definition with_profile :: "json \<Rightarrow> UserRow \<Rightarrow> UserRow" where
  "with_profile j u = u\<lparr>u_display_name := str_value (get_member j ''display_name''), u_school := str_value (get_member j ''school''),
                        u_bio := str_value (get_member j ''bio''), u_email := str_value (get_member j ''email'')\<rparr>"

lemma store_profile_200:
  assumes "store_profile n i p res s = (Inr (), res', s')" and "rsp_status res' = 200" and "parse_profile j = Inr p"
  shows "s' = s\<lparr>as_users := (as_users s)\<lparr>ud_users :=
      map (\<lambda>u. if u_id u = i then with_profile j u else u) (ud_users (as_users s))\<rparr>\<rparr>"
proof -
  obtain dn sc b m where p: "p = (dn, sc, b, m)" by (cases p)
  then have v: "dn = str_value (get_member j ''display_name'')" "sc = str_value (get_member j ''school'')"
    "b = str_value (get_member j ''bio'')" "m = str_value (get_member j ''email'')"
    using parse_profile_values assms(3) by blast+
  obtain d where "update_profile (an_db n 0) i dn sc b m (as_users s) = Inr (True, d)" "s' = s\<lparr>as_users := d\<rparr>"
    using assms(1,2) by (auto simp: store_profile_def p done_with_def Let_def split: sum.splits bool.splits option.splits)
  then show ?thesis
    by (auto simp: update_profile_def with_conn_def update_user_def with_profile_def v split: option.splits sum.splits if_splits)
qed

text \<open>
  A profile update replaces all four fields: after an update that was answered with 200, the row of the
  authenticated user has exactly the strings of the body as display name, school, bio and e-mail
  address, and no value where the body has null or does not mention the field at all (the comment on
  the handler says such fields keep their old value). No other row and no other part of the state
  changes.
\<close>

theorem profile_update_replaces:
  assumes "update_profile_handler n cfg req res s = (Inr (), res', s')" and "rsp_status res' = 200"
  shows "\<exists>c i j. require_authentication (an_lib n) (an_verify1 n) (an_verify2 n) req (ac_jwt cfg) = Inr c
    \<and> user_id_from_claims c = Inr i \<and> an_parse n (req_body req) = Returns j
    \<and> s' = s\<lparr>as_users := (as_users s)\<lparr>ud_users :=
        map (\<lambda>u. if u_id u = i
                 then u\<lparr>u_display_name := str_value (get_member j ''display_name''),
                        u_school := str_value (get_member j ''school''),
                        u_bio := str_value (get_member j ''bio''), u_email := str_value (get_member j ''email'')\<rparr>
                 else u) (ud_users (as_users s))\<rparr>\<rparr>"
proof -
  obtain c i j p where "require_authentication (an_lib n) (an_verify1 n) (an_verify2 n) req (ac_jwt cfg) = Inr c"
    "user_id_from_claims c = Inr i" "an_parse n (req_body req) = Returns j" "parse_profile j = Inr p"
    "store_profile n i p res s = (Inr (), res', s')"
    using assms by (auto simp: update_profile_handler_def done_with_def split: sum.splits outcome.splits if_splits)
  then show ?thesis
    using store_profile_200 [OF _ assms(2), of n i p res s s' j] unfolding with_profile_def by blast
qed

definition bearer_req :: http_request where
  "bearer_req = \<lparr>req_body = ''body'', remote_addr = ''10.0.0.1'',
     req_header = (\<lambda>h. if h = ''Authorization'' then Some ''Bearer acc'' else None)\<rparr>"

definition settled_state :: "mem_store auth_state" where
  "settled_state = (alice_state [])\<lparr>as_users := \<lparr>ud_users = [(alice [])\<lparr>u_school := Some ''MIT'', u_email := Some ''a@b.c''\<rparr>],
     ud_next = 8, ud_history = []\<rparr>\<rparr>"

theorem profile_update_replaces_witness:
  "let n = demo_auth_env (JObj [(''school'', JStr ''CMU'')]);
       s' = snd (snd (update_profile_handler n demo_auth_cfg bearer_req demo_res settled_state))
   in map u_email (ud_users (as_users settled_state)) = [Some ''a@b.c'']
      \<and> map u_email (ud_users (as_users s')) = [None]
      \<and> (\<exists>c i. require_authentication (an_lib n) (an_verify1 n) (an_verify2 n) bearer_req (ac_jwt demo_auth_cfg) = Inr c
            \<and> user_id_from_claims c = Inr i \<and> length (ud_users (as_users s')) = length (ud_users (as_users settled_state)))"
proof -
  let ?n = "demo_auth_env (JObj [(''school'', JStr ''CMU'')])"
  let ?h = "update_profile_handler ?n demo_auth_cfg bearer_req demo_res settled_state"
  have v: "fst ?h = Inr () \<and> rsp_status (fst (snd ?h)) = 200 \<and> map u_email (ud_users (as_users settled_state)) = [Some ''a@b.c'']
    \<and> map u_email (ud_users (as_users (snd (snd ?h)))) = [None]" by code_simp
  then have "?h = (Inr (), fst (snd ?h), snd (snd ?h))" "rsp_status (fst (snd ?h)) = 200" by (simp_all add: prod_eq_iff)
  from profile_update_replaces [OF this] obtain c i j where
    "require_authentication (an_lib ?n) (an_verify1 ?n) (an_verify2 ?n) bearer_req (ac_jwt demo_auth_cfg) = Inr c"
    "user_id_from_claims c = Inr i"
    and s: "snd (snd ?h) = settled_state\<lparr>as_users := (as_users settled_state)\<lparr>ud_users :=
        map (\<lambda>u. if u_id u = i
                 then u\<lparr>u_display_name := str_value (get_member j ''display_name''),
                        u_school := str_value (get_member j ''school''),
                        u_bio := str_value (get_member j ''bio''), u_email := str_value (get_member j ''email'')\<rparr>
                 else u) (ud_users (as_users settled_state))\<rparr>\<rparr>" by blast
  moreover have "length (ud_users (as_users (snd (snd ?h)))) = length (ud_users (as_users settled_state))" by (subst s) simp
  ultimately show ?thesis using v by (simp only: Let_def) blast
qed

section \<open>Avatar\<close>

text \<open>
  What an avatar upload can write: only the file of the authenticated user, named by the number of the
  user and one of two extensions, and only content of at most 2 MB that starts with the magic bytes of
  that type. A successful upload stores exactly the uploaded bytes and points the row of that user,
  and no other row, to the file.
\<close>

definition avatar_file :: "int \<Rightarrow> string \<Rightarrow> string" where
  "avatar_file i ext = ''/app/uploads/avatars/'' @ to_string i @ ext"

lemma find_after_put: "um_find k' (um_put k v m) = (if k' = k then Some v else um_find k' m)"
  by (simp add: um_find_def um_put_def AList.update_conv')

lemma update_avatar_True:
  "update_avatar v i url d = Inr (True, d') \<Longrightarrow>
     d' = d\<lparr>ud_users := map (\<lambda>u. if u_id u = i then u\<lparr>u_avatar := url\<rparr> else u) (ud_users d)\<rparr>"
  by (auto simp: update_avatar_def with_conn_def stmt_def update_user_def split: option.splits)

lemma store_avatar_files:
  assumes "store_avatar n i ext bytes res s = (r, res', s')" and "f \<noteq> avatar_file i ext"
  shows "um_find f (as_files s') = um_find f (as_files s)"
proof -
  have "as_files s' = as_files s \<or> (\<exists>x. as_files s' = um_put (avatar_file i ext) x (as_files s))"
    using assms(1) unfolding store_avatar_def done_with_def Let_def avatar_file_def
    by (cases "an_avatar n") (auto split: sum.splits prod.splits if_splits)
  then show ?thesis using assms(2) by (auto simp: find_after_put)
qed

lemma store_avatar_200:
  assumes "store_avatar n i ext bytes res s = (Inr (), res', s')" and "rsp_status res' = 200"
  shows "um_find (avatar_file i ext) (as_files s') = Some bytes
      \<and> as_users s' = (as_users s)\<lparr>ud_users :=
          map (\<lambda>u. if u_id u = i then u\<lparr>u_avatar := Some (''/uploads/avatars/'' @ to_string i @ ext)\<rparr> else u) (ud_users (as_users s))\<rparr>"
proof -
  have "as_files s' = um_put (avatar_file i ext) bytes (as_files s)
      \<and> update_avatar (an_db n 0) i (Some (''/uploads/avatars/'' @ to_string i @ ext)) (as_users s) = Inr (True, as_users s')"
    using assms unfolding store_avatar_def done_with_def Let_def avatar_file_def
    by (cases "an_avatar n") (auto split: sum.splits prod.splits if_splits)
  then show ?thesis by (auto simp: find_after_put dest: update_avatar_True)
qed

theorem avatar_confined:
  assumes "update_avatar_handler n cfg file req res s = (r, res', s')"
    and "um_find f (as_files s') \<noteq> um_find f (as_files s) \<or> (r = Inr () \<and> rsp_status res' = 200)"
  shows "\<exists>c i bytes ctype ext. require_authentication (an_lib n) (an_verify1 n) (an_verify2 n) req (ac_jwt cfg) = Inr c
    \<and> user_id_from_claims c = Inr i \<and> 0 < i \<and> file = Some (bytes, ctype) \<and> bytes \<noteq> [] \<and> length bytes \<le> 2097152
    \<and> (ext = ''.jpg'' \<and> starts_with [CHR 0xFF, CHR 0xD8, CHR 0xFF] bytes
       \<or> ext = ''.png'' \<and> starts_with [CHR 0x89, CHR ''P'', CHR ''N'', CHR ''G'', CHR 0x0D, CHR 0x0A, CHR 0x1A, CHR 0x0A] bytes)
    \<and> (f \<noteq> ''/app/uploads/avatars/'' @ to_string i @ ext \<longrightarrow> um_find f (as_files s') = um_find f (as_files s))
    \<and> (r = Inr () \<and> rsp_status res' = 200 \<longrightarrow>
         um_find (''/app/uploads/avatars/'' @ to_string i @ ext) (as_files s') = Some bytes
         \<and> as_users s' = (as_users s)\<lparr>ud_users :=
            map (\<lambda>u. if u_id u = i then u\<lparr>u_avatar := Some (''/uploads/avatars/'' @ to_string i @ ext)\<rparr> else u)
              (ud_users (as_users s))\<rparr>)"
proof -
  obtain c i bytes ctype ext where h: "require_authentication (an_lib n) (an_verify1 n) (an_verify2 n) req (ac_jwt cfg) = Inr c"
    "user_id_from_claims c = Inr i" "file = Some (bytes, ctype)" "bytes \<noteq> []" "\<not> int (length bytes) > kMaxAvatarBytes"
    "avatar_ext bytes = Some ext" and st: "store_avatar n i ext bytes res s = (r, res', s')"
    using assms by (auto simp: update_avatar_handler_def done_with_def split: sum.splits option.splits if_splits)
  moreover have "0 < i" using h(2) by (auto simp: user_id_from_claims_def split: option.splits if_splits)
  moreover have "ext = ''.jpg'' \<and> starts_with [CHR 0xFF, CHR 0xD8, CHR 0xFF] bytes
       \<or> ext = ''.png'' \<and> starts_with [CHR 0x89, CHR ''P'', CHR ''N'', CHR ''G'', CHR 0x0D, CHR 0x0A, CHR 0x1A, CHR 0x0A] bytes"
    using h(6) by (simp add: avatar_ext_def split: if_splits)
  moreover have "length bytes \<le> 2097152" using h(5) by simp
  moreover have "f \<noteq> ''/app/uploads/avatars/'' @ to_string i @ ext \<longrightarrow> um_find f (as_files s') = um_find f (as_files s)"
    using store_avatar_files [OF st] by (simp add: avatar_file_def)
  moreover note store_avatar_200 [of n i ext bytes res s res' s', unfolded avatar_file_def]
  ultimately show ?thesis
    by (intro exI [of _ c] exI [of _ i] exI [of _ bytes] exI [of _ ctype] exI [of _ ext]) (simp only: simp_thms, blast)
qed

definition jpeg :: string where
  "jpeg = [CHR 0xFF, CHR 0xD8, CHR 0xFF, CHR 0xE0]"

theorem avatar_confined_witness:
  "let n = demo_auth_env JNull;
       s' = snd (snd (update_avatar_handler n demo_auth_cfg (Some (jpeg, ''image/jpeg'')) bearer_req demo_res settled_state))
   in as_files s' = [(''/app/uploads/avatars/7.jpg'', jpeg)]
      \<and> (\<exists>i ext. um_find (''/app/uploads/avatars/'' @ to_string i @ ext) (as_files s') = Some jpeg)"
proof -
  let ?h = "update_avatar_handler (demo_auth_env JNull) demo_auth_cfg (Some (jpeg, ''image/jpeg'')) bearer_req demo_res settled_state"
  have v: "fst ?h = Inr () \<and> rsp_status (fst (snd ?h)) = 200 \<and> as_files (snd (snd ?h)) = [(''/app/uploads/avatars/7.jpg'', jpeg)]"
    by code_simp
  then have "?h = (Inr (), fst (snd ?h), snd (snd ?h))" by (simp add: prod_eq_iff)
  from avatar_confined [OF this, of "[]"] v show ?thesis by (simp only: Let_def) auto
qed


section \<open>User name\<close>

text \<open>The user and the name of a rename request that passes the checks before the database is asked.\<close>

definition rename_request :: "auth_env \<Rightarrow> auth_config \<Rightarrow> http_request \<Rightarrow> (int \<times> string) option" where
  "rename_request n cfg req =
     (case require_authentication (an_lib n) (an_verify1 n) (an_verify2 n) req (ac_jwt cfg) of
        Inl _ \<Rightarrow> None
      | Inr c \<Rightarrow>
      case (user_id_from_claims c, an_parse n (req_body req)) of
        (Inr i, Returns j) \<Rightarrow>
          (case str_value (get_member j ''username'') of
             None \<Rightarrow> None
           | Some u \<Rightarrow> if validate_username u = Inr () \<and> (username c = ''admin'' \<longleftrightarrow> u = ''admin'') then Some (i, u) else None)
      | _ \<Rightarrow> None)"

lemma rename_request_handler:
  assumes "rename_request n cfg req = Some (i, u)"
  shows "update_username_handler n cfg req res s = rename_user n i u res s"
  using assms
  by (auto simp: rename_request_def update_username_handler_def check_field_def split: sum.splits outcome.splits option.splits if_splits)

lemma rename_user_changes:
  assumes "rename_user n i u res s = (Inr (), res', s')" and "rsp_status res' = 200"
    and "find_user_by_id (an_db n 0) i (as_users s) = Inr (Some row)" and "u_username row \<noteq> u"
  shows "\<exists>d. update_username (an_db n 2) i u (as_users s) = (Inr True, d) \<and> s' = s\<lparr>as_users := d\<rparr>"
  using assms
  by (auto simp: rename_user_def store_username_def done_with_def Let_def split: option.splits sum.splits bool.splits prod.splits)

lemma rename_sets_time:
  assumes "update_username v i u d = (Inr True, d')" and "List.find (\<lambda>w. u_id w = i) (ud_users d) = Some row" and "u_username row \<noteq> u"
  shows "List.find (\<lambda>w. u_id w = i) (ud_users d') = Some (row\<lparr>u_username := u, u_username_changed_at := Some (dv_now v)\<rparr>)"
proof -
  have d': "ud_users d' = map (\<lambda>w. if u_id w = i then w\<lparr>u_username := u, u_username_changed_at := Some (dv_now v)\<rparr> else w) (ud_users d)"
    using assms
    by (auto simp: update_username_def stmt_def insert_history_def set_username_def rename_failed_def update_user_def
        split: option.splits sum.splits if_splits)
  have "List.find (\<lambda>w. u_id w = i) (map (\<lambda>w. if u_id w = i then g w else w) xs) = map_option g (List.find (\<lambda>w. u_id w = i) xs)"
    if "\<And>w. u_id (g w) = u_id w" for g and xs :: "UserRow list" using that by (induction xs) auto
  then show ?thesis using assms(2) by (simp add: d')
qed

text \<open>
  A name can be changed once a day: after a request has changed the name of a user, a later request of
  the same user for another name, well formed and made less than 24 hours after the time the database
  recorded, is answered with 429, with the remaining seconds in \<^verbatim>\<open>Retry-After\<close> and in the body, and
  changes nothing, however the other parts of the state have changed in between.
\<close>

theorem rename_once_a_day:
  assumes "update_username_handler n cfg req res s = (Inr (), res1, s1)" and "rsp_status res1 = 200"
    and "rename_request n cfg req = Some (i, u)"
    and "find_user_by_id (an_db n 0) i (as_users s) = Inr (Some row)" and "u_username row \<noteq> u"
    and "scan_datetime (c_str (dv_now (an_db n 2))) = Some (y, mo, d, h, mi, se)"
    and "rename_request m cfg req2 = Some (i, u2)" and "u2 \<noteq> u" and "calm_env (an_db m 0)"
    and "as_users s2 = as_users s1"
    and "timegm y mo d h mi se \<le> an_time m" and "an_time m < timegm y mo d h mi se + 86400"
  shows "update_username_handler m cfg req2 res2 s2 =
    (Inr (), send_error (an_rid m) 429 RATE_LIMITED ''username can only be changed once per day''
        (JObj [(''retry_after_seconds'', JInt (timegm y mo d h mi se + 86400 - an_time m))])
        (set_header ''Retry-After'' (to_string (timegm y mo d h mi se + 86400 - an_time m)) res2), s2)"
proof -
  have "rename_user n i u res s = (Inr (), res1, s1)" using assms(1) by (simp add: rename_request_handler [OF assms(3)])
  from rename_user_changes [OF this assms(2,4,5)] obtain d' where
    d': "update_username (an_db n 2) i u (as_users s) = (Inr True, d')" "s1 = s\<lparr>as_users := d'\<rparr>" by blast
  have "List.find (\<lambda>w. u_id w = i) (ud_users (as_users s)) = Some row"
    using assms(4) by (auto simp: find_user_by_id_def query_def with_conn_def stmt_def split: option.splits sum.splits)
  from rename_sets_time [OF d'(1) this assms(5)]
  have f: "find_user_by_id (an_db m 0) i (as_users s2)
      = Inr (Some (row\<lparr>u_username := u, u_username_changed_at := Some (dv_now (an_db n 2))\<rparr>))"
    using assms(9,10) d'(2) by (simp add: find_user_by_id_def query_calm)
  let ?e = "an_time m - timegm y mo d h mi se"
  have "sint (word_of_int ?e :: 32 word) = ?e" using assms(11,12) by (subst int_word_sint) simp
  then have "rename_cooldown (an_time m) (row\<lparr>u_username := u, u_username_changed_at := Some (dv_now (an_db n 2))\<rparr>) = Some (86400 - ?e)"
    using assms(6,12) by (simp add: rename_cooldown_def)
  then show ?thesis
    using f assms(8) by (simp add: rename_request_handler [OF assms(7)] rename_user_def done_with_def algebra_simps)
qed


definition rename_env :: "int \<Rightarrow> string \<Rightarrow> auth_env" where
  "rename_env t u = (demo_auth_env (JObj [(''username'', JStr u)]))\<lparr>an_time := t\<rparr>"

theorem rename_once_a_day_witness:
  "let s1 = snd (snd (update_username_handler (rename_env 1704164645 ''alina'') demo_auth_cfg bearer_req demo_res settled_state))
   in update_username_handler (rename_env 1704164745 ''anna'') demo_auth_cfg bearer_req demo_res s1 =
      (Inr (), send_error None 429 RATE_LIMITED ''username can only be changed once per day''
        (JObj [(''retry_after_seconds'', JInt 86300)]) (set_header ''Retry-After'' (to_string 86300) demo_res), s1)"
proof -
  let ?n = "rename_env 1704164645 ''alina''" and ?m = "rename_env 1704164745 ''anna''"
  let ?h = "update_username_handler ?n demo_auth_cfg bearer_req demo_res settled_state"
  let ?row = "(alice [])\<lparr>u_school := Some ''MIT'', u_email := Some ''a@b.c''\<rparr>"
  have v: "fst ?h = Inr () \<and> rsp_status (fst (snd ?h)) = 200 \<and> rename_request ?n demo_auth_cfg bearer_req = Some (7, ''alina'')
    \<and> rename_request ?m demo_auth_cfg bearer_req = Some (7, ''anna'')
    \<and> find_user_by_id (an_db ?n 0) 7 (as_users settled_state) = Inr (Some ?row) \<and> u_username ?row \<noteq> ''alina''
    \<and> scan_datetime (c_str (dv_now (an_db ?n 2))) = Some (2024, 1, 2, 3, 4, 5)
    \<and> timegm 2024 1 2 3 4 5 = 1704164645 \<and> an_rid ?m = None \<and> an_time ?m = 1704164745" by code_simp
  then have h: "?h = (Inr (), fst (snd ?h), snd (snd ?h))" by (simp add: prod_eq_iff)
  have "calm_env (an_db ?m 0)" using demo_env_calm by (simp add: rename_env_def demo_auth_env_def)
  then show ?thesis
    using rename_once_a_day [OF h, of 7 "''alina''" ?row 2024 1 2 3 4 5 ?m bearer_req "''anna''" "snd (snd ?h)" demo_res] v
    by (simp add: Let_def)
qed

end
