(* ===== verification/Login_Lockout.thy ===== *)
theory Login_Lockout
  imports Auth_Routes
begin

text \<open>
  The lockout seen through the login handler of \<^verbatim>\<open>src/routes/auth_routes.h\<close>: what one login request does
  to the failure tracker, and how many wrong passwords for one name the handler checks in a period when
  requests are handled one after another.

  The handler looks at the gate of the name as it was typed, then looks the user up and verifies the
  password, and records a failure under the name as it is stored. Two things therefore escape the bound
  and are excluded by hypothesis: another spelling of the name that the collation of the database accepts
  (theorem \<open>spelling_escapes_lockout\<close> of Auth_Routes), and requests that overlap, all of which pass the
  gate before the first of them records its failure.
\<close>

section \<open>One request\<close>

text \<open>What a request asks of the tracker: nothing if it is malformed or the lookup fails.\<close>

definition attempt_event :: "auth_env \<Rightarrow> http_request \<Rightarrow> 's auth_state \<Rightarrow> login_event option" where
  "attempt_event n req s =
     (case login_request_of n req of
        None \<Rightarrow> None
      | Some r \<Rightarrow>
          (case find_user_by_name (an_db n 0) (lr_username r) (as_users s) of
             Inl _ \<Rightarrow> None
           | Inr None \<Rightarrow> Some (Wrong (lr_username r) (lr_username r) (an_gate n) (an_fail n))
           | Inr (Some row) \<Rightarrow>
               if verify_password (lr_password r) (u_password_hash row)
               then Some (Right (lr_username r) (u_username row) (an_gate n))
               else Some (Wrong (lr_username r) (u_username row) (an_gate n) (an_fail n))))"

definition event_step :: "login_event option \<Rightarrow> login_tracker \<Rightarrow> login_tracker" where
  "event_step x t = (case x of None \<Rightarrow> t | Some e \<Rightarrow> login_step e t)"

definition name_and_hash :: "user_db \<Rightarrow> (string \<times> string) list" where
  "name_and_hash d = map (\<lambda>row. (u_username row, u_password_hash row)) (ud_users d)"

text \<open>A login stores the time and the address only.\<close>

lemma last_login_names:
  assumes "update_last_login v i ip d = Inr d'"
  shows "name_and_hash d' = name_and_hash d"
proof -
  let ?g = "\<lambda>u :: UserRow. u\<lparr>u_last_login := Some (dv_now v), u_last_login_ip := (if ip = [] then None else Some ip)\<rparr>"
  have "name_and_hash (snd (update_user v i ?g d)) = name_and_hash d"
    by (simp add: update_user_def name_and_hash_def Let_def)
  then show ?thesis
    using assms by (auto simp: update_last_login_def with_conn_def stmt_def split: option.splits sum.splits prod.splits)
qed

lemma grant_login_names:
  assumes "grant_login n cfg ip row res s = (r, res', s')"
  shows "name_and_hash (as_users s') = name_and_hash (as_users s)"
  using assms last_login_names
  by (auto simp: grant_login_def done_with_def Let_def split: sum.splits)

text \<open>The handler does to the tracker what the event says, and answers 401 exactly to a recorded failure.\<close>

lemma login_handler_event:
  assumes "login_handler n cfg ip req res s = (r, res', s')"
  shows "as_tracker s' = event_step (attempt_event n req s) (as_tracker s)"
    and "name_and_hash (as_users s') = name_and_hash (as_users s)"
    and "rsp_status res' = 401 \<and> r = Inr () \<longrightarrow>
      (\<exists>g v. attempt_event n req s = Some (Wrong g v (an_gate n) (an_fail n)) \<and> \<not> gate_closed (an_gate n) g (as_tracker s)
        \<and> map_option lr_username (login_request_of n req) = Some g)"
proof -
  have "as_tracker s' = event_step (attempt_event n req s) (as_tracker s)
    \<and> name_and_hash (as_users s') = name_and_hash (as_users s)
    \<and> (rsp_status res' = 401 \<and> r = Inr () \<longrightarrow>
      (\<exists>g v. attempt_event n req s = Some (Wrong g v (an_gate n) (an_fail n)) \<and> \<not> gate_closed (an_gate n) g (as_tracker s)
        \<and> map_option lr_username (login_request_of n req) = Some g))"
  proof (cases rule: login_cases [of n req cfg ip res s])
    case (locked q rem)
    then show ?thesis
      using assms by (auto simp: attempt_event_def event_step_def login_gate_closed_def split: option.splits sum.splits)
  next
    case (attempt q)
    note la = attempt(3) [symmetric, unfolded assms]
    show ?thesis
    proof (cases rule: login_attempt_cases [of n cfg ip q res s])
      case fails
      then show ?thesis using la attempt(1) by (auto simp: attempt_event_def event_step_def)
    next
      case (denied u)
      obtain s2 where "deny_login n ip u res s =
          (Inr (), send_error (an_rid n) 401 UNAUTHORIZED ''invalid username or password'' JNull res, s2)"
        "as_users s2 = as_users s" "as_tracker s2 = snd (record_failure (an_fail n) u (as_tracker s))"
        by (rule deny_login_result)
      then show ?thesis
        using denied la attempt(1,2) by (auto simp: attempt_event_def event_step_def login_gate_closed_def)
    next
      case (granted row)
      then have g: "grant_login n cfg ip row res s = (r, res', s')" using la by simp
      have "\<not> (rsp_status res' = 401 \<and> r = Inr ())" using grant_login_result(3) [OF g] by auto
      then show ?thesis
        using granted grant_login_result(1) [OF g] grant_login_names [OF g] attempt(1,2)
        by (auto simp: attempt_event_def event_step_def login_gate_closed_def)
    qed
  qed (use assms in \<open>auto simp: attempt_event_def event_step_def\<close>)
  then show "as_tracker s' = event_step (attempt_event n req s) (as_tracker s)"
    and "name_and_hash (as_users s') = name_and_hash (as_users s)"
    and "rsp_status res' = 401 \<and> r = Inr () \<longrightarrow>
      (\<exists>g v. attempt_event n req s = Some (Wrong g v (an_gate n) (an_fail n)) \<and> \<not> gate_closed (an_gate n) g (as_tracker s)
        \<and> map_option lr_username (login_request_of n req) = Some g)"
    by blast+
qed

section \<open>Requests one after another\<close>

text \<open>
  The number of requests that typed the name \<open>u\<close>, were answered with 401 (so that their password was checked
  and found wrong, or there is no such user), and recorded that in the period from \<open>a\<close> to \<open>b\<close>. Each request
  is handled in the state the previous one left, also after an exception.
\<close>

fun guesses_answered ::
    "auth_config \<Rightarrow> string \<Rightarrow> http_response \<Rightarrow> int \<Rightarrow> int \<Rightarrow> string \<Rightarrow> (auth_env \<times> http_request) list \<Rightarrow> 's auth_state \<Rightarrow> nat" where
  "guesses_answered cfg ip res a b u [] s = 0"
| "guesses_answered cfg ip res a b u ((n, req) # xs) s =
     (case login_handler n cfg ip req res s of
        (r, res', s') \<Rightarrow>
          (if map_option lr_username (login_request_of n req) = Some u \<and> r = Inr () \<and> rsp_status res' = 401
              \<and> a \<le> an_fail n \<and> an_fail n < b then 1 else 0)
          + guesses_answered cfg ip res a b u xs s')"

text \<open>The clock readings of the requests are in order.\<close>

fun clocks_in_order :: "int \<Rightarrow> (auth_env \<times> http_request) list \<Rightarrow> bool" where
  "clocks_in_order now [] = True"
| "clocks_in_order now ((n, req) # xs) = (now \<le> an_gate n \<and> an_gate n \<le> an_fail n \<and> clocks_in_order (an_fail n) xs)"

text \<open>
  A request that respects the spelling of \<open>u\<close>, uses names of \<open>S\<close> only and does not know the password of \<open>u\<close>:
  every stored name that the database takes for the typed one is in \<open>S\<close>, is \<open>u\<close> exactly if \<open>u\<close> was typed, and
  then the password is wrong.
\<close>

definition plain_attempt :: "string \<Rightarrow> string set \<Rightarrow> (string \<times> string) list \<Rightarrow> auth_env \<times> http_request \<Rightarrow> bool" where
  "plain_attempt u S names x \<longleftrightarrow>
     (case login_request_of (fst x) (snd x) of
        None \<Rightarrow> True
      | Some r \<Rightarrow>
          lr_username r \<in> S
          \<and> (\<forall>(v, h) \<in> set names. dv_eq (an_db (fst x) 0) v (lr_username r) \<longrightarrow>
               v \<in> S \<and> (v = u \<longleftrightarrow> lr_username r = u) \<and> (v = u \<longrightarrow> \<not> verify_password (lr_password r) h)))"

fun login_events ::
    "auth_config \<Rightarrow> string \<Rightarrow> http_response \<Rightarrow> (auth_env \<times> http_request) list \<Rightarrow> 's auth_state \<Rightarrow> login_event list" where
  "login_events cfg ip res [] s = []"
| "login_events cfg ip res ((n, req) # xs) s =
     (case attempt_event n req s of None \<Rightarrow> [] | Some e \<Rightarrow> [e])
     @ login_events cfg ip res xs (snd (snd (login_handler n cfg ip req res s)))"

lemma find_user_in:
  assumes "find_user_by_name v t d = Inr (Some row)"
  shows "(u_username row, u_password_hash row) \<in> set (name_and_hash d) \<and> dv_eq v (u_username row) t"
proof -
  have "List.find (\<lambda>u. dv_eq v (u_username u) t) (ud_users d) = Some row"
    using assms by (auto simp: find_user_by_name_def query_def with_conn_def stmt_def split: option.splits sum.splits)
  then show ?thesis by (auto simp: find_Some_iff name_and_hash_def)
qed

lemma plain_event:
  assumes "plain_attempt u S (name_and_hash (as_users s)) (n, req)" and "attempt_event n req s = Some e"
  shows "event_name e \<in> S" and "event_name e = u \<longleftrightarrow> gate_name e = u" and "e \<noteq> Right g u t1"
    and "e = Wrong (gate_name e) (event_name e) (an_gate n) (an_fail n) \<or> e = Right (gate_name e) (event_name e) (an_gate n)"
    and "map_option lr_username (login_request_of n req) = Some (gate_name e)"
proof -
  obtain r where r: "login_request_of n req = Some r" using assms(2) by (auto simp: attempt_event_def split: option.splits)
  have p: "event_name e \<in> S \<and> (event_name e = u \<longleftrightarrow> gate_name e = u) \<and> e \<noteq> Right g u t1
    \<and> (e = Wrong (gate_name e) (event_name e) (an_gate n) (an_fail n) \<or> e = Right (gate_name e) (event_name e) (an_gate n))
    \<and> gate_name e = lr_username r"
  proof (cases "find_user_by_name (an_db n 0) (lr_username r) (as_users s)")
    case (Inr x)
    show ?thesis
    proof (cases x)
      case (Some row)
      then show ?thesis
        using find_user_in [of "an_db n 0" "lr_username r" "as_users s" row] assms r Inr
        by (auto simp: attempt_event_def plain_attempt_def split: if_splits)
    qed (use assms r Inr in \<open>auto simp: attempt_event_def plain_attempt_def\<close>)
  qed (use assms r in \<open>auto simp: attempt_event_def\<close>)
  then show "event_name e \<in> S" and "event_name e = u \<longleftrightarrow> gate_name e = u" and "e \<noteq> Right g u t1"
    and "e = Wrong (gate_name e) (event_name e) (an_gate n) (an_fail n) \<or> e = Right (gate_name e) (event_name e) (an_gate n)"
    and "map_option lr_username (login_request_of n req) = Some (gate_name e)"
    using r by auto
qed

lemma in_order_earlier: "in_order now xs \<Longrightarrow> now' \<le> now \<Longrightarrow> in_order now' xs"
  by (cases xs rule: in_order.cases [of "(now, xs)" for xs]) auto

lemma login_events_plain:
  assumes "clocks_in_order now xs" and "\<forall>x \<in> set xs. plain_attempt u S (name_and_hash (as_users s)) x"
  shows "in_order now (login_events cfg ip res xs s)" and "event_name ` set (login_events cfg ip res xs s) \<subseteq> S"
    and "\<forall>e \<in> set (login_events cfg ip res xs s). event_name e = u \<longrightarrow> gate_name e = u"
    and "\<forall>g t1. Right g u t1 \<notin> set (login_events cfg ip res xs s)"
    and "guesses_answered cfg ip res a b u xs s \<le> guesses a b u (login_events cfg ip res xs s) (as_tracker s)"
proof -
  have "in_order now (login_events cfg ip res xs s) \<and> event_name ` set (login_events cfg ip res xs s) \<subseteq> S
    \<and> (\<forall>e \<in> set (login_events cfg ip res xs s). event_name e = u \<longrightarrow> gate_name e = u)
    \<and> (\<forall>g t1. Right g u t1 \<notin> set (login_events cfg ip res xs s))
    \<and> guesses_answered cfg ip res a b u xs s \<le> guesses a b u (login_events cfg ip res xs s) (as_tracker s)"
    using assms
  proof (induction xs arbitrary: now s)
    case (Cons x xs)
    obtain n req where x: "x = (n, req)" by (cases x)
    obtain r res' s' where h: "login_handler n cfg ip req res s = (r, res', s')" by (rule prod_cases3)
    note ev = login_handler_event [OF h]
    have rest: "\<forall>x \<in> set xs. plain_attempt u S (name_and_hash (as_users s')) x" using Cons.prems(2) ev(2) by simp
    have clk: "now \<le> an_gate n" "an_gate n \<le> an_fail n" "clocks_in_order (an_fail n) xs" using Cons.prems(1) x by simp_all
    note IH = Cons.IH [OF clk(3) rest]
    show ?case
    proof (cases "attempt_event n req s")
      case None
      have "in_order now (login_events cfg ip res xs s')" using IH clk by (meson in_order_earlier order_trans)
      then show ?thesis using IH None ev(1,3) x h by (auto simp: event_step_def)
    next
      case (Some e)
      note p = plain_event [OF Cons.prems(2) [rule_format, of "(n, req)"] Some]
      have tr: "as_tracker s' = login_step e (as_tracker s)" using ev(1) Some by (simp add: event_step_def)
      have later: "in_order (an_gate n) (login_events cfg ip res xs s')" using IH clk(2) by (meson in_order_earlier)
      have ord: "in_order now (e # login_events cfg ip res xs s')"
        using p(4) x clk IH later by (auto elim!: disjE) (metis in_order.simps(2), metis in_order.simps(3))
      have one: "(if map_option lr_username (login_request_of n req) = Some u \<and> r = Inr () \<and> rsp_status res' = 401
          \<and> a \<le> an_fail n \<and> an_fail n < b then 1 else 0) \<le> guess_of a b u e (as_tracker s)"
        using ev(3) Some p(2) x by auto
      then show ?thesis using IH Some p(1-3) x h tr ord by auto
    qed
  qed simp
  then show "in_order now (login_events cfg ip res xs s)" and "event_name ` set (login_events cfg ip res xs s) \<subseteq> S"
    and "\<forall>e \<in> set (login_events cfg ip res xs s). event_name e = u \<longrightarrow> gate_name e = u"
    and "\<forall>g t1. Right g u t1 \<notin> set (login_events cfg ip res xs s)"
    and "guesses_answered cfg ip res a b u xs s \<le> guesses a b u (login_events cfg ip res xs s) (as_tracker s)"
    by blast+
qed

section \<open>Property\<close>

text \<open>
  C8. The lockout bounds guessing by requests that are handled one after another: of the login requests that type
  the name \<open>u\<close>, the handler answers at most \<open>max T (2 * T - 2)\<close> with 401 in any period no longer than the
  window and the lockout, \<open>T\<close> being the threshold. The
  conditions: \<open>u\<close> is typed as it is stored and no other spelling of it is used, none of these requests has the right
  password, and the names used are fewer than the tracker holds. (Windows are fixed, not sliding: \<open>T - 2\<close> failures
  may end one window and \<open>T\<close> begin the next; the bound is reached.)
\<close>

theorem lockout_bounds_guessing:
  assumes "lo_enabled lcfg" and "as_tracker s = new_tracker lcfg k" and "u \<noteq> []"
    and "\<forall>x \<in> set xs. plain_attempt u S (name_and_hash (as_users s)) x" and "finite S" and "k = 0 \<or> card S < k"
    and "clocks_in_order 0 xs" and "0 < a"
    and "b - a \<le> lo_window_seconds (lt_cfg (as_tracker s)) * second"
    and "b - a \<le> lo_lockout_duration_seconds (lt_cfg (as_tracker s)) * second"
  shows "int (guesses_answered cfg ip res a b u xs s)
    \<le> max (lo_threshold (lt_cfg (as_tracker s))) (2 * lo_threshold (lt_cfg (as_tracker s)) - 2)"
proof -
  note ev = login_events_plain [OF assms(7,4)]
  have t: "lt_max_entries (as_tracker s) = k" "lo_enabled (lt_cfg (as_tracker s))" "lt_failures (as_tracker s) = []"
    using assms(1) unfolding assms(2) by (simp_all add: new_tracker_def)
  have ok: "tracker_ok (as_tracker s)" "sane (lt_cfg (as_tracker s))" unfolding assms(2) by simp_all
  have "int (guesses a b u (login_events cfg ip res xs s) (as_tracker s)) \<le> guess_limit (lt_cfg (as_tracker s))"
    using guesses_in_period [OF ok(1) _ assms(5) _ ev(2) ok(2) t(2) assms(3,8) ev(4) assms(9,10) ev(1) _ ev(3)] t(1,3) assms(6)
    by simp
  then show ?thesis using ev(5) [of cfg ip res a b] by (simp add: guess_limit_def)
qed

text \<open>The bound is reached: four guesses within a few seconds at threshold three, and then the gate is closed.\<close>

definition demo_guess :: "string \<times> int \<Rightarrow> auth_env \<times> http_request" where
  "demo_guess = (\<lambda>(u, t). ((demo_auth_env (demo_body u ''guess''))\<lparr>an_gate := t * second, an_fail := t * second\<rparr>, demo_req))"

definition demo_guesses :: "(auth_env \<times> http_request) list" where
  "demo_guesses = map demo_guess
     [(''bob'', 1), (''bob'', 899), (''bob'', 901), (''eve'', 902), (''bob'', 903), (''bob'', 904), (''bob'', 905)]"

theorem lockout_bounds_guessing_witness:
  "guesses_answered demo_auth_cfg [] demo_res (800 * second) (1600 * second) ''bob'' demo_guesses demo_state = 4
   \<and> int (guesses_answered demo_auth_cfg [] demo_res (800 * second) (1600 * second) ''bob'' demo_guesses demo_state) \<le> 4"
proof
  show "guesses_answered demo_auth_cfg [] demo_res (800 * second) (1600 * second) ''bob'' demo_guesses demo_state = 4" by code_simp
  have p: "\<forall>x \<in> set demo_guesses. plain_attempt ''bob'' {''bob'', ''eve''} (name_and_hash (as_users demo_state)) x" by code_simp
  have c: "clocks_in_order 0 demo_guesses" by code_simp
  have t: "as_tracker demo_state = new_tracker demo_lockout 10" by (simp add: demo_state_def)
  have l: "lo_threshold (lt_cfg (new_tracker demo_lockout 10)) = 3"
    "lo_window_seconds (lt_cfg (new_tracker demo_lockout 10)) = 900"
    "lo_lockout_duration_seconds (lt_cfg (new_tracker demo_lockout 10)) = 900" "lo_enabled demo_lockout"
    by (simp_all add: demo_lockout_def new_tracker_def)
  show "int (guesses_answered demo_auth_cfg [] demo_res (800 * second) (1600 * second) ''bob'' demo_guesses demo_state) \<le> 4"
    using lockout_bounds_guessing [OF l(4) t _ p _ _ c, of "800 * second" "1600 * second" demo_auth_cfg "[]" demo_res] l t by simp
qed

end
