(* ===== verification/Web.thy ===== *)
theory Web
  imports Auth_Routes
begin

text \<open>
  What the smaller route files share: the guards at the start of a handler, the answer that prints a JSON
  document, reading numbers from paths and query parameters, and the \<^verbatim>\<open>try\<close> blocks of the registration
  functions. Printing may throw (\<^verbatim>\<open>dump\<close> refuses a string that is no UTF-8), after the status has
  been set. The repositories
  below report errors as the text of a \<^verbatim>\<open>std::exception\<close>, which is all their callers look at.
\<close>

section \<open>Handlers\<close>

record web_env =
  wv_lib :: jwt_lib
  wv_jwt :: jwt_config
  wv_verify1 :: int
  wv_verify2 :: int
  wv_rid :: "string option"
  wv_parse :: "string \<Rightarrow> json outcome"
  wv_dump :: "json \<Rightarrow> string outcome"

type_synonym 's web_result = "(handler_exn + unit) \<times> http_response \<times> 's"

definition web_auth :: "web_env \<Rightarrow> http_request \<Rightarrow> (Claims \<Rightarrow> 's web_result) \<Rightarrow> http_response \<Rightarrow> 's \<Rightarrow> 's web_result" where
  "web_auth v req k res s =
     (case require_authentication (wv_lib v) (wv_verify1 v) (wv_verify2 v) req (wv_jwt v) of
        Inl g \<Rightarrow> (Inl (guard_exn g), res, s)
      | Inr c \<Rightarrow> k c)"

text \<open>\<^verbatim>\<open>std::stoi(claims.user_id)\<close>, whose exception leaves the handler.\<close>

definition web_user :: "Claims \<Rightarrow> (int \<Rightarrow> 's web_result) \<Rightarrow> http_response \<Rightarrow> 's \<Rightarrow> 's web_result" where
  "web_user c k res s = (case stoi (user_id c) of None \<Rightarrow> (Inl (ThrowsStd ''stoi''), res, s) | Some i \<Rightarrow> k i)"

definition web_ok :: "web_env \<Rightarrow> json \<Rightarrow> http_response \<Rightarrow> 's \<Rightarrow> 's web_result" where
  "web_ok v j res s =
     (case wv_dump v (make_success_envelope (wv_rid v) j) of
        Throws m \<Rightarrow> (Inl (ThrowsStd m), res\<lparr>rsp_status := 200\<rparr>, s)
      | Returns _ \<Rightarrow> (Inr (), send_success (wv_rid v) j res, s))"

definition web_error :: "web_env \<Rightarrow> int \<Rightarrow> ErrorCode \<Rightarrow> string \<Rightarrow> http_response \<Rightarrow> 's \<Rightarrow> 's web_result" where
  "web_error v st code m res s = (Inr (), send_error (wv_rid v) st code m JNull res, s)"

text \<open>An error whose details come from the request, which printing may refuse.\<close>

definition web_error_with :: "web_env \<Rightarrow> int \<Rightarrow> ErrorCode \<Rightarrow> string \<Rightarrow> json \<Rightarrow> http_response \<Rightarrow> 's \<Rightarrow> 's web_result" where
  "web_error_with w st code m details res s =
     (case wv_dump w (make_error_envelope (wv_rid w) code m details) of
        Throws x \<Rightarrow> (Inl (ThrowsStd x), res\<lparr>rsp_status := st\<rparr>, s)
      | Returns _ \<Rightarrow> (Inr (), send_error (wv_rid w) st code m details res, s))"

text \<open>A repository call whose exception leaves the handler; the tables keep what it did before it failed.\<close>

definition web_call :: "(string + 'a) \<times> 's \<Rightarrow> ('a \<Rightarrow> 's \<Rightarrow> 's web_result) \<Rightarrow> http_response \<Rightarrow> 's web_result" where
  "web_call r k res = (case r of (Inl m, s) \<Rightarrow> (Inl (ThrowsStd m), res, s) | (Inr x, s) \<Rightarrow> k x s)"

text \<open>The two kinds of \<^verbatim>\<open>try\<close> block: one answers only when nothing has been answered, one always.\<close>

definition web_guard :: "web_env \<Rightarrow> 's web_result \<Rightarrow> 's web_result" where
  "web_guard v r =
     (case r of
        (Inl (ThrowsStd m), res, s) \<Rightarrow>
          if rsp_content res = None then web_error v 500 INTERNAL_ERROR (''internal error: '' @ m) res s else r
      | _ \<Rightarrow> r)"

definition plain_guard :: "web_env \<Rightarrow> 's web_result \<Rightarrow> 's web_result" where
  "plain_guard v r =
     (case r of (Inl (ThrowsStd m), res, s) \<Rightarrow> web_error v 500 INTERNAL_ERROR ''internal error'' res s | _ \<Rightarrow> r)"

section \<open>Numbers in paths and parameters\<close>

type_synonym params = "string \<Rightarrow> string option"

definition stoi_or :: "int \<Rightarrow> string \<Rightarrow> int" where
  "stoi_or d s = (case stoi s of None \<Rightarrow> d | Some i \<Rightarrow> i)"

definition page_params :: "int \<Rightarrow> int \<Rightarrow> params \<Rightarrow> int \<times> int" where
  "page_params d mx ps =
     (let limit = (case ps ''limit'' of None \<Rightarrow> d | Some s \<Rightarrow> stoi_or d s);
          offset = (case ps ''offset'' of None \<Rightarrow> 0 | Some s \<Rightarrow> stoi_or 0 s);
          limit = (if limit \<le> 0 then d else limit);
          limit = (if limit > mx then mx else limit);
          offset = (if offset < 0 then 0 else offset)
      in (limit, offset))"

text \<open>The text after the last slash.\<close>

definition last_segment :: "string \<Rightarrow> string option" where
  "last_segment path = (if CHR ''/'' \<in> set path then Some (rev (takeWhile (\<lambda>c. c \<noteq> CHR ''/'') (rev path))) else None)"

definition id_at_end :: "string \<Rightarrow> int" where
  "id_at_end path = (case last_segment path of None \<Rightarrow> 0 | Some s \<Rightarrow> stoi_or 0 s)"

text \<open>The slug in \<^verbatim>\<open>/api/v1/problems/<slug>/...\<close>; \<open>None\<close> is a path that is too short.\<close>

definition slug_of_path :: "string \<Rightarrow> string option" where
  "slug_of_path path =
     (let pre = ''/api/v1/problems/'' in
      if length path \<le> length pre then None else Some (takeWhile (\<lambda>c. c \<noteq> CHR ''/'') (drop (length pre) path)))"

text \<open>\<^verbatim>\<open>LIMIT ? OFFSET ?\<close> on an ordered result.\<close>

definition page :: "int \<Rightarrow> int \<Rightarrow> 'a list \<Rightarrow> 'a list" where
  "page limit offset xs = take (nat limit) (drop (nat offset) xs)"

section \<open>Statements\<close>

text \<open>One connection, and the statements on it in order.\<close>

definition on_conn :: "'e db_env_scheme \<Rightarrow> (string + 'a) \<times> 's \<Rightarrow> 's \<Rightarrow> (string + 'a) \<times> 's" where
  "on_conn v r s = (case dv_acquire v of Some m \<Rightarrow> (Inl m, s) | None \<Rightarrow> r)"

definition then_do :: "'e db_env_scheme \<Rightarrow> nat \<Rightarrow> 's \<Rightarrow> (string + 'a) \<times> 's \<Rightarrow> (string + 'a) \<times> 's" where
  "then_do v k s r = (case dv_fault v k of Some m \<Rightarrow> (Inl m, s) | None \<Rightarrow> r)"

text \<open>A call that is one query, and one that is one statement.\<close>

definition query :: "'e db_env_scheme \<Rightarrow> 'a \<Rightarrow> 's \<Rightarrow> (string + 'a) \<times> 's" where
  "query v x s = on_conn v (then_do v 0 s (Inr x, s)) s"

definition execute :: "'e db_env_scheme \<Rightarrow> 's \<Rightarrow> 's \<Rightarrow> (string + unit) \<times> 's" where
  "execute v s' s = on_conn v (then_do v 0 s (Inr (), s')) s"

definition healthy :: "'e db_env_scheme \<Rightarrow> bool" where
  "healthy v \<longleftrightarrow> dv_acquire v = None \<and> dv_fault v = (\<lambda>_. None)"

section \<open>Lemmas\<close>

lemma healthy_simps [simp]:
  "healthy v \<Longrightarrow> on_conn v r s = r" "healthy v \<Longrightarrow> then_do v k s r = r"
  "healthy v \<Longrightarrow> query v x s = (Inr x, s)" "healthy v \<Longrightarrow> execute v s' s = (Inr (), s')"
  by (simp_all add: healthy_def on_conn_def then_do_def query_def execute_def)

lemma query_keeps: "snd (query v x s) = s"
  by (simp add: query_def on_conn_def then_do_def split: option.splits)

lemma query_cases:
  obtains m where "query v x s = (Inl m, s)" | "query v x s = (Inr x, s)"
  by (cases "dv_acquire v"; cases "dv_fault v 0") (auto simp: query_def on_conn_def then_do_def)

lemma execute_cases:
  obtains m where "execute v s' s = (Inl m, s)" | "execute v s' s = (Inr (), s')"
  by (cases "dv_acquire v"; cases "dv_fault v 0") (auto simp: execute_def on_conn_def then_do_def)

lemma page_params_range: "0 < d \<Longrightarrow> d \<le> mx \<Longrightarrow> page_params d mx ps = (l, k) \<Longrightarrow> 0 < l \<and> l \<le> mx \<and> 0 \<le> k"
  by (auto simp: page_params_def Let_def split: if_splits)

lemma web_auth_success:
  assumes "web_auth v req k res s = (Inr (), res', s')"
  obtains c where "require_authentication (wv_lib v) (wv_verify1 v) (wv_verify2 v) req (wv_jwt v) = Inr c"
    and "k c = (Inr (), res', s')"
  using assms by (auto simp: web_auth_def split: sum.splits)

lemma web_user_success:
  assumes "web_user c k res s = (Inr (), res', s')"
  obtains i where "stoi (user_id c) = Some i" and "k i = (Inr (), res', s')"
  using assms by (auto simp: web_user_def split: option.splits)

lemma web_error_simps [simp]:
  "web_error v st code m res s = (r, res', s') \<longleftrightarrow> r = Inr () \<and> res' = send_error (wv_rid v) st code m JNull res \<and> s' = s"
  by (auto simp: web_error_def)

lemma web_ok_state: "web_ok v j res s = (r, res', s') \<Longrightarrow> s' = s \<and> rsp_status res' = 200"
  by (auto simp: web_ok_def send_success_def send_json_def split: outcome.splits)

lemma web_ok_Inr: "web_ok v j res s = (Inr (), res', s') \<Longrightarrow> res' = send_success (wv_rid v) j res \<and> s' = s"
  by (auto simp: web_ok_def split: outcome.splits)

lemma last_segment_append: "CHR ''/'' \<notin> set t \<Longrightarrow> last_segment (p @ CHR ''/'' # t) = Some t"
  by (simp add: last_segment_def takeWhile_append)

section \<open>A concrete environment\<close>

text \<open>User 7 with the role \<open>r\<close> sends a document that parses to \<open>j\<close>.\<close>

definition demo_web :: "string \<Rightarrow> json \<Rightarrow> web_env" where
  "demo_web r j = \<lparr>wv_lib = table_lib [(''acc'', demo_secret, access_builder 1500000000 ''j1'' ''litecode'' ''7'' ''alice'' r 60)],
     wv_jwt = \<lparr>jc_secret = demo_secret, jc_issuer = ''litecode''\<rparr>, wv_verify1 = 1530000000, wv_verify2 = 1530000000, wv_rid = None,
     wv_parse = (\<lambda>_. Returns j), wv_dump = demo_dump\<rparr>"

definition web_req :: http_request where
  "web_req = \<lparr>req_body = ''body'', remote_addr = ''10.0.0.1'',
     req_header = (\<lambda>h. if h = ''Authorization'' then Some ''Bearer acc'' else None)\<rparr>"

definition web_claims :: "string \<Rightarrow> json \<Rightarrow> Claims option" where
  "web_claims r j = (case require_authentication (wv_lib (demo_web r j)) (wv_verify1 (demo_web r j)) (wv_verify2 (demo_web r j)) web_req
     (wv_jwt (demo_web r j)) of Inl _ \<Rightarrow> None | Inr c \<Rightarrow> Some c)"

lemma web_claims_user: "map_option (\<lambda>c. (stoi (user_id c), role c)) (web_claims ''user'' JNull) = Some (Some 7, ''user'')"
  by code_simp

lemma demo_web_simps [simp]:
  "wv_lib (demo_web r j) = table_lib [(''acc'', demo_secret, access_builder 1500000000 ''j1'' ''litecode'' ''7'' ''alice'' r 60)]"
  "wv_verify1 (demo_web r j) = 1530000000" "wv_verify2 (demo_web r j) = 1530000000"
  "wv_jwt (demo_web r j) = \<lparr>jc_secret = demo_secret, jc_issuer = ''litecode''\<rparr>" "wv_rid (demo_web r j) = None" "wv_parse (demo_web r j) = (\<lambda>_. Returns j)"
  "wv_dump (demo_web r j) = demo_dump"
  by (simp_all add: demo_web_def)

lemma demo_user_known:
  obtains c where "require_authentication (wv_lib (demo_web ''user'' j)) (wv_verify1 (demo_web ''user'' j)) (wv_verify2 (demo_web ''user'' j)) web_req
     (wv_jwt (demo_web ''user'' j)) = Inr c" "stoi (user_id c) = Some 7" "role c = ''user''"
  using web_claims_user by (cases "web_claims ''user'' JNull") (auto simp: web_claims_def split: sum.splits)

end
