(* ===== verification/Checkins.thy ===== *)
theory Checkins
  imports Web Problem_Repo
begin

text \<open>
  \<^verbatim>\<open>src/db/checkin_repo.h\<close> and \<^verbatim>\<open>src/routes/checkin_routes.h\<close>: the daily check-ins and the streaks of users.

  Days are numbers; \<open>kv_day v k\<close> is \<^verbatim>\<open>CURDATE()\<close> in the \<open>k\<close>-th statement of a call, and the printed forms
  of dates come from \<open>kv_date\<close>. The columns \<^verbatim>\<open>current_streak\<close>, \<^verbatim>\<open>longest_streak\<close> and \<^verbatim>\<open>last_checkin\<close> of the table
  \<^verbatim>\<open>users\<close> are the map \<open>ci_users\<close>, whose domain are the users there are. A date is unique per user. The foreign
  keys to problems and submissions are among the failures of a statement. Every statement commits on its own.

  Main results: while nothing fails the stored streaks are those of the days the user checked in
  (the run that ends with the last check-in, the longest run, the number of days), whatever else runs; what a
  failing last statement leaves behind.
\<close>

section \<open>Tables\<close>

record CheckinRecordRow =
  cr_id :: int
  cr_user_id :: int
  cr_checkin_date :: string
  cr_problem_id :: "int option"
  cr_submission_id :: "int option"
  cr_created_at :: string

record CheckinStats =
  cs_current_streak :: int
  cs_longest_streak :: int
  cs_total_checkins :: int
  cs_checked_in_today :: bool

record checkin =
  ck_id :: int
  ck_user :: int
  ck_day :: int
  ck_problem :: "int option"
  ck_submission :: "int option"
  ck_created :: string

record streak =
  sk_current :: int
  sk_longest :: int
  sk_last :: "int option"

record checkin_db =
  ci_rows :: "checkin list"
  ci_next :: int
  ci_users :: "int \<rightharpoonup> streak"

record checkin_env = fk_env +
  kv_day :: "nat \<Rightarrow> int"
  kv_date :: "int \<Rightarrow> string"

section \<open>Repository\<close>

definition row_to_checkin :: "checkin_env \<Rightarrow> checkin \<Rightarrow> CheckinRecordRow" where
  "row_to_checkin v c = \<lparr>cr_id = ck_id c, cr_user_id = ck_user c, cr_checkin_date = kv_date v (ck_day c),
     cr_problem_id = ck_problem c, cr_submission_id = ck_submission c, cr_created_at = ck_created c\<rparr>"

definition on_day :: "int \<Rightarrow> int \<Rightarrow> checkin_db \<Rightarrow> bool" where
  "on_day u t d \<longleftrightarrow> (\<exists>c \<in> set (ci_rows d). ck_user c = u \<and> ck_day c = t)"

definition has_checkin_today :: "checkin_env \<Rightarrow> int \<Rightarrow> checkin_db \<Rightarrow> (string + bool) \<times> checkin_db" where
  "has_checkin_today v u d = query v (on_day u (kv_day v 0) d) d"

text \<open>The \<^verbatim>\<open>INSERT\<close>, which fails on a second row for the day and for a user who does not exist.\<close>

definition insert_checkin :: "checkin_env \<Rightarrow> nat \<Rightarrow> int \<Rightarrow> int option \<Rightarrow> int option \<Rightarrow> checkin_db \<Rightarrow> string + checkin_db" where
  "insert_checkin v k u pid sid d =
     (case dv_fault v k of
        Some m \<Rightarrow> Inl m
      | None \<Rightarrow>
          if on_day u (kv_day v k) d then Inl (dv_duplicate v)
          else if ci_users d u = None then Inl (fv_foreign_key v)
          else Inr (d\<lparr>ci_rows := ci_rows d @ [\<lparr>ck_id = ci_next d, ck_user = u, ck_day = kv_day v k, ck_problem = pid,
                                                ck_submission = sid, ck_created = dv_now v\<rparr>],
                      ci_next := ci_next d + 1\<rparr>))"

definition create_checkin :: "checkin_env \<Rightarrow> int \<Rightarrow> int option \<Rightarrow> int option \<Rightarrow> checkin_db \<Rightarrow> (string + int) \<times> checkin_db" where
  "create_checkin v u pid sid d =
     on_conn v
       (case insert_checkin v 0 u pid sid d of
          Inr d' \<Rightarrow> (Inr (ci_next d), d')
        | Inl what \<Rightarrow> (if is_duplicate_error what then Inr 0 else Inl (''checkin_repo::create: '' @ what), d)) d"

text \<open>
  Statement 0 looks for today, 1 inserts, 2 reads the user, 3 looks for yesterday (only when there
  was a check-in before), 4 updates the user. Only a failure of statement 0 leaves the call.
\<close>

definition streak_after :: "checkin_env \<Rightarrow> int \<Rightarrow> streak \<Rightarrow> checkin_db \<Rightarrow> string + int" where
  "streak_after v u s d =
     (if sk_last s = None then Inr 1
      else case dv_fault v 3 of
             Some m \<Rightarrow> Inl m
           | None \<Rightarrow> Inr (if on_day u (kv_day v 3 - 1) d then sk_current s + 1 else 1))"

definition try_checkin :: "checkin_env \<Rightarrow> int \<Rightarrow> int option \<Rightarrow> int option \<Rightarrow> checkin_db \<Rightarrow> (string + bool) \<times> checkin_db" where
  "try_checkin v u pid sid d =
     on_conn v
       (case dv_fault v 0 of
          Some m \<Rightarrow> (Inl m, d)
        | None \<Rightarrow>
          if on_day u (kv_day v 0) d then (Inr False, d)
          else case insert_checkin v 1 u pid sid d of
                 Inl _ \<Rightarrow> (Inr False, d)
               | Inr d \<Rightarrow>
                   (case dv_fault v 2 of
                      Some _ \<Rightarrow> (Inr False, d)
                    | None \<Rightarrow>
                      case ci_users d u of
                        None \<Rightarrow> (Inr True, d)
                      | Some s \<Rightarrow>
                          (case streak_after v u s d of
                             Inl _ \<Rightarrow> (Inr False, d)
                           | Inr new_streak \<Rightarrow>
                               (case dv_fault v 4 of
                                  Some _ \<Rightarrow> (Inr False, d)
                                | None \<Rightarrow>
                                    (Inr True, d\<lparr>ci_users := (ci_users d)(u \<mapsto>
                                       \<lparr>sk_current = new_streak, sk_longest = max (sk_longest s) new_streak,
                                        sk_last = Some (kv_day v 4)\<rparr>)\<rparr>))))) d"

definition user_rows :: "int \<Rightarrow> checkin_db \<Rightarrow> checkin list" where
  "user_rows u d = filter (\<lambda>c. ck_user c = u) (ci_rows d)"

definition get_stats :: "checkin_env \<Rightarrow> int \<Rightarrow> checkin_db \<Rightarrow> (string + CheckinStats) \<times> checkin_db" where
  "get_stats v u d =
     on_conn v (then_do v 0 d (then_do v 1 d (then_do v 2 d
       (Inr \<lparr>cs_current_streak = (case ci_users d u of None \<Rightarrow> 0 | Some s \<Rightarrow> sk_current s),
             cs_longest_streak = (case ci_users d u of None \<Rightarrow> 0 | Some s \<Rightarrow> sk_longest s),
             cs_total_checkins = int (length (user_rows u d)),
             cs_checked_in_today = on_day u (kv_day v 1) d\<rparr>, d)))) d"

text \<open>\<^verbatim>\<open>ORDER BY checkin_date DESC\<close>; dates are unique per user.\<close>

definition get_calendar :: "checkin_env \<Rightarrow> int \<Rightarrow> int \<Rightarrow> checkin_db \<Rightarrow> (string + CheckinRecordRow list) \<times> checkin_db" where
  "get_calendar v u days d =
     query v (map (row_to_checkin v)
       (rev (sort_key ck_day (filter (\<lambda>c. ck_day c \<ge> kv_day v 0 - days) (user_rows u d))))) d"

definition get_today_checkin :: "checkin_env \<Rightarrow> int \<Rightarrow> checkin_db \<Rightarrow> (string + CheckinRecordRow option) \<times> checkin_db" where
  "get_today_checkin v u d =
     query v (map_option (row_to_checkin v) (List.find (\<lambda>c. ck_day c = kv_day v 0) (user_rows u d))) d"

section \<open>Routes\<close>

definition serialize_checkin_record :: "CheckinRecordRow \<Rightarrow> json" where
  "serialize_checkin_record r =
     JObj ([(''date'', JStr (cr_checkin_date r))]
           @ (case cr_problem_id r of None \<Rightarrow> [] | Some p \<Rightarrow> [(''problem_id'', JInt p)]))"

definition handle_checkin_today :: "web_env \<Rightarrow> checkin_env \<Rightarrow> http_request \<Rightarrow> http_response \<Rightarrow> checkin_db \<Rightarrow> checkin_db web_result" where
  "handle_checkin_today w v req res d =
     web_auth w req (\<lambda>c. web_user c (\<lambda>u. web_call (get_today_checkin v u d) (\<lambda>today d.
       web_ok w (JObj ([(''checked_in'', JBool (today \<noteq> None))]
         @ (case today of
              None \<Rightarrow> []
            | Some t \<Rightarrow> [(''checkin'', JObj ([(''id'', JInt (cr_id t))]
                @ (case cr_problem_id t of None \<Rightarrow> [] | Some p \<Rightarrow> [(''problem_id'', JInt p)])
                @ [(''created_at'', JStr (cr_created_at t))]))]))) res d) res) res d) res d"

definition handle_checkin_calendar :: "web_env \<Rightarrow> checkin_env \<Rightarrow> http_request \<Rightarrow> http_response \<Rightarrow> checkin_db \<Rightarrow> checkin_db web_result" where
  "handle_checkin_calendar w v req res d =
     web_auth w req (\<lambda>c. web_user c (\<lambda>u. web_call (get_calendar v u 365 d) (\<lambda>rs d.
       web_ok w (JObj [(''records'', JArr (map serialize_checkin_record rs))]) res d) res) res d) res d"

definition handle_checkin_stats :: "web_env \<Rightarrow> checkin_env \<Rightarrow> http_request \<Rightarrow> http_response \<Rightarrow> checkin_db \<Rightarrow> checkin_db web_result" where
  "handle_checkin_stats w v req res d =
     web_auth w req (\<lambda>c. web_user c (\<lambda>u. web_call (get_stats v u d) (\<lambda>st d.
       web_ok w (JObj [(''current_streak'', JInt (cs_current_streak st)), (''longest_streak'', JInt (cs_longest_streak st)),
                       (''total_checkins'', JInt (cs_total_checkins st)), (''checked_in_today'', JBool (cs_checked_in_today st))])
         res d) res) res d) res d"

datatype checkin_route = RtToday | RtCalendar | RtStats

fun checkin_route_handler :: "web_env \<Rightarrow> checkin_env \<Rightarrow> checkin_route \<Rightarrow> http_request \<Rightarrow> http_response \<Rightarrow> checkin_db \<Rightarrow> checkin_db web_result" where
  "checkin_route_handler w v RtToday req res d = web_guard w (handle_checkin_today w v req res d)"
| "checkin_route_handler w v RtCalendar req res d = web_guard w (handle_checkin_calendar w v req res d)"
| "checkin_route_handler w v RtStats req res d = web_guard w (handle_checkin_stats w v req res d)"

section \<open>Streaks of a set of days\<close>

text \<open>A run of \<open>n\<close> days that ends with day \<open>t\<close>.\<close>

definition run_to :: "int set \<Rightarrow> int \<Rightarrow> int \<Rightarrow> bool" where
  "run_to S t n \<longleftrightarrow> 0 \<le> n \<and> {t - n <.. t} \<subseteq> S"

definition streak_of :: "int set \<Rightarrow> streak \<Rightarrow> bool" where
  "streak_of S s \<longleftrightarrow>
     (case sk_last s of
        None \<Rightarrow> S = {} \<and> sk_current s = 0 \<and> sk_longest s = 0
      | Some t \<Rightarrow> t \<in> S \<and> (\<forall>x \<in> S. x \<le> t) \<and> run_to S t (sk_current s) \<and> t - sk_current s \<notin> S \<and> 0 < sk_current s
          \<and> (\<exists>x. run_to S x (sk_longest s)) \<and> (\<forall>x n. run_to S x n \<longrightarrow> n \<le> sk_longest s))"

definition days :: "int \<Rightarrow> checkin_db \<Rightarrow> int set" where
  "days u d = {ck_day c | c. c \<in> set (ci_rows d) \<and> ck_user c = u}"

definition checkins_ok :: "checkin_db \<Rightarrow> bool" where
  "checkins_ok d \<longleftrightarrow> distinct (map (\<lambda>c. (ck_user c, ck_day c)) (ci_rows d))
     \<and> (\<forall>u s. ci_users d u = Some s \<longrightarrow> streak_of (days u d) s) \<and> (\<forall>u. ci_users d u = None \<longrightarrow> days u d = {})"

lemma runs_of_insert:
  assumes "run_to (insert t S) x n" and "\<forall>y \<in> S. y < t" and "t - m \<notin> S" and "0 < m" and "0 < n"
  shows "n \<le> m \<or> run_to S x n"
proof (cases "x = t")
  case True
  have "t - m \<notin> insert t S" using assms(3,4) by auto
  then have "t - m \<notin> {t - n <.. t}" using assms(1) True unfolding run_to_def by blast
  then show ?thesis using assms(4) by auto
next
  case False
  have "x \<in> {x - n <.. x}" using assms(5) by simp
  then have "x \<in> insert t S" using assms(1) unfolding run_to_def by blast
  then have "x < t" using False assms(2) by auto
  then show ?thesis using assms(1) by (auto simp: run_to_def)
qed

lemma run_mono: "run_to S x n \<Longrightarrow> S \<subseteq> T \<Longrightarrow> run_to T x n"
  by (auto simp: run_to_def)

lemma streak_new_day:
  assumes "\<forall>x \<in> S. x < t" and "run_to (insert t S) t n" and "t - n \<notin> S" and "0 < n"
    and longest: "\<exists>x. run_to S x l" "\<forall>x n. run_to S x n \<longrightarrow> n \<le> l"
  shows "streak_of (insert t S) \<lparr>sk_current = n, sk_longest = max l n, sk_last = Some t\<rparr>"
proof -
  have "0 \<le> l" using longest(1) by (auto simp: run_to_def)
  have top: "k \<le> max l n" if "run_to (insert t S) x k" for x k
  proof (cases "0 < k")
    case True
    then show ?thesis using runs_of_insert [OF that assms(1,3,4)] longest(2) by fastforce
  next
    case False
    then show ?thesis using \<open>0 \<le> l\<close> by simp
  qed
  have "\<exists>x. run_to (insert t S) x (max l n)"
  proof (cases "l \<le> n")
    case True
    then show ?thesis using assms(2) by (auto simp: max_def)
  next
    case False
    then have "max l n = l" by simp
    then show ?thesis using longest(1) run_mono [OF _ subset_insertI [of S t]] by metis
  qed
  moreover have "\<forall>x \<in> insert t S. x \<le> t" using assms(1) by auto
  moreover have "t - n \<notin> insert t S" using assms(3,4) by auto
  ultimately show ?thesis using top assms(2,4) by (simp add: streak_of_def)
qed

lemma run_single: "run_to (insert t S) t 1"
proof -
  have "{t - 1 <.. t} = {t}" by auto
  then show ?thesis by (simp add: run_to_def)
qed

text \<open>The rule of \<^verbatim>\<open>try_checkin\<close> keeps the streaks exact.\<close>

lemma streak_step:
  assumes "streak_of S s" and "\<forall>x \<in> S. x < t"
    and n: "n = (if sk_last s = None then 1 else if t - 1 \<in> S then sk_current s + 1 else 1)"
  shows "streak_of (insert t S) \<lparr>sk_current = n, sk_longest = max (sk_longest s) n, sk_last = Some t\<rparr>"
proof (cases "sk_last s")
  case None
  then have "S = {}" "sk_longest s = 0" "n = 1" using assms(1) n by (simp_all add: streak_of_def)
  moreover have "run_to {} x k \<longleftrightarrow> k = 0" for x k by (auto simp: run_to_def)
  ultimately show ?thesis using assms(2) by (intro streak_new_day) (auto simp: run_single)
next
  case (Some l)
  then have l: "l \<in> S" "\<forall>x \<in> S. x \<le> l" "run_to S l (sk_current s)" "l - sk_current s \<notin> S" "0 < sk_current s"
    and longest: "\<exists>x. run_to S x (sk_longest s)" "\<forall>x n. run_to S x n \<longrightarrow> n \<le> sk_longest s"
    using assms(1) by (simp_all add: streak_of_def)
  show ?thesis
  proof (cases "t - 1 \<in> S")
    case True
    then have "l = t - 1" using l(1,2) assms(2) by force
    then have "{t - (sk_current s + 1) <.. t} \<subseteq> insert t {l - sk_current s <.. l}" by auto
    then have "run_to (insert t S) t (sk_current s + 1)" using l(3,5) by (auto simp: run_to_def)
    moreover have "t - (sk_current s + 1) \<notin> S" using l(4) \<open>l = t - 1\<close> by (simp add: algebra_simps)
    ultimately show ?thesis using assms(2) longest l(5) Some True n by (intro streak_new_day) auto
  next
    case False
    then show ?thesis using assms(2) longest Some n run_single by (intro streak_new_day) auto
  qed
qed

section \<open>What a check-in does\<close>

definition steady :: "int \<Rightarrow> checkin_env \<Rightarrow> bool" where
  "steady t v \<longleftrightarrow> dv_acquire v = None \<and> dv_fault v = (\<lambda>_. None) \<and> kv_day v = (\<lambda>_. t)"

lemma steady_env [simp]: "steady t v \<Longrightarrow> healthy v" "steady t v \<Longrightarrow> kv_day v k = t" "steady t v \<Longrightarrow> dv_fault v k = None"
  by (simp_all add: steady_def healthy_def)

lemma on_day_days: "on_day u t d \<longleftrightarrow> t \<in> days u d"
  by (auto simp: on_day_def days_def)

lemma try_checkin_steady:
  assumes "steady t v" and "ci_users d u = Some s"
  shows "try_checkin v u pid sid d =
    (if t \<in> days u d then (Inr False, d)
     else (Inr True, d\<lparr>ci_rows := ci_rows d @ [\<lparr>ck_id = ci_next d, ck_user = u, ck_day = t, ck_problem = pid, ck_submission = sid,
                                             ck_created = dv_now v\<rparr>],
            ci_next := ci_next d + 1,
            ci_users := (ci_users d)(u \<mapsto>
              let n = (if sk_last s = None then 1 else if t - 1 \<in> days u d then sk_current s + 1 else 1)
              in \<lparr>sk_current = n, sk_longest = max (sk_longest s) n, sk_last = Some t\<rparr>)\<rparr>))"
proof -
  have "on_day u (t - 1) (d\<lparr>ci_rows := ci_rows d @ [c], ci_next := k\<rparr>) \<longleftrightarrow> t - 1 \<in> days u d" if "ck_day c = t" for c k
    using that unfolding on_day_def days_def by auto metis
  then show ?thesis using assms by (simp add: try_checkin_def insert_checkin_def streak_after_def on_day_days Let_def)
qed

lemma checkin_no_user:
  assumes "steady t v" and "ci_users d u = None"
  shows "try_checkin v u pid sid d = (Inr False, d)"
  using assms by (simp add: try_checkin_def insert_checkin_def)

lemma days_append: "ci_rows d' = ci_rows d @ [c] \<Longrightarrow> days u d' = (if ck_user c = u then insert (ck_day c) (days u d) else days u d)"
  by (auto simp: days_def)

lemma try_checkin_new:
  assumes "steady t v" and "ci_users d u = Some s" and "t \<notin> days u d"
  obtains c where "ci_rows (snd (try_checkin v u pid sid d)) = ci_rows d @ [c]" "ck_user c = u" "ck_day c = t"
    "ci_users (snd (try_checkin v u pid sid d)) = (ci_users d)(u \<mapsto>
       let n = (if sk_last s = None then 1 else if t - 1 \<in> days u d then sk_current s + 1 else 1)
       in \<lparr>sk_current = n, sk_longest = max (sk_longest s) n, sk_last = Some t\<rparr>)"
  using try_checkin_steady [OF assms(1,2), of pid sid] assms(3) by simp

lemma try_checkin_ok:
  assumes "steady t v" and "checkins_ok d" and "\<forall>c \<in> set (ci_rows d). ck_day c \<le> t"
  shows "checkins_ok (snd (try_checkin v u pid sid d)) \<and> (\<forall>c \<in> set (ci_rows (snd (try_checkin v u pid sid d))). ck_day c \<le> t)"
proof (cases "ci_users d u")
  case None
  then show ?thesis using assms by (simp add: checkin_no_user)
next
  case (Some s)
  show ?thesis
  proof (cases "t \<in> days u d")
    case True
    then show ?thesis using assms try_checkin_steady [OF assms(1) Some] by simp
  next
    case False
    let ?d = "snd (try_checkin v u pid sid d)"
    let ?n = "if sk_last s = None then 1 else if t - 1 \<in> days u d then sk_current s + 1 else 1"
    let ?s = "\<lparr>sk_current = ?n, sk_longest = max (sk_longest s) ?n, sk_last = Some t\<rparr>"
    obtain c where rows: "ci_rows ?d = ci_rows d @ [c]" and c: "ck_user c = u" "ck_day c = t"
      and us: "ci_users ?d = (ci_users d)(u \<mapsto> ?s)"
      by (rule try_checkin_new [OF assms(1) Some False, of pid sid]) (simp add: Let_def)
    have ds: "days x ?d = (if x = u then insert t (days u d) else days x d)" for x using days_append [OF rows] c by simp
    have "\<forall>x \<in> days u d. x < t" using assms(3) False by (fastforce simp: days_def)
    moreover have "streak_of (days u d) s" using assms(2) Some by (simp add: checkins_ok_def)
    ultimately have "streak_of (insert t (days u d)) ?s" by (intro streak_step) auto
    moreover have "(u, t) \<notin> (\<lambda>c. (ck_user c, ck_day c)) ` set (ci_rows d)" using False by (auto simp: days_def)
    ultimately have "checkins_ok ?d" using assms(2) c unfolding checkins_ok_def us ds rows by auto
    then show ?thesis using assms(3) c unfolding rows by simp
  qed
qed

section \<open>Properties\<close>

text \<open>An attempt: the day, the environment of the call, the user, the problem and the submission.\<close>

type_synonym attempt = "int \<times> checkin_env \<times> int \<times> int option \<times> int option"

definition checkin_all :: "attempt list \<Rightarrow> checkin_db \<Rightarrow> checkin_db" where
  "checkin_all xs d = fold (\<lambda>(t, v, u, pid, sid) d. snd (try_checkin v u pid sid d)) xs d"

lemma try_checkin_days:
  assumes "steady t v"
  shows "days x (snd (try_checkin v u pid sid d)) = (if x = u \<and> ci_users d u \<noteq> None then insert t (days x d) else days x d)
    \<and> dom (ci_users (snd (try_checkin v u pid sid d))) = dom (ci_users d)"
proof (cases "ci_users d u")
  case None
  then show ?thesis using assms by (simp add: checkin_no_user)
next
  case (Some s)
  show ?thesis
  proof (cases "t \<in> days u d")
    case True
    then show ?thesis using try_checkin_steady [OF assms Some] by auto
  next
    case False
    show ?thesis
      by (rule try_checkin_new [OF assms Some False, of pid sid]) (use Some days_append in auto)
  qed
qed

lemma checkin_all_ok:
  assumes "\<forall>(t, v, a) \<in> set xs. steady t v" and "sorted (map fst xs)" and "checkins_ok d"
    and "\<forall>c \<in> set (ci_rows d). \<forall>x \<in> set xs. ck_day c \<le> fst x"
  shows "checkins_ok (checkin_all xs d) \<and> dom (ci_users (checkin_all xs d)) = dom (ci_users d)
    \<and> (\<forall>u \<in> dom (ci_users d). days u (checkin_all xs d) = days u d \<union> {t. \<exists>v pid sid. (t, v, u, pid, sid) \<in> set xs})"
  using assms
proof (induction xs arbitrary: d)
  case Nil
  then show ?case by (simp add: checkin_all_def)
next
  case (Cons x xs)
  obtain t v u pid sid where x: "x = (t, v, u, pid, sid)" by (cases x)
  let ?d = "snd (try_checkin v u pid sid d)"
  have st: "steady t v" using Cons.prems(1) x by simp
  have ok: "checkins_ok ?d" and low: "\<forall>c \<in> set (ci_rows ?d). ck_day c \<le> t"
    using try_checkin_ok [OF st Cons.prems(3)] Cons.prems(4) x by auto
  have later: "\<forall>c \<in> set (ci_rows ?d). \<forall>y \<in> set xs. ck_day c \<le> fst y" using low Cons.prems(2) x by fastforce
  have ih: "checkins_ok (checkin_all xs ?d) \<and> dom (ci_users (checkin_all xs ?d)) = dom (ci_users ?d)
    \<and> (\<forall>u \<in> dom (ci_users ?d). days u (checkin_all xs ?d) = days u ?d \<union> {t. \<exists>v pid sid. (t, v, u, pid, sid) \<in> set xs})"
    using Cons.IH [OF _ _ ok later] Cons.prems(1,2) by simp
  have "checkin_all (x # xs) d = checkin_all xs ?d" by (simp add: checkin_all_def x)
  then show ?case using ih try_checkin_days [OF st, of _ u pid sid d] by (auto simp: x)
qed

lemma total_is_card: "checkins_ok d \<Longrightarrow> length (user_rows u d) = card (days u d)"
proof -
  assume "checkins_ok d"
  then have "distinct (map (\<lambda>c. (ck_user c, ck_day c)) (user_rows u d))"
    by (simp add: checkins_ok_def user_rows_def distinct_map_filter)
  then have "distinct (map ck_day (user_rows u d))" by (auto simp: distinct_map inj_on_def user_rows_def)
  moreover have "days u d = set (map ck_day (user_rows u d))" by (auto simp: days_def user_rows_def)
  ultimately show ?thesis using distinct_card by fastforce
qed

definition no_checkins :: "checkin_db \<Rightarrow> bool" where
  "no_checkins d \<longleftrightarrow> ci_rows d = [] \<and> (\<forall>s \<in> ran (ci_users d). s = \<lparr>sk_current = 0, sk_longest = 0, sk_last = None\<rparr>)"

lemma no_checkins_ok: "no_checkins d \<Longrightarrow> checkins_ok d"
  by (auto simp: no_checkins_def checkins_ok_def days_def streak_of_def ran_def)

text \<open>
  C24. Whatever check-ins are attempted, by whichever users, in the order of their days and on a database that answers:
  the statistics of a user are those of the set of days on which the user tried. The longest streak is the longest
  run of consecutive days, the total is the number of days, the flag says whether today is one of them; and the
  current streak is the run that ends with the last day, even when that day is long past on the day of the query.
\<close>

theorem streaks_exact:
  assumes "no_checkins d" and "u \<in> dom (ci_users d)" and "\<forall>(t, v, a) \<in> set xs. steady t v" and "sorted (map fst xs)" and "steady now w"
  defines "S \<equiv> {t. \<exists>v pid sid. (t, v, u, pid, sid) \<in> set xs}"
  shows "\<exists>st l. get_stats w u (checkin_all xs d) = (Inr st, checkin_all xs d)
    \<and> streak_of S \<lparr>sk_current = cs_current_streak st, sk_longest = cs_longest_streak st, sk_last = l\<rparr>
    \<and> cs_total_checkins st = int (card S) \<and> (cs_checked_in_today st \<longleftrightarrow> now \<in> S)"
proof -
  let ?d = "checkin_all xs d"
  have ok: "checkins_ok ?d" and dom: "dom (ci_users ?d) = dom (ci_users d)" and ds: "days u ?d = S"
    using checkin_all_ok [OF assms(3,4) no_checkins_ok [OF assms(1)]] assms(1,2) by (auto simp: no_checkins_def days_def S_def)
  obtain s where s: "ci_users ?d u = Some s" using dom assms(2) by blast
  have "streak_of S s" using ok s ds by (auto simp: checkins_ok_def)
  then have "streak_of S \<lparr>sk_current = sk_current s, sk_longest = sk_longest s, sk_last = sk_last s\<rparr>"
    by (simp add: streak_of_def split: option.splits)
  then show ?thesis using assms(5) s ds total_is_card [OF ok, of u]
    by (intro exI [of _ "\<lparr>cs_current_streak = sk_current s, cs_longest_streak = sk_longest s, cs_total_checkins = int (card S),
                          cs_checked_in_today = (now \<in> S)\<rparr>"] exI [of _ "sk_last s"])
      (simp add: get_stats_def on_day_days)
qed

definition checkin_demo :: "int \<Rightarrow> checkin_env" where
  "checkin_demo t = \<lparr>dv_eq = (=), dv_char_eq = (=), dv_now = [], dv_count_matched = False, dv_duplicate = ''Duplicate entry'',
     dv_acquire = None, dv_fault = (\<lambda>_. None), fv_foreign_key = [], kv_day = (\<lambda>_. t), kv_date = to_string\<rparr>"

definition two_users :: checkin_db where
  "two_users = \<lparr>ci_rows = [], ci_next = 1,
     ci_users = [7 \<mapsto> \<lparr>sk_current = 0, sk_longest = 0, sk_last = None\<rparr>, 8 \<mapsto> \<lparr>sk_current = 0, sk_longest = 0, sk_last = None\<rparr>]\<rparr>"

definition demo_attempts :: "attempt list" where
  "demo_attempts = map (\<lambda>(t, u). (t, checkin_demo t, u, None, None)) [(1, 7), (2, 7), (2, 8), (2, 7), (5, 7)]"

theorem streaks_exact_witness:
  "\<exists>st. get_stats (checkin_demo 9) 7 (checkin_all demo_attempts two_users) = (Inr st, checkin_all demo_attempts two_users)
     \<and> cs_current_streak st = 1 \<and> cs_longest_streak st = 2 \<and> cs_total_checkins st = int (card {1, 2, 5 :: int}) \<and> \<not> cs_checked_in_today st"
proof -
  have "no_checkins two_users" by (auto simp: no_checkins_def two_users_def ran_def split: if_splits)
  moreover have "7 \<in> dom (ci_users two_users)" by (simp add: two_users_def)
  moreover have "\<forall>(t, v, a) \<in> set demo_attempts. steady t v" by (simp add: demo_attempts_def steady_def checkin_demo_def)
  moreover have "sorted (map fst demo_attempts)" by (simp add: demo_attempts_def)
  moreover have "steady 9 (checkin_demo 9)" by (simp add: steady_def checkin_demo_def)
  moreover have "{t. \<exists>v pid sid. (t, v, 7, pid, sid) \<in> set demo_attempts} = {1, 2, 5}" by (auto simp: demo_attempts_def)
  ultimately obtain st where st: "get_stats (checkin_demo 9) 7 (checkin_all demo_attempts two_users) = (Inr st, checkin_all demo_attempts two_users)"
    "cs_total_checkins st = int (card {1, 2, 5 :: int})" "\<not> cs_checked_in_today st"
    using streaks_exact [of two_users 7 demo_attempts 9 "checkin_demo 9"] by auto
  moreover have "map_sum id (\<lambda>st. (cs_current_streak st, cs_longest_streak st))
      (fst (get_stats (checkin_demo 9) 7 (checkin_all demo_attempts two_users))) = Inr (1, 2)" by code_simp
  ultimately show ?thesis by simp
qed

text \<open>
  When the last statement of a check-in fails, the check-in has been stored but the streak has not: the call reports
  false, the day counts, and every further attempt on that day reports false and changes nothing, so the streak of
  the user stays as it was.
\<close>

theorem checkin_half_done:
  assumes "dv_acquire v = None" and "\<forall>k < 4. dv_fault v k = None" and "dv_fault v 4 = Some m" and "kv_day v = (\<lambda>_. t)"
    and "ci_users d u = Some s" and "t \<notin> days u d" and "steady t w"
  shows "\<exists>d'. try_checkin v u pid sid d = (Inr False, d') \<and> days u d' = insert t (days u d) \<and> ci_users d' = ci_users d
    \<and> try_checkin w u pid' sid' d' = (Inr False, d')"
proof -
  have f: "dv_fault v 0 = None" "dv_fault v 1 = None" "dv_fault v 2 = None" "dv_fault v 3 = None" using assms(2) by simp_all
  let ?c = "\<lparr>ck_id = ci_next d, ck_user = u, ck_day = t, ck_problem = pid, ck_submission = sid, ck_created = dv_now v\<rparr>"
  let ?d = "d\<lparr>ci_rows := ci_rows d @ [?c], ci_next := ci_next d + 1\<rparr>"
  have "try_checkin v u pid sid d = (Inr False, ?d)"
    using assms(1,3-6) f by (simp add: try_checkin_def on_conn_def insert_checkin_def streak_after_def on_day_days)
  moreover have "days u ?d = insert t (days u d)" using days_append [of ?d d ?c u] by simp
  moreover have "try_checkin w u pid' sid' ?d = (Inr False, ?d)"
    using try_checkin_steady [OF assms(7), of ?d u s] assms(5) calculation(2) by simp
  ultimately show ?thesis by auto
qed

theorem checkin_half_done_witness:
  "\<exists>d'. try_checkin (checkin_demo 1\<lparr>dv_fault := (\<lambda>k. if k = 4 then Some ''gone away'' else None)\<rparr>) 7 None None two_users = (Inr False, d')
     \<and> days 7 d' = insert 1 (days 7 two_users) \<and> ci_users d' = ci_users two_users
     \<and> try_checkin (checkin_demo 1) 7 None None d' = (Inr False, d')"
  by (rule checkin_half_done) (auto simp: checkin_demo_def two_users_def days_def steady_def)

end
