(* ===== verification/Config.thy ===== *)
theory Config
  imports Connection_Pool Sample_Runner Login_Tracker Rate_Limit Cookie_Utils
begin

text \<open>
  \<^verbatim>\<open>src/config.h\<close>: the settings of the server, read from the environment and an \<^verbatim>\<open>.env\<close> file.

  The environment of the process is a map, changed by \<^verbatim>\<open>setenv\<close>; the file is its contents, or \<open>None\<close> if it cannot be
  opened. Each struct is a record whose default is a definition; each section of \<open>load_config\<close> is a definition that reads its
  variables and makes the checks of the section. The only instance of the configuration is a field of \<open>process\<close>. The records
  of other components are used where they stand for the same struct.

  Main results: a loaded configuration satisfies what the pool, the rate limiter, the lockout, the cookies and the
  scheduler rely on; which line of the file or variable of the environment decides a setting; the printed
  configuration does not depend on its secrets.
\<close>

section \<open>Settings\<close>

record ServerConfig =
  sv_host :: string
  sv_port :: int
  sv_thread_pool_size :: int

record JwtConfig =
  jw_secret :: string
  jw_issuer :: string
  jw_access_ttl_seconds :: int
  jw_refresh_ttl_seconds :: int

text \<open>\<open>JudgeConfig\<close> has the fields the sample runner reads.\<close>

record FullJudgeConfig = JudgeConfig +
  sg_default_time_limit_ms :: int
  sg_default_memory_limit_mb :: int
  sg_compile_timeout_seconds :: int
  sg_run_timeout_seconds :: int
  sg_max_concurrent_judges :: int
  sg_warm_pool_size :: int
  sg_max_queue_size :: int
  sg_docker_socket_url :: string
  sg_pids_limit :: string
  sg_cpp_compile_flags :: string
  sg_compile_error_truncate_bytes :: int
  sg_runtime_error_truncate_bytes :: int
  sg_sample_case_timeout_ms :: int
  sg_sample_compile_timeout_ms :: int

record RedisConfig =
  rd_host :: string
  rd_port :: int
  rd_password :: string
  rd_db :: int
  rd_connection_timeout_seconds :: int
  rd_enabled :: bool

record LoggingConfig =
  lg_level :: string
  lg_format :: string
  lg_file_path :: string
  lg_rotation_max_size :: string
  lg_rotation_max_files :: int
  lg_include_request_id :: bool

record CorsConfig =
  cx_allowed_origins :: string
  cx_allow_credentials :: bool

text \<open>\<open>cookie_config\<close> has the fields the cookie writer reads.\<close>

record CookieConfig = cookie_config +
  ck_enabled :: bool
  ck_allow_body_fallback :: bool

record AdminBootstrapConfig =
  ab_username :: string
  ab_password :: string
  ab_email :: string
  ab_enabled :: bool

record AppConfig =
  app_server :: ServerConfig
  app_database :: DatabaseConfig
  app_jwt :: JwtConfig
  app_judge :: FullJudgeConfig
  app_redis :: RedisConfig
  app_logging :: LoggingConfig
  app_cors :: CorsConfig
  app_rate_limit :: RateLimitConfig
  app_login_lockout :: LoginLockoutConfig
  app_cookie :: CookieConfig
  app_admin_bootstrap :: AdminBootstrapConfig
  app_env_file_path :: string
  app_env_override :: bool

datatype config_error = ConfigError string

section \<open>Environment\<close>

type_synonym environ = "string \<rightharpoonup> string"

definition getenv :: "environ \<Rightarrow> string \<Rightarrow> string option" where
  "getenv env key = (if key = [] then None else env key)"

definition getenv_opt :: "environ \<Rightarrow> string \<Rightarrow> string option" where
  "getenv_opt env key = (case getenv env key of None \<Rightarrow> None | Some v \<Rightarrow> if v = [] then None else Some v)"

definition getenv_or :: "environ \<Rightarrow> string \<Rightarrow> string \<Rightarrow> string" where
  "getenv_or env key fallback = (case getenv_opt env key of None \<Rightarrow> fallback | Some v \<Rightarrow> v)"

text \<open>\<^verbatim>\<open>std::stoll\<close>; the conversion to the type of the setting is \<open>cast\<close>.\<close>

definition stoll :: "string \<Rightarrow> int option" where
  "stoll s = (case scan_int s of None \<Rightarrow> None | Some (k, _) \<Rightarrow> if - (2 ^ 63) \<le> k \<and> k < 2 ^ 63 then Some k else None)"

definition getenv_int_or :: "(int \<Rightarrow> int) \<Rightarrow> environ \<Rightarrow> string \<Rightarrow> int \<Rightarrow> int" where
  "getenv_int_or cast env key fallback =
     (case getenv_opt env key of
        None \<Rightarrow> fallback
      | Some v \<Rightarrow> (case stoll v of None \<Rightarrow> fallback | Some k \<Rightarrow> cast k))"

abbreviation (input) int_or :: "environ \<Rightarrow> string \<Rightarrow> int \<Rightarrow> int" where
  "int_or \<equiv> getenv_int_or wrap32"

abbreviation (input) u16_or :: "environ \<Rightarrow> string \<Rightarrow> int \<Rightarrow> int" where
  "u16_or \<equiv> getenv_int_or (\<lambda>k. k mod 65536)"

definition getenv_bool_or :: "environ \<Rightarrow> string \<Rightarrow> bool \<Rightarrow> bool" where
  "getenv_bool_or env key fallback =
     (case getenv_opt env key of
        None \<Rightarrow> fallback
      | Some v \<Rightarrow>
          let s = map tolower v in
          if s \<in> {''1'', ''true'', ''yes'', ''on'', ''y''} then True
          else if s \<in> {''0'', ''false'', ''no'', ''off'', ''n''} then False
          else fallback)"

section \<open>The file\<close>

definition trim_ws :: "string \<Rightarrow> string" where
  "trim_ws s = rev (dropWhile isspace (rev (dropWhile isspace s)))"

fun strip_comment_from :: "bool \<Rightarrow> bool \<Rightarrow> string \<Rightarrow> string" where
  "strip_comment_from in_single in_double [] = []"
| "strip_comment_from in_single in_double (c # cs) =
     (if c = quote \<and> \<not> in_double then c # strip_comment_from (\<not> in_single) in_double cs
      else if c = dquote \<and> \<not> in_single then c # strip_comment_from in_single (\<not> in_double) cs
      else if c = CHR ''#'' \<and> \<not> in_single \<and> \<not> in_double then []
      else c # strip_comment_from in_single in_double cs)"

definition strip_inline_comment :: "string \<Rightarrow> string" where
  "strip_inline_comment s = strip_comment_from False False s"

definition unquote :: "string \<Rightarrow> string" where
  "unquote value =
     (if length value \<ge> 2 \<and> (hd value = dquote \<and> last value = dquote \<or> hd value = quote \<and> last value = quote)
      then take (length value - 2) (tl value) else value)"

text \<open>\<open>None\<close> is the answer false, after which the caller ignores key and value.\<close>

definition parse_env_line :: "string \<Rightarrow> (string \<times> string) option" where
  "parse_env_line raw =
     (let line = trim_ws (strip_inline_comment raw) in
      if line = [] then None
      else case split_at_char CHR ''='' line of
             None \<Rightarrow> None
           | Some (k, v) \<Rightarrow> if trim_ws k = [] then None else Some (trim_ws k, unquote (trim_ws v)))"

text \<open>\<^verbatim>\<open>std::getline\<close> over the whole file.\<close>

function (sequential) getlines :: "string \<Rightarrow> string list" where
  "getlines [] = []"
| "getlines s = takeWhile (\<lambda>c. c \<noteq> CHR 0x0A) s # getlines (tl (dropWhile (\<lambda>c. c \<noteq> CHR 0x0A) s))"
  by pat_completeness auto
termination
proof (relation "measure length")
  fix v and va :: string
  have "length (dropWhile (\<lambda>c. c \<noteq> CHR 0x0A) (v # va)) \<le> length (v # va)" by (rule length_dropWhile_le)
  then show "(tl (dropWhile (\<lambda>c. c \<noteq> CHR 0x0A) (v # va)), v # va) \<in> measure length"
    unfolding in_measure length_tl by (simp only: list.size)
qed simp

text \<open>The names and values that reach the C library end at the first zero byte; an empty name is refused.\<close>

definition set_env :: "string \<Rightarrow> string \<Rightarrow> bool \<Rightarrow> environ \<Rightarrow> environ" where
  "set_env key value overwrite env =
     (let k = c_str key in
      if k = [] \<or> \<not> overwrite \<and> env k \<noteq> None then env else env(k \<mapsto> c_str value))"

fun load_lines :: "bool \<Rightarrow> string list \<Rightarrow> nat \<Rightarrow> environ \<Rightarrow> nat \<times> environ" where
  "load_lines override_env [] applied env = (applied, env)"
| "load_lines override_env (raw # ls) applied env =
     (case parse_env_line raw of
        None \<Rightarrow> load_lines override_env ls applied env
      | Some (key, value) \<Rightarrow>
          if \<not> override_env \<and> getenv env (c_str key) \<noteq> None then load_lines override_env ls applied env
          else load_lines override_env ls (applied + 1) (set_env key value override_env env))"

definition load_env_file :: "(string \<Rightarrow> string option) \<Rightarrow> string \<Rightarrow> bool \<Rightarrow> environ \<Rightarrow> nat \<times> environ" where
  "load_env_file file path override_env env =
     (case file path of None \<Rightarrow> (0, env) | Some text \<Rightarrow> load_lines override_env (getlines text) 0 env)"

definition toupper :: "char \<Rightarrow> char" where
  "toupper c = (if islower c then char_of (uchar c - 32) else c)"

definition upper :: "string \<Rightarrow> string" where
  "upper s = map toupper s"

section \<open>Loading\<close>

text \<open>The first check that fails, or the value.\<close>

fun checked :: "(bool \<times> string) list \<Rightarrow> 'a \<Rightarrow> config_error + 'a" where
  "checked [] x = Inr x"
| "checked ((bad, msg) # cs) x = (if bad then Inl (ConfigError msg) else checked cs x)"

definition load_server :: "environ \<Rightarrow> config_error + ServerConfig" where
  "load_server env =
     (let c = \<lparr>sv_host = getenv_or env ''SERVER_HOST'' ''0.0.0.0'', sv_port = u16_or env ''SERVER_PORT'' 8080,
               sv_thread_pool_size = int_or env ''SERVER_THREAD_POOL_SIZE'' 16\<rparr>
      in checked [(sv_port c = 0, ''SERVER_PORT must be 1..65535''),
                  (sv_thread_pool_size c < 1, ''SERVER_THREAD_POOL_SIZE must be >= 1'')] c)"

definition load_database :: "environ \<Rightarrow> config_error + DatabaseConfig" where
  "load_database env =
     (let c = \<lparr>db_host = getenv_or env ''DB_HOST'' ''127.0.0.1'', db_port = u16_or env ''DB_PORT'' 33060,
               db_user = getenv_or env ''DB_USER'' ''litecode'', db_password = getenv_or env ''DB_PASSWORD'' [],
               db_database = getenv_or env ''DB_NAME'' ''litecode'', db_socket_path = getenv_or env ''DB_SOCKET'' [],
               db_pool_min_size = int_or env ''DB_POOL_MIN'' 4, db_pool_max_size = int_or env ''DB_POOL_MAX'' 16,
               db_connection_timeout_seconds = int_or env ''DB_CONN_TIMEOUT_SECONDS'' 10\<rparr>
      in checked [(db_host c = [] \<and> db_socket_path c = [], ''DB_HOST (or DB_SOCKET) must be set''),
                  (db_user c = [], ''DB_USER must be set''), (db_database c = [], ''DB_NAME must be set''),
                  (db_pool_min_size c < 1, ''DB_POOL_MIN must be >= 1''),
                  (db_pool_max_size c < db_pool_min_size c,
                   ''DB_POOL_MAX ('' @ to_string (db_pool_max_size c) @ '') must be >= DB_POOL_MIN ('' @ to_string (db_pool_min_size c) @ '')''),
                  (db_connection_timeout_seconds c < 1, ''DB_CONN_TIMEOUT_SECONDS must be >= 1'')] c)"

definition insecure_secret :: string where
  "insecure_secret = ''INSECURE_DEV_ONLY_auto_generated_DO_NOT_USE_IN_PRODUCTION_'' @ replicate 32 (CHR ''!'')"

definition load_jwt :: "environ \<Rightarrow> config_error + JwtConfig" where
  "load_jwt env =
     (let c0 = \<lparr>jw_secret = getenv_or env ''JWT_SECRET'' [], jw_issuer = getenv_or env ''JWT_ISSUER'' ''litecode'',
                jw_access_ttl_seconds = int_or env ''JWT_ACCESS_TTL_SECONDS'' 3600,
                jw_refresh_ttl_seconds = int_or env ''JWT_REFRESH_TTL_SECONDS'' 604800\<rparr>;
          insecure = getenv_bool_or env ''LITECODE_ALLOW_INSECURE_DEFAULTS'' False;
          c = (if jw_secret c0 = [] then c0\<lparr>jw_secret := insecure_secret\<rparr> else c0)
      in checked [(jw_secret c0 = [] \<and> \<not> insecure,
                   ''JWT_SECRET must be set (>= 32 bytes). Generate with `openssl rand -base64 48`. For local dev only, set LITECODE_ALLOW_INSECURE_DEFAULTS=1 to use an ephemeral placeholder secret.''),
                  (length (jw_secret c) < 32, ''JWT_SECRET must be at least 32 bytes (got '' @ to_string (int (length (jw_secret c))) @ '')''),
                  (jw_access_ttl_seconds c < 60, ''JWT_ACCESS_TTL_SECONDS must be >= 60''),
                  (jw_refresh_ttl_seconds c < jw_access_ttl_seconds c, ''JWT_REFRESH_TTL_SECONDS must be >= JWT_ACCESS_TTL_SECONDS'')] c)"

definition default_compile_flags :: string where
  "default_compile_flags =
     ''-O2 -std=c++17 -pipe -fstack-protector-strong -D_FORTIFY_SOURCE=2 -Wformat -Wformat-security -Wl,-z,now -Wl,-z,relro''"

definition read_judge :: "environ \<Rightarrow> FullJudgeConfig" where
  "read_judge env =
     \<lparr>sg_judge_hard_timeout_seconds = int_or env ''JUDGE_HARD_TIMEOUT_SECONDS'' 30,
      sg_output_limit_bytes = int_or env ''JUDGE_OUTPUT_LIMIT_BYTES'' (16 * 1024 * 1024),
      sg_judge_image = getenv_or env ''JUDGE_IMAGE'' ''litecode-judge:latest'',
      sg_network_mode = getenv_or env ''JUDGE_NETWORK_MODE'' ''none'',
      sg_task_dir_parent = getenv_or env ''JUDGE_TASK_DIR_PARENT'' [],
      sg_task_volume_name = getenv_or env ''JUDGE_TASK_VOLUME_NAME'' [],
      sg_sample_max_concurrent = int_or env ''SAMPLE_MAX_CONCURRENT'' 2,
      sg_sample_max_cases = int_or env ''SAMPLE_MAX_CASES'' 3,
      sg_default_time_limit_ms = int_or env ''JUDGE_DEFAULT_TIME_LIMIT_MS'' 1000,
      sg_default_memory_limit_mb = int_or env ''JUDGE_DEFAULT_MEMORY_LIMIT_MB'' 256,
      sg_compile_timeout_seconds = int_or env ''JUDGE_COMPILE_TIMEOUT_SECONDS'' 10,
      sg_run_timeout_seconds = int_or env ''JUDGE_RUN_TIMEOUT_SECONDS'' 30,
      sg_max_concurrent_judges = int_or env ''JUDGE_MAX_CONCURRENT'' 4,
      sg_warm_pool_size = int_or env ''JUDGE_WARM_POOL_SIZE'' 2,
      sg_max_queue_size = int_or env ''JUDGE_MAX_QUEUE_SIZE'' 50,
      sg_docker_socket_url = getenv_or env ''DOCKER_SOCKET_URL'' [],
      sg_pids_limit = getenv_or env ''JUDGE_PIDS_LIMIT'' ''50'',
      sg_cpp_compile_flags = getenv_or env ''JUDGE_CPP_COMPILE_FLAGS'' default_compile_flags,
      sg_compile_error_truncate_bytes = int_or env ''JUDGE_CE_TRUNCATE_BYTES'' (4 * 1024),
      sg_runtime_error_truncate_bytes = int_or env ''JUDGE_RE_TRUNCATE_BYTES'' (2 * 1024),
      sg_sample_case_timeout_ms = int_or env ''SAMPLE_CASE_TIMEOUT_MS'' 3000,
      sg_sample_compile_timeout_ms = int_or env ''SAMPLE_COMPILE_TIMEOUT_MS'' 10000\<rparr>"

definition check_judge :: "FullJudgeConfig \<Rightarrow> config_error + FullJudgeConfig" where
  "check_judge c =
     checked [(sg_max_concurrent_judges c < 1, ''JUDGE_MAX_CONCURRENT must be >= 1''),
              (sg_warm_pool_size c < 0 \<or> sg_warm_pool_size c > sg_max_concurrent_judges c,
               ''JUDGE_WARM_POOL_SIZE must be in [0, JUDGE_MAX_CONCURRENT]''),
              (sg_max_queue_size c < 1, ''JUDGE_MAX_QUEUE_SIZE must be >= 1''),
              (sg_compile_timeout_seconds c < 1 \<or> sg_compile_timeout_seconds c > 60, ''JUDGE_COMPILE_TIMEOUT_SECONDS must be in [1, 60]''),
              (sg_run_timeout_seconds c < 1, ''JUDGE_RUN_TIMEOUT_SECONDS must be >= 1''),
              (sg_default_time_limit_ms c < 1, ''JUDGE_DEFAULT_TIME_LIMIT_MS must be >= 1''),
              (sg_default_memory_limit_mb c < 16, ''JUDGE_DEFAULT_MEMORY_LIMIT_MB must be >= 16''),
              (sg_output_limit_bytes c < 1024, ''JUDGE_OUTPUT_LIMIT_BYTES must be >= 1024''),
              (sg_sample_max_cases c < 1 \<or> sg_sample_max_cases c > 4, ''SAMPLE_MAX_CASES must be in [1, 4]''),
              (sg_sample_case_timeout_ms c < 100 \<or> sg_sample_case_timeout_ms c > 30000, ''SAMPLE_CASE_TIMEOUT_MS must be in [100, 30000]''),
              (sg_sample_max_concurrent c < 1 \<or> sg_sample_max_concurrent c > 8, ''SAMPLE_MAX_CONCURRENT must be in [1, 8]''),
              (sg_sample_compile_timeout_ms c < 1000, ''SAMPLE_COMPILE_TIMEOUT_MS must be >= 1000'')] c"

definition load_redis :: "environ \<Rightarrow> RedisConfig" where
  "load_redis env =
     \<lparr>rd_host = getenv_or env ''REDIS_HOST'' ''127.0.0.1'', rd_port = u16_or env ''REDIS_PORT'' 6379,
      rd_password = getenv_or env ''REDIS_PASSWORD'' [], rd_db = int_or env ''REDIS_DB'' 0,
      rd_connection_timeout_seconds = int_or env ''REDIS_CONN_TIMEOUT_SECONDS'' 5,
      rd_enabled = getenv_bool_or env ''REDIS_ENABLED'' False\<rparr>"

definition load_logging :: "environ \<Rightarrow> config_error + LoggingConfig" where
  "load_logging env =
     (let level = upper (getenv_or env ''LOG_LEVEL'' ''INFO''); fmt = upper (getenv_or env ''LOG_FORMAT'' ''json'');
          c = \<lparr>lg_level = level, lg_format = fmt, lg_file_path = getenv_or env ''LOG_FILE'' [],
               lg_rotation_max_size = getenv_or env ''LOG_ROTATION_MAX_SIZE'' ''10M'',
               lg_rotation_max_files = int_or env ''LOG_ROTATION_MAX_FILES'' 3,
               lg_include_request_id = getenv_bool_or env ''LOG_INCLUDE_REQUEST_ID'' True\<rparr>
      in checked [(level \<notin> {''TRACE'', ''DEBUG'', ''INFO'', ''WARN'', ''ERROR''}, ''LOG_LEVEL must be one of TRACE/DEBUG/INFO/WARN/ERROR''),
                  (fmt \<notin> {''JSON'', ''TEXT''}, ''LOG_FORMAT must be JSON or TEXT'')] c)"

definition load_cors :: "environ \<Rightarrow> CorsConfig" where
  "load_cors env =
     \<lparr>cx_allowed_origins = getenv_or env ''CORS_ALLOWED_ORIGINS'' ''http://localhost:8080,http://127.0.0.1:8080'',
      cx_allow_credentials = getenv_bool_or env ''CORS_ALLOW_CREDENTIALS'' True\<rparr>"

definition read_rate_limit :: "environ \<Rightarrow> RateLimitConfig" where
  "read_rate_limit env =
     \<lparr>auth_register_per_minute_per_ip = int_or env ''RATE_LIMIT_REGISTER_PER_MIN'' 5,
      auth_login_per_minute_per_ip = int_or env ''RATE_LIMIT_LOGIN_PER_MIN'' 10,
      problems_public_per_minute_per_ip = 60,
      submission_per_minute_per_user = int_or env ''RATE_LIMIT_SUBMIT_PER_MIN'' 30,
      admin_write_per_minute = int_or env ''RATE_LIMIT_ADMIN_WRITE_PER_MIN'' 30,
      bulk_import_per_hour = int_or env ''RATE_LIMIT_BULK_IMPORT_PER_HOUR'' 5,
      stats_ranking_per_minute_per_ip = int_or env ''RATE_LIMIT_RANKING_PER_MIN'' 30,
      admin_users_list_per_minute = int_or env ''RATE_LIMIT_ADMIN_USERS_LIST_PER_MIN'' 60,
      admin_users_role_per_minute = int_or env ''RATE_LIMIT_ADMIN_USERS_ROLE_PER_MIN'' 10,
      admin_audit_logs_per_minute = int_or env ''RATE_LIMIT_ADMIN_AUDIT_LOGS_PER_MIN'' 60,
      admin_queue_per_minute = int_or env ''RATE_LIMIT_ADMIN_QUEUE_PER_MIN'' 60,
      sample_run_per_minute_per_user = int_or env ''SAMPLE_RUN_RATE_PER_MINUTE_PER_USER'' 60\<rparr>"

text \<open>The loop over the quotas; \<open>problems_public_per_minute_per_ip\<close> is not among them.\<close>

definition check_rate_limit :: "RateLimitConfig \<Rightarrow> config_error + RateLimitConfig" where
  "check_rate_limit c =
     checked (map (\<lambda>q. (q < 1, ''rate-limit quotas must be >= 1''))
       [auth_register_per_minute_per_ip c, auth_login_per_minute_per_ip c, submission_per_minute_per_user c, admin_write_per_minute c,
        bulk_import_per_hour c, stats_ranking_per_minute_per_ip c, admin_users_list_per_minute c, admin_users_role_per_minute c,
        admin_audit_logs_per_minute c, admin_queue_per_minute c, sample_run_per_minute_per_user c]) c"

definition load_lockout :: "environ \<Rightarrow> config_error + LoginLockoutConfig" where
  "load_lockout env =
     (let c = \<lparr>lo_enabled = getenv_bool_or env ''LOGIN_LOCKOUT_ENABLED'' True, lo_threshold = int_or env ''LOGIN_LOCKOUT_THRESHOLD'' 5,
               lo_window_seconds = int_or env ''LOGIN_LOCKOUT_WINDOW_SECONDS'' 900,
               lo_lockout_duration_seconds = int_or env ''LOGIN_LOCKOUT_DURATION_SECONDS'' 900\<rparr>
      in checked [(lo_threshold c < 1, ''LOGIN_LOCKOUT_THRESHOLD must be >= 1''),
                  (lo_window_seconds c < 1, ''LOGIN_LOCKOUT_WINDOW_SECONDS must be >= 1''),
                  (lo_lockout_duration_seconds c < 1, ''LOGIN_LOCKOUT_DURATION_SECONDS must be >= 1'')] c)"

definition capitalised :: "string \<Rightarrow> string" where
  "capitalised s = (case s of [] \<Rightarrow> [] | c # cs \<Rightarrow> toupper c # cs)"

definition load_cookie :: "environ \<Rightarrow> config_error + CookieConfig" where
  "load_cookie env =
     (let ss = map tolower (getenv_or env ''COOKIE_SAME_SITE'' ''Strict'');
          c = \<lparr>ck_http_only = getenv_bool_or env ''COOKIE_HTTP_ONLY'' True,
               ck_secure = getenv_bool_or env ''COOKIE_SECURE'' (getenv_or env ''LITECODE_ENV'' [] = ''production''),
               ck_same_site = capitalised ss, ck_path = getenv_or env ''COOKIE_PATH'' ''/api/v1/auth'',
               ck_name = getenv_or env ''COOKIE_NAME'' ''lc_refresh'', ck_max_age_seconds = int_or env ''COOKIE_MAX_AGE_SECONDS'' 0,
               ck_enabled = getenv_bool_or env ''COOKIE_ENABLED'' True,
               ck_allow_body_fallback = getenv_bool_or env ''COOKIE_ALLOW_BODY_FALLBACK'' True\<rparr>
      in checked [(ss \<notin> {''strict'', ''lax'', ''none''}, ''COOKIE_SAME_SITE must be Strict, Lax, or None''),
                  (ss = ''none'' \<and> \<not> ck_secure c,
                   ''COOKIE_SAME_SITE=None requires COOKIE_SECURE=true (browsers reject SameSite=None without Secure)''),
                  (ck_path c = [] \<or> hd (ck_path c) \<noteq> CHR ''/'', ''COOKIE_PATH must start with '' @ [quote, CHR ''/'', quote]),
                  (ck_name c = [] \<or> (\<exists>x \<in> set (ck_name c). x \<in> {CHR '' '', CHR '';'', CHR '','', CHR ''='', dquote}),
                   ''COOKIE_NAME must be a non-empty token (no spaces / ; , = or quotes)''),
                  (ck_max_age_seconds c < 0,
                   ''COOKIE_MAX_AGE_SECONDS must be >= 0 (0 means: follow refresh_ttl_seconds at handler time)'')] c)"

definition load_admin :: "environ \<Rightarrow> AdminBootstrapConfig" where
  "load_admin env =
     (let name = getenv_or env ''ADMIN_USERNAME'' []; pw = getenv_or env ''ADMIN_PASSWORD'' []
      in \<lparr>ab_username = name, ab_password = pw, ab_email = getenv_or env ''ADMIN_EMAIL'' [], ab_enabled = (name \<noteq> [] \<and> pw \<noteq> [])\<rparr>)"

definition after_ok :: "config_error + 'a \<Rightarrow> ('a \<Rightarrow> config_error + 'b) \<Rightarrow> config_error + 'b" where
  "after_ok r f = (case r of Inl e \<Rightarrow> Inl e | Inr x \<Rightarrow> f x)"

definition load_settings :: "string \<Rightarrow> bool \<Rightarrow> environ \<Rightarrow> config_error + AppConfig" where
  "load_settings path override_env env =
     after_ok (load_server env) (\<lambda>server. after_ok (load_database env) (\<lambda>database. after_ok (load_jwt env) (\<lambda>jwt.
     after_ok (check_judge (read_judge env)) (\<lambda>judge. after_ok (load_logging env) (\<lambda>logging.
     after_ok (load_lockout env) (\<lambda>lockout. after_ok (check_rate_limit (read_rate_limit env)) (\<lambda>rate_limit.
     after_ok (load_cookie env) (\<lambda>cookie.
       Inr \<lparr>app_server = server, app_database = database, app_jwt = jwt, app_judge = judge, app_redis = load_redis env,
            app_logging = logging, app_cors = load_cors env, app_rate_limit = rate_limit, app_login_lockout = lockout,
            app_cookie = cookie, app_admin_bootstrap = load_admin env, app_env_file_path = path, app_env_override = override_env\<rparr>))))))))"

text \<open>The variables of the file stay set, also when the settings are refused.\<close>

definition load_config ::
    "(string \<Rightarrow> string option) \<Rightarrow> string \<Rightarrow> bool \<Rightarrow> environ \<Rightarrow> (config_error + AppConfig) \<times> environ" where
  "load_config file path override_env env =
     (let env = (if path \<noteq> [] then snd (load_env_file file path override_env env) else env)
      in (load_settings path override_env env, env))"

section \<open>The instance\<close>

record process =
  pr_env :: environ
  pr_slot :: "AppConfig option"

definition fill_slot ::
    "(string \<Rightarrow> string option) \<Rightarrow> string \<Rightarrow> bool \<Rightarrow> process \<Rightarrow> (config_error + AppConfig) \<times> process" where
  "fill_slot file path override_env s =
     (case load_config file path override_env (pr_env s) of
        (Inl e, env) \<Rightarrow> (Inl e, s\<lparr>pr_env := env\<rparr>)
      | (Inr c, env) \<Rightarrow> (Inr c, s\<lparr>pr_env := env, pr_slot := Some c\<rparr>))"

definition init_config ::
    "(string \<Rightarrow> string option) \<Rightarrow> string \<Rightarrow> bool \<Rightarrow> process \<Rightarrow> (config_error + AppConfig) \<times> process" where
  "init_config file path override_env s =
     (case pr_slot s of Some c \<Rightarrow> (Inr c, s) | None \<Rightarrow> fill_slot file path override_env s)"

definition config :: "(string \<Rightarrow> string option) \<Rightarrow> process \<Rightarrow> (config_error + AppConfig) \<times> process" where
  "config file s = (case pr_slot s of Some c \<Rightarrow> (Inr c, s) | None \<Rightarrow> fill_slot file ''.env'' False s)"

text \<open>The exit code and the line written to the standard output (\<open>Inr\<close>) or error stream (\<open>Inl\<close>).\<close>

definition run_config_smoke ::
    "(string \<Rightarrow> string option) \<Rightarrow> string \<Rightarrow> bool \<Rightarrow> process \<Rightarrow> (int \<times> (string + string)) \<times> process" where
  "run_config_smoke file path override_env s =
     (case init_config file path override_env s of
        (Inl (ConfigError m), s) \<Rightarrow> ((1, Inl (''[config] FAIL: '' @ m)), s)
      | (Inr c, s) \<Rightarrow>
          ((0, Inr (''[config] PASS host='' @ sv_host (app_server c) @ '' port='' @ to_string (sv_port (app_server c))
             @ '' db='' @ db_host (app_database c) @ '':'' @ to_string (db_port (app_database c))
             @ '' log_level='' @ lg_level (app_logging c))), s))"

definition reset_config_for_testing :: "process \<Rightarrow> process" where
  "reset_config_for_testing s = s\<lparr>pr_slot := None\<rparr>"

section \<open>Printing\<close>

definition or_text :: "string \<Rightarrow> string \<Rightarrow> string" where
  "or_text s alt = (if s = [] then alt else s)"

definition yes_no :: "bool \<Rightarrow> string" where
  "yes_no b = (if b then ''yes'' else ''no'')"

definition true_false :: "bool \<Rightarrow> string" where
  "true_false b = (if b then ''true'' else ''false'')"

definition dump_server :: "AppConfig \<Rightarrow> string" where
  "dump_server cfg =
     (let v = app_server cfg; d = app_database cfg; w = app_jwt cfg in
      ''  server.host='' @ sv_host v @ '' server.port='' @ to_string (sv_port v)
      @ '' thread_pool_size='' @ to_string (sv_thread_pool_size v) @ [CHR 0x0A]
      @ ''  database.host='' @ db_host d @ '' database.port='' @ to_string (db_port d)
      @ '' database.user='' @ db_user d @ '' database.name='' @ db_database d
      @ '' database.socket='' @ or_text (db_socket_path d) ''<tcp>''
      @ '' pool=['' @ to_string (db_pool_min_size d) @ ''..'' @ to_string (db_pool_max_size d) @ '']'' @ [CHR 0x0A]
      @ ''  database.password=***    db.conn_timeout='' @ to_string (db_connection_timeout_seconds d) @ ''s'' @ [CHR 0x0A]
      @ ''  jwt.issuer='' @ jw_issuer w @ '' jwt.secret_len='' @ to_string (int (length (jw_secret w))) @ ''B (***)'' @ [CHR 0x0A]
      @ ''  jwt.access_ttl='' @ to_string (jw_access_ttl_seconds w) @ ''s jwt.refresh_ttl='' @ to_string (jw_refresh_ttl_seconds w)
      @ ''s'' @ [CHR 0x0A])"

definition dump_judge :: "AppConfig \<Rightarrow> string" where
  "dump_judge cfg =
     (let j = app_judge cfg in
      ''  judge.time_limit='' @ to_string (sg_default_time_limit_ms j) @ ''ms mem_limit='' @ to_string (sg_default_memory_limit_mb j)
      @ ''MB compile_timeout='' @ to_string (sg_compile_timeout_seconds j) @ ''s'' @ [CHR 0x0A]
      @ ''  judge.max_concurrent='' @ to_string (sg_max_concurrent_judges j) @ '' warm_pool='' @ to_string (sg_warm_pool_size j)
      @ '' queue='' @ to_string (sg_max_queue_size j) @ '' output_limit='' @ to_string (sg_output_limit_bytes j) @ ''B'' @ [CHR 0x0A]
      @ ''  judge.docker_socket='' @ or_text (sg_docker_socket_url j) ''<default>'' @ '' judge_image='' @ sg_judge_image j
      @ '' network='' @ sg_network_mode j @ '' pids_limit='' @ sg_pids_limit j @ [CHR 0x0A])"

definition dump_services :: "AppConfig \<Rightarrow> string" where
  "dump_services cfg =
     (let r = app_redis cfg; l = app_logging cfg; x = app_cors cfg in
      ''  redis.enabled='' @ true_false (rd_enabled r) @ '' redis.host='' @ rd_host r @ '' redis.port='' @ to_string (rd_port r)
      @ '' redis.password='' @ (if rd_password r = [] then ''<none>'' else ''***'') @ [CHR 0x0A]
      @ ''  log.level='' @ lg_level l @ '' log.format='' @ lg_format l @ '' log.file='' @ or_text (lg_file_path l) ''<stdout>''
      @ '' request_id='' @ yes_no (lg_include_request_id l) @ [CHR 0x0A]
      @ ''  cors.origins='' @ cx_allowed_origins x @ '' creds='' @ yes_no (cx_allow_credentials x) @ [CHR 0x0A])"

definition dump_limits :: "AppConfig \<Rightarrow> string" where
  "dump_limits cfg =
     (let q = app_rate_limit cfg; l = app_login_lockout cfg in
      ''  rate_limit.register='' @ to_string (auth_register_per_minute_per_ip q) @ ''/min login='' @ to_string (auth_login_per_minute_per_ip q)
      @ ''/min submit='' @ to_string (submission_per_minute_per_user q) @ ''/min admin='' @ to_string (admin_write_per_minute q)
      @ ''/min import='' @ to_string (bulk_import_per_hour q) @ ''/hour ranking='' @ to_string (stats_ranking_per_minute_per_ip q)
      @ ''/min users_list='' @ to_string (admin_users_list_per_minute q) @ ''/min users_role='' @ to_string (admin_users_role_per_minute q)
      @ ''/min audit_logs='' @ to_string (admin_audit_logs_per_minute q) @ ''/min queue='' @ to_string (admin_queue_per_minute q)
      @ ''/min'' @ [CHR 0x0A]
      @ ''  login_lockout='' @ (if lo_enabled l then ''on'' else ''off'') @ '' threshold='' @ to_string (lo_threshold l)
      @ '' window='' @ to_string (lo_window_seconds l) @ ''s duration='' @ to_string (lo_lockout_duration_seconds l) @ ''s'' @ [CHR 0x0A])"

definition dump_cookie :: "AppConfig \<Rightarrow> string" where
  "dump_cookie cfg =
     (let c = app_cookie cfg; a = app_admin_bootstrap cfg in
      ''  cookie.enabled='' @ true_false (ck_enabled c) @ '' cookie.name='' @ ck_name c @ '' cookie.path='' @ ck_path c
      @ '' HttpOnly='' @ yes_no (ck_http_only c) @ '' Secure='' @ yes_no (ck_secure c) @ '' SameSite='' @ ck_same_site c
      @ '' Max-Age='' @ (if ck_max_age_seconds c = 0 then ''<follow refresh_ttl>'' else to_string (ck_max_age_seconds c) @ ''s'')
      @ '' body_fallback='' @ yes_no (ck_allow_body_fallback c) @ [CHR 0x0A]
      @ ''  admin_bootstrap='' @ (if ab_enabled a then ab_username a else ''<disabled>'') @ [CHR 0x0A]
      @ ''  env_file='' @ or_text (app_env_file_path cfg) ''<none>'' @ [CHR 0x0A])"

definition redacted_dump :: "AppConfig \<Rightarrow> string" where
  "redacted_dump cfg =
     ''AppConfig{'' @ [CHR 0x0A] @ dump_server cfg @ dump_judge cfg @ dump_services cfg @ dump_limits cfg @ dump_cookie cfg @ ''}''"

section \<open>Ranges\<close>

lemma checked_Inr: "checked cs x = Inr y \<longleftrightarrow> y = x \<and> (\<forall>(bad, m) \<in> set cs. \<not> bad)"
  by (induction cs x rule: checked.induct) auto

declare checked.simps [simp del]

lemma after_ok_Inr: "after_ok r f = Inr y \<longleftrightarrow> (\<exists>x. r = Inr x \<and> f x = Inr y)"
  by (simp add: after_ok_def split: sum.splits)

lemma int_or_range: "- (2 ^ 31) \<le> d \<Longrightarrow> d < 2 ^ 31 \<Longrightarrow> - (2 ^ 31) \<le> int_or env key d \<and> int_or env key d < 2 ^ 31"
  using wrap32_range by (simp add: getenv_int_or_def split: option.splits)

lemma u16_or_range: "0 \<le> d \<Longrightarrow> d < 65536 \<Longrightarrow> 0 \<le> u16_or env key d \<and> u16_or env key d < 65536"
  by (simp add: getenv_int_or_def split: option.splits)

lemma load_settings_parts:
  assumes "load_settings path ov env = Inr cfg"
  shows "load_server env = Inr (app_server cfg)" "load_database env = Inr (app_database cfg)" "load_jwt env = Inr (app_jwt cfg)"
    "check_judge (read_judge env) = Inr (app_judge cfg)" "load_logging env = Inr (app_logging cfg)"
    "load_lockout env = Inr (app_login_lockout cfg)" "check_rate_limit (read_rate_limit env) = Inr (app_rate_limit cfg)"
    "load_cookie env = Inr (app_cookie cfg)"
  using assms by (auto simp: load_settings_def after_ok_Inr)

lemma server_range: "load_server env = Inr c \<Longrightarrow> 1 \<le> sv_port c \<and> sv_port c \<le> 65535 \<and> 1 \<le> sv_thread_pool_size c"
  using u16_or_range [of 8080 env "''SERVER_PORT''"] by (auto simp: load_server_def checked_Inr Let_def)

lemma database_range:
  assumes "load_database env = Inr c"
  shows "db_connection_timeout_seconds c \<le> 2147483 \<longrightarrow> validate_pool (from_database_config c) = Inr ()" and "1 \<le> db_pool_min_size c"
proof -
  have "int_mul t 1000 = t * 1000" if "1 \<le> t" "t \<le> 2147483" for t
    using that by (simp add: int_mul_def wrap32_id)
  then show "db_connection_timeout_seconds c \<le> 2147483 \<longrightarrow> validate_pool (from_database_config c) = Inr ()"
    unfolding validate_pool_exact using assms by (auto simp: load_database_def checked_Inr Let_def from_database_config_def)
  show "1 \<le> db_pool_min_size c" using assms by (auto simp: load_database_def checked_Inr Let_def)
qed

lemma jwt_range:
  "load_jwt env = Inr c \<Longrightarrow> 32 \<le> length (jw_secret c) \<and> 60 \<le> jw_access_ttl_seconds c \<and> jw_access_ttl_seconds c \<le> jw_refresh_ttl_seconds c"
  by (auto simp: load_jwt_def checked_Inr Let_def)

lemma judge_range:
  "check_judge c' = Inr c \<Longrightarrow> 1 \<le> sg_max_concurrent_judges c \<and> 0 \<le> sg_warm_pool_size c \<and> sg_warm_pool_size c \<le> sg_max_concurrent_judges c
     \<and> 1 \<le> sg_max_queue_size c \<and> 1 \<le> sg_sample_max_concurrent c \<and> sg_sample_max_concurrent c \<le> 8
     \<and> 1 \<le> sg_sample_max_cases c \<and> sg_sample_max_cases c \<le> 4 \<and> 1024 \<le> sg_output_limit_bytes c"
  by (auto simp: check_judge_def checked_Inr)

lemma lockout_range: "load_lockout env = Inr c \<Longrightarrow> 1 \<le> lo_threshold c \<and> 1 \<le> lo_window_seconds c \<and> 1 \<le> lo_lockout_duration_seconds c"
  by (auto simp: load_lockout_def checked_Inr Let_def)

text \<open>All quotas that the rate limiter builds from the configuration.\<close>

definition all_quotas :: "RateLimitConfig \<Rightarrow> RateLimitQuota list" where
  "all_quotas c = [auth_register_quota c, auth_login_quota c, problems_public_quota c, submission_quota c, admin_write_quota c,
     bulk_import_quota c, stats_ranking_quota c, admin_users_list_quota c, admin_users_role_quota c, admin_audit_logs_quota c,
     admin_queue_quota c, sample_run_quota c]"

lemmas quota_defs = auth_register_quota_def auth_login_quota_def problems_public_quota_def submission_quota_def admin_write_quota_def
  bulk_import_quota_def stats_ranking_quota_def admin_users_list_quota_def admin_users_role_quota_def admin_audit_logs_quota_def
  admin_queue_quota_def sample_run_quota_def

lemma rate_limit_range: "check_rate_limit (read_rate_limit env) = Inr c \<Longrightarrow> \<forall>q \<in> set (all_quotas c). quota_ok q"
  using int_or_range by (simp add: check_rate_limit_def read_rate_limit_def checked_Inr all_quotas_def quota_ok_def quota_defs)

lemma capitalised_sites: "capitalised ''strict'' = ''Strict''" "capitalised ''lax'' = ''Lax''" "capitalised ''none'' = ''None''"
  by (code_simp, code_simp, code_simp)

lemma cookie_range:
  assumes "load_cookie env = Inr c"
  shows "ck_same_site c \<in> {''Strict'', ''Lax'', ''None''}" "ck_same_site c = ''None'' \<Longrightarrow> ck_secure c" "0 \<le> ck_max_age_seconds c"
    "\<exists>p. ck_path c = CHR ''/'' # p"
    "ck_name c \<noteq> [] \<and> (\<forall>x \<in> set (ck_name c). x \<notin> {CHR '' '', CHR '';'', CHR '','', CHR ''='', dquote})"
proof -
  define ss where "ss = map tolower (getenv_or env ''COOKIE_SAME_SITE'' ''Strict'')"
  have site: "ck_same_site c = capitalised ss" and ss: "ss \<in> {''strict'', ''lax'', ''none''}" and sec: "ss = ''none'' \<longrightarrow> ck_secure c"
    and path: "ck_path c \<noteq> [] \<and> hd (ck_path c) = CHR ''/''" and age: "0 \<le> ck_max_age_seconds c"
    and name: "ck_name c \<noteq> [] \<and> (\<forall>x \<in> set (ck_name c). x \<notin> {CHR '' '', CHR '';'', CHR '','', CHR ''='', dquote})"
    using assms unfolding load_cookie_def Let_def checked_Inr ss_def [symmetric] by simp_all
  show "ck_same_site c \<in> {''Strict'', ''Lax'', ''None''}" using ss unfolding site by (auto simp: capitalised_sites)
  show "ck_secure c" if "ck_same_site c = ''None''"
  proof -
    have "ss = ''none''" using ss that unfolding site by (auto simp: capitalised_sites)
    then show ?thesis using sec by simp
  qed
  show "\<exists>p. ck_path c = CHR ''/'' # p" using path by (metis list.collapse)
  show "0 \<le> ck_max_age_seconds c" by (rule age)
  show "ck_name c \<noteq> [] \<and> (\<forall>x \<in> set (ck_name c). x \<notin> {CHR '' '', CHR '';'', CHR '','', CHR ''='', dquote})" by (rule name)
qed

text \<open>
  C19. A configuration that loads satisfies what the components rely on: the pool accepts its settings (if the connection
  timeout in milliseconds fits an int, that is, up to 2147483 seconds, which loading does not check), every quota of the
  rate limiter is in the range for which the bound on requests is proved, the lockout has a threshold and durations, the
  secret has at least 32 bytes, a refresh token lives at least as long as an access token, there is a worker, a place in
  the queue and no more warm containers than workers, and the cookie's attributes are ones a browser accepts.
\<close>

theorem config_usable:
  assumes "load_config file path ov env = (Inr cfg, env')"
  shows "1 \<le> sv_port (app_server cfg) \<and> sv_port (app_server cfg) \<le> 65535
    \<and> (db_connection_timeout_seconds (app_database cfg) \<le> 2147483 \<longrightarrow> validate_pool (from_database_config (app_database cfg)) = Inr ())
    \<and> (\<forall>q \<in> set (all_quotas (app_rate_limit cfg)). quota_ok q)
    \<and> 1 \<le> lo_threshold (app_login_lockout cfg) \<and> 1 \<le> lo_window_seconds (app_login_lockout cfg) \<and> 1 \<le> lo_lockout_duration_seconds (app_login_lockout cfg)
    \<and> 32 \<le> length (jw_secret (app_jwt cfg))
    \<and> 60 \<le> jw_access_ttl_seconds (app_jwt cfg) \<and> jw_access_ttl_seconds (app_jwt cfg) \<le> jw_refresh_ttl_seconds (app_jwt cfg)
    \<and> 1 \<le> sg_max_concurrent_judges (app_judge cfg) \<and> 1 \<le> sg_max_queue_size (app_judge cfg)
    \<and> 0 \<le> sg_warm_pool_size (app_judge cfg) \<and> sg_warm_pool_size (app_judge cfg) \<le> sg_max_concurrent_judges (app_judge cfg)
    \<and> ck_same_site (app_cookie cfg) \<in> {''Strict'', ''Lax'', ''None''}
    \<and> (ck_same_site (app_cookie cfg) = ''None'' \<longrightarrow> ck_secure (app_cookie cfg))
    \<and> ck_name (app_cookie cfg) \<noteq> [] \<and> CHR '';'' \<notin> set (ck_name (app_cookie cfg)) \<and> CHR ''='' \<notin> set (ck_name (app_cookie cfg))"
proof -
  have "load_settings path ov env' = Inr cfg" using assms by (auto simp: load_config_def Let_def)
  note parts = load_settings_parts [OF this]
  have "ck_name (app_cookie cfg) \<noteq> [] \<and> CHR '';'' \<notin> set (ck_name (app_cookie cfg)) \<and> CHR ''='' \<notin> set (ck_name (app_cookie cfg))"
    using cookie_range(5) [OF parts(8)] by blast
  moreover have "ck_same_site (app_cookie cfg) = ''None'' \<longrightarrow> ck_secure (app_cookie cfg)" using cookie_range(2) [OF parts(8)] by blast
  ultimately show ?thesis
    using server_range [OF parts(1)] database_range(1) [OF parts(2)] jwt_range [OF parts(3)] judge_range [OF parts(4)]
      lockout_range [OF parts(6)] rate_limit_range [OF parts(7)] cookie_range(1) [OF parts(8)]
    by (elim conjE, intro conjI) assumption+
qed

definition demo_environ :: environ where
  "demo_environ = [''JWT_SECRET'' \<mapsto> ''0123456789abcdef0123456789abcdef'', ''SERVER_PORT'' \<mapsto> ''73616'', ''COOKIE_SAME_SITE'' \<mapsto> ''LAX'']"

theorem config_usable_witness:
  "\<exists>cfg. fst (load_config (\<lambda>_. None) ''.env'' False demo_environ) = Inr cfg \<and> 32 \<le> length (jw_secret (app_jwt cfg))
     \<and> (\<forall>q \<in> set (all_quotas (app_rate_limit cfg)). quota_ok q)"
proof -
  let ?r = "load_config (\<lambda>_. None) ''.env'' False demo_environ"
  have "\<not> isl (fst ?r)" by code_simp
  then obtain cfg env where r: "?r = (Inr cfg, env)" by (cases ?r; cases "fst ?r") auto
  show ?thesis using config_usable [OF r] unfolding r by (intro exI [of _ cfg]) simp
qed

text \<open>Loading accepts a longer timeout, whose product with 1000 is negative, and then the pool refuses to start.\<close>

lemma long_timeout_refused:
  "\<exists>cfg m. load_settings [] False (demo_environ(''DB_CONN_TIMEOUT_SECONDS'' \<mapsto> ''3000000'')) = Inr cfg
     \<and> validate_pool (from_database_config (app_database cfg)) = Inl m"
proof -
  have "(case load_settings [] False (demo_environ(''DB_CONN_TIMEOUT_SECONDS'' \<mapsto> ''3000000'')) of
     Inl _ \<Rightarrow> False | Inr cfg \<Rightarrow> isl (validate_pool (from_database_config (app_database cfg))))" by code_simp
  then show ?thesis by (auto simp: isl_def split: sum.splits)
qed

section \<open>Which setting decides\<close>

text \<open>The values the lines of a file give to a variable, in order.\<close>

definition values_for :: "string \<Rightarrow> string list \<Rightarrow> string list" where
  "values_for k ls = concat (map (\<lambda>l. case parse_env_line l of Some (key, v) \<Rightarrow> if c_str key = k then [c_str v] else [] | None \<Rightarrow> []) ls)"

lemma load_lines_values:
  assumes "k \<noteq> []"
  shows "snd (load_lines ov ls n env) k =
    (if ov then (if values_for k ls = [] then env k else Some (last (values_for k ls)))
     else case env k of Some v \<Rightarrow> Some v | None \<Rightarrow> if values_for k ls = [] then None else Some (hd (values_for k ls)))"
proof (induction ov ls n env rule: load_lines.induct)
  case (2 ov raw ls applied env)
  show ?case
  proof (cases "parse_env_line raw")
    case None
    then have vs: "values_for k (raw # ls) = values_for k ls" by (simp add: values_for_def)
    show ?thesis unfolding vs using 2(1) [OF None] None by simp
  next
    case (Some kv)
    obtain key v where kv: "kv = (key, v)" by fastforce
    let ?new = "set_env key v ov env"
    have vs: "values_for k (raw # ls) = (if c_str key = k then [c_str v] else []) @ values_for k ls"
      using Some kv by (simp add: values_for_def)
    show ?thesis
    proof (cases "\<not> ov \<and> getenv env (c_str key) \<noteq> None")
      case True
      then show ?thesis unfolding vs using 2(2) [OF Some kv [symmetric]] Some kv by (auto simp: getenv_def split: option.splits if_splits)
    next
      case False
      have at: "?new k = (if c_str key = k then Some (c_str v) else env k)"
        using False assms by (auto simp: set_env_def getenv_def Let_def split: if_splits)
      have s: "snd (load_lines ov (raw # ls) applied env) k = snd (load_lines ov ls (applied + 1) ?new) k"
        using Some kv False by auto
      show ?thesis unfolding s 2(3) [OF Some kv [symmetric] False] at vs
        using False assms by (cases "c_str key = k"; cases ov) (auto simp: getenv_def split: option.splits)
    qed
  qed
qed (simp_all add: values_for_def split: option.splits)

text \<open>
  Where a variable gets its value from: without override, a variable that is already set keeps its value, and another
  one takes the value of the first line of the file that names it; with override the last line decides.
\<close>

theorem env_precedence:
  assumes "file path = Some text" and "k \<noteq> []"
  shows "snd (load_env_file file path ov env) k =
    (let vs = values_for k (getlines text) in
     if ov then (if vs = [] then env k else Some (last vs))
     else case env k of Some v \<Rightarrow> Some v | None \<Rightarrow> if vs = [] then None else Some (hd vs))"
  using load_lines_values [OF assms(2)] assms(1) by (simp add: load_env_file_def Let_def)

theorem env_precedence_witness:
  "snd (load_env_file (\<lambda>_. Some ''A=1
A=2'') ''.env'' False Map.empty) ''A'' = Some ''1'' \<and> snd (load_env_file (\<lambda>_. Some ''A=1
A=2'') ''.env'' True Map.empty) ''A'' = Some ''2''"
proof -
  let ?t = "''A=1
A=2''"
  have v: "values_for ''A'' (getlines ?t) = [''1'', ''2'']" by code_simp
  show ?thesis
    using env_precedence [of "\<lambda>_. Some ?t" "''.env''" ?t "''A''" False Map.empty] env_precedence [of "\<lambda>_. Some ?t" "''.env''" ?t "''A''" True Map.empty]
    unfolding v by (simp del: getlines.simps)
qed

text \<open>A value in double quotes is read back as it was written, whatever it contains besides double quotes.\<close>

lemma strip_plain: "quote \<notin> set k \<Longrightarrow> dquote \<notin> set k \<Longrightarrow> CHR ''#'' \<notin> set k \<Longrightarrow> strip_comment_from False False (k @ r) = k @ strip_comment_from False False r"
  by (induction k) auto

lemma strip_quoted: "dquote \<notin> set v \<Longrightarrow> strip_comment_from False True (v @ r) = v @ strip_comment_from False True r"
  by (induction v) auto

lemma trim_ws_id: "s = [] \<or> \<not> isspace (hd s) \<and> \<not> isspace (last s) \<Longrightarrow> trim_ws s = s"
  by (cases s rule: rev_cases) (auto simp: trim_ws_def hd_append dropWhile_append3 neq_Nil_conv split: if_splits)

theorem quoted_line_roundtrip:
  assumes "k \<noteq> []" and "\<forall>c \<in> set k. \<not> isspace c \<and> c \<notin> {CHR ''='', CHR ''#'', quote, dquote}" and "dquote \<notin> set v"
  shows "parse_env_line (k @ [CHR ''='', dquote] @ v @ [dquote]) = Some (k, v)"
proof -
  have plain: "quote \<notin> set k" "dquote \<notin> set k" "CHR ''#'' \<notin> set k" using assms(2) by blast+
  have "strip_inline_comment (k @ [CHR ''='', dquote] @ v @ [dquote]) = k @ [CHR ''='', dquote] @ v @ [dquote]"
    unfolding strip_inline_comment_def strip_plain [OF plain] by (simp add: strip_quoted [OF assms(3), unfolded dquote_def] dquote_def)
  moreover have "trim_ws (k @ [CHR ''='', dquote] @ v @ [dquote]) = k @ [CHR ''='', dquote] @ v @ [dquote]"
    using assms(1,2) by (intro trim_ws_id disjI2) (simp add: isspace_def dquote_def)
  moreover have "trim_ws k = k" using assms(1,2) by (intro trim_ws_id) simp
  moreover have "trim_ws (dquote # v @ [dquote]) = dquote # v @ [dquote]" by (intro trim_ws_id disjI2) (simp add: isspace_def dquote_def)
  moreover have "unquote (dquote # v @ [dquote]) = v" by (simp add: unquote_def)
  moreover have "split_at_char CHR ''='' (k @ CHR ''='' # dquote # v @ [dquote]) = Some (k, dquote # v @ [dquote])"
    using assms(2) by (intro split_at_char_append) auto
  ultimately show ?thesis using assms(1) by (simp add: parse_env_line_def)
qed

section \<open>Secrets\<close>

text \<open>
  C23. The printed configuration tells nothing of the passwords and of the token secret but the length of the secret and
  whether a password for the cache is set: other secrets of the same shape give the same text.
\<close>

theorem dump_hides_secrets:
  assumes "length secret = length (jw_secret (app_jwt cfg))" and "cache = [] \<longleftrightarrow> rd_password (app_redis cfg) = []"
  shows "redacted_dump (cfg\<lparr>app_database := (app_database cfg)\<lparr>db_password := pw\<rparr>, app_jwt := (app_jwt cfg)\<lparr>jw_secret := secret\<rparr>,
      app_redis := (app_redis cfg)\<lparr>rd_password := cache\<rparr>, app_admin_bootstrap := (app_admin_bootstrap cfg)\<lparr>ab_password := admin\<rparr>\<rparr>)
    = redacted_dump cfg"
  using assms
  by (simp add: redacted_dump_def dump_server_def dump_judge_def dump_services_def dump_limits_def dump_cookie_def Let_def
      del: append_Cons append_Nil append_assoc)

theorem dump_hides_secrets_witness:
  "\<exists>cfg. load_settings [] False demo_environ = Inr cfg
     \<and> redacted_dump (cfg\<lparr>app_jwt := (app_jwt cfg)\<lparr>jw_secret := replicate 32 (CHR ''x'')\<rparr>\<rparr>) = redacted_dump cfg"
proof -
  have "(case load_settings [] False demo_environ of Inl _ \<Rightarrow> False | Inr cfg \<Rightarrow> length (jw_secret (app_jwt cfg)) = 32)" by code_simp
  then obtain cfg where c: "load_settings [] False demo_environ = Inr cfg" "length (jw_secret (app_jwt cfg)) = 32" by (auto split: sum.splits)
  have "cfg\<lparr>app_database := (app_database cfg)\<lparr>db_password := db_password (app_database cfg)\<rparr>, app_jwt := (app_jwt cfg)\<lparr>jw_secret := s\<rparr>,
      app_redis := (app_redis cfg)\<lparr>rd_password := rd_password (app_redis cfg)\<rparr>,
      app_admin_bootstrap := (app_admin_bootstrap cfg)\<lparr>ab_password := ab_password (app_admin_bootstrap cfg)\<rparr>\<rparr> = cfg\<lparr>app_jwt := (app_jwt cfg)\<lparr>jw_secret := s\<rparr>\<rparr>" for s
    by simp
  then show ?thesis
    using dump_hides_secrets [of "replicate 32 (CHR ''x'')" cfg "rd_password (app_redis cfg)" "ab_password (app_admin_bootstrap cfg)" "db_password (app_database cfg)"] c
    by (intro exI [of _ cfg]) simp
qed

section \<open>Ports and the instance\<close>

text \<open>A port number beyond 16 bits is not refused but reduced: 73616 opens port 8080.\<close>

theorem port_reduced:
  assumes "env ''SERVER_PORT'' = Some (to_string (p + 65536 * m))" and "0 < p" "p < 65536" "0 \<le> m" "p + 65536 * m < 2 ^ 63"
    and "load_settings path ov env = Inr cfg"
  shows "sv_port (app_server cfg) = p"
proof -
  have "scan_int (to_string (p + 65536 * m)) = Some (p + 65536 * m, [])" using assms(2,4) by (simp add: to_string_def scan_nat)
  moreover have "to_string (p + 65536 * m) \<noteq> []" by (simp add: to_string_def nat_to_string_nonempty)
  ultimately have "u16_or env ''SERVER_PORT'' 8080 = p"
    using assms(1-5) by (simp add: getenv_int_or_def getenv_opt_def getenv_def stoll_def)
  then show ?thesis using load_settings_parts(1) [OF assms(6)] by (auto simp: load_server_def checked_Inr Let_def)
qed

text \<open>Once a configuration is loaded it stays, whatever the environment and the file become.\<close>

lemma slot_stays:
  assumes "fst (init_config file path ov s) = Inr c"
  shows "init_config file' path' ov' (snd (init_config file path ov s)) = (Inr c, snd (init_config file path ov s))"
    "config file' (snd (init_config file path ov s)) = (Inr c, snd (init_config file path ov s))"
  using assms by (auto simp: init_config_def fill_slot_def config_def split: option.splits prod.splits sum.splits)

end
