(* ===== verification/Utf8.thy ===== *)
theory Utf8
  imports Http
begin

text \<open>
  UTF-8 as \<^verbatim>\<open>nlohmann::json::dump\<close> checks it (RFC 3629: no overlong forms, no surrogates, nothing above
  U+10FFFF), and \<^verbatim>\<open>sanitize_utf8\<close> of \<^verbatim>\<open>src/routes/solution_routes.h\<close>, which looks at the structure of the
  sequences only. \<open>strict_dump\<close> is the documented behaviour of the library: printing throws exactly on a document
  that holds a string which is no UTF-8.

  Main results: valid text passes the sanitizer unchanged, the output of the sanitizer always has the structure
  of UTF-8, and text cut inside a character is not valid, whatever ASCII text follows.
\<close>

section \<open>Valid text\<close>

definition cont :: "char \<Rightarrow> bool" where
  "cont c \<longleftrightarrow> 128 \<le> uchar c \<and> uchar c < 192"

text \<open>The range of the second byte depends on the first.\<close>

definition second :: "nat \<Rightarrow> char \<Rightarrow> bool" where
  "second b c \<longleftrightarrow> cont c \<and> (b = 0xE0 \<longrightarrow> 0xA0 \<le> uchar c) \<and> (b = 0xED \<longrightarrow> uchar c < 0xA0)
     \<and> (b = 0xF0 \<longrightarrow> 0x90 \<le> uchar c) \<and> (b = 0xF4 \<longrightarrow> uchar c < 0x90)"

text \<open>The length of the first character, 0 if there is none.\<close>

definition char_len :: "string \<Rightarrow> nat" where
  "char_len s =
     (case s of
        [] \<Rightarrow> 0
      | c # cs \<Rightarrow>
          let b = uchar c in
          if b < 0x80 then 1
          else if 0xC2 \<le> b \<and> b < 0xE0 then (case cs of d # _ \<Rightarrow> if cont d then 2 else 0 | _ \<Rightarrow> 0)
          else if 0xE0 \<le> b \<and> b < 0xF0 then (case cs of d # e # _ \<Rightarrow> if second b d \<and> cont e then 3 else 0 | _ \<Rightarrow> 0)
          else if 0xF0 \<le> b \<and> b < 0xF5 then
            (case cs of d # e # f # _ \<Rightarrow> if second b d \<and> cont e \<and> cont f then 4 else 0 | _ \<Rightarrow> 0)
          else 0)"

function utf8 :: "string \<Rightarrow> bool" where
  "utf8 s = (if s = [] then True else if char_len s = 0 then False else utf8 (drop (char_len s) s))"
  by pat_completeness auto

termination by (relation "measure length") auto

declare utf8.simps [simp del]

fun utf8_json :: "json \<Rightarrow> bool" where
  "utf8_json (JStr t) = utf8 t"
| "utf8_json (JArr js) = (\<forall>j \<in> set js. utf8_json j)"
| "utf8_json (JObj ms) = (\<forall>m \<in> set ms. utf8 (fst m) \<and> utf8_json (snd m))"
| "utf8_json _ = True"

definition strict_dump :: "(json \<Rightarrow> string outcome) \<Rightarrow> bool" where
  "strict_dump dump \<longleftrightarrow> (\<forall>j. (\<exists>t. dump j = Returns t) \<longleftrightarrow> utf8_json j)"

section \<open>The sanitizer\<close>

text \<open>\<^verbatim>\<open>(c & 0xE0) == 0xC0\<close>, \<^verbatim>\<open>(c & 0xF0) == 0xE0\<close>, \<^verbatim>\<open>(c & 0xF8) == 0xF0\<close> and \<^verbatim>\<open>(c & 0xC0) == 0x80\<close> are ranges.\<close>

fun sanitize_utf8 :: "string \<Rightarrow> string" where
  "sanitize_utf8 [] = []"
| "sanitize_utf8 (c # cs) =
     (let b = uchar c in
      if b < 0x80 then c # sanitize_utf8 cs
      else if 0xC0 \<le> b \<and> b < 0xE0 then
        (case cs of
           d # ds \<Rightarrow> if cont d then c # d # sanitize_utf8 ds else CHR ''?'' # sanitize_utf8 cs
         | _ \<Rightarrow> CHR ''?'' # sanitize_utf8 cs)
      else if 0xE0 \<le> b \<and> b < 0xF0 then
        (case cs of
           d # e # es \<Rightarrow> if cont d \<and> cont e then c # d # e # sanitize_utf8 es else CHR ''?'' # sanitize_utf8 cs
         | _ \<Rightarrow> CHR ''?'' # sanitize_utf8 cs)
      else if 0xF0 \<le> b \<and> b < 0xF8 then
        (case cs of
           d # e # f # fs \<Rightarrow>
             if cont d \<and> cont e \<and> cont f then c # d # e # f # sanitize_utf8 fs else CHR ''?'' # sanitize_utf8 cs
         | _ \<Rightarrow> CHR ''?'' # sanitize_utf8 cs)
      else CHR ''?'' # sanitize_utf8 cs)"

section \<open>Lemmas\<close>

lemma second_cont: "second b c \<Longrightarrow> cont c"
  by (simp add: second_def)

lemma char_len_append: "0 < char_len a \<Longrightarrow> char_len (a @ b) = char_len a"
  by (cases a; cases "tl a"; cases "tl (tl a)"; cases "tl (tl (tl a))") (auto simp: char_len_def Let_def split: if_splits)

lemma char_len_le: "char_len a \<le> length a"
  by (simp add: char_len_def Let_def split: list.splits if_splits)

lemma utf8_Nil [simp]: "utf8 []"
  by (subst utf8.simps) simp

lemma utf8_step: "s \<noteq> [] \<Longrightarrow> utf8 s \<longleftrightarrow> 0 < char_len s \<and> utf8 (drop (char_len s) s)"
  by (subst utf8.simps) simp

lemma utf8_append: "utf8 a \<Longrightarrow> utf8 (a @ b) = utf8 b"
proof (induction a rule: utf8.induct)
  case (1 a)
  show ?case
  proof (cases "a = []")
    case False
    then have "0 < char_len a" "utf8 (drop (char_len a) a)" using "1.prems" by (auto simp: utf8_step)
    then show ?thesis using "1.IH" False char_len_append [of a b] char_len_le [of a] by (simp add: utf8_step)
  qed simp
qed

text \<open>A character does not reach over an ASCII byte.\<close>

lemma char_len_cut: "0 < char_len (a @ c # b) \<Longrightarrow> uchar c < 128 \<Longrightarrow> a \<noteq> [] \<Longrightarrow> char_len a = char_len (a @ c # b)"
  by (cases a; cases "tl a"; cases "tl (tl a)"; cases "tl (tl (tl a))")
    (auto simp: char_len_def Let_def cont_def second_def split: if_splits list.split_asm)

lemma utf8_cut: "utf8 (a @ c # b) \<Longrightarrow> uchar c < 128 \<Longrightarrow> utf8 a"
proof (induction a rule: utf8.induct)
  case (1 a)
  show ?case
  proof (cases "a = []")
    case False
    have n: "0 < char_len (a @ c # b)" "utf8 (drop (char_len (a @ c # b)) (a @ c # b))"
      using "1.prems"(1) by (auto simp: utf8_step)
    have eq: "char_len (a @ c # b) = char_len a" using char_len_cut [OF n(1) "1.prems"(2) False] by simp
    then have "utf8 (drop (char_len a) a @ c # b)" using n(2) char_len_le [of a] by simp
    then show ?thesis using "1.IH" False n(1) eq "1.prems"(2) by (simp add: utf8_step)
  qed simp
qed

declare sanitize_utf8.simps(2) [simp del]

lemma sanitize_char:
  assumes "0 < char_len s"
  shows "sanitize_utf8 s = take (char_len s) s @ sanitize_utf8 (drop (char_len s) s)"
proof (cases s)
  case (Cons c cs)
  show ?thesis using assms unfolding Cons
    by (simp only: sanitize_utf8.simps(2) [of c cs]) (auto simp: char_len_def Let_def second_cont split: list.splits if_splits)
qed (use assms in \<open>simp add: char_len_def\<close>)

lemma sanitize_valid: "utf8 t \<Longrightarrow> sanitize_utf8 t = t"
proof (induction t rule: utf8.induct)
  case (1 t)
  show ?case
  proof (cases "t = []")
    case False
    then show ?thesis using 1 sanitize_char [of t] by (simp add: utf8_step)
  qed simp
qed

text \<open>The length of the first sequence as the sanitizer sees it, 0 where it writes a question mark.\<close>

definition shape_len :: "string \<Rightarrow> nat" where
  "shape_len s =
     (case s of
        [] \<Rightarrow> 0
      | c # cs \<Rightarrow>
          let b = uchar c in
          if b < 0x80 then 1
          else if 0xC0 \<le> b \<and> b < 0xE0 then (case cs of d # _ \<Rightarrow> if cont d then 2 else 0 | _ \<Rightarrow> 0)
          else if 0xE0 \<le> b \<and> b < 0xF0 then (case cs of d # e # _ \<Rightarrow> if cont d \<and> cont e then 3 else 0 | _ \<Rightarrow> 0)
          else if 0xF0 \<le> b \<and> b < 0xF8 then
            (case cs of d # e # f # _ \<Rightarrow> if cont d \<and> cont e \<and> cont f then 4 else 0 | _ \<Rightarrow> 0)
          else 0)"

lemma sanitize_shape:
  "sanitize_utf8 (c # cs) =
     (let n = shape_len (c # cs)
      in if n = 0 then CHR ''?'' # sanitize_utf8 cs else take n (c # cs) @ sanitize_utf8 (drop n (c # cs)))"
  by (simp only: sanitize_utf8.simps(2) [of c cs]) (auto simp: shape_len_def Let_def split: list.splits)

lemma shape_len_le: "shape_len s \<le> length s"
  by (simp add: shape_len_def Let_def split: list.splits if_splits)

lemma shape_len_take: "0 < shape_len s \<Longrightarrow> shape_len (take (shape_len s) s @ r) = shape_len s"
  by (cases s; cases "tl s"; cases "tl (tl s)"; cases "tl (tl (tl s))") (auto simp: shape_len_def Let_def split: if_splits)

lemma sanitize_whole: "0 < shape_len s \<Longrightarrow> sanitize_utf8 (take (shape_len s) s @ r) = take (shape_len s) s @ sanitize_utf8 r"
proof (cases "take (shape_len s) s @ r")
  case (Cons c cs)
  assume n: "0 < shape_len s"
  show ?thesis using sanitize_shape [of c cs] n shape_len_take [OF n, of r] shape_len_le [of s]
    unfolding Cons [symmetric] by (simp add: Let_def)
qed (simp add: shape_len_def)

lemma question_shape: "shape_len (CHR ''?'' # cs) = 1"
  by (simp add: shape_len_def)

lemma sanitize_again: "sanitize_utf8 (sanitize_utf8 s) = sanitize_utf8 s \<and> length (sanitize_utf8 s) = length s"
proof (induction "length s" arbitrary: s rule: less_induct)
  case less
  show ?case
  proof (cases s)
    case (Cons c cs)
    show ?thesis
    proof (cases "shape_len s = 0")
      case True
      then have s: "sanitize_utf8 s = CHR ''?'' # sanitize_utf8 cs" using sanitize_shape [of c cs] Cons by (simp add: Let_def)
      have q: "sanitize_utf8 (CHR ''?'' # x) = CHR ''?'' # sanitize_utf8 x" for x
        using sanitize_shape [of "CHR ''?''" x] by (simp add: Let_def question_shape)
      show ?thesis using less [of cs] Cons unfolding s q by simp
    next
      case False
      then have n: "0 < shape_len s" by simp
      then have s: "sanitize_utf8 s = take (shape_len s) s @ sanitize_utf8 (drop (shape_len s) s)"
        using sanitize_shape [of c cs] Cons by (simp add: Let_def)
      show ?thesis using less [of "drop (shape_len s) s"] n shape_len_le [of s] Cons unfolding s sanitize_whole [OF n] by simp
    qed
  qed simp
qed

section \<open>Properties\<close>

text \<open>
  The sanitizer leaves valid UTF-8 alone, keeps the length of every string (each byte that starts no complete
  sequence becomes one question mark), and cleaning twice is cleaning once.
\<close>

theorem sanitizer_stable:
  "(utf8 t \<longrightarrow> sanitize_utf8 t = t) \<and> sanitize_utf8 (sanitize_utf8 t) = sanitize_utf8 t \<and> length (sanitize_utf8 t) = length t"
  using sanitize_valid sanitize_again by blast

theorem sanitizer_stable_witness: "sanitize_utf8 (CHR 0xE4 # CHR 0xBD # CHR 0xA0 # ''!'') = CHR 0xE4 # CHR 0xBD # CHR 0xA0 # ''!''"
proof -
  have "utf8 (CHR 0xE4 # CHR 0xBD # CHR 0xA0 # ''!'')" by code_simp
  then show ?thesis using sanitizer_stable by blast
qed

end
