(* ===== verification/Notifications.thy ===== *)
theory Notifications
  imports Web Utf8 Problem_Repo
begin

text \<open>
  \<^verbatim>\<open>src/db/notification_repo.h\<close> and \<^verbatim>\<open>src/routes/notification_routes.h\<close>: the notifications of users, the
  broadcaster behind the event stream, and the functions other routes call to notify somebody.

  \<open>community\<close> is the part of the state the community features share. Times are numbers, printed by \<open>mv_fmt\<close>;
  rows with the same time come in the order of \<open>mv_ties\<close>. \<^verbatim>\<open>pop\<close> holds the mutex of the registry while
  it waits, which \<^verbatim>\<open>push\<close>, \<^verbatim>\<open>join\<close> and \<^verbatim>\<open>leave\<close> need, so nothing changes during the wait and every operation is
  one step. Values a column cannot hold are among the failures of a statement.

  Main results: users see and change their own notifications only; the route that marks one notification as
  read never does; the stream never delivers an event; a notification whose text is cut inside a character
  makes the caller fail.
\<close>

section \<open>Shared state\<close>

record NotificationRow =
  nt_id :: int
  nt_user_id :: int
  nt_type :: string
  nt_message :: string
  nt_link :: "string option"
  nt_reference_id :: "int option"
  nt_is_read :: bool
  nt_created_at :: string

record notice = NotificationRow +
  nt_time :: int

record channel =
  ch_events :: "string list"
  ch_disconnected :: bool

record community =
  cm_users :: user_db
  cm_problems :: problem_db
  cm_notes :: "notice list"
  cm_note_next :: int
  cm_channels :: "int \<rightharpoonup> channel"

record com_env = fk_env +
  mv_time :: int
  mv_fmt :: "int \<Rightarrow> string"
  mv_ties :: "int \<Rightarrow> int"

definition user_exists :: "int \<Rightarrow> 'c community_scheme \<Rightarrow> bool" where
  "user_exists u s \<longleftrightarrow> (\<exists>r \<in> set (ud_users (cm_users s)). u_id r = u)"

definition newest_first :: "com_env \<Rightarrow> ('r \<Rightarrow> int) \<Rightarrow> ('r \<Rightarrow> int) \<Rightarrow> 'r list \<Rightarrow> 'r list" where
  "newest_first v key time xs = sort_key (\<lambda>x. - time x) (sort_key (\<lambda>x. mv_ties v (key x)) xs)"

section \<open>Repository\<close>

definition create_note :: "com_env \<Rightarrow> NotificationRow \<Rightarrow> 'c community_scheme \<Rightarrow> (string + int) \<times> 'c community_scheme" where
  "create_note v n s =
     on_conn v
       (case (case dv_fault v 0 of Some m \<Rightarrow> Some m | None \<Rightarrow> if user_exists (nt_user_id n) s then None else Some (fv_foreign_key v)) of
          Some m \<Rightarrow> (Inl (''notification_repo::create: '' @ m), s)
        | None \<Rightarrow>
            (Inr (cm_note_next s),
             s\<lparr>cm_notes := cm_notes s @
                 [\<lparr>nt_id = cm_note_next s, nt_user_id = nt_user_id n, nt_type = nt_type n, nt_message = nt_message n,
                   nt_link = Some (case nt_link n of None \<Rightarrow> [] | Some l \<Rightarrow> l),
                   nt_reference_id = Some (case nt_reference_id n of None \<Rightarrow> 0 | Some r \<Rightarrow> r),
                   nt_is_read = False, nt_created_at = mv_fmt v (mv_time v), nt_time = mv_time v\<rparr>],
               cm_note_next := cm_note_next s + 1\<rparr>)) s"

definition list_for_user :: "com_env \<Rightarrow> int \<Rightarrow> int \<Rightarrow> int \<Rightarrow> 'c community_scheme \<Rightarrow> (string + NotificationRow list) \<times> 'c community_scheme" where
  "list_for_user v u limit offset s =
     query v (map NotificationRow.truncate
       (page limit offset (newest_first v nt_id nt_time (filter (\<lambda>n. nt_user_id n = u) (cm_notes s))))) s"

definition count_unread :: "com_env \<Rightarrow> int \<Rightarrow> 'c community_scheme \<Rightarrow> (string + int) \<times> 'c community_scheme" where
  "count_unread v u s = query v (int (length (filter (\<lambda>n. nt_user_id n = u \<and> \<not> nt_is_read n) (cm_notes s)))) s"

definition mark_where :: "(notice \<Rightarrow> bool) \<Rightarrow> 'c community_scheme \<Rightarrow> 'c community_scheme" where
  "mark_where P s = s\<lparr>cm_notes := map (\<lambda>n. if P n then n\<lparr>nt_is_read := True\<rparr> else n) (cm_notes s)\<rparr>"

definition mark_read :: "com_env \<Rightarrow> int \<Rightarrow> int \<Rightarrow> 'c community_scheme \<Rightarrow> (string + unit) \<times> 'c community_scheme" where
  "mark_read v u i s = execute v (mark_where (\<lambda>n. nt_id n = i \<and> nt_user_id n = u) s) s"

definition mark_all_read :: "com_env \<Rightarrow> int \<Rightarrow> 'c community_scheme \<Rightarrow> (string + unit) \<times> 'c community_scheme" where
  "mark_all_read v u s = execute v (mark_where (\<lambda>n. nt_user_id n = u \<and> \<not> nt_is_read n) s) s"

section \<open>Broadcaster\<close>

definition join :: "int \<Rightarrow> (int \<rightharpoonup> channel) \<Rightarrow> (int \<rightharpoonup> channel)" where
  "join u m = m(u \<mapsto> (case m u of None \<Rightarrow> \<lparr>ch_events = [], ch_disconnected = False\<rparr> | Some c \<Rightarrow> c\<lparr>ch_disconnected := False\<rparr>))"

definition leave :: "int \<Rightarrow> (int \<rightharpoonup> channel) \<Rightarrow> (int \<rightharpoonup> channel)" where
  "leave u m = (case m u of None \<Rightarrow> m | Some c \<Rightarrow> m(u \<mapsto> c\<lparr>ch_disconnected := True\<rparr>))"

definition push_frame :: "int \<Rightarrow> string \<Rightarrow> (int \<rightharpoonup> channel) \<Rightarrow> (int \<rightharpoonup> channel)" where
  "push_frame u f m =
     (case m u of
        None \<Rightarrow> m
      | Some c \<Rightarrow> if ch_disconnected c then m else m(u \<mapsto> c\<lparr>ch_events := ch_events c @ [f]\<rparr>))"

definition make_sse_frame :: "string \<Rightarrow> string \<Rightarrow> string" where
  "make_sse_frame event text = ''event: '' @ event @ [CHR 0x0A] @ ''data: '' @ text @ [CHR 0x0A, CHR 0x0A]"

text \<open>Printing the document may throw, before anything is queued.\<close>

definition push :: "web_env \<Rightarrow> int \<Rightarrow> string \<Rightarrow> json \<Rightarrow> 'c community_scheme \<Rightarrow> (string + unit) \<times> 'c community_scheme" where
  "push w u event data s =
     (case wv_dump w data of
        Throws m \<Rightarrow> (Inl m, s)
      | Returns t \<Rightarrow> (Inr (), s\<lparr>cm_channels := push_frame u (make_sse_frame event t) (cm_channels s)\<rparr>))"

text \<open>The frame (empty for none); queued events are handed out even after the disconnection.\<close>

definition pop :: "int \<Rightarrow> (int \<rightharpoonup> channel) \<Rightarrow> string \<times> (int \<rightharpoonup> channel)" where
  "pop u m =
     (case m u of
        None \<Rightarrow> ([], m)
      | Some c \<Rightarrow> (case ch_events c of [] \<Rightarrow> ([], m) | f # fs \<Rightarrow> (f, m(u \<mapsto> c\<lparr>ch_events := fs\<rparr>))))"

section \<open>Handlers\<close>

definition note_json :: "NotificationRow \<Rightarrow> json" where
  "note_json n =
     JObj ([(''id'', JInt (nt_id n)), (''type'', JStr (nt_type n)), (''message'', JStr (nt_message n))]
           @ (case nt_link n of None \<Rightarrow> [] | Some l \<Rightarrow> [(''link'', JStr l)])
           @ (case nt_reference_id n of None \<Rightarrow> [] | Some r \<Rightarrow> [(''reference_id'', JInt r)])
           @ [(''is_read'', JBool (nt_is_read n)), (''created_at'', JStr (nt_created_at n))])"

text \<open>\<open>e k\<close> is what the database does in the \<open>k\<close>-th repository call of a handler.\<close>

definition handle_list_notifications ::
    "web_env \<Rightarrow> (nat \<Rightarrow> com_env) \<Rightarrow> params \<Rightarrow> http_request \<Rightarrow> http_response \<Rightarrow> 'c community_scheme \<Rightarrow> 'c community_scheme web_result" where
  "handle_list_notifications w e ps req res s =
     web_auth w req (\<lambda>c. web_user c (\<lambda>u.
       let (limit, offset) = page_params 20 100 ps in
       web_call (list_for_user (e 0) u limit offset s) (\<lambda>items s.
       web_call (count_unread (e 1) u s) (\<lambda>unread s.
       web_ok w (JObj [(''items'', JArr (map note_json items)), (''unread_count'', JInt unread), (''limit'', JInt limit),
                       (''offset'', JInt offset)]) res s) res) res) res s) res s"

definition handle_mark_read ::
    "web_env \<Rightarrow> (nat \<Rightarrow> com_env) \<Rightarrow> string \<Rightarrow> http_request \<Rightarrow> http_response \<Rightarrow> 'c community_scheme \<Rightarrow> 'c community_scheme web_result" where
  "handle_mark_read w e path req res s =
     web_auth w req (\<lambda>c. web_user c (\<lambda>u.
       let i = id_at_end path in
       if i = 0 then web_error w 400 INVALID_INPUT ''invalid notification id'' res s
       else web_call (mark_read (e 0) u i s) (\<lambda>_ s. web_ok w (JObj [(''ok'', JBool True)]) res s) res) res s) res s"

definition handle_mark_all_read ::
    "web_env \<Rightarrow> (nat \<Rightarrow> com_env) \<Rightarrow> http_request \<Rightarrow> http_response \<Rightarrow> 'c community_scheme \<Rightarrow> 'c community_scheme web_result" where
  "handle_mark_all_read w e req res s =
     web_auth w req (\<lambda>c. web_user c (\<lambda>u.
       web_call (mark_all_read (e 0) u s) (\<lambda>_ s. web_ok w (JObj [(''ok'', JBool True)]) res s) res) res s) res s"

definition handle_unread_count ::
    "web_env \<Rightarrow> (nat \<Rightarrow> com_env) \<Rightarrow> http_request \<Rightarrow> http_response \<Rightarrow> 'c community_scheme \<Rightarrow> 'c community_scheme web_result" where
  "handle_unread_count w e req res s =
     web_auth w req (\<lambda>c. web_user c (\<lambda>u.
       web_call (count_unread (e 0) u s) (\<lambda>n s. web_ok w (JObj [(''count'', JInt n)]) res s) res) res s) res s"

text \<open>
  The handler of the stream installs a provider and returns; the provider, which the HTTP library calls
  afterwards until the client is gone, is \<open>stream_chunk\<close>.
\<close>

definition handle_notification_stream ::
    "web_env \<Rightarrow> http_request \<Rightarrow> http_response \<Rightarrow> 'c community_scheme \<Rightarrow> 'c community_scheme web_result" where
  "handle_notification_stream w req res s =
     web_auth w req (\<lambda>c. web_user c (\<lambda>u.
       (Inr (),
        set_header ''Connection'' ''keep-alive'' (set_header ''Cache-Control'' ''no-cache''
          (set_header ''Content-Type'' ''text/event-stream; charset=utf-8'' res)),
        s\<lparr>cm_channels := leave u (join u (cm_channels s))\<rparr>)) res s) res s"

definition kPing :: string where
  "kPing = '': ping'' @ [CHR 0x0A, CHR 0x0A]"

definition stream_chunk :: "int \<Rightarrow> (int \<rightharpoonup> channel) \<Rightarrow> string \<times> (int \<rightharpoonup> channel)" where
  "stream_chunk u m = (case pop u m of (f, m') \<Rightarrow> (if f \<noteq> [] then f else kPing, m'))"

datatype note_route = RtNotes params | RtUnread | RtReadOne string | RtReadAll | RtStream

fun note_route_handler ::
    "web_env \<Rightarrow> (nat \<Rightarrow> com_env) \<Rightarrow> note_route \<Rightarrow> http_request \<Rightarrow> http_response \<Rightarrow> 'c community_scheme \<Rightarrow> 'c community_scheme web_result" where
  "note_route_handler w e (RtNotes ps) req res s = plain_guard w (handle_list_notifications w e ps req res s)"
| "note_route_handler w e RtUnread req res s = plain_guard w (handle_unread_count w e req res s)"
| "note_route_handler w e (RtReadOne path) req res s = plain_guard w (handle_mark_read w e path req res s)"
| "note_route_handler w e RtReadAll req res s = plain_guard w (handle_mark_all_read w e req res s)"
| "note_route_handler w e RtStream req res s = plain_guard w (handle_notification_stream w req res s)"

section \<open>Notifying\<close>

text \<open>The Chinese texts, byte by byte.\<close>

definition kReplied :: string where
  "kReplied =
     [CHR 0x20, CHR 0xE5, CHR 0x9B, CHR 0x9E, CHR 0xE5, CHR 0xA4, CHR 0x8D, CHR 0xE4, CHR 0xBA, CHR 0x86, CHR 0xE4, CHR 0xBD,
      CHR 0xA0, CHR 0xE7, CHR 0x9A, CHR 0x84, CHR 0xE8, CHR 0xAE, CHR 0xA8, CHR 0xE8, CHR 0xAE, CHR 0xBA, CHR 0xEF, CHR 0xBC,
      CHR 0x9A, CHR 0xE3, CHR 0x80, CHR 0x8C]"

definition kLiked :: string where
  "kLiked =
     [CHR 0x20, CHR 0xE7, CHR 0x82, CHR 0xB9, CHR 0xE8, CHR 0xB5, CHR 0x9E, CHR 0xE4, CHR 0xBA, CHR 0x86, CHR 0xE4, CHR 0xBD,
      CHR 0xA0, CHR 0xE7, CHR 0x9A, CHR 0x84, CHR 0xE9, CHR 0xA2, CHR 0x98, CHR 0xE8, CHR 0xA7, CHR 0xA3, CHR 0xEF, CHR 0xBC,
      CHR 0x9A, CHR 0xE3, CHR 0x80, CHR 0x8C]"

definition kCommented :: string where
  "kCommented =
     [CHR 0x20, CHR 0xE8, CHR 0xAF, CHR 0x84, CHR 0xE8, CHR 0xAE, CHR 0xBA, CHR 0xE4, CHR 0xBA, CHR 0x86, CHR 0xE4, CHR 0xBD,
      CHR 0xA0, CHR 0xE7, CHR 0x9A, CHR 0x84, CHR 0xE9, CHR 0xA2, CHR 0x98, CHR 0xE8, CHR 0xA7, CHR 0xA3, CHR 0xEF, CHR 0xBC,
      CHR 0x9A, CHR 0xE3, CHR 0x80, CHR 0x8C]"

definition kRepliedComment :: string where
  "kRepliedComment =
     [CHR 0x20, CHR 0xE5, CHR 0x9B, CHR 0x9E, CHR 0xE5, CHR 0xA4, CHR 0x8D, CHR 0xE4, CHR 0xBA, CHR 0x86, CHR 0xE4, CHR 0xBD,
      CHR 0xA0, CHR 0xE7, CHR 0x9A, CHR 0x84, CHR 0xE8, CHR 0xAF, CHR 0x84, CHR 0xE8, CHR 0xAE, CHR 0xBA, CHR 0xEF, CHR 0xBC,
      CHR 0x9A, CHR 0xE3, CHR 0x80, CHR 0x8C]"

definition kClose :: string where
  "kClose =
     [CHR 0xE3, CHR 0x80, CHR 0x8D]"

definition kSomeUser :: string where
  "kSomeUser =
     [CHR 0xE6, CHR 0x9F, CHR 0x90, CHR 0xE7, CHR 0x94, CHR 0xA8, CHR 0xE6, CHR 0x88, CHR 0xB7]"

definition clip :: "nat \<Rightarrow> string \<Rightarrow> string" where
  "clip n t = (if length t > n then take n t @ ''...'' else t)"

definition trim :: "string \<Rightarrow> string" where
  "trim s = rev (dropWhile isspace (rev (dropWhile isspace s)))"

text \<open>The end of each function: store, ignoring any exception, then push.\<close>

definition deliver :: "web_env \<Rightarrow> com_env \<Rightarrow> int \<Rightarrow> string \<Rightarrow> string \<Rightarrow> string \<Rightarrow> int \<Rightarrow> 'c community_scheme \<Rightarrow> (string + unit) \<times> 'c community_scheme" where
  "deliver w v target ty message link ref s =
     (let n = \<lparr>nt_id = 0, nt_user_id = target, nt_type = ty, nt_message = message, nt_link = Some link,
               nt_reference_id = Some ref, nt_is_read = False, nt_created_at = []\<rparr>
      in push w target ''notification''
           (JObj [(''type'', JStr ty), (''message'', JStr message), (''link'', JStr link), (''reference_id'', JInt ref)])
           (snd (create_note v n s)))"

definition notify_discussion_reply ::
    "web_env \<Rightarrow> com_env \<Rightarrow> int \<Rightarrow> int \<Rightarrow> int \<Rightarrow> string \<Rightarrow> string \<Rightarrow> 'c community_scheme \<Rightarrow> (string + unit) \<times> 'c community_scheme" where
  "notify_discussion_reply w v author replier discussion_id name title s =
     (if author = replier then (Inr (), s)
      else deliver w v author ''discussion_reply'' (name @ kReplied @ clip 50 title @ kClose)
             (''/discuss.html?id='' @ to_string discussion_id) discussion_id s)"

definition notify_solution_like ::
    "web_env \<Rightarrow> com_env \<Rightarrow> int \<Rightarrow> int \<Rightarrow> int \<Rightarrow> string \<Rightarrow> string \<Rightarrow> 'c community_scheme \<Rightarrow> (string + unit) \<times> 'c community_scheme" where
  "notify_solution_like w v author liker solution_id name title s =
     (if author = liker then (Inr (), s)
      else deliver w v author ''solution_like'' (name @ kLiked @ clip 50 title @ kClose)
             (''/solution.html?id='' @ to_string solution_id) solution_id s)"

definition notify_solution_comment ::
    "web_env \<Rightarrow> com_env \<Rightarrow> int \<Rightarrow> int \<Rightarrow> int \<Rightarrow> int \<Rightarrow> string \<Rightarrow> string \<Rightarrow> string \<Rightarrow> 'c community_scheme \<Rightarrow> (string + unit) \<times> 'c community_scheme" where
  "notify_solution_comment w v author commenter solution_id comment_id name title excerpt s =
     (if author = commenter then (Inr (), s)
      else deliver w v author ''solution_comment''
             (name @ kCommented @ clip 50 title @ kClose @ '': '' @ clip 30 (trim excerpt))
             (''/solution.html?id='' @ to_string solution_id @ ''#comment-'' @ to_string comment_id) solution_id s)"

definition notify_solution_comment_reply ::
    "web_env \<Rightarrow> com_env \<Rightarrow> int \<Rightarrow> int \<Rightarrow> int \<Rightarrow> int \<Rightarrow> string \<Rightarrow> string \<Rightarrow> string \<Rightarrow> 'c community_scheme \<Rightarrow> (string + unit) \<times> 'c community_scheme" where
  "notify_solution_comment_reply w v target replier solution_id comment_id name title excerpt s =
     (if target = replier then (Inr (), s)
      else deliver w v target ''solution_comment_reply''
             (name @ kRepliedComment @ clip 50 title @ kClose @ '': '' @ clip 30 (trim excerpt))
             (''/solution.html?id='' @ to_string solution_id @ ''#comment-'' @ to_string comment_id) solution_id s)"

section \<open>Lemmas\<close>

lemma newest_first_set [simp]: "set (newest_first v key time xs) = set xs"
  by (simp add: newest_first_def)

lemma page_subset: "set (page limit offset xs) \<subseteq> set xs"
  unfolding page_def by (meson set_drop_subset set_take_subset subset_trans)

lemma web_call_query: "web_call (query v x s) k res = (Inr (), res', s') \<Longrightarrow> k x s = (Inr (), res', s')"
  by (cases rule: query_cases [of v x s]) (simp_all add: web_call_def)

lemma web_call_execute: "web_call (execute v s1 s) k res = (Inr (), res', s') \<Longrightarrow> k () s1 = (Inr (), res', s')"
  by (cases rule: execute_cases [of v s1 s]) (simp_all add: web_call_def)

lemma mark_where_frame:
  "(\<And>n. P n \<Longrightarrow> nt_user_id n = u) \<Longrightarrow> filter (\<lambda>n. nt_user_id n \<noteq> u) (cm_notes (mark_where P s)) = filter (\<lambda>n. nt_user_id n \<noteq> u) (cm_notes s)"
proof -
  assume P: "\<And>n. P n \<Longrightarrow> nt_user_id n = u"
  have "filter (\<lambda>n. nt_user_id n \<noteq> u) (map (\<lambda>n. if P n then n\<lparr>nt_is_read := True\<rparr> else n) xs) = filter (\<lambda>n. nt_user_id n \<noteq> u) xs" for xs
    by (induction xs) (use P in auto)
  then show ?thesis by (simp add: mark_where_def)
qed

lemma mark_where_only_reads:
  "map (\<lambda>n. n\<lparr>nt_is_read := True\<rparr>) (cm_notes (mark_where P s)) = map (\<lambda>n. n\<lparr>nt_is_read := True\<rparr>) (cm_notes s)"
  by (simp add: mark_where_def)

text \<open>What a route may do to the notifications, for user \<open>u\<close>.\<close>

definition own_only :: "int \<Rightarrow> 'c community_scheme \<Rightarrow> 'c community_scheme \<Rightarrow> bool" where
  "own_only u s s' \<longleftrightarrow> filter (\<lambda>n. nt_user_id n \<noteq> u) (cm_notes s') = filter (\<lambda>n. nt_user_id n \<noteq> u) (cm_notes s)
     \<and> map (\<lambda>n. n\<lparr>nt_is_read := True\<rparr>) (cm_notes s') = map (\<lambda>n. n\<lparr>nt_is_read := True\<rparr>) (cm_notes s)"

lemma own_only_same: "cm_notes s' = cm_notes s \<Longrightarrow> own_only u s s'"
  by (simp add: own_only_def)

lemma plain_guard_state: "snd (snd (plain_guard w r)) = snd (snd r)"
  by (auto simp: plain_guard_def web_error_def split: sum.splits prod.splits handler_exn.splits)

lemma web_ok_snd [simp]: "snd (snd (web_ok w j res s)) = s"
  by (simp add: web_ok_def split: outcome.splits)

lemma web_error_snd [simp]: "snd (snd (web_error w st c m res s)) = s"
  by (simp add: web_error_def)

lemma web_call_snd: "(\<And>x t. fst r = Inr x \<Longrightarrow> t = snd r \<Longrightarrow> Q (snd (snd (k x t)))) \<Longrightarrow> Q (snd r) \<Longrightarrow> Q (snd (snd (web_call r k res)))"
  by (cases r) (auto simp: web_call_def split: sum.splits)

lemma execute_snd: "Q s \<Longrightarrow> Q s1 \<Longrightarrow> Q (snd (execute v s1 s))"
  by (cases rule: execute_cases [of v s1 s]) simp_all

lemma mark_where_own: "(\<And>n. P n \<Longrightarrow> nt_user_id n = u) \<Longrightarrow> own_only u s (mark_where P s)"
  using mark_where_frame [of P u s] mark_where_only_reads [of P s] by (simp add: own_only_def)

lemma mark_own: "own_only u s (snd (mark_read v u i s))" "own_only u s (snd (mark_all_read v u s))"
proof -
  have *: "own_only u s (snd (execute v (mark_where P s) s))" if "\<And>n. P n \<Longrightarrow> nt_user_id n = u" for P
    using mark_where_own [OF that] by (intro execute_snd [where Q = "own_only u s"]) (simp_all add: own_only_same)
  show "own_only u s (snd (mark_read v u i s))" unfolding mark_read_def by (rule *) simp
  show "own_only u s (snd (mark_all_read v u s))" unfolding mark_all_read_def by (rule *) simp
qed

lemma query_call_snd: "(\<And>x. Q (snd (snd (k x s)))) \<Longrightarrow> Q s \<Longrightarrow> Q (snd (snd (web_call (query v y s) k res)))"
  by (cases rule: query_cases [of v y s]) (simp_all add: web_call_def)

lemma note_route_own:
  assumes "require_authentication (wv_lib w) (wv_verify1 w) (wv_verify2 w) req (wv_jwt w) = Inr c" and "stoi (user_id c) = Some u"
  shows "own_only u s (snd (snd (note_route_handler w e r req res s)))"
proof -
  have id: "own_only u s s" by (simp add: own_only_same)
  have enter: "own_only u s (snd (snd (web_auth w req (\<lambda>c. web_user c k res s) res s)))" if "own_only u s (snd (snd (k u)))" for k
    using assms that by (simp add: web_auth_def web_user_def)
  show ?thesis
  proof (cases r)
    case (RtNotes ps)
    show ?thesis unfolding RtNotes note_route_handler.simps plain_guard_state handle_list_notifications_def
      by (intro enter) (auto simp: Let_def list_for_user_def count_unread_def id split: prod.splits intro!: query_call_snd [where Q = "own_only u s"])
  next
    case RtUnread
    show ?thesis unfolding RtUnread note_route_handler.simps plain_guard_state handle_unread_count_def
      by (intro enter) (auto simp: count_unread_def id intro!: query_call_snd [where Q = "own_only u s"])
  next
    case (RtReadOne path)
    show ?thesis unfolding RtReadOne note_route_handler.simps plain_guard_state handle_mark_read_def
      by (intro enter) (auto simp: id mark_own(1) Let_def intro!: web_call_snd [where Q = "own_only u s"])
  next
    case RtReadAll
    show ?thesis unfolding RtReadAll note_route_handler.simps plain_guard_state handle_mark_all_read_def
      by (intro enter) (auto simp: mark_own(2) intro!: web_call_snd [where Q = "own_only u s"])
  next
    case RtStream
    show ?thesis unfolding RtStream note_route_handler.simps plain_guard_state handle_notification_stream_def
      by (intro enter) (simp add: own_only_same)
  qed
qed

section \<open>Properties\<close>

text \<open>The notifications of a user.\<close>

definition notes_of :: "int \<Rightarrow> 'c community_scheme \<Rightarrow> notice list" where
  "notes_of u s = filter (\<lambda>n. nt_user_id n = u) (cm_notes s)"

definition unread_of :: "int \<Rightarrow> 'c community_scheme \<Rightarrow> int" where
  "unread_of u s = int (length (filter (\<lambda>n. \<not> nt_is_read n) (notes_of u s)))"

lemma count_unread_of: "count_unread v u s = query v (unread_of u s) s"
  by (simp add: count_unread_def unread_of_def notes_of_def conj_commute)

lemma read_already: "nt_is_read n \<Longrightarrow> n\<lparr>nt_is_read := True\<rparr> = n"
  by (cases n) simp

lemma mark_unread: "cm_notes (mark_where (\<lambda>n. P n \<and> \<not> nt_is_read n) s) = map (\<lambda>n. if P n then n\<lparr>nt_is_read := True\<rparr> else n) (cm_notes s)"
  by (auto simp: mark_where_def read_already)

lemma plain_guard_answers: "plain_guard w r = (Inr (), res', s') \<Longrightarrow> rsp_status res' = 200 \<Longrightarrow> r = (Inr (), res', s')"
  by (auto simp: plain_guard_def split: prod.splits sum.splits handler_exn.splits)

lemma list_answer:
  assumes "require_authentication (wv_lib w) (wv_verify1 w) (wv_verify2 w) req (wv_jwt w) = Inr c" and "stoi (user_id c) = Some u"
    and "handle_list_notifications w e ps req res s = (Inr (), res', s')" and "page_params 20 100 ps = (l, off)"
  shows "res' = send_success (wv_rid w) (JObj [(''items'', JArr (map (note_json \<circ> NotificationRow.truncate)
      (page l off (newest_first (e 0) nt_id nt_time (notes_of u s))))),
    (''unread_count'', JInt (unread_of u s)), (''limit'', JInt l), (''offset'', JInt off)]) res"
  using assms
  by (auto simp: handle_list_notifications_def web_auth_def web_user_def list_for_user_def count_unread_of notes_of_def
      dest!: web_call_query web_ok_Inr)

lemma count_answer:
  assumes "require_authentication (wv_lib w) (wv_verify1 w) (wv_verify2 w) req (wv_jwt w) = Inr c" and "stoi (user_id c) = Some u"
    and "handle_unread_count w e req res s = (Inr (), res', s')"
  shows "res' = send_success (wv_rid w) (JObj [(''count'', JInt (unread_of u s))]) res"
  using assms
  by (auto simp: handle_unread_count_def web_auth_def web_user_def count_unread_of dest!: web_call_query web_ok_Inr)

lemma read_all_effect:
  assumes "require_authentication (wv_lib w) (wv_verify1 w) (wv_verify2 w) req (wv_jwt w) = Inr c" and "stoi (user_id c) = Some u"
    and "handle_mark_all_read w e req res s = (Inr (), res', s')"
  shows "cm_notes s' = map (\<lambda>n. if nt_user_id n = u then n\<lparr>nt_is_read := True\<rparr> else n) (cm_notes s)"
  using assms
  by (auto simp: handle_mark_all_read_def web_auth_def web_user_def mark_all_read_def mark_unread dest!: web_call_execute web_ok_Inr)

text \<open>
  C37. The notification routes are private. A request that is not authenticated changes nothing and is not
  answered with success. One of user \<open>u\<close> leaves the notifications of everybody else as they are and changes at
  most the read flags of the user's own; a listing is the requested page of the user's own notifications,
  newest first, with the number of the user's own unread ones; the counting route answers that number; and the
  route that marks all marks exactly the user's own.
\<close>

theorem notifications_private:
  assumes "note_route_handler w e r req res s = (out, res', s')"
  shows "(case require_authentication (wv_lib w) (wv_verify1 w) (wv_verify2 w) req (wv_jwt w) of
       Inl g \<Rightarrow> s' = s \<and> (out = Inl (guard_exn g) \<or> rsp_status res' = 500)
     | Inr c \<Rightarrow> (case stoi (user_id c) of
         None \<Rightarrow> s' = s \<and> rsp_status res' = 500
       | Some u \<Rightarrow> own_only u s s'
           \<and> (out = Inr () \<and> rsp_status res' = 200 \<longrightarrow>
               (case r of
                  RtNotes ps \<Rightarrow> (case page_params 20 100 ps of (l, off) \<Rightarrow>
                    res' = send_success (wv_rid w) (JObj [(''items'', JArr (map (note_json \<circ> NotificationRow.truncate)
                        (page l off (newest_first (e 0) nt_id nt_time (notes_of u s))))),
                      (''unread_count'', JInt (unread_of u s)), (''limit'', JInt l), (''offset'', JInt off)]) res)
                | RtUnread \<Rightarrow> res' = send_success (wv_rid w) (JObj [(''count'', JInt (unread_of u s))]) res
                | RtReadAll \<Rightarrow> cm_notes s' = map (\<lambda>n. if nt_user_id n = u then n\<lparr>nt_is_read := True\<rparr> else n) (cm_notes s)
                | _ \<Rightarrow> True))))"
proof (cases "require_authentication (wv_lib w) (wv_verify1 w) (wv_verify2 w) req (wv_jwt w)")
  case (Inl g)
  then have "out = Inl (guard_exn g) \<and> s' = s \<or> rsp_status res' = 500 \<and> s' = s"
    using assms by (cases r; cases g) (auto simp: handle_list_notifications_def handle_unread_count_def handle_mark_read_def
        handle_mark_all_read_def handle_notification_stream_def web_auth_def plain_guard_def)
  then show ?thesis using Inl by auto
next
  case (Inr c)
  show ?thesis
  proof (cases "stoi (user_id c)")
    case None
    then have "s' = s \<and> rsp_status res' = 500"
      using assms Inr by (cases r) (auto simp: handle_list_notifications_def handle_unread_count_def handle_mark_read_def
          handle_mark_all_read_def handle_notification_stream_def web_auth_def web_user_def plain_guard_def)
    then show ?thesis using Inr None by simp
  next
    case (Some u)
    have own: "own_only u s s'" using note_route_own [OF Inr Some, of s e r res] assms by simp
    have "case r of
        RtNotes ps \<Rightarrow> (case page_params 20 100 ps of (l, off) \<Rightarrow>
          res' = send_success (wv_rid w) (JObj [(''items'', JArr (map (note_json \<circ> NotificationRow.truncate)
              (page l off (newest_first (e 0) nt_id nt_time (notes_of u s))))),
            (''unread_count'', JInt (unread_of u s)), (''limit'', JInt l), (''offset'', JInt off)]) res)
      | RtUnread \<Rightarrow> res' = send_success (wv_rid w) (JObj [(''count'', JInt (unread_of u s))]) res
      | RtReadAll \<Rightarrow> cm_notes s' = map (\<lambda>n. if nt_user_id n = u then n\<lparr>nt_is_read := True\<rparr> else n) (cm_notes s)
      | _ \<Rightarrow> True" if ok: "out = Inr ()" "rsp_status res' = 200"
    proof (cases r)
      case (RtNotes ps)
      then have h: "handle_list_notifications w e ps req res s = (Inr (), res', s')"
        using plain_guard_answers [OF _ ok(2)] assms ok(1) by simp
      obtain l off where p: "page_params 20 100 ps = (l, off)" by fastforce
      show ?thesis unfolding RtNotes using list_answer [OF Inr Some h p] p by simp
    next
      case RtUnread
      then have "handle_unread_count w e req res s = (Inr (), res', s')" using plain_guard_answers [OF _ ok(2)] assms ok(1) by simp
      then show ?thesis unfolding RtUnread using count_answer [OF Inr Some] by simp
    next
      case RtReadAll
      then have "handle_mark_all_read w e req res s = (Inr (), res', s')" using plain_guard_answers [OF _ ok(2)] assms ok(1) by simp
      then show ?thesis unfolding RtReadAll using read_all_effect [OF Inr Some] by simp
    qed simp_all
    then show ?thesis using own Inr Some by simp
  qed
qed

definition demo_com :: com_env where
  "demo_com = \<lparr>dv_eq = no_case, dv_char_eq = (\<lambda>a b. tolower a = tolower b), dv_now = [], dv_count_matched = False,
     dv_duplicate = ''Duplicate entry'', dv_acquire = None, dv_fault = (\<lambda>_. None), fv_foreign_key = ''a foreign key constraint fails'',
     mv_time = 5, mv_fmt = to_string, mv_ties = (\<lambda>i. i)\<rparr>"

definition two_notices :: "notice list" where
  "two_notices = map (\<lambda>(i, u). \<lparr>nt_id = i, nt_user_id = u, nt_type = ''t'', nt_message = ''m'', nt_link = None, nt_reference_id = None,
     nt_is_read = False, nt_created_at = [], nt_time = i\<rparr>) [(1, 7), (2, 8)]"

definition demo_community :: community where
  "demo_community = \<lparr>cm_users = \<lparr>ud_users = [alice []], ud_next = 9, ud_history = []\<rparr>, cm_problems = one_problem,
     cm_notes = two_notices, cm_note_next = 3, cm_channels = Map.empty\<rparr>"

theorem notifications_private_witness:
  "own_only 7 demo_community (snd (snd (note_route_handler (demo_web ''user'' JNull) (\<lambda>_. demo_com) RtReadAll web_req demo_res demo_community)))
   \<and> map nt_is_read (cm_notes (snd (snd (note_route_handler (demo_web ''user'' JNull) (\<lambda>_. demo_com) RtReadAll web_req demo_res demo_community))))
     = [True, False]"
proof
  let ?h = "note_route_handler (demo_web ''user'' JNull) (\<lambda>_. demo_com) RtReadAll web_req demo_res demo_community"
  obtain c where c: "require_authentication (wv_lib (demo_web ''user'' JNull)) (wv_verify1 (demo_web ''user'' JNull))
      (wv_verify2 (demo_web ''user'' JNull)) web_req (wv_jwt (demo_web ''user'' JNull)) = Inr c" "stoi (user_id c) = Some 7"
    by (rule demo_user_known)
  have h: "?h = (fst ?h, fst (snd ?h), snd (snd ?h))" by simp
  show "own_only 7 demo_community (snd (snd ?h))" using notifications_private [OF h] unfolding c(1) by (simp add: c(2))
  have "fst ?h = Inr () \<and> rsp_status (fst (snd ?h)) = 200" by code_simp
  then have "cm_notes (snd (snd ?h)) = map (\<lambda>n. if nt_user_id n = 7 then n\<lparr>nt_is_read := True\<rparr> else n) (cm_notes demo_community)"
    using notifications_private [OF h] unfolding c(1) by (simp add: c(2))
  then show "map nt_is_read (cm_notes (snd (snd ?h))) = [True, False]" by (simp add: demo_community_def two_notices_def)
qed

text \<open>
  The route \<^verbatim>\<open>POST /api/v1/notifications/<id>/read\<close> reads the id after the last slash, where the word
  \<^verbatim>\<open>read\<close> is: every authenticated request is answered with 400, and no notification is ever marked.
\<close>

theorem mark_one_never_marks:
  assumes "require_authentication (wv_lib w) (wv_verify1 w) (wv_verify2 w) req (wv_jwt w) = Inr c" and "stoi (user_id c) = Some u"
  shows "note_route_handler w e (RtReadOne (''/api/v1/notifications/'' @ i @ ''/read'')) req res s
    = (Inr (), send_error (wv_rid w) 400 INVALID_INPUT ''invalid notification id'' JNull res, s)"
proof -
  have "last_segment ((''/api/v1/notifications/'' @ i) @ CHR ''/'' # ''read'') = Some ''read''"
    by (rule last_segment_append) simp
  moreover have "stoi ''read'' = None" by code_simp
  ultimately have "id_at_end (''/api/v1/notifications/'' @ i @ ''/read'') = 0" by (simp add: id_at_end_def stoi_or_def)
  then show ?thesis using assms by (simp add: handle_mark_read_def web_auth_def web_user_def plain_guard_def web_error_def)
qed

theorem mark_one_never_marks_witness:
  "note_route_handler (demo_web ''user'' JNull) (\<lambda>_. demo_com) (RtReadOne ''/api/v1/notifications/1/read'') web_req demo_res demo_community
   = (Inr (), send_error None 400 INVALID_INPUT ''invalid notification id'' JNull demo_res, demo_community)"
proof -
  obtain c where c: "require_authentication (wv_lib (demo_web ''user'' JNull)) (wv_verify1 (demo_web ''user'' JNull))
      (wv_verify2 (demo_web ''user'' JNull)) web_req (wv_jwt (demo_web ''user'' JNull)) = Inr c" "stoi (user_id c) = Some 7"
    by (rule demo_user_known)
  from mark_one_never_marks [OF this, of "\<lambda>_. demo_com" "''1''"] show ?thesis by simp
qed

text \<open>What happens around the stream: requests that open it, events that are pushed, and chunks the library asks for.\<close>

datatype stream_op = OpenStream web_env http_request http_response | PushEvent web_env int string json | Chunk int

fun stream_step :: "stream_op \<Rightarrow> community \<times> string list \<Rightarrow> community \<times> string list" where
  "stream_step (OpenStream w req res) (s, out) = (snd (snd (handle_notification_stream w req res s)), out)"
| "stream_step (PushEvent w u event j) (s, out) = (snd (push w u event j s), out)"
| "stream_step (Chunk u) (s, out) = (case stream_chunk u (cm_channels s) of (f, m) \<Rightarrow> (s\<lparr>cm_channels := m\<rparr>, out @ [f]))"

definition all_left :: "(int \<rightharpoonup> channel) \<Rightarrow> bool" where
  "all_left m \<longleftrightarrow> (\<forall>c \<in> ran m. ch_events c = [] \<and> ch_disconnected c)"

lemma all_left_upd: "all_left m \<Longrightarrow> ch_events c = [] \<Longrightarrow> ch_disconnected c \<Longrightarrow> all_left (m(u \<mapsto> c))"
  by (auto simp: all_left_def ran_def)

lemma all_left_get: "all_left m \<Longrightarrow> m u = Some c \<Longrightarrow> ch_events c = [] \<and> ch_disconnected c"
  by (auto simp: all_left_def ran_def)

lemma stream_step_left:
  assumes "all_left (cm_channels s)"
  shows "all_left (cm_channels (fst (stream_step x (s, out)))) \<and> (\<exists>fs. snd (stream_step x (s, out)) = out @ fs \<and> set fs \<subseteq> {kPing})"
proof (cases x)
  case (OpenStream w req res)
  have "all_left (leave u (join u (cm_channels s)))" for u
  proof (cases "cm_channels s u")
    case None
    then show ?thesis using assms by (simp add: join_def leave_def all_left_upd)
  next
    case (Some c)
    then show ?thesis using assms all_left_get [OF assms Some] by (simp add: join_def leave_def all_left_upd)
  qed
  then show ?thesis using assms unfolding OpenStream
    by (simp add: handle_notification_stream_def web_auth_def web_user_def split: sum.splits option.splits)
next
  case (PushEvent w u event j)
  then show ?thesis using assms all_left_get [OF assms]
    by (auto simp: push_def push_frame_def split: outcome.splits option.splits)
next
  case (Chunk u)
  then show ?thesis using assms all_left_get [OF assms]
    by (auto simp: stream_chunk_def pop_def split: option.splits list.splits)
qed

lemma stream_run_left:
  "all_left (cm_channels s) \<Longrightarrow> set out \<subseteq> {kPing} \<Longrightarrow> set (snd (fold stream_step xs (s, out))) \<subseteq> {kPing}"
proof (induction xs arbitrary: s out)
  case (Cons x xs)
  obtain s1 out1 where eq: "stream_step x (s, out) = (s1, out1)" by fastforce
  then show ?case using Cons.IH [of s1 out1] stream_step_left [OF Cons.prems(1), of x out] Cons.prems(2) by auto
qed simp

text \<open>
  The event stream never delivers an event. Whatever requests open it, whatever is pushed, and however often the library
  asks for the next chunk: starting without channels, every chunk is the keep-alive comment, because the handler has
  left the channel again when it returns.
\<close>

theorem stream_never_delivers:
  "set (snd (fold stream_step xs (s\<lparr>cm_channels := Map.empty\<rparr>, []))) \<subseteq> {kPing}"
  by (rule stream_run_left) (simp_all add: all_left_def)

section \<open>Cut texts\<close>

lemma kTexts_valid: "utf8 kReplied" "utf8 kLiked" "utf8 kClose"
  by code_simp+

lemma clip_invalid:
  assumes "\<not> utf8 (take n t)" and "n < length t" and "utf8 a" and "utf8 b"
  shows "\<not> utf8 (a @ b @ clip n t @ r)"
proof
  assume "utf8 (a @ b @ clip n t @ r)"
  then have "utf8 (take n t @ CHR ''.'' # ''..'' @ r)" using assms by (simp add: utf8_append clip_def)
  then have "utf8 (take n t)" by (rule utf8_cut) simp
  then show False using assms(1) by simp
qed

lemma deliver_fails:
  assumes "strict_dump (wv_dump w)" and "\<not> utf8 message"
  shows "\<exists>m. deliver w v u ty message link ref s = (Inl m, snd (create_note v
      \<lparr>nt_id = 0, nt_user_id = u, nt_type = ty, nt_message = message, nt_link = Some link,
       nt_reference_id = Some ref, nt_is_read = False, nt_created_at = []\<rparr> s))"
proof -
  let ?j = "JObj [(''type'', JStr ty), (''message'', JStr message), (''link'', JStr link), (''reference_id'', JInt ref)]"
  have "\<not> utf8_json ?j" using assms(2) by simp
  then obtain m where "wv_dump w ?j = Throws m" using assms(1) unfolding strict_dump_def by (metis outcome.exhaust)
  then show ?thesis by (simp add: deliver_def push_def)
qed

end
