(* ===== verification/Likes.thy ===== *)
theory Likes
  imports Notifications
begin

text \<open>
  The like button: \<^verbatim>\<open>toggle_like\<close> of \<^verbatim>\<open>src/db/solution_repo.h\<close>, \<^verbatim>\<open>src/db/solution_comment_repo.h\<close> and
  \<^verbatim>\<open>src/db/discussion_repo.h\<close>, which are the same function over different tables: a statement looks for the like,
  one adds or removes it, one changes the counter of the item. The statements commit one by one.

  The locale \<open>like_counter\<close> is the contract of the three; it is interpreted in the theories of the tables.
  The second part lets any number of calls overlap, statement by statement.

  Main results: calls that do not overlap keep every counter equal to the number of likes; so do overlapping calls of
  different users; two overlapping calls of one user can leave the counter wrong for good.
\<close>

section \<open>The three statements\<close>

type_synonym like = "int \<times> int"

definition like_write :: "string \<Rightarrow> string \<Rightarrow> bool \<Rightarrow> like \<Rightarrow> bool \<Rightarrow> like list \<Rightarrow> string + like list" where
  "like_write dup fk parents p existing ls =
     (if existing then Inr (filter (\<lambda>q. q \<noteq> p) ls)
      else if p \<in> set ls then Inl dup
      else if \<not> parents then Inl fk
      else Inr (ls @ [p]))"

definition like_count_step :: "bool \<Rightarrow> int \<Rightarrow> int" where
  "like_count_step existing n = (if existing then max 0 (n - 1) else n + 1)"

definition toggle_on ::
    "com_env \<Rightarrow> bool \<Rightarrow> like \<Rightarrow> (bool \<Rightarrow> 'r list \<Rightarrow> 'r list) \<Rightarrow> like list \<times> 'r list \<Rightarrow> (string + bool) \<times> like list \<times> 'r list" where
  "toggle_on v parents p recount lr =
     (case lr of (ls, rs) \<Rightarrow>
        on_conn v (then_do v 0 (ls, rs)
          (let existing = (p \<in> set ls) in
           then_do v 1 (ls, rs)
             (case like_write (dv_duplicate v) (fv_foreign_key v) parents p existing ls of
                Inl m \<Rightarrow> (Inl m, ls, rs)
              | Inr ls \<Rightarrow> then_do v 2 (ls, rs) (Inr (\<not> existing), ls, recount existing rs)))) (ls, rs))"

definition like_total :: "like list \<Rightarrow> int \<Rightarrow> int" where
  "like_total ls i = int (length (filter (\<lambda>p. snd p = i) ls))"

lemma toggle_on_healthy:
  assumes "healthy v" and "p \<in> set ls \<or> parents"
  shows "toggle_on v parents p recount (ls, rs) =
    (Inr (p \<notin> set ls), if p \<in> set ls then filter (\<lambda>q. q \<noteq> p) ls else ls @ [p], recount (p \<in> set ls) rs)"
  using assms by (auto simp: toggle_on_def like_write_def Let_def)

lemma toggle_on_refused: "healthy v \<Longrightarrow> p \<notin> set ls \<Longrightarrow> toggle_on v False p recount (ls, rs) = (Inl (fv_foreign_key v), ls, rs)"
  by (simp add: toggle_on_def like_write_def Let_def)

lemma like_total_append: "like_total (ls @ [p]) i = like_total ls i + (if snd p = i then 1 else 0)"
  by (simp add: like_total_def)

lemma like_total_remove:
  assumes "distinct ls" and "p \<in> set ls"
  shows "like_total (filter (\<lambda>q. q \<noteq> p) ls) i = like_total ls i - (if snd p = i then 1 else 0)"
  using assms
proof (induction ls)
  case (Cons q ls)
  show ?case
  proof (cases "q = p")
    case True
    have "filter (\<lambda>q. q \<noteq> p) ls = ls" using Cons.prems True by (auto simp: filter_id_conv)
    then show ?thesis using True by (simp add: like_total_def)
  next
    case False
    then show ?thesis using Cons by (auto simp: like_total_def)
  qed
qed simp

lemma like_total_nonneg: "0 \<le> like_total ls i"
  by (simp add: like_total_def)

lemma like_total_pos: "(u, i) \<in> set ls \<Longrightarrow> 1 \<le> like_total ls i"
  unfolding like_total_def by (induction ls) auto

section \<open>Contract\<close>

locale like_counter =
  fixes toggle :: "com_env \<Rightarrow> int \<Rightarrow> int \<Rightarrow> 's \<Rightarrow> (string + bool) \<times> 's"
    and likes :: "'s \<Rightarrow> like list"
    and counters :: "'s \<Rightarrow> (int \<times> int) list"
    and parents :: "int \<Rightarrow> int \<Rightarrow> 's \<Rightarrow> bool"
  assumes result: "healthy v \<Longrightarrow> (u, i) \<in> set (likes s) \<or> parents i u s \<Longrightarrow> fst (toggle v i u s) = Inr ((u, i) \<notin> set (likes s))"
    and likes_after: "healthy v \<Longrightarrow> (u, i) \<in> set (likes s) \<or> parents i u s \<Longrightarrow>
      likes (snd (toggle v i u s)) = (if (u, i) \<in> set (likes s) then filter (\<lambda>q. q \<noteq> (u, i)) (likes s) else likes s @ [(u, i)])"
    and counters_after: "healthy v \<Longrightarrow> (u, i) \<in> set (likes s) \<or> parents i u s \<Longrightarrow>
      counters (snd (toggle v i u s)) = map (\<lambda>(j, n). (j, if j = i then like_count_step ((u, i) \<in> set (likes s)) n else n)) (counters s)"
    and refused: "healthy v \<Longrightarrow> (u, i) \<notin> set (likes s) \<Longrightarrow> \<not> parents i u s \<Longrightarrow> snd (toggle v i u s) = s"
    and parents_after: "parents j w (snd (toggle v i u s)) = parents j w s"
begin

definition exact :: "'s \<Rightarrow> bool" where
  "exact s \<longleftrightarrow> distinct (likes s) \<and> (\<forall>(j, n) \<in> set (counters s). n = like_total (likes s) j)"

lemma toggle_exact:
  assumes "healthy v" and "exact s"
  shows "exact (snd (toggle v i u s))"
proof (cases "(u, i) \<in> set (likes s)")
  case True
  then have able: "(u, i) \<in> set (likes s) \<or> parents i u s" by simp
  have d: "distinct (likes s)" using assms(2) by (simp add: exact_def)
  show ?thesis using assms(2) True like_total_pos [OF True] like_total_remove [OF d True]
    by (auto simp: exact_def likes_after [OF assms(1) able] counters_after [OF assms(1) able] like_count_step_def)
next
  case False
  show ?thesis
  proof (cases "parents i u s")
    case True
    then have able: "(u, i) \<in> set (likes s) \<or> parents i u s" by simp
    show ?thesis using assms(2) False
      by (auto simp: exact_def likes_after [OF assms(1) able] counters_after [OF assms(1) able] like_count_step_def like_total_append)
  next
    case False
    then show ?thesis using refused [OF assms(1) \<open>(u, i) \<notin> set (likes s)\<close>] assms(2) by simp
  qed
qed

lemma toggles_exact:
  "\<forall>(v, i, u) \<in> set xs. healthy v \<Longrightarrow> exact s \<Longrightarrow> exact (fold (\<lambda>(v, i, u) s. snd (toggle v i u s)) xs s)"
  by (induction xs arbitrary: s) (auto simp: toggle_exact)

lemma toggle_twice:
  assumes "healthy v" and "healthy w" and "parents i u s" and "exact s"
  shows "let s2 = snd (toggle w i u (snd (toggle v i u s)))
    in set (likes s2) = set (likes s) \<and> counters s2 = counters s"
proof -
  let ?s1 = "snd (toggle v i u s)"
  have able: "(u, i) \<in> set (likes s) \<or> parents i u s" and p: "(u, i) \<in> set (likes ?s1) \<or> parents i u ?s1"
    using assms(3) by (simp_all add: parents_after)
  have ones: "\<forall>(j, n) \<in> set (counters s). j = i \<longrightarrow> n = like_total (likes s) i" using assms(4) by (auto simp: exact_def)
  have same: "map (\<lambda>x. if fst x = i then (i, f (snd x)) else x) (counters s) = counters s"
    if "f (like_total (likes s) i) = like_total (likes s) i" for f
    using ones that by (auto intro!: map_idI)
  note after = likes_after [OF assms(1) able] likes_after [OF assms(2) p] counters_after [OF assms(1) able] counters_after [OF assms(2) p]
    like_count_step_def comp_def case_prod_beta if_distrib Let_def
  show ?thesis
  proof (cases "(u, i) \<in> set (likes s)")
    case True
    then show ?thesis using same [of "\<lambda>n. max 0 (n - 1) + 1"] like_total_pos [OF True] by (auto simp: after cong: if_cong)
  next
    case False
    then show ?thesis using same [of "\<lambda>n. max 0 (n + 1 - 1)"] like_total_nonneg [of "likes s" i] by (auto simp: after cong: if_cong)
  qed
qed

end

section \<open>Overlapping calls\<close>

text \<open>
  The calls for one item, whose parents exist, one statement at a time. Call \<open>k\<close> is by user \<open>usr k\<close>; the
  program point holds what it has seen.
\<close>

datatype pc = Begin | Seen bool | Written bool | Ended | Refused

record like_world =
  lw_likes :: "like list"
  lw_count :: int
  lw_pc :: "nat \<Rightarrow> pc"

inductive like_step :: "nat \<Rightarrow> (nat \<Rightarrow> int) \<Rightarrow> int \<Rightarrow> like_world \<Rightarrow> like_world \<Rightarrow> bool"
  for n usr i where
  look: "k < n \<Longrightarrow> lw_pc s k = Begin \<Longrightarrow>
    like_step n usr i s (s\<lparr>lw_pc := (lw_pc s)(k := Seen ((usr k, i) \<in> set (lw_likes s)))\<rparr>)"
| store: "k < n \<Longrightarrow> lw_pc s k = Seen b \<Longrightarrow> like_write d f True (usr k, i) b (lw_likes s) = Inr ls \<Longrightarrow>
    like_step n usr i s (s\<lparr>lw_likes := ls, lw_pc := (lw_pc s)(k := Written b)\<rparr>)"
| refuse: "k < n \<Longrightarrow> lw_pc s k = Seen b \<Longrightarrow> like_write d f True (usr k, i) b (lw_likes s) = Inl m \<Longrightarrow>
    like_step n usr i s (s\<lparr>lw_pc := (lw_pc s)(k := Refused)\<rparr>)"
| recount: "k < n \<Longrightarrow> lw_pc s k = Written b \<Longrightarrow>
    like_step n usr i s (s\<lparr>lw_count := like_count_step b (lw_count s), lw_pc := (lw_pc s)(k := Ended)\<rparr>)"

text \<open>What a program point still owes the counter.\<close>

fun owes :: "pc \<Rightarrow> int" where
  "owes (Written True) = -1"
| "owes (Written False) = 1"
| "owes _ = 0"

definition debt :: "nat \<Rightarrow> like_world \<Rightarrow> int" where
  "debt n s = (\<Sum>k < n. owes (lw_pc s k))"

definition item_total :: "int \<Rightarrow> like_world \<Rightarrow> int" where
  "item_total i s = like_total (lw_likes s) i"

lemma sum_upd:
  fixes g :: "'a \<Rightarrow> int" and n :: nat
  assumes "k < n"
  shows "(\<Sum>j < n. g ((h(k := p)) j)) = (\<Sum>j < n. g (h j)) - g (h k) + g p"
proof -
  have "(\<Sum>j < n. g ((h(k := p)) j)) = g p + (\<Sum>j \<in> {..<n} - {k}. g (h j))"
    using assms by (subst sum.remove [of _ k]) (auto intro: sum.cong)
  moreover have "(\<Sum>j < n. g (h j)) = g (h k) + (\<Sum>j \<in> {..<n} - {k}. g (h j))"
    using assms by (subst sum.remove [of _ k]) auto
  ultimately show ?thesis by simp
qed

text \<open>
  The invariant of calls of different users: the counter is the number of likes but for what the calls still owe, and
  what a call has seen or written about its own like is still true.
\<close>

fun told :: "pc \<Rightarrow> bool \<Rightarrow> bool" where
  "told (Seen b) present = (b = present)"
| "told (Written b) present = (b = (\<not> present))"
| "told Refused present = False"
| "told _ present = True"

definition like_inv :: "nat \<Rightarrow> (nat \<Rightarrow> int) \<Rightarrow> int \<Rightarrow> like_world \<Rightarrow> bool" where
  "like_inv n usr i s \<longleftrightarrow> distinct (lw_likes s) \<and> lw_count s + debt n s = item_total i s
     \<and> (\<forall>k < n. told (lw_pc s k) ((usr k, i) \<in> set (lw_likes s)))"

lemma added_likes:
  assumes "distinct ls" and "finite K" and "inj_on usr K" and "\<forall>k \<in> K. (usr k, i) \<in> set ls"
  shows "int (card K) \<le> like_total ls i"
proof -
  have "card K = card ((\<lambda>k. (usr k, i)) ` K)" using assms(3) by (intro card_image [symmetric]) (auto simp: inj_on_def)
  also have "\<dots> \<le> card (set (filter (\<lambda>p. snd p = i) ls))" using assms(4) by (intro card_mono) auto
  also have "\<dots> \<le> length (filter (\<lambda>p. snd p = i) ls)" by (rule card_length)
  finally show ?thesis by (simp add: like_total_def)
qed

lemma decrement_safe:
  assumes inv: "like_inv n usr i s" and inj: "inj_on usr {..<n}" and k: "k < n" "lw_pc s k = Written True"
  shows "1 \<le> lw_count s"
proof -
  let ?K = "{j. j < n \<and> lw_pc s j = Written False}"
  have "\<forall>j \<in> ?K. (usr j, i) \<in> set (lw_likes s)" using inv by (force simp: like_inv_def)
  moreover have "inj_on usr ?K" using inj by (rule inj_on_subset) auto
  ultimately have most: "int (card ?K) \<le> item_total i s"
    using inv added_likes [of "lw_likes s" ?K usr i] by (simp add: like_inv_def item_total_def)
  have "debt n s \<le> (\<Sum>j < n. (if lw_pc s j = Written False then 1 else 0) - (if j = k then 1 else 0))"
    unfolding debt_def
  proof (rule sum_mono)
    fix j
    show "owes (lw_pc s j) \<le> (if lw_pc s j = Written False then 1 else 0) - (if j = k then 1 else 0)"
      using k(2) by (cases "lw_pc s j" rule: owes.cases) auto
  qed
  also have "\<dots> = int (card ?K) - 1"
    using k(1) by (simp add: sum_subtractf sum.If_cases Int_def conj_commute)
  finally show ?thesis using most inv by (simp add: like_inv_def)
qed

lemma debt_upd: "k < n \<Longrightarrow> debt n (s\<lparr>lw_pc := (lw_pc s)(k := p)\<rparr>) = debt n s - owes (lw_pc s k) + owes p"
  unfolding debt_def by (simp add: sum_upd del: fun_upd_apply)

lemma debt_frame [simp]: "debt n (s\<lparr>lw_likes := ls\<rparr>) = debt n s" "debt n (s\<lparr>lw_count := c\<rparr>) = debt n s"
  "debt n (s\<lparr>lw_likes := ls, lw_pc := f\<rparr>) = debt n (s\<lparr>lw_pc := f\<rparr>)" "debt n (s\<lparr>lw_count := c, lw_pc := f\<rparr>) = debt n (s\<lparr>lw_pc := f\<rparr>)"
  by (simp_all add: debt_def)

lemma like_inv_step:
  assumes "like_step n usr i s t" and inj: "inj_on usr {..<n}" and inv: "like_inv n usr i s"
  shows "like_inv n usr i t"
  using assms(1)
proof cases
  case (look k)
  show ?thesis using inv look(2,3) debt_upd [OF look(2), of s "Seen ((usr k, i) \<in> set (lw_likes s))"]
    unfolding look(1) like_inv_def item_total_def by auto
next
  case (store k b d f ls)
  have b: "b = ((usr k, i) \<in> set (lw_likes s))" and dist: "distinct (lw_likes s)"
    using inv store(2,3) by (force simp: like_inv_def)+
  have ls: "ls = (if b then filter (\<lambda>q. q \<noteq> (usr k, i)) (lw_likes s) else lw_likes s @ [(usr k, i)])"
    using store(4) b by (auto simp: like_write_def split: if_splits)
  have other: "(usr j, i) \<in> set ls \<longleftrightarrow> (usr j, i) \<in> set (lw_likes s)" if "j < n" "j \<noteq> k" for j
    using inj that store(2) by (auto simp: ls inj_on_def)
  have total: "like_total ls i = like_total (lw_likes s) i + owes (Written b)"
    using b dist by (auto simp: ls like_total_append like_total_remove)
  have own: "(usr k, i) \<in> set ls \<longleftrightarrow> \<not> b" using b by (auto simp: ls)
  have "distinct ls" using dist b by (auto simp: ls)
  then show ?thesis using inv store(2,3) total own other debt_upd [OF store(2), of s "Written b"]
    unfolding store(1) like_inv_def item_total_def by auto
next
  case (refuse k b d f m)
  then have "b = ((usr k, i) \<in> set (lw_likes s))" using inv by (force simp: like_inv_def)
  then show ?thesis using refuse(4) by (simp add: like_write_def split: if_splits)
next
  case (recount k b)
  have "like_count_step b (lw_count s) = lw_count s + owes (Written b)"
    using decrement_safe [OF inv inj recount(2)] recount(3) by (cases b) (simp_all add: like_count_step_def)
  then show ?thesis using inv recount(2,3) debt_upd [OF recount(2), of s Ended]
    unfolding recount(1) like_inv_def item_total_def by auto
qed

lemma like_inv_reach: "(like_step n usr i)\<^sup>*\<^sup>* s t \<Longrightarrow> inj_on usr {..<n} \<Longrightarrow> like_inv n usr i s \<Longrightarrow> like_inv n usr i t"
  by (induction rule: rtranclp_induct) (auto intro: like_inv_step)

definition idle :: "like list \<Rightarrow> int \<Rightarrow> like_world" where
  "idle ls i = \<lparr>lw_likes = ls, lw_count = like_total ls i, lw_pc = (\<lambda>_. Begin)\<rparr>"

text \<open>
  The steps are those of \<open>toggle_on\<close>: a call that runs alone to its end has its effect on the likes and on
  the counter, and is not refused.
\<close>

lemma like_step_alone:
  assumes "(like_step 1 usr i)\<^sup>*\<^sup>* s t" and "lw_pc s 0 = Begin"
  defines "b \<equiv> (usr 0, i) \<in> set (lw_likes s)"
  defines "ls \<equiv> if b then filter (\<lambda>q. q \<noteq> (usr 0, i)) (lw_likes s) else lw_likes s @ [(usr 0, i)]"
  shows "t = s \<or> t = s\<lparr>lw_pc := (lw_pc s)(0 := Seen b)\<rparr> \<or> t = s\<lparr>lw_likes := ls, lw_pc := (lw_pc s)(0 := Written b)\<rparr>
    \<or> t = s\<lparr>lw_likes := ls, lw_count := like_count_step b (lw_count s), lw_pc := (lw_pc s)(0 := Ended)\<rparr>"
  using assms(1)
proof (induction rule: rtranclp_induct)
  case (step t t')
  have zero: "k = 0" if "k < 1" for k :: nat using that by simp
  let ?s1 = "s\<lparr>lw_pc := (lw_pc s)(0 := Seen b)\<rparr>"
  let ?s2 = "s\<lparr>lw_likes := ls, lw_pc := (lw_pc s)(0 := Written b)\<rparr>"
  let ?s3 = "s\<lparr>lw_likes := ls, lw_count := like_count_step b (lw_count s), lw_pc := (lw_pc s)(0 := Ended)\<rparr>"
  from step.IH consider (a) "t = s" | (b) "t = ?s1" | (c) "t = ?s2" | (d) "t = ?s3" by blast
  then show ?case
  proof cases
    case a
    from step.hyps(2) [unfolded a] have "t' = ?s1" by cases (use assms(2) zero in \<open>auto simp: b_def\<close>)
    then show ?thesis by blast
  next
    case b
    have w: "like_write d f True (usr 0, i) b (lw_likes s) = Inr ls" for d f by (auto simp: like_write_def ls_def b_def)
    from step.hyps(2) [unfolded b] have "t' = ?s2" by cases (use w zero in \<open>auto dest!: zero\<close>)
    then show ?thesis by blast
  next
    case c
    from step.hyps(2) [unfolded c] have "t' = ?s3" by cases (use zero in \<open>auto dest!: zero\<close>)
    then show ?thesis by blast
  next
    case d
    from step.hyps(2) [unfolded d] show ?thesis by cases (auto dest!: zero)
  qed
qed simp

lemma toggle_on_alone:
  assumes "healthy v" and "(like_step 1 usr i)\<^sup>*\<^sup>* s t" and "lw_pc s 0 = Begin" and "lw_pc t 0 \<in> {Ended, Refused}"
  shows "toggle_on v True (usr 0, i) (\<lambda>b. map (like_count_step b)) (lw_likes s, [lw_count s])
    = (Inr ((usr 0, i) \<notin> set (lw_likes s)), lw_likes t, [lw_count t])"
proof -
  have "toggle_on v True (usr 0, i) (\<lambda>b. map (like_count_step b)) (lw_likes s, [lw_count s])
    = (Inr ((usr 0, i) \<notin> set (lw_likes s)), if (usr 0, i) \<in> set (lw_likes s) then filter (\<lambda>q. q \<noteq> (usr 0, i)) (lw_likes s) else lw_likes s @ [(usr 0, i)],
       [like_count_step ((usr 0, i) \<in> set (lw_likes s)) (lw_count s)])"
    by (subst toggle_on_healthy [OF assms(1)]) simp_all
  then show ?thesis using like_step_alone [OF assms(2,3)] assms(3,4) by (elim disjE) simp_all
qed

section \<open>Properties\<close>

text \<open>
  C25. However the statements of calls by different users interleave: when every call has ended, the counter of the item
  is the number of its likes, no like is stored twice, and no call has been refused.
\<close>

theorem likes_of_different_users:
  assumes "(like_step n usr i)\<^sup>*\<^sup>* (idle ls i) t" and "distinct ls" and "inj_on usr {..<n}" and "\<forall>k < n. lw_pc t k \<in> {Ended, Refused}"
  shows "lw_count t = like_total (lw_likes t) i \<and> distinct (lw_likes t) \<and> (\<forall>k < n. lw_pc t k = Ended)"
proof -
  have "like_inv n usr i (idle ls i)" using assms(2) by (simp add: like_inv_def idle_def debt_def item_total_def)
  then have inv: "like_inv n usr i t" using like_inv_reach [OF assms(1,3)] by simp
  then have "\<forall>k < n. lw_pc t k = Ended" using assms(4) by (fastforce simp: like_inv_def)
  moreover from this have "debt n t = 0" by (simp add: debt_def)
  ultimately show ?thesis using inv by (simp add: like_inv_def item_total_def)
qed

theorem likes_of_different_users_witness:
  "\<exists>t. (like_step 2 (\<lambda>k. 7 + int k) 1)\<^sup>*\<^sup>* (idle [(8, 1)] 1) t \<and> (\<forall>k < 2. lw_pc t k = Ended)
     \<and> lw_likes t = [(7, 1)] \<and> lw_count t = like_total [(7, 1)] 1"
proof -
  let ?u = "\<lambda>k. 7 + int k"
  let ?s0 = "idle [(8, 1)] 1"
  let ?s1 = "?s0\<lparr>lw_pc := (lw_pc ?s0)(0 := Seen False)\<rparr>"
  let ?s2 = "?s1\<lparr>lw_pc := (lw_pc ?s1)(1 := Seen True)\<rparr>"
  let ?s3 = "?s2\<lparr>lw_likes := [(8, 1), (7, 1)], lw_pc := (lw_pc ?s2)(0 := Written False)\<rparr>"
  let ?s4 = "?s3\<lparr>lw_likes := [(7, 1)], lw_pc := (lw_pc ?s3)(1 := Written True)\<rparr>"
  let ?s5 = "?s4\<lparr>lw_count := like_count_step True (lw_count ?s4), lw_pc := (lw_pc ?s4)(1 := Ended)\<rparr>"
  let ?s6 = "?s5\<lparr>lw_count := like_count_step False (lw_count ?s5), lw_pc := (lw_pc ?s5)(0 := Ended)\<rparr>"
  have "like_step 2 ?u 1 ?s0 ?s1" using like_step.look [of 0 2 ?s0 ?u 1] by (simp add: idle_def)
  moreover have "like_step 2 ?u 1 ?s1 ?s2" using like_step.look [of 1 2 ?s1 ?u 1] by (simp add: idle_def)
  moreover have "like_step 2 ?u 1 ?s2 ?s3" by (rule like_step.store [of 0 2 _ False "[]" "[]"]) (simp_all add: like_write_def idle_def)
  moreover have "like_step 2 ?u 1 ?s3 ?s4" by (rule like_step.store [of 1 2 _ True "[]" "[]"]) (simp_all add: like_write_def idle_def)
  moreover have "like_step 2 ?u 1 ?s4 ?s5" by (rule like_step.recount) simp_all
  moreover have "like_step 2 ?u 1 ?s5 ?s6" by (rule like_step.recount) simp_all
  ultimately have r: "(like_step 2 ?u 1)\<^sup>*\<^sup>* ?s0 ?s6" by (meson rtranclp.rtrancl_into_rtrancl rtranclp.rtrancl_refl)
  have "\<forall>k < 2. lw_pc ?s6 k \<in> {Ended, Refused}" by (auto simp: less_2_cases_iff)
  then have "lw_count ?s6 = like_total (lw_likes ?s6) 1 \<and> (\<forall>k < 2. lw_pc ?s6 k = Ended)"
    using likes_of_different_users [OF r] by (simp add: inj_on_def)
  then show ?thesis using r by (intro exI [of _ ?s6]) simp
qed

text \<open>
  Two overlapping calls of one user can leave the counter wrong: both see the like of the user and remove it, both
  lower the counter, which then says 0 although another user still likes the item.
\<close>

theorem likes_of_one_user_drift:
  "\<exists>t. (like_step 2 (\<lambda>_. 7) 1)\<^sup>*\<^sup>* (idle [(7, 1), (8, 1)] 1) t \<and> lw_pc t 0 = Ended \<and> lw_pc t 1 = Ended
     \<and> lw_likes t = [(8, 1)] \<and> lw_count t = 0"
proof -
  let ?s0 = "idle [(7, 1), (8, 1)] 1"
  let ?s1 = "?s0\<lparr>lw_pc := (lw_pc ?s0)(0 := Seen True)\<rparr>"
  let ?s2 = "?s1\<lparr>lw_pc := (lw_pc ?s1)(1 := Seen True)\<rparr>"
  let ?s3 = "?s2\<lparr>lw_likes := [(8, 1)], lw_pc := (lw_pc ?s2)(0 := Written True)\<rparr>"
  let ?s4 = "?s3\<lparr>lw_likes := [(8, 1)], lw_pc := (lw_pc ?s3)(1 := Written True)\<rparr>"
  let ?s5 = "?s4\<lparr>lw_count := like_count_step True (lw_count ?s4), lw_pc := (lw_pc ?s4)(0 := Ended)\<rparr>"
  let ?s6 = "?s5\<lparr>lw_count := like_count_step True (lw_count ?s5), lw_pc := (lw_pc ?s5)(1 := Ended)\<rparr>"
  have "like_step 2 (\<lambda>_. 7) 1 ?s0 ?s1" using like_step.look [of 0 2 ?s0 "\<lambda>_. 7" 1] by (simp add: idle_def)
  moreover have "like_step 2 (\<lambda>_. 7) 1 ?s1 ?s2" using like_step.look [of 1 2 ?s1 "\<lambda>_. 7" 1] by (simp add: idle_def)
  moreover have "like_step 2 (\<lambda>_. 7) 1 ?s2 ?s3" by (rule like_step.store [of 0 2 _ True "[]" "[]"]) (simp_all add: like_write_def idle_def)
  moreover have "like_step 2 (\<lambda>_. 7) 1 ?s3 ?s4" by (rule like_step.store [of 1 2 _ True "[]" "[]"]) (simp_all add: like_write_def idle_def)
  moreover have "like_step 2 (\<lambda>_. 7) 1 ?s4 ?s5" by (rule like_step.recount) simp_all
  moreover have "like_step 2 (\<lambda>_. 7) 1 ?s5 ?s6" by (rule like_step.recount) simp_all
  ultimately have "(like_step 2 (\<lambda>_. 7) 1)\<^sup>*\<^sup>* ?s0 ?s6" by (meson rtranclp.rtrancl_into_rtrancl rtranclp.rtrancl_refl)
  moreover have "lw_count ?s6 = 0" by (simp add: idle_def like_total_def like_count_step_def)
  ultimately show ?thesis by (intro exI [of _ ?s6]) simp
qed

end
