(* ===== verification/Solutions.thy ===== *)
theory Solutions
  imports Likes
begin

text \<open>
  \<^verbatim>\<open>src/db/solution_repo.h\<close>, \<^verbatim>\<open>src/db/solution_comment_repo.h\<close> and \<^verbatim>\<open>src/routes/solution_routes.h\<close>: solutions of problems, their
  comments, and the likes of both.

  The tables extend \<open>community\<close>. A row is stamped with \<^verbatim>\<open>updated_at\<close> when a statement changes it. The regular expression
  of a route has put the number of the path into an argument. A \<^verbatim>\<open>get\<close> of the wrong JSON type throws. Deleting sets a flag.

  Main results: both kinds of like meet the contract of \<open>Likes\<close>; what commenting and deleting a comment do to the
  counter; who may delete; what a like of a solution with a long title does.
\<close>

section \<open>Rows\<close>

record SolutionRow =
  so_id :: int
  so_user_id :: int
  so_problem_id :: int
  so_title :: string
  so_content :: string
  so_like_count :: int
  so_comment_count :: int
  so_created_at :: string
  so_updated_at :: string
  so_is_deleted :: bool

record solution = SolutionRow +
  so_time :: int

record SolutionCommentRow =
  sc_comment_id :: int
  sc_solution_id :: int
  sc_user_id :: int
  sc_parent_id :: "int option"
  sc_content :: string
  sc_like_count :: int
  sc_created_at :: string
  sc_is_deleted :: bool

record solution_comment = SolutionCommentRow +
  sc_time :: int

record SolutionUserInfo =
  ui_id :: int
  ui_username :: string
  ui_avatar :: "string option"

record solution_db = community +
  sd_solutions :: "solution list"
  sd_next :: int
  sd_likes :: "like list"
  sd_comments :: "solution_comment list"
  sd_comment_next :: int
  sd_comment_likes :: "like list"

definition find_user :: "int \<Rightarrow> 'c community_scheme \<Rightarrow> UserRow option" where
  "find_user u s = List.find (\<lambda>r. u_id r = u) (ud_users (cm_users s))"

definition info_of :: "UserRow \<Rightarrow> SolutionUserInfo" where
  "info_of r = \<lparr>ui_id = u_id r, ui_username = u_username r, ui_avatar = u_avatar r\<rparr>"

text \<open>\<^verbatim>\<open>JOIN users u ON u.id = ...\<close>.\<close>

definition join_user :: "('r \<Rightarrow> int) \<Rightarrow> 'c community_scheme \<Rightarrow> 'r list \<Rightarrow> ('r \<times> SolutionUserInfo) list" where
  "join_user f s rs = concat (map (\<lambda>r. case find_user (f r) s of None \<Rightarrow> [] | Some u \<Rightarrow> [(r, info_of u)]) rs)"

section \<open>Solutions\<close>

definition problem_exists :: "int \<Rightarrow> 'c community_scheme \<Rightarrow> bool" where
  "problem_exists i s \<longleftrightarrow> (\<exists>p \<in> set (pd_problems (cm_problems s)). p_id p = i)"

definition new_solution :: "com_env \<Rightarrow> int \<Rightarrow> int \<Rightarrow> string \<Rightarrow> string \<Rightarrow> solution_db \<Rightarrow> solution" where
  "new_solution v u pid title content s =
     \<lparr>so_id = sd_next s, so_user_id = u, so_problem_id = pid, so_title = title, so_content = content, so_like_count = 0,
      so_comment_count = 0, so_created_at = mv_fmt v (mv_time v), so_updated_at = mv_fmt v (mv_time v), so_is_deleted = False,
      so_time = mv_time v\<rparr>"

definition create_solution :: "com_env \<Rightarrow> int \<Rightarrow> int \<Rightarrow> string \<Rightarrow> string \<Rightarrow> solution_db \<Rightarrow> (string + int) \<times> solution_db" where
  "create_solution v u pid title content s =
     on_conn v (then_do v 0 s
       (if user_exists u s \<and> problem_exists pid s
        then (Inr (sd_next s), s\<lparr>sd_solutions := sd_solutions s @ [new_solution v u pid title content s], sd_next := sd_next s + 1\<rparr>)
        else (Inl (fv_foreign_key v), s))) s"

text \<open>The repository's own version, which wraps the error.\<close>

definition repo_create_solution :: "com_env \<Rightarrow> SolutionRow \<Rightarrow> solution_db \<Rightarrow> (string + int) \<times> solution_db" where
  "repo_create_solution v r s =
     (case dv_acquire v of
        Some m \<Rightarrow> (Inl m, s)
      | None \<Rightarrow>
          (case create_solution v (so_user_id r) (so_problem_id r) (so_title r) (so_content r) s of
             (Inl m, s') \<Rightarrow> (Inl (''solution_repo::create: '' @ m), s')
           | ok \<Rightarrow> ok))"

definition find_solution :: "com_env \<Rightarrow> int \<Rightarrow> solution_db \<Rightarrow> (string + SolutionRow option) \<times> solution_db" where
  "find_solution v i s =
     query v (map_option SolutionRow.truncate (List.find (\<lambda>r. so_id r = i \<and> \<not> so_is_deleted r) (sd_solutions s))) s"

definition find_problem_id_by_slug :: "com_env \<Rightarrow> string \<Rightarrow> 'c community_scheme \<Rightarrow> (string + int option) \<times> 'c community_scheme" where
  "find_problem_id_by_slug v slug s =
     query v (map_option p_id (List.find (\<lambda>p. dv_eq v (p_slug p) slug \<and> \<not> p_is_deleted p) (pd_problems (cm_problems s)))) s"

record SolutionListFilter =
  lf_problem_id :: int
  lf_limit :: int
  lf_offset :: int
  lf_user_id :: "int option"

definition solution_match :: "int \<Rightarrow> int option \<Rightarrow> solution \<Rightarrow> bool" where
  "solution_match pid uid r \<longleftrightarrow> so_problem_id r = pid \<and> \<not> so_is_deleted r \<and> (case uid of None \<Rightarrow> True | Some u \<Rightarrow> so_user_id r = u)"

text \<open>\<^verbatim>\<open>ORDER BY like_count DESC, created_at DESC\<close>.\<close>

definition by_likes :: "com_env \<Rightarrow> (solution \<times> SolutionUserInfo) list \<Rightarrow> (solution \<times> SolutionUserInfo) list" where
  "by_likes v xs = sort_key (\<lambda>x. - so_like_count (fst x)) (newest_first v (\<lambda>x. so_id (fst x)) (\<lambda>x. so_time (fst x)) xs)"

definition list_for_problem_of ::
    "com_env \<Rightarrow> SolutionListFilter \<Rightarrow> solution_db \<Rightarrow> (string + (SolutionRow \<times> SolutionUserInfo) list \<times> int) \<times> solution_db" where
  "list_for_problem_of v f s =
     (let rs = filter (solution_match (lf_problem_id f) (lf_user_id f)) (sd_solutions s) in
      on_conn v (then_do v 0 s (then_do v 1 s
        (Inr (map (\<lambda>(r, u). (SolutionRow.truncate r, u)) (page (lf_limit f) (lf_offset f) (by_likes v (join_user so_user_id s rs))),
              int (length rs)), s))) s)"

definition list_solutions_for_problem ::
    "com_env \<Rightarrow> int \<Rightarrow> int \<Rightarrow> int \<Rightarrow> solution_db \<Rightarrow> (string + (SolutionRow \<times> SolutionUserInfo) list \<times> int) \<times> solution_db" where
  "list_solutions_for_problem v pid limit offset s =
     list_for_problem_of v \<lparr>lf_problem_id = pid, lf_limit = limit, lf_offset = offset, lf_user_id = None\<rparr> s"

definition count_solutions :: "com_env \<Rightarrow> int \<Rightarrow> solution_db \<Rightarrow> (string + int) \<times> solution_db" where
  "count_solutions v pid s = query v (int (length (filter (solution_match pid None) (sd_solutions s)))) s"

definition set_solution :: "com_env \<Rightarrow> int \<Rightarrow> (solution \<Rightarrow> solution) \<Rightarrow> solution list \<Rightarrow> solution list" where
  "set_solution v i f rs =
     map (\<lambda>r. if so_id r = i \<and> f r \<noteq> r then (f r)\<lparr>so_updated_at := mv_fmt v (mv_time v)\<rparr> else r) rs"

definition solution_parents :: "int \<Rightarrow> int \<Rightarrow> solution_db \<Rightarrow> bool" where
  "solution_parents i u s \<longleftrightarrow> user_exists u s \<and> (\<exists>r \<in> set (sd_solutions s). so_id r = i)"

definition toggle_solution_like :: "com_env \<Rightarrow> int \<Rightarrow> int \<Rightarrow> solution_db \<Rightarrow> (string + bool) \<times> solution_db" where
  "toggle_solution_like v i u s =
     (case toggle_on v (solution_parents i u s) (u, i)
             (\<lambda>existing. set_solution v i (\<lambda>r. r\<lparr>so_like_count := like_count_step existing (so_like_count r)\<rparr>))
             (sd_likes s, sd_solutions s) of
        (r, ls, rs) \<Rightarrow> (r, s\<lparr>sd_likes := ls, sd_solutions := rs\<rparr>))"

definition has_user_liked :: "com_env \<Rightarrow> int \<Rightarrow> int \<Rightarrow> solution_db \<Rightarrow> (string + bool) \<times> solution_db" where
  "has_user_liked v i u s = query v ((u, i) \<in> set (sd_likes s)) s"

definition soft_delete_solution :: "com_env \<Rightarrow> int \<Rightarrow> solution_db \<Rightarrow> (string + unit) \<times> solution_db" where
  "soft_delete_solution v i s = execute v (s\<lparr>sd_solutions := set_solution v i (\<lambda>r. r\<lparr>so_is_deleted := True\<rparr>) (sd_solutions s)\<rparr>) s"

definition find_username_by_id :: "com_env \<Rightarrow> int \<Rightarrow> 'c community_scheme \<Rightarrow> (string + string option) \<times> 'c community_scheme" where
  "find_username_by_id v u s = query v (map_option u_username (find_user u s)) s"

section \<open>Comments\<close>

definition create_comment :: "com_env \<Rightarrow> SolutionCommentRow \<Rightarrow> solution_db \<Rightarrow> (string + int) \<times> solution_db" where
  "create_comment v c s =
     on_conn v
       (case (case dv_fault v 0 of
                Some m \<Rightarrow> Some m
              | None \<Rightarrow>
                  if user_exists (sc_user_id c) s \<and> (\<exists>r \<in> set (sd_solutions s). so_id r = sc_solution_id c)
                     \<and> (case sc_parent_id c of None \<Rightarrow> True | Some p \<Rightarrow> \<exists>x \<in> set (sd_comments s). sc_comment_id x = p)
                  then None else Some (fv_foreign_key v)) of
          Some m \<Rightarrow> (Inl (''solution_comment_repo::create: '' @ m), s)
        | None \<Rightarrow>
            (Inr (sd_comment_next s),
             s\<lparr>sd_comments := sd_comments s @
                 [\<lparr>sc_comment_id = sd_comment_next s, sc_solution_id = sc_solution_id c, sc_user_id = sc_user_id c,
                   sc_parent_id = sc_parent_id c, sc_content = sc_content c, sc_like_count = 0,
                   sc_created_at = mv_fmt v (mv_time v), sc_is_deleted = False, sc_time = mv_time v\<rparr>],
               sd_comment_next := sd_comment_next s + 1\<rparr>)) s"

definition find_comment :: "com_env \<Rightarrow> int \<Rightarrow> solution_db \<Rightarrow> (string + SolutionCommentRow option) \<times> solution_db" where
  "find_comment v i s =
     query v (map_option SolutionCommentRow.truncate (List.find (\<lambda>c. sc_comment_id c = i \<and> \<not> sc_is_deleted c) (sd_comments s))) s"

text \<open>\<^verbatim>\<open>ORDER BY created_at ASC, id ASC\<close>.\<close>

definition list_comments ::
    "com_env \<Rightarrow> int \<Rightarrow> int \<Rightarrow> int \<Rightarrow> solution_db \<Rightarrow> (string + (SolutionCommentRow \<times> SolutionUserInfo) list) \<times> solution_db" where
  "list_comments v i limit offset s =
     (let limit = (if limit \<le> 0 then 50 else limit); limit = (if limit > 200 then 200 else limit);
          offset = (if offset < 0 then 0 else offset) in
      query v (map (\<lambda>(c, u). (SolutionCommentRow.truncate c, u))
        (page limit offset
          (sort_key (\<lambda>x. sc_time (fst x)) (sort_key (\<lambda>x. sc_comment_id (fst x))
            (join_user sc_user_id s (filter (\<lambda>c. sc_solution_id c = i \<and> \<not> sc_is_deleted c) (sd_comments s))))))) s)"

definition live_comments :: "int \<Rightarrow> solution_db \<Rightarrow> int" where
  "live_comments i s = int (length (filter (\<lambda>c. sc_solution_id c = i \<and> \<not> sc_is_deleted c) (sd_comments s)))"

definition count_comments :: "com_env \<Rightarrow> int \<Rightarrow> solution_db \<Rightarrow> (string + int) \<times> solution_db" where
  "count_comments v i s = query v (live_comments i s) s"

definition increment_comment_count :: "com_env \<Rightarrow> int \<Rightarrow> solution_db \<Rightarrow> (string + unit) \<times> solution_db" where
  "increment_comment_count v i s =
     execute v (s\<lparr>sd_solutions := set_solution v i (\<lambda>r. r\<lparr>so_comment_count := so_comment_count r + 1\<rparr>) (sd_solutions s)\<rparr>) s"

definition decrement_comment_count :: "com_env \<Rightarrow> int \<Rightarrow> solution_db \<Rightarrow> (string + unit) \<times> solution_db" where
  "decrement_comment_count v i s =
     execute v (s\<lparr>sd_solutions := set_solution v i (\<lambda>r. r\<lparr>so_comment_count := max 0 (so_comment_count r - 1)\<rparr>) (sd_solutions s)\<rparr>) s"

definition set_comment :: "int \<Rightarrow> (solution_comment \<Rightarrow> solution_comment) \<Rightarrow> solution_comment list \<Rightarrow> solution_comment list" where
  "set_comment i f cs = map (\<lambda>c. if sc_comment_id c = i then f c else c) cs"

definition soft_delete_comment :: "com_env \<Rightarrow> int \<Rightarrow> solution_db \<Rightarrow> (string + unit) \<times> solution_db" where
  "soft_delete_comment v i s = execute v (s\<lparr>sd_comments := set_comment i (\<lambda>c. c\<lparr>sc_is_deleted := True\<rparr>) (sd_comments s)\<rparr>) s"

definition has_user_liked_comment :: "com_env \<Rightarrow> int \<Rightarrow> int \<Rightarrow> solution_db \<Rightarrow> (string + bool) \<times> solution_db" where
  "has_user_liked_comment v i u s = query v ((u, i) \<in> set (sd_comment_likes s)) s"

definition comment_parents :: "int \<Rightarrow> int \<Rightarrow> solution_db \<Rightarrow> bool" where
  "comment_parents i u s \<longleftrightarrow> user_exists u s \<and> (\<exists>c \<in> set (sd_comments s). sc_comment_id c = i)"

definition toggle_comment_like :: "com_env \<Rightarrow> int \<Rightarrow> int \<Rightarrow> solution_db \<Rightarrow> (string + bool) \<times> solution_db" where
  "toggle_comment_like v i u s =
     (case toggle_on v (comment_parents i u s) (u, i)
             (\<lambda>existing. set_comment i (\<lambda>c. c\<lparr>sc_like_count := like_count_step existing (sc_like_count c)\<rparr>))
             (sd_comment_likes s, sd_comments s) of
        (r, ls, cs) \<Rightarrow> (r, s\<lparr>sd_comment_likes := ls, sd_comments := cs\<rparr>))"

section \<open>The contract of likes\<close>

definition solution_counters :: "solution_db \<Rightarrow> (int \<times> int) list" where
  "solution_counters s = map (\<lambda>r. (so_id r, so_like_count r)) (sd_solutions s)"

definition comment_counters :: "solution_db \<Rightarrow> (int \<times> int) list" where
  "comment_counters s = map (\<lambda>c. (sc_comment_id c, sc_like_count c)) (sd_comments s)"

lemma toggle_on_cases:
  obtains m where "toggle_on v P p f (ls, rs) = (Inl m, ls, rs)"
  | m ls' where "toggle_on v P p f (ls, rs) = (Inl m, ls', rs)"
  | ls' where "toggle_on v P p f (ls, rs) = (Inr (p \<notin> set ls), ls', f (p \<in> set ls) rs)"
proof -
  have "(\<exists>m. toggle_on v P p f (ls, rs) = (Inl m, ls, rs)) \<or> (\<exists>m ls'. toggle_on v P p f (ls, rs) = (Inl m, ls', rs))
    \<or> (\<exists>ls'. toggle_on v P p f (ls, rs) = (Inr (p \<notin> set ls), ls', f (p \<in> set ls) rs))"
    by (cases "dv_acquire v"; cases "dv_fault v 0"; cases "dv_fault v 1"; cases "dv_fault v 2";
        cases "like_write (dv_duplicate v) (fv_foreign_key v) P p (p \<in> set ls) ls")
      (simp_all add: toggle_on_def on_conn_def then_do_def Let_def)
  then show thesis using that by blast
qed

lemma set_solution_counters:
  "map (\<lambda>r. (so_id r, so_like_count r)) (set_solution v i (\<lambda>r. r\<lparr>so_like_count := g (so_like_count r)\<rparr>) rs)
   = map (\<lambda>(j, n). (j, if j = i then g n else n)) (map (\<lambda>r. (so_id r, so_like_count r)) rs)"
proof -
  have *: "so_like_count r = g (so_like_count r)" if "r\<lparr>so_like_count := g (so_like_count r)\<rparr> = r" for r :: solution
    using arg_cong [OF that, of so_like_count] by simp
  show ?thesis by (auto simp: set_solution_def intro: *)
qed

lemma set_solution_ids: "(\<And>r. so_id (f r) = so_id r) \<Longrightarrow> map so_id (set_solution v i f rs) = map so_id rs"
  by (auto simp: set_solution_def)

lemma set_comment_counters:
  "map (\<lambda>c. (sc_comment_id c, sc_like_count c)) (set_comment i (\<lambda>c. c\<lparr>sc_like_count := g (sc_like_count c)\<rparr>) cs)
   = map (\<lambda>(j, n). (j, if j = i then g n else n)) (map (\<lambda>c. (sc_comment_id c, sc_like_count c)) cs)"
  by (auto simp: set_comment_def)

lemma ids_exist: "(\<exists>r \<in> set rs. f r = i) \<longleftrightarrow> i \<in> set (map f rs)"
  by auto

lemma toggle_solution_parents: "solution_parents j w (snd (toggle_solution_like v i u s)) = solution_parents j w s"
proof -
  let ?f = "\<lambda>existing. set_solution v i (\<lambda>r. r\<lparr>so_like_count := like_count_step existing (so_like_count r)\<rparr>)"
  have ids: "map so_id (?f b rs) = map so_id rs" for b rs by (rule set_solution_ids) simp
  obtain r ls rs where t: "toggle_on v (solution_parents i u s) (u, i) ?f (sd_likes s, sd_solutions s) = (r, ls, rs)"
    and "map so_id rs = map so_id (sd_solutions s)"
    by (cases rule: toggle_on_cases [of v "solution_parents i u s" "(u, i)" ?f "sd_likes s" "sd_solutions s"]) (auto simp only: ids)
  then show ?thesis unfolding toggle_solution_like_def t by (simp add: solution_parents_def user_exists_def ids_exist del: set_map)
qed

lemma toggle_comment_parents: "comment_parents j w (snd (toggle_comment_like v i u s)) = comment_parents j w s"
proof -
  let ?f = "\<lambda>existing. set_comment i (\<lambda>c. c\<lparr>sc_like_count := like_count_step existing (sc_like_count c)\<rparr>)"
  have ids: "map sc_comment_id (?f b rs) = map sc_comment_id rs" for b rs by (auto simp: set_comment_def)
  obtain r ls rs where t: "toggle_on v (comment_parents i u s) (u, i) ?f (sd_comment_likes s, sd_comments s) = (r, ls, rs)"
    and "map sc_comment_id rs = map sc_comment_id (sd_comments s)"
    by (cases rule: toggle_on_cases [of v "comment_parents i u s" "(u, i)" ?f "sd_comment_likes s" "sd_comments s"]) (auto simp only: ids)
  then show ?thesis unfolding toggle_comment_like_def t by (simp add: comment_parents_def user_exists_def ids_exist del: set_map)
qed

interpretation sol: like_counter toggle_solution_like sd_likes solution_counters solution_parents
  by unfold_locales (simp_all add: toggle_solution_like_def toggle_on_healthy toggle_on_refused solution_counters_def set_solution_counters
      toggle_solution_parents [unfolded toggle_solution_like_def])

interpretation com: like_counter toggle_comment_like sd_comment_likes comment_counters comment_parents
  by unfold_locales (simp_all add: toggle_comment_like_def toggle_on_healthy toggle_on_refused comment_counters_def set_comment_counters
      toggle_comment_parents [unfolded toggle_comment_like_def])

end
