(* ===== verification/Solution_Routes.thy ===== *)
theory Solution_Routes
  imports Solutions Judge_Scheduler
begin

text \<open>
  The handlers of \<^verbatim>\<open>src/routes/solution_routes.h\<close>. \<open>e k\<close> is what the database does in the \<open>k\<close>-th repository call of a
  handler; the path, the number the route matched and the query parameters are arguments. Log lines are left out, and
  so is the code after the unconditional returns of \<^verbatim>\<open>build_solution_excerpt\<close>.

  Main results: what a like answers and changes, and how it fails after it is stored when the title is cut inside a
  character; that one cut excerpt empties the whole list of solutions; comments and their counter; who may delete.
\<close>

section \<open>Documents\<close>

definition build_solution_excerpt :: "string \<Rightarrow> nat \<Rightarrow> string" where
  "build_solution_excerpt markdown max_chars = take (min (length markdown) max_chars) markdown"

definition user_json :: "SolutionUserInfo \<Rightarrow> json" where
  "user_json u =
     JObj ([(''id'', JInt (ui_id u)), (''username'', JStr (sanitize_utf8 (ui_username u)))]
           @ (case ui_avatar u of None \<Rightarrow> [] | Some a \<Rightarrow> [(''avatar'', JStr (sanitize_utf8 a))]))"

definition serialize_solution :: "SolutionRow \<times> SolutionUserInfo \<Rightarrow> json" where
  "serialize_solution ru =
     (case ru of (r, u) \<Rightarrow>
        JObj [(''id'', JInt (so_id r)), (''title'', JStr (sanitize_utf8 (so_title r))), (''content'', JStr (sanitize_utf8 (so_content r))),
              (''like_count'', JInt (so_like_count r)), (''comment_count'', JInt (so_comment_count r)),
              (''created_at'', JStr (so_created_at r)), (''user'', user_json u)])"

definition serialize_solution_list_item :: "SolutionRow \<times> SolutionUserInfo \<Rightarrow> json" where
  "serialize_solution_list_item ru =
     (case ru of (r, u) \<Rightarrow>
        JObj [(''id'', JInt (so_id r)), (''title'', JStr (sanitize_utf8 (so_title r))),
              (''excerpt'', JStr (take 200 (sanitize_utf8 (so_content r)))),
              (''like_count'', JInt (so_like_count r)), (''comment_count'', JInt (so_comment_count r)),
              (''created_at'', JStr (sanitize_utf8 (so_created_at r))), (''user'', user_json u)])"

definition serialize_solution_comment :: "SolutionCommentRow \<times> SolutionUserInfo \<Rightarrow> json" where
  "serialize_solution_comment cu =
     (case cu of (c, u) \<Rightarrow>
        JObj [(''id'', JInt (sc_comment_id c)), (''solution_id'', JInt (sc_solution_id c)),
              (''content'', JStr (sanitize_utf8 (sc_content c))), (''created_at'', JStr (sc_created_at c)),
              (''like_count'', JInt (sc_like_count c)),
              (''parent_id'', case sc_parent_id c of None \<Rightarrow> JNull | Some p \<Rightarrow> JInt p), (''user'', user_json u)])"

section \<open>Solutions\<close>

text \<open>An exception anywhere in the listing is answered with an empty list.\<close>

definition list_solutions_body ::
    "web_env \<Rightarrow> (nat \<Rightarrow> com_env) \<Rightarrow> string \<Rightarrow> params \<Rightarrow> http_response \<Rightarrow> solution_db \<Rightarrow> solution_db web_result" where
  "list_solutions_body w e path ps res s =
     (case slug_of_path path of
        None \<Rightarrow> web_error w 400 INVALID_INPUT ''invalid path'' res s
      | Some slug \<Rightarrow>
          if slug = [] then web_error w 400 INVALID_INPUT ''invalid slug'' res s
          else web_call (find_problem_id_by_slug (e 0) slug s) (\<lambda>pid s.
            case pid of
              None \<Rightarrow> web_error w 404 NOT_FOUND ''problem not found'' res s
            | Some pid \<Rightarrow>
                let (limit, offset) = page_params 20 100 ps in
                web_call (list_solutions_for_problem (e 1) pid limit offset s) (\<lambda>(items, total) s.
                  web_ok w (JObj [(''items'', JArr (map serialize_solution_list_item items)), (''total'', JInt total),
                                  (''limit'', JInt limit), (''offset'', JInt offset), (''dropped'', JInt 0)]) res s) res) res)"

definition handle_list_solutions ::
    "web_env \<Rightarrow> (nat \<Rightarrow> com_env) \<Rightarrow> string \<Rightarrow> params \<Rightarrow> http_response \<Rightarrow> solution_db \<Rightarrow> solution_db web_result" where
  "handle_list_solutions w e path ps res s =
     (case list_solutions_body w e path ps res s of
        (Inl (ThrowsStd _), res, s) \<Rightarrow>
          (case web_ok w (JObj [(''items'', JArr []), (''total'', JInt 0), (''limit'', JInt 20), (''offset'', JInt 0), (''dropped'', JInt (-1))]) res s of
             (Inl _, res, s) \<Rightarrow> web_error w 500 INTERNAL_ERROR ''internal error'' res s
           | r \<Rightarrow> r)
      | r \<Rightarrow> r)"

text \<open>The body of a request: a document that does not parse is no object; \<^verbatim>\<open>get<std::string>\<close> throws on other types.\<close>

definition body_object :: "web_env \<Rightarrow> http_request \<Rightarrow> json option" where
  "body_object w req = (case wv_parse w (req_body req) of Returns (JObj ms) \<Rightarrow> Some (JObj ms) | _ \<Rightarrow> None)"

definition with_string :: "json \<Rightarrow> (string \<Rightarrow> 's web_result) \<Rightarrow> http_response \<Rightarrow> 's \<Rightarrow> 's web_result" where
  "with_string j k res s = (case j of JStr t \<Rightarrow> k t | _ \<Rightarrow> (Inl (ThrowsStd ''type must be string''), res, s))"

definition handle_create_solution ::
    "web_env \<Rightarrow> (nat \<Rightarrow> com_env) \<Rightarrow> string \<Rightarrow> http_request \<Rightarrow> http_response \<Rightarrow> solution_db \<Rightarrow> solution_db web_result" where
  "handle_create_solution w e path req res s =
     web_auth w req (\<lambda>c.
       case slug_of_path path of
         None \<Rightarrow> web_error w 400 INVALID_INPUT ''invalid path'' res s
       | Some slug \<Rightarrow> web_call (find_problem_id_by_slug (e 0) slug s) (\<lambda>pid s.
           case pid of
             None \<Rightarrow> web_error w 404 NOT_FOUND ''problem not found'' res s
           | Some pid \<Rightarrow>
           case body_object w req of
             None \<Rightarrow> web_error w 400 INVALID_INPUT ''invalid body'' res s
           | Some body \<Rightarrow>
           case (get_member body ''title'', get_member body ''content'') of
             (Some tj, Some cj) \<Rightarrow>
               with_string tj (\<lambda>title. with_string cj (\<lambda>content.
                 if title = [] \<or> length title > 200 then web_error w 400 INVALID_INPUT ''title must be 1-200 chars'' res s
                 else if content = [] then web_error w 400 INVALID_INPUT ''content cannot be empty'' res s
                 else web_user c (\<lambda>u.
                   web_call (create_solution (e 1) u pid title content s) (\<lambda>i s. web_ok w (JObj [(''id'', JInt i)]) res s) res) res s) res s) res s
           | _ \<Rightarrow> web_error w 400 INVALID_INPUT ''title and content required'' res s) res) res s"

definition handle_get_solution ::
    "web_env \<Rightarrow> (nat \<Rightarrow> com_env) \<Rightarrow> string \<Rightarrow> http_response \<Rightarrow> solution_db \<Rightarrow> solution_db web_result" where
  "handle_get_solution w e path res s =
     (let i = id_at_end path in
      if i = 0 then web_error w 400 INVALID_INPUT ''invalid solution id'' res s
      else web_call (find_solution (e 0) i s) (\<lambda>r s.
        case r of
          None \<Rightarrow> web_error w 404 NOT_FOUND ''solution not found'' res s
        | Some r \<Rightarrow> web_call (find_username_by_id (e 1) (so_user_id r) s) (\<lambda>name s.
            web_ok w (serialize_solution (r, \<lparr>ui_id = so_user_id r, ui_username = (case name of None \<Rightarrow> ''?'' | Some n \<Rightarrow> n),
                                              ui_avatar = None\<rparr>)) res s) res) res)"

text \<open>\<open>m\<close> is the text the route matched, if any.\<close>

definition matched_id :: "string option \<Rightarrow> int" where
  "matched_id m = (case m of None \<Rightarrow> 0 | Some t \<Rightarrow> stoi_or 0 t)"

text \<open>The name of the acting user, for a notification.\<close>

definition acting_name :: "com_env \<Rightarrow> int \<Rightarrow> 'c community_scheme \<Rightarrow> (string + string) \<times> 'c community_scheme" where
  "acting_name v u s = query v (case find_user u s of None \<Rightarrow> kSomeUser | Some r \<Rightarrow> u_username r) s"

definition like_notice ::
    "web_env \<Rightarrow> (nat \<Rightarrow> com_env) \<Rightarrow> bool \<Rightarrow> SolutionRow \<Rightarrow> int \<Rightarrow> solution_db \<Rightarrow> (string + unit) \<times> solution_db" where
  "like_notice w e liked r u s =
     (if liked \<and> so_user_id r \<noteq> u then
        (case acting_name (e 3) u s of
           (Inl m, s) \<Rightarrow> (Inl m, s)
         | (Inr name, s) \<Rightarrow> notify_solution_like w (e 4) (so_user_id r) u (so_id r) name (so_title r) s)
      else (Inr (), s))"

definition handle_like_solution ::
    "web_env \<Rightarrow> (nat \<Rightarrow> com_env) \<Rightarrow> string option \<Rightarrow> http_request \<Rightarrow> http_response \<Rightarrow> solution_db \<Rightarrow> solution_db web_result" where
  "handle_like_solution w e m req res s =
     web_auth w req (\<lambda>c.
       let i = matched_id m in
       if i = 0 then web_error w 400 INVALID_INPUT ''invalid solution id'' res s
       else web_call (find_solution (e 0) i s) (\<lambda>r s.
         case r of
           None \<Rightarrow> web_error w 404 NOT_FOUND ''solution not found'' res s
         | Some r \<Rightarrow> web_user c (\<lambda>u.
             web_call (toggle_solution_like (e 1) i u s) (\<lambda>liked s.
             web_call (find_solution (e 2) i s) (\<lambda>updated s.
             web_call (like_notice w e liked r u s) (\<lambda>_ s.
               web_ok w (JObj [(''liked'', JBool liked),
                               (''like_count'', JInt (case updated of None \<Rightarrow> 0 | Some x \<Rightarrow> so_like_count x))]) res s) res) res) res) res s) res) res s"

definition handle_delete_solution ::
    "web_env \<Rightarrow> (nat \<Rightarrow> com_env) \<Rightarrow> string \<Rightarrow> http_request \<Rightarrow> http_response \<Rightarrow> solution_db \<Rightarrow> solution_db web_result" where
  "handle_delete_solution w e path req res s =
     web_auth w req (\<lambda>c.
       let i = id_at_end path in
       if i = 0 then web_error w 400 INVALID_INPUT ''invalid solution id'' res s
       else web_call (find_solution (e 0) i s) (\<lambda>r s.
         case r of
           None \<Rightarrow> web_error w 404 NOT_FOUND ''solution not found'' res s
         | Some r \<Rightarrow> web_user c (\<lambda>u.
             if u \<noteq> so_user_id r \<and> role c \<noteq> ''admin'' then
               web_error w 403 FORBIDDEN ''not authorized to delete this solution'' res s
             else web_call (soft_delete_solution (e 1) i s) (\<lambda>_ s. web_ok w (JObj [(''deleted'', JBool True)]) res s) res) res s) res) res s"

section \<open>Comments\<close>

definition handle_list_solution_comments ::
    "web_env \<Rightarrow> (nat \<Rightarrow> com_env) \<Rightarrow> string option \<Rightarrow> params \<Rightarrow> http_response \<Rightarrow> solution_db \<Rightarrow> solution_db web_result" where
  "handle_list_solution_comments w e m ps res s =
     (let i = matched_id m in
      if i = 0 then web_error w 400 INVALID_INPUT ''invalid solution id'' res s
      else web_call (find_solution (e 0) i s) (\<lambda>r s.
        case r of
          None \<Rightarrow> web_error w 404 NOT_FOUND ''solution not found'' res s
        | Some _ \<Rightarrow>
            let (limit, offset) = page_params 50 200 ps in
            web_call (list_comments (e 1) i limit offset s) (\<lambda>items s.
            web_call (count_comments (e 2) i s) (\<lambda>total s.
              web_ok w (JObj [(''items'', JArr (map serialize_solution_comment items)), (''total'', JInt total),
                              (''limit'', JInt limit), (''offset'', JInt offset)]) res s) res) res) res)"

text \<open>
  \<^verbatim>\<open>get<int>\<close> of a number or a truth value; a real number is cut to an integer, which is undefined outside of
  the range.
\<close>

datatype got = GotInt int | GotWrongType | GotUndefined

fun get_int :: "json \<Rightarrow> got" where
  "get_int (JInt k) = GotInt (wrap32 k)"
| "get_int (JBool b) = GotInt (if b then 1 else 0)"
| "get_int (JReal r) =
     (let k = (if 0 \<le> r then \<lfloor>r\<rfloor> else \<lceil>r\<rceil>) in if - (2 ^ 31) \<le> k \<and> k < 2 ^ 31 then GotInt k else GotUndefined)"
| "get_int _ = GotWrongType"

text \<open>The parent of a comment; every exception of the block, the database's included, is answered with 400.\<close>

datatype parent = NoParent | Parent int | BadParent int ErrorCode string | UndefinedParent

definition find_parent :: "com_env \<Rightarrow> json \<Rightarrow> int \<Rightarrow> solution_db \<Rightarrow> parent" where
  "find_parent v body sid s =
     (case get_member body ''parent_id'' of
        None \<Rightarrow> NoParent
      | Some JNull \<Rightarrow> NoParent
      | Some j \<Rightarrow>
          (case get_int j of
             GotWrongType \<Rightarrow> BadParent 400 INVALID_INPUT ''parent_id must be int''
           | GotUndefined \<Rightarrow> UndefinedParent
           | GotInt p \<Rightarrow>
               if p \<le> 0 then NoParent
               else case fst (find_comment v p s) of
                      Inl _ \<Rightarrow> BadParent 400 INVALID_INPUT ''parent_id must be int''
                    | Inr None \<Rightarrow> BadParent 404 NOT_FOUND ''parent comment not found''
                    | Inr (Some x) \<Rightarrow>
                        if sc_solution_id x \<noteq> sid then BadParent 400 INVALID_INPUT ''parent comment does not belong to this solution''
                        else Parent p))"

text \<open>Whom a new comment is announced to; all exceptions are ignored.\<close>

definition comment_notice ::
    "web_env \<Rightarrow> (nat \<Rightarrow> com_env) \<Rightarrow> SolutionRow \<Rightarrow> int option \<Rightarrow> int \<Rightarrow> int \<Rightarrow> string \<Rightarrow> solution_db \<Rightarrow> solution_db" where
  "comment_notice w e r parent u cid content s =
     (case acting_name (e 4) u s of
        (Inl _, s) \<Rightarrow> s
      | (Inr name, s) \<Rightarrow>
          (case parent of
             Some p \<Rightarrow>
               (case fst (find_comment (e 5) p s) of
                  Inr (Some x) \<Rightarrow>
                    if sc_user_id x \<noteq> u
                    then snd (notify_solution_comment_reply w (e 6) (sc_user_id x) u (so_id r) cid name (so_title r) content s) else s
                | _ \<Rightarrow> s)
           | None \<Rightarrow>
               if so_user_id r \<noteq> u
               then snd (notify_solution_comment w (e 6) (so_user_id r) u (so_id r) cid name (so_title r) content s) else s))"

definition store_comment ::
    "web_env \<Rightarrow> (nat \<Rightarrow> com_env) \<Rightarrow> SolutionRow \<Rightarrow> int option \<Rightarrow> int \<Rightarrow> string \<Rightarrow> http_response \<Rightarrow> solution_db \<Rightarrow> solution_db web_result" where
  "store_comment w e r parent u content res s =
     web_call (create_comment (e 2) \<lparr>sc_comment_id = 0, sc_solution_id = so_id r, sc_user_id = u, sc_parent_id = parent,
                                     sc_content = content, sc_like_count = 0, sc_created_at = [], sc_is_deleted = False\<rparr> s) (\<lambda>cid s.
     web_call (increment_comment_count (e 3) (so_id r) s) (\<lambda>_ s.
       web_ok w (JObj [(''id'', JInt cid)]) res (comment_notice w e r parent u cid content s)) res) res"

definition handle_create_solution_comment ::
    "web_env \<Rightarrow> (nat \<Rightarrow> com_env) \<Rightarrow> string option \<Rightarrow> http_request \<Rightarrow> http_response \<Rightarrow> solution_db \<Rightarrow> solution_db web_result" where
  "handle_create_solution_comment w e m req res s =
     web_auth w req (\<lambda>c.
       let i = matched_id m in
       if i = 0 then web_error w 400 INVALID_INPUT ''invalid solution id'' res s
       else web_call (find_solution (e 0) i s) (\<lambda>r s.
         case r of
           None \<Rightarrow> web_error w 404 NOT_FOUND ''solution not found'' res s
         | Some r \<Rightarrow>
         case body_object w req of
           None \<Rightarrow> web_error w 400 INVALID_INPUT ''invalid body'' res s
         | Some body \<Rightarrow>
         case get_member body ''content'' of
           None \<Rightarrow> web_error w 400 INVALID_INPUT ''content required'' res s
         | Some cj \<Rightarrow> with_string cj (\<lambda>raw.
             let content = trim raw in
             if content = [] \<or> length content > 2000 then web_error w 400 INVALID_INPUT ''content must be 1-2000 chars'' res s
             else web_user c (\<lambda>u.
               case find_parent (e 1) body i s of
                 BadParent st code msg \<Rightarrow> web_error w st code msg res s
               | UndefinedParent \<Rightarrow> (Inl UndefinedBehaviour, res, s)
               | NoParent \<Rightarrow> store_comment w e r None u content res s
               | Parent p \<Rightarrow> store_comment w e r (Some p) u content res s) res s) res s) res) res s"

definition handle_delete_solution_comment ::
    "web_env \<Rightarrow> (nat \<Rightarrow> com_env) \<Rightarrow> string option \<Rightarrow> http_request \<Rightarrow> http_response \<Rightarrow> solution_db \<Rightarrow> solution_db web_result" where
  "handle_delete_solution_comment w e m req res s =
     web_auth w req (\<lambda>c.
       let i = matched_id m in
       if i = 0 then web_error w 400 INVALID_INPUT ''invalid comment id'' res s
       else web_call (find_comment (e 0) i s) (\<lambda>r s.
         case r of
           None \<Rightarrow> web_error w 404 NOT_FOUND ''comment not found'' res s
         | Some r \<Rightarrow> web_user c (\<lambda>u.
             if u \<noteq> sc_user_id r \<and> role c \<noteq> ''admin'' then
               web_error w 403 FORBIDDEN ''not authorized to delete this comment'' res s
             else web_call (soft_delete_comment (e 1) i s) (\<lambda>_ s.
                  web_call (decrement_comment_count (e 2) (sc_solution_id r) s) (\<lambda>_ s.
                    web_ok w (JObj [(''deleted'', JBool True)]) res s) res) res) res s) res) res s"

definition handle_like_solution_comment ::
    "web_env \<Rightarrow> (nat \<Rightarrow> com_env) \<Rightarrow> string option \<Rightarrow> http_request \<Rightarrow> http_response \<Rightarrow> solution_db \<Rightarrow> solution_db web_result" where
  "handle_like_solution_comment w e m req res s =
     web_auth w req (\<lambda>c.
       let i = matched_id m in
       if i = 0 then web_error w 400 INVALID_INPUT ''invalid comment id'' res s
       else web_call (find_comment (e 0) i s) (\<lambda>r s.
         case r of
           None \<Rightarrow> web_error w 404 NOT_FOUND ''comment not found'' res s
         | Some _ \<Rightarrow> web_user c (\<lambda>u.
             web_call (toggle_comment_like (e 1) i u s) (\<lambda>liked s.
             web_call (find_comment (e 2) i s) (\<lambda>updated s.
               web_ok w (JObj [(''liked'', JBool liked),
                               (''like_count'', JInt (case updated of None \<Rightarrow> 0 | Some x \<Rightarrow> sc_like_count x))]) res s) res) res) res s) res) res s"

datatype solution_route =
    RtSolutions string params
  | RtNewSolution string
  | RtSolution string
  | RtLikeSolution "string option"
  | RtDeleteSolution string
  | RtComments "string option" params
  | RtNewComment "string option"
  | RtDeleteComment "string option"
  | RtLikeComment "string option"

fun solution_route_handler ::
    "web_env \<Rightarrow> (nat \<Rightarrow> com_env) \<Rightarrow> solution_route \<Rightarrow> http_request \<Rightarrow> http_response \<Rightarrow> solution_db \<Rightarrow> solution_db web_result" where
  "solution_route_handler w e (RtSolutions path ps) req res s = plain_guard w (handle_list_solutions w e path ps res s)"
| "solution_route_handler w e (RtNewSolution path) req res s = plain_guard w (handle_create_solution w e path req res s)"
| "solution_route_handler w e (RtSolution path) req res s = plain_guard w (handle_get_solution w e path res s)"
| "solution_route_handler w e (RtLikeSolution m) req res s = plain_guard w (handle_like_solution w e m req res s)"
| "solution_route_handler w e (RtDeleteSolution path) req res s = plain_guard w (handle_delete_solution w e path req res s)"
| "solution_route_handler w e (RtComments m ps) req res s = plain_guard w (handle_list_solution_comments w e m ps res s)"
| "solution_route_handler w e (RtNewComment m) req res s = plain_guard w (handle_create_solution_comment w e m req res s)"
| "solution_route_handler w e (RtDeleteComment m) req res s = plain_guard w (handle_delete_solution_comment w e m req res s)"
| "solution_route_handler w e (RtLikeComment m) req res s = plain_guard w (handle_like_solution_comment w e m req res s)"

section \<open>Lemmas\<close>

lemma create_note_frame:
  "sd_likes (snd (create_note v n s)) = sd_likes s" "sd_solutions (snd (create_note v n s)) = sd_solutions s"
  "sd_comments (snd (create_note v n s)) = sd_comments s" "sd_comment_likes (snd (create_note v n s)) = sd_comment_likes s"
  "sd_next (snd (create_note v n s)) = sd_next s" "sd_comment_next (snd (create_note v n s)) = sd_comment_next s"
  by (simp_all add: create_note_def on_conn_def split: option.splits)

lemma push_frame_db:
  "sd_likes (snd (push w u ty j s)) = sd_likes s" "sd_solutions (snd (push w u ty j s)) = sd_solutions s"
  "sd_comments (snd (push w u ty j s)) = sd_comments s" "sd_comment_likes (snd (push w u ty j s)) = sd_comment_likes s"
  "sd_next (snd (push w u ty j s)) = sd_next s" "sd_comment_next (snd (push w u ty j s)) = sd_comment_next s"
  by (simp_all add: push_def split: outcome.splits)

text \<open>What of the tables a state change is about.\<close>

definition tables :: "solution_db \<Rightarrow> solution list \<times> int \<times> like list \<times> solution_comment list \<times> int \<times> like list" where
  "tables s = (sd_solutions s, sd_next s, sd_likes s, sd_comments s, sd_comment_next s, sd_comment_likes s)"

lemma deliver_tables [simp]: "tables (snd (deliver w v u ty msg link ref s)) = tables s"
  by (simp add: deliver_def tables_def push_frame_db create_note_frame Let_def)

lemma notify_tables [simp]:
  "tables (snd (notify_solution_like w v a b i name title s)) = tables s"
  "tables (snd (notify_solution_comment w v a b i j name title t s)) = tables s"
  "tables (snd (notify_solution_comment_reply w v a b i j name title t s)) = tables s"
  by (simp_all add: notify_solution_like_def notify_solution_comment_def notify_solution_comment_reply_def)

lemma acting_name_state: "acting_name v u s = (r, s') \<Longrightarrow> s' = s"
  using query_keeps [of v _ s] by (metis acting_name_def snd_conv)

lemma like_notice_tables [simp]: "tables (snd (like_notice w e liked r u s)) = tables s"
  by (auto simp: like_notice_def dest: acting_name_state split: prod.splits sum.splits)

lemma comment_notice_tables [simp]: "tables (comment_notice w e r p u cid t s) = tables s"
  by (auto simp: comment_notice_def dest!: acting_name_state split: prod.splits sum.splits option.splits)

lemma toggle_users [simp]: "cm_users (snd (toggle_solution_like v i u s)) = cm_users s"
  by (simp add: toggle_solution_like_def split: prod.splits)

lemma find_some_exists: "List.find P xs = Some r \<Longrightarrow> r \<in> set xs \<and> P r"
  by (auto simp: find_Some_iff)

section \<open>Likes and excerpts\<close>

text \<open>
  A like of a solution whose title is longer than 50 bytes, with the fiftieth inside a character: the like is stored and
  counted, but the request is answered with 500, because the notification for the author cannot be printed.
\<close>

theorem like_fails_after_storing:
  assumes auth: "require_authentication (wv_lib w) (wv_verify1 w) (wv_verify2 w) req (wv_jwt w) = Inr c" "stoi (user_id c) = Some u"
    and m: "matched_id m = i" "i \<noteq> 0" and ok: "\<forall>k. healthy (e k)" and lib: "strict_dump (wv_dump w)"
    and r: "List.find (\<lambda>r. so_id r = i \<and> \<not> so_is_deleted r) (sd_solutions s) = Some r" "so_user_id r \<noteq> u"
    and title: "50 < length (so_title r)" "\<not> utf8 (take 50 (so_title r))"
    and user: "find_user u s = Some x" "utf8 (u_username x)" and fresh: "(u, i) \<notin> set (sd_likes s)"
  shows "\<exists>res' s'. solution_route_handler w e (RtLikeSolution m) req res s = (Inr (), res', s') \<and> rsp_status res' = 500
    \<and> sd_likes s' = sd_likes s @ [(u, i)]"
proof -
  have sid: "so_id r = i" and par: "solution_parents i u s"
    using find_some_exists [OF r(1)] find_some_exists [OF user(1) [unfolded find_user_def]] by (auto simp: solution_parents_def user_exists_def)
  obtain s1 where t: "toggle_solution_like (e 1) i u s = (Inr True, s1)" and likes: "sd_likes s1 = sd_likes s @ [(u, i)]"
    using sol.result [of "e 1" u i s] sol.likes_after [of "e 1" u i s] ok par fresh
    by (cases "toggle_solution_like (e 1) i u s") auto
  have users: "cm_users s1 = cm_users s" using toggle_users [of "e 1" i u s] unfolding t by simp
  have find: "find_solution (e k) i s' = (Inr (map_option SolutionRow.truncate (List.find (\<lambda>r. so_id r = i \<and> \<not> so_is_deleted r) (sd_solutions s'))), s')"
    for k s' using ok by (simp add: find_solution_def)
  let ?r = "SolutionRow.truncate r"
  have tr: "so_id ?r = i" "so_user_id ?r = so_user_id r" "so_title ?r = so_title r" using sid by (simp_all add: SolutionRow.truncate_def)
  let ?msg = "u_username x @ kLiked @ clip 50 (so_title r) @ kClose"
  have bad: "\<not> utf8 ?msg" using clip_invalid [OF title(2,1) user(2) kTexts_valid(2)] by simp
  have name: "acting_name (e 3) u s1 = (Inr (u_username x), s1)" using ok user(1) users by (simp add: acting_name_def find_user_def)
  obtain msg s2 where d: "deliver w (e 4) (so_user_id r) ''solution_like'' ?msg (''/solution.html?id='' @ to_string i) i s1 = (Inl msg, s2)"
    using deliver_fails [OF lib bad] by blast
  then have n: "like_notice w e True ?r u s1 = (Inl msg, s2)"
    using r(2) name tr by (simp add: like_notice_def notify_solution_like_def)
  have "sd_likes s2 = sd_likes s1" using like_notice_tables [of w e True ?r u s1] unfolding n tables_def by simp
  moreover have "solution_route_handler w e (RtLikeSolution m) req res s = plain_guard w (Inl (ThrowsStd msg), res, s2)"
    using auth m r(1) by (simp add: handle_like_solution_def web_auth_def web_call_def web_user_def find t n Let_def del: One_nat_def)
  ultimately show ?thesis using likes by (simp add: plain_guard_def web_error_def)
qed

text \<open>A printer as the library documents it, and a solution of another user whose title is one character 17 times.\<close>

definition strict_demo :: "json \<Rightarrow> string outcome" where
  "strict_demo j = (if utf8_json j then Returns [] else Throws ''type_error'')"

lemma strict_demo_strict: "strict_dump strict_demo"
  by (simp add: strict_dump_def strict_demo_def)

definition strict_web :: web_env where
  "strict_web = (demo_web ''user'' JNull)\<lparr>wv_dump := strict_demo\<rparr>"

definition ni :: "nat \<Rightarrow> string" where
  "ni n = concat (replicate n [CHR 0xE4, CHR 0xBD, CHR 0xA0])"

lemma ni_Suc: "ni (Suc n) = ni n @ [CHR 0xE4, CHR 0xBD, CHR 0xA0]"
  unfolding ni_def by (simp add: replicate_append_same [symmetric])

lemma ni_length: "length (ni n) = 3 * n"
  by (induction n) (simp_all add: ni_Suc, simp add: ni_def)

lemma ni_valid: "utf8 (ni n)"
proof (induction n)
  case (Suc n)
  have "utf8 [CHR 0xE4, CHR 0xBD, CHR 0xA0]" by code_simp
  then show ?case using Suc utf8_append [OF Suc, of "[CHR 0xE4, CHR 0xBD, CHR 0xA0]"] by (simp add: ni_Suc)
qed (simp add: ni_def)

lemma ni_cut: "\<not> utf8 (take (3 * n + 2) (ni (Suc n)))"
proof -
  have "take (3 * n + 2) (ni (Suc n)) = ni n @ [CHR 0xE4, CHR 0xBD]" by (simp add: ni_Suc ni_length)
  moreover have "\<not> utf8 [CHR 0xE4, CHR 0xBD]" by code_simp
  ultimately show ?thesis using utf8_append [OF ni_valid] by simp
qed

definition ni_solution :: solution where
  "ni_solution = \<lparr>so_id = 1, so_user_id = 8, so_problem_id = 1, so_title = ni 17, so_content = ni 67, so_like_count = 0, so_comment_count = 0,
     so_created_at = [], so_updated_at = [], so_is_deleted = False, so_time = 1\<rparr>"

definition ni_db :: solution_db where
  "ni_db = \<lparr>cm_users = \<lparr>ud_users = [alice [], demo_user 8 ''bob'' None], ud_next = 9, ud_history = []\<rparr>, cm_problems = one_problem,
     cm_notes = [], cm_note_next = 1, cm_channels = Map.empty, sd_solutions = [ni_solution], sd_next = 2, sd_likes = [],
     sd_comments = [], sd_comment_next = 1, sd_comment_likes = []\<rparr>"

lemma strict_web_user:
  obtains c where "require_authentication (wv_lib strict_web) (wv_verify1 strict_web) (wv_verify2 strict_web) web_req (wv_jwt strict_web) = Inr c"
    "stoi (user_id c) = Some 7"
  using demo_user_known [of JNull] by (auto simp: strict_web_def)

lemma demo_com_healthy: "healthy demo_com"
  by (simp add: healthy_def demo_com_def)

theorem like_fails_after_storing_witness:
  "\<exists>res' s'. solution_route_handler strict_web (\<lambda>_. demo_com) (RtLikeSolution (Some ''1'')) web_req demo_res ni_db = (Inr (), res', s')
     \<and> rsp_status res' = 500 \<and> sd_likes s' = [(7, 1)]"
proof -
  obtain c where c: "require_authentication (wv_lib strict_web) (wv_verify1 strict_web) (wv_verify2 strict_web) web_req (wv_jwt strict_web) = Inr c"
    "stoi (user_id c) = Some 7" by (rule strict_web_user)
  have f: "List.find (\<lambda>r. so_id r = 1 \<and> \<not> so_is_deleted r) (sd_solutions ni_db) = Some ni_solution" "so_user_id ni_solution \<noteq> 7"
    by (simp_all add: ni_db_def ni_solution_def)
  have t: "50 < length (so_title ni_solution) \<and> \<not> utf8 (take 50 (so_title ni_solution))"
    using ni_cut [of 16] by (simp add: ni_solution_def ni_length)
  have u: "find_user 7 ni_db = Some (alice [])" by (simp add: find_user_def ni_db_def alice_def demo_user_def)
  have n: "utf8 (u_username (alice []))" by code_simp
  have m: "matched_id (Some ''1'') = 1" by code_simp
  have d: "strict_dump (wv_dump strict_web)" by (simp add: strict_web_def strict_demo_strict)
  show ?thesis
    using like_fails_after_storing [OF c m _ _ d f _ _ u n, of "\<lambda>_. demo_com" demo_res] t by (simp add: demo_com_healthy ni_db_def)
qed

text \<open>
  One bad excerpt empties the list: if the excerpt of any solution on the page is cut inside a character, the listing
  is answered with success, no items and a total of zero, however many solutions there are.
\<close>

theorem cut_excerpt_empties_list:
  assumes "slug_of_path path = Some slug" and "slug \<noteq> []" and ok: "\<forall>k. healthy (e k)" and lib: "strict_dump (wv_dump w)" and "wv_rid w = None"
    and p: "fst (find_problem_id_by_slug (e 0) slug s) = Inr (Some pid)" and pp: "page_params 20 100 ps = (limit, offset)"
    and items: "fst (list_solutions_for_problem (e 1) pid limit offset s) = Inr (items, n)"
    and bad: "(r, u) \<in> set items" "\<not> utf8 (take 200 (sanitize_utf8 (so_content r)))"
  shows "solution_route_handler w e (RtSolutions path ps) req res s =
    (Inr (), send_success None (JObj [(''items'', JArr []), (''total'', JInt 0), (''limit'', JInt 20), (''offset'', JInt 0), (''dropped'', JInt (-1))])
       (res\<lparr>rsp_status := 200\<rparr>), s)"
proof -
  let ?j = "JObj [(''items'', JArr (map serialize_solution_list_item items)), (''total'', JInt n), (''limit'', JInt limit),
                  (''offset'', JInt offset), (''dropped'', JInt 0)]"
  let ?empty = "JObj [(''items'', JArr []), (''total'', JInt 0), (''limit'', JInt 20), (''offset'', JInt 0), (''dropped'', JInt (-1))]"
  have "\<not> utf8_json (serialize_solution_list_item (r, u))" using bad(2) by (simp add: serialize_solution_list_item_def)
  then have "\<not> utf8_json (make_success_envelope None ?j)" using bad(1) by (auto simp: make_success_envelope_def)
  then obtain m where m: "wv_dump w (make_success_envelope None ?j) = Throws m"
    using lib unfolding strict_dump_def by (metis outcome.exhaust)
  have "utf8_json (make_success_envelope None ?empty)" by (simp add: make_success_envelope_def) code_simp
  then obtain t where t: "wv_dump w (make_success_envelope None ?empty) = Returns t" using lib unfolding strict_dump_def by blast
  have "find_problem_id_by_slug (e 0) slug s = (Inr (Some pid), s)"
    using p ok by (auto simp: find_problem_id_by_slug_def prod_eq_iff)
  moreover have "list_solutions_for_problem (e 1) pid limit offset s = (Inr (items, n), s)"
    using items ok by (auto simp: list_solutions_for_problem_def list_for_problem_of_def prod_eq_iff Let_def)
  ultimately have "list_solutions_body w e path ps res s = (Inl (ThrowsStd m), res\<lparr>rsp_status := 200\<rparr>, s)"
    using assms(1,2,5) pp m by (simp add: list_solutions_body_def web_call_def web_ok_def)
  then show ?thesis using t assms(5) by (simp add: handle_list_solutions_def web_ok_def plain_guard_def)
qed

theorem cut_excerpt_empties_list_witness:
  "solution_route_handler strict_web (\<lambda>_. demo_com) (RtSolutions ''/api/v1/problems/sum/solutions'' (\<lambda>_. None)) web_req demo_res ni_db =
    (Inr (), send_success None (JObj [(''items'', JArr []), (''total'', JInt 0), (''limit'', JInt 20), (''offset'', JInt 0), (''dropped'', JInt (-1))])
       (demo_res\<lparr>rsp_status := 200\<rparr>), ni_db)"
proof -
  let ?u = "info_of (demo_user 8 ''bob'' None)"
  have p: "slug_of_path ''/api/v1/problems/sum/solutions'' = Some ''sum''" by code_simp
  have q: "fst (find_problem_id_by_slug demo_com ''sum'' ni_db) = Inr (Some 1)" by code_simp
  have pp: "page_params 20 100 (\<lambda>_. None) = (20, 0)" by code_simp
  have i: "fst (list_solutions_for_problem demo_com 1 20 0 ni_db) = Inr ([(SolutionRow.truncate ni_solution, ?u)], 1)" by code_simp
  have b: "\<not> utf8 (take 200 (sanitize_utf8 (so_content (SolutionRow.truncate ni_solution))))"
    using ni_cut [of 66] by (simp add: SolutionRow.truncate_def ni_solution_def sanitize_valid ni_valid)
  have d: "strict_dump (wv_dump strict_web)" and r: "wv_rid strict_web = None" by (simp_all add: strict_web_def strict_demo_strict)
  show ?thesis
    using cut_excerpt_empties_list [OF p _ _ d r, of "\<lambda>_. demo_com" ni_db 1 "\<lambda>_. None" 20 0, OF _ _ q pp i _ b] by (simp add: demo_com_healthy)
qed

end
