(* ===== verification/Solution_Counters.thy ===== *)
theory Solution_Counters
  imports Solution_Routes
begin

text \<open>
  Properties of the solution routes as a whole: the counters of likes and comments stay exact through any requests
  that the database serves without an error.
\<close>

section \<open>Counters\<close>

definition comments_exact :: "solution_db \<Rightarrow> bool" where
  "comments_exact s \<longleftrightarrow> (\<forall>r \<in> set (sd_solutions s). so_comment_count r = live_comments (so_id r) s)"

definition numbered :: "solution_db \<Rightarrow> bool" where
  "numbered s \<longleftrightarrow> distinct (map so_id (sd_solutions s)) \<and> (\<forall>i \<in> set (map so_id (sd_solutions s)). i < sd_next s)
     \<and> distinct (map sc_comment_id (sd_comments s)) \<and> (\<forall>i \<in> set (map sc_comment_id (sd_comments s)). i < sd_comment_next s)
     \<and> (\<forall>p \<in> set (sd_likes s). snd p < sd_next s) \<and> (\<forall>p \<in> set (sd_comment_likes s). snd p < sd_comment_next s)
     \<and> (\<forall>c \<in> set (sd_comments s). sc_solution_id c < sd_next s)"

definition solutions_ok :: "solution_db \<Rightarrow> bool" where
  "solutions_ok s \<longleftrightarrow> numbered s \<and> sol.exact s \<and> com.exact s \<and> comments_exact s"

lemma ok_of_tables: "tables t = tables s \<Longrightarrow> solutions_ok t = solutions_ok s"
  by (simp add: solutions_ok_def numbered_def sol.exact_def com.exact_def comments_exact_def live_comments_def tables_def
      solution_counters_def comment_counters_def)

lemma no_likes_yet: "\<forall>p \<in> set ls. snd p < i \<Longrightarrow> like_total ls i = 0"
  unfolding like_total_def by (induction ls) auto

lemma create_solution_ok:
  assumes "healthy v" and "solutions_ok s"
  shows "solutions_ok (snd (create_solution v u pid title content s))"
proof (cases "user_exists u s \<and> problem_exists pid s")
  case True
  have n: "numbered s" using assms(2) by (simp add: solutions_ok_def)
  then have "live_comments (sd_next s) s = 0" by (auto simp: numbered_def live_comments_def filter_empty_conv)
  moreover have "like_total (sd_likes s) (sd_next s) = 0" using n by (intro no_likes_yet) (simp add: numbered_def)
  ultimately show ?thesis using assms True
    by (auto simp: create_solution_def new_solution_def solutions_ok_def numbered_def sol.exact_def com.exact_def comments_exact_def
        live_comments_def solution_counters_def comment_counters_def)
next
  case False
  then show ?thesis using assms by (auto simp: create_solution_def)
qed

lemma set_solution_frame:
  assumes "\<And>r. so_id (f r) = so_id r" and "\<And>r. so_comment_count (f r) = so_comment_count r" and "\<And>r. so_like_count (f r) = so_like_count r"
  shows "map (\<lambda>r. (so_id r, so_like_count r, so_comment_count r)) (set_solution v i f rs)
    = map (\<lambda>r. (so_id r, so_like_count r, so_comment_count r)) rs"
  using assms by (auto simp: set_solution_def)

lemma ok_of_counts:
  assumes "map (\<lambda>r. (so_id r, so_like_count r, so_comment_count r)) (sd_solutions t) = map (\<lambda>r. (so_id r, so_like_count r, so_comment_count r)) (sd_solutions s)"
    and "sd_next t = sd_next s" "sd_likes t = sd_likes s" "sd_comments t = sd_comments s" "sd_comment_next t = sd_comment_next s"
    "sd_comment_likes t = sd_comment_likes s"
  shows "solutions_ok t = solutions_ok s"
proof -
  have ids: "map so_id (sd_solutions t) = map so_id (sd_solutions s)"
    using arg_cong [OF assms(1), of "map fst"] by (simp add: comp_def)
  have counts: "solution_counters t = solution_counters s"
    using arg_cong [OF assms(1), of "map (\<lambda>(i, l, c). (i, l))"] by (simp add: comp_def solution_counters_def)
  have lc: "live_comments i t = live_comments i s" for i by (simp add: live_comments_def assms(4))
  have ce: "comments_exact t \<longleftrightarrow> (\<forall>(i, l, c) \<in> set (map (\<lambda>r. (so_id r, so_like_count r, so_comment_count r)) (sd_solutions t)). c = live_comments i t)" for t
    by (auto simp: comments_exact_def)
  have "comments_exact t = comments_exact s" unfolding ce [of t] ce [of s] assms(1) lc ..
  then show ?thesis using assms(2-6) ids counts
    by (simp add: solutions_ok_def numbered_def sol.exact_def com.exact_def comment_counters_def del: set_map)
qed

lemma soft_delete_solution_ok:
  assumes "healthy v"
  shows "solutions_ok (snd (soft_delete_solution v i s)) = solutions_ok s"
  using assms by (intro ok_of_counts) (simp_all add: soft_delete_solution_def set_solution_frame)

lemma numbered_likes:
  assumes "numbered s" and "map so_id (sd_solutions t) = map so_id (sd_solutions s)" "map sc_comment_id (sd_comments t) = map sc_comment_id (sd_comments s)"
    "map sc_solution_id (sd_comments t) = map sc_solution_id (sd_comments s)" "sd_next t = sd_next s" "sd_comment_next t = sd_comment_next s"
    and "\<forall>p \<in> set (sd_likes t). snd p < sd_next s" "\<forall>p \<in> set (sd_comment_likes t). snd p < sd_comment_next s"
  shows "numbered t"
proof -
  have sids: "(\<forall>c \<in> set (sd_comments t). sc_solution_id c < n) \<longleftrightarrow> (\<forall>i \<in> set (map sc_solution_id (sd_comments t)). i < n)" for n t by simp
  show ?thesis using assms unfolding numbered_def sids by (simp del: set_map)
qed

lemma toggle_solution_frame:
  "sd_comments (snd (toggle_solution_like v i u s)) = sd_comments s" "sd_comment_likes (snd (toggle_solution_like v i u s)) = sd_comment_likes s"
  "sd_next (snd (toggle_solution_like v i u s)) = sd_next s" "sd_comment_next (snd (toggle_solution_like v i u s)) = sd_comment_next s"
  by (simp_all add: toggle_solution_like_def split: prod.splits)

lemma toggle_comment_frame:
  "sd_solutions (snd (toggle_comment_like v i u s)) = sd_solutions s" "sd_likes (snd (toggle_comment_like v i u s)) = sd_likes s"
  "sd_next (snd (toggle_comment_like v i u s)) = sd_next s" "sd_comment_next (snd (toggle_comment_like v i u s)) = sd_comment_next s"
  by (simp_all add: toggle_comment_like_def split: prod.splits)

lemma toggle_solution_counts:
  "map (\<lambda>r. (so_id r, so_comment_count r)) (sd_solutions (snd (toggle_solution_like v i u s))) = map (\<lambda>r. (so_id r, so_comment_count r)) (sd_solutions s)"
proof -
  let ?f = "\<lambda>existing. set_solution v i (\<lambda>r. r\<lparr>so_like_count := like_count_step existing (so_like_count r)\<rparr>)"
  have c: "map (\<lambda>r. (so_id r, so_comment_count r)) (?f b rs) = map (\<lambda>r. (so_id r, so_comment_count r)) rs" for b rs
    by (auto simp: set_solution_def)
  show ?thesis
    by (cases rule: toggle_on_cases [of v "solution_parents i u s" "(u, i)" ?f "sd_likes s" "sd_solutions s"])
      (simp_all add: toggle_solution_like_def c)
qed

lemma comments_exact_alt:
  "comments_exact s \<longleftrightarrow> (\<forall>(i, c) \<in> set (map (\<lambda>r. (so_id r, so_comment_count r)) (sd_solutions s)). c = live_comments i s)"
  by (auto simp: comments_exact_def)

lemma toggle_solution_ok:
  assumes v: "healthy v" and ok: "solutions_ok s" and i: "i \<in> set (map so_id (sd_solutions s))"
  shows "solutions_ok (snd (toggle_solution_like v i u s))"
proof -
  let ?t = "snd (toggle_solution_like v i u s)"
  have n: "numbered s" using ok by (simp add: solutions_ok_def)
  then have "i < sd_next s" using i by (auto simp: numbered_def)
  then have new: "\<forall>p \<in> set (sd_likes ?t). snd p < sd_next s"
    using n sol.likes_after [OF v, of u i s] sol.refused [OF v, of u i s] by (cases "(u, i) \<in> set (sd_likes s) \<or> solution_parents i u s") (auto simp: numbered_def)
  have ids: "map so_id (sd_solutions ?t) = map so_id (sd_solutions s)"
    using arg_cong [OF toggle_solution_counts [of v i u s], of "map fst"] by (simp add: comp_def)
  have "numbered ?t" by (rule numbered_likes [OF n ids]) (use n new in \<open>simp_all add: toggle_solution_frame numbered_def\<close>)
  moreover have "sol.exact ?t" using sol.toggle_exact [OF v] ok by (simp add: solutions_ok_def)
  moreover have "com.exact ?t" using ok by (simp add: solutions_ok_def com.exact_def comment_counters_def toggle_solution_frame)
  moreover have "comments_exact ?t"
    using ok unfolding solutions_ok_def comments_exact_alt toggle_solution_counts by (simp add: live_comments_def toggle_solution_frame)
  ultimately show ?thesis by (simp add: solutions_ok_def)
qed

lemma toggle_comment_same:
  "map (\<lambda>c. (sc_comment_id c, sc_solution_id c, sc_is_deleted c)) (sd_comments (snd (toggle_comment_like v i u s)))
   = map (\<lambda>c. (sc_comment_id c, sc_solution_id c, sc_is_deleted c)) (sd_comments s)"
proof -
  let ?f = "\<lambda>existing. set_comment i (\<lambda>c. c\<lparr>sc_like_count := like_count_step existing (sc_like_count c)\<rparr>)"
  have c: "map (\<lambda>c. (sc_comment_id c, sc_solution_id c, sc_is_deleted c)) (?f b cs) = map (\<lambda>c. (sc_comment_id c, sc_solution_id c, sc_is_deleted c)) cs" for b cs
    by (auto simp: set_comment_def)
  show ?thesis
    by (cases rule: toggle_on_cases [of v "comment_parents i u s" "(u, i)" ?f "sd_comment_likes s" "sd_comments s"])
      (simp_all add: toggle_comment_like_def c)
qed

lemma live_comments_alt:
  "live_comments i s = int (length (filter (\<lambda>(a, b, d). b = i \<and> \<not> d) (map (\<lambda>c. (sc_comment_id c, sc_solution_id c, sc_is_deleted c)) (sd_comments s))))"
  by (simp add: live_comments_def filter_map comp_def)

lemma toggle_comment_ok:
  assumes v: "healthy v" and ok: "solutions_ok s" and i: "i \<in> set (map sc_comment_id (sd_comments s))"
  shows "solutions_ok (snd (toggle_comment_like v i u s))"
proof -
  let ?t = "snd (toggle_comment_like v i u s)"
  have n: "numbered s" using ok by (simp add: solutions_ok_def)
  then have "i < sd_comment_next s" using i by (auto simp: numbered_def)
  then have new: "\<forall>p \<in> set (sd_comment_likes ?t). snd p < sd_comment_next s"
    using n com.likes_after [OF v, of u i s] com.refused [OF v, of u i s] by (cases "(u, i) \<in> set (sd_comment_likes s) \<or> comment_parents i u s") (auto simp: numbered_def)
  have ids: "map sc_comment_id (sd_comments ?t) = map sc_comment_id (sd_comments s)" "map sc_solution_id (sd_comments ?t) = map sc_solution_id (sd_comments s)"
    using arg_cong [OF toggle_comment_same [of v i u s], of "map fst"] arg_cong [OF toggle_comment_same [of v i u s], of "map (fst \<circ> snd)"]
    by (simp_all add: comp_def)
  have "numbered ?t" by (rule numbered_likes [OF n _ ids]) (use n new in \<open>simp_all add: toggle_comment_frame numbered_def\<close>)
  moreover have "com.exact ?t" using com.toggle_exact [OF v] ok by (simp add: solutions_ok_def)
  moreover have "sol.exact ?t" using ok by (simp add: solutions_ok_def sol.exact_def solution_counters_def toggle_comment_frame)
  moreover have "live_comments j ?t = live_comments j s" for j unfolding live_comments_alt toggle_comment_same ..
  then have "comments_exact ?t" using ok by (simp add: solutions_ok_def comments_exact_def toggle_comment_frame)
  ultimately show ?thesis by (simp add: solutions_ok_def)
qed

lemma set_solution_comment_counts:
  "map (\<lambda>r. (so_id r, so_comment_count r)) (set_solution v i (\<lambda>r. r\<lparr>so_comment_count := g (so_comment_count r)\<rparr>) rs)
   = map (\<lambda>(j, n). (j, if j = i then g n else n)) (map (\<lambda>r. (so_id r, so_comment_count r)) rs)"
proof -
  have *: "so_comment_count r = g (so_comment_count r)" if "r\<lparr>so_comment_count := g (so_comment_count r)\<rparr> = r" for r :: solution
    using arg_cong [OF that, of so_comment_count] by simp
  show ?thesis by (auto simp: set_solution_def intro: *)
qed

text \<open>A change of one comment counter that follows the comments.\<close>

lemma recounted_ok:
  assumes ok: "solutions_ok s" and t: "t = s1\<lparr>sd_solutions := set_solution v i (\<lambda>r. r\<lparr>so_comment_count := g (so_comment_count r)\<rparr>) (sd_solutions s)\<rparr>"
    and same: "sd_solutions s1 = sd_solutions s" "sd_likes s1 = sd_likes s" "sd_next s1 = sd_next s"
    and n: "numbered s1" and com: "com.exact s1"
    and live: "\<forall>j. j \<noteq> i \<longrightarrow> live_comments j s1 = live_comments j s" "i \<in> set (map so_id (sd_solutions s)) \<longrightarrow> live_comments i s1 = g (live_comments i s)"
  shows "solutions_ok t"
proof -
  let ?f = "\<lambda>r. r\<lparr>so_comment_count := g (so_comment_count r)\<rparr>"
  have ids: "map so_id (sd_solutions t) = map so_id (sd_solutions s1)" unfolding t same(1) by (simp add: set_solution_ids)
  have like: "map (\<lambda>r. (so_id r, so_like_count r)) (sd_solutions t) = map (\<lambda>r. (so_id r, so_like_count r)) (sd_solutions s)"
    unfolding t by (auto simp: set_solution_def)
  have "numbered t" by (rule numbered_likes [OF n ids]) (use n in \<open>simp_all add: t numbered_def\<close>)
  moreover have "sol.exact t" using ok like same unfolding solutions_ok_def sol.exact_def solution_counters_def t by simp
  moreover have "com.exact t" using com by (simp add: t com.exact_def comment_counters_def)
  moreover have "comments_exact t"
  proof -
    have "live_comments j t = live_comments j s1" for j by (simp add: t live_comments_def)
    then show ?thesis using ok live unfolding comments_exact_alt solutions_ok_def t by (auto simp: set_solution_comment_counts)
  qed
  ultimately show ?thesis by (simp add: solutions_ok_def)
qed

lemma comment_added_ok:
  assumes v: "healthy v" "healthy v'" and ok: "solutions_ok s" and c: "create_comment v c s = (Inr cid, s1)"
  shows "solutions_ok (snd (increment_comment_count v' (sc_solution_id c) s1))"
proof -
  let ?new = "\<lparr>sc_comment_id = sd_comment_next s, sc_solution_id = sc_solution_id c, sc_user_id = sc_user_id c, sc_parent_id = sc_parent_id c,
    sc_content = sc_content c, sc_like_count = 0, sc_created_at = mv_fmt v (mv_time v), sc_is_deleted = False, sc_time = mv_time v\<rparr>"
  have s1: "s1 = s\<lparr>sd_comments := sd_comments s @ [?new], sd_comment_next := sd_comment_next s + 1\<rparr>"
    and parent: "sc_solution_id c \<in> set (map so_id (sd_solutions s))"
    using c v(1) unfolding ids_exist [symmetric] by (auto simp: create_comment_def healthy_def on_conn_def split: if_splits option.splits)
  have n: "numbered s" using ok by (simp add: solutions_ok_def)
  have zero: "like_total (sd_comment_likes s) (sd_comment_next s) = 0" using n by (intro no_likes_yet) (simp add: numbered_def)
  show ?thesis
  proof (rule recounted_ok [OF ok, where g = "\<lambda>n. n + 1"])
    show "snd (increment_comment_count v' (sc_solution_id c) s1)
      = s1\<lparr>sd_solutions := set_solution v' (sc_solution_id c) (\<lambda>r. r\<lparr>so_comment_count := so_comment_count r + 1\<rparr>) (sd_solutions s)\<rparr>"
      using v(2) by (simp add: increment_comment_count_def s1)
    have "\<forall>p \<in> set (sd_comment_likes s). snd p < sd_comment_next s + 1" "\<forall>i \<in> set (map sc_comment_id (sd_comments s)). i < sd_comment_next s + 1"
      using n by (auto simp: numbered_def)
    then show "numbered s1" using n parent by (auto simp: numbered_def s1)
    show "com.exact s1" using ok zero by (simp add: s1 solutions_ok_def com.exact_def comment_counters_def)
  qed (simp_all add: s1 live_comments_def)
qed

lemma deleted_one:
  assumes "distinct (map sc_comment_id cs)" and "c \<in> set cs" and "\<not> sc_is_deleted c"
  shows "length (filter (\<lambda>x. sc_solution_id x = j \<and> \<not> sc_is_deleted x) cs) =
    length (filter (\<lambda>x. sc_solution_id x = j \<and> \<not> sc_is_deleted x) (set_comment (sc_comment_id c) (\<lambda>c. c\<lparr>sc_is_deleted := True\<rparr>) cs))
      + (if j = sc_solution_id c then 1 else 0)"
  using assms
proof (induction cs)
  case (Cons x cs)
  show ?case
  proof (cases "x = c")
    case True
    then have "set_comment (sc_comment_id c) (\<lambda>c. c\<lparr>sc_is_deleted := True\<rparr>) cs = cs"
      using Cons.prems(1) unfolding set_comment_def by (intro map_idI) (metis distinct.simps(2) image_eqI list.simps(9) set_map)
    then show ?thesis using True Cons.prems(3) by (simp add: set_comment_def)
  next
    case False
    then have "sc_comment_id x \<noteq> sc_comment_id c" using Cons.prems(1,2) by auto
    then show ?thesis using Cons False by (auto simp: set_comment_def)
  qed
qed simp

lemma comment_deleted_ok:
  assumes v: "healthy v" "healthy v'" and ok: "solutions_ok s" and c: "c \<in> set (sd_comments s)" "\<not> sc_is_deleted c"
  shows "solutions_ok (snd (decrement_comment_count v' (sc_solution_id c) (snd (soft_delete_comment v (sc_comment_id c) s))))"
proof -
  let ?s1 = "s\<lparr>sd_comments := set_comment (sc_comment_id c) (\<lambda>c. c\<lparr>sc_is_deleted := True\<rparr>) (sd_comments s)\<rparr>"
  have n: "numbered s" using ok by (simp add: solutions_ok_def)
  have one: "live_comments j s = live_comments j ?s1 + (if j = sc_solution_id c then 1 else 0)" for j
    using deleted_one [OF _ c, of j] n by (simp add: live_comments_def numbered_def)
  have same: "map sc_comment_id (sd_comments ?s1) = map sc_comment_id (sd_comments s)" "map sc_solution_id (sd_comments ?s1) = map sc_solution_id (sd_comments s)"
    "map (\<lambda>c. (sc_comment_id c, sc_like_count c)) (sd_comments ?s1) = map (\<lambda>c. (sc_comment_id c, sc_like_count c)) (sd_comments s)"
    by (auto simp: set_comment_def)
  show ?thesis
  proof (rule recounted_ok [OF ok, where g = "\<lambda>n. max 0 (n - 1)"])
    show "snd (decrement_comment_count v' (sc_solution_id c) (snd (soft_delete_comment v (sc_comment_id c) s)))
      = ?s1\<lparr>sd_solutions := set_solution v' (sc_solution_id c) (\<lambda>r. r\<lparr>so_comment_count := max 0 (so_comment_count r - 1)\<rparr>) (sd_solutions s)\<rparr>"
      using v by (simp add: decrement_comment_count_def soft_delete_comment_def)
    show "numbered ?s1" by (rule numbered_likes [OF n _ same(1,2)]) (use n in \<open>simp_all add: numbered_def\<close>)
    show "com.exact ?s1" using ok same(3) unfolding solutions_ok_def com.exact_def comment_counters_def by simp
    show "\<forall>j. j \<noteq> sc_solution_id c \<longrightarrow> live_comments j ?s1 = live_comments j s" using one by simp
    show "sc_solution_id c \<in> set (map so_id (sd_solutions s)) \<longrightarrow> live_comments (sc_solution_id c) ?s1 = max 0 (live_comments (sc_solution_id c) s - 1)"
      using one [of "sc_solution_id c"] by (simp add: live_comments_def)
  qed simp_all
qed

section \<open>Requests\<close>

text \<open>What every path of a handler leaves behind, for a predicate \<open>Q\<close> of the state.\<close>

lemma web_auth_snd: "(\<And>c. Q (snd (snd (k c)))) \<Longrightarrow> Q s \<Longrightarrow> Q (snd (snd (web_auth w req k res s)))"
  by (simp add: web_auth_def split: sum.splits)

lemma web_user_snd: "(\<And>u. Q (snd (snd (k u)))) \<Longrightarrow> Q s \<Longrightarrow> Q (snd (snd (web_user c k res s)))"
  by (simp add: web_user_def split: option.splits)

lemma with_string_snd: "(\<And>t. Q (snd (snd (k t)))) \<Longrightarrow> Q s \<Longrightarrow> Q (snd (snd (with_string j k res s)))"
  by (simp add: with_string_def split: json.splits)

lemmas ok_paths = web_auth_snd [where Q = solutions_ok] web_user_snd [where Q = solutions_ok] with_string_snd [where Q = solutions_ok]
  query_call_snd [where Q = solutions_ok] web_call_snd [where Q = solutions_ok]

lemma truncated [simp]:
  "so_id (SolutionRow.truncate x) = so_id x" "so_user_id (SolutionRow.truncate x) = so_user_id x"
  "sc_solution_id (SolutionCommentRow.truncate y) = sc_solution_id y" "sc_user_id (SolutionCommentRow.truncate y) = sc_user_id y"
  by (simp_all add: SolutionRow.truncate_def SolutionCommentRow.truncate_def)

lemma list_body_state: "snd (snd (list_solutions_body w e path ps res s)) = s"
  by (auto simp: list_solutions_body_def list_solutions_for_problem_def list_for_problem_of_def find_problem_id_by_slug_def query_def on_conn_def
      then_do_def web_call_def Let_def split: option.splits prod.splits)

lemma list_solutions_state: "snd (snd (handle_list_solutions w e path ps res s)) = s"
proof -
  obtain r res1 where b: "list_solutions_body w e path ps res s = (r, res1, s)" using list_body_state [of w e path ps res s] by (metis prod.collapse)
  show ?thesis unfolding handle_list_solutions_def b
    by (auto simp: web_ok_def split: sum.splits handler_exn.splits outcome.splits)
qed

lemma get_solution_state: "snd (snd (handle_get_solution w e path res s)) = s"
  by (auto simp: handle_get_solution_def find_solution_def find_username_by_id_def query_def on_conn_def then_do_def web_call_def Let_def
      split: option.splits)

lemma list_comments_state: "snd (snd (handle_list_solution_comments w e m ps res s)) = s"
  by (auto simp: handle_list_solution_comments_def find_solution_def list_comments_def count_comments_def query_def on_conn_def then_do_def
      web_call_def Let_def split: option.splits prod.splits)

lemma store_comment_ok:
  assumes e: "\<forall>k. healthy (e k)" and ok: "solutions_ok s"
  shows "solutions_ok (snd (snd (store_comment w e r p u t res s)))"
proof -
  let ?c = "\<lparr>sc_comment_id = 0, sc_solution_id = so_id r, sc_user_id = u, sc_parent_id = p, sc_content = t, sc_like_count = 0,
    sc_created_at = [], sc_is_deleted = False\<rparr>"
  show ?thesis
  proof (cases "create_comment (e 2) ?c s")
    case (Pair a s1)
    show ?thesis
    proof (cases a)
      case (Inl m)
      have "s1 = s" using Pair Inl by (auto simp: create_comment_def on_conn_def split: option.splits)
      then show ?thesis using ok Pair Inl by (simp add: store_comment_def web_call_def)
    next
      case (Inr cid)
      obtain s2 where s2: "increment_comment_count (e 3) (so_id r) s1 = (Inr (), s2)" using e by (simp add: increment_comment_count_def)
      have "solutions_ok s2" using comment_added_ok [OF _ _ ok, of "e 2" "e 3" ?c cid s1] e Pair Inr s2 by simp
      then show ?thesis using Pair Inr s2 ok_of_tables [OF comment_notice_tables] by (simp add: store_comment_def web_call_def)
    qed
  qed
qed

text \<open>The writes of a handler, after the row it works on has been found.\<close>

lemma found_solution_call:
  assumes "solutions_ok (snd (snd (k None s)))" and "solutions_ok s"
    and "\<And>x. x \<in> set (sd_solutions s) \<Longrightarrow> so_id x = i \<Longrightarrow> \<not> so_is_deleted x \<Longrightarrow> solutions_ok (snd (snd (k (Some (SolutionRow.truncate x)) s)))"
  shows "solutions_ok (snd (snd (web_call (find_solution v i s) k res)))"
proof (cases "List.find (\<lambda>r. so_id r = i \<and> \<not> so_is_deleted r) (sd_solutions s)")
  case (Some x)
  then show ?thesis using assms find_some_exists [OF Some] unfolding find_solution_def
    by (cases rule: query_cases [of v "Some (SolutionRow.truncate x)" s]) (simp_all add: web_call_def)
next
  case None
  show ?thesis using assms unfolding find_solution_def None
    by (cases rule: query_cases [of v "None :: SolutionRow option" s]) (simp_all add: web_call_def)
qed

lemma found_comment_call:
  assumes "solutions_ok (snd (snd (k None s)))" and "solutions_ok s"
    and "\<And>x. x \<in> set (sd_comments s) \<Longrightarrow> sc_comment_id x = i \<Longrightarrow> \<not> sc_is_deleted x \<Longrightarrow> solutions_ok (snd (snd (k (Some (SolutionCommentRow.truncate x)) s)))"
  shows "solutions_ok (snd (snd (web_call (find_comment v i s) k res)))"
proof (cases "List.find (\<lambda>c. sc_comment_id c = i \<and> \<not> sc_is_deleted c) (sd_comments s)")
  case (Some x)
  then show ?thesis using assms find_some_exists [OF Some] unfolding find_comment_def
    by (cases rule: query_cases [of v "Some (SolutionCommentRow.truncate x)" s]) (simp_all add: web_call_def)
next
  case None
  show ?thesis using assms unfolding find_comment_def None
    by (cases rule: query_cases [of v "None :: SolutionCommentRow option" s]) (simp_all add: web_call_def)
qed

lemmas found_paths = web_auth_snd [where Q = solutions_ok] web_user_snd [where Q = solutions_ok] found_solution_call found_comment_call

lemma like_answer_ok:
  assumes e: "\<forall>k. healthy (e k)" and ok: "solutions_ok s" and i: "\<exists>x \<in> set (sd_solutions s). so_id x = i"
  shows "solutions_ok (snd (snd (web_call (toggle_solution_like (e k) i u s) (\<lambda>liked s. web_call (find_solution (e k') i s) (\<lambda>updated s.
      web_call (like_notice w e liked x u s) (\<lambda>_ s. web_ok w (j liked updated) res s) res) res) res)))"
proof -
  obtain a s1 where a: "toggle_solution_like (e k) i u s = (a, s1)" by fastforce
  have "i \<in> set (map so_id (sd_solutions s))" using i by auto
  then have s1: "solutions_ok s1" using toggle_solution_ok [OF _ ok, of "e k" i u] e a by simp
  have n: "solutions_ok (snd (like_notice w e l x u s1))" for l using s1 ok_of_tables [OF like_notice_tables] by simp
  have f: "find_solution (e k') i s1 = (Inr (map_option SolutionRow.truncate (List.find (\<lambda>r. so_id r = i \<and> \<not> so_is_deleted r) (sd_solutions s1))), s1)"
    using e by (simp add: find_solution_def)
  show ?thesis unfolding a by (auto simp: web_call_def f s1 n split: sum.splits prod.splits) (metis n snd_conv)+
qed

lemma comment_like_ok:
  assumes e: "\<forall>k. healthy (e k)" and ok: "solutions_ok s" and i: "\<exists>x \<in> set (sd_comments s). sc_comment_id x = i"
  shows "solutions_ok (snd (snd (web_call (toggle_comment_like (e k) i u s) (\<lambda>liked s. web_call (find_comment (e k') i s) (\<lambda>updated s.
      web_ok w (j liked updated) res s) res) res)))"
proof -
  obtain a s1 where a: "toggle_comment_like (e k) i u s = (a, s1)" by fastforce
  have "i \<in> set (map sc_comment_id (sd_comments s))" using i by auto
  then have s1: "solutions_ok s1" using toggle_comment_ok [OF _ ok, of "e k" i u] e a by simp
  have f: "find_comment (e k') i s1 = (Inr (map_option SolutionCommentRow.truncate (List.find (\<lambda>r. sc_comment_id r = i \<and> \<not> sc_is_deleted r) (sd_comments s1))), s1)"
    using e by (simp add: find_comment_def)
  show ?thesis unfolding a by (cases a) (simp_all add: web_call_def f s1)
qed

lemma comment_gone_ok:
  assumes e: "\<forall>k. healthy (e k)" and ok: "solutions_ok s" and c: "\<exists>x \<in> set (sd_comments s). sc_comment_id x = i \<and> sc_solution_id x = j \<and> \<not> sc_is_deleted x"
  shows "solutions_ok (snd (snd (web_call (soft_delete_comment (e k) i s) (\<lambda>_ s. web_call (decrement_comment_count (e k') j s) (\<lambda>_ s.
      web_ok w o' res s) res) res)))"
proof -
  obtain c where c: "c \<in> set (sd_comments s)" "\<not> sc_is_deleted c" and i: "sc_comment_id c = i" "sc_solution_id c = j" using c by blast
  obtain s1 where s1: "soft_delete_comment (e k) i s = (Inr (), s1)" using e by (simp add: soft_delete_comment_def)
  obtain s2 where s2: "decrement_comment_count (e k') j s1 = (Inr (), s2)" using e by (simp add: decrement_comment_count_def)
  have "solutions_ok s2" using comment_deleted_ok [OF _ _ ok c, of "e k" "e k'"] e i s1 s2 by simp
  then show ?thesis by (simp add: s1 s2 web_call_def)
qed

lemma solution_route_ok:
  assumes e: "\<forall>k. healthy (e k)" and ok: "solutions_ok s"
  shows "solutions_ok (snd (snd (solution_route_handler w e r req res s)))"
proof (cases r)
  case (RtNewSolution path)
  show ?thesis unfolding RtNewSolution solution_route_handler.simps plain_guard_state handle_create_solution_def
    by (auto simp: find_problem_id_by_slug_def ok e create_solution_ok intro!: ok_paths split: option.splits)
next
  case (RtLikeSolution m)
  show ?thesis unfolding RtLikeSolution solution_route_handler.simps plain_guard_state handle_like_solution_def Let_def
    by (auto simp: ok e intro!: found_paths like_answer_ok [OF e]) (blast intro: bexI)+
next
  case (RtDeleteSolution path)
  show ?thesis unfolding RtDeleteSolution solution_route_handler.simps plain_guard_state handle_delete_solution_def
    by (auto simp: find_solution_def ok e soft_delete_solution_ok Let_def intro!: ok_paths split: option.splits)
next
  case (RtNewComment m)
  show ?thesis unfolding RtNewComment solution_route_handler.simps plain_guard_state handle_create_solution_comment_def
    by (auto simp: find_solution_def ok e store_comment_ok Let_def intro!: ok_paths split: option.splits parent.splits)
next
  case (RtDeleteComment m)
  show ?thesis unfolding RtDeleteComment solution_route_handler.simps plain_guard_state handle_delete_solution_comment_def Let_def
    by (auto simp: ok e intro!: found_paths comment_gone_ok [OF e]) (blast intro: bexI)+
next
  case (RtLikeComment m)
  show ?thesis unfolding RtLikeComment solution_route_handler.simps plain_guard_state handle_like_solution_comment_def Let_def
    by (auto simp: ok e intro!: found_paths comment_like_ok [OF e]) (blast intro: bexI)+
qed (simp_all add: plain_guard_state list_solutions_state get_solution_state list_comments_state ok)

text \<open>
  C16. Whatever requests arrive one after the other, and as long as the database serves every statement, the stored like
  counts of solutions and comments are the numbers of like rows, and the comment count of a solution is the number of
  its comments that have not been deleted.
\<close>

theorem counters_stay_exact:
  assumes "\<forall>(w, e, r, req, res) \<in> set rs. \<forall>k. healthy (e k)" and "solutions_ok s"
  shows "solutions_ok (fold (\<lambda>(w, e, r, req, res) s. snd (snd (solution_route_handler w e r req res s))) rs s)"
  using assms
proof (induction rs arbitrary: s)
  case (Cons q rs)
  obtain w e r req res where q: "q = (w, e, r, req, res)" by (cases q) auto
  have "solutions_ok (snd (snd (solution_route_handler w e r req res s)))"
    using Cons.prems unfolding q by (intro solution_route_ok) auto
  then show ?case using Cons.IH [of "snd (snd (solution_route_handler w e r req res s))"] Cons.prems(1) by (simp add: q)
qed simp

theorem counters_stay_exact_witness:
  "solutions_ok (fold (\<lambda>(w, e, r, req, res) s. snd (snd (solution_route_handler w e r req res s)))
     [(strict_web, \<lambda>_. demo_com, RtLikeSolution (Some ''1''), web_req, demo_res), (strict_web, \<lambda>_. demo_com, RtLikeSolution (Some ''1''), web_req, demo_res)] ni_db)"
proof -
  have "numbered ni_db" by (simp add: numbered_def ni_db_def ni_solution_def)
  moreover have "sol.exact ni_db" by (simp add: sol.exact_def ni_db_def ni_solution_def solution_counters_def like_total_def)
  moreover have "com.exact ni_db" by (simp add: com.exact_def ni_db_def comment_counters_def)
  moreover have "comments_exact ni_db" by (simp add: comments_exact_def live_comments_def ni_db_def ni_solution_def)
  ultimately have "solutions_ok ni_db" by (simp add: solutions_ok_def)
  then show ?thesis by (intro counters_stay_exact) (auto simp: demo_com_healthy)
qed

end
