(* ===== verification/Discussions.thy ===== *)
theory Discussions
  imports Solution_Counters
begin

text \<open>
  \<^verbatim>\<open>src/db/discussion_repo.h\<close> and \<^verbatim>\<open>src/routes/discussion_routes.h\<close>: threads about a problem or about nothing in particular,
  their replies, the likes of both, and the images that are pasted into them.

  A thread and a reply are rows of one table. A reply names the row it answers (\<open>di_parent_id\<close>) and the thread it belongs
  to (\<open>di_root_id\<close>); the reply counter of the thread is kept by hand. \<open>e k\<close> is what the database does in the
  \<open>k\<close>-th repository call of a handler. Where two connections are held at the same time, each has its own answer.

  Main results: likes meet the contract of \<open>Likes\<close>; replies are never nested in more than one thread and the reply counters
  stay exact through any requests; an image is stored only under the generated name and only if it looks like one.
\<close>

section \<open>Repository\<close>

record DiscussionRow =
  di_id :: int
  di_user_id :: int
  di_problem_id :: "int option"
  di_parent_id :: "int option"
  di_root_id :: "int option"
  di_title :: "string option"
  di_content :: string
  di_like_count :: int
  di_reply_count :: int
  di_created_at :: string
  di_updated_at :: string
  di_is_deleted :: bool

record discussion = DiscussionRow +
  di_time :: int

record DiscussionListRow =
  dl_discussion :: DiscussionRow
  dl_user :: SolutionUserInfo
  dl_problem_slug :: "string option"
  dl_problem_title :: "string option"

record discussion_db = community +
  dd_rows :: "discussion list"
  dd_next :: int
  dd_likes :: "like list"

definition has_row :: "int \<Rightarrow> discussion_db \<Rightarrow> bool" where
  "has_row i s \<longleftrightarrow> i \<in> set (map di_id (dd_rows s))"

definition all_or_none :: "('a \<Rightarrow> bool) \<Rightarrow> 'a option \<Rightarrow> bool" where
  "all_or_none P x = (case x of None \<Rightarrow> True | Some y \<Rightarrow> P y)"

definition create_discussion :: "com_env \<Rightarrow> DiscussionRow \<Rightarrow> discussion_db \<Rightarrow> (string + int) \<times> discussion_db" where
  "create_discussion v d s =
     on_conn v
       (case (case dv_fault v 0 of
                Some m \<Rightarrow> Some m
              | None \<Rightarrow>
                  if user_exists (di_user_id d) s \<and> all_or_none (\<lambda>p. problem_exists p s) (di_problem_id d)
                     \<and> all_or_none (\<lambda>p. has_row p s) (di_parent_id d) \<and> all_or_none (\<lambda>r. has_row r s) (di_root_id d)
                  then None else Some (fv_foreign_key v)) of
          Some m \<Rightarrow> (Inl (''discussion_repo::create: '' @ m), s)
        | None \<Rightarrow>
            (Inr (dd_next s),
             s\<lparr>dd_rows := dd_rows s @
                 [\<lparr>di_id = dd_next s, di_user_id = di_user_id d, di_problem_id = di_problem_id d, di_parent_id = di_parent_id d,
                   di_root_id = di_root_id d, di_title = di_title d, di_content = di_content d, di_like_count = 0, di_reply_count = 0,
                   di_created_at = mv_fmt v (mv_time v), di_updated_at = mv_fmt v (mv_time v), di_is_deleted = False,
                   di_time = mv_time v\<rparr>],
               dd_next := dd_next s + 1\<rparr>)) s"

definition find_discussion :: "com_env \<Rightarrow> int \<Rightarrow> discussion_db \<Rightarrow> (string + DiscussionRow option) \<times> discussion_db" where
  "find_discussion v i s =
     query v (map_option DiscussionRow.truncate (List.find (\<lambda>r. di_id r = i \<and> \<not> di_is_deleted r) (dd_rows s))) s"

record DiscussionListFilter =
  dfl_problem_id :: "int option"
  dfl_limit :: int
  dfl_offset :: int
  dfl_user_id :: "int option"

definition thread_match :: "int option \<Rightarrow> int option \<Rightarrow> discussion \<Rightarrow> bool" where
  "thread_match pid uid r \<longleftrightarrow> \<not> di_is_deleted r \<and> di_parent_id r = None \<and> di_problem_id r = pid
     \<and> all_or_none (\<lambda>u. di_user_id r = u) uid"

text \<open>\<^verbatim>\<open>LEFT JOIN problems p ON p.id = d.problem_id AND p.is_deleted = FALSE\<close>.\<close>

definition live_problem_of :: "int option \<Rightarrow> 'c community_scheme \<Rightarrow> ProblemRow option" where
  "live_problem_of pid s =
     (case pid of None \<Rightarrow> None | Some i \<Rightarrow> List.find (\<lambda>p. p_id p = i \<and> \<not> p_is_deleted p) (pd_problems (cm_problems s)))"

definition list_row :: "discussion_db \<Rightarrow> discussion \<times> SolutionUserInfo \<Rightarrow> DiscussionListRow" where
  "list_row s ru =
     (let p = live_problem_of (di_problem_id (fst ru)) s in
      \<lparr>dl_discussion = DiscussionRow.truncate (fst ru), dl_user = snd ru, dl_problem_slug = map_option p_slug p,
       dl_problem_title = map_option p_title p\<rparr>)"

definition list_discussions ::
    "com_env \<Rightarrow> DiscussionListFilter \<Rightarrow> discussion_db \<Rightarrow> (string + DiscussionListRow list \<times> int) \<times> discussion_db" where
  "list_discussions v f s =
     (let rs = filter (thread_match (dfl_problem_id f) (dfl_user_id f)) (dd_rows s) in
      on_conn v (then_do v 0 s (then_do v 1 s
        (Inr (map (list_row s) (page (dfl_limit f) (dfl_offset f)
                (newest_first v (\<lambda>x. di_id (fst x)) (\<lambda>x. di_time (fst x)) (join_user di_user_id s rs))),
              int (length rs)), s))) s)"

definition list_replies :: "com_env \<Rightarrow> int \<Rightarrow> discussion_db \<Rightarrow> (string + DiscussionListRow list) \<times> discussion_db" where
  "list_replies v i s =
     query v (map (list_row s)
       (sort_key (\<lambda>x. di_time (fst x)) (sort_key (\<lambda>x. mv_ties v (di_id (fst x)))
         (join_user di_user_id s (filter (\<lambda>r. \<not> di_is_deleted r \<and> di_root_id r = Some i) (dd_rows s)))))) s"

definition count_discussions :: "com_env \<Rightarrow> int \<Rightarrow> discussion_db \<Rightarrow> (string + int) \<times> discussion_db" where
  "count_discussions v pid s = query v (int (length (filter (thread_match (Some pid) None) (dd_rows s)))) s"

definition set_discussion :: "com_env \<Rightarrow> int \<Rightarrow> (discussion \<Rightarrow> discussion) \<Rightarrow> discussion list \<Rightarrow> discussion list" where
  "set_discussion v i f rs =
     map (\<lambda>r. if di_id r = i \<and> f r \<noteq> r then (f r)\<lparr>di_updated_at := mv_fmt v (mv_time v)\<rparr> else r) rs"

definition discussion_parents :: "int \<Rightarrow> int \<Rightarrow> discussion_db \<Rightarrow> bool" where
  "discussion_parents i u s \<longleftrightarrow> user_exists u s \<and> has_row i s"

definition toggle_discussion_like :: "com_env \<Rightarrow> int \<Rightarrow> int \<Rightarrow> discussion_db \<Rightarrow> (string + bool) \<times> discussion_db" where
  "toggle_discussion_like v i u s =
     (case toggle_on v (discussion_parents i u s) (u, i)
             (\<lambda>existing. set_discussion v i (\<lambda>r. r\<lparr>di_like_count := like_count_step existing (di_like_count r)\<rparr>))
             (dd_likes s, dd_rows s) of
        (r, ls, rs) \<Rightarrow> (r, s\<lparr>dd_likes := ls, dd_rows := rs\<rparr>))"

definition has_user_liked_discussion :: "com_env \<Rightarrow> int \<Rightarrow> int \<Rightarrow> discussion_db \<Rightarrow> (string + bool) \<times> discussion_db" where
  "has_user_liked_discussion v i u s = query v ((u, i) \<in> set (dd_likes s)) s"

definition increment_reply_count :: "com_env \<Rightarrow> int \<Rightarrow> discussion_db \<Rightarrow> (string + unit) \<times> discussion_db" where
  "increment_reply_count v i s =
     execute v (s\<lparr>dd_rows := set_discussion v i (\<lambda>r. r\<lparr>di_reply_count := di_reply_count r + 1\<rparr>) (dd_rows s)\<rparr>) s"

definition decrement_reply_count :: "com_env \<Rightarrow> int \<Rightarrow> discussion_db \<Rightarrow> (string + unit) \<times> discussion_db" where
  "decrement_reply_count v i s =
     execute v (s\<lparr>dd_rows := set_discussion v i (\<lambda>r. r\<lparr>di_reply_count := max (di_reply_count r - 1) 0\<rparr>) (dd_rows s)\<rparr>) s"

definition soft_delete_discussion :: "com_env \<Rightarrow> int \<Rightarrow> discussion_db \<Rightarrow> (string + unit) \<times> discussion_db" where
  "soft_delete_discussion v i s =
     execute v (s\<lparr>dd_rows := set_discussion v i (\<lambda>r. r\<lparr>di_is_deleted := True\<rparr>) (dd_rows s)\<rparr>) s"

section \<open>Handlers\<close>

definition opt_member :: "string \<Rightarrow> ('a \<Rightarrow> json) \<Rightarrow> 'a option \<Rightarrow> (string \<times> json) list" where
  "opt_member k f x = (case x of None \<Rightarrow> [] | Some y \<Rightarrow> [(k, f y)])"

definition serialize_discussion :: "DiscussionListRow \<Rightarrow> (string \<times> json) list" where
  "serialize_discussion x =
     (let r = dl_discussion x; u = dl_user x in
      [(''id'', JInt (di_id r)), (''user_id'', JInt (di_user_id r)), (''content'', JStr (di_content r)),
       (''like_count'', JInt (di_like_count r)), (''reply_count'', JInt (di_reply_count r)),
       (''created_at'', JStr (di_created_at r)), (''updated_at'', JStr (di_updated_at r))]
      @ opt_member ''title'' JStr (di_title r) @ opt_member ''problem_id'' JInt (di_problem_id r)
      @ opt_member ''parent_id'' JInt (di_parent_id r) @ opt_member ''root_id'' JInt (di_root_id r)
      @ [(''user'', JObj ([(''id'', JInt (ui_id u)), (''username'', JStr (ui_username u))] @ opt_member ''avatar'' JStr (ui_avatar u)))]
      @ opt_member ''problem_slug'' JStr (dl_problem_slug x) @ opt_member ''problem_title'' JStr (dl_problem_title x))"

definition list_threads ::
    "web_env \<Rightarrow> com_env \<Rightarrow> int option \<Rightarrow> params \<Rightarrow> http_response \<Rightarrow> discussion_db \<Rightarrow> discussion_db web_result" where
  "list_threads w v pid ps res s =
     (let (limit, offset) = page_params 20 100 ps in
      web_call (list_discussions v \<lparr>dfl_problem_id = pid, dfl_limit = limit, dfl_offset = offset, dfl_user_id = None\<rparr> s) (\<lambda>(items, n) s.
        web_ok w (JObj [(''items'', JArr (map (JObj \<circ> serialize_discussion) items)), (''total'', JInt n), (''limit'', JInt limit),
                        (''offset'', JInt offset)]) res s) res)"

definition with_problem ::
    "web_env \<Rightarrow> com_env \<Rightarrow> string \<Rightarrow> (int \<Rightarrow> discussion_db \<Rightarrow> discussion_db web_result) \<Rightarrow> http_response \<Rightarrow> discussion_db \<Rightarrow> discussion_db web_result" where
  "with_problem w v path k res s =
     (case slug_of_path path of
        None \<Rightarrow> web_error w 400 INVALID_INPUT ''invalid path'' res s
      | Some slug \<Rightarrow> web_call (find_problem_id_by_slug v slug s) (\<lambda>pid s.
          case pid of None \<Rightarrow> web_error w 404 NOT_FOUND ''problem not found'' res s | Some p \<Rightarrow> k p s) res)"

definition handle_list_problem_discussions ::
    "web_env \<Rightarrow> (nat \<Rightarrow> com_env) \<Rightarrow> string \<Rightarrow> params \<Rightarrow> http_response \<Rightarrow> discussion_db \<Rightarrow> discussion_db web_result" where
  "handle_list_problem_discussions w e path ps res s = with_problem w (e 0) path (\<lambda>p s. list_threads w (e 1) (Some p) ps res s) res s"

definition handle_list_global_discussions ::
    "web_env \<Rightarrow> (nat \<Rightarrow> com_env) \<Rightarrow> params \<Rightarrow> http_response \<Rightarrow> discussion_db \<Rightarrow> discussion_db web_result" where
  "handle_list_global_discussions w e ps res s = list_threads w (e 0) None ps res s"

definition new_row :: "int \<Rightarrow> int option \<Rightarrow> int option \<Rightarrow> int option \<Rightarrow> string option \<Rightarrow> string \<Rightarrow> DiscussionRow" where
  "new_row u pid parent thread title content =
     \<lparr>di_id = 0, di_user_id = u, di_problem_id = pid, di_parent_id = parent, di_root_id = thread, di_title = title, di_content = content,
      di_like_count = 0, di_reply_count = 0, di_created_at = [], di_updated_at = [], di_is_deleted = False\<rparr>"

text \<open>The body of a new thread about a problem, or of a reply.\<close>

definition with_content ::
    "web_env \<Rightarrow> http_request \<Rightarrow> (string \<Rightarrow> discussion_db web_result) \<Rightarrow> http_response \<Rightarrow> discussion_db \<Rightarrow> discussion_db web_result" where
  "with_content w req k res s =
     (case body_object w req of
        None \<Rightarrow> web_error w 400 INVALID_INPUT ''invalid body'' res s
      | Some body \<Rightarrow>
      case get_member body ''content'' of
        None \<Rightarrow> web_error w 400 INVALID_INPUT ''content required'' res s
      | Some j \<Rightarrow> with_string j (\<lambda>content.
          if content = [] \<or> length content > 10000 then web_error w 400 INVALID_INPUT ''content must be 1-10000 chars'' res s
          else k content) res s)"

definition handle_create_problem_discussion ::
    "web_env \<Rightarrow> (nat \<Rightarrow> com_env) \<Rightarrow> string \<Rightarrow> http_request \<Rightarrow> http_response \<Rightarrow> discussion_db \<Rightarrow> discussion_db web_result" where
  "handle_create_problem_discussion w e path req res s =
     web_auth w req (\<lambda>c. with_problem w (e 0) path (\<lambda>p s. with_content w req (\<lambda>content. web_user c (\<lambda>u.
       web_call (create_discussion (e 1) (new_row u (Some p) None None None content) s) (\<lambda>i s. web_ok w (JObj [(''id'', JInt i)]) res s) res)
       res s) res s) res s) res s"

definition handle_create_global_discussion ::
    "web_env \<Rightarrow> (nat \<Rightarrow> com_env) \<Rightarrow> http_request \<Rightarrow> http_response \<Rightarrow> discussion_db \<Rightarrow> discussion_db web_result" where
  "handle_create_global_discussion w e req res s =
     web_auth w req (\<lambda>c.
       case body_object w req of
         None \<Rightarrow> web_error w 400 INVALID_INPUT ''invalid body'' res s
       | Some body \<Rightarrow>
       case (get_member body ''title'', get_member body ''content'') of
         (Some tj, Some cj) \<Rightarrow> with_string tj (\<lambda>title. with_string cj (\<lambda>content.
             if title = [] \<or> length title > 200 then web_error w 400 INVALID_INPUT ''title must be 1-200 chars'' res s
             else if content = [] \<or> length content > 10000 then web_error w 400 INVALID_INPUT ''content must be 1-10000 chars'' res s
             else web_user c (\<lambda>u.
               web_call (create_discussion (e 0) (new_row u None None None (Some title) content) s) (\<lambda>i s. web_ok w (JObj [(''id'', JInt i)]) res s)
                 res) res s) res s) res s
       | _ \<Rightarrow> web_error w 400 INVALID_INPUT ''title and content required'' res s) res s"

definition with_discussion ::
    "web_env \<Rightarrow> com_env \<Rightarrow> string option \<Rightarrow> (int \<Rightarrow> DiscussionRow \<Rightarrow> discussion_db \<Rightarrow> discussion_db web_result) \<Rightarrow> http_response
       \<Rightarrow> discussion_db \<Rightarrow> discussion_db web_result" where
  "with_discussion w v m k res s =
     (let i = matched_id m in
      if i = 0 then web_error w 400 INVALID_INPUT ''invalid discussion id'' res s
      else web_call (find_discussion v i s) (\<lambda>r s.
        case r of None \<Rightarrow> web_error w 404 NOT_FOUND ''discussion not found'' res s | Some r \<Rightarrow> k i r s) res)"

definition thread_row :: "com_env \<Rightarrow> DiscussionRow \<Rightarrow> discussion_db \<Rightarrow> (string + DiscussionListRow) \<times> discussion_db" where
  "thread_row v r s =
     (let u = (case find_user (di_user_id r) s of None \<Rightarrow> \<lparr>ui_id = 0, ui_username = [], ui_avatar = None\<rparr> | Some x \<Rightarrow> info_of x);
          p = live_problem_of (di_problem_id r) s;
          x = \<lparr>dl_discussion = r, dl_user = u, dl_problem_slug = map_option p_slug p, dl_problem_title = map_option p_title p\<rparr>
      in on_conn v (then_do v 0 s (if di_problem_id r = None then (Inr x, s) else then_do v 1 s (Inr x, s))) s)"

definition handle_get_discussion ::
    "web_env \<Rightarrow> (nat \<Rightarrow> com_env) \<Rightarrow> string option \<Rightarrow> http_response \<Rightarrow> discussion_db \<Rightarrow> discussion_db web_result" where
  "handle_get_discussion w e m res s =
     with_discussion w (e 0) m (\<lambda>i r s.
       web_call (thread_row (e 1) r s) (\<lambda>x s.
       web_call (list_replies (e 2) i s) (\<lambda>replies s.
         web_ok w (JObj (serialize_discussion x @ [(''replies'', JArr (map (JObj \<circ> serialize_discussion) replies))])) res s) res) res) res s"

text \<open>The root of a reply to \<open>r\<close>.\<close>

definition root_of :: "DiscussionRow \<Rightarrow> int" where
  "root_of r = (case di_root_id r of Some j \<Rightarrow> j | None \<Rightarrow> di_id r)"

definition reply_notice ::
    "web_env \<Rightarrow> (nat \<Rightarrow> com_env) \<Rightarrow> DiscussionRow \<Rightarrow> int \<Rightarrow> int \<Rightarrow> discussion_db \<Rightarrow> (string + unit) \<times> discussion_db" where
  "reply_notice w e r i u s =
     (if di_user_id r \<noteq> u then
        (case acting_name (e 3) u s of
           (Inl m, s) \<Rightarrow> (Inl m, s)
         | (Inr name, s) \<Rightarrow> notify_discussion_reply w (e 4) (di_user_id r) u i name
             (case di_title r of Some t \<Rightarrow> t | None \<Rightarrow> di_content r) s)
      else (Inr (), s))"

definition handle_reply_discussion ::
    "web_env \<Rightarrow> (nat \<Rightarrow> com_env) \<Rightarrow> string option \<Rightarrow> http_request \<Rightarrow> http_response \<Rightarrow> discussion_db \<Rightarrow> discussion_db web_result" where
  "handle_reply_discussion w e m req res s =
     web_auth w req (\<lambda>c. with_discussion w (e 0) m (\<lambda>i r s. with_content w req (\<lambda>content. web_user c (\<lambda>u.
       web_call (create_discussion (e 1) (new_row u (di_problem_id r) (Some i) (Some (root_of r)) None content) s) (\<lambda>j s.
       web_call (increment_reply_count (e 2) (root_of r) s) (\<lambda>_ s.
       web_call (reply_notice w e r i u s) (\<lambda>_ s.
         web_ok w (JObj [(''id'', JInt j)]) res s) res) res) res) res s) res s) res s) res s"

definition handle_like_discussion ::
    "web_env \<Rightarrow> (nat \<Rightarrow> com_env) \<Rightarrow> string option \<Rightarrow> http_request \<Rightarrow> http_response \<Rightarrow> discussion_db \<Rightarrow> discussion_db web_result" where
  "handle_like_discussion w e m req res s =
     web_auth w req (\<lambda>c. with_discussion w (e 0) m (\<lambda>i r s. web_user c (\<lambda>u.
       web_call (toggle_discussion_like (e 1) i u s) (\<lambda>liked s.
       web_call (find_discussion (e 2) i s) (\<lambda>updated s.
         web_ok w (JObj [(''liked'', JBool liked),
                         (''like_count'', JInt (case updated of None \<Rightarrow> 0 | Some x \<Rightarrow> di_like_count x))]) res s) res) res) res s) res s) res s"

definition handle_delete_discussion ::
    "web_env \<Rightarrow> (nat \<Rightarrow> com_env) \<Rightarrow> string option \<Rightarrow> http_request \<Rightarrow> http_response \<Rightarrow> discussion_db \<Rightarrow> discussion_db web_result" where
  "handle_delete_discussion w e m req res s =
     web_auth w req (\<lambda>c. with_discussion w (e 0) m (\<lambda>i r s. web_user c (\<lambda>u.
       if u \<noteq> di_user_id r \<and> role c \<noteq> ''admin'' then web_error w 403 FORBIDDEN ''not authorized to delete this discussion'' res s
       else web_call (soft_delete_discussion (e 1) i s) (\<lambda>_ s.
         case di_parent_id r of
           None \<Rightarrow> web_ok w (JObj [(''deleted'', JBool True)]) res s
         | Some p \<Rightarrow> web_call (decrement_reply_count (e 2) (case di_root_id r of Some j \<Rightarrow> j | None \<Rightarrow> p) s) (\<lambda>_ s.
             web_ok w (JObj [(''deleted'', JBool True)]) res s) res) res) res s) res s) res s"

definition handle_count_problem_discussions ::
    "web_env \<Rightarrow> (nat \<Rightarrow> com_env) \<Rightarrow> string \<Rightarrow> http_response \<Rightarrow> discussion_db \<Rightarrow> discussion_db web_result" where
  "handle_count_problem_discussions w e path res s =
     (let pid = id_at_end path in
      if pid = 0 then web_error w 400 INVALID_INPUT ''invalid problem id'' res s
      else web_call (count_discussions (e 0) pid s) (\<lambda>n s. web_ok w (JObj [(''count'', JInt n)]) res s) res)"

datatype discussion_route =
    RtProblemThreads string params
  | RtNewProblemThread string
  | RtThreads params
  | RtNewThread
  | RtThread "string option"
  | RtReply "string option"
  | RtLikeThread "string option"
  | RtDeleteThread "string option"
  | RtCountThreads string

fun discussion_route_handler ::
    "web_env \<Rightarrow> (nat \<Rightarrow> com_env) \<Rightarrow> discussion_route \<Rightarrow> http_request \<Rightarrow> http_response \<Rightarrow> discussion_db \<Rightarrow> discussion_db web_result" where
  "discussion_route_handler w e (RtProblemThreads path ps) req res s = plain_guard w (handle_list_problem_discussions w e path ps res s)"
| "discussion_route_handler w e (RtNewProblemThread path) req res s = plain_guard w (handle_create_problem_discussion w e path req res s)"
| "discussion_route_handler w e (RtThreads ps) req res s = plain_guard w (handle_list_global_discussions w e ps res s)"
| "discussion_route_handler w e RtNewThread req res s = plain_guard w (handle_create_global_discussion w e req res s)"
| "discussion_route_handler w e (RtThread m) req res s = plain_guard w (handle_get_discussion w e m res s)"
| "discussion_route_handler w e (RtReply m) req res s = plain_guard w (handle_reply_discussion w e m req res s)"
| "discussion_route_handler w e (RtLikeThread m) req res s = plain_guard w (handle_like_discussion w e m req res s)"
| "discussion_route_handler w e (RtDeleteThread m) req res s = plain_guard w (handle_delete_discussion w e m req res s)"
| "discussion_route_handler w e (RtCountThreads path) req res s = plain_guard w (handle_count_problem_discussions w e path res s)"

section \<open>Images\<close>

abbreviation (input) kMaxImageBytes :: int where
  "kMaxImageBytes \<equiv> 2097152"

definition image_ext :: "string \<Rightarrow> string option" where
  "image_ext bytes =
     (if starts_with [CHR 0xFF, CHR 0xD8, CHR 0xFF] bytes then Some ''.jpg''
      else if starts_with [CHR 0x89, CHR ''P'', CHR ''N'', CHR ''G'', CHR 0x0D, CHR 0x0A, CHR 0x1A, CHR 0x0A] bytes then Some ''.png''
      else if starts_with ''GIF87a'' bytes \<or> starts_with ''GIF89a'' bytes then Some ''.gif''
      else if length bytes \<ge> 12 \<and> starts_with ''RIFF'' bytes \<and> starts_with ''WEBP'' (drop 8 bytes) then Some ''.webp''
      else None)"

text \<open>
  What the file system does with the image. After a failure the file is removed; the argument is what is left at its
  path if that fails too, which is ignored.
\<close>

datatype image_io = ImageWritten | ImageOpenFailed | ImageWriteFailed "string option" | ImageThrows "string option"

definition store_image :: "web_env \<Rightarrow> image_io \<Rightarrow> string \<Rightarrow> string \<Rightarrow> string \<Rightarrow> http_response \<Rightarrow> (string \<rightharpoonup> string) \<Rightarrow> (string \<rightharpoonup> string) web_result" where
  "store_image w io i ext bytes res files =
     (let filename = i @ ext; path = ''/app/uploads/discussion_images/'' @ filename in
      case io of
        ImageThrows left \<Rightarrow> web_error w 500 INTERNAL_ERROR ''failed to store discussion image'' res (files(path := left))
      | ImageOpenFailed \<Rightarrow> web_error w 500 INTERNAL_ERROR ''failed to open discussion image file'' res files
      | ImageWriteFailed left \<Rightarrow> web_error w 500 INTERNAL_ERROR ''failed to write discussion image file'' res (files(path := left))
      | ImageWritten \<Rightarrow> web_ok w (JObj [(''url'', JStr (''/uploads/discussion_images/'' @ filename))]) res (files(path \<mapsto> bytes)))"

definition handle_upload_discussion_image ::
    "web_env \<Rightarrow> image_io \<Rightarrow> string \<Rightarrow> (string \<times> string) option \<Rightarrow> http_request \<Rightarrow> http_response \<Rightarrow> (string \<rightharpoonup> string) \<Rightarrow> (string \<rightharpoonup> string) web_result" where
  "handle_upload_discussion_image w io i file req res files =
     web_auth w req (\<lambda>c.
       case stoi (user_id c) of
         None \<Rightarrow> web_error w 401 UNAUTHORIZED ''invalid sub claim'' res files
       | Some u \<Rightarrow>
       if u \<le> 0 then web_error w 401 UNAUTHORIZED ''invalid sub claim'' res files
       else case file of
         None \<Rightarrow> web_error_with w 400 INVALID_INPUT (''missing '' @ [quote] @ ''image'' @ [quote] @ '' field in multipart body'')
             (JObj [(''expected_field'', JStr ''image'')]) res files
       | Some (bytes, ctype) \<Rightarrow>
       if bytes = [] then web_error w 400 INVALID_INPUT ''image file is empty'' res files
       else if int (length bytes) > kMaxImageBytes then
         web_error_with w 413 INVALID_INPUT ''image too large (max 2 MB)''
           (JObj [(''max_bytes'', JInt kMaxImageBytes), (''got_bytes'', JInt (int (length bytes)))]) res files
       else case image_ext bytes of
         None \<Rightarrow> web_error_with w 400 INVALID_INPUT ''image must be JPEG, PNG, GIF, or WEBP (magic bytes mismatch)''
             (JObj [(''content_type'', JStr ctype)]) res files
       | Some ext \<Rightarrow> store_image w io i ext bytes res files) res files"

lemma store_image_cases:
  "store_image w io i ext bytes res files = (r, res', files') \<Longrightarrow>
     (\<forall>f. f \<noteq> ''/app/uploads/discussion_images/'' @ i @ ext \<longrightarrow> files' f = files f)
     \<and> (rsp_status res' = 200 \<longrightarrow> files' (''/app/uploads/discussion_images/'' @ i @ ext) = Some bytes)"
  by (auto simp: store_image_def web_error_def web_ok_def Let_def split: image_io.splits outcome.splits)

lemma upload_effect:
  assumes "handle_upload_discussion_image w io i file req res files = (r, res', files')" and "rsp_status res \<noteq> 200"
  shows "files' = files \<and> rsp_status res' \<noteq> 200 \<or> (\<exists>bytes ctype ext. file = Some (bytes, ctype) \<and> image_ext bytes = Some ext \<and> int (length bytes) \<le> 2097152
    \<and> (\<forall>f. f \<noteq> ''/app/uploads/discussion_images/'' @ i @ ext \<longrightarrow> files' f = files f)
    \<and> (rsp_status res' = 200 \<longrightarrow> files' (''/app/uploads/discussion_images/'' @ i @ ext) = Some bytes))"
proof (cases "\<exists>bytes ctype ext. file = Some (bytes, ctype) \<and> image_ext bytes = Some ext \<and> int (length bytes) \<le> 2097152
    \<and> store_image w io i ext bytes res files = (r, res', files')")
  case True
  then show ?thesis using store_image_cases [of w io i _ _ res files r res' files'] by blast
next
  case False
  then have "files' = files \<and> rsp_status res' \<noteq> 200"
    using assms unfolding handle_upload_discussion_image_def web_auth_def
    by (auto simp: web_error_def web_error_with_def split: sum.splits option.splits if_splits prod.splits outcome.splits)
  then show ?thesis by simp
qed

end
