(* ===== verification/Discussion_Counters.thy ===== *)
theory Discussion_Counters
  imports Discussions
begin

text \<open>
  Properties of the discussion routes as a whole: the likes meet the contract of \<open>Likes\<close>, the tree of threads and replies
  stays one level deep and its counters exact through any requests that the database serves, and a row is deleted only for
  its author or an administrator.
\<close>

section \<open>Likes\<close>

definition discussion_counters :: "discussion_db \<Rightarrow> (int \<times> int) list" where
  "discussion_counters s = map (\<lambda>r. (di_id r, di_like_count r)) (dd_rows s)"

lemma set_discussion_same:
  assumes "\<And>r x. p (r\<lparr>di_updated_at := x\<rparr>) = p r" and "\<And>r. p (f r) = p r"
  shows "map p (set_discussion v i f rs) = map p rs"
  using assms by (auto simp: set_discussion_def)

lemma set_discussion_like_counters:
  "map (\<lambda>r. (di_id r, di_like_count r)) (set_discussion v i (\<lambda>r. r\<lparr>di_like_count := g (di_like_count r)\<rparr>) rs)
   = map (\<lambda>(j, n). (j, if j = i then g n else n)) (map (\<lambda>r. (di_id r, di_like_count r)) rs)"
proof -
  have *: "di_like_count r = g (di_like_count r)" if "r\<lparr>di_like_count := g (di_like_count r)\<rparr> = r" for r :: discussion
    using arg_cong [OF that, of di_like_count] by simp
  show ?thesis by (auto simp: set_discussion_def intro: *)
qed

text \<open>Whatever of the rows a like cannot change.\<close>

lemma toggle_discussion_same:
  assumes "\<And>r x. p (r\<lparr>di_updated_at := x\<rparr>) = p r" and "\<And>r x. p (r\<lparr>di_like_count := x\<rparr>) = p r"
  shows "map p (dd_rows (snd (toggle_discussion_like v i u s))) = map p (dd_rows s)"
proof -
  let ?f = "\<lambda>existing. set_discussion v i (\<lambda>r. r\<lparr>di_like_count := like_count_step existing (di_like_count r)\<rparr>)"
  have c: "map p (?f b rs) = map p rs" for b rs using assms by (intro set_discussion_same) simp_all
  show ?thesis
    by (cases rule: toggle_on_cases [of v "discussion_parents i u s" "(u, i)" ?f "dd_likes s" "dd_rows s"])
      (simp_all add: toggle_discussion_like_def c)
qed

lemma toggle_discussion_frame:
  "dd_next (snd (toggle_discussion_like v i u s)) = dd_next s" "cm_users (snd (toggle_discussion_like v i u s)) = cm_users s"
  by (simp_all add: toggle_discussion_like_def split: prod.splits)

interpretation dis: like_counter toggle_discussion_like dd_likes discussion_counters discussion_parents
proof
  show "discussion_parents j w (snd (toggle_discussion_like v i u s)) = discussion_parents j w s" for j w v i u s
    using toggle_discussion_same [of di_id v i u s] by (simp add: discussion_parents_def has_row_def user_exists_def toggle_discussion_frame del: set_map)
qed (simp_all add: toggle_discussion_like_def toggle_on_healthy toggle_on_refused discussion_counters_def set_discussion_like_counters)

section \<open>The tree\<close>

record node =
  nd_id :: int
  nd_reply :: bool
  nd_root :: "int option"
  nd_dead :: bool
  nd_replies :: int

definition node_of :: "discussion \<Rightarrow> node" where
  "node_of r = \<lparr>nd_id = di_id r, nd_reply = (di_parent_id r \<noteq> None), nd_root = di_root_id r, nd_dead = di_is_deleted r,
     nd_replies = di_reply_count r\<rparr>"

definition nodes :: "discussion_db \<Rightarrow> node list" where
  "nodes s = map node_of (dd_rows s)"

definition live_replies :: "int \<Rightarrow> node list \<Rightarrow> int" where
  "live_replies j ns = int (length (filter (\<lambda>n. nd_root n = Some j \<and> \<not> nd_dead n) ns))"

definition is_thread :: "int \<Rightarrow> node list \<Rightarrow> bool" where
  "is_thread j ns \<longleftrightarrow> (\<exists>q \<in> set ns. nd_id q = j \<and> nd_root q = None)"

definition tree_ok :: "node list \<Rightarrow> int \<Rightarrow> bool" where
  "tree_ok ns nx \<longleftrightarrow> distinct (map nd_id ns) \<and> (\<forall>n \<in> set ns. nd_id n < nx \<and> (nd_reply n \<longleftrightarrow> nd_root n \<noteq> None)
     \<and> (\<forall>j. nd_root n = Some j \<longrightarrow> is_thread j ns) \<and> nd_replies n = live_replies (nd_id n) ns)"

definition at_node :: "int \<Rightarrow> (node \<Rightarrow> node) \<Rightarrow> node list \<Rightarrow> node list" where
  "at_node i f ns = map (\<lambda>n. if nd_id n = i then f n else n) ns"

definition bump :: "int \<Rightarrow> (int \<Rightarrow> int) \<Rightarrow> node list \<Rightarrow> node list" where
  "bump i g = at_node i (\<lambda>n. n\<lparr>nd_replies := g (nd_replies n)\<rparr>)"

definition kill :: "int \<Rightarrow> node list \<Rightarrow> node list" where
  "kill i = at_node i (\<lambda>n. n\<lparr>nd_dead := True\<rparr>)"

lemma at_node_ids: "(\<And>n. nd_id (f n) = nd_id n) \<Longrightarrow> map nd_id (at_node i f ns) = map nd_id ns"
  by (auto simp: at_node_def)

lemma at_node_thread: "(\<And>n. nd_id (f n) = nd_id n) \<Longrightarrow> (\<And>n. nd_root (f n) = nd_root n) \<Longrightarrow> is_thread j (at_node i f ns) = is_thread j ns"
proof -
  assume same: "\<And>n. nd_id (f n) = nd_id n" "\<And>n. nd_root (f n) = nd_root n"
  have "is_thread j ns \<longleftrightarrow> (j, None) \<in> set (map (\<lambda>n. (nd_id n, nd_root n)) ns)" for ns by (auto simp: is_thread_def)
  moreover have "map (\<lambda>n. (nd_id n, nd_root n)) (at_node i f ns) = map (\<lambda>n. (nd_id n, nd_root n)) ns" by (simp add: at_node_def same)
  ultimately show ?thesis by metis
qed

lemma live_replies_bump: "live_replies j (bump i g ns) = live_replies j ns"
  by (simp add: live_replies_def bump_def at_node_def filter_map comp_def)

lemma live_replies_nonneg: "0 \<le> live_replies j ns"
  by (simp add: live_replies_def)

lemma live_replies_kill:
  assumes "distinct (map nd_id ns)" and "n \<in> set ns" and "\<not> nd_dead n"
  shows "live_replies j ns = live_replies j (kill (nd_id n) ns) + (if nd_root n = Some j then 1 else 0)"
  using assms
proof (induction ns)
  case (Cons x ns)
  show ?case
  proof (cases "x = n")
    case True
    have "kill (nd_id n) ns = ns" using Cons.prems(1) True unfolding kill_def at_node_def by (intro map_idI) (auto simp: image_iff)
    then show ?thesis using True Cons.prems(3) by (auto simp: live_replies_def kill_def at_node_def)
  next
    case False
    then have "nd_id x \<noteq> nd_id n" using Cons.prems(1,2) by auto
    then show ?thesis using Cons False by (auto simp: live_replies_def kill_def at_node_def)
  qed
qed simp

lemma no_replies_yet:
  assumes "tree_ok ns nx"
  shows "live_replies nx ns = 0"
proof -
  have "\<not> is_thread nx ns" using assms by (auto simp: tree_ok_def is_thread_def)
  then have "nd_root n \<noteq> Some nx" if "n \<in> set ns" for n using assms that by (auto simp: tree_ok_def)
  then show ?thesis by (simp add: live_replies_def filter_empty_conv)
qed

lemma tree_new: "tree_ok ns nx \<Longrightarrow> tree_ok (ns @ [\<lparr>nd_id = nx, nd_reply = False, nd_root = None, nd_dead = False, nd_replies = 0\<rparr>]) (nx + 1)"
  using no_replies_yet [of ns nx] by (fastforce simp: tree_ok_def live_replies_def is_thread_def)

lemma tree_reply:
  assumes "tree_ok ns nx" and "is_thread j ns"
  shows "tree_ok (bump j (\<lambda>k. k + 1) (ns @ [\<lparr>nd_id = nx, nd_reply = True, nd_root = Some j, nd_dead = False, nd_replies = 0\<rparr>])) (nx + 1)"
proof -
  let ?new = "\<lparr>nd_id = nx, nd_reply = True, nd_root = Some j, nd_dead = False, nd_replies = 0\<rparr>"
  let ?ns = "bump j (\<lambda>k. k + 1) (ns @ [?new])"
  have j: "j \<noteq> nx" using assms by (auto simp: tree_ok_def is_thread_def)
  have live: "live_replies i ?ns = live_replies i ns + (if i = j then 1 else 0)" for i
    unfolding live_replies_bump by (simp add: live_replies_def)
  have th: "is_thread i ns \<Longrightarrow> is_thread i ?ns" for i
    unfolding bump_def by (subst at_node_thread) (auto simp: is_thread_def)
  have ids: "map nd_id ?ns = map nd_id ns @ [nx]" unfolding bump_def by (subst at_node_ids) simp_all
  have "nd_id n < nx + 1 \<and> (nd_reply n \<longleftrightarrow> nd_root n \<noteq> None) \<and> (\<forall>j. nd_root n = Some j \<longrightarrow> is_thread j ?ns) \<and> nd_replies n = live_replies (nd_id n) ?ns"
    if n: "n \<in> set ?ns" for n
  proof -
    from n obtain m where m: "m \<in> set (ns @ [?new])" "n = (if nd_id m = j then m\<lparr>nd_replies := nd_replies m + 1\<rparr> else m)"
      unfolding bump_def at_node_def set_map by (rule imageE)
    show ?thesis
    proof (cases "m = ?new")
      case True
      then show ?thesis using j m(2) th [OF assms(2)] no_replies_yet [OF assms(1)] by (simp add: live)
    next
      case False
      then have "m \<in> set ns" using m(1) by simp
      then have "nd_id m < nx" "nd_reply m \<longleftrightarrow> nd_root m \<noteq> None" "\<forall>j. nd_root m = Some j \<longrightarrow> is_thread j ?ns" "nd_replies m = live_replies (nd_id m) ns"
        using assms(1) th by (auto simp: tree_ok_def)
      then show ?thesis using m(2) by (simp add: live)
    qed
  qed
  moreover have "distinct (map nd_id ?ns)" unfolding ids using assms(1) by (auto simp: tree_ok_def)
  ultimately show ?thesis by (simp add: tree_ok_def)
qed

lemma tree_kill:
  assumes "tree_ok ns nx" and "n \<in> set ns" "\<not> nd_dead n"
  shows "nd_root n = None \<Longrightarrow> tree_ok (kill (nd_id n) ns) nx"
    and "nd_root n = Some j \<Longrightarrow> tree_ok (bump j (\<lambda>k. max (k - 1) 0) (kill (nd_id n) ns)) nx"
proof -
  have d: "distinct (map nd_id ns)" using assms(1) by (simp add: tree_ok_def)
  note live = live_replies_kill [OF d assms(2,3)]
  have th: "is_thread i (kill k ns) = is_thread i ns" "is_thread i (bump j g ms) = is_thread i ms" for i k j g ms
    unfolding kill_def bump_def by (rule at_node_thread; simp)+
  have ids: "map nd_id (kill k ns) = map nd_id ns" "map nd_id (bump j g ms) = map nd_id ms" for k j g ms
    unfolding kill_def bump_def by (rule at_node_ids; simp)+
  have kills: "\<exists>m \<in> set ns. nd_id q = nd_id m \<and> nd_reply q = nd_reply m \<and> nd_root q = nd_root m \<and> nd_replies q = nd_replies m" if "q \<in> set (kill k ns)" for q k
    using that by (auto simp: kill_def at_node_def)
  show "tree_ok (kill (nd_id n) ns) nx" if "nd_root n = None"
    using assms(1) live that kills [of _ "nd_id n"] unfolding tree_ok_def ids th by fastforce
  show "tree_ok (bump j (\<lambda>k. max (k - 1) 0) (kill (nd_id n) ns)) nx" if r: "nd_root n = Some j"
  proof -
    let ?ns = "bump j (\<lambda>k. max (k - 1) 0) (kill (nd_id n) ns)"
    have lv: "live_replies i ?ns = live_replies i ns - (if i = j then 1 else 0)" for i
      using live [of i] r unfolding live_replies_bump by auto
    have "nd_id q < nx \<and> (nd_reply q \<longleftrightarrow> nd_root q \<noteq> None) \<and> (\<forall>j. nd_root q = Some j \<longrightarrow> is_thread j ?ns) \<and> nd_replies q = live_replies (nd_id q) ?ns"
      if q: "q \<in> set ?ns" for q
    proof -
      from q obtain p where p: "p \<in> set (kill (nd_id n) ns)" "q = (if nd_id p = j then p\<lparr>nd_replies := max (nd_replies p - 1) 0\<rparr> else p)"
        unfolding bump_def at_node_def set_map by (rule imageE)
      obtain m where m: "m \<in> set ns" "nd_id p = nd_id m" "nd_reply p = nd_reply m" "nd_root p = nd_root m" "nd_replies p = nd_replies m"
        using kills [OF p(1)] by blast
      have "1 \<le> live_replies j ns" using live [of j] r live_replies_nonneg [of j "kill (nd_id n) ns"] by simp
      moreover have "nd_id m < nx" "nd_reply m \<longleftrightarrow> nd_root m \<noteq> None" "\<forall>j. nd_root m = Some j \<longrightarrow> is_thread j ns" "nd_replies m = live_replies (nd_id m) ns"
        using assms(1) m(1) by (auto simp: tree_ok_def)
      ultimately show ?thesis using m p(2) by (simp add: lv th)
    qed
    moreover have "distinct (map nd_id ?ns)" unfolding ids by (rule d)
    ultimately show ?thesis by (simp add: tree_ok_def)
  qed
qed

section \<open>Statements\<close>

definition discussions_ok :: "discussion_db \<Rightarrow> bool" where
  "discussions_ok s \<longleftrightarrow> tree_ok (nodes s) (dd_next s) \<and> dis.exact s \<and> (\<forall>p \<in> set (dd_likes s). snd p < dd_next s)"

lemma set_discussion_nodes:
  assumes "\<And>r. node_of (f r) = g (node_of r)" and "\<And>r. nd_id (g r) = nd_id r"
  shows "map node_of (set_discussion v i f rs) = at_node i g (map node_of rs)"
proof -
  have stamp: "node_of (r\<lparr>di_updated_at := x\<rparr>) = node_of r" for r x by (simp add: node_of_def)
  have "f r = r \<Longrightarrow> g (node_of r) = node_of r" for r using assms(1) [of r] by simp
  moreover have "nd_id (node_of r) = di_id r" for r by (simp add: node_of_def)
  ultimately show ?thesis by (auto simp: set_discussion_def at_node_def assms(1) stamp)
qed

lemma counted_nodes:
  "map node_of (set_discussion v i (\<lambda>r. r\<lparr>di_reply_count := g (di_reply_count r)\<rparr>) rs) = bump i g (map node_of rs)"
  "map node_of (set_discussion v i (\<lambda>r. r\<lparr>di_is_deleted := True\<rparr>) rs) = kill i (map node_of rs)"
  unfolding bump_def kill_def by (rule set_discussion_nodes; simp add: node_of_def)+

lemma counted_likes:
  "map (\<lambda>r. (di_id r, di_like_count r)) (set_discussion v i (\<lambda>r. r\<lparr>di_reply_count := g (di_reply_count r)\<rparr>) rs) = map (\<lambda>r. (di_id r, di_like_count r)) rs"
  "map (\<lambda>r. (di_id r, di_like_count r)) (set_discussion v i (\<lambda>r. r\<lparr>di_is_deleted := True\<rparr>) rs) = map (\<lambda>r. (di_id r, di_like_count r)) rs"
  by (rule set_discussion_same; simp)+

text \<open>What \<open>discussions_ok\<close> is about; notifications change nothing of it.\<close>

definition threads :: "discussion_db \<Rightarrow> discussion list \<times> int \<times> like list" where
  "threads s = (dd_rows s, dd_next s, dd_likes s)"

lemma ok_of_threads: "threads t = threads s \<Longrightarrow> discussions_ok t = discussions_ok s"
  by (simp add: discussions_ok_def nodes_def dis.exact_def discussion_counters_def threads_def)

lemma deliver_threads: "threads (snd (deliver w v u ty msg link ref s)) = threads s"
  by (auto simp: deliver_def threads_def push_def create_note_def on_conn_def Let_def split: option.splits outcome.splits)

lemma reply_notice_threads: "threads (snd (reply_notice w e r i u s)) = threads s"
  by (auto simp: reply_notice_def notify_discussion_reply_def deliver_threads dest!: acting_name_state split: prod.splits sum.splits)

lemma created:
  assumes "healthy v" and "create_discussion v d s = (Inr j, s1)"
  obtains r where "s1 = s\<lparr>dd_rows := dd_rows s @ [r], dd_next := dd_next s + 1\<rparr>" and "di_like_count r = 0" and "di_id r = dd_next s"
    and "node_of r = \<lparr>nd_id = dd_next s, nd_reply = (di_parent_id d \<noteq> None), nd_root = di_root_id d, nd_dead = False, nd_replies = 0\<rparr>"
  using assms that by (auto simp: create_discussion_def healthy_def on_conn_def node_of_def split: if_splits option.splits)

lemma not_created: "create_discussion v d s = (Inl m, s1) \<Longrightarrow> s1 = s"
  by (auto simp: create_discussion_def on_conn_def split: option.splits if_splits)

lemma exact_created:
  assumes ok: "discussions_ok s" and s1: "s1 = s\<lparr>dd_rows := dd_rows s @ [r], dd_next := dd_next s + 1\<rparr>" and r: "di_like_count r = 0" "di_id r = dd_next s"
  shows "dis.exact s1 \<and> (\<forall>p \<in> set (dd_likes s1). snd p < dd_next s1)"
proof -
  have "like_total (dd_likes s) (dd_next s) = 0" using ok by (intro no_likes_yet) (simp add: discussions_ok_def)
  then show ?thesis using ok r by (auto simp: discussions_ok_def dis.exact_def discussion_counters_def s1)
qed

lemma new_thread_ok:
  assumes v: "healthy v" and ok: "discussions_ok s" and d: "di_parent_id d = None" "di_root_id d = None"
  shows "discussions_ok (snd (create_discussion v d s))"
proof (cases "create_discussion v d s")
  case (Pair a s1)
  show ?thesis
  proof (cases a)
    case (Inl m)
    then show ?thesis using not_created [of v d s m s1] Pair ok by simp
  next
    case (Inr j)
    obtain r where s1: "s1 = s\<lparr>dd_rows := dd_rows s @ [r], dd_next := dd_next s + 1\<rparr>" and r: "di_like_count r = 0" "di_id r = dd_next s"
      and n: "node_of r = \<lparr>nd_id = dd_next s, nd_reply = (di_parent_id d \<noteq> None), nd_root = di_root_id d, nd_dead = False, nd_replies = 0\<rparr>"
      using created [OF v Pair [unfolded Inr]] by blast
    have "tree_ok (nodes s1) (dd_next s1)" using tree_new [of "nodes s" "dd_next s"] ok n d by (simp add: discussions_ok_def nodes_def s1)
    then show ?thesis using exact_created [OF ok s1 r] Pair by (simp add: discussions_ok_def)
  qed
qed

lemma reply_ok:
  assumes v: "healthy v" "healthy v'" and ok: "discussions_ok s" and c: "create_discussion v d s = (Inr j, s1)"
    and d: "di_parent_id d \<noteq> None" "di_root_id d = Some k" "is_thread k (nodes s)"
  shows "discussions_ok (snd (increment_reply_count v' k s1))"
proof -
  obtain r where s1: "s1 = s\<lparr>dd_rows := dd_rows s @ [r], dd_next := dd_next s + 1\<rparr>" and r: "di_like_count r = 0" "di_id r = dd_next s"
    and n: "node_of r = \<lparr>nd_id = dd_next s, nd_reply = (di_parent_id d \<noteq> None), nd_root = di_root_id d, nd_dead = False, nd_replies = 0\<rparr>"
    using created [OF v(1) c] by blast
  let ?t = "snd (increment_reply_count v' k s1)"
  have t: "?t = s1\<lparr>dd_rows := set_discussion v' k (\<lambda>r. r\<lparr>di_reply_count := di_reply_count r + 1\<rparr>) (dd_rows s1)\<rparr>"
    using v(2) by (simp add: increment_reply_count_def)
  have "tree_ok (nodes ?t) (dd_next ?t)"
    using tree_reply [OF _ d(3), of "dd_next s"] ok n d(1,2) unfolding t nodes_def
    by (simp add: counted_nodes(1) [where g = "\<lambda>k. k + 1"] s1 discussions_ok_def nodes_def)
  moreover have "dis.exact ?t \<and> (\<forall>p \<in> set (dd_likes ?t). snd p < dd_next ?t)"
    using exact_created [OF ok s1 r] unfolding t by (simp add: dis.exact_def discussion_counters_def counted_likes(1) [where g = "\<lambda>k. k + 1"])
  ultimately show ?thesis by (simp add: discussions_ok_def)
qed

lemma deleted_ok:
  assumes v: "healthy v" and ok: "discussions_ok s" and r: "r \<in> set (dd_rows s)" "\<not> di_is_deleted r"
  shows "di_parent_id r = None \<Longrightarrow> discussions_ok (snd (soft_delete_discussion v (di_id r) s))"
    and "healthy v' \<Longrightarrow> di_parent_id r \<noteq> None \<Longrightarrow> di_root_id r = Some j \<Longrightarrow> discussions_ok (snd (decrement_reply_count v' j (snd (soft_delete_discussion v (di_id r) s))))"
proof -
  let ?s1 = "s\<lparr>dd_rows := set_discussion v (di_id r) (\<lambda>r. r\<lparr>di_is_deleted := True\<rparr>) (dd_rows s)\<rparr>"
  have s1: "soft_delete_discussion v (di_id r) s = (Inr (), ?s1)" using v by (simp add: soft_delete_discussion_def)
  have n: "node_of r \<in> set (nodes s)" "\<not> nd_dead (node_of r)" "nd_id (node_of r) = di_id r" "nd_root (node_of r) = di_root_id r"
    using r by (simp_all add: nodes_def node_of_def)
  have tree: "tree_ok (nodes s) (dd_next s)" and ex: "dis.exact ?s1 \<and> (\<forall>p \<in> set (dd_likes ?s1). snd p < dd_next ?s1)"
    using ok by (simp_all add: discussions_ok_def dis.exact_def discussion_counters_def counted_likes)
  have rt: "di_parent_id r = None \<longleftrightarrow> di_root_id r = None" using tree n(1) by (auto simp: tree_ok_def node_of_def)
  show "discussions_ok (snd (soft_delete_discussion v (di_id r) s))" if "di_parent_id r = None"
    using tree_kill(1) [OF tree n(1,2)] rt that ex unfolding s1 n(3,4) by (simp add: discussions_ok_def nodes_def counted_nodes)
  show "discussions_ok (snd (decrement_reply_count v' j (snd (soft_delete_discussion v (di_id r) s))))"
    if v': "healthy v'" and j: "di_root_id r = Some j"
  proof -
    let ?t = "?s1\<lparr>dd_rows := set_discussion v' j (\<lambda>r. r\<lparr>di_reply_count := max (di_reply_count r - 1) 0\<rparr>) (dd_rows ?s1)\<rparr>"
    have t: "snd (decrement_reply_count v' j ?s1) = ?t" using v' by (simp add: decrement_reply_count_def)
    have "tree_ok (nodes ?t) (dd_next ?t)"
      using tree_kill(2) [OF tree n(1,2), of j] j unfolding n(3,4) by (simp add: nodes_def counted_nodes(1) [where g = "\<lambda>k. max (k - 1) 0"] counted_nodes(2))
    moreover have "dis.exact ?t \<and> (\<forall>p \<in> set (dd_likes ?t). snd p < dd_next ?t)"
      using ex by (simp add: dis.exact_def discussion_counters_def counted_likes(1) [where g = "\<lambda>k. max (k - 1) 0"])
    ultimately show ?thesis unfolding s1 by (simp add: discussions_ok_def t)
  qed
qed

lemma liked_ok:
  assumes v: "healthy v" and ok: "discussions_ok s" and i: "has_row i s"
  shows "discussions_ok (snd (toggle_discussion_like v i u s))"
proof -
  let ?t = "snd (toggle_discussion_like v i u s)"
  have same: "nodes ?t = nodes s" unfolding nodes_def by (rule toggle_discussion_same) (simp_all add: node_of_def)
  have "i < dd_next s" using i ok by (auto simp: has_row_def discussions_ok_def tree_ok_def nodes_def node_of_def)
  then have "\<forall>p \<in> set (dd_likes ?t). snd p < dd_next s"
    using ok dis.likes_after [OF v, of u i s] dis.refused [OF v, of u i s]
    by (cases "(u, i) \<in> set (dd_likes s) \<or> discussion_parents i u s") (auto simp: discussions_ok_def)
  then show ?thesis using dis.toggle_exact [OF v] ok same by (simp add: discussions_ok_def toggle_discussion_frame)
qed

section \<open>Requests\<close>

lemma with_content_snd: "(\<And>t. Q (snd (snd (k t)))) \<Longrightarrow> Q s \<Longrightarrow> Q (snd (snd (with_content w req k res s)))"
  unfolding with_content_def by (auto intro!: with_string_snd [where Q = Q] split: option.splits)

lemma with_problem_snd: "(\<And>p. Q (snd (snd (k p s)))) \<Longrightarrow> Q s \<Longrightarrow> Q (snd (snd (with_problem w v path k res s)))"
  unfolding with_problem_def find_problem_id_by_slug_def by (auto intro!: query_call_snd [where Q = Q] split: option.splits)

lemma with_discussion_snd:
  assumes "\<And>x. x \<in> set (dd_rows s) \<Longrightarrow> di_id x = matched_id m \<Longrightarrow> \<not> di_is_deleted x \<Longrightarrow> Q (snd (snd (k (matched_id m) (DiscussionRow.truncate x) s)))"
    and "Q s"
  shows "Q (snd (snd (with_discussion w v m k res s)))"
proof (cases "List.find (\<lambda>r. di_id r = matched_id m \<and> \<not> di_is_deleted r) (dd_rows s)")
  case (Some x)
  then show ?thesis using assms find_some_exists [OF Some] unfolding with_discussion_def find_discussion_def Let_def
    by (cases rule: query_cases [of v "Some (DiscussionRow.truncate x)" s]) (simp_all add: web_call_def)
next
  case None
  show ?thesis using assms(2) unfolding with_discussion_def find_discussion_def Let_def None
    by (cases rule: query_cases [of v "None :: DiscussionRow option" s]) (simp_all add: web_call_def)
qed

lemma list_threads_state: "snd (snd (list_threads w v pid ps res s)) = s"
  by (auto simp: list_threads_def list_discussions_def on_conn_def then_do_def web_call_def Let_def split: option.splits prod.splits)

lemma get_discussion_state: "snd (snd (handle_get_discussion w e m res s)) = s"
proof -
  have "snd (thread_row v r s) = s" for v r by (simp add: thread_row_def on_conn_def then_do_def Let_def split: option.splits)
  then have row: "thread_row v r s = (a, t) \<Longrightarrow> t = s" for v r a t by (metis snd_conv)
  show ?thesis unfolding handle_get_discussion_def
    by (rule with_discussion_snd [where Q = "\<lambda>t. t = s"])
      (auto simp: web_call_def list_replies_def query_def on_conn_def then_do_def dest!: row split: prod.splits sum.splits option.splits)
qed

lemma dtruncated [simp]:
  "di_id (DiscussionRow.truncate x) = di_id x" "di_user_id (DiscussionRow.truncate x) = di_user_id x" "di_parent_id (DiscussionRow.truncate x) = di_parent_id x"
  "di_root_id (DiscussionRow.truncate x) = di_root_id x"
  by (simp_all add: DiscussionRow.truncate_def)

lemma root_is_thread:
  assumes "discussions_ok s" and "x \<in> set (dd_rows s)"
  shows "is_thread (root_of (DiscussionRow.truncate x)) (nodes s)"
proof (cases "di_root_id x")
  case None
  then show ?thesis using assms(2) by (auto simp: root_of_def is_thread_def nodes_def node_of_def)
next
  case (Some j)
  then show ?thesis using assms by (auto simp: root_of_def discussions_ok_def tree_ok_def nodes_def node_of_def)
qed

lemma reply_answer_ok:
  assumes e: "\<forall>k. healthy (e k)" and ok: "discussions_ok s" and x: "x \<in> set (dd_rows s)" and d: "di_parent_id d \<noteq> None" "di_root_id d = Some (root_of (DiscussionRow.truncate x))"
  shows "discussions_ok (snd (snd (web_call (create_discussion (e k) d s) (\<lambda>j s. web_call (increment_reply_count (e k') (root_of (DiscussionRow.truncate x)) s) (\<lambda>_ s.
       web_call (reply_notice w e r i u s) (\<lambda>_ s. web_ok w (f j) res s) res) res) res)))"
proof (cases "create_discussion (e k) d s")
  case (Pair a s1)
  show ?thesis
  proof (cases a)
    case (Inl msg)
    then show ?thesis using not_created [of "e k" d s msg s1] Pair ok by (simp add: web_call_def)
  next
    case (Inr j)
    obtain s2 where s2: "increment_reply_count (e k') (root_of (DiscussionRow.truncate x)) s1 = (Inr (), s2)"
      using e by (simp add: increment_reply_count_def)
    have "discussions_ok s2"
      using reply_ok [OF _ _ ok Pair [unfolded Inr] d root_is_thread [OF ok x], of "e k'"] e s2 by simp
    moreover obtain b s3 where n: "reply_notice w e r i u s2 = (b, s3)" by fastforce
    ultimately have "discussions_ok s3" using ok_of_threads [OF reply_notice_threads [of w e r i u s2]] by simp
    then show ?thesis using Pair Inr s2 n by (cases b) (simp_all add: web_call_def)
  qed
qed

lemma new_answer_ok:
  assumes "\<forall>k. healthy (e k)" and "discussions_ok s" and "di_parent_id d = None" "di_root_id d = None"
  shows "discussions_ok (snd (snd (web_call (create_discussion (e k) d s) (\<lambda>i s. web_ok w (f i) res s) res)))"
  using new_thread_ok [of "e k" s d] assms by (cases "create_discussion (e k) d s"; cases "fst (create_discussion (e k) d s)") (simp_all add: web_call_def)

lemma like_discussion_ok:
  assumes "\<forall>k. healthy (e k)" and "discussions_ok s" and "x \<in> set (dd_rows s)" "di_id x = i"
  shows "discussions_ok (snd (snd (web_call (toggle_discussion_like (e k) i u s) (\<lambda>liked s. web_call (find_discussion (e k') i s) (\<lambda>updated s.
      web_ok w (f liked updated) res s) res) res)))"
proof -
  have "has_row i s" using assms(3,4) by (auto simp: has_row_def)
  then have "discussions_ok (snd (toggle_discussion_like (e k) i u s))" using liked_ok assms(1,2) by blast
  then show ?thesis using assms(1)
    by (cases "toggle_discussion_like (e k) i u s"; cases "fst (toggle_discussion_like (e k) i u s)") (simp_all add: web_call_def find_discussion_def)
qed

lemma delete_answer_ok:
  assumes e: "\<forall>k. healthy (e k)" and ok: "discussions_ok s" and x: "x \<in> set (dd_rows s)" "\<not> di_is_deleted x" "di_id x = i"
  shows "discussions_ok (snd (snd (web_call (soft_delete_discussion (e k) i s) (\<lambda>_ s.
         case di_parent_id (DiscussionRow.truncate x) of
           None \<Rightarrow> web_ok w f res s
         | Some p \<Rightarrow> web_call (decrement_reply_count (e k') (case di_root_id (DiscussionRow.truncate x) of Some j \<Rightarrow> j | None \<Rightarrow> p) s) (\<lambda>_ s. web_ok w f res s) res) res)))"
proof -
  obtain s1 where s1: "soft_delete_discussion (e k) (di_id x) s = (Inr (), s1)" using e by (simp add: soft_delete_discussion_def)
  have "di_parent_id x = None \<longleftrightarrow> di_root_id x = None" using ok x(1) by (auto simp: discussions_ok_def tree_ok_def nodes_def node_of_def)
  then consider "di_parent_id x = None" | p j where "di_parent_id x = Some p" "di_root_id x = Some j" by auto
  then show ?thesis
  proof cases
    case 1
    then show ?thesis using deleted_ok(1) [OF _ ok x(1,2), of "e k"] e s1 x(3) by (simp add: web_call_def)
  next
    case 2
    obtain s2 where "decrement_reply_count (e k') j s1 = (Inr (), s2)" using e by (simp add: decrement_reply_count_def)
    then show ?thesis using deleted_ok(2) [OF _ ok x(1,2), of "e k" "e k'" j] 2 e s1 x(3) by (simp add: web_call_def)
  qed
qed

lemmas thread_paths = web_auth_snd [where Q = discussions_ok] web_user_snd [where Q = discussions_ok] with_string_snd [where Q = discussions_ok]
  with_content_snd [where Q = discussions_ok] with_problem_snd [where Q = discussions_ok] with_discussion_snd [where Q = discussions_ok]

lemma discussion_route_ok:
  assumes e: "\<forall>k. healthy (e k)" and ok: "discussions_ok s"
  shows "discussions_ok (snd (snd (discussion_route_handler w e r req res s)))"
proof (cases r)
  case (RtProblemThreads path ps)
  show ?thesis unfolding RtProblemThreads discussion_route_handler.simps plain_guard_state handle_list_problem_discussions_def
    by (auto simp: list_threads_state ok intro!: thread_paths)
next
  case (RtNewProblemThread path)
  show ?thesis unfolding RtNewProblemThread discussion_route_handler.simps plain_guard_state handle_create_problem_discussion_def
    by (auto simp: ok new_row_def intro!: thread_paths new_answer_ok [OF e])
next
  case (RtThreads ps)
  show ?thesis unfolding RtThreads discussion_route_handler.simps plain_guard_state handle_list_global_discussions_def
    by (simp add: list_threads_state ok)
next
  case RtNewThread
  show ?thesis unfolding RtNewThread discussion_route_handler.simps plain_guard_state handle_create_global_discussion_def
    by (auto simp: ok new_row_def intro!: thread_paths new_answer_ok [OF e] split: option.splits)
next
  case (RtReply m)
  show ?thesis unfolding RtReply discussion_route_handler.simps plain_guard_state handle_reply_discussion_def
    by (auto simp: ok new_row_def intro!: thread_paths reply_answer_ok [OF e])
next
  case (RtLikeThread m)
  show ?thesis unfolding RtLikeThread discussion_route_handler.simps plain_guard_state handle_like_discussion_def
    by (auto simp: ok intro!: thread_paths intro: like_discussion_ok [OF e])
next
  case (RtDeleteThread m)
  show ?thesis unfolding RtDeleteThread discussion_route_handler.simps plain_guard_state handle_delete_discussion_def
    by (auto simp: ok simp del: dtruncated intro!: thread_paths) (rule delete_answer_ok [OF e ok]; assumption)+
qed (simp_all add: plain_guard_state get_discussion_state handle_count_problem_discussions_def count_discussions_def query_keeps ok Let_def
    query_call_snd [where Q = discussions_ok])

text \<open>
  C20. Whatever requests arrive one after the other, and as long as the database serves every statement: a reply belongs to one
  thread, a thread is no reply, the reply count of a thread is the number of its replies that have not been deleted, at any
  depth, and like counts are the numbers of like rows.
\<close>

theorem reply_counts_stay_exact:
  assumes "\<forall>(w, e, r, req, res) \<in> set rs. \<forall>k. healthy (e k)" and "discussions_ok s"
  shows "discussions_ok (fold (\<lambda>(w, e, r, req, res) s. snd (snd (discussion_route_handler w e r req res s))) rs s)"
  using assms
proof (induction rs arbitrary: s)
  case (Cons q rs)
  obtain w e r req res where q: "q = (w, e, r, req, res)" by (cases q) auto
  have "discussions_ok (snd (snd (discussion_route_handler w e r req res s)))"
    using Cons.prems unfolding q by (intro discussion_route_ok) auto
  then show ?case using Cons.IH [of "snd (snd (discussion_route_handler w e r req res s))"] Cons.prems(1) by (simp add: q)
qed simp

definition one_thread :: discussion where
  "one_thread = \<lparr>di_id = 1, di_user_id = 7, di_problem_id = None, di_parent_id = None, di_root_id = None, di_title = Some ''hello'',
     di_content = ''world'', di_like_count = 0, di_reply_count = 0, di_created_at = [], di_updated_at = [], di_is_deleted = False, di_time = 1\<rparr>"

definition thread_db :: discussion_db where
  "thread_db = \<lparr>cm_users = \<lparr>ud_users = [alice [], demo_user 8 ''bob'' None], ud_next = 9, ud_history = []\<rparr>, cm_problems = one_problem,
     cm_notes = [], cm_note_next = 1, cm_channels = Map.empty, dd_rows = [one_thread], dd_next = 2, dd_likes = []\<rparr>"

definition thread_web :: web_env where
  "thread_web = demo_web ''user'' (JObj [(''content'', JStr ''me too'')])"

theorem reply_counts_stay_exact_witness:
  "let s = fold (\<lambda>(w, e, r, req, res) s. snd (snd (discussion_route_handler w e r req res s)))
     [(thread_web, \<lambda>_. demo_com, RtReply (Some ''1''), web_req, demo_res), (thread_web, \<lambda>_. demo_com, RtReply (Some ''2''), web_req, demo_res)] thread_db
   in discussions_ok s \<and> map di_root_id (dd_rows s) = [None, Some 1, Some 1] \<and> map di_reply_count (dd_rows s) = [2, 0, 0]"
proof -
  let ?rs = "[(thread_web, \<lambda>_. demo_com, RtReply (Some ''1''), web_req, demo_res), (thread_web, \<lambda>_. demo_com, RtReply (Some ''2''), web_req, demo_res)]"
  have "discussions_ok thread_db"
    by (simp add: discussions_ok_def tree_ok_def nodes_def node_of_def live_replies_def dis.exact_def discussion_counters_def like_total_def
        thread_db_def one_thread_def)
  then have "discussions_ok (fold (\<lambda>(w, e, r, req, res) s. snd (snd (discussion_route_handler w e r req res s))) ?rs thread_db)"
    by (intro reply_counts_stay_exact) (auto simp: demo_com_healthy)
  moreover have "map (\<lambda>r. (di_root_id r, di_reply_count r))
      (dd_rows (fold (\<lambda>(w, e, r, req, res) s. snd (snd (discussion_route_handler w e r req res s))) ?rs thread_db)) = [(None, 2), (Some 1, 0), (Some 1, 0)]"
    by code_simp
  ultimately show ?thesis unfolding Let_def by (auto dest: arg_cong [where f = "map fst"] arg_cong [where f = "map snd"] simp: comp_def)
qed

section \<open>Who deletes\<close>

definition alive :: "discussion_db \<Rightarrow> int set" where
  "alive s = di_id ` {r \<in> set (dd_rows s). \<not> di_is_deleted r}"

lemma alive_alt: "i \<in> alive s \<longleftrightarrow> (i, False) \<in> set (map (\<lambda>r. (di_id r, di_is_deleted r)) (dd_rows s))"
  by (auto simp: alive_def)

lemma alive_create: "i \<in> alive s \<Longrightarrow> i \<in> alive (snd (create_discussion v d s))"
  by (auto simp: create_discussion_def on_conn_def alive_def split: option.splits if_splits)

lemma alive_count: "i \<in> alive (snd (increment_reply_count v j s)) \<longleftrightarrow> i \<in> alive s" "i \<in> alive (snd (decrement_reply_count v j s)) \<longleftrightarrow> i \<in> alive s"
proof -
  have "map (\<lambda>r. (di_id r, di_is_deleted r)) (set_discussion v j (\<lambda>r. r\<lparr>di_reply_count := g (di_reply_count r)\<rparr>) (dd_rows s))
    = map (\<lambda>r. (di_id r, di_is_deleted r)) (dd_rows s)" for g by (rule set_discussion_same) simp_all
  note same = this [of "\<lambda>k. k + 1"] this [of "\<lambda>k. max (k - 1) 0"]
  show "i \<in> alive (snd (increment_reply_count v j s)) \<longleftrightarrow> i \<in> alive s" "i \<in> alive (snd (decrement_reply_count v j s)) \<longleftrightarrow> i \<in> alive s"
    unfolding increment_reply_count_def decrement_reply_count_def
    by (rule execute_snd [where Q = "\<lambda>t. i \<in> alive t \<longleftrightarrow> i \<in> alive s"], simp, simp add: alive_alt same del: set_map)+
qed

lemma alive_like: "i \<in> alive (snd (toggle_discussion_like v j u s)) \<longleftrightarrow> i \<in> alive s"
  unfolding alive_alt by (subst toggle_discussion_same) simp_all

lemma alive_notice: "i \<in> alive (snd (reply_notice w e r j u s)) \<longleftrightarrow> i \<in> alive s"
  using reply_notice_threads [of w e r j u s] by (simp add: threads_def alive_def)

lemma alive_find: "snd (find_discussion v j s) = s"
  by (simp add: find_discussion_def query_keeps)

lemma alive_delete: "i \<noteq> j \<Longrightarrow> i \<in> alive s \<Longrightarrow> i \<in> alive (snd (soft_delete_discussion v j s))"
  unfolding soft_delete_discussion_def by (rule execute_snd [where Q = "\<lambda>t. i \<in> alive t"]) (auto simp: alive_def set_discussion_def image_iff)

lemma delete_spares:
  assumes a: "require_authentication (wv_lib w) (wv_verify1 w) (wv_verify2 w) req (wv_jwt w) = Inr c" and u: "stoi (user_id c) = Some u"
    and no: "u \<noteq> di_user_id x" "role c \<noteq> ''admin''" and d: "distinct (map di_id (dd_rows s))" and x: "x \<in> set (dd_rows s)" "\<not> di_is_deleted x"
  shows "di_id x \<in> alive (snd (snd (handle_delete_discussion w e m req res s)))"
proof -
  have start: "di_id x \<in> alive s" using x by (auto simp: alive_def)
  have spare: "di_id x \<in> alive (snd (snd (web_call (soft_delete_discussion (e k) (matched_id m) s) (\<lambda>_ s.
         case di_parent_id r of
           None \<Rightarrow> web_ok w f res s
         | Some p \<Rightarrow> web_call (decrement_reply_count (e k') (case di_root_id r of Some j \<Rightarrow> j | None \<Rightarrow> p) s) (\<lambda>_ s. web_ok w f res s) res) res)))"
    if "di_id x \<noteq> matched_id m" for r :: DiscussionRow and f k k'
    using alive_delete [OF that start]
    by (auto simp: alive_count split: option.splits intro!: web_call_snd [where Q = "\<lambda>t. di_id x \<in> alive t"])
  have only: "y = x" if "y \<in> set (dd_rows s)" "di_id y = di_id x" for y
    using d x(1) that by (auto simp: distinct_map dest: inj_onD)
  show ?thesis unfolding handle_delete_discussion_def web_auth_def a sum.case web_user_def u option.case
  proof (rule with_discussion_snd [where Q = "\<lambda>t. di_id x \<in> alive t"])
    fix y assume y: "y \<in> set (dd_rows s)" "di_id y = matched_id m" "\<not> di_is_deleted y"
    have "di_id x \<noteq> matched_id m" if "u = di_user_id y" using only [OF y(1)] y(2) that no(1) by auto
    then show "di_id x \<in> alive (snd (snd (if u \<noteq> di_user_id (DiscussionRow.truncate y) \<and> role c \<noteq> ''admin''
        then web_error w 403 FORBIDDEN ''not authorized to delete this discussion'' res s
        else web_call (soft_delete_discussion (e 1) (matched_id m) s) (\<lambda>_ s.
         case di_parent_id (DiscussionRow.truncate y) of
           None \<Rightarrow> web_ok w (JObj [(''deleted'', JBool True)]) res s
         | Some p \<Rightarrow> web_call (decrement_reply_count (e 2) (case di_root_id (DiscussionRow.truncate y) of Some j \<Rightarrow> j | None \<Rightarrow> p) s) (\<lambda>_ s.
             web_ok w (JObj [(''deleted'', JBool True)]) res s) res) res)))"
      using spare [where k = 1 and k' = 2 and r = "DiscussionRow.truncate y" and f = "JObj [(''deleted'', JBool True)]"] no(2) start
      by (cases "u = di_user_id y") (simp_all del: One_nat_def dtruncated(3,4))
  qed (rule start)
qed

text \<open>What the other requests keep.\<close>

lemma other_routes_spare:
  assumes start: "i \<in> alive s" and r: "\<And>m. r \<noteq> RtDeleteThread m"
  shows "i \<in> alive (snd (snd (discussion_route_handler w e r req res s)))"
proof -
  note paths = web_auth_snd [where Q = "\<lambda>t. i \<in> alive t"] web_user_snd [where Q = "\<lambda>t. i \<in> alive t"] with_string_snd [where Q = "\<lambda>t. i \<in> alive t"]
    with_content_snd [where Q = "\<lambda>t. i \<in> alive t"] with_problem_snd [where Q = "\<lambda>t. i \<in> alive t"]
    with_discussion_snd [where Q = "\<lambda>t. i \<in> alive t"] web_call_snd [where Q = "\<lambda>t. i \<in> alive t"]
  note facts = start alive_create alive_count alive_like alive_notice alive_find
  show ?thesis
  proof (cases r)
    case (RtProblemThreads path ps)
    show ?thesis unfolding RtProblemThreads discussion_route_handler.simps plain_guard_state handle_list_problem_discussions_def
      by (auto simp: facts list_threads_state intro!: paths(5))
  next
    case (RtNewProblemThread path)
    show ?thesis unfolding RtNewProblemThread discussion_route_handler.simps plain_guard_state handle_create_problem_discussion_def
      by (auto simp: facts intro!: paths)
  next
    case RtNewThread
    show ?thesis unfolding RtNewThread discussion_route_handler.simps plain_guard_state handle_create_global_discussion_def
      by (auto simp: facts intro!: paths split: option.splits)
  next
    case (RtReply m)
    show ?thesis unfolding RtReply discussion_route_handler.simps plain_guard_state handle_reply_discussion_def
      by (auto simp: facts intro!: paths)
  next
    case (RtLikeThread m)
    show ?thesis unfolding RtLikeThread discussion_route_handler.simps plain_guard_state handle_like_discussion_def
      by (auto simp: facts intro!: paths)
  next
    case (RtCountThreads path)
    show ?thesis unfolding RtCountThreads discussion_route_handler.simps plain_guard_state handle_count_problem_discussions_def count_discussions_def
      by (auto simp: start Let_def intro!: query_call_snd [where Q = "\<lambda>t. i \<in> alive t"])
  qed (use start r in \<open>auto simp: plain_guard_state get_discussion_state handle_list_global_discussions_def list_threads_state\<close>)
qed

text \<open>
  C22. A thread or a reply disappears only in a request of an authenticated user who wrote it or is an administrator,
  whatever the request and however the database behaves.
\<close>

theorem threads_deleted_by_owner:
  assumes "discussion_route_handler w e r req res s = (y, res', t)" and d: "distinct (map di_id (dd_rows s))"
    and x: "x \<in> set (dd_rows s)" "\<not> di_is_deleted x" and gone: "di_id x \<notin> alive t"
  shows "\<exists>c u. require_authentication (wv_lib w) (wv_verify1 w) (wv_verify2 w) req (wv_jwt w) = Inr c \<and> stoi (user_id c) = Some u
    \<and> (u = di_user_id x \<or> role c = ''admin'')"
proof (cases r)
  case (RtDeleteThread m)
  have t: "t = snd (snd (handle_delete_discussion w e m req res s))" using assms(1) RtDeleteThread plain_guard_state [of w] by (metis discussion_route_handler.simps(8) snd_conv)
  have start: "di_id x \<in> alive s" using x by (auto simp: alive_def)
  obtain c where c: "require_authentication (wv_lib w) (wv_verify1 w) (wv_verify2 w) req (wv_jwt w) = Inr c"
    using gone start by (cases "require_authentication (wv_lib w) (wv_verify1 w) (wv_verify2 w) req (wv_jwt w)")
      (simp_all add: t handle_delete_discussion_def web_auth_def)
  have "stoi (user_id c) \<noteq> None"
  proof
    assume n: "stoi (user_id c) = None"
    have "di_id x \<in> alive t" unfolding t handle_delete_discussion_def web_auth_def c sum.case web_user_def n option.case
      using start by (intro with_discussion_snd [where Q = "\<lambda>t. di_id x \<in> alive t"]) simp_all
    then show False using gone by simp
  qed
  then obtain u where u: "stoi (user_id c) = Some u" by blast
  show ?thesis using delete_spares [OF c u _ _ d x, of e m res] gone c u by (auto simp: t)
qed (use gone other_routes_spare [of "di_id x" s r w e req res] x assms(1) in \<open>auto simp: alive_def\<close>)

theorem threads_deleted_by_owner_witness:
  "di_id one_thread \<notin> alive (snd (snd (discussion_route_handler thread_web (\<lambda>_. demo_com) (RtDeleteThread (Some ''1'')) web_req demo_res thread_db)))
   \<and> (\<exists>c. require_authentication (wv_lib thread_web) (wv_verify1 thread_web) (wv_verify2 thread_web) web_req (wv_jwt thread_web) = Inr c)"
proof -
  let ?h = "discussion_route_handler thread_web (\<lambda>_. demo_com) (RtDeleteThread (Some ''1'')) web_req demo_res thread_db"
  have "map di_is_deleted (dd_rows (snd (snd ?h))) = [True]" by code_simp
  then have gone: "di_id one_thread \<notin> alive (snd (snd ?h))" by (auto simp: alive_def)
  have h: "?h = (fst ?h, fst (snd ?h), snd (snd ?h))" by simp
  show ?thesis using threads_deleted_by_owner [OF h _ _ _ gone] gone by (auto simp: thread_db_def one_thread_def)
qed

end
