(* ===== verification/Problem_Routes.thy ===== *)
theory Problem_Routes
  imports Web Tag_Repo Submission_Routes
begin

text \<open>
  \<^verbatim>\<open>src/routes/problem_routes.h\<close> and \<^verbatim>\<open>src/routes/tag_routes.h\<close>: the public pages of the problem set: a list with filters, one problem
  with its samples, the neighbours of a problem, and the tags.

  The tables are the ones of \<open>Tag_Repo\<close> and \<open>Submission_Repo\<close>. \<open>e k\<close> is what the database does in the \<open>k\<close>-th repository call
  of a handler, \<open>ps\<close> the query parameters, \<open>path\<close> the path of the request. Log lines are left out.

  Main results: what the public routes answer does not depend on deleted problems nor on test cases that are no samples; the
  neighbours of a problem are missing when a hundred others come before it.
\<close>

section \<open>Parameters\<close>

definition parse_int_param :: "int \<Rightarrow> int \<Rightarrow> string \<Rightarrow> int option" where
  "parse_int_param lo hi raw =
     (if raw = [] \<or> isspace (hd raw) \<or> isspace (last raw) then None
      else case stoi_all raw of None \<Rightarrow> None | Some k \<Rightarrow> if k < lo \<or> k > hi then None else Some k)"

definition parse_difficulty_param :: "string \<Rightarrow> string option" where
  "parse_difficulty_param raw = (if raw \<in> {''easy'', ''medium'', ''hard''} then Some raw else None)"

definition ci_eq :: "string \<Rightarrow> string \<Rightarrow> bool" where
  "ci_eq a b \<longleftrightarrow> length a = length b \<and> list_all2 (\<lambda>x y. tolower x = tolower y) a b"

definition parse_bool_param :: "string \<Rightarrow> bool option" where
  "parse_bool_param raw =
     (if raw = [] then None
      else if ci_eq raw ''true'' \<or> ci_eq raw ''1'' \<or> ci_eq raw ''yes'' then Some True
      else if ci_eq raw ''false'' \<or> ci_eq raw ''0'' \<or> ci_eq raw ''no'' then Some False
      else None)"

definition clamp_pagination :: "int \<times> int \<Rightarrow> int \<times> int" where
  "clamp_pagination lo =
     (let limit = fst lo; limit = (if limit \<le> 0 then 20 else limit); limit = (if limit > 100 then 100 else limit)
      in (limit, if snd lo < 0 then 0 else snd lo))"

abbreviation (input) int_max :: int where
  "int_max \<equiv> 2147483647"

text \<open>A parameter: absent, read, or refused with the message.\<close>

definition param :: "params \<Rightarrow> string \<Rightarrow> (string \<Rightarrow> 'a option) \<Rightarrow> string \<Rightarrow> (string \<times> string \<times> string) + 'a option" where
  "param ps field parse msg =
     (case ps field of
        None \<Rightarrow> Inr None
      | Some raw \<Rightarrow> (case parse raw of None \<Rightarrow> Inl (field, msg, raw) | Some x \<Rightarrow> Inr (Some x)))"

definition parse_list_query :: "params \<Rightarrow> (string \<times> string \<times> string) + ProblemListFilter" where
  "parse_list_query ps =
     (case param ps ''difficulty'' parse_difficulty_param ''difficulty must be one of: easy, medium, hard'' of Inl e \<Rightarrow> Inl e | Inr difficulty \<Rightarrow>
      case param ps ''tag_id'' (parse_int_param 1 int_max) ''tag_id must be a positive integer'' of Inl e \<Rightarrow> Inl e | Inr tag \<Rightarrow>
      case param ps ''limit'' (parse_int_param 1 int_max) ''limit must be a positive integer'' of Inl e \<Rightarrow> Inl e | Inr limit \<Rightarrow>
      case param ps ''offset'' (parse_int_param 0 int_max) ''offset must be a non-negative integer'' of Inl e \<Rightarrow> Inl e | Inr offset \<Rightarrow>
      case param ps ''include_deleted'' parse_bool_param ''include_deleted must be one of: true, false, 1, 0, yes, no'' of Inl e \<Rightarrow> Inl e | Inr _ \<Rightarrow>
      let (limit, offset) = clamp_pagination (case limit of None \<Rightarrow> 20 | Some k \<Rightarrow> k, case offset of None \<Rightarrow> 0 | Some k \<Rightarrow> k) in
      Inr \<lparr>pf_include_deleted = False, pf_difficulty = difficulty, pf_tag_id = tag, pf_limit = limit, pf_offset = offset\<rparr>)"

definition parse_slug_param :: "string \<Rightarrow> string option" where
  "parse_slug_param raw =
     (if raw = [] \<or> \<not> validate_path_component_len raw \<or> contains_str ''..'' raw \<or> has_control_chars raw \<or> has_html_special_chars raw
         \<or> has_json_special_chars raw \<or> isl (validate_slug raw)
      then None else Some raw)"

definition extract_slug_from_path :: "string \<Rightarrow> string option" where
  "extract_slug_from_path path =
     (let pre = ''/api/v1/problems/'' in
      if length path \<le> length pre \<or> take (length pre) path \<noteq> pre then None else parse_slug_param (drop (length pre) path))"

section \<open>Documents\<close>

definition serialize_problem_row :: "ProblemRow \<Rightarrow> json" where
  "serialize_problem_row p =
     JObj [(''id'', JInt (p_id p)), (''slug'', JStr (p_slug p)), (''title'', JStr (p_title p)), (''difficulty'', JStr (p_difficulty p)),
           (''time_limit'', JInt (p_time_limit p)), (''memory_limit'', JInt (p_memory_limit p)),
           (''accepted_count'', JInt (p_accepted_count p)), (''submission_count'', JInt (p_submission_count p)),
           (''created_at'', JStr (p_created_at p)), (''updated_at'', JStr (p_updated_at p))]"

definition serialize_sample :: "SampleCaseRow \<Rightarrow> json" where
  "serialize_sample c = JObj [(''input'', JStr (sc_input c)), (''output'', JStr (sc_expected_output c)), (''judge_type'', JStr (sc_judge_type c))]"

definition serialize_problem_detail :: "ProblemRow \<Rightarrow> TagRow list \<Rightarrow> SampleCaseRow list \<Rightarrow> bool \<Rightarrow> json" where
  "serialize_problem_detail p tags samples has_special_judge =
     JObj [(''id'', JInt (p_id p)), (''slug'', JStr (p_slug p)), (''title'', JStr (p_title p)), (''difficulty'', JStr (p_difficulty p)),
           (''description'', JStr (p_description p)), (''template'', JStr (p_template p)), (''time_limit'', JInt (p_time_limit p)),
           (''memory_limit'', JInt (p_memory_limit p)), (''accepted_count'', JInt (p_accepted_count p)),
           (''submission_count'', JInt (p_submission_count p)),
           (''tags'', JArr (map (\<lambda>t. JObj [(''id'', JInt (t_id t)), (''name'', JStr (t_name t))]) tags)),
           (''samples'', JArr (map serialize_sample samples)), (''has_special_judge'', JBool has_special_judge),
           (''created_at'', JStr (p_created_at p)), (''updated_at'', JStr (p_updated_at p))]"

definition serialize_tag_with_count :: "TagWithCount \<Rightarrow> json" where
  "serialize_tag_with_count t =
     JObj [(''id'', JInt (t_id (tw_tag t))), (''name'', JStr (t_name (tw_tag t))), (''problem_count'', JInt (tw_problem_count t))]"

section \<open>Handlers\<close>

record site =
  si_tags :: tag_db
  si_subs :: table
  si_limiter :: limiter

definition with_limit ::
    "web_env \<Rightarrow> int \<Rightarrow> RateLimitQuota \<Rightarrow> http_request \<Rightarrow> (http_response \<Rightarrow> 'c site_scheme \<Rightarrow> 'c site_scheme web_result) \<Rightarrow> http_response
       \<Rightarrow> 'c site_scheme \<Rightarrow> 'c site_scheme web_result" where
  "with_limit w now q req k res s =
     (case consume_rate_limit (wv_parse w) now res req (si_limiter s) q of
        (Limited e, res, m) \<Rightarrow> (Inl (ThrowsApi e), res, s\<lparr>si_limiter := m\<rparr>)
      | (UndefinedConversion, res, m) \<Rightarrow> (Inl UndefinedBehaviour, res, s\<lparr>si_limiter := m\<rparr>)
      | (Passes, res, m) \<Rightarrow> k res (s\<lparr>si_limiter := m\<rparr>))"

text \<open>A repository call inside the \<^verbatim>\<open>try\<close> block that answers 500.\<close>

definition or_internal :: "web_env \<Rightarrow> ('e \<Rightarrow> string) \<Rightarrow> 'e + 'a \<Rightarrow> ('a \<Rightarrow> 's web_result) \<Rightarrow> http_response \<Rightarrow> 's \<Rightarrow> 's web_result" where
  "or_internal w what r k res s =
     (case r of Inl e \<Rightarrow> web_error w 500 INTERNAL_ERROR (''internal error: '' @ what e) res s | Inr x \<Rightarrow> k x)"

fun tag_error_what :: "tag_error \<Rightarrow> string" where
  "tag_error_what (TagRepoError m) = m"
| "tag_error_what (TagNotFoundError m) = m"
| "tag_error_what (TagAlreadyExistsError m) = m"
| "tag_error_what (TagMysqlxError m) = m"
| "tag_error_what (TagPoolError m) = m"

definition list_problems_handler ::
    "(string \<Rightarrow> int) \<Rightarrow> web_env \<Rightarrow> (nat \<Rightarrow> tag_env) \<Rightarrow> RateLimitConfig \<Rightarrow> int \<Rightarrow> params \<Rightarrow> http_request \<Rightarrow> http_response \<Rightarrow> 'c site_scheme
       \<Rightarrow> 'c site_scheme web_result" where
  "list_problems_handler time_of w e cfg now ps req res s =
     with_limit w now (problems_public_quota cfg) req (\<lambda>res s.
       case parse_list_query ps of
         Inl (field, msg, raw) \<Rightarrow> web_error_with w 400 INVALID_INPUT msg (JObj [(''field'', JStr field), (''value'', JStr raw)]) res s
       | Inr f \<Rightarrow> or_internal w problem_error_what (list_problems time_of (e 0) (e 1) f (si_subs s) (td_pd (si_tags s))) (\<lambda>r.
           web_ok w (JObj [(''items'', JArr (map serialize_problem_row (pl_items r))), (''total'', JInt (pl_total r)),
                           (''limit'', JInt (pl_limit r)), (''offset'', JInt (pl_offset r))]) res s) res s) res s"

definition bad_slug :: "web_env \<Rightarrow> string \<Rightarrow> http_response \<Rightarrow> 's \<Rightarrow> 's web_result" where
  "bad_slug w path res s =
     web_error_with w 400 INVALID_INPUT (''slug must be 1-100 chars of [a-z0-9-], not starting or ending with '' @ [quote, CHR ''-'', quote])
       (JObj [(''field'', JStr ''slug''), (''value'', JStr path)]) res s"

definition no_problem :: "web_env \<Rightarrow> string \<Rightarrow> http_response \<Rightarrow> 's \<Rightarrow> 's web_result" where
  "no_problem w slug res s = web_error_with w 404 NOT_FOUND ''problem not found'' (JObj [(''slug'', JStr slug)]) res s"

definition get_problem_detail_handler ::
    "web_env \<Rightarrow> (nat \<Rightarrow> tag_env) \<Rightarrow> RateLimitConfig \<Rightarrow> int \<Rightarrow> string \<Rightarrow> http_request \<Rightarrow> http_response \<Rightarrow> 'c site_scheme \<Rightarrow> 'c site_scheme web_result" where
  "get_problem_detail_handler w e cfg now path req res s =
     with_limit w now (problems_public_quota cfg) req (\<lambda>res s.
       case extract_slug_from_path path of
         None \<Rightarrow> bad_slug w path res s
       | Some slug \<Rightarrow> or_internal w problem_error_what (find_problem_by_slug (e 0) slug False (si_subs s) (td_pd (si_tags s))) (\<lambda>r.
           case r of
             None \<Rightarrow> no_problem w slug res s
           | Some p \<Rightarrow>
               or_internal w tag_error_what (list_tags_for_problem (e 1) (p_id p) (si_tags s)) (\<lambda>tags.
               or_internal w problem_error_what (list_samples_for_problem (e 2) (p_id p) (td_pd (si_tags s))) (\<lambda>samples.
               or_internal w problem_error_what (judge_exists (e 3) (p_id p) (td_pd (si_tags s))) (\<lambda>b.
                 web_ok w (serialize_problem_detail p tags samples b) res s) res s) res s) res s) res s) res s"

text \<open>The place of a problem in the list, and its neighbours.\<close>

definition neighbours :: "int \<Rightarrow> ProblemRow list \<Rightarrow> ProblemRow option \<times> ProblemRow option" where
  "neighbours i ps =
     (let k = length (takeWhile (\<lambda>p. p_id p \<noteq> i) ps) in
      if k < length ps then (if k > 0 then Some (ps ! (k - 1)) else None, if k + 1 < length ps then Some (ps ! (k + 1)) else None)
      else (None, None))"

definition link_json :: "ProblemRow option \<Rightarrow> json" where
  "link_json p = (case p of None \<Rightarrow> JNull | Some p \<Rightarrow> JObj [(''slug'', JStr (p_slug p)), (''title'', JStr (p_title p))])"

definition navigation_slug :: "string \<Rightarrow> string option" where
  "navigation_slug path =
     (let pre = ''/api/v1/problems/''; suf = ''/navigation'' in
      if length path \<le> length pre + length suf then None
      else let s = drop (length pre) path in
           Some (if length s \<ge> length suf \<and> drop (length s - length suf) s = suf then take (length s - length suf) s else s))"

definition all_filter :: ProblemListFilter where
  "all_filter = \<lparr>pf_include_deleted = False, pf_difficulty = None, pf_tag_id = None, pf_limit = 1000, pf_offset = 0\<rparr>"

definition handle_problem_navigation ::
    "(string \<Rightarrow> int) \<Rightarrow> web_env \<Rightarrow> (nat \<Rightarrow> tag_env) \<Rightarrow> RateLimitConfig \<Rightarrow> int \<Rightarrow> string \<Rightarrow> http_request \<Rightarrow> http_response \<Rightarrow> 'c site_scheme
       \<Rightarrow> 'c site_scheme web_result" where
  "handle_problem_navigation time_of w e cfg now path req res s =
     with_limit w now (problems_public_quota cfg) req (\<lambda>res s.
       case navigation_slug path of
         None \<Rightarrow> web_error w 400 INVALID_INPUT ''invalid path'' res s
       | Some slug \<Rightarrow>
         if slug = [] then web_error w 400 INVALID_INPUT ''invalid slug'' res s
         else case find_problem_by_slug (e 0) slug False (si_subs s) (td_pd (si_tags s)) of
           Inl x \<Rightarrow> (Inl (ThrowsStd (problem_error_what x)), res, s)
         | Inr None \<Rightarrow> web_error w 404 NOT_FOUND ''problem not found'' res s
         | Inr (Some p) \<Rightarrow>
             (case list_problems time_of (e 1) (e 2) all_filter (si_subs s) (td_pd (si_tags s)) of
                Inl x \<Rightarrow> (Inl (ThrowsStd (problem_error_what x)), res, s)
              | Inr r \<Rightarrow>
                  let (a, b) = neighbours (p_id p) (pl_items r) in
                  web_ok w (JObj [(''prev'', link_json a), (''next'', link_json b)]) res s)) res s"

definition list_tags_handler :: "web_env \<Rightarrow> (nat \<Rightarrow> tag_env) \<Rightarrow> http_response \<Rightarrow> 'c site_scheme \<Rightarrow> 'c site_scheme web_result" where
  "list_tags_handler w e res s =
     or_internal w tag_error_what (list_with_count (e 0) True (si_tags s)) (\<lambda>ts.
       web_ok w (JObj [(''items'', JArr (map serialize_tag_with_count ts)), (''total'', JInt (int (length ts)))]) res s) res s"

datatype problem_route = RtProblems params | RtProblem string | RtNavigation string | RtTags

fun problem_route_handler ::
    "(string \<Rightarrow> int) \<Rightarrow> web_env \<Rightarrow> (nat \<Rightarrow> tag_env) \<Rightarrow> RateLimitConfig \<Rightarrow> int \<Rightarrow> problem_route \<Rightarrow> http_request \<Rightarrow> http_response \<Rightarrow> 'c site_scheme
       \<Rightarrow> 'c site_scheme web_result" where
  "problem_route_handler time_of w e cfg now (RtProblems ps) req res s = web_guard w (list_problems_handler time_of w e cfg now ps req res s)"
| "problem_route_handler time_of w e cfg now (RtProblem path) req res s = web_guard w (get_problem_detail_handler w e cfg now path req res s)"
| "problem_route_handler time_of w e cfg now (RtNavigation path) req res s = web_guard w (handle_problem_navigation time_of w e cfg now path req res s)"
| "problem_route_handler time_of w e cfg now RtTags req res s = web_guard w (list_tags_handler w e res s)"

section \<open>What the public sees\<close>

text \<open>The site without what the public pages may not show: deleted problems and hidden test cases.\<close>

definition public_tags :: "tag_db \<Rightarrow> tag_db" where
  "public_tags d = d\<lparr>td_pd := (td_pd d)\<lparr>pd_problems := filter (\<lambda>p. \<not> p_is_deleted p) (pd_problems (td_pd d)),
     pd_cases := filter tr_is_sample (pd_cases (td_pd d))\<rparr>\<rparr>"

definition public_site :: "'c site_scheme \<Rightarrow> 'c site_scheme" where
  "public_site s = s\<lparr>si_tags := public_tags (si_tags s)\<rparr>"

lemma public_tags_simps [simp]:
  "td_tags (public_tags d) = td_tags d" "links (public_tags d) = links d"
  "pd_problem_tags (td_pd (public_tags d)) = pd_problem_tags (td_pd d)" "pd_judges (td_pd (public_tags d)) = pd_judges (td_pd d)"
  "pd_problems (td_pd (public_tags d)) = filter (\<lambda>p. \<not> p_is_deleted p) (pd_problems (td_pd d))"
  "pd_cases (td_pd (public_tags d)) = filter tr_is_sample (pd_cases (td_pd d))"
  by (simp_all add: public_tags_def links_def)

lemma public_site_simps [simp]:
  "si_tags (public_site s) = public_tags (si_tags s)" "si_subs (public_site s) = si_subs s" "si_limiter (public_site s) = si_limiter s"
  "(public_site s)\<lparr>si_limiter := m\<rparr> = public_site (s\<lparr>si_limiter := m\<rparr>)"
  by (simp_all add: public_site_def)

lemma find_in_filter: "List.find P (filter Q xs) = List.find (\<lambda>x. P x \<and> Q x) xs"
  by (induction xs) simp_all

lemma find_problem_public [simp]:
  "find_problem_by_slug v slug False st (td_pd (public_tags d)) = find_problem_by_slug v slug False st (td_pd d)"
  by (simp add: find_problem_by_slug_def find_in_filter)

lemma problem_match_public:
  "\<not> pf_include_deleted f \<Longrightarrow> filter (problem_match v f (td_pd (public_tags d))) (pd_problems (td_pd (public_tags d)))
     = filter (problem_match v f (td_pd d)) (pd_problems (td_pd d))"
  unfolding public_tags_simps filter_filter
  by (rule filter_cong) (auto simp: problem_match_def split: option.splits)

lemma clamp_keeps [simp]: "pf_include_deleted (clamp_problem_filter f) = pf_include_deleted f"
  by (simp add: clamp_problem_filter_def Let_def)

lemma list_problems_public:
  "\<not> pf_include_deleted f \<Longrightarrow> list_problems time_of v1 v f st (td_pd (public_tags d)) = list_problems time_of v1 v f st (td_pd d)"
  unfolding list_problems_def count_problems_def Let_def by (simp only: problem_match_public clamp_keeps not_False_eq_True)

lemma list_samples_public [simp]:
  "list_samples_for_problem v i (td_pd (public_tags d)) = list_samples_for_problem v i (td_pd d)"
  by (simp add: list_samples_for_problem_def conj_ac)

lemma other_reads_public [simp]:
  "judge_exists v i (td_pd (public_tags d)) = judge_exists v i (td_pd d)"
  "list_tags_for_problem v' i (public_tags d) = list_tags_for_problem v' i d"
  "list_with_count v' True (public_tags d) = list_with_count v' True d"
proof -
  have "is_live (public_tags d) = is_live d" by (rule ext) (auto simp: is_live_def)
  then show "list_with_count v' True (public_tags d) = list_with_count v' True d"
    by (simp add: list_with_count_def tag_uses_def)
qed (simp_all add: judge_exists_def list_tags_for_problem_def)

lemma list_query_live: "parse_list_query ps = Inr f \<Longrightarrow> \<not> pf_include_deleted f"
  by (auto simp: parse_list_query_def Let_def split: sum.splits prod.splits)

text \<open>A result of a handler whose state is replaced.\<close>

definition on_state :: "('s \<Rightarrow> 't) \<Rightarrow> 's web_result \<Rightarrow> 't web_result" where
  "on_state f r = (fst r, fst (snd r), f (snd (snd r)))"

lemma on_state_simps [simp]:
  "on_state f (r, res, s) = (r, res, f s)"
  "on_state f (web_ok w j res s) = web_ok w j res (f s)" "on_state f (web_error w st c m res s) = web_error w st c m res (f s)"
  "on_state f (web_error_with w st c m j res s) = web_error_with w st c m j res (f s)"
  "on_state f (web_guard w h) = web_guard w (on_state f h)"
  by (auto simp: on_state_def web_ok_def web_error_def web_error_with_def web_guard_def split: outcome.splits prod.splits sum.splits handler_exn.splits)

lemma or_internal_public:
  "(\<And>x. r = Inr x \<Longrightarrow> k' x = on_state f (k x)) \<Longrightarrow> or_internal w what r k' res (f s) = on_state f (or_internal w what r k res s)"
  by (simp add: or_internal_def split: sum.splits)

lemma with_limit_public:
  assumes "\<And>res s. k res (public_site s) = on_state public_site (k res s)"
  shows "with_limit w now q req k res (public_site s) = on_state public_site (with_limit w now q req k res s)"
  by (simp add: with_limit_def assms split: prod.splits guard_result.splits)

lemma list_handler_public:
  "list_problems_handler time_of w e cfg now ps req res (public_site s) = on_state public_site (list_problems_handler time_of w e cfg now ps req res s)"
  unfolding list_problems_handler_def
  by (rule with_limit_public) (auto simp: list_query_live list_problems_public intro!: or_internal_public split: sum.splits)

lemma detail_handler_public:
  "get_problem_detail_handler w e cfg now path req res (public_site s) = on_state public_site (get_problem_detail_handler w e cfg now path req res s)"
  unfolding get_problem_detail_handler_def
  by (rule with_limit_public)
    (auto simp: bad_slug_def no_problem_def intro!: or_internal_public split: option.splits)

lemma navigation_public:
  "handle_problem_navigation time_of w e cfg now path req res (public_site s) = on_state public_site (handle_problem_navigation time_of w e cfg now path req res s)"
  unfolding handle_problem_navigation_def
  by (rule with_limit_public) (simp add: list_problems_public all_filter_def split: option.splits sum.splits prod.splits)

lemma tags_handler_public: "list_tags_handler w e res (public_site s) = on_state public_site (list_tags_handler w e res s)"
  unfolding list_tags_handler_def by (simp add: or_internal_public)

text \<open>
  C21. Deleted problems and the test cases that are no samples never show: whatever route of the problem set is asked, with
  whatever parameters and database errors, the answer for a site is the answer for the site without them. So two sites that
  differ in nothing else answer alike, and a deleted problem is answered like one that never was.\<close>

theorem public_routes_hide:
  "problem_route_handler time_of w e cfg now rt req res (public_site s)
     = (case problem_route_handler time_of w e cfg now rt req res s of (r, res', s') \<Rightarrow> (r, res', public_site s'))"
proof -
  have "problem_route_handler time_of w e cfg now rt req res (public_site s)
      = on_state public_site (problem_route_handler time_of w e cfg now rt req res s)"
    by (cases rt) (simp_all add: list_handler_public detail_handler_public navigation_public tags_handler_public)
  then show ?thesis by (simp add: on_state_def split_beta)
qed

section \<open>Neighbours\<close>

text \<open>The order of the listing: later first, and of the same time the one with the greater id.\<close>

definition before :: "('a \<Rightarrow> int) \<Rightarrow> ('a \<Rightarrow> int) \<Rightarrow> 'a \<Rightarrow> 'a \<Rightarrow> bool" where
  "before f g x y \<longleftrightarrow> f x < f y \<or> f x = f y \<and> g x < g y"

lemma insort_before:
  "sorted_wrt (\<lambda>x y. \<not> before f g y x) zs \<Longrightarrow> \<forall>z \<in> set zs. g y \<le> g z \<Longrightarrow> sorted_wrt (\<lambda>x y. \<not> before f g y x) (insort_key f y zs)"
  by (induction zs) (auto simp: before_def set_insort_key)

lemma two_sorts: "sorted_wrt (\<lambda>x y. \<not> before f g y x) (sort_key f (sort_key g xs))"
proof -
  have "sorted_wrt (\<lambda>x y. \<not> before f g y x) (sort_key f ys)" if "sorted (map g ys)" for ys
    using that by (induction ys) (simp_all add: insort_before)
  then show ?thesis by simp
qed

lemma not_in_front:
  assumes "sorted_wrt (\<lambda>x y. \<not> before f g y x) ys" and "n \<le> length (filter (\<lambda>y. before f g y x) ys)"
  shows "x \<notin> set (take n ys)"
proof
  assume "x \<in> set (take n ys)"
  then obtain k where k: "k < n" "k < length ys" "ys ! k = x" by (auto simp: in_set_conv_nth)
  have "\<not> before f g y x" if "y \<in> set (drop k ys)" for y
  proof -
    from that obtain j where "y = ys ! (k + j)" "k + j < length ys" by (auto simp: in_set_conv_nth)
    then show ?thesis using assms(1) k by (cases j) (auto simp: sorted_wrt_iff_nth_less before_def)
  qed
  then have "filter (\<lambda>y. before f g y x) (drop k ys) = []" by (simp add: filter_empty_conv)
  then have "filter (\<lambda>y. before f g y x) ys = filter (\<lambda>y. before f g y x) (take k ys)"
    by (metis append_Nil2 append_take_drop_id filter_append)
  then have "length (filter (\<lambda>y. before f g y x) ys) \<le> k" by (metis length_filter_le length_take min.bounded_iff)
  then show False using k(1) assms(2) by simp
qed

definition live_problems :: "'c site_scheme \<Rightarrow> ProblemRow list" where
  "live_problems s = filter (\<lambda>p. \<not> p_is_deleted p) (pd_problems (td_pd (si_tags s)))"

definition newer :: "(string \<Rightarrow> int) \<Rightarrow> ProblemRow \<Rightarrow> ProblemRow \<Rightarrow> bool" where
  "newer time_of = before (\<lambda>p. - time_of (p_created_at p)) (\<lambda>p. - p_id p)"

definition listing :: "(string \<Rightarrow> int) \<Rightarrow> 'c site_scheme \<Rightarrow> ProblemRow list" where
  "listing time_of s = sort_key (\<lambda>p. - time_of (p_created_at p)) (sort_key (\<lambda>p. - p_id p) (live_problems s))"

lemma healthy_calls [simp]:
  "healthy v \<Longrightarrow> acquired v x = x" "healthy v \<Longrightarrow> sql v k wrap y = Inr y"
  by (simp_all add: healthy_def acquired_def sql_def)

lemma list_all_served:
  assumes "healthy v1" and "healthy v2"
  shows "\<exists>r. list_problems time_of v1 v2 all_filter st (td_pd (si_tags s)) = Inr r
    \<and> pl_items r = map (row_to_problem st) (take 100 (listing time_of s))"
  by (simp add: assms list_problems_def count_problems_def clamp_problem_filter_def all_filter_def Let_def problem_match_def [abs_def]
      listing_def live_problems_def)

lemma neighbours_absent: "i \<notin> p_id ` set ps \<Longrightarrow> neighbours i ps = (None, None)"
proof -
  assume "i \<notin> p_id ` set ps"
  then have "takeWhile (\<lambda>p. p_id p \<noteq> i) ps = ps" by (auto intro!: takeWhile_eq_all_conv [THEN iffD2])
  then show ?thesis by (simp only: neighbours_def Let_def less_irrefl if_False)
qed

lemma row_keeps [simp]: "p_id (row_to_problem st p) = p_id p" "p_slug (row_to_problem st p) = p_slug p" "p_title (row_to_problem st p) = p_title p"
  by (simp_all add: row_to_problem_def)

lemma hundred_newer:
  assumes "distinct (map p_id (pd_problems (td_pd (si_tags s))))" and "p \<in> set (live_problems s)"
    and "100 \<le> length (filter (\<lambda>q. newer time_of q p) (live_problems s))"
  shows "p_id p \<notin> p_id ` set (map (row_to_problem st) (take 100 (listing time_of s)))"
proof
  assume "p_id p \<in> p_id ` set (map (row_to_problem st) (take 100 (listing time_of s)))"
  then obtain q where q: "q \<in> set (take 100 (listing time_of s))" "p_id q = p_id p" by auto
  have m: "mset (listing time_of s) = mset (live_problems s)" by (simp add: listing_def)
  have "q \<in> set (live_problems s)" using in_set_takeD [OF q(1)] m by (metis set_mset_mset)
  then have "q = p" using q(2) assms(1,2) by (auto simp: live_problems_def distinct_map dest: inj_onD)
  moreover have "length (filter (\<lambda>q. newer time_of q p) (listing time_of s)) = length (filter (\<lambda>q. newer time_of q p) (live_problems s))"
    using m by (metis mset_filter size_mset)
  ultimately show False
    using q(1) not_in_front [OF two_sorts, of 100 _ _ p "live_problems s"] assms(3) by (metis listing_def newer_def)
qed

text \<open>
  C39. The neighbours of a problem are looked up in the first hundred of the listing, although a thousand are asked for: when a
  hundred problems are newer, a problem that exists is answered with no previous and no next one.\<close>

theorem navigation_stops_after_100:
  assumes "healthy (e 0)" and "healthy (e 1)" and "healthy (e 2)" 
    and "wv_dump w (make_success_envelope (wv_rid w) (JObj [(''prev'', JNull), (''next'', JNull)])) = Returns t"
    and "navigation_slug path = Some slug" and "slug \<noteq> []"
    and "distinct (map p_id (pd_problems (td_pd (si_tags s))))" and "p \<in> set (live_problems s)"
    and "List.find (\<lambda>q. dv_eq (e 0) (p_slug q) slug) (live_problems s) = Some p"
    and "100 \<le> length (filter (\<lambda>q. newer time_of q p) (live_problems s))"
    and "consume_rate_limit (wv_parse w) now res req (si_limiter s) (problems_public_quota cfg) = (Passes, res1, m)"
  shows "problem_route_handler time_of w e cfg now (RtNavigation path) req res s
    = (Inr (), send_success (wv_rid w) (JObj [(''prev'', JNull), (''next'', JNull)]) res1, s\<lparr>si_limiter := m\<rparr>)"
proof -
  let ?s = "s\<lparr>si_limiter := m\<rparr>"
  have live: "live_problems ?s = live_problems s" "listing time_of ?s = listing time_of s" by (simp_all add: live_problems_def listing_def)
  have f: "find_problem_by_slug (e 0) slug False (si_subs s) (td_pd (si_tags s)) = Inr (Some (row_to_problem (si_subs s) p))"
    using assms(1,9) by (simp add: find_problem_by_slug_def live_problems_def find_in_filter)
  obtain r where r: "list_problems time_of (e 1) (e 2) all_filter (si_subs s) (td_pd (si_tags s)) = Inr r"
    "pl_items r = map (row_to_problem (si_subs s)) (take 100 (listing time_of s))"
    using list_all_served [OF assms(2,3)] by blast
  have "neighbours (p_id p) (pl_items r) = (None, None)"
    unfolding r(2) by (rule neighbours_absent [OF hundred_newer [OF assms(7,8,10)]])
  then show ?thesis using assms(4,5,6,11) f r(1)
    by (simp add: handle_problem_navigation_def with_limit_def web_ok_def link_json_def web_guard_def)
qed

lemma find_last: "P x \<Longrightarrow> \<forall>y \<in> set ys. \<not> P y \<Longrightarrow> List.find P (ys @ [x]) = Some x"
  by (induction ys) simp_all

definition many_problems :: "int \<Rightarrow> site" where
  "many_problems n = \<lparr>si_tags = no_tags\<lparr>td_pd := one_problem\<lparr>pd_problems :=
       map (\<lambda>i. (demo_problem (if i = 1 then ''sum'' else ''other''))\<lparr>p_id := i\<rparr>) (rev [1..n])\<rparr>\<rparr>, si_subs = empty_table, si_limiter = []\<rparr>"

theorem navigation_stops_after_100_witness:
  "fst (snd (problem_route_handler (\<lambda>_. 0) (demo_web ''user'' JNull) (\<lambda>_. tag_demo_env) (sb_rate demo_sub_cfg) 0
      (RtNavigation ''/api/v1/problems/sum/navigation'') demo_req demo_res (many_problems 101)))
     = send_success (wv_rid (demo_web ''user'' JNull)) (JObj [(''prev'', JNull), (''next'', JNull)])
         (fst (snd (consume_rate_limit (wv_parse (demo_web ''user'' JNull)) 0 demo_res demo_req [] (problems_public_quota (sb_rate demo_sub_cfg)))))"
proof -
  let ?c = "consume_rate_limit (wv_parse (demo_web ''user'' JNull)) 0 demo_res demo_req [] (problems_public_quota (sb_rate demo_sub_cfg))"
  let ?p = "(demo_problem ''sum'')\<lparr>p_id := 1\<rparr>"
  let ?j = "make_success_envelope (wv_rid (demo_web ''user'' JNull)) (JObj [(''prev'', JNull), (''next'', JNull)])"
  have "case wv_dump (demo_web ''user'' JNull) ?j of Returns _ \<Rightarrow> True | Throws _ \<Rightarrow> False" by code_simp
  then obtain t where d: "wv_dump (demo_web ''user'' JNull) ?j = Returns t" by (cases "wv_dump (demo_web ''user'' JNull) ?j") simp_all
  have "fst ?c = Passes" by code_simp
  then have c: "consume_rate_limit (wv_parse (demo_web ''user'' JNull)) 0 demo_res demo_req (si_limiter (many_problems 101)) (problems_public_quota (sb_rate demo_sub_cfg)) = (Passes, fst (snd ?c), snd (snd ?c))"
    by (simp add: many_problems_def prod_eq_iff del: upto_rec_numeral)
  have h: "healthy tag_demo_env" by (simp add: healthy_def tag_demo_env_def)
  have s: "navigation_slug ''/api/v1/problems/sum/navigation'' = Some ''sum''" by code_simp
  have i: "distinct (map p_id (pd_problems (td_pd (si_tags (many_problems 101)))))"
    by (simp add: many_problems_def comp_def del: upto_rec_numeral)
  have "[1..101] = 1 # [2..101::int]" using upto_rec1 [of 1 101] by (simp del: upto_rec_numeral)
  then have live: "live_problems (many_problems 101) = map (\<lambda>i. (demo_problem ''other'')\<lparr>p_id := i\<rparr>) (rev [2..101]) @ [?p]"
    by (simp add: live_problems_def many_problems_def demo_problem_def del: upto_rec_numeral)
  have "\<not> no_case ''other'' ''sum''" "no_case ''sum'' ''sum''" by code_simp+
  then have l: "List.find (\<lambda>q. dv_eq tag_demo_env (p_slug q) ''sum'') (live_problems (many_problems 101)) = Some ?p"
    unfolding live by (intro find_last) (auto simp: tag_demo_env_def demo_problem_def simp del: upto_rec_numeral)
  have "filter (\<lambda>i::int. - i < - 1) (rev [2..101]) = rev [2..101]" by (rule filter_True) (simp del: upto_rec_numeral)
  then have n: "100 \<le> length (filter (\<lambda>q. newer (\<lambda>_. 0) q ?p) (live_problems (many_problems 101)))"
    by (simp add: live newer_def before_def filter_map comp_def del: upto_rec_numeral)
  have p: "?p \<in> set (live_problems (many_problems 101))" by (simp add: live del: upto_rec_numeral)
  show ?thesis
    using navigation_stops_after_100 [where e = "\<lambda>_. tag_demo_env", OF h h h d s _ i p l n c] by simp
qed

end
