(* ===== verification/Revisions.thy ===== *)
theory Revisions
  imports Web Tag_Repo
begin

text \<open>
  \<^verbatim>\<open>src/db/problem_revisions_repo.h\<close>: the history of the edits of a problem. The table is a list of rows with the unique key
  (\<^verbatim>\<open>problem_id\<close>, \<^verbatim>\<open>revision_no\<close>) and the foreign keys to problems and users, which are the arguments \<open>has_problem\<close> and \<open>has_user\<close>.
  Recording tries twice when the number is taken; statement \<open>k\<close> is the \<open>k\<close>-th attempt. A number that another session takes between
  reading the maximum and inserting is a fault of the statement with the text of a duplicate key.

  Main results: numbers are unique per problem; as long as nobody forces a number, those of a problem are
  1, 2, and so on in the order of recording, and the latest revision and the pages show them so; one collision is absorbed.
\<close>

section \<open>Entries\<close>

record RevisionEntry =
  re_problem_id :: int
  re_revision_no :: int
  re_editor_id :: "int option"
  re_editor_username :: string
  re_editor_ip :: "string option"
  re_action :: string
  re_slug :: string
  re_title :: string
  re_difficulty :: string
  re_time_limit :: int
  re_memory_limit :: int
  re_description :: string
  re_tags_snapshot :: json
  re_samples_snapshot :: json
  re_summary :: "string option"

record RevisionRow =
  rv_id :: int
  rv_problem_id :: int
  rv_revision_no :: int
  rv_editor_id :: "int option"
  rv_editor_username :: string
  rv_editor_ip :: "string option"
  rv_action :: string
  rv_slug :: string
  rv_title :: string
  rv_difficulty :: string
  rv_time_limit :: int
  rv_memory_limit :: int
  rv_description :: string
  rv_tags_snapshot :: string
  rv_samples_snapshot :: string
  rv_summary :: "string option"
  rv_created_at :: string

record RevisionListFilter =
  rf_problem_id :: int
  rf_limit :: int
  rf_offset :: int

record RevisionListResult =
  rl_items :: "RevisionRow list"
  rl_total :: int
  rl_limit :: int
  rl_offset :: int

datatype revision_error =
    ProblemRevisionsRepoError string
  | ProblemRevisionsConflictError string
  | RevisionPoolError string
  | RevisionOther string

fun revision_error_what :: "revision_error \<Rightarrow> string" where
  "revision_error_what (ProblemRevisionsRepoError m) = m"
| "revision_error_what (ProblemRevisionsConflictError m) = m"
| "revision_error_what (RevisionPoolError m) = m"
| "revision_error_what (RevisionOther m) = m"

section \<open>Validation\<close>

abbreviation (input) kMaxRevisionNo :: int where "kMaxRevisionNo \<equiv> 100000"
abbreviation (input) kMaxRevisionDescriptionLen :: nat where "kMaxRevisionDescriptionLen \<equiv> 16777216"

text \<open>What the validators of names share: a length and no control characters.\<close>

definition check_text :: "string \<Rightarrow> nat \<Rightarrow> nat \<Rightarrow> string \<Rightarrow> string + unit" where
  "check_text what lo hi s =
     (if length s < lo \<or> length s > hi then
        Inl (what @ '' length must be between '' @ to_string (int lo) @ '' and '' @ to_string (int hi))
      else if list_ex control s then Inl (what @ '' must not contain control characters'')
      else Inr ())"

definition validate_revision_no :: "int \<Rightarrow> string + unit" where
  "validate_revision_no n =
     (if n < 0 then Inl ''revision_no must not be negative''
      else if n = 0 then Inr ()
      else if n > kMaxRevisionNo then Inl (''revision_no must be in [1, '' @ to_string kMaxRevisionNo @ ''] or 0 to let the repo allocate MAX+1'')
      else Inr ())"

definition validate_summary :: "string \<Rightarrow> string + unit" where
  "validate_summary s =
     (if length s > 200 then Inl (''summary length must be <= '' @ to_string 200)
      else if list_ex control s then Inl ''summary must not contain control characters''
      else Inr ())"

definition validate_revision_action :: "string \<Rightarrow> string + unit" where
  "validate_revision_action a =
     (if a \<noteq> ''create'' \<and> a \<noteq> ''update''
      then Inl (''action must be '' @ [quote] @ ''create'' @ [quote] @ '' or '' @ [quote] @ ''update'' @ [quote]) else Inr ())"

definition validate_editor_username :: "string \<Rightarrow> string + unit" where
  "validate_editor_username = check_text ''editor_username'' 1 50"

definition validate_revision_slug :: "string \<Rightarrow> string + unit" where
  "validate_revision_slug = check_text ''slug'' 1 100"

definition validate_revision_title :: "string \<Rightarrow> string + unit" where
  "validate_revision_title = check_text ''title'' 1 200"

definition validate_revision_difficulty :: "string \<Rightarrow> string + unit" where
  "validate_revision_difficulty d =
     (if d \<noteq> ''easy'' \<and> d \<noteq> ''medium'' \<and> d \<noteq> ''hard'' then Inl ''difficulty must be one of: easy, medium, hard'' else Inr ())"

definition validate_revision_time_limit :: "int \<Rightarrow> string + unit" where
  "validate_revision_time_limit ms =
     (if ms < 1 \<or> ms > 60000 then Inl (''time_limit must be between '' @ to_string 1 @ '' and '' @ to_string 60000) else Inr ())"

definition validate_revision_memory_limit :: "int \<Rightarrow> string + unit" where
  "validate_revision_memory_limit mb =
     (if mb < 1 \<or> mb > 1024 then Inl (''memory_limit must be between '' @ to_string 1 @ '' and '' @ to_string 1024) else Inr ())"

definition validate_description :: "string \<Rightarrow> string + unit" where
  "validate_description s =
     (if int (length s) < 1 \<or> int (length s) > 16777216 then
        Inl (''description length must be between '' @ to_string 1 @ '' and '' @ to_string 16777216)
      else if list_ex (\<lambda>c. uchar c = 0 \<or> uchar c = 127 \<or> uchar c < 32 \<and> uchar c \<noteq> 9 \<and> uchar c \<noteq> 10 \<and> uchar c \<noteq> 13) s
        then Inl ''description must not contain control characters''
      else Inr ())"

definition validate_editor_ip :: "string \<Rightarrow> string + unit" where
  "validate_editor_ip ip =
     (if ip = [] then Inr ()
      else if length ip > 45 then Inl ''editor_ip length must be <= 45''
      else if list_ex control ip then Inl ''editor_ip must not contain control characters''
      else Inr ())"

text \<open>Validators run in order; the first that fails gives the text.\<close>

fun first_error :: "(string + unit) list \<Rightarrow> string + unit" where
  "first_error [] = Inr ()"
| "first_error (r # rs) = (case r of Inl m \<Rightarrow> Inl m | Inr _ \<Rightarrow> first_error rs)"

definition validate_revision :: "RevisionEntry \<Rightarrow> string + unit" where
  "validate_revision e = first_error
     [validate_revision_action (re_action e), validate_revision_slug (re_slug e), validate_revision_title (re_title e),
      validate_revision_difficulty (re_difficulty e), validate_revision_time_limit (re_time_limit e),
      validate_revision_memory_limit (re_memory_limit e), validate_editor_username (re_editor_username e),
      validate_description (re_description e), opt_check validate_editor_ip (re_editor_ip e), opt_check validate_summary (re_summary e),
      if re_revision_no e \<noteq> 0 then validate_revision_no (re_revision_no e) else Inr ()]"

section \<open>Recording\<close>

record rev_db =
  rd_rows :: "RevisionRow list"
  rd_next :: int

definition revisions_of :: "int \<Rightarrow> rev_db \<Rightarrow> RevisionRow list" where
  "revisions_of pid d = filter (\<lambda>r. rv_problem_id r = pid) (rd_rows d)"

text \<open>\<^verbatim>\<open>COALESCE(MAX(revision_no), 0) + 1\<close>, or the number the entry forces.\<close>

definition revision_number :: "RevisionEntry \<Rightarrow> rev_db \<Rightarrow> int" where
  "revision_number e d =
     (if re_revision_no e > 0 then re_revision_no e
      else (case map rv_revision_no (revisions_of (re_problem_id e) d) of [] \<Rightarrow> 0 | n # ns \<Rightarrow> fold max ns n) + 1)"

definition new_revision :: "'e db_env_scheme \<Rightarrow> string \<Rightarrow> string \<Rightarrow> RevisionEntry \<Rightarrow> rev_db \<Rightarrow> RevisionRow" where
  "new_revision v tags samples e d =
     \<lparr>rv_id = rd_next d, rv_problem_id = re_problem_id e, rv_revision_no = revision_number e d, rv_editor_id = re_editor_id e,
      rv_editor_username = re_editor_username e, rv_editor_ip = re_editor_ip e, rv_action = re_action e, rv_slug = re_slug e,
      rv_title = re_title e, rv_difficulty = re_difficulty e, rv_time_limit = re_time_limit e, rv_memory_limit = re_memory_limit e,
      rv_description = re_description e, rv_tags_snapshot = tags, rv_samples_snapshot = samples, rv_summary = re_summary e,
      rv_created_at = dv_now v\<rparr>"

definition insert_revision ::
    "'e fk_env_scheme \<Rightarrow> nat \<Rightarrow> (int \<Rightarrow> bool) \<Rightarrow> (int \<Rightarrow> bool) \<Rightarrow> string \<Rightarrow> string \<Rightarrow> RevisionEntry \<Rightarrow> rev_db \<Rightarrow> string + rev_db" where
  "insert_revision v k has_problem has_user tags samples e d =
     (case dv_fault v k of
        Some m \<Rightarrow> Inl m
      | None \<Rightarrow>
          if revision_number e d \<in> set (map rv_revision_no (revisions_of (re_problem_id e) d)) then Inl (dv_duplicate v)
          else if \<not> has_problem (re_problem_id e) \<or> \<not> list_all has_user (case re_editor_id e of None \<Rightarrow> [] | Some u \<Rightarrow> [u]) then Inl (fv_foreign_key v)
          else Inr (d\<lparr>rd_rows := rd_rows d @ [new_revision v tags samples e d], rd_next := rd_next d + 1\<rparr>))"

definition record_revision ::
    "(json \<Rightarrow> string outcome) \<Rightarrow> 'e fk_env_scheme \<Rightarrow> (int \<Rightarrow> bool) \<Rightarrow> (int \<Rightarrow> bool) \<Rightarrow> RevisionEntry \<Rightarrow> rev_db
       \<Rightarrow> revision_error + int \<times> rev_db" where
  "record_revision dump v has_problem has_user e d =
     (case validate_revision e of
        Inl m \<Rightarrow> Inl (ProblemRevisionsRepoError (''record: '' @ m))
      | Inr _ \<Rightarrow>
      case dump (re_tags_snapshot e) of
        Throws m \<Rightarrow> Inl (RevisionOther m)
      | Returns tags \<Rightarrow>
      case dump (re_samples_snapshot e) of
        Throws m \<Rightarrow> Inl (RevisionOther m)
      | Returns samples \<Rightarrow>
          if int (length tags) > 16777216 then Inl (ProblemRevisionsRepoError ''record: tags_snapshot serialization exceeds 16MB'')
          else if int (length samples) > 16777216 then Inl (ProblemRevisionsRepoError ''record: samples_snapshot serialization exceeds 16MB'')
          else case dv_acquire v of
            Some m \<Rightarrow> Inl (RevisionPoolError m)
          | None \<Rightarrow>
              (case insert_revision v 0 has_problem has_user tags samples e d of
                 Inr d' \<Rightarrow> Inr (rd_next d, d')
               | Inl what \<Rightarrow>
                   if \<not> is_duplicate_error what then Inl (ProblemRevisionsRepoError (''problem_revisions_repo::record: '' @ what))
                   else case insert_revision v 1 has_problem has_user tags samples e d of
                     Inr d' \<Rightarrow> Inr (rd_next d, d')
                   | Inl what \<Rightarrow>
                       Inl (if is_duplicate_error what
                            then ProblemRevisionsConflictError (''problem_revisions_repo::record: revision_no collision after retry: '' @ what)
                            else ProblemRevisionsRepoError (''problem_revisions_repo::record: '' @ what))))"

definition revision_best_effort ::
    "(json \<Rightarrow> string outcome) \<Rightarrow> 'e fk_env_scheme \<Rightarrow> (int \<Rightarrow> bool) \<Rightarrow> (int \<Rightarrow> bool) \<Rightarrow> RevisionEntry \<Rightarrow> rev_db \<Rightarrow> int \<times> rev_db" where
  "revision_best_effort dump v has_problem has_user e d =
     (case record_revision dump v has_problem has_user e d of Inl _ \<Rightarrow> (0, d) | Inr r \<Rightarrow> r)"

section \<open>Queries\<close>

definition revision_conn :: "'e db_env_scheme \<Rightarrow> revision_error + 'a \<Rightarrow> revision_error + 'a" where
  "revision_conn v body = (case dv_acquire v of Some m \<Rightarrow> Inl (RevisionPoolError m) | None \<Rightarrow> body)"

definition revision_sql :: "'e db_env_scheme \<Rightarrow> nat \<Rightarrow> string \<Rightarrow> 'a \<Rightarrow> revision_error + 'a" where
  "revision_sql v k op r =
     (case dv_fault v k of Some m \<Rightarrow> Inl (ProblemRevisionsRepoError (''problem_revisions_repo::'' @ op @ '': '' @ m)) | None \<Rightarrow> Inr r)"

definition find_revision :: "'e db_env_scheme \<Rightarrow> int \<Rightarrow> rev_db \<Rightarrow> revision_error + RevisionRow option" where
  "find_revision v i d = revision_conn v (revision_sql v 0 ''find_by_id'' (List.find (\<lambda>r. rv_id r = i) (rd_rows d)))"

text \<open>\<^verbatim>\<open>ORDER BY revision_no DESC, id DESC\<close>.\<close>

definition latest_first :: "RevisionRow list \<Rightarrow> RevisionRow list" where
  "latest_first rs = sort_key (\<lambda>r. - rv_revision_no r) (sort_key (\<lambda>r. - rv_id r) rs)"

definition latest_for_problem :: "'e db_env_scheme \<Rightarrow> int \<Rightarrow> rev_db \<Rightarrow> revision_error + RevisionRow option" where
  "latest_for_problem v pid d =
     revision_conn v (revision_sql v 0 ''latest_for_problem''
       (case sort_key (\<lambda>r. - rv_revision_no r) (revisions_of pid d) of [] \<Rightarrow> None | r # _ \<Rightarrow> Some r))"

definition clamp_revision_filter :: "RevisionListFilter \<Rightarrow> RevisionListFilter" where
  "clamp_revision_filter f =
     (let f1 = (if rf_limit f \<le> 0 then f\<lparr>rf_limit := 20\<rparr> else f);
          f2 = (if rf_limit f1 > 100 then f1\<lparr>rf_limit := 100\<rparr> else f1)
      in if rf_offset f2 < 0 then f2\<lparr>rf_offset := 0\<rparr> else f2)"

text \<open>Statement 0 counts, 1 reads the page.\<close>

definition list_revisions :: "'e db_env_scheme \<Rightarrow> RevisionListFilter \<Rightarrow> rev_db \<Rightarrow> revision_error + RevisionListResult" where
  "list_revisions v flt d =
     (let f = clamp_revision_filter flt; rs = revisions_of (rf_problem_id f) d in
      revision_conn v
        (case revision_sql v 0 ''list_for_problem'' (int (length rs)) of
           Inl e \<Rightarrow> Inl e
         | Inr n \<Rightarrow>
             revision_sql v 1 ''list_for_problem''
               \<lparr>rl_items = page (rf_limit f) (rf_offset f) (latest_first rs), rl_total = n, rl_limit = rf_limit f, rl_offset = rf_offset f\<rparr>))"

definition count_revisions :: "'e db_env_scheme \<Rightarrow> int \<Rightarrow> rev_db \<Rightarrow> revision_error + int" where
  "count_revisions v pid d = revision_conn v (revision_sql v 0 ''count_for_problem'' (int (length (revisions_of pid d))))"

definition delete_revisions :: "'e db_env_scheme \<Rightarrow> int \<Rightarrow> rev_db \<Rightarrow> revision_error + rev_db" where
  "delete_revisions v pid d =
     revision_conn v (revision_sql v 0 ''delete_for_problem'' (d\<lparr>rd_rows := filter (\<lambda>r. rv_problem_id r \<noteq> pid) (rd_rows d)\<rparr>))"

section \<open>Histories\<close>

text \<open>The operations that change the table; each has its own database, printing and keys.\<close>

datatype rev_op = RecordRevision RevisionEntry | DeleteRevisions int

record rev_env =
  ro_dump :: "json \<Rightarrow> string outcome"
  ro_db :: fk_env
  ro_has_problem :: "int \<Rightarrow> bool"
  ro_has_user :: "int \<Rightarrow> bool"

fun run_rev_op :: "rev_env \<times> rev_op \<Rightarrow> rev_db \<Rightarrow> rev_db" where
  "run_rev_op (n, RecordRevision e) d = snd (revision_best_effort (ro_dump n) (ro_db n) (ro_has_problem n) (ro_has_user n) e d)"
| "run_rev_op (n, DeleteRevisions pid) d = (case delete_revisions (ro_db n) pid d of Inl _ \<Rightarrow> d | Inr d' \<Rightarrow> d')"

fun forces_number :: "rev_op \<Rightarrow> bool" where
  "forces_number (RecordRevision e) \<longleftrightarrow> re_revision_no e \<noteq> 0"
| "forces_number (DeleteRevisions _) \<longleftrightarrow> False"

definition rev_ids :: "rev_db \<Rightarrow> bool" where
  "rev_ids d \<longleftrightarrow> sorted_wrt (<) (map rv_id (rd_rows d)) \<and> (\<forall>r \<in> set (rd_rows d). rv_id r < rd_next d)"

definition rev_keys :: "rev_db \<Rightarrow> bool" where
  "rev_keys d \<longleftrightarrow> (\<forall>pid. distinct (map rv_revision_no (revisions_of pid d)))"

definition consecutive :: "rev_db \<Rightarrow> bool" where
  "consecutive d \<longleftrightarrow> (\<forall>pid. map rv_revision_no (revisions_of pid d) = [1..int (length (revisions_of pid d))])"

text \<open>Recording either leaves the table or appends one row with a free number.\<close>

lemma insert_revision_Inr:
  "insert_revision v k hp hu tags samples e d = Inr d' \<Longrightarrow>
     d' = d\<lparr>rd_rows := rd_rows d @ [new_revision v tags samples e d], rd_next := rd_next d + 1\<rparr>
     \<and> revision_number e d \<notin> set (map rv_revision_no (revisions_of (re_problem_id e) d))"
  by (auto simp: insert_revision_def split: option.splits if_splits)

lemma record_revision_Inr:
  assumes "record_revision dump v hp hu e d = Inr (i, d')"
  obtains tags samples where "i = rd_next d" "d' = d\<lparr>rd_rows := rd_rows d @ [new_revision v tags samples e d], rd_next := rd_next d + 1\<rparr>"
    "revision_number e d \<notin> set (map rv_revision_no (revisions_of (re_problem_id e) d))"
  using assms by (auto simp: record_revision_def dest!: insert_revision_Inr split: sum.splits outcome.splits if_splits option.splits)

lemma revision_best_effort_cases:
  obtains "snd (revision_best_effort dump v hp hu e d) = d"
  | tags samples where "snd (revision_best_effort dump v hp hu e d)
        = d\<lparr>rd_rows := rd_rows d @ [new_revision v tags samples e d], rd_next := rd_next d + 1\<rparr>"
      "revision_number e d \<notin> set (map rv_revision_no (revisions_of (re_problem_id e) d))"
proof (cases "record_revision dump v hp hu e d")
  case (Inr x)
  then obtain i d' where "record_revision dump v hp hu e d = Inr (i, d')" by (cases x) simp
  then show ?thesis using that(2) by (metis record_revision_Inr revision_best_effort_def snd_conv sum.case(2))
qed (simp add: revision_best_effort_def that(1))

lemma fold_max_upto: "1 \<le> n \<Longrightarrow> (case [1..n] of [] \<Rightarrow> 0 | k # ks \<Rightarrow> fold max ks k) = n"
proof -
  assume n: "1 \<le> (n::int)"
  have "fold max ks k = Max (set (k # ks))" for ks and k :: int by (metis Max.set_eq_fold)
  then have "(case [1..n] of [] \<Rightarrow> 0 | k # ks \<Rightarrow> fold max ks k) = Max (set [1..n])" using n by (cases "[1..n]") (simp_all del: set_upto)
  also have "\<dots> = n" using n by (intro Max_eqI) auto
  finally show ?thesis .
qed

lemma next_number:
  assumes "consecutive d" and "re_revision_no e = 0"
  shows "revision_number e d = int (length (revisions_of (re_problem_id e) d)) + 1"
proof (cases "revisions_of (re_problem_id e) d")
  case (Cons r rs)
  have "map rv_revision_no (revisions_of (re_problem_id e) d) = [1..int (length (revisions_of (re_problem_id e) d))]"
    using assms(1) by (simp add: consecutive_def)
  then show ?thesis using assms(2) fold_max_upto [of "int (length (revisions_of (re_problem_id e) d))"] Cons by (simp add: revision_number_def)
qed (simp add: revision_number_def assms(2))

lemma revisions_of_append:
  "revisions_of pid (d\<lparr>rd_rows := rd_rows d @ [r], rd_next := n\<rparr>) = revisions_of pid d @ (if rv_problem_id r = pid then [r] else [])"
  by (simp add: revisions_of_def)

lemma new_revision_simps [simp]:
  "rv_id (new_revision v t s e d) = rd_next d" "rv_problem_id (new_revision v t s e d) = re_problem_id e"
  "rv_revision_no (new_revision v t s e d) = revision_number e d"
  by (simp_all add: new_revision_def)

lemma delete_revisions_Inr: "delete_revisions v pid d = Inr d' \<Longrightarrow> d' = d\<lparr>rd_rows := filter (\<lambda>r. rv_problem_id r \<noteq> pid) (rd_rows d)\<rparr>"
  by (simp add: delete_revisions_def revision_conn_def revision_sql_def split: option.splits)

lemma revisions_of_delete:
  "revisions_of i (d\<lparr>rd_rows := filter (\<lambda>r. rv_problem_id r \<noteq> pid) (rd_rows d)\<rparr>) = (if i = pid then [] else revisions_of i d)"
  by (auto simp: revisions_of_def intro: filter_cong)

lemma ids_filter: "sorted_wrt (<) (map f rs) \<Longrightarrow> sorted_wrt (<) (map f (filter P rs))" for f :: "'a \<Rightarrow> int"
  by (induction rs) auto

lemma rev_op_ok:
  assumes "rev_ids d" and "rev_keys d"
  shows "rev_ids (run_rev_op x d) \<and> rev_keys (run_rev_op x d)"
proof (cases x)
  case (Pair n op)
  show ?thesis
  proof (cases op)
    case (RecordRevision e)
    show ?thesis
    proof (cases rule: revision_best_effort_cases [of "ro_dump n" "ro_db n" "ro_has_problem n" "ro_has_user n" e d])
      case (2 tags samples)
      then show ?thesis using assms Pair RecordRevision
        by (auto simp: rev_ids_def rev_keys_def revisions_of_append sorted_wrt_append)
    qed (simp add: Pair RecordRevision assms)
  next
    case (DeleteRevisions pid)
    then show ?thesis using assms Pair
      by (auto simp: rev_ids_def rev_keys_def revisions_of_delete ids_filter dest!: delete_revisions_Inr split: sum.splits)
  qed
qed

lemma rev_op_consecutive:
  assumes "consecutive d" and "\<not> forces_number (snd x)"
  shows "consecutive (run_rev_op x d)"
proof (cases x)
  case (Pair n op)
  show ?thesis
  proof (cases op)
    case (RecordRevision e)
    then have no: "re_revision_no e = 0" using assms(2) Pair by simp
    show ?thesis
    proof (cases rule: revision_best_effort_cases [of "ro_dump n" "ro_db n" "ro_has_problem n" "ro_has_user n" e d])
      case (2 tags samples)
      have "[1..int k] @ [int k + 1] = [1..int k + 1]" for k using upto_rec2 [of 1 "int k + 1"] by simp
      then show ?thesis using assms(1) next_number [OF assms(1) no]
        by (simp add: Pair RecordRevision 2 consecutive_def revisions_of_append add.commute [of 1])
    qed (simp add: Pair RecordRevision assms)
  next
    case (DeleteRevisions pid)
    then show ?thesis using assms(1) Pair
      by (auto simp: consecutive_def revisions_of_delete dest!: delete_revisions_Inr split: sum.splits)
  qed
qed

lemma rev_ops_ok:
  assumes "rev_ids d" and "rev_keys d"
  shows "rev_ids (fold run_rev_op ops d)" and "rev_keys (fold run_rev_op ops d)"
  using assms by (induction ops arbitrary: d) (simp_all add: rev_op_ok)

lemma rev_ops_consecutive: "consecutive d \<Longrightarrow> \<forall>x \<in> set ops. \<not> forces_number (snd x) \<Longrightarrow> consecutive (fold run_rev_op ops d)"
  by (induction ops arbitrary: d) (simp_all add: rev_op_consecutive)

text \<open>Sorting by a key that increases strictly turns the list around.\<close>

lemma insort_at_end: "\<forall>y \<in> set ys. f y < f x \<Longrightarrow> insort_key f x ys = ys @ [x]"
  by (induction ys) auto

lemma sort_descending:
  fixes f :: "'a \<Rightarrow> int"
  shows "sorted_wrt (<) (map f xs) \<Longrightarrow> sort_key (\<lambda>x. - f x) xs = rev xs"
  by (induction xs) (simp_all add: insort_at_end)

lemma numbers_increase: "sorted_wrt (<) [1..int n]"
  by (induction n) (simp_all add: upto_rec2 sorted_wrt_append)

lemma consecutive_listing:
  assumes "rev_ids d" and "consecutive d"
  shows "latest_first (revisions_of pid d) = rev (revisions_of pid d)"
    and "sort_key (\<lambda>r. - rv_revision_no r) (revisions_of pid d) = rev (revisions_of pid d)"
proof -
  let ?rs = "revisions_of pid d"
  have no: "sorted_wrt (<) (map rv_revision_no ?rs)" using assms(2) by (simp add: consecutive_def numbers_increase)
  have i: "sorted_wrt (<) (map rv_id ?rs)" using assms(1) unfolding rev_ids_def revisions_of_def by (blast intro: ids_filter)
  show "sort_key (\<lambda>r. - rv_revision_no r) ?rs = rev ?rs" by (rule sort_descending [OF no])
  have "sorted_wrt (\<lambda>a b. rv_revision_no b < rv_revision_no a) (rev ?rs)" using no by (simp add: sorted_wrt_rev sorted_wrt_map)
  then have "sorted (map (\<lambda>r. - rv_revision_no r) (rev ?rs))" unfolding sorted_wrt_map by (rule sorted_wrt_mono_rel [rotated]) simp
  then show "latest_first ?rs = rev ?rs" unfolding latest_first_def sort_descending [OF i] by (rule sort_key_id_if_sorted)
qed

definition no_revisions :: rev_db where
  "no_revisions = \<lparr>rd_rows = [], rd_next = 1\<rparr>"

lemma no_revisions_ok: "rev_ids no_revisions" "rev_keys no_revisions" "consecutive no_revisions"
  by (simp_all add: no_revisions_def rev_ids_def rev_keys_def consecutive_def revisions_of_def)

text \<open>
  C18. The history of a problem. Whatever is recorded and deleted, for whatever problems and with whatever errors of the
  database: no two revisions of a problem have the same number. If no entry forces a number, as no handler does, the
  revisions of a problem are numbered 1, 2, and so on without gaps in the order they were recorded, the latest
  revision is the last one recorded, and a page of the list shows them from the latest backwards with their total.\<close>

theorem history_consecutive:
  assumes "d = fold run_rev_op ops no_revisions"
  shows "distinct (map rv_revision_no (revisions_of pid d))
    \<and> ((\<forall>x \<in> set ops. \<not> forces_number (snd x)) \<and> healthy v \<longrightarrow>
        map rv_revision_no (revisions_of pid d) = [1..int (length (revisions_of pid d))]
        \<and> latest_for_problem v pid d = Inr (if revisions_of pid d = [] then None else Some (last (revisions_of pid d)))
        \<and> list_revisions v \<lparr>rf_problem_id = pid, rf_limit = 20, rf_offset = k\<rparr> d
            = Inr \<lparr>rl_items = take 20 (drop (nat k) (rev (revisions_of pid d))), rl_total = int (length (revisions_of pid d)),
                   rl_limit = 20, rl_offset = max 0 k\<rparr>)"
proof -
  have ids: "rev_ids d" and keys: "rev_keys d" unfolding assms by (rule rev_ops_ok; rule no_revisions_ok)+
  let ?rs = "revisions_of pid d"
  have "map rv_revision_no ?rs = [1..int (length ?rs)]
      \<and> latest_for_problem v pid d = Inr (if ?rs = [] then None else Some (last ?rs))
      \<and> list_revisions v \<lparr>rf_problem_id = pid, rf_limit = 20, rf_offset = k\<rparr> d
          = Inr \<lparr>rl_items = take 20 (drop (nat k) (rev ?rs)), rl_total = int (length ?rs), rl_limit = 20, rl_offset = max 0 k\<rparr>"
    if ops: "\<forall>x \<in> set ops. \<not> forces_number (snd x)" and h: "healthy v"
  proof (intro conjI)
    have c: "consecutive d" unfolding assms by (intro rev_ops_consecutive no_revisions_ok ops)
    show "map rv_revision_no ?rs = [1..int (length ?rs)]" using c by (simp add: consecutive_def)
    show "latest_for_problem v pid d = Inr (if ?rs = [] then None else Some (last ?rs))"
      unfolding latest_for_problem_def consecutive_listing [OF ids c]
      using h by (cases ?rs rule: rev_cases) (simp_all add: revision_conn_def revision_sql_def healthy_def)
    show "list_revisions v \<lparr>rf_problem_id = pid, rf_limit = 20, rf_offset = k\<rparr> d
        = Inr \<lparr>rl_items = take 20 (drop (nat k) (rev ?rs)), rl_total = int (length ?rs), rl_limit = 20, rl_offset = max 0 k\<rparr>"
      using h by (simp add: list_revisions_def revision_conn_def revision_sql_def healthy_def clamp_revision_filter_def page_def
          consecutive_listing [OF ids c] Let_def)
  qed
  then show ?thesis using keys by (simp add: rev_keys_def)
qed

definition demo_revision :: "int \<Rightarrow> string \<Rightarrow> RevisionEntry" where
  "demo_revision pid t = \<lparr>re_problem_id = pid, re_revision_no = 0, re_editor_id = Some 7, re_editor_username = ''alice'', re_editor_ip = None,
     re_action = ''update'', re_slug = ''sum'', re_title = t, re_difficulty = ''easy'', re_time_limit = 1000, re_memory_limit = 256,
     re_description = ''text'', re_tags_snapshot = JArr [], re_samples_snapshot = JArr [], re_summary = None\<rparr>"

text \<open>A database whose first statement finds the number taken.\<close>

definition busy_env :: rev_env where
  "busy_env = \<lparr>ro_dump = (\<lambda>_. Returns ''[]''), ro_db = fk_demo_env\<lparr>dv_fault := (\<lambda>k. if k = 0 then Some ''Duplicate entry'' else None)\<rparr>,
     ro_has_problem = (\<lambda>_. True), ro_has_user = (\<lambda>u. u = 7)\<rparr>"

definition calm_env :: rev_env where
  "calm_env = busy_env\<lparr>ro_db := fk_demo_env\<rparr>"

definition demo_history :: "(rev_env \<times> rev_op) list" where
  "demo_history = [(calm_env, RecordRevision (demo_revision 1 ''a'')), (busy_env, RecordRevision (demo_revision 1 ''b'')),
     (calm_env, RecordRevision (demo_revision 2 ''c'')), (calm_env, RecordRevision (demo_revision 1 [])), (calm_env, RecordRevision (demo_revision 1 ''d''))]"

theorem history_consecutive_witness:
  "let d = fold run_rev_op demo_history no_revisions in
   map rv_title (revisions_of 1 d) = [''a'', ''b'', ''d''] \<and> map rv_revision_no (revisions_of 1 d) = [1..3]
   \<and> distinct (map rv_revision_no (revisions_of 1 d)) \<and> latest_for_problem fk_demo_env 1 d = Inr (Some (last (revisions_of 1 d)))"
proof -
  let ?d = "fold run_rev_op demo_history no_revisions"
  have t: "map rv_title (revisions_of 1 ?d) = [''a'', ''b'', ''d'']" by code_simp
  then have l: "length (revisions_of 1 ?d) = 3" by (metis length_map length_Cons list.size(3) numeral_3_eq_3)
  have f: "\<forall>x \<in> set demo_history. \<not> forces_number (snd x)" by (simp add: demo_history_def demo_revision_def)
  have h: "healthy fk_demo_env" by (simp add: healthy_def fk_demo_env_def)
  have "revisions_of 1 ?d \<noteq> []" using l by auto
  then show ?thesis using t history_consecutive [OF refl, of 1 demo_history fk_demo_env 0] f h l
    by (simp add: Let_def)
qed

text \<open>
  One collision is absorbed, a second is reported: when another session takes the number, the entry is recorded by the
  second attempt; only when that collides too is the conflict reported, and then nothing has been recorded.\<close>

lemma collision_retried:
  assumes "validate_revision e = Inr ()" and "\<And>j. dump j = Returns t" and "int (length t) \<le> 16777216" and "dv_acquire v = None"
    and "re_revision_no e = 0" and "consecutive d" and "has_problem (re_problem_id e)" and "re_editor_id e = Some u" and "has_user u"
    and "dv_fault v 0 = Some m" and "is_duplicate_error m"
  shows "case dv_fault v 1 of
      None \<Rightarrow> \<exists>d'. record_revision dump v has_problem has_user e d = Inr (rd_next d, d')
        \<and> map rv_revision_no (revisions_of (re_problem_id e) d') = [1..int (length (revisions_of (re_problem_id e) d)) + 1]
    | Some m' \<Rightarrow> is_duplicate_error m' \<longrightarrow> (\<exists>x. record_revision dump v has_problem has_user e d = Inl (ProblemRevisionsConflictError x))"
proof -
  note n = next_number [OF assms(6,5)]
  let ?n = "int (length (revisions_of (re_problem_id e) d))"
  have l: "map rv_revision_no (revisions_of (re_problem_id e) d) = [1..?n]" using assms(6) by (simp add: consecutive_def)
  then have "?n + 1 \<notin> set (map rv_revision_no (revisions_of (re_problem_id e) d))" by simp
  moreover have "[1..?n] @ [?n + 1] = [1..?n + 1]" using upto_rec2 [of 1 "?n + 1"] by simp
  ultimately show ?thesis
    using assms l by (cases "dv_fault v 1") (simp_all add: record_revision_def insert_revision_def n revisions_of_append del: set_map)
qed

end
