(* ===== verification/Admin_Problems.thy ===== *)
theory Admin_Problems
  imports Problem_Routes Revisions
begin

text \<open>
  \<^verbatim>\<open>src/routes/admin_problem_routes.h\<close>: creating, changing and deleting problems and their special judges.

  Every handler checks the administrator and the write quota, reads its input, changes the tables and records the
  change in the history of the problem and in the audit log. \<open>e k\<close> is what the database does in the \<open>k\<close>-th repository call of a
  handler. A reader of a field gives the message and the details of the 400 it is answered with, or the value.

  Main results: whoever changes the problem set is an administrator, and a change that is not answered with 500 is in the
  audit log with the administrator's id; a request without a template is neither carried out nor answered.
\<close>

section \<open>Reading the input\<close>

type_synonym 'a reading = "(string \<times> json) + 'a"

definition admin_truncate_for_envelope :: "string \<Rightarrow> string" where
  "admin_truncate_for_envelope v = (if length v \<le> 64 then v else take 64 v @ ''...'')"

definition quoted :: "string \<Rightarrow> string" where
  "quoted s = [quote] @ s @ [quote]"

definition on_field :: "string \<Rightarrow> json" where
  "on_field field = JObj [(''field'', JStr field)]"

definition require_string :: "json \<Rightarrow> string \<Rightarrow> string reading" where
  "require_string body field =
     (case get_member body field of
        Some (JStr x) \<Rightarrow> Inr x
      | _ \<Rightarrow> Inl (''missing or non-string field '' @ quoted field, on_field field))"

definition optional_string :: "json \<Rightarrow> string \<Rightarrow> string option reading" where
  "optional_string body field =
     (case get_member body field of
        None \<Rightarrow> Inr None
      | Some JNull \<Rightarrow> Inr None
      | Some (JStr x) \<Rightarrow> Inr (Some x)
      | _ \<Rightarrow> Inl (''field '' @ quoted field @ '' must be a string when present'', on_field field))"

definition judge_types :: "string list" where
  "judge_types = [''exact'', ''ignore_trailing'', ''float_eps'', ''special'', ''ignore_case'', ''ignore_all_whitespace'']"

definition require_judge_type :: "json \<Rightarrow> string \<Rightarrow> string \<Rightarrow> string reading" where
  "require_judge_type body field dflt =
     (case get_member body field of
        None \<Rightarrow> Inr dflt
      | Some JNull \<Rightarrow> Inr dflt
      | Some (JStr v) \<Rightarrow>
          if v = [] then Inr dflt
          else if v \<notin> set judge_types then
            Inl (''judge_type must be one of: exact, ignore_trailing, float_eps, special, ignore_case, ignore_all_whitespace'',
                 JObj [(''field'', JStr field), (''value'', JStr (admin_truncate_for_envelope v))])
          else Inr v
      | _ \<Rightarrow> Inl (''field '' @ quoted field @ '' must be a string when present'', on_field field))"

definition optional_int_field :: "json \<Rightarrow> string \<Rightarrow> int \<Rightarrow> int \<Rightarrow> int option reading" where
  "optional_int_field body field lo hi =
     (case get_member body field of
        None \<Rightarrow> Inr None
      | Some JNull \<Rightarrow> Inr None
      | Some (JInt n) \<Rightarrow>
          let v = wrap32 n in
          if v < lo \<or> v > hi then
            Inl (''field '' @ quoted field @ '' out of range'',
                 JObj [(''field'', JStr field), (''value'', JStr (to_string v)), (''min'', JStr (to_string lo)), (''max'', JStr (to_string hi))])
          else Inr (Some v)
      | _ \<Rightarrow> Inl (''field '' @ quoted field @ '' must be an integer when present'', on_field field))"

definition at_index :: "string \<Rightarrow> nat \<Rightarrow> (string \<times> json) list \<Rightarrow> json" where
  "at_index field i extra = JObj ([(''field'', JStr field), (''index'', JStr (to_string (int i)))] @ extra)"

fun read_tags :: "nat \<Rightarrow> json list \<Rightarrow> string list reading" where
  "read_tags i [] = Inr []"
| "read_tags i (el # els) =
     (case el of
        JStr raw \<Rightarrow>
          let trimmed = trim_tag_name raw;
              bad = (\<lambda>err. Inl (''invalid tag name at index '' @ to_string (int i) @ '': '' @ err,
                       at_index ''tags'' i [(''value'', JStr (admin_truncate_for_envelope raw))])) in
          if trimmed = [] then bad []
          else (case validate_tag_name trimmed of
                  Inl err \<Rightarrow> bad err
                | Inr _ \<Rightarrow> (case read_tags (Suc i) els of Inl r \<Rightarrow> Inl r | Inr ts \<Rightarrow> Inr (trimmed # ts)))
      | _ \<Rightarrow> Inl (''tags entries must be strings'', at_index ''tags'' i []))"

definition parse_tags_array :: "json \<Rightarrow> string list reading" where
  "parse_tags_array body =
     (case get_member body ''tags'' of
        None \<Rightarrow> Inr []
      | Some JNull \<Rightarrow> Inr []
      | Some (JArr els) \<Rightarrow> read_tags 0 els
      | _ \<Rightarrow> Inl (''tags must be an array of strings'', on_field ''tags''))"

definition read_order_num :: "nat \<Rightarrow> json \<Rightarrow> int reading" where
  "read_order_num i el =
     (case get_member el ''order_num'' of
        None \<Rightarrow> Inr (int i)
      | Some JNull \<Rightarrow> Inr (int i)
      | Some (JInt n) \<Rightarrow> Inr (wrap32 n)
      | _ \<Rightarrow> Inl (''samples[].order_num must be an integer'', at_index ''samples'' i [(''subfield'', JStr ''order_num'')]))"

definition read_sample :: "nat \<Rightarrow> json \<Rightarrow> SampleCaseRow reading" where
  "read_sample i el =
     (case el of
        JObj _ \<Rightarrow>
          (case get_member el ''input'' of
             Some (JStr inp) \<Rightarrow>
               (case get_member el ''output'' of
                  Some (JStr out) \<Rightarrow>
                    (case require_judge_type el ''judge_type'' ''exact'' of
                       Inl r \<Rightarrow> Inl r
                     | Inr jt \<Rightarrow>
                         (case read_order_num i el of
                            Inl r \<Rightarrow> Inl r
                          | Inr k \<Rightarrow> Inr \<lparr>sc_id = 0, sc_problem_id = 0, sc_input = inp, sc_expected_output = out, sc_judge_type = jt,
                                          sc_order_num = k\<rparr>))
                | _ \<Rightarrow> Inl (''samples[].output must be a string'', at_index ''samples'' i [(''subfield'', JStr ''output'')]))
           | _ \<Rightarrow> Inl (''samples[].input must be a string'', at_index ''samples'' i [(''subfield'', JStr ''input'')]))
      | _ \<Rightarrow> Inl (''samples entries must be objects'', at_index ''samples'' i []))"

fun read_samples :: "nat \<Rightarrow> json list \<Rightarrow> SampleCaseRow list reading" where
  "read_samples i [] = Inr []"
| "read_samples i (el # els) =
     (case read_sample i el of
        Inl r \<Rightarrow> Inl r
      | Inr x \<Rightarrow> (case read_samples (Suc i) els of Inl r \<Rightarrow> Inl r | Inr xs \<Rightarrow> Inr (x # xs)))"

definition parse_samples_array :: "json \<Rightarrow> SampleCaseRow list reading" where
  "parse_samples_array body =
     (case get_member body ''samples'' of
        None \<Rightarrow> Inr []
      | Some JNull \<Rightarrow> Inr []
      | Some (JArr els) \<Rightarrow> read_samples 0 els
      | _ \<Rightarrow> Inl (''samples must be an array of objects'', on_field ''samples''))"

definition extract_slug_from_admin_path :: "string \<Rightarrow> string \<Rightarrow> string option" where
  "extract_slug_from_admin_path path suf =
     (let pre = ''/api/v1/admin/problems/'' in
      if length path \<le> length pre \<or> take (length pre) path \<noteq> pre then None
      else let rest = drop (length pre) path in
           if suf \<noteq> [] \<and> (length rest \<le> length suf \<or> drop (length rest - length suf) rest \<noteq> suf) then None
           else parse_slug_param (take (length rest - length suf) rest))"

definition refused_for :: "json \<Rightarrow> string + unit \<Rightarrow> unit reading" where
  "refused_for details r = (case r of Inl err \<Rightarrow> Inl (err, details) | Inr _ \<Rightarrow> Inr ())"

definition validate_problem_patch :: "ProblemRow \<Rightarrow> unit reading" where
  "validate_problem_patch p =
     fold (\<lambda>r acc. case acc of Inl x \<Rightarrow> Inl x | Inr _ \<Rightarrow> r)
       [refused_for (JObj [(''field'', JStr ''slug''), (''value'', JStr (admin_truncate_for_envelope (p_slug p)))]) (validate_slug (p_slug p)),
        refused_for (on_field ''title'') (validate_title (p_title p)),
        refused_for (JObj [(''field'', JStr ''difficulty''), (''value'', JStr (admin_truncate_for_envelope (p_difficulty p)))]) (validate_difficulty (p_difficulty p)),
        refused_for (JObj [(''field'', JStr ''time_limit_ms''), (''value'', JStr (to_string (p_time_limit p)))]) (validate_time_limit (p_time_limit p)),
        refused_for (JObj [(''field'', JStr ''memory_limit_mb''), (''value'', JStr (to_string (p_memory_limit p)))]) (validate_memory_limit (p_memory_limit p))]
       (Inr ())"

section \<open>Steps the handlers share\<close>

record admin_site = site +
  ap_revs :: rev_db
  ap_audit :: audit_table
  ap_users :: user_db

definition or_refuse :: "web_env \<Rightarrow> 'a reading \<Rightarrow> ('a \<Rightarrow> 's web_result) \<Rightarrow> http_response \<Rightarrow> 's \<Rightarrow> 's web_result" where
  "or_refuse w r k res s = (case r of Inl (m, details) \<Rightarrow> web_error_with w 400 INVALID_INPUT m details res s | Inr x \<Rightarrow> k x)"

text \<open>
  \<^verbatim>\<open>require_admin\<close> and \<^verbatim>\<open>consume_rate_limit\<close>. The body is parsed after them.
\<close>

definition admin_write ::
    "web_env \<Rightarrow> RateLimitConfig \<Rightarrow> int \<Rightarrow> http_request \<Rightarrow> (Claims \<Rightarrow> http_response \<Rightarrow> 'c site_scheme \<Rightarrow> 'c site_scheme web_result)
       \<Rightarrow> http_response \<Rightarrow> 'c site_scheme \<Rightarrow> 'c site_scheme web_result" where
  "admin_write w cfg now req k res s =
     (case require_admin (wv_lib w) (wv_verify1 w) (wv_verify2 w) req (wv_jwt w) of
        Inl g \<Rightarrow> (Inl (guard_exn g), res, s)
      | Inr c \<Rightarrow> with_limit w now (admin_write_quota cfg) req (k c) res s)"

definition with_json :: "web_env \<Rightarrow> http_request \<Rightarrow> (json \<Rightarrow> 's web_result) \<Rightarrow> http_response \<Rightarrow> 's \<Rightarrow> 's web_result" where
  "with_json w req k res s = (case parse_json_body (wv_parse w) (wv_rid w) req res of (None, res) \<Rightarrow> (Inr (), res, s) | (Some j, _) \<Rightarrow> k j)"

definition with_admin_slug :: "web_env \<Rightarrow> string \<Rightarrow> string \<Rightarrow> (string \<Rightarrow> 's web_result) \<Rightarrow> http_response \<Rightarrow> 's \<Rightarrow> 's web_result" where
  "with_admin_slug w path suf k res s =
     (case extract_slug_from_admin_path path suf of None \<Rightarrow> bad_slug w path res s | Some slug \<Rightarrow> k slug)"

text \<open>
  A limit of the body. When it is not given, or is refused, the handler returns if the text of the request has the name of the
  field anywhere; otherwise it goes on, with the error already answered.
\<close>

definition limit_field ::
    "web_env \<Rightarrow> http_request \<Rightarrow> json \<Rightarrow> string \<Rightarrow> int \<Rightarrow> int \<Rightarrow> (int option \<Rightarrow> http_response \<Rightarrow> 's web_result) \<Rightarrow> http_response \<Rightarrow> 's \<Rightarrow> 's web_result" where
  "limit_field w req body field lo hi k res s =
     (let (t, res) = (case optional_int_field body field lo hi of
            Inl (m, details) \<Rightarrow> (None, send_error (wv_rid w) 400 INVALID_INPUT m details res)
          | Inr t \<Rightarrow> (t, res)) in
      if contains_str field (req_body req) \<and> t = None then (Inr (), res, s) else k t res)"

definition blank_problem :: ProblemRow where
  "blank_problem = \<lparr>p_id = 0, p_slug = [], p_title = [], p_difficulty = [], p_description = [], p_template = [], p_time_limit = 1000,
     p_memory_limit = 256, p_accepted_count = 0, p_submission_count = 0, p_is_deleted = False, p_created_at = [], p_updated_at = []\<rparr>"

definition with_problem_body ::
    "web_env \<Rightarrow> http_request \<Rightarrow> json \<Rightarrow> (ProblemRow \<Rightarrow> string list \<Rightarrow> SampleCaseRow list \<Rightarrow> http_response \<Rightarrow> 's web_result) \<Rightarrow> http_response \<Rightarrow> 's
       \<Rightarrow> 's web_result" where
  "with_problem_body w req body k res s =
     or_refuse w (require_string body ''slug'') (\<lambda>slug.
     or_refuse w (require_string body ''title'') (\<lambda>title.
     or_refuse w (require_string body ''difficulty'') (\<lambda>difficulty.
     or_refuse w (require_string body ''description'') (\<lambda>description.
     or_refuse w (optional_string body ''template'') (\<lambda>tmpl.
       case tmpl of
         None \<Rightarrow> (Inr (), res, s)
       | Some code \<Rightarrow>
         if int (length code) > 65536 then
           (Inr (), send_error (wv_rid w) 400 INVALID_INPUT ''template exceeds 64 KB ceiling''
                      (JObj [(''field'', JStr ''template''), (''size'', JStr (to_string (int (length code))))]) res, s)
         else
           or_refuse w (parse_tags_array body) (\<lambda>tags.
           or_refuse w (parse_samples_array body) (\<lambda>samples.
           limit_field w req body ''time_limit_ms'' 1 60000 (\<lambda>t res.
           limit_field w req body ''memory_limit_mb'' 1 1024 (\<lambda>m res.
             let row = blank_problem\<lparr>p_slug := slug, p_title := title, p_difficulty := difficulty, p_description := description,
                   p_template := code, p_time_limit := (case t of None \<Rightarrow> 1000 | Some t \<Rightarrow> t),
                   p_memory_limit := (case m of None \<Rightarrow> 256 | Some m \<Rightarrow> m)\<rparr> in
             or_refuse w (validate_problem_patch row) (\<lambda>_. k row tags samples res) res s) res s) res s) res s) res s) res s) res s) res s) res s) res s"

definition problem_changed :: "problem_db \<Rightarrow> 'c site_scheme \<Rightarrow> 'c site_scheme" where
  "problem_changed d s = s\<lparr>si_tags := (si_tags s)\<lparr>td_pd := d\<rparr>\<rparr>"

text \<open>The resolver creates tags, then the tags and the samples of the problem are replaced; each keeps what it did when a later one fails.\<close>

definition apply_tag_and_sample_patch ::
    "(nat \<Rightarrow> tag_env) \<Rightarrow> nat \<Rightarrow> int \<Rightarrow> string list \<Rightarrow> SampleCaseRow list \<Rightarrow> tag_db \<Rightarrow> (string + unit) \<times> tag_db" where
  "apply_tag_and_sample_patch e k pid tag_names samples d =
     (let (r, d) = (if tag_names \<noteq> [] then find_or_create_many (e k) tag_names d else (Inr [], d)) in
      case r of
        Inl x \<Rightarrow> (Inl (tag_error_what x), d)
      | Inr ts \<Rightarrow>
          (case replace_tags (e (k + 1)) pid (map t_id ts) d of
             (Inl x, d) \<Rightarrow> (Inl (tag_error_what x), d)
           | (Inr _, d) \<Rightarrow>
               (case replace_for_problem (fk_env.truncate (e (k + 2))) pid samples True (td_pd d) of
                  (Inl x, p) \<Rightarrow> (Inl (problem_error_what x), d\<lparr>td_pd := p\<rparr>)
                | (Inr _, p) \<Rightarrow> (Inr (), d\<lparr>td_pd := p\<rparr>))))"

definition build_response_payload :: "(nat \<Rightarrow> tag_env) \<Rightarrow> nat \<Rightarrow> int \<Rightarrow> 'c site_scheme \<Rightarrow> string + json" where
  "build_response_payload e k pid s =
     (case find_problem_by_id (e k) pid True (si_subs s) (td_pd (si_tags s)) of
        Inl x \<Rightarrow> Inl (problem_error_what x)
      | Inr None \<Rightarrow> Inl (''admin_problem_routes: row '' @ to_string pid @ '' disappeared between write and readback'')
      | Inr (Some p) \<Rightarrow>
          (case list_tags_for_problem (e (k + 1)) pid (si_tags s) of
             Inl x \<Rightarrow> Inl (tag_error_what x)
           | Inr tags \<Rightarrow>
               (case list_samples_for_problem (e (k + 2)) pid (td_pd (si_tags s)) of
                  Inl x \<Rightarrow> Inl (problem_error_what x)
                | Inr samples \<Rightarrow> Inr (serialize_problem_detail p tags samples False))))"

fun audit_error_what :: "audit_error \<Rightarrow> string" where
  "audit_error_what (AuditLogRepoError m) = m"
| "audit_error_what (AuditOther m) = m"

definition internal :: "web_env \<Rightarrow> string \<Rightarrow> http_response \<Rightarrow> 's \<Rightarrow> 's web_result" where
  "internal w m res s = web_error w 500 INTERNAL_ERROR (''internal error: '' @ m) res s"

text \<open>The entry of the audit log, in a \<^verbatim>\<open>try\<close> block that answers 500 and that the number of the user is read in.\<close>

definition audited ::
    "web_env \<Rightarrow> tag_env \<Rightarrow> Claims \<Rightarrow> http_request \<Rightarrow> string \<Rightarrow> string \<Rightarrow> json \<Rightarrow> ('c admin_site_scheme \<Rightarrow> 'c admin_site_scheme web_result)
       \<Rightarrow> http_response \<Rightarrow> 'c admin_site_scheme \<Rightarrow> 'c admin_site_scheme web_result" where
  "audited w v c req action slug payload k res s =
     (case stoi (user_id c) of
        None \<Rightarrow> internal w ''stoi'' res s
      | Some i \<Rightarrow>
          (case record_audit (wv_dump w) (db_env.truncate v)
                  \<lparr>en_admin_id = Some i, en_action = action, en_target_type = Some ''problem'', en_target_id = Some slug,
                   en_payload = payload, en_ip = Some (extract_client_ip req)\<rparr> (ap_audit s) of
             Inl x \<Rightarrow> internal w (audit_error_what x) res s
           | Inr (_, t) \<Rightarrow> k (s\<lparr>ap_audit := t\<rparr>)))"

definition sample_snapshot :: "SampleCaseRow list \<Rightarrow> json" where
  "sample_snapshot samples = JArr (map (\<lambda>x. JObj [(''input'', JStr (sc_input x)), (''output'', JStr (sc_expected_output x))]) samples)"

text \<open>The history of the problem: the number of the user is read outside of every \<^verbatim>\<open>try\<close> block of the handler.\<close>

definition with_revision ::
    "web_env \<Rightarrow> tag_env \<Rightarrow> Claims \<Rightarrow> http_request \<Rightarrow> int \<Rightarrow> string \<Rightarrow> string option \<Rightarrow> ProblemRow \<Rightarrow> string list \<Rightarrow> SampleCaseRow list
       \<Rightarrow> (int \<Rightarrow> 'c admin_site_scheme \<Rightarrow> 'c admin_site_scheme web_result) \<Rightarrow> http_response \<Rightarrow> 'c admin_site_scheme \<Rightarrow> 'c admin_site_scheme web_result" where
  "with_revision w v c req pid action summary row tags samples k res s =
     web_user c (\<lambda>i.
       let (rid, revs) = revision_best_effort (wv_dump w) v
             (\<lambda>p. p \<in> set (map p_id (pd_problems (td_pd (si_tags s))))) (\<lambda>u. u \<in> set (map u_id (ud_users (ap_users s))))
             \<lparr>re_problem_id = pid, re_revision_no = 0, re_editor_id = Some i, re_editor_username = username c,
              re_editor_ip = Some (extract_client_ip req), re_action = action, re_slug = p_slug row, re_title = p_title row,
              re_difficulty = p_difficulty row, re_time_limit = p_time_limit row, re_memory_limit = p_memory_limit row,
              re_description = p_description row, re_tags_snapshot = JArr (map JStr tags), re_samples_snapshot = sample_snapshot samples,
              re_summary = summary\<rparr> (ap_revs s)
       in k rid (s\<lparr>ap_revs := revs\<rparr>)) res s"

definition web_created :: "web_env \<Rightarrow> json \<Rightarrow> http_response \<Rightarrow> 's \<Rightarrow> 's web_result" where
  "web_created w j res s =
     (case wv_dump w (make_success_envelope (wv_rid w) j) of
        Throws m \<Rightarrow> (Inl (ThrowsStd m), res\<lparr>rsp_status := 201\<rparr>, s)
      | Returns _ \<Rightarrow> (Inr (), send_created (wv_rid w) j res, s))"

section \<open>Handlers\<close>

definition problem_payload :: "(string \<times> json) list \<Rightarrow> ProblemRow \<Rightarrow> (string \<times> json) list \<Rightarrow> string list \<Rightarrow> SampleCaseRow list \<Rightarrow> int \<Rightarrow> json" where
  "problem_payload front row between tags samples rid =
     JObj (front @ [(''slug'', JStr (p_slug row))] @ between
       @ [(''title'', JStr (p_title row)), (''difficulty'', JStr (p_difficulty row)), (''time_limit_ms'', JInt (p_time_limit row)),
          (''memory_limit_mb'', JInt (p_memory_limit row)), (''tag_names'', JArr (map JStr tags)),
          (''sample_count'', JInt (wrap32 (int (length samples)))), (''revision_id'', JInt rid)])"

text \<open>What creating and updating do once the row is stored: tags and samples, the history, the audit log, the answer.\<close>

definition finish_problem ::
    "web_env \<Rightarrow> (nat \<Rightarrow> tag_env) \<Rightarrow> Claims \<Rightarrow> http_request \<Rightarrow> int \<Rightarrow> string \<Rightarrow> string option \<Rightarrow> string \<Rightarrow> (string \<times> json) list \<Rightarrow> (string \<times> json) list
       \<Rightarrow> ProblemRow \<Rightarrow> string list \<Rightarrow> SampleCaseRow list \<Rightarrow> (json \<Rightarrow> http_response \<Rightarrow> 'c admin_site_scheme \<Rightarrow> 'c admin_site_scheme web_result)
       \<Rightarrow> http_response \<Rightarrow> 'c admin_site_scheme \<Rightarrow> 'c admin_site_scheme web_result" where
  "finish_problem w e c req pid action summary audit_action front between row tags samples answer res s =
     (case apply_tag_and_sample_patch e 0 pid tags samples (si_tags s) of
        (Inl m, d) \<Rightarrow> internal w m res (s\<lparr>si_tags := d\<rparr>)
      | (Inr _, d) \<Rightarrow>
          with_revision w (e 3) c req pid action summary row tags samples (\<lambda>rid s.
            audited w (e 4) c req audit_action (p_slug row) (problem_payload front row between tags samples rid) (\<lambda>s.
              case build_response_payload e 5 pid s of
                Inl m \<Rightarrow> internal w m res s
              | Inr j \<Rightarrow> answer j res s) res s) res (s\<lparr>si_tags := d\<rparr>))"

definition slug_conflict :: "web_env \<Rightarrow> string \<Rightarrow> http_response \<Rightarrow> 's \<Rightarrow> 's web_result" where
  "slug_conflict w slug res s =
     web_error_with w 409 CONFLICT ''slug already exists'' (JObj [(''field'', JStr ''slug''), (''value'', JStr slug)]) res s"

definition admin_create_problem_handler ::
    "web_env \<Rightarrow> (nat \<Rightarrow> tag_env) \<Rightarrow> RateLimitConfig \<Rightarrow> int \<Rightarrow> http_request \<Rightarrow> http_response \<Rightarrow> 'c admin_site_scheme \<Rightarrow> 'c admin_site_scheme web_result" where
  "admin_create_problem_handler w e cfg now req res s =
     admin_write w cfg now req (\<lambda>c res s.
     with_json w req (\<lambda>body.
     with_problem_body w req body (\<lambda>row tags samples res.
       case create_problem (e 0) row (td_pd (si_tags s)) of
         Inl x \<Rightarrow> internal w (problem_error_what x) res s
       | Inr (pid, d) \<Rightarrow>
           if pid = 0 then slug_conflict w (p_slug row) res s
           else finish_problem w (\<lambda>k. e (k + 1)) c req pid ''create'' None ''problem.create'' [] [] row tags samples (web_created w) res
                  (problem_changed d s)) res s) res s) res s"

definition update_summary :: "string \<Rightarrow> string \<Rightarrow> ProblemRow \<Rightarrow> string" where
  "update_summary old_slug pre_title patch =
     (let a = (if old_slug \<noteq> p_slug patch then ''slug: '' @ old_slug @ '' -> '' @ p_slug patch @ ''; '' else []);
          b = (if pre_title \<noteq> [] \<and> pre_title \<noteq> p_title patch then ''title changed; '' else []);
          t = (if a @ b = [] then ''updated'' else a @ b)
      in take 200 t)"

definition title_before :: "problem_error + ProblemRow option \<Rightarrow> string" where
  "title_before r = (case r of Inr (Some p) \<Rightarrow> p_title p | _ \<Rightarrow> [])"

definition admin_update_problem_handler ::
    "web_env \<Rightarrow> (nat \<Rightarrow> tag_env) \<Rightarrow> RateLimitConfig \<Rightarrow> int \<Rightarrow> string \<Rightarrow> http_request \<Rightarrow> http_response \<Rightarrow> 'c admin_site_scheme \<Rightarrow> 'c admin_site_scheme web_result" where
  "admin_update_problem_handler w e cfg now path req res s =
     admin_write w cfg now req (\<lambda>c res s.
     with_admin_slug w path [] (\<lambda>old_slug.
     with_json w req (\<lambda>body.
     with_problem_body w req body (\<lambda>patch tags samples res.
       let pre_title = title_before (find_problem_by_slug (e 0) old_slug True (si_subs s) (td_pd (si_tags s))) in
       case update_problem (e 1) old_slug patch (td_pd (si_tags s)) of
         Inl (ProblemNotFoundError _) \<Rightarrow> no_problem w old_slug res s
       | Inl (ProblemAlreadyExistsError _) \<Rightarrow> slug_conflict w (p_slug patch) res s
       | Inl x \<Rightarrow> internal w (problem_error_what x) res s
       | Inr (_, d) \<Rightarrow>
           let s = problem_changed d s in
           (case find_problem_by_slug (e 2) (p_slug patch) True (si_subs s) d of
              Inl x \<Rightarrow> internal w (problem_error_what x) res s
            | Inr None \<Rightarrow> internal w (''admin_problem_update: row '' @ p_slug patch @ '' missing after update'') res s
            | Inr (Some p) \<Rightarrow>
                finish_problem w (\<lambda>k. e (k + 3)) c req (p_id p) ''update'' (Some (update_summary old_slug pre_title patch)) ''problem.update''
                  [(''old_slug'', JStr old_slug)] [(''old_title'', JStr pre_title)] patch tags samples (web_ok w) res s)) res s) res s) res s) res s"

definition admin_delete_problem_handler ::
    "web_env \<Rightarrow> (nat \<Rightarrow> tag_env) \<Rightarrow> RateLimitConfig \<Rightarrow> int \<Rightarrow> string \<Rightarrow> http_request \<Rightarrow> http_response \<Rightarrow> 'c admin_site_scheme \<Rightarrow> 'c admin_site_scheme web_result" where
  "admin_delete_problem_handler w e cfg now path req res s =
     admin_write w cfg now req (\<lambda>c res s.
     with_admin_slug w path [] (\<lambda>slug.
       let title = title_before (find_problem_by_slug (e 0) slug True (si_subs s) (td_pd (si_tags s))) in
       case soft_delete (e 1) slug (td_pd (si_tags s)) of
         Inl x \<Rightarrow> internal w (problem_error_what x) res s
       | Inr (deleted, d) \<Rightarrow>
           if \<not> deleted then no_problem w slug res (problem_changed d s)
           else audited w (e 2) c req ''problem.delete'' slug
                  (JObj [(''slug'', JStr slug), (''title'', JStr title), (''hard_delete'', JBool False)])
                  (\<lambda>s. (Inr (), send_no_content res, s)) res (problem_changed d s)) res s) res s"

definition with_live_problem ::
    "web_env \<Rightarrow> tag_env \<Rightarrow> string \<Rightarrow> (int \<Rightarrow> 'c site_scheme web_result) \<Rightarrow> http_response \<Rightarrow> 'c site_scheme \<Rightarrow> 'c site_scheme web_result" where
  "with_live_problem w v slug k res s =
     (case find_problem_by_slug v slug False (si_subs s) (td_pd (si_tags s)) of
        Inl x \<Rightarrow> internal w (problem_error_what x) res s
      | Inr None \<Rightarrow> no_problem w slug res s
      | Inr (Some p) \<Rightarrow> k (p_id p))"

definition read_language :: "json \<Rightarrow> string reading" where
  "read_language j =
     (case get_member j ''language'' of
        None \<Rightarrow> Inr kSpjLanguageCxx
      | Some JNull \<Rightarrow> Inr kSpjLanguageCxx
      | Some (JStr l) \<Rightarrow>
          (case validate_spj_language l of
             Inl err \<Rightarrow> Inl (err, JObj [(''field'', JStr ''language''), (''value'', JStr (admin_truncate_for_envelope l))])
           | Inr _ \<Rightarrow> Inr l)
      | _ \<Rightarrow> Inl (''field '' @ quoted ''language'' @ '' must be a string when present'', on_field ''language''))"

definition admin_put_special_judge_handler ::
    "web_env \<Rightarrow> (nat \<Rightarrow> tag_env) \<Rightarrow> RateLimitConfig \<Rightarrow> int \<Rightarrow> string \<Rightarrow> http_request \<Rightarrow> http_response \<Rightarrow> 'c admin_site_scheme \<Rightarrow> 'c admin_site_scheme web_result" where
  "admin_put_special_judge_handler w e cfg now path req res s =
     admin_write w cfg now req (\<lambda>c res s.
     with_admin_slug w path ''/special-judge'' (\<lambda>slug.
     with_json w req (\<lambda>j.
     or_refuse w (require_string j ''source'') (\<lambda>source.
       if int (length source) > 262144 then
         (Inr (), send_error (wv_rid w) 400 INVALID_INPUT
            ''special judge source exceeds 256KB admin cap (repo ceiling is 16MB; tighten the source or open a follow-up to raise the admin cap)''
            (JObj [(''field'', JStr ''source''), (''size'', JStr (to_string (int (length source)))), (''max'', JStr (to_string 262144))]) res, s)
       else or_refuse w (read_language j) (\<lambda>language.
       with_live_problem w (e 0) slug (\<lambda>pid.
         case upsert_judge (fk_env.truncate (e 1)) pid source language (td_pd (si_tags s)) of
           Inl x \<Rightarrow>
             if contains_str ''problem_id does not exist'' (problem_error_what x) then
               web_error_with w 404 NOT_FOUND ''problem not found (FK violation on upsert)'' (JObj [(''slug'', JStr slug)]) res s
             else internal w (problem_error_what x) res s
         | Inr (_, d) \<Rightarrow>
             audited w (e 2) c req ''problem.spj_upsert'' slug
               (JObj [(''source_bytes'', JInt (int (length source))), (''language'', JStr language)]) (\<lambda>s.
               web_ok w (JObj [(''problem_id'', JInt pid), (''slug'', JStr slug), (''source_bytes'', JInt (int (length source))),
                               (''language'', JStr language),
                               (''updated_at'', JStr (case find_judge (e 3) pid (td_pd (si_tags s)) of Inr (Some x) \<Rightarrow> sj_updated_at x | _ \<Rightarrow> []))]) res s)
               res (problem_changed d s)) res s) res s) res s) res s) res s) res s"

definition admin_delete_special_judge_handler ::
    "web_env \<Rightarrow> (nat \<Rightarrow> tag_env) \<Rightarrow> RateLimitConfig \<Rightarrow> int \<Rightarrow> string \<Rightarrow> http_request \<Rightarrow> http_response \<Rightarrow> 'c admin_site_scheme \<Rightarrow> 'c admin_site_scheme web_result" where
  "admin_delete_special_judge_handler w e cfg now path req res s =
     admin_write w cfg now req (\<lambda>c res s.
     with_admin_slug w path ''/special-judge'' (\<lambda>slug.
     with_live_problem w (e 0) slug (\<lambda>pid.
       case remove_judge (e 1) pid (td_pd (si_tags s)) of
         Inl x \<Rightarrow> internal w (problem_error_what x) res s
       | Inr (removed, d) \<Rightarrow>
           audited w (e 2) c req ''problem.spj_remove'' slug (JObj [(''removed'', JBool removed), (''problem_id'', JInt pid)])
             (\<lambda>s. (Inr (), send_no_content res, s)) res (problem_changed d s)) res s) res s) res s"

definition admin_get_special_judge_handler ::
    "web_env \<Rightarrow> (nat \<Rightarrow> tag_env) \<Rightarrow> RateLimitConfig \<Rightarrow> int \<Rightarrow> string \<Rightarrow> http_request \<Rightarrow> http_response \<Rightarrow> 'c admin_site_scheme \<Rightarrow> 'c admin_site_scheme web_result" where
  "admin_get_special_judge_handler w e cfg now path req res s =
     admin_write w cfg now req (\<lambda>c res s.
     with_admin_slug w path ''/special-judge'' (\<lambda>slug.
     with_live_problem w (e 0) slug (\<lambda>pid.
       case find_judge (e 1) pid (td_pd (si_tags s)) of
         Inl x \<Rightarrow> internal w (problem_error_what x) res s
       | Inr spj \<Rightarrow>
           let text = (\<lambda>f. JStr (case spj of None \<Rightarrow> [] | Some x \<Rightarrow> f x)) in
           web_ok w (JObj [(''problem_id'', JInt pid), (''slug'', JStr slug), (''exists'', JBool (spj \<noteq> None)), (''language'', text sj_language),
                           (''source'', text sj_source), (''source_bytes'', JInt (case spj of None \<Rightarrow> 0 | Some x \<Rightarrow> int (length (sj_source x)))),
                           (''created_at'', text sj_created_at), (''updated_at'', text sj_updated_at)]) res s) res s) res s) res s"

datatype admin_problem_route =
    RtAdminCreate
  | RtAdminUpdate string
  | RtAdminDelete string
  | RtPutJudge string
  | RtDeleteJudge string
  | RtGetJudge string

fun admin_problem_route_handler ::
    "web_env \<Rightarrow> (nat \<Rightarrow> tag_env) \<Rightarrow> RateLimitConfig \<Rightarrow> int \<Rightarrow> admin_problem_route \<Rightarrow> http_request \<Rightarrow> http_response \<Rightarrow> 'c admin_site_scheme
       \<Rightarrow> 'c admin_site_scheme web_result" where
  "admin_problem_route_handler w e cfg now RtAdminCreate req res s = web_guard w (admin_create_problem_handler w e cfg now req res s)"
| "admin_problem_route_handler w e cfg now (RtAdminUpdate path) req res s = web_guard w (admin_update_problem_handler w e cfg now path req res s)"
| "admin_problem_route_handler w e cfg now (RtAdminDelete path) req res s = web_guard w (admin_delete_problem_handler w e cfg now path req res s)"
| "admin_problem_route_handler w e cfg now (RtPutJudge path) req res s = web_guard w (admin_put_special_judge_handler w e cfg now path req res s)"
| "admin_problem_route_handler w e cfg now (RtDeleteJudge path) req res s = web_guard w (admin_delete_special_judge_handler w e cfg now path req res s)"
| "admin_problem_route_handler w e cfg now (RtGetJudge path) req res s = web_guard w (admin_get_special_judge_handler w e cfg now path req res s)"

section \<open>Accountability\<close>

text \<open>
  What holds of a result when the handler began with \<open>s0\<close>: the problem set is as it was, or the caller was told of an
  error of the server, or the audit log has one more row that names the administrator and the address.
\<close>

definition logged :: "Claims \<Rightarrow> http_request \<Rightarrow> audit_table \<Rightarrow> audit_table \<Rightarrow> bool" where
  "logged c req t t' \<longleftrightarrow> (\<exists>x u. stoi (user_id c) = Some u \<and> at_rows t' = at_rows t @ [x] \<and> au_admin_id x = Some u
     \<and> au_target_type x = Some ''problem'' \<and> au_ip x = Some (extract_client_ip req))"

definition accounted :: "Claims \<Rightarrow> http_request \<Rightarrow> 'c admin_site_scheme \<Rightarrow> 'c admin_site_scheme web_result \<Rightarrow> bool" where
  "accounted c req s0 h \<longleftrightarrow> si_tags (snd (snd h)) = si_tags s0 \<or> fst h \<noteq> Inr () \<or> rsp_status (fst (snd h)) = 500
     \<or> logged c req (ap_audit s0) (ap_audit (snd (snd h)))"

lemma web_state [simp]:
  "snd (snd (web_ok w j res s)) = s" "snd (snd (web_created w j res s)) = s" "snd (snd (web_error_with w st c m j res s)) = s"
  "snd (snd (web_error w st c m res s)) = s" "snd (snd (slug_conflict w g res s)) = s" "snd (snd (no_problem w g res s)) = s"
  "snd (snd (bad_slug w g res s)) = s" "snd (snd (internal w m res s)) = s"
  by (simp_all add: web_ok_def web_created_def web_error_with_def web_error_def slug_conflict_def no_problem_def bad_slug_def internal_def
      split: outcome.splits)

lemma accounted_same: "si_tags (snd (snd h)) = si_tags s0 \<Longrightarrow> accounted c req s0 h"
  by (simp add: accounted_def)

lemma accounted_stop: "si_tags s = si_tags s0 \<Longrightarrow> accounted c req s0 (r, res, s)"
  by (simp add: accounted_def)

lemma accounted_internal [intro!]: "accounted c req s0 (internal w m res s)"
  by (simp add: accounted_def internal_def web_error_def send_error_def send_json_def)

text \<open>One rule for each step of a handler.\<close>

lemma accounted_steps:
  "si_tags s = si_tags s0 \<Longrightarrow> (\<And>x. accounted c req s0 (k x)) \<Longrightarrow> accounted c req s0 (or_refuse w r k res s)"
  "si_tags s = si_tags s0 \<Longrightarrow> (\<And>j. accounted c req s0 (k' j)) \<Longrightarrow> accounted c req s0 (with_json w req' k' res s)"
  "si_tags s = si_tags s0 \<Longrightarrow> (\<And>g. accounted c req s0 (k1 g)) \<Longrightarrow> accounted c req s0 (with_admin_slug w path suf k1 res s)"
  "si_tags s = si_tags s0 \<Longrightarrow> (\<And>t res. accounted c req s0 (k2 t res)) \<Longrightarrow> accounted c req s0 (limit_field w req' body f lo hi k2 res s)"
  "si_tags s = si_tags s0 \<Longrightarrow> (\<And>i. accounted c req s0 (k3 i)) \<Longrightarrow> accounted c req s0 (with_live_problem w v g k3 res s)"
  by (auto simp: or_refuse_def with_json_def with_admin_slug_def limit_field_def with_live_problem_def Let_def
      intro: accounted_same split: sum.splits prod.splits option.splits)

lemma accounted_body:
  assumes "si_tags s = si_tags s0" and "\<And>row tags samples res. accounted c req s0 (k row tags samples res)"
  shows "accounted c req s0 (with_problem_body w req' body k res s)"
  unfolding with_problem_body_def Let_def
  by (auto simp: assms(1) intro!: accounted_steps accounted_stop assms(2) split: option.splits)

lemma accounted_audited:
  assumes "ap_audit s = ap_audit s0" and "\<And>s'. ap_audit (snd (snd (k s'))) = ap_audit s'"
  shows "accounted c req s0 (audited w v c req action slug payload k res s)"
proof (cases "stoi (user_id c)")
  case (Some u)
  show ?thesis
  proof (cases "record_audit (wv_dump w) (db_env.truncate v) \<lparr>en_admin_id = Some u, en_action = action, en_target_type = Some ''problem'',
      en_target_id = Some slug, en_payload = payload, en_ip = Some (extract_client_ip req)\<rparr> (ap_audit s)")
    case (Inr y)
    then obtain i t where y: "y = (i, t)" by (cases y)
    have "logged c req (ap_audit s0) t" using Inr Some assms(1) unfolding y record_audit_Inr by (auto simp: logged_def)
    then show ?thesis using Some Inr y assms(2) by (simp add: audited_def accounted_def)
  qed (auto simp: audited_def Some)
qed (auto simp: audited_def)

lemma accounted_revision:
  assumes "\<And>rid revs. accounted c req s0 (k rid (s\<lparr>ap_revs := revs\<rparr>))"
  shows "accounted c req s0 (with_revision w v c' req' pid action summary row tags samples k res s)"
  using assms by (simp add: with_revision_def web_user_def Let_def accounted_def split: option.splits prod.splits)

lemma accounted_finish:
  assumes "ap_audit s = ap_audit s0" and "\<And>j res s. ap_audit (snd (snd (answer j res s))) = ap_audit s"
  shows "accounted c req s0 (finish_problem w e c req pid action summary aa front between row tags samples answer res s)"
  using assms by (auto simp: finish_problem_def split: prod.splits sum.splits intro!: accounted_revision accounted_audited)

lemma accounted_guard: "accounted c req s0 h \<Longrightarrow> accounted c req s0 (web_guard w h)"
  by (auto simp: accounted_def web_guard_def web_error_def send_error_def send_json_def split: prod.splits sum.splits handler_exn.splits)

lemma accounted_refusals:
  assumes "si_tags s = si_tags s0"
  shows "accounted c req s0 (no_problem w g res s)" "accounted c req s0 (slug_conflict w g res s)" "accounted c req s0 (web_ok w j res s)"
    "accounted c req s0 (web_error_with w st code m j res s)"
  using assms by (simp_all add: accounted_same)

lemmas accounting = accounted_steps accounted_body accounted_stop accounted_refusals accounted_audited accounted_finish

definition account ::
    "web_env \<Rightarrow> http_request \<Rightarrow> 'c admin_site_scheme \<Rightarrow> 'c admin_site_scheme web_result \<Rightarrow> bool" where
  "account w req s0 h \<longleftrightarrow> si_tags (snd (snd h)) = si_tags s0
     \<or> (\<exists>c. require_admin (wv_lib w) (wv_verify1 w) (wv_verify2 w) req (wv_jwt w) = Inr c \<and> accounted c req s0 h)"

lemma account_write:
  assumes "\<And>c res m. accounted c req s (k c res (s\<lparr>si_limiter := m\<rparr>))"
  shows "account w req s (web_guard w (admin_write w cfg now req k res s))"
proof (cases "require_admin (wv_lib w) (wv_verify1 w) (wv_verify2 w) req (wv_jwt w)")
  case (Inl g)
  then show ?thesis by (auto simp: account_def admin_write_def web_guard_def web_error_def split: sum.splits handler_exn.splits)
next
  case (Inr c)
  have "accounted c req s (with_limit w now (admin_write_quota cfg) req (k c) res s)"
    using assms by (auto simp: with_limit_def intro: accounted_stop split: prod.splits guard_result.splits)
  from accounted_guard [OF this] show ?thesis using Inr by (simp add: account_def admin_write_def)
qed

lemma account_create: "account w req s (web_guard w (admin_create_problem_handler w e cfg now req res s))"
  unfolding admin_create_problem_handler_def
  by (rule account_write) (auto simp: problem_changed_def intro!: accounting split: sum.splits)

lemma account_update: "account w req s (web_guard w (admin_update_problem_handler w e cfg now path req res s))"
  unfolding admin_update_problem_handler_def Let_def
  by (rule account_write) (auto simp: problem_changed_def intro!: accounting split: sum.splits problem_error.splits option.splits)

lemma soft_delete_none: "soft_delete v g d = Inr (False, d') \<Longrightarrow> d' = d"
proof -
  assume "soft_delete v g d = Inr (False, d')"
  then have *: "filter (\<lambda>p. (dv_eq v (p_slug p) g \<and> \<not> p_is_deleted p) \<and> (dv_count_matched v \<or> p\<lparr>p_is_deleted := True\<rparr> \<noteq> p)) (pd_problems d) = []"
    and d': "d' = snd (update_problems v (\<lambda>p. dv_eq v (p_slug p) g \<and> \<not> p_is_deleted p) (\<lambda>p. p\<lparr>p_is_deleted := True\<rparr>) d)"
    by (auto simp: soft_delete_def acquired_def sql_def update_problems_def split: option.splits)
  have "\<not> (dv_eq v (p_slug p) g \<and> \<not> p_is_deleted p)" if "p \<in> set (pd_problems d)" for p
  proof
    assume m: "dv_eq v (p_slug p) g \<and> \<not> p_is_deleted p"
    then have "p_is_deleted (p\<lparr>p_is_deleted := True\<rparr>) \<noteq> p_is_deleted p" by simp
    then have "p\<lparr>p_is_deleted := True\<rparr> \<noteq> p" by metis
    then show False using * m that by (auto simp: filter_empty_conv)
  qed
  then have "map (\<lambda>p. if dv_eq v (p_slug p) g \<and> \<not> p_is_deleted p then touched v (\<lambda>p. p\<lparr>p_is_deleted := True\<rparr>) p else p) (pd_problems d) = pd_problems d"
    by (intro map_idI) auto
  then show ?thesis by (simp add: d' update_problems_def)
qed

lemma account_delete: "account w req s (web_guard w (admin_delete_problem_handler w e cfg now path req res s))"
  unfolding admin_delete_problem_handler_def Let_def
  by (rule account_write) (auto simp: problem_changed_def dest!: soft_delete_none intro!: accounting split: sum.splits)

lemma account_judges:
  "account w req s (web_guard w (admin_put_special_judge_handler w e cfg now path req res s))"
  "account w req s (web_guard w (admin_delete_special_judge_handler w e cfg now path req res s))"
  "account w req s (web_guard w (admin_get_special_judge_handler w e cfg now path req res s))"
  unfolding admin_put_special_judge_handler_def admin_delete_special_judge_handler_def admin_get_special_judge_handler_def Let_def
  by (rule account_write, auto simp: problem_changed_def intro!: accounting split: sum.splits)+

text \<open>
  C17. Accountability of the administration of problems. Whatever the request and however the database behaves, when a
  request changes problems, tags, test cases or special judges, its caller is an administrator with a valid token; and unless the answer is
  an error of the server, exactly one row has been added to the audit log, with the id and the address of that
  administrator.\<close>

theorem problem_changes_audited:
  assumes "admin_problem_route_handler w e cfg now rt req res s = (r, res', s')" and "si_tags s' \<noteq> si_tags s"
  shows "\<exists>c. require_admin (wv_lib w) (wv_verify1 w) (wv_verify2 w) req (wv_jwt w) = Inr c
    \<and> (r = Inr () \<and> rsp_status res' \<noteq> 500 \<longrightarrow>
        (\<exists>x u. stoi (user_id c) = Some u \<and> at_rows (ap_audit s') = at_rows (ap_audit s) @ [x] \<and> au_admin_id x = Some u
          \<and> au_target_type x = Some ''problem'' \<and> au_ip x = Some (extract_client_ip req)))"
proof -
  have "account w req s (admin_problem_route_handler w e cfg now rt req res s)"
    by (cases rt) (simp_all add: account_create account_update account_delete account_judges)
  then show ?thesis using assms by (auto simp: account_def accounted_def logged_def)
qed

definition admin_demo :: admin_site where
  "admin_demo = \<lparr>si_tags = no_tags, si_subs = empty_table, si_limiter = [], ap_revs = no_revisions, ap_audit = \<lparr>at_rows = [], at_next = 1\<rparr>,
     ap_users = \<lparr>ud_users = [alice []], ud_next = 9, ud_history = []\<rparr>\<rparr>"

lemma admin_demo_deletes:
  "case admin_problem_route_handler (demo_web ''admin'' JNull) (\<lambda>_. tag_demo_env) (sb_rate demo_sub_cfg) 0 (RtAdminDelete ''/api/v1/admin/problems/sum'')
      web_req demo_res admin_demo of
     (r, res', s') \<Rightarrow> r = Inr () \<and> rsp_status res' = 204 \<and> map p_is_deleted (pd_problems (td_pd (si_tags s'))) = [True]"
  by code_simp

theorem problem_changes_audited_witness:
  "\<exists>c x u. require_admin (wv_lib (demo_web ''admin'' JNull)) (wv_verify1 (demo_web ''admin'' JNull)) (wv_verify2 (demo_web ''admin'' JNull)) web_req
      (wv_jwt (demo_web ''admin'' JNull)) = Inr c \<and> stoi (user_id c) = Some u
    \<and> at_rows (ap_audit (snd (snd (admin_problem_route_handler (demo_web ''admin'' JNull) (\<lambda>_. tag_demo_env) (sb_rate demo_sub_cfg) 0
        (RtAdminDelete ''/api/v1/admin/problems/sum'') web_req demo_res admin_demo)))) = [x] \<and> au_admin_id x = Some u"
proof -
  let ?h = "admin_problem_route_handler (demo_web ''admin'' JNull) (\<lambda>_. tag_demo_env) (sb_rate demo_sub_cfg) 0
    (RtAdminDelete ''/api/v1/admin/problems/sum'') web_req demo_res admin_demo"
  obtain r res' s' where h: "?h = (r, res', s')" by (metis prod_cases3)
  have g: "r = Inr ()" "rsp_status res' = 204" "map p_is_deleted (pd_problems (td_pd (si_tags s'))) = [True]"
    using admin_demo_deletes unfolding h by simp_all
  have "map p_is_deleted (pd_problems (td_pd (si_tags admin_demo))) = [False]"
    by (simp add: admin_demo_def no_tags_def one_problem_def demo_problem_def)
  then have "si_tags s' \<noteq> si_tags admin_demo" using g(3) by auto
  from problem_changes_audited [OF h this] g(1,2) show ?thesis unfolding h by (auto simp: admin_demo_def)
qed

text \<open>
  C40. A request to create or change a problem that leaves out the template, or has it null, is neither carried out nor
  answered: everything stored stays as it is and the response has no more content than before, although the template is
  optional.\<close>

theorem missing_template_ignored:
  assumes "rt = RtAdminCreate \<or> (\<exists>path slug. rt = RtAdminUpdate path \<and> extract_slug_from_admin_path path [] = Some slug)"
    and "require_admin (wv_lib w) (wv_verify1 w) (wv_verify2 w) req (wv_jwt w) = Inr c"
    and "consume_rate_limit (wv_parse w) now res req (si_limiter s) (admin_write_quota cfg) = (Passes, res1, m)"
    and "req_body req \<noteq> []" and "wv_parse w (req_body req) = Returns body"
    and "get_member body ''slug'' = Some (JStr a)" and "get_member body ''title'' = Some (JStr b)"
    and "get_member body ''difficulty'' = Some (JStr d)" and "get_member body ''description'' = Some (JStr t)"
    and "get_member body ''template'' = None \<or> get_member body ''template'' = Some JNull"
  shows "admin_problem_route_handler w e cfg now rt req res s = (Inr (), res1, s\<lparr>si_limiter := m\<rparr>) \<and> rsp_content res1 = rsp_content res"
proof -
  have body: "with_problem_body w req body k res1 s1 = (Inr (), res1, s1)" for k and s1 :: "'a admin_site_scheme"
    using assms(6-10) by (auto simp: with_problem_body_def or_refuse_def require_string_def optional_string_def)
  have json: "with_json w req k res1 s1 = k body" for k and s1 :: "'a admin_site_scheme"
    using assms(4,5) by (simp add: with_json_def parse_json_body_def)
  have "admin_problem_route_handler w e cfg now rt req res s = (Inr (), res1, s\<lparr>si_limiter := m\<rparr>)"
    using assms(1) by (auto simp: admin_create_problem_handler_def admin_update_problem_handler_def admin_write_def with_limit_def assms(2,3)
        with_admin_slug_def json body web_guard_def)
  moreover have "rsp_content res1 = rsp_content res"
    using assms(3) by (auto simp: consume_rate_limit_def Let_def set_header_def split: prod.splits if_splits option.splits)
  ultimately show ?thesis by simp
qed

definition no_template :: json where
  "no_template = JObj [(''slug'', JStr ''two-sum''), (''title'', JStr ''Two Sum''), (''difficulty'', JStr ''easy''), (''description'', JStr ''Add.'')]"

theorem missing_template_ignored_witness:
  "case admin_problem_route_handler (demo_web ''admin'' no_template) (\<lambda>_. tag_demo_env) (sb_rate demo_sub_cfg) 0 RtAdminCreate web_req demo_res admin_demo of
     (r, res', s') \<Rightarrow> r = Inr () \<and> rsp_content res' = None \<and> si_tags s' = si_tags admin_demo"
proof -
  let ?w = "demo_web ''admin'' no_template"
  let ?c = "consume_rate_limit (wv_parse ?w) 0 demo_res web_req (si_limiter admin_demo) (admin_write_quota (sb_rate demo_sub_cfg))"
  have "fst ?c = Passes" by code_simp
  then obtain res1 m where l: "?c = (Passes, res1, m)" by (metis prod.collapse)
  have "\<not> isl (require_admin (wv_lib ?w) (wv_verify1 ?w) (wv_verify2 ?w) web_req (wv_jwt ?w))" by code_simp
  then obtain c where c: "require_admin (wv_lib ?w) (wv_verify1 ?w) (wv_verify2 ?w) web_req (wv_jwt ?w) = Inr c" by (metis isl_def sum.exhaust)
  have "admin_problem_route_handler ?w (\<lambda>_. tag_demo_env) (sb_rate demo_sub_cfg) 0 RtAdminCreate web_req demo_res admin_demo
      = (Inr (), res1, admin_demo\<lparr>si_limiter := m\<rparr>) \<and> rsp_content res1 = rsp_content demo_res"
    by (rule missing_template_ignored [OF _ c l, where body = no_template])
      (simp_all add: web_req_def no_template_def get_member_def)
  then show ?thesis by (simp add: demo_res_def)
qed

end
