(* ===== verification/Spec2Isabelle.thy ===== *)
theory Spec2Isabelle
  imports Submission_Reads Docker_Client Connection_Pool Metrics Tag_Repo Auth_Sessions Auth_Account Login_Lockout Checkins Config Discussion_Counters Admin_Problems
begin

text \<open>
  LiteCode is an online judge written in C++ (with the bcrypt code in C). An HTTP server
  authenticates users, stores submissions in MySQL, and hands them to a scheduler whose workers run
  the code in docker containers and write the verdicts back. This library models the logic
  that decides who gets in and what becomes of a submission, function by function, and
  proves the properties below. Paths are relative to the
  repository's \<^verbatim>\<open>src\<close> directory.

  \<^bold>\<open>How the parts interact.\<close>
  A request passes the rate limiter (\<^verbatim>\<open>middleware/rate_limit.h\<close>) and the authentication
  and role guards (\<^verbatim>\<open>middleware/auth_middleware.h\<close>, \<^verbatim>\<open>middleware/admin_middleware.h\<close>), which verify an
  access token (\<^verbatim>\<open>auth/jwt_utils.h\<close>). Logging in checks a bcrypt hash (\<^verbatim>\<open>auth/password_hash.h\<close> over
  \<^verbatim>\<open>auth/bcrypt\<close>) and sends the refresh token as a cookie (\<^verbatim>\<open>utils/cookie_utils.h\<close>), which is rotated
  against a revocation store (\<^verbatim>\<open>auth/refresh_token.h\<close>). A submission is inserted as pending
  (\<^verbatim>\<open>db/submission_repo.h\<close>) and queued; a worker claims the row, takes a container from the
  warm pool or creates one (\<^verbatim>\<open>judge/warm_pool.h\<close>, \<^verbatim>\<open>judge/judge_scheduler.h\<close>), reads the verdict from
  its output, stores it and wakes the requests that wait for it (\<^verbatim>\<open>judge/judge_notifier.h\<close>).

  \<^bold>\<open>Theories.\<close>
  \<^item> \<open>Prelude\<close>: words, bytes, characters, 32-bit integers and decimal numbers as C and C++ have them, the simp
    collections, and lemmas on lists the components share.
  \<^item> \<open>Blowfish\<close> (\<^verbatim>\<open>auth/bcrypt/blf.c\<close>), \<open>Bcrypt\<close> (\<^verbatim>\<open>auth/bcrypt/bcrypt.c\<close>), \<open>Password_Hash\<close>
    (\<^verbatim>\<open>auth/password_hash.h\<close>): 32-bit words with wrap-around, the cipher context as a record, output
    buffers as results, error returns as \<open>None\<close> or as exceptions in a sum. Decryption inverts
    encryption, the base64 codec round-trips, a hash verifies with its own password, and
    \<open>bcrypt_checkpass\<close> accepts exactly the strings that rehashing reproduces.
  \<^item> \<open>Containers\<close>: \<^verbatim>\<open>std::unordered_map\<close> behind the locale \<open>unordered_map\<close>, interpreted as \<open>um\<close> on
    association lists; the notifier, the revocation store and the rate limiter rest on its facts.
  \<^item> \<open>Judge_Notifier\<close>: the registry as a record; the locale \<open>callback_registry\<close> is its contract and
    the interpretation \<open>reg\<close> discharges it. Publishing calls every subscriber once, in order.
  \<^item> \<open>Submission_Repo\<close>: the submissions table as a list of row records, one definition per statement
    with its \<^verbatim>\<open>WHERE\<close> clause, and a step relation that interleaves the statements of any number of
    sessions. At most one verdict per submission, claims are exclusive, terminal rows are final.
  \<^item> \<open>Http\<close> (\<^verbatim>\<open>routes/error_handler.h\<close>), \<open>Cookie_Utils\<close>, \<open>Validators\<close> (\<^verbatim>\<open>utils/security.h\<close>,
    \<^verbatim>\<open>utils/uuid.h\<close>, \<^verbatim>\<open>middleware/request_id.h\<close>, the validators of the user and problem repositories): the
    response envelopes, the cookie header and its parser, the string checks of the input.
  \<^item> \<open>Jwt_Utils\<close>, \<open>Refresh_Token\<close>, \<open>Auth_Middleware\<close>: tokens as claims; \<^verbatim>\<open>jwt-cpp\<close> is a record of
    functions with named hypotheses. The locale \<open>revocation_store\<close> is the abstract class
    \<^verbatim>\<open>RevocationStore\<close> of the source, interpreted as \<open>mem\<close> on the in-memory store; rotation is split at
    the points where other sessions may run. Between two rotations any list of operations on the store may run
    (\<open>run_ops\<close>): a token whose rotation is complete is used up. Overlapping rotations are a theorem of their own.
  \<^item> \<open>Double\<close>, \<open>Rate_Limit\<close>: token buckets in IEEE double arithmetic, computed on rationals with
    explicit rounding; the bound on the requests let through holds for the rounded arithmetic.
  \<^item> \<open>Warm_Pool\<close>, \<open>Judge_Scheduler\<close>: the queue of idle containers and of tasks, each operation of a
    class under its mutex one step; a step relation interleaves the callers. One judging run is a
    function of what docker, the file system and the database answer (\<open>task_env\<close>), and its trace
    lists the calls it made. Every container created is removed; if the database answers, a claimed submission
    reaches a verdict unless the judge's status is none; and only stored verdicts are announced.
  \<^item> \<open>Docker_Client\<close> (\<^verbatim>\<open>judge/docker_client.h\<close>): the URL parser, the query builder, the loop that strips the
    frames of a log, and one definition per call of the client; sending a request is an argument.
    Stripping ends on every body and inverts the framing, so that the verdict the judge prints
    reaches the scheduler's parser.
  \<^item> \<open>Sample_Runner\<close> (\<^verbatim>\<open>judge/sample_runner.h\<close>): a run of the sample cases, with the permits that bound the
    number of runs; every path gives back its permit and removes its container.
  \<^item> \<open>Login_Tracker\<close> (the lockout of \<^verbatim>\<open>routes/auth_routes.h\<close>), \<open>User_Repo\<close>, \<open>Audit_Log\<close>, \<open>Problem_Repo\<close> (problems, test
    cases, special judges), \<open>Tag_Repo\<close>: tables as lists of rows with their keys and foreign keys, one
    definition per function of the repository. A collation, an equivalence on strings, is a
    parameter; a fault of any statement is one too. The unique and foreign keys of \<^verbatim>\<open>db/migrations\<close> (at the root of the
    repository) are part of the statements, since the server checks them, and hold in every state the operations reach; the theorems
    are about what the code does with them: renaming, deleting and restoring, and transactions that change all or nothing.
  \<^item> \<open>Auth_Routes\<close>, \<open>Auth_Sessions\<close>, \<open>Auth_Account\<close> (\<^verbatim>\<open>routes/auth_routes.h\<close>): the handlers over these
    components, with the state of the server as a record. What a login, a refresh, a logout and the
    changes of an account require and change, and how they compose. \<open>Login_Lockout\<close>: what a login request does to the failure
    tracker, and the bound on wrong passwords for one name when requests are handled one after another.
  \<^item> \<open>Submission_Routes\<close>, \<open>Submission_Reads\<close> (\<^verbatim>\<open>routes/submission_routes.h\<close>): storing and queueing a submission, reading and
    listing submissions, waiting for a verdict, running the samples. What becomes of a
    request on every path, who may see a submission, and when a waiting request gets the verdict, with other users of the
    notifier in between.
  \<^item> \<open>Connection_Pool\<close> (\<^verbatim>\<open>db/connection_pool.h\<close>): the accounting of the pool and the move-only
    connections, as an implementation of a set of leases.
  \<^item> \<open>Metrics\<close> (\<^verbatim>\<open>routes/metrics.h\<close>): counters, gauges and histograms and the text they are printed as.
  \<^item> \<open>Web\<close>: what the community handlers share: the guards around a handler, paging, ids in paths, one statement
    on a connection. \<open>Utf8\<close>: the sanitizer of \<^verbatim>\<open>routes/solution_routes.h\<close> and the validity it establishes.
  \<^item> \<open>Checkins\<close> (\<^verbatim>\<open>db/checkin_repo.h\<close>, \<^verbatim>\<open>routes/checkin_routes.h\<close>): the stored streaks are those of the days with a check-in.
  \<^item> \<open>Notifications\<close> (\<^verbatim>\<open>db/notification_repo.h\<close>, \<^verbatim>\<open>routes/notification_routes.h\<close>): the table, the channels of the event
    streams and the notifications other routes send. A user sees and marks only the own ones.
  \<^item> \<open>Likes\<close>: liking and unliking behind the locale \<open>like_counter\<close>, with a step relation that interleaves the
    statements of overlapping requests. \<open>Solutions\<close> (\<^verbatim>\<open>db/solution_repo.h\<close>, \<^verbatim>\<open>db/solution_comment_repo.h\<close>) interprets it for solutions
    (\<open>sol\<close>) and comments (\<open>com\<close>); \<open>Solution_Routes\<close> (\<^verbatim>\<open>routes/solution_routes.h\<close>) has the handlers, and \<open>Solution_Counters\<close> shows that the
    counters stay exact through any sequence of requests.
  \<^item> \<open>Discussions\<close>, \<open>Discussion_Counters\<close> (\<^verbatim>\<open>db/discussion_repo.h\<close>, \<^verbatim>\<open>routes/discussion_routes.h\<close>): threads, replies, their likes (the
    interpretation \<open>dis\<close> of \<open>like_counter\<close>) and the upload of images. The reply counters stay exact, and only the author or an
    administrator deletes a thread.
  \<^item> \<open>Problem_Routes\<close> (\<^verbatim>\<open>routes/problem_routes.h\<close>, \<^verbatim>\<open>routes/tag_routes.h\<close>): the public pages of the problem set. What they answer does
    not depend on deleted problems or hidden test cases.
  \<^item> \<open>Revisions\<close> (\<^verbatim>\<open>db/problem_revisions_repo.h\<close>): the numbered history of every problem. \<open>Admin_Problems\<close>
    (\<^verbatim>\<open>routes/admin_problem_routes.h\<close>): creating, changing and deleting problems and special judges over the
    repositories, the history and the audit log. Every change is an administrator's and is in the audit log.
  \<^item> \<open>Config\<close> (\<^verbatim>\<open>config.h\<close>): the environment file, the settings read from the environment, their checks and the
    printout without secrets. Settings that are accepted are usable (but for a connection timeout that overflows), and the printout
    depends on the secrets only through the length of the token secret and whether a password of the cache is set.

  \<^bold>\<open>Conventions.\<close>
  A class is a record and its methods are functions that return the new record; the mutex of a class
  makes each of its critical sections one step. Exceptions are the left side of a sum, with one
  constructor per class of the source. The content of a response is a JSON document; that printing it can throw is modelled
  around the handlers (\<open>printed\<close>, \<open>web_ok\<close>). Integers whose width matters are words or carry the range
  they are used in; the products and sums of \<^verbatim>\<open>int\<close> that can leave its range wrap (\<open>int_mul\<close>, \<open>int_add\<close>), where C++ leaves
  the result undefined; times are nanoseconds or milliseconds as integers, and a clock read twice is two
  arguments. Loops over indices are recursion on the unread part of a list. No definition needs
  fuel: every loop of the modelled code runs over a finite list or a counter, except the one that strips the
  frames of a log, which is a \<open>while_option\<close> with a proof that it ends; so the functions are
  total and the theorems say that results exist. In \<open>Double\<close> the exponent range is unbounded; the
  values of the rate limiter stay between \<open>2^-63\<close> and \<open>2^64\<close>, where binary64 is not near its limits,
  and \<open>quota_ok\<close> states the range of the configured quotas.

  \<^bold>\<open>Behaviour worth knowing.\<close>
  Some theorems describe what the code does where its comments promise more: a revocation is kept in
  whole seconds, so a rotated token is accepted again in the last fraction of its validity
  (\<open>rotation_replay_window\<close>); two overlapping rotations of one token both succeed
  (\<open>overlapping_rotations\<close>); a status that is no verdict leaves a submission running
  (\<open>unknown_status_stuck\<close>); a task accepted during shutdown may find no worker
  (\<open>late_task_never_judged\<close>); a waiter that was served and leaves removes the subscription of a newcomer
  (\<open>served_waiter_drops_newcomer\<close>); \<^verbatim>\<open>$2y$\<close> hashes never verify (\<open>version_2y_never_verifies\<close>); another spelling of a
  user name is never locked out (\<open>spelling_escapes_lockout\<close>); a failure to read the test cases queues a
  task without any (\<open>failed_load_queues_no_cases\<close>); a verdict published before a request subscribes is missed
  (\<open>sse_missed_verdict\<close>); resolving a tag name that is stored in another spelling fails (\<open>resolver_outcome\<close>);
  an error after the insert of a check-in loses the streak (\<open>checkin_half_done\<close>); a single notification can never be marked as
  read (\<open>mark_one_never_marks\<close>) and none reaches an event stream (\<open>stream_never_delivers\<close>); a like may be stored and
  answered with 500 (\<open>like_fails_after_storing\<close>); one excerpt cut inside a character empties a list of solutions
  (\<open>cut_excerpt_empties_list\<close>); overlapping requests of one user leave a like counter wrong (\<open>likes_of_one_user_drift\<close>); a problem
  with a hundred newer ones has no neighbours (\<open>navigation_stops_after_100\<close>); a problem sent without a template is
  neither stored nor answered (\<open>missing_template_ignored\<close>); a port beyond 16 bits is reduced silently (\<open>port_reduced\<close>);
  a connection timeout of 3000000 seconds is accepted and keeps the pool from starting (\<open>long_timeout_refused\<close>).

  \<^bold>\<open>Not modelled.\<close>
  Input and output (HTTP server, MySQL client, logging, process
  start-up), the shell scripts inside the judge image, the front end, the tests and the tools. The
  results of such calls are arguments of the definitions that use them. The statistics, the
  system pages, the bulk import and the administration of users, the audit log and the queue are not modelled either: they compose
  repositories that are modelled here with further SQL statements.
\<close>

end
